(* ===== verification/Disk_Prelude.thy ===== *)
theory Disk_Prelude
  imports Main "HOL-Library.Word" "HOL-Library.Char_ord" "HOL-Library.List_Lexorder"
    "HOL-Library.Product_Lexorder"
begin

text \<open>
  Shared vocabulary of the development: the collections of simplification and introduction
  rules the component theories add to, tables as lists of rows with the guarded update that
  an SQL \<^verbatim>\<open>UPDATE ... WHERE\<close> statement performs, the sums over tables in which the
  accounting properties are stated, and the decimal rendering of \<^verbatim>\<open>std::to_string\<close>.
\<close>

named_theorems monad_simps \<open>unfolding rules of the session monad\<close>
named_theorems keeps_intros \<open>introduction rules for operations that keep a relation\<close>
named_theorems table_simps \<open>rewriting of table updates\<close>

section \<open>Tables\<close>

text \<open>
  A table is the list of its rows.  \<open>update_where p f\<close> is \<^verbatim>\<open>UPDATE t SET f WHERE p\<close>,
  \<open>affected p\<close> its row count and \<open>find_row p\<close> the first row a
  \<^verbatim>\<open>SELECT ... WHERE p\<close> returns.
\<close>

definition update_where :: "('r \<Rightarrow> bool) \<Rightarrow> ('r \<Rightarrow> 'r) \<Rightarrow> 'r list \<Rightarrow> 'r list" where
  "update_where p f rs = map (\<lambda>r. if p r then f r else r) rs"

definition affected :: "('r \<Rightarrow> bool) \<Rightarrow> 'r list \<Rightarrow> nat" where
  "affected p rs = length (filter p rs)"

definition find_row :: "('r \<Rightarrow> bool) \<Rightarrow> 'r list \<Rightarrow> 'r option" where
  "find_row p rs = List.find p rs"

lemma update_where_Nil [simp, table_simps]: "update_where p f [] = []"
  by (simp add: update_where_def)

lemma update_where_Cons [simp, table_simps]:
  "update_where p f (r # rs) = (if p r then f r else r) # update_where p f rs"
  by (simp add: update_where_def)

lemma length_update_where [simp]: "length (update_where p f rs) = length rs"
  by (simp add: update_where_def)

lemma set_update_where:
  "set (update_where p f rs) = f ` {r \<in> set rs. p r} \<union> {r \<in> set rs. \<not> p r}"
  by (auto simp: update_where_def)

lemma mem_update_where:
  "x \<in> set (update_where p f rs) \<longleftrightarrow> (\<exists>r \<in> set rs. x = (if p r then f r else r))"
  by (auto simp: update_where_def)

lemma update_where_none: "affected p rs = 0 \<Longrightarrow> update_where p f rs = rs"
  by (induction rs) (auto simp: affected_def split: if_splits)

lemma affected_pos_iff: "0 < affected p rs \<longleftrightarrow> (\<exists>r \<in> set rs. p r)"
  by (induction rs) (auto simp: affected_def)

lemma affected_zero_iff: "affected p rs = 0 \<longleftrightarrow> (\<forall>r \<in> set rs. \<not> p r)"
  using affected_pos_iff [of p rs] by auto

lemma affected_key_le: "distinct (map key rs) \<Longrightarrow> affected (\<lambda>r. key r = k) rs \<le> 1"
proof (induction rs)
  case (Cons r rs)
  then show ?case by (cases "key r = k") (auto simp: affected_def filter_empty_conv rev_image_eqI)
qed (simp add: affected_def)

lemma find_row_Some: "find_row p rs = Some r \<Longrightarrow> r \<in> set rs \<and> p r"
  by (auto simp: find_row_def find_Some_iff)

lemma find_row_None: "find_row p rs = None \<longleftrightarrow> (\<forall>r \<in> set rs. \<not> p r)"
  by (auto simp: find_row_def find_None_iff)

section \<open>Sums over tables\<close>

definition total :: "('r \<Rightarrow> int) \<Rightarrow> 'r list \<Rightarrow> int" where
  "total w rs = sum_list (map w rs)"

lemma total_Nil [simp]: "total w [] = 0"
  by (simp add: total_def)

lemma total_Cons [simp]: "total w (r # rs) = w r + total w rs"
  by (simp add: total_def)

lemma total_append [simp]: "total w (rs @ ss) = total w rs + total w ss"
  by (simp add: total_def)

lemma total_nonneg: "(\<And>r. r \<in> set rs \<Longrightarrow> 0 \<le> w r) \<Longrightarrow> 0 \<le> total w rs"
  by (induction rs) auto

lemma total_ge_member:
  "r \<in> set rs \<Longrightarrow> (\<And>x. x \<in> set rs \<Longrightarrow> 0 \<le> w x) \<Longrightarrow> w r \<le> total w rs"
  by (induction rs) (auto intro: total_nonneg add_increasing add_increasing2)

lemma total_update_same:
  "(\<And>r. r \<in> set rs \<Longrightarrow> p r \<Longrightarrow> w (f r) = w r) \<Longrightarrow> total w (update_where p f rs) = total w rs"
  by (induction rs) auto

lemma total_zero: "(\<And>r. r \<in> set rs \<Longrightarrow> w r = 0) \<Longrightarrow> total w rs = 0"
  by (induction rs) auto

lemma total_filter_zero:
  "(\<And>r. r \<in> set rs \<Longrightarrow> \<not> p r \<Longrightarrow> w r = 0) \<Longrightarrow> total w (filter p rs) = total w rs"
  by (induction rs) auto

section \<open>The contract of a keyed update\<close>

text \<open>
  Every \<^verbatim>\<open>UPDATE\<close> of the program assigns non-key columns, so the rows keep their
  primary keys.  The locale collects what follows: keys stay distinct, a row survives under
  its key, and where the guard pins the key the statement changes one row and a sum over the
  table moves by the difference on that row.
\<close>

locale keyed_update =
  fixes key :: "'r \<Rightarrow> 'k" and guard :: "'r \<Rightarrow> bool" and upd :: "'r \<Rightarrow> 'r"
  assumes key_upd: "key (upd r) = key r"
begin

lemma keys_update: "map key (update_where guard upd rs) = map key rs"
  by (simp add: update_where_def key_upd)

lemma distinct_keys_update:
  "distinct (map key (update_where guard upd rs)) \<longleftrightarrow> distinct (map key rs)"
  by (simp add: keys_update)

lemma row_survives:
  "r \<in> set rs \<Longrightarrow> \<exists>r' \<in> set (update_where guard upd rs). key r' = key r \<and> (r' = r \<or> guard r \<and> r' = upd r)"
  by (rule bexI [of _ "if guard r then upd r else r"]) (auto simp: mem_update_where key_upd)

lemma row_origin:
  "r' \<in> set (update_where guard upd rs) \<Longrightarrow>
   \<exists>r \<in> set rs. key r' = key r \<and> (\<not> guard r \<and> r' = r \<or> guard r \<and> r' = upd r)"
  by (auto simp: mem_update_where key_upd)

lemma other_rows:
  "(\<And>r. guard r \<Longrightarrow> key r = k) \<Longrightarrow> r \<in> set rs \<Longrightarrow> key r \<noteq> k \<Longrightarrow>
   r \<in> set (update_where guard upd rs)"
  by (auto simp: mem_update_where intro!: bexI [of _ r])

lemma total_pinned:
  assumes "distinct (map key rs)" and "\<And>r. guard r \<Longrightarrow> key r = k"
    and "r0 \<in> set rs" and "guard r0"
  shows "total w (update_where guard upd rs) = total w rs - w r0 + w (upd r0)"
  using assms
proof (induction rs)
  case Nil
  then show ?case by simp
next
  case (Cons r rs)
  show ?case
  proof (cases "r = r0")
    case True
    have "\<not> guard x" if "x \<in> set rs" for x
      using that Cons.prems True by (metis distinct.simps(2) image_eqI list.set_map list.simps(9))
    then have "update_where guard upd rs = rs"
      by (intro update_where_none) (simp add: affected_zero_iff)
    with True Cons.prems show ?thesis by simp
  next
    case False
    with Cons.prems have "r0 \<in> set rs" by simp
    with Cons.prems have "\<not> guard r"
      by (metis distinct.simps(2) image_eqI list.set_map list.simps(9))
    with Cons False show ?thesis by simp
  qed
qed

lemma affected_pinned:
  assumes "distinct (map key rs)" and "\<And>r. guard r \<Longrightarrow> key r = k"
  shows "affected guard rs \<le> 1"
  using assms
proof (induction rs)
  case (Cons r rs)
  have "affected guard rs = 0" if "guard r"
    using that Cons.prems by (force simp: affected_zero_iff)
  with Cons show ?case
    by (auto simp: affected_def)
qed (simp add: affected_def)

end

section \<open>Integer conversions\<close>

text \<open>\<^verbatim>\<open>static_cast<int32_t>\<close>, \<^verbatim>\<open>static_cast<int64_t>\<close> and \<^verbatim>\<open>static_cast<uint32_t>\<close>: reduction modulo \<open>2\<^sup>3\<^sup>2\<close> or \<open>2\<^sup>6\<^sup>4\<close>, read in two's complement or unsigned.\<close>

definition to_int32 :: "int \<Rightarrow> int" where
  "to_int32 x = (x + 2 ^ 31) mod 2 ^ 32 - 2 ^ 31"

definition to_int64 :: "int \<Rightarrow> int" where
  "to_int64 x = (x + 2 ^ 63) mod 2 ^ 64 - 2 ^ 63"

definition to_uint32 :: "int \<Rightarrow> nat" where
  "to_uint32 x = nat (x mod 2 ^ 32)"

lemma to_int64_id: "- (2 ^ 63) \<le> x \<Longrightarrow> x < 2 ^ 63 \<Longrightarrow> to_int64 x = x"
  by (simp add: to_int64_def)

lemma to_int32_id: "- (2 ^ 31) \<le> x \<Longrightarrow> x < 2 ^ 31 \<Longrightarrow> to_int32 x = x"
  by (simp add: to_int32_def)

lemma to_uint32_to_int32: "0 \<le> x \<Longrightarrow> x < 2 ^ 32 \<Longrightarrow> to_uint32 (to_int32 x) = nat x"
  unfolding to_uint32_def to_int32_def
  by (metis (no_types, opaque_lifting) add_diff_cancel_right' mod_diff_left_eq mod_pos_pos_trivial)

section \<open>Decimal rendering\<close>

text \<open>\<^verbatim>\<open>std::to_string\<close> and \<^verbatim>\<open>operator<<\<close> on an unsigned integer: the decimal digits.\<close>

definition digit :: "nat \<Rightarrow> char" where
  "digit n = char_of (48 + n)"

fun decimal :: "nat \<Rightarrow> string" where
  "decimal n = (if n < 10 then [digit n] else decimal (n div 10) @ [digit (n mod 10)])"

declare decimal.simps [simp del]

definition undecimal :: "string \<Rightarrow> nat" where
  "undecimal s = foldl (\<lambda>acc c. 10 * acc + (of_char c - 48)) 0 s"

lemma of_char_digit: "n < 10 \<Longrightarrow> (of_char (digit n) :: nat) = 48 + n"
  by (simp add: digit_def)

lemma undecimal_snoc: "undecimal (s @ [c]) = 10 * undecimal s + (of_char c - 48)"
  by (simp add: undecimal_def)

lemma undecimal_decimal [simp]: "undecimal (decimal n) = n"
proof (induction n rule: decimal.induct)
  case (1 n)
  show ?case
  proof (cases "n < 10")
    case True
    then show ?thesis
      by (subst decimal.simps) (simp add: undecimal_def of_char_digit)
  next
    case False
    with 1 have "undecimal (decimal (n div 10)) = n div 10" by simp
    with False show ?thesis
      by (subst decimal.simps) (simp add: undecimal_snoc of_char_digit)
  qed
qed

lemma decimal_inject [simp]: "decimal m = decimal n \<longleftrightarrow> m = n"
  by (metis undecimal_decimal)

lemma decimal_digits: "c \<in> set (decimal n) \<Longrightarrow> \<exists>d < 10. c = digit d"
proof (induction n rule: decimal.induct)
  case (1 n)
  show ?case
  proof (cases "n < 10")
    case True
    with 1 show ?thesis by (subst (asm) (2) decimal.simps) auto
  next
    case False
    with 1(2) have "c \<in> set (decimal (n div 10)) \<or> c = digit (n mod 10)"
      by (subst (asm) decimal.simps) auto
    moreover have "n mod 10 < 10" by simp
    ultimately show ?thesis using 1(1) False by blast
  qed
qed

lemma decimal_nonempty [simp]: "decimal n \<noteq> []"
  by (subst decimal.simps) simp

lemma digit_not_colon: "d < 10 \<Longrightarrow> digit d \<noteq> CHR '':''"
proof
  assume "d < 10" and "digit d = CHR '':''"
  then have "(48 + d :: nat) = of_char (CHR '':'')"
    using of_char_digit [of d] by simp
  with \<open>d < 10\<close> show False by simp
qed

lemma colon_notin_decimal: "CHR '':'' \<notin> set (decimal n)"
  using decimal_digits [of "CHR '':''" n] digit_not_colon by metis

text \<open>Splitting at the last colon: two keys ending in a colon and a number agree only if their parts do.\<close>

lemma split_at_first:
  "x \<notin> set us \<Longrightarrow> x \<notin> set vs \<Longrightarrow> us @ x # ss = vs @ x # ts \<longleftrightarrow> us = vs \<and> ss = ts"
proof (induction us arbitrary: vs)
  case Nil
  then show ?case by (cases vs) auto
next
  case (Cons u us)
  then show ?case by (cases vs) auto
qed

lemma append_colon_decimal_inject:
  "s @ '':'' @ decimal m = t @ '':'' @ decimal n \<longleftrightarrow> s = t \<and> m = n"
proof
  assume eq: "s @ '':'' @ decimal m = t @ '':'' @ decimal n"
  have "rev (decimal m) @ CHR '':'' # rev s = rev (decimal n) @ CHR '':'' # rev t"
    using arg_cong [OF eq, of rev] by simp
  moreover have "CHR '':'' \<notin> set (rev (decimal m))" "CHR '':'' \<notin> set (rev (decimal n))"
    using colon_notin_decimal by simp_all
  ultimately have "rev (decimal m) = rev (decimal n) \<and> rev s = rev t"
    by (simp add: split_at_first)
  then show "s = t \<and> m = n"
    by simp
qed auto

end
