(* ===== verification/Error_Code.thy ===== *)
theory Error_Code
  imports Disk_Prelude
begin

text \<open>
  The error codes of the server (src/src/utils/ErrorCode.hpp): the enumeration, its integer
  values, the HTTP status and the default message of each code, and the pair of code and
  message that every service returns on its error paths.  A C++ \<^verbatim>\<open>Result<T>\<close>
  (\<^verbatim>\<open>std::expected<T, ErrorInfo>\<close>) is a sum with the error on the left.
\<close>

section \<open>Codes\<close>

datatype Code =
    Success
  | InvalidParameter
  | ValidationFailed
  | ResourceNotFound
  | ResourceConflict
  | TooManyRequests
  | InternalError
  | UsernameExists
  | EmailExists
  | UserNotFound
  | InvalidCredentials
  | AccountLocked
  | AccountDisabled
  | InvalidToken
  | InvalidRefreshToken
  | TokenMissing
  | TokenMalformed
  | TokenExpired
  | TokenWrongType
  | RefreshTokenAlreadyUsed
  | TokenRevoked
  | InvalidFilename
  | StorageQuotaExceeded
  | FileNotFound
  | FolderNotFound
  | FileAlreadyExists
  | UploadTaskNotFound
  | ChunkVerifyFailed
  | FolderAlreadyExists
  | FileReadError
  | UploadTaskCreationDisabled
  | UploadLifecycleFrozen
  | ShareNotFound
  | ShareExpired
  | SharePasswordError
  | ShareAccessDenied
  | RedisOperationFailed
  | RedisKeyNotFound
  | AdminRequired
  | AdminUserNotFound
  | AdminCannotModifySelf
  | AdminCannotDemoteLast
  | AdminShareNotFound
  | AdminInvalidStatus
  | AdminInvalidRole

primrec ToInt :: "Code \<Rightarrow> nat" where
  "ToInt Success = 0"
| "ToInt InvalidParameter = 10001"
| "ToInt ValidationFailed = 10002"
| "ToInt ResourceNotFound = 10003"
| "ToInt ResourceConflict = 10004"
| "ToInt TooManyRequests = 10005"
| "ToInt InternalError = 10006"
| "ToInt UsernameExists = 40001"
| "ToInt EmailExists = 40002"
| "ToInt UserNotFound = 40100"
| "ToInt InvalidCredentials = 40101"
| "ToInt AccountLocked = 40102"
| "ToInt AccountDisabled = 40103"
| "ToInt InvalidToken = 40104"
| "ToInt InvalidRefreshToken = 40105"
| "ToInt TokenMissing = 40106"
| "ToInt TokenMalformed = 40107"
| "ToInt TokenExpired = 40108"
| "ToInt TokenWrongType = 40109"
| "ToInt RefreshTokenAlreadyUsed = 40110"
| "ToInt TokenRevoked = 40111"
| "ToInt InvalidFilename = 50001"
| "ToInt StorageQuotaExceeded = 50004"
| "ToInt FileNotFound = 50005"
| "ToInt FolderNotFound = 50006"
| "ToInt FileAlreadyExists = 50007"
| "ToInt UploadTaskNotFound = 50008"
| "ToInt ChunkVerifyFailed = 50009"
| "ToInt FolderAlreadyExists = 50010"
| "ToInt FileReadError = 50011"
| "ToInt UploadTaskCreationDisabled = 50012"
| "ToInt UploadLifecycleFrozen = 50013"
| "ToInt ShareNotFound = 60001"
| "ToInt ShareExpired = 60002"
| "ToInt SharePasswordError = 60003"
| "ToInt ShareAccessDenied = 60004"
| "ToInt RedisOperationFailed = 70002"
| "ToInt RedisKeyNotFound = 70003"
| "ToInt AdminRequired = 80001"
| "ToInt AdminUserNotFound = 80002"
| "ToInt AdminCannotModifySelf = 80003"
| "ToInt AdminCannotDemoteLast = 80004"
| "ToInt AdminShareNotFound = 80005"
| "ToInt AdminInvalidStatus = 80006"
| "ToInt AdminInvalidRole = 80007"

primrec GetHttpStatus :: "Code \<Rightarrow> nat" where
  "GetHttpStatus Success = 200"
| "GetHttpStatus InvalidParameter = 400"
| "GetHttpStatus ValidationFailed = 400"
| "GetHttpStatus ResourceNotFound = 404"
| "GetHttpStatus ResourceConflict = 409"
| "GetHttpStatus TooManyRequests = 429"
| "GetHttpStatus InternalError = 500"
| "GetHttpStatus UsernameExists = 400"
| "GetHttpStatus EmailExists = 400"
| "GetHttpStatus UserNotFound = 404"
| "GetHttpStatus InvalidCredentials = 401"
| "GetHttpStatus AccountLocked = 401"
| "GetHttpStatus AccountDisabled = 401"
| "GetHttpStatus InvalidToken = 401"
| "GetHttpStatus InvalidRefreshToken = 401"
| "GetHttpStatus TokenMissing = 401"
| "GetHttpStatus TokenMalformed = 401"
| "GetHttpStatus TokenExpired = 401"
| "GetHttpStatus TokenWrongType = 401"
| "GetHttpStatus RefreshTokenAlreadyUsed = 401"
| "GetHttpStatus TokenRevoked = 401"
| "GetHttpStatus InvalidFilename = 400"
| "GetHttpStatus StorageQuotaExceeded = 400"
| "GetHttpStatus FileNotFound = 404"
| "GetHttpStatus FolderNotFound = 404"
| "GetHttpStatus FileAlreadyExists = 409"
| "GetHttpStatus UploadTaskNotFound = 400"
| "GetHttpStatus ChunkVerifyFailed = 400"
| "GetHttpStatus FolderAlreadyExists = 409"
| "GetHttpStatus FileReadError = 500"
| "GetHttpStatus UploadTaskCreationDisabled = 503"
| "GetHttpStatus UploadLifecycleFrozen = 503"
| "GetHttpStatus ShareNotFound = 404"
| "GetHttpStatus ShareExpired = 400"
| "GetHttpStatus SharePasswordError = 400"
| "GetHttpStatus ShareAccessDenied = 403"
| "GetHttpStatus RedisOperationFailed = 500"
| "GetHttpStatus RedisKeyNotFound = 404"
| "GetHttpStatus AdminRequired = 403"
| "GetHttpStatus AdminUserNotFound = 404"
| "GetHttpStatus AdminCannotModifySelf = 400"
| "GetHttpStatus AdminCannotDemoteLast = 400"
| "GetHttpStatus AdminShareNotFound = 404"
| "GetHttpStatus AdminInvalidStatus = 400"
| "GetHttpStatus AdminInvalidRole = 400"

primrec GetErrorMessage :: "Code \<Rightarrow> string" where
  "GetErrorMessage Success = ''success''"
| "GetErrorMessage InvalidParameter = ''Invalid request parameters''"
| "GetErrorMessage ValidationFailed = ''Parameter validation failed''"
| "GetErrorMessage ResourceNotFound = ''Resource not found''"
| "GetErrorMessage ResourceConflict = ''Resource conflict''"
| "GetErrorMessage TooManyRequests = ''Too many requests''"
| "GetErrorMessage InternalError = ''Internal server error''"
| "GetErrorMessage UsernameExists = ''Username already registered''"
| "GetErrorMessage EmailExists = ''Email already registered''"
| "GetErrorMessage UserNotFound = ''User not found''"
| "GetErrorMessage InvalidCredentials = ''Invalid username or password''"
| "GetErrorMessage AccountLocked = ''Account locked, please try again later''"
| "GetErrorMessage AccountDisabled = ''Account has been disabled''"
| "GetErrorMessage InvalidToken = ''Token invalid or expired''"
| "GetErrorMessage InvalidRefreshToken = ''Invalid refresh token''"
| "GetErrorMessage TokenMissing = ''Token not provided''"
| "GetErrorMessage TokenMalformed = ''Token format error''"
| "GetErrorMessage TokenExpired = ''Token expired''"
| "GetErrorMessage TokenWrongType = ''Token type error''"
| "GetErrorMessage RefreshTokenAlreadyUsed = ''Refresh token already used''"
| "GetErrorMessage TokenRevoked = ''Token revoked''"
| "GetErrorMessage InvalidFilename = ''Invalid filename''"
| "GetErrorMessage StorageQuotaExceeded = ''Insufficient storage space''"
| "GetErrorMessage FileNotFound = ''File not found''"
| "GetErrorMessage FolderNotFound = ''Folder not found''"
| "GetErrorMessage FileAlreadyExists = ''File with same name already exists''"
| "GetErrorMessage UploadTaskNotFound = ''Upload task not found or expired''"
| "GetErrorMessage ChunkVerifyFailed = ''Chunk verification failed''"
| "GetErrorMessage FolderAlreadyExists = ''Folder with same name already exists''"
| "GetErrorMessage FileReadError = ''File read failed''"
| "GetErrorMessage UploadTaskCreationDisabled = ''New upload task creation is temporarily disabled''"
| "GetErrorMessage UploadLifecycleFrozen = ''Upload lifecycle is temporarily frozen for rollback''"
| "GetErrorMessage ShareNotFound = ''Share not found''"
| "GetErrorMessage ShareExpired = ''Share expired''"
| "GetErrorMessage SharePasswordError = ''Share password error''"
| "GetErrorMessage ShareAccessDenied = ''Access denied''"
| "GetErrorMessage RedisOperationFailed = ''Redis operation failed''"
| "GetErrorMessage RedisKeyNotFound = ''Redis key not found''"
| "GetErrorMessage AdminRequired = ''Administrator privileges required''"
| "GetErrorMessage AdminUserNotFound = ''User not found''"
| "GetErrorMessage AdminCannotModifySelf = ''Cannot modify your own account''"
| "GetErrorMessage AdminCannotDemoteLast = ''Cannot demote the last administrator''"
| "GetErrorMessage AdminShareNotFound = ''Share not found''"
| "GetErrorMessage AdminInvalidStatus = ''Invalid user status''"
| "GetErrorMessage AdminInvalidRole = ''Invalid role''"

record ErrorInfo =
  err_code :: Code
  err_message :: string

type_synonym 'a Result = "ErrorInfo + 'a"

definition ErrorInfo1 :: "Code \<Rightarrow> ErrorInfo" where
  "ErrorInfo1 c = \<lparr>err_code = c, err_message = GetErrorMessage c\<rparr>"

definition ErrorInfo2 :: "Code \<Rightarrow> string \<Rightarrow> ErrorInfo" where
  "ErrorInfo2 c m = \<lparr>err_code = c, err_message = m\<rparr>"

definition HttpStatus :: "ErrorInfo \<Rightarrow> nat" where
  "HttpStatus e = GetHttpStatus (err_code e)"

definition CodeInt :: "ErrorInfo \<Rightarrow> nat" where
  "CodeInt e = ToInt (err_code e)"

lemma err_code_ErrorInfo1 [simp]: "err_code (ErrorInfo1 c) = c"
  by (simp add: ErrorInfo1_def)

lemma err_code_ErrorInfo2 [simp]: "err_code (ErrorInfo2 c m) = c"
  by (simp add: ErrorInfo2_def)

lemma err_message_ErrorInfo1 [simp]: "err_message (ErrorInfo1 c) = GetErrorMessage c"
  by (simp add: ErrorInfo1_def)

lemma err_message_ErrorInfo2 [simp]: "err_message (ErrorInfo2 c m) = m"
  by (simp add: ErrorInfo2_def)

section \<open>The code is the wire identity of an error\<close>

text \<open>
  The number sent to a client determines the code, and its leading digit the family the
  enumeration's comment announces: no two codes share a number, and every code other than
  \<^term>\<open>Success\<close> lies in one of the blocks 1, 4, 5, 6, 7, 8 of ten thousand.
\<close>

lemma ToInt_inject: "ToInt a = ToInt b \<Longrightarrow> a = b"
  by (cases a; cases b; simp)

lemma ToInt_family: "a \<noteq> Success \<Longrightarrow> ToInt a div 10000 \<in> {1, 4, 5, 6, 7, 8}"
  by (cases a) simp_all

lemma GetHttpStatus_ok_iff: "GetHttpStatus c = 200 \<longleftrightarrow> c = Success"
  by (cases c) simp_all

end
