(* ===== verification/Database.thy ===== *)
theory Database
  imports Error_Code
begin

text \<open>
  The PostgreSQL schema the services run on (src/sql/init.sql) as tables of rows, the session
  of one request, and the way a request reaches the database: single statements, transactions
  with rollback (src/src/services/TransactionRunner.hpp) and calls of the object storage.

  Every statement may fail, and between two statements outside a transaction the other
  sessions of the cluster may commit.  Both are parameters of the model, carried by the
  connection (\<open>client\<close>): \<open>fault n\<close> says that the n-th await point of the request
  raises \<^verbatim>\<open>DrogonDbException\<close>, \<open>other n\<close> is what the other sessions (and the clock) did
  before it.  A transaction sees no other session between its statements; after a failed
  statement it accepts no further one and cannot commit, as PostgreSQL prescribes.
\<close>

section \<open>Rows\<close>

record user_row =
  u_id :: nat
  u_storage_quota :: int
  u_storage_used :: int
  u_storage_reserved :: int

record task_row =
  t_id :: string
  t_user_id :: nat
  t_folder_id :: nat
  t_filename :: string
  t_file_size :: nat
  t_file_hash :: string
  t_chunk_size :: int
  t_total_chunks :: int
  t_reserved_bytes :: nat
  t_temp_path :: string
  t_staging_backend :: string
  t_staging_prefix :: "string option"
  t_status :: int
  t_state_version :: nat
  t_lease_owner :: "string option"
  t_lease_expires_at :: "int option"
  t_finalize_attempts :: nat
  t_last_error_code :: "nat option"
  t_last_error_at :: "int option"
  t_completed_file_id :: "nat option"
  t_expires_at :: int
  t_finalized_at :: "int option"
  t_fail_reason :: "string option"
  t_created_at :: int

record chunk_row =
  c_task_id :: string
  c_chunk_index :: int
  c_size_bytes :: "nat option"
  c_hash_md5 :: "string option"
  c_object_key :: "string option"
  c_etag :: "string option"

datatype json =
    JNull
  | JBool bool
  | JInt int
  | JUInt nat
  | JReal int int string
  | JString string
  | JArray "json list"
  | JObject "(string \<times> json) list"

record job_row =
  j_id :: nat
  j_job_type :: string
  j_aggregate_id :: string
  j_dedupe_key :: string
  j_payload :: json
  j_status :: int
  j_attempts :: nat
  j_max_attempts :: nat
  j_available_at :: int
  j_locked_by :: "string option"
  j_locked_until :: "int option"
  j_last_error :: "string option"
  j_completed_at :: "int option"
  j_created_at :: int

record content_row =
  fc_id :: nat
  fc_hash_md5 :: string
  fc_hash_sha256 :: string
  fc_size :: nat
  fc_storage_path :: string
  fc_mime_type :: string
  fc_ref_count :: int

record file_row =
  f_id :: nat
  f_user_id :: nat
  f_content_id :: nat
  f_folder_id :: nat
  f_name :: string
  f_extension :: string
  f_size :: nat
  f_mime_type :: string
  f_path :: string
  f_is_favorite :: bool
  f_download_count :: nat
  f_created_at :: int

record folder_row =
  d_id :: nat
  d_user_id :: nat
  d_parent_id :: nat
  d_name :: string
  d_path :: string
  d_depth :: nat
  d_item_count :: int

record trash_row =
  tr_id :: nat
  tr_user_id :: nat
  tr_item_type :: string
  tr_item_id :: nat
  tr_item_name :: string
  tr_item_size :: nat
  tr_content_id :: "nat option"
  tr_original_folder_id :: nat
  tr_original_path :: string
  tr_item_data :: "json option"
  tr_expires_at :: int

record share_row =
  sh_id :: nat
  sh_user_id :: nat
  sh_status :: int

record share_link_row =
  sl_share_id :: nat
  sl_item_type :: string
  sl_item_id :: nat

record finding_row =
  fd_finding_type :: string
  fd_resource_id :: string
  fd_resource_locator :: "string option"
  fd_severity :: int
  fd_resolution_strategy :: string
  fd_details :: json
  fd_occurrences :: nat
  fd_last_seen_at :: int
  fd_resolved_at :: "int option"

text \<open>
  What the serving process keeps in memory about an upload task
  (\<^verbatim>\<open>UploadTaskCacheEntry\<close> of src/src/services/UploadService.hpp).
\<close>

datatype UploadStagingBackend = BackendLocal | BackendS3

record UploadStagingSession =
  ss_upload_id :: string
  ss_backend :: UploadStagingBackend
  ss_prefix :: string

record UploadTaskCacheEntry =
  ce_user_id :: nat
  ce_file_size :: nat
  ce_chunk_size :: nat
  ce_total_chunks :: nat
  ce_staging_session :: UploadStagingSession
  ce_cache_expires_at :: int

text \<open>
  The shared state: the tables, the identity sequences of the tables that have one, the
  database clock \<^verbatim>\<open>NOW()\<close> in seconds, the upload task cache and the steady clock (in seconds) of
  the serving process, and the object storage and Redis behind their interfaces, of which the
  model fixes no representation.
\<close>

record 'w db =
  users :: "user_row list"
  upload_tasks :: "task_row list"
  upload_task_chunks :: "chunk_row list"
  storage_jobs :: "job_row list"
  file_contents :: "content_row list"
  files :: "file_row list"
  folders :: "folder_row list"
  trash :: "trash_row list"
  shares :: "share_row list"
  share_files :: "share_link_row list"
  findings :: "finding_row list"
  seq_jobs :: nat
  seq_contents :: nat
  seq_files :: nat
  seq_folders :: nat
  seq_trash :: nat
  now :: int
  task_cache :: "string \<rightharpoonup> UploadTaskCacheEntry"
  steady_now :: int
  store :: 'w

section \<open>Sessions, connections and statements\<close>

datatype exn = DbException | InvalidArgument string | RuntimeError string

record 'w session =
  sdb :: "'w db"
  pc :: nat
  aborted :: bool

record 'w client =
  fault :: "nat \<Rightarrow> bool"
  other :: "nat \<Rightarrow> 'w db \<Rightarrow> 'w db"
  in_tx :: bool

type_synonym ('w, 'a) M = "'w session \<Rightarrow> (exn + 'a) \<times> 'w session"
type_synonym ('w, 'a) stmt = "'w db \<Rightarrow> (exn + 'a) \<times> 'w db"

definition retM :: "'a \<Rightarrow> ('w, 'a) M" where
  "retM x s = (Inr x, s)"

definition throwM :: "exn \<Rightarrow> ('w, 'a) M" where
  "throwM e s = (Inl e, s)"

definition bindM :: "('w, 'a) M \<Rightarrow> ('a \<Rightarrow> ('w, 'b) M) \<Rightarrow> ('w, 'b) M" where
  "bindM m k s = (case m s of (Inl e, s') \<Rightarrow> (Inl e, s') | (Inr x, s') \<Rightarrow> k x s')"

definition catchM :: "('w, 'a) M \<Rightarrow> (exn \<Rightarrow> ('w, 'a) M) \<Rightarrow> ('w, 'a) M" where
  "catchM m h s = (case m s of (Inl e, s') \<Rightarrow> h e s' | (Inr x, s') \<Rightarrow> (Inr x, s'))"

text \<open>\<open>catchDb\<close> is a handler for \<^verbatim>\<open>DrogonDbException\<close> only: other exceptions pass through.\<close>

definition catchDb :: "('w, 'a) M \<Rightarrow> ('w, 'a) M \<Rightarrow> ('w, 'a) M" where
  "catchDb m h = catchM m (\<lambda>e. if e = DbException then h else throwM e)"

definition okR :: "'a \<Rightarrow> ('w, 'a Result) M" where
  "okR x = retM (Inr x)"

definition failR :: "ErrorInfo \<Rightarrow> ('w, 'a Result) M" where
  "failR e = retM (Inl e)"

text \<open>\<open>bindR\<close> is the source's \<^verbatim>\<open>if (!r) co_return std::unexpected(r.error())\<close>.\<close>

definition bindR :: "('w, 'a Result) M \<Rightarrow> ('a \<Rightarrow> ('w, 'b Result) M) \<Rightarrow> ('w, 'b Result) M" where
  "bindR m k = bindM m (\<lambda>r. case r of Inl e \<Rightarrow> failR e | Inr x \<Rightarrow> k x)"

lemmas monad_defs = retM_def throwM_def bindM_def catchM_def catchDb_def okR_def failR_def bindR_def

text \<open>An exception of a computation without effects.\<close>

definition lift_exn :: "exn + 'a \<Rightarrow> ('w, 'a) M" where
  "lift_exn x = (case x of Inl e \<Rightarrow> throwM e | Inr v \<Rightarrow> retM v)"

text \<open>One SQL statement over the connection.\<close>

definition exec :: "'w client \<Rightarrow> ('w, 'a) stmt \<Rightarrow> ('w, 'a) M" where
  "exec E q s =
     (let n = pc s; d = (if in_tx E then sdb s else other E n (sdb s)) in
      if in_tx E \<and> aborted s then (Inl DbException, s\<lparr>pc := Suc n\<rparr>)
      else if fault E n then (Inl DbException, \<lparr>sdb = d, pc = Suc n, aborted = in_tx E\<rparr>)
      else (case q d of
              (Inl e, _) \<Rightarrow> (Inl e, \<lparr>sdb = d, pc = Suc n, aborted = in_tx E\<rparr>)
            | (Inr v, d') \<Rightarrow> (Inr v, \<lparr>sdb = d', pc = Suc n, aborted = aborted s\<rparr>)))"

text \<open>A call of the object storage: it can change the storage only.\<close>

definition callStore :: "'w client \<Rightarrow> ('w \<Rightarrow> 'a \<times> 'w) \<Rightarrow> ('w, 'a) M" where
  "callStore E f s =
     (let n = pc s; d = other E n (sdb s); (v, w) = f (store d) in
      (Inr v, \<lparr>sdb = d\<lparr>store := w\<rparr>, pc = Suc n, aborted = aborted s\<rparr>))"

text \<open>One critical section on the process's upload task cache, with the steady clock.\<close>

definition callCache ::
  "'w client \<Rightarrow> (int \<Rightarrow> (string \<rightharpoonup> UploadTaskCacheEntry) \<Rightarrow> 'a \<times> (string \<rightharpoonup> UploadTaskCacheEntry)) \<Rightarrow> ('w, 'a) M" where
  "callCache E f s =
     (let n = pc s; d = other E n (sdb s); (v, c) = f (steady_now d) (task_cache d) in
      (Inr v, \<lparr>sdb = d\<lparr>task_cache := c\<rparr>, pc = Suc n, aborted = aborted s\<rparr>))"

section \<open>Transactions\<close>

definition transaction_client :: "'w client \<Rightarrow> 'w client" where
  "transaction_client E = E\<lparr>in_tx := True\<rparr>"

text \<open>
  \<^verbatim>\<open>TransactionRunner::Run\<close>: begin (which may fail), the body on the transaction's own
  connection, rollback on an error result or an exception, and commit (which may fail, and
  does not succeed on an aborted transaction).
\<close>

definition Run :: "'w client \<Rightarrow> ErrorInfo \<Rightarrow> ('w client \<Rightarrow> ('w, 'a Result) M) \<Rightarrow> ('w, 'a Result) M" where
  "Run E default_error body s =
     (let d0 = other E (pc s) (sdb s) in
      if fault E (pc s) then (Inr (Inl default_error), \<lparr>sdb = d0, pc = Suc (pc s), aborted = False\<rparr>)
      else (case body (transaction_client E) \<lparr>sdb = d0, pc = Suc (pc s), aborted = False\<rparr> of
              (Inl e, s') \<Rightarrow> (Inr (Inl default_error), \<lparr>sdb = d0, pc = pc s', aborted = False\<rparr>)
            | (Inr (Inl err), s') \<Rightarrow> (Inr (Inl err), \<lparr>sdb = d0, pc = pc s', aborted = False\<rparr>)
            | (Inr (Inr v), s') \<Rightarrow>
                if aborted s' \<or> fault E (pc s')
                then (Inr (Inl default_error), \<lparr>sdb = d0, pc = Suc (pc s'), aborted = False\<rparr>)
                else (Inr (Inr v), \<lparr>sdb = sdb s', pc = Suc (pc s'), aborted = False\<rparr>)))"

section \<open>Statements over one table\<close>

definition pureS :: "('w db \<Rightarrow> 'a) \<Rightarrow> ('w, 'a) stmt" where
  "pureS f d = (Inr (f d), d)"

definition updateS :: "('w db \<Rightarrow> 'a) \<Rightarrow> ('w db \<Rightarrow> 'w db) \<Rightarrow> ('w, 'a) stmt" where
  "updateS f g d = (Inr (f d), g d)"

definition bigint :: "int \<Rightarrow> bool" where
  "bigint x \<longleftrightarrow> - (2 ^ 63) \<le> x \<and> x < 2 ^ 63"

definition integer :: "int \<Rightarrow> bool" where
  "integer x \<longleftrightarrow> - (2 ^ 31) \<le> x \<and> x < 2 ^ 31"

end
