(* ===== verification/Session_Logic.thy ===== *)
theory Session_Logic
  imports Database
begin

text \<open>
  Reasoning about requests.  \<open>keeps P m\<close> says that the operation \<open>m\<close> leads from database
  states satisfying \<open>P\<close> to states satisfying \<open>P\<close>, whatever its result; its rules follow the
  combinators.  \<open>stable P E\<close> says that the other sessions keep \<open>P\<close>.  The elimination rules
  turn a successful run into the chain of statements it executed.
\<close>

section \<open>What an operation keeps\<close>

definition keeps :: "('w db \<Rightarrow> bool) \<Rightarrow> ('w, 'a) M \<Rightarrow> bool" where
  "keeps P m \<longleftrightarrow> (\<forall>s. P (sdb s) \<longrightarrow> P (sdb (snd (m s))))"

definition stable :: "('w db \<Rightarrow> bool) \<Rightarrow> 'w client \<Rightarrow> bool" where
  "stable P E \<longleftrightarrow> (\<forall>n d. P d \<longrightarrow> P (other E n d))"

lemma keepsI: "(\<And>s. P (sdb s) \<Longrightarrow> P (sdb (snd (m s)))) \<Longrightarrow> keeps P m"
  by (simp add: keeps_def)

lemma keepsD: "keeps P m \<Longrightarrow> P (sdb s) \<Longrightarrow> P (sdb (snd (m s)))"
  by (simp add: keeps_def)

lemma keepsD': "keeps P m \<Longrightarrow> P (sdb s) \<Longrightarrow> m s = (r, s') \<Longrightarrow> P (sdb s')"
  using keepsD [of P m s] by simp

lemma stableD: "stable P E \<Longrightarrow> P d \<Longrightarrow> P (other E n d)"
  by (simp add: stable_def)

lemma keeps_retM [keeps_intros]: "keeps P (retM x)"
  by (simp add: keeps_def retM_def)

lemma keeps_throwM [keeps_intros]: "keeps P (throwM x)"
  by (simp add: keeps_def throwM_def)

lemma keeps_okR [keeps_intros]: "keeps P (okR x)"
  by (simp add: okR_def keeps_retM)

lemma keeps_failR [keeps_intros]: "keeps P (failR x)"
  by (simp add: failR_def keeps_retM)

lemma keeps_bindM [keeps_intros]:
  "keeps P m \<Longrightarrow> (\<And>x. keeps P (k x)) \<Longrightarrow> keeps P (bindM m k)"
  by (fastforce simp: keeps_def bindM_def split: prod.splits sum.splits)

lemma keeps_catchM [keeps_intros]:
  "keeps P m \<Longrightarrow> (\<And>e. keeps P (h e)) \<Longrightarrow> keeps P (catchM m h)"
  by (fastforce simp: keeps_def catchM_def split: prod.splits sum.splits)

lemma keeps_catchDb [keeps_intros]: "keeps P m \<Longrightarrow> keeps P h \<Longrightarrow> keeps P (catchDb m h)"
  unfolding catchDb_def by (intro keeps_catchM) (auto intro: keeps_throwM)

lemma keeps_bindR [keeps_intros]:
  "keeps P m \<Longrightarrow> (\<And>x. keeps P (k x)) \<Longrightarrow> keeps P (bindR m k)"
  unfolding bindR_def by (intro keeps_bindM) (auto intro: keeps_failR split: sum.splits)

lemma keeps_if [keeps_intros]: "(b \<Longrightarrow> keeps P m) \<Longrightarrow> (\<not> b \<Longrightarrow> keeps P m') \<Longrightarrow> keeps P (if b then m else m')"
  by simp

lemma keeps_case_option [keeps_intros]:
  "(x = None \<Longrightarrow> keeps P m) \<Longrightarrow> (\<And>y. x = Some y \<Longrightarrow> keeps P (k y)) \<Longrightarrow> keeps P (case x of None \<Rightarrow> m | Some y \<Rightarrow> k y)"
  by (cases x) simp_all

lemma keeps_case_sum [keeps_intros]:
  "(\<And>e. x = Inl e \<Longrightarrow> keeps P (h e)) \<Longrightarrow> (\<And>y. x = Inr y \<Longrightarrow> keeps P (k y)) \<Longrightarrow> keeps P (case x of Inl e \<Rightarrow> h e | Inr y \<Rightarrow> k y)"
  by (cases x) simp_all

lemma keeps_exec:
  assumes "stable P E" and "\<And>d v d'. P d \<Longrightarrow> q d = (Inr v, d') \<Longrightarrow> P d'"
  shows "keeps P (exec E q)"
proof (rule keepsI)
  fix s :: "'a session"
  assume P: "P (sdb s)"
  with assms(1) have "P (if in_tx E then sdb s else other E (pc s) (sdb s))"
    by (simp add: stable_def)
  with P assms(2) show "P (sdb (snd (exec E q s)))"
    by (auto simp: exec_def Let_def split: prod.splits sum.splits)
qed

lemma keeps_exec_pureS [keeps_intros]: "stable P E \<Longrightarrow> keeps P (exec E (pureS f))"
  by (rule keeps_exec) (auto simp: pureS_def)

lemma keeps_callStore [keeps_intros]:
  assumes "stable P E" and "\<And>d w. P d \<Longrightarrow> P (d\<lparr>store := w\<rparr>)"
  shows "keeps P (callStore E f)"
  using assms by (auto simp: keeps_def callStore_def Let_def stable_def split: prod.splits)

lemma keeps_callCache:
  assumes "stable P E" and "\<And>d v c. P d \<Longrightarrow> f (steady_now d) (task_cache d) = (v, c) \<Longrightarrow> P (d\<lparr>task_cache := c\<rparr>)"
  shows "keeps P (callCache E f)"
  using assms by (fastforce simp: keeps_def callCache_def Let_def stable_def split: prod.splits)

section \<open>Runs of transactions\<close>

lemma in_tx_transaction_client [simp]: "in_tx (transaction_client E)"
  by (simp add: transaction_client_def)

lemma keeps_Run:
  assumes "stable P E"
    and "\<And>s v s'. P (sdb s) \<Longrightarrow> body (transaction_client E) s = (Inr (Inr v), s') \<Longrightarrow> P (sdb s')"
  shows "keeps P (Run E err body)"
proof (rule keepsI)
  fix s :: "'a session"
  assume "P (sdb s)"
  with assms(1) have P0: "P (other E (pc s) (sdb s))"
    by (simp add: stable_def)
  let ?s0 = "\<lparr>sdb = other E (pc s) (sdb s), pc = Suc (pc s), aborted = False\<rparr>"
  have "body (transaction_client E) ?s0 = (Inr (Inr v), s') \<Longrightarrow> P (sdb s')" for v s'
    using assms(2) [of ?s0 v s'] P0 by simp
  with P0 show "P (sdb (snd (Run E err body s)))"
    by (auto simp: Run_def Let_def split: prod.splits sum.splits)
qed

text \<open>A transaction either installs what its body computed, or leaves the tables as it found them.\<close>

lemma Run_okE:
  assumes "Run E err body s = (Inr (Inr v), s')"
  obtains s0 s1 where "sdb s0 = other E (pc s) (sdb s)" "aborted s0 = False"
    "body (transaction_client E) s0 = (Inr (Inr v), s1)" "sdb s' = sdb s1" "\<not> aborted s1"
  using assms
  by (auto simp: Run_def Let_def split: if_splits prod.splits sum.splits
      intro!: that [of "\<lparr>sdb = other E (pc s) (sdb s), pc = Suc (pc s), aborted = False\<rparr>"])

lemma Run_error_rolls_back:
  "Run E err body s = (Inr (Inl e), s') \<Longrightarrow> sdb s' = other E (pc s) (sdb s)"
  by (auto simp: Run_def Let_def split: if_splits prod.splits sum.splits)

lemma Run_never_throws: "\<exists>r s'. Run E err body s = (Inr r, s')"
  by (auto simp: Run_def Let_def split: prod.splits sum.splits)

section \<open>Chains of successful statements\<close>

lemma bindM_okE:
  assumes "bindM m k s = (Inr y, s')"
  obtains x s1 where "m s = (Inr x, s1)" "k x s1 = (Inr y, s')"
  using assms by (auto simp: bindM_def split: prod.splits sum.splits)

lemma bindR_okE:
  assumes "bindR m k s = (Inr (Inr y), s')"
  obtains x s1 where "m s = (Inr (Inr x), s1)" "k x s1 = (Inr (Inr y), s')"
  using assms by (auto simp: bindR_def bindM_def failR_def retM_def split: prod.splits sum.splits)

lemma catchDb_okD: "catchDb m (failR e) s = (Inr (Inr y), s') \<Longrightarrow> m s = (Inr (Inr y), s')"
  by (auto simp: catchDb_def catchM_def failR_def retM_def throwM_def split: prod.splits sum.splits if_splits)

lemma catchM_okD: "catchM m (\<lambda>_. failR e) s = (Inr (Inr y), s') \<Longrightarrow> m s = (Inr (Inr y), s')"
  by (auto simp: catchM_def failR_def retM_def split: prod.splits sum.splits)

lemma okR_iff [simp]: "okR x s = (Inr (Inr y), s') \<longleftrightarrow> y = x \<and> s' = s"
  by (auto simp: okR_def retM_def)

lemma failR_iff [simp]: "failR e s = (Inr (Inr y), s') \<longleftrightarrow> False"
  by (auto simp: failR_def retM_def)

lemma failR_error_iff [simp]: "failR e s = (Inr (Inl e'), s') \<longleftrightarrow> e' = e \<and> s' = s"
  by (auto simp: failR_def retM_def)

lemma okR_error_iff [simp]: "okR x s = (Inr (Inl e'), s') \<longleftrightarrow> False"
  by (auto simp: okR_def retM_def)

lemma retM_iff [simp]: "retM x s = (r, s') \<longleftrightarrow> r = Inr x \<and> s' = s"
  by (auto simp: retM_def)

lemma throwM_iff [simp]: "throwM x s = (r, s') \<longleftrightarrow> r = Inl x \<and> s' = s"
  by (auto simp: throwM_def)

lemma lift_exn_ok [simp]: "lift_exn x s = (Inr v, s') \<longleftrightarrow> x = Inr v \<and> s' = s"
  by (auto simp: lift_exn_def retM_def throwM_def split: sum.splits)

lemma keeps_lift_exn [keeps_intros]: "keeps P (lift_exn x)"
  by (cases x) (simp_all add: lift_exn_def keeps_retM keeps_throwM)

text \<open>\<open>seen E s\<close> is the database a statement of the session finds when it runs.\<close>

definition seen :: "'w client \<Rightarrow> 'w session \<Rightarrow> 'w db" where
  "seen E s = (if in_tx E then sdb s else other E (pc s) (sdb s))"

lemma seen_tx [simp]: "in_tx E \<Longrightarrow> seen E s = sdb s"
  by (simp add: seen_def)

lemma exec_okE:
  assumes "exec E q s = (Inr v, s')"
  obtains d' where "q (seen E s) = (Inr v, d')" "sdb s' = d'"
  using assms by (auto simp: exec_def seen_def Let_def split: if_splits prod.splits sum.splits)

lemma exec_throws_keeps: "exec E q s = (Inl e, s') \<Longrightarrow> sdb s' = seen E s \<or> sdb s' = sdb s"
  by (auto simp: exec_def seen_def Let_def split: if_splits prod.splits sum.splits)

lemma pureS_iff [simp]: "pureS f d = (r, d') \<longleftrightarrow> r = Inr (f d) \<and> d' = d"
  by (auto simp: pureS_def)

lemma updateS_iff [simp]: "updateS f g d = (r, d') \<longleftrightarrow> r = Inr (f d) \<and> d' = g d"
  by (auto simp: updateS_def)

end
