(* ===== verification/Storage_Job_Repository.thy ===== *)
theory Storage_Job_Repository
  imports Session_Logic
begin

text \<open>
  The persistent job queue (src/src/services/StorageJobRepository.hpp, StorageJobRepository.cpp):
  enqueueing with deduplication, re-arming of finished jobs, claiming of ready jobs under a
  lease, renewal, success and failure.  A job's lease is its \<^verbatim>\<open>locked_by\<close> and
  \<^verbatim>\<open>locked_until\<close> columns; attempts are counted at claim time.
\<close>

section \<open>Statuses and job types\<close>

datatype StorageJobStatus = Pending | Running | Retry | Succeeded | DeadLetter

fun JobStatusToStorage :: "StorageJobStatus \<Rightarrow> int" where
  "JobStatusToStorage Pending = 0"
| "JobStatusToStorage Running = 1"
| "JobStatusToStorage Retry = 2"
| "JobStatusToStorage Succeeded = 3"
| "JobStatusToStorage DeadLetter = 4"

definition ParseStorageJobStatus :: "int \<Rightarrow> StorageJobStatus option" where
  "ParseStorageJobStatus value =
     (if value = JobStatusToStorage Pending then Some Pending
      else if value = JobStatusToStorage Running then Some Running
      else if value = JobStatusToStorage Retry then Some Retry
      else if value = JobStatusToStorage Succeeded then Some Succeeded
      else if value = JobStatusToStorage DeadLetter then Some DeadLetter
      else None)"

fun StorageJobStatusName :: "StorageJobStatus \<Rightarrow> string" where
  "StorageJobStatusName Pending = ''pending''"
| "StorageJobStatusName Running = ''running''"
| "StorageJobStatusName Retry = ''retry''"
| "StorageJobStatusName Succeeded = ''succeeded''"
| "StorageJobStatusName DeadLetter = ''dead_letter''"

definition ParseStorageJobStatusName :: "string \<Rightarrow> StorageJobStatus option" where
  "ParseStorageJobStatusName value =
     find_row (\<lambda>st. StorageJobStatusName st = value) [Pending, Running, Retry, Succeeded, DeadLetter]"

definition kStagingCleanupJobType :: string where "kStagingCleanupJobType = ''staging_cleanup''"
definition kMultipartAbortJobType :: string where "kMultipartAbortJobType = ''multipart_abort''"
definition kBlobGcJobType :: string where "kBlobGcJobType = ''blob_gc''"
definition kExpireUploadsJobType :: string where "kExpireUploadsJobType = ''expire_uploads''"
definition kExpireTrashJobType :: string where "kExpireTrashJobType = ''expire_trash''"
definition kStorageReconcileJobType :: string where "kStorageReconcileJobType = ''storage_reconcile''"

lemmas job_type_defs = kStagingCleanupJobType_def kMultipartAbortJobType_def kBlobGcJobType_def
  kExpireUploadsJobType_def kExpireTrashJobType_def kStorageReconcileJobType_def

definition IsKnownStorageJobType :: "string \<Rightarrow> bool" where
  "IsKnownStorageJobType value \<longleftrightarrow>
     value \<in> set [kStagingCleanupJobType, kMultipartAbortJobType, kBlobGcJobType,
                   kExpireUploadsJobType, kExpireTrashJobType, kStorageReconcileJobType]"

record NewStorageJob =
  nj_job_type :: string
  nj_aggregate_id :: string
  nj_dedupe_key :: string
  nj_payload :: json
  nj_max_attempts :: nat

record StorageJob =
  sj_id :: nat
  sj_job_type :: string
  sj_aggregate_id :: string
  sj_dedupe_key :: string
  sj_payload :: json
  sj_status :: StorageJobStatus
  sj_attempts :: nat
  sj_max_attempts :: nat
  sj_locked_by :: string
  sj_lease_takeover :: bool

datatype BlobGcReferenceGate = GateAllowed | GateBlocked

lemma ParseStorageJobStatus_inverse [simp]: "ParseStorageJobStatus (JobStatusToStorage st) = Some st"
  by (cases st) (simp_all add: ParseStorageJobStatus_def)

lemma JobStatusToStorage_inject [simp]: "JobStatusToStorage a = JobStatusToStorage b \<longleftrightarrow> a = b"
  by (cases a; cases b) simp_all

lemma ParseStorageJobStatusName_inverse [simp]:
  "ParseStorageJobStatusName (StorageJobStatusName st) = Some st"
  by (cases st) (simp_all add: ParseStorageJobStatusName_def find_row_def)

section \<open>Validation\<close>

definition ValidateBoundedValue :: "string \<Rightarrow> nat \<Rightarrow> string \<Rightarrow> ('w, unit) M" where
  "ValidateBoundedValue value maximum_length field_name =
     (if value = [] \<or> length value > maximum_length
      then throwM (InvalidArgument (field_name @ '' must contain 1 to '' @ decimal maximum_length @ '' characters''))
      else retM ())"

definition ValidateNewJob :: "NewStorageJob \<Rightarrow> ('w, unit) M" where
  "ValidateNewJob job =
     bindM (ValidateBoundedValue (nj_job_type job) 64 ''Storage job type'') (\<lambda>_.
     bindM (ValidateBoundedValue (nj_aggregate_id job) 128 ''Storage job aggregate ID'') (\<lambda>_.
     bindM (ValidateBoundedValue (nj_dedupe_key job) 255 ''Storage job dedupe key'') (\<lambda>_.
       if nj_max_attempts job = 0
       then throwM (InvalidArgument ''Storage job max attempts must be positive'')
       else retM ())))"

definition ValidateJobLeaseArguments :: "string \<Rightarrow> nat \<Rightarrow> ('w, unit) M" where
  "ValidateJobLeaseArguments instance_id lease_duration_seconds =
     bindM (ValidateBoundedValue instance_id 128 ''Storage job instance ID'') (\<lambda>_.
       if lease_duration_seconds = 0
       then throwM (InvalidArgument ''Storage job lease duration must be positive'')
       else retM ())"

section \<open>Enqueueing\<close>

text \<open>
  A fresh row takes the column defaults of the schema: pending, no attempt, available now.  The
  attempt bound is bound as a 32-bit signed parameter and the table's check requires it to be
  positive.
\<close>

definition fresh_job :: "'w db \<Rightarrow> NewStorageJob \<Rightarrow> job_row" where
  "fresh_job d job =
     \<lparr>j_id = Suc (seq_jobs d), j_job_type = nj_job_type job, j_aggregate_id = nj_aggregate_id job,
      j_dedupe_key = nj_dedupe_key job, j_payload = nj_payload job,
      j_status = JobStatusToStorage Pending, j_attempts = 0, j_max_attempts = nj_max_attempts job,
      j_available_at = now d, j_locked_by = None, j_locked_until = None, j_last_error = None,
      j_completed_at = None, j_created_at = now d\<rparr>"

definition insert_job :: "'w db \<Rightarrow> NewStorageJob \<Rightarrow> 'w db" where
  "insert_job d job =
     d\<lparr>storage_jobs := storage_jobs d @ [fresh_job d job], seq_jobs := Suc (seq_jobs d)\<rparr>"

definition has_dedupe_key :: "string \<Rightarrow> job_row \<Rightarrow> bool" where
  "has_dedupe_key k r \<longleftrightarrow> j_dedupe_key r = k"

definition enqueue_stmt :: "NewStorageJob \<Rightarrow> ('w, bool) stmt" where
  "enqueue_stmt job d =
     (if to_int32 (int (nj_max_attempts job)) \<le> 0 then (Inl DbException, d)
      else if list_ex (has_dedupe_key (nj_dedupe_key job)) (storage_jobs d) then (Inr False, d)
      else (Inr True, insert_job d job))"

definition Enqueue :: "'w client \<Rightarrow> NewStorageJob \<Rightarrow> ('w, bool) M" where
  "Enqueue E job =
     bindM (ValidateNewJob job) (\<lambda>_. exec E (enqueue_stmt job))"

definition rearm_guard :: "NewStorageJob \<Rightarrow> job_row \<Rightarrow> bool" where
  "rearm_guard job r \<longleftrightarrow>
     has_dedupe_key (nj_dedupe_key job) r \<and> j_status r = JobStatusToStorage Succeeded \<and>
     j_job_type r = nj_job_type job \<and> j_aggregate_id r = nj_aggregate_id job"

definition rearm_set :: "int \<Rightarrow> NewStorageJob \<Rightarrow> job_row \<Rightarrow> job_row" where
  "rearm_set t job r =
     r\<lparr>j_job_type := nj_job_type job, j_aggregate_id := nj_aggregate_id job,
       j_payload := nj_payload job, j_status := JobStatusToStorage Pending, j_attempts := 0,
       j_max_attempts := nj_max_attempts job, j_available_at := t, j_locked_by := None,
       j_locked_until := None, j_last_error := None, j_completed_at := None\<rparr>"

definition rearm_stmt :: "NewStorageJob \<Rightarrow> ('w, bool) stmt" where
  "rearm_stmt job d =
     (if to_int32 (int (nj_max_attempts job)) \<le> 0 then (Inl DbException, d)
      else if list_ex (has_dedupe_key (nj_dedupe_key job)) (storage_jobs d)
      then (Inr (list_ex (rearm_guard job) (storage_jobs d)),
            d\<lparr>storage_jobs := update_where (rearm_guard job) (rearm_set (now d) job) (storage_jobs d)\<rparr>)
      else (Inr True, insert_job d job))"

definition EnqueueOrRearmSucceeded :: "'w client \<Rightarrow> NewStorageJob \<Rightarrow> ('w, bool) M" where
  "EnqueueOrRearmSucceeded E job =
     bindM (ValidateNewJob job) (\<lambda>_.
     bindM (exec E (rearm_stmt job)) (\<lambda>returned.
       if returned then retM True
       else bindM (exec E (pureS (\<lambda>d. find_row (has_dedupe_key (nj_dedupe_key job)) (storage_jobs d)))) (\<lambda>existing.
         case existing of
           None \<Rightarrow> throwM (RuntimeError ''Storage job conflict disappeared during enqueue'')
         | Some r \<Rightarrow>
             if j_job_type r \<noteq> nj_job_type job \<or> j_aggregate_id r \<noteq> nj_aggregate_id job
             then throwM (RuntimeError ''Storage job dedupe key is owned by another aggregate'')
             else retM False)))"

definition CheckBlobGcReferenceGate :: "'w client \<Rightarrow> nat \<Rightarrow> ('w, BlobGcReferenceGate) M" where
  "CheckBlobGcReferenceGate E content_id =
     bindM (exec E (pureS (\<lambda>d. find_row (has_dedupe_key (''blob-gc:'' @ decimal content_id)) (storage_jobs d))))
       (\<lambda>row. case row of
          None \<Rightarrow> retM GateAllowed
        | Some r \<Rightarrow>
            if j_job_type r \<noteq> kBlobGcJobType \<or> j_aggregate_id r \<noteq> decimal content_id
            then throwM (RuntimeError ''Blob GC dedupe key is owned by an incompatible storage job'')
            else (case ParseStorageJobStatus (j_status r) of
                    None \<Rightarrow> throwM (RuntimeError ''Blob GC job contains an invalid status'')
                  | Some st \<Rightarrow> retM (if st = Succeeded then GateAllowed else GateBlocked)))"

section \<open>Claiming\<close>

definition job_lease_expired :: "int \<Rightarrow> job_row \<Rightarrow> bool" where
  "job_lease_expired t r = (case j_locked_until r of None \<Rightarrow> False | Some x \<Rightarrow> x \<le> t)"

definition job_lease_live :: "int \<Rightarrow> job_row \<Rightarrow> bool" where
  "job_lease_live t r = (case j_locked_until r of None \<Rightarrow> False | Some x \<Rightarrow> x > t)"

definition exhausted_guard :: "int \<Rightarrow> job_row \<Rightarrow> bool" where
  "exhausted_guard t r \<longleftrightarrow> j_attempts r \<ge> j_max_attempts r \<and>
     (j_status r = JobStatusToStorage Pending \<or> j_status r = JobStatusToStorage Retry \<or>
      j_status r = JobStatusToStorage Running \<and> job_lease_expired t r)"

definition exhausted_set :: "job_row \<Rightarrow> job_row" where
  "exhausted_set r =
     r\<lparr>j_status := JobStatusToStorage DeadLetter, j_locked_by := None, j_locked_until := None,
       j_last_error := (case j_last_error r of
          None \<Rightarrow> Some ''Worker lease expired after final attempt'' | Some e \<Rightarrow> Some e)\<rparr>"

definition ready_guard :: "int \<Rightarrow> job_row \<Rightarrow> bool" where
  "ready_guard t r \<longleftrightarrow> j_attempts r < j_max_attempts r \<and>
     ((j_status r = JobStatusToStorage Pending \<or> j_status r = JobStatusToStorage Retry) \<and> j_available_at r \<le> t \<or>
      j_status r = JobStatusToStorage Running \<and> job_lease_expired t r)"

definition job_claim_set :: "int \<Rightarrow> string \<Rightarrow> nat \<Rightarrow> job_row \<Rightarrow> job_row" where
  "job_claim_set t instance_id duration r =
     r\<lparr>j_status := JobStatusToStorage Running, j_attempts := j_attempts r + 1,
       j_locked_by := Some instance_id, j_locked_until := Some (t + to_int32 (int duration))\<rparr>"

text \<open>
  Candidates in the order of the statement.  \<open>locked\<close> marks the rows another transaction holds
  (\<^verbatim>\<open>FOR UPDATE SKIP LOCKED\<close>): they are skipped.
\<close>

definition claim_candidates :: "(nat \<Rightarrow> bool) \<Rightarrow> nat \<Rightarrow> 'w db \<Rightarrow> job_row list" where
  "claim_candidates locked limit d =
     take limit (sort_key (\<lambda>r. (case j_locked_until r of Some x \<Rightarrow> x | None \<Rightarrow> j_available_at r, j_id r))
       (filter (\<lambda>r. ready_guard (now d) r \<and> \<not> locked (j_id r)) (storage_jobs d)))"

definition ToStorageJob :: "job_row \<Rightarrow> bool \<Rightarrow> ('w, StorageJob) M" where
  "ToStorageJob r lease_takeover =
     (case ParseStorageJobStatus (j_status r) of
        None \<Rightarrow> throwM (RuntimeError ''Storage job contains an invalid status'')
      | Some st \<Rightarrow> retM
          \<lparr>sj_id = j_id r, sj_job_type = j_job_type r, sj_aggregate_id = j_aggregate_id r,
           sj_dedupe_key = j_dedupe_key r, sj_payload = j_payload r, sj_status = st,
           sj_attempts = j_attempts r, sj_max_attempts = j_max_attempts r,
           sj_locked_by = (case j_locked_by r of None \<Rightarrow> '''' | Some x \<Rightarrow> x),
           sj_lease_takeover = lease_takeover\<rparr>)"

fun mapM :: "('a \<Rightarrow> ('w, 'b) M) \<Rightarrow> 'a list \<Rightarrow> ('w, 'b list) M" where
  "mapM f [] = retM []"
| "mapM f (x # xs) = bindM (f x) (\<lambda>y. bindM (mapM f xs) (\<lambda>ys. retM (y # ys)))"

definition exhaust_stmt :: "('w, unit) stmt" where
  "exhaust_stmt d =
     (Inr (), d\<lparr>storage_jobs := update_where (exhausted_guard (now d)) exhausted_set (storage_jobs d)\<rparr>)"

definition job_claim_stmt :: "(nat \<Rightarrow> bool) \<Rightarrow> string \<Rightarrow> nat \<Rightarrow> nat \<Rightarrow> ('w, (job_row \<times> bool) list) stmt" where
  "job_claim_stmt locked instance_id limit duration d =
     (let cs = claim_candidates locked limit d;
          claimed = (\<lambda>r. j_id r \<in> j_id ` set cs);
          upd = job_claim_set (now d) instance_id duration
      in (Inr (map (\<lambda>r. (upd r, j_status r = JobStatusToStorage Running)) (filter claimed (storage_jobs d))),
          d\<lparr>storage_jobs := update_where claimed upd (storage_jobs d)\<rparr>))"

definition ClaimReadyBatch ::
  "'w client \<Rightarrow> (nat \<Rightarrow> bool) \<Rightarrow> string \<Rightarrow> nat \<Rightarrow> nat \<Rightarrow> ('w, StorageJob list) M" where
  "ClaimReadyBatch E locked instance_id limit duration =
     bindM (ValidateJobLeaseArguments instance_id duration) (\<lambda>_.
       if limit = 0 then retM []
       else
         bindM (exec E exhaust_stmt) (\<lambda>_.
         bindM (exec E (job_claim_stmt locked instance_id (min limit 1000) duration)) (\<lambda>rows.
         mapM (\<lambda>(r, takeover). ToStorageJob r takeover) rows)))"

section \<open>Lease maintenance and completion\<close>

definition job_owned :: "nat \<Rightarrow> string \<Rightarrow> job_row \<Rightarrow> bool" where
  "job_owned job_id instance_id r \<longleftrightarrow>
     j_id r = job_id \<and> j_status r = JobStatusToStorage Running \<and> j_locked_by r = Some instance_id"

definition job_renew_stmt :: "nat \<Rightarrow> string \<Rightarrow> nat \<Rightarrow> ('w, bool) stmt" where
  "job_renew_stmt job_id instance_id duration d =
     (let p = (\<lambda>r. job_owned job_id instance_id r \<and> job_lease_live (now d) r) in
      (Inr (affected p (storage_jobs d) = 1),
       d\<lparr>storage_jobs := update_where p
           (\<lambda>r. r\<lparr>j_locked_until := Some (now d + to_int32 (int duration))\<rparr>) (storage_jobs d)\<rparr>))"

definition RenewLease :: "'w client \<Rightarrow> nat \<Rightarrow> string \<Rightarrow> nat \<Rightarrow> ('w, bool) M" where
  "RenewLease E job_id instance_id duration =
     bindM (ValidateJobLeaseArguments instance_id duration) (\<lambda>_.
       exec E (job_renew_stmt job_id instance_id duration))"

definition succeeded_set :: "int \<Rightarrow> job_row \<Rightarrow> job_row" where
  "succeeded_set t r =
     r\<lparr>j_status := JobStatusToStorage Succeeded, j_locked_by := None, j_locked_until := None,
       j_last_error := None, j_completed_at := Some t\<rparr>"

definition job_succeed_stmt :: "nat \<Rightarrow> string \<Rightarrow> ('w, bool) stmt" where
  "job_succeed_stmt job_id instance_id d =
     (Inr (affected (job_owned job_id instance_id) (storage_jobs d) = 1),
      d\<lparr>storage_jobs := update_where (job_owned job_id instance_id) (succeeded_set (now d)) (storage_jobs d)\<rparr>)"

definition MarkSucceeded :: "'w client \<Rightarrow> nat \<Rightarrow> string \<Rightarrow> ('w, bool) M" where
  "MarkSucceeded E job_id instance_id =
     bindM (ValidateBoundedValue instance_id 128 ''Storage job instance ID'') (\<lambda>_.
       exec E (job_succeed_stmt job_id instance_id))"

definition failed_set :: "int \<Rightarrow> string \<Rightarrow> bool \<Rightarrow> nat \<Rightarrow> job_row \<Rightarrow> job_row" where
  "failed_set t err retryable delay r =
     (let again = retryable \<and> j_attempts r < j_max_attempts r in
      r\<lparr>j_status := JobStatusToStorage (if again then Retry else DeadLetter),
        j_available_at := (if again then t + to_int32 (int delay) else j_available_at r),
        j_locked_by := None, j_locked_until := None, j_last_error := Some err\<rparr>)"

definition job_fail_stmt :: "nat \<Rightarrow> string \<Rightarrow> string \<Rightarrow> bool \<Rightarrow> nat \<Rightarrow> ('w, int list) stmt" where
  "job_fail_stmt job_id instance_id err retryable delay d =
     (let p = job_owned job_id instance_id; upd = failed_set (now d) err retryable delay in
      (Inr (map (j_status \<circ> upd) (filter p (storage_jobs d))),
       d\<lparr>storage_jobs := update_where p upd (storage_jobs d)\<rparr>))"

definition MarkFailed ::
  "'w client \<Rightarrow> nat \<Rightarrow> string \<Rightarrow> string \<Rightarrow> bool \<Rightarrow> nat \<Rightarrow> ('w, StorageJobStatus option) M" where
  "MarkFailed E job_id instance_id err retryable retry_delay_seconds =
     bindM (ValidateBoundedValue instance_id 128 ''Storage job instance ID'') (\<lambda>_.
     bindM (exec E (job_fail_stmt job_id instance_id (take 2048 err) retryable retry_delay_seconds)) (\<lambda>statuses.
       case statuses of [] \<Rightarrow> retM None | st # _ \<Rightarrow> retM (ParseStorageJobStatus st)))"

end
