(* ===== verification/Content_Service.thy ===== *)
theory Content_Service
  imports Storage_Job_Repository
begin

text \<open>
  Deduplicated file contents (src/src/services/ContentService.cpp): lookup by MD5, acquiring a
  reference (inserting a new content or counting up an existing one), counting references up,
  counting them down and queueing the garbage collection of contents nobody references.  The
  reference gate refuses contents whose collection is queued or running.
\<close>

record ContentMetadata =
  cm_id :: nat
  cm_hash_md5 :: string
  cm_hash_sha256 :: string
  cm_size :: nat
  cm_storage_path :: string
  cm_mime_type :: string
  cm_ref_count :: int

record NewContent =
  nc_hash_md5 :: string
  nc_hash_sha256 :: string
  nc_size :: nat
  nc_storage_path :: string
  nc_mime_type :: string

definition ToMetadata :: "content_row \<Rightarrow> ContentMetadata" where
  "ToMetadata r =
     \<lparr>cm_id = fc_id r, cm_hash_md5 = fc_hash_md5 r, cm_hash_sha256 = fc_hash_sha256 r,
      cm_size = fc_size r, cm_storage_path = fc_storage_path r, cm_mime_type = fc_mime_type r,
      cm_ref_count = fc_ref_count r\<rparr>"

text \<open>A map of deltas is a list of pairs with distinct keys; iteration skips zero deltas.\<close>

definition CollectContentIds :: "(nat \<times> nat) list \<Rightarrow> nat list" where
  "CollectContentIds deltas = map fst (filter (\<lambda>(_, delta). delta \<noteq> 0) deltas)"

section \<open>Lookups\<close>

text \<open>\<^verbatim>\<open>findOne\<close> raises unless exactly one row matches; both that and a failing query give no content.\<close>

definition FindByMd5 :: "'w client \<Rightarrow> string \<Rightarrow> ('w, ContentMetadata option) M" where
  "FindByMd5 E hash_md5 =
     catchDb
       (exec E (\<lambda>d. case filter (\<lambda>r. fc_hash_md5 r = hash_md5) (file_contents d) of
                      [r] \<Rightarrow> (Inr (Some (ToMetadata r)), d)
                    | _ \<Rightarrow> (Inl DbException, d)))
       (retM None)"

definition FindExistingIds :: "'w client \<Rightarrow> nat list \<Rightarrow> ('w, nat list) M" where
  "FindExistingIds E content_ids =
     (if content_ids = [] then retM []
      else catchDb
        (exec E (pureS (\<lambda>d. map fc_id (filter (\<lambda>r. fc_id r \<in> set content_ids) (file_contents d)))))
        (retM []))"

section \<open>Acquiring references\<close>

definition CheckReferenceGate :: "'w client \<Rightarrow> nat \<Rightarrow> ('w, unit Result) M" where
  "CheckReferenceGate E content_id =
     catchM
       (bindM (CheckBlobGcReferenceGate E content_id) (\<lambda>gate.
          if gate = GateBlocked
          then failR (ErrorInfo2 ResourceConflict ''File content is pending garbage collection'')
          else okR ()))
       (\<lambda>_. failR (ErrorInfo2 InternalError ''Failed to verify file content lifecycle''))"

definition same_hashes :: "NewContent \<Rightarrow> content_row \<Rightarrow> bool" where
  "same_hashes content r \<longleftrightarrow>
     fc_hash_md5 r = nc_hash_md5 content \<and> fc_hash_sha256 r = nc_hash_sha256 content"

definition new_content_row :: "'w db \<Rightarrow> NewContent \<Rightarrow> content_row" where
  "new_content_row d content =
     \<lparr>fc_id = Suc (seq_contents d), fc_hash_md5 = nc_hash_md5 content,
      fc_hash_sha256 = nc_hash_sha256 content, fc_size = nc_size content,
      fc_storage_path = nc_storage_path content, fc_mime_type = nc_mime_type content,
      fc_ref_count = 1\<rparr>"

definition bump_ref :: "int \<Rightarrow> content_row \<Rightarrow> content_row" where
  "bump_ref n r = r\<lparr>fc_ref_count := fc_ref_count r + n\<rparr>"

text \<open>An update of the counts of the rows with \<open>p\<close>; a sum outside the range of the column raises.\<close>

definition count_refs ::
  "(content_row \<Rightarrow> bool) \<Rightarrow> (content_row \<Rightarrow> int) \<Rightarrow> (content_row \<Rightarrow> content_row) \<Rightarrow> ('w, nat) stmt" where
  "count_refs p sum_of g d =
     (if list_ex (\<lambda>r. p r \<and> \<not> integer (sum_of r)) (file_contents d) then (Inl DbException, d)
      else (Inr (affected p (file_contents d)), d\<lparr>file_contents := update_where p g (file_contents d)\<rparr>))"

text \<open>\<^verbatim>\<open>INSERT ... ON CONFLICT (hash_md5, hash_sha256) DO UPDATE ... WHERE size matches RETURNING *\<close>\<close>

definition upsert_content :: "NewContent \<Rightarrow> ('w, content_row option) stmt" where
  "upsert_content content d =
     (case find_row (same_hashes content) (file_contents d) of
        None \<Rightarrow>
          (let r = new_content_row d content in
           (Inr (Some r), d\<lparr>file_contents := file_contents d @ [r], seq_contents := Suc (seq_contents d)\<rparr>))
      | Some r \<Rightarrow>
          if fc_size r = nc_size content
          then if \<not> integer (fc_ref_count r + 1) then (Inl DbException, d)
               else (Inr (Some (bump_ref 1 r)),
                d\<lparr>file_contents := update_where (same_hashes content) (bump_ref 1) (file_contents d)\<rparr>)
          else (Inr None, d))"

definition AcquireReference ::
  "'w client \<Rightarrow> NewContent \<Rightarrow> nat option \<Rightarrow> ('w, ContentMetadata Result) M" where
  "AcquireReference E content expected_existing_content_id =
     catchDb
       (bindM (exec E (pureS (\<lambda>d. find_row (same_hashes content) (file_contents d)))) (\<lambda>existing.
          if expected_existing_content_id \<noteq> None \<and>
             (existing = None \<or> map_option fc_id existing \<noteq> expected_existing_content_id)
          then failR (ErrorInfo2 ResourceConflict ''File content changed while finalizing upload'')
          else
            bindR
              (case existing of
                 None \<Rightarrow> okR ()
               | Some r \<Rightarrow>
                   if fc_size r \<noteq> nc_size content
                   then failR (ErrorInfo2 ChunkVerifyFailed ''Existing file content size does not match its hashes'')
                   else CheckReferenceGate E (fc_id r)) (\<lambda>_.
            bindM (exec E (upsert_content content)) (\<lambda>result.
              case result of
                None \<Rightarrow> failR (ErrorInfo2 ChunkVerifyFailed ''Existing file content size does not match its hashes'')
              | Some r \<Rightarrow>
                  let metadata = ToMetadata r in
                  if expected_existing_content_id \<noteq> None \<and>
                     Some (cm_id metadata) \<noteq> expected_existing_content_id
                  then failR (ErrorInfo2 ResourceConflict ''File content changed while finalizing upload'')
                  else if existing = None
                  then bindR (CheckReferenceGate E (cm_id metadata)) (\<lambda>_. okR metadata)
                  else okR metadata))))
       (failR (ErrorInfo2 InternalError ''Failed to acquire file content reference''))"

definition IncrementRefCount :: "'w client \<Rightarrow> nat \<Rightarrow> nat \<Rightarrow> ('w, unit Result) M" where
  "IncrementRefCount E content_id increment =
     (if increment = 0 then okR ()
      else catchDb
        (bindM (exec E (pureS (\<lambda>d. find_row (\<lambda>r. fc_id r = content_id) (file_contents d)))) (\<lambda>locked.
           if locked = None
           then failR (ErrorInfo2 ResourceConflict ''File content changed while acquiring a reference'')
           else bindR (CheckReferenceGate E content_id) (\<lambda>_.
             bindM (exec E (count_refs (\<lambda>r. fc_id r = content_id)
                 (\<lambda>r. fc_ref_count r + to_int32 (int increment)) (bump_ref (to_int32 (int increment))))) (\<lambda>n.
               if n = 0
               then failR (ErrorInfo2 ResourceConflict ''File content changed while acquiring a reference'')
               else okR ()))))
        (failR (ErrorInfo2 InternalError ''Failed to update file content reference count'')))"

text \<open>The gate of every content in turn, stopping at the first refusal.\<close>

fun check_gates :: "'w client \<Rightarrow> nat list \<Rightarrow> ('w, unit Result) M" where
  "check_gates E [] = okR ()"
| "check_gates E (c # cs) = bindR (CheckReferenceGate E c) (\<lambda>_. check_gates E cs)"

definition delta_of :: "(nat \<times> nat) list \<Rightarrow> nat \<Rightarrow> nat" where
  "delta_of deltas c = (case map_of deltas c of None \<Rightarrow> 0 | Some n \<Rightarrow> n)"

definition IncrementRefCountsChecked ::
  "'w client \<Rightarrow> (nat \<times> nat) list \<Rightarrow> nat list \<Rightarrow> ('w, nat list Result) M" where
  "IncrementRefCountsChecked E increments existing_content_ids =
     (let valid_content_ids =
            sort (map fst (filter (\<lambda>(c, n). n \<noteq> 0 \<and> c \<in> set existing_content_ids) increments)) in
      if valid_content_ids = [] then okR []
      else catchDb
        (bindM (exec E (pureS (\<lambda>d. filter (\<lambda>r. fc_id r \<in> set valid_content_ids) (file_contents d)))) (\<lambda>locked.
           if length locked \<noteq> length valid_content_ids
           then failR (ErrorInfo2 ResourceConflict ''File content changed while copying'')
           else bindR (check_gates E valid_content_ids) (\<lambda>_.
             bindM (exec E (count_refs (\<lambda>r. fc_id r \<in> set valid_content_ids)
                 (\<lambda>r. fc_ref_count r + int (delta_of increments (fc_id r)))
                 (\<lambda>r. bump_ref (int (delta_of increments (fc_id r))) r))) (\<lambda>n.
               if n \<noteq> length valid_content_ids
               then failR (ErrorInfo2 InternalError ''Failed to update file content reference counts'')
               else okR valid_content_ids))))
        (failR (ErrorInfo2 InternalError ''Failed to update file content reference counts'')))"

section \<open>Releasing references\<close>

definition drop_ref :: "(nat \<times> nat) list \<Rightarrow> content_row \<Rightarrow> content_row" where
  "drop_ref decrements r =
     r\<lparr>fc_ref_count := max (fc_ref_count r - to_int32 (int (delta_of decrements (fc_id r)))) 0\<rparr>"

definition BlobGcJob :: "nat \<Rightarrow> string \<Rightarrow> NewStorageJob" where
  "BlobGcJob content_id storage_path =
     \<lparr>nj_job_type = kBlobGcJobType, nj_aggregate_id = decimal content_id,
      nj_dedupe_key = ''blob-gc:'' @ decimal content_id,
      nj_payload = JObject [(''content_id'', JUInt content_id), (''storage_path'', JString storage_path)],
      nj_max_attempts = 8\<rparr>"

fun enqueue_gc :: "'w client \<Rightarrow> content_row list \<Rightarrow> ('w, unit) M" where
  "enqueue_gc E [] = retM ()"
| "enqueue_gc E (r # rs) =
     bindM (EnqueueOrRearmSucceeded E (BlobGcJob (fc_id r) (fc_storage_path r))) (\<lambda>_. enqueue_gc E rs)"

definition DecrementRefCountsAndEnqueueGc :: "'w client \<Rightarrow> (nat \<times> nat) list \<Rightarrow> ('w, nat Result) M" where
  "DecrementRefCountsAndEnqueueGc E decrements =
     (let content_ids = CollectContentIds decrements in
      if content_ids = [] then okR 0
      else catchM
        (bindM (exec E (count_refs (\<lambda>r. fc_id r \<in> set content_ids)
            (\<lambda>r. fc_ref_count r - to_int32 (int (delta_of decrements (fc_id r)))) (drop_ref decrements))) (\<lambda>_.
         bindM (exec E (pureS (\<lambda>d.
            filter (\<lambda>r. fc_ref_count r = 0 \<and> fc_id r \<in> set content_ids) (file_contents d)))) (\<lambda>zero_ref_contents.
         bindM (enqueue_gc E zero_ref_contents) (\<lambda>_.
           okR (length zero_ref_contents)))))
        (\<lambda>e. if e = DbException
              then failR (ErrorInfo2 InternalError ''Failed to update file content references'')
              else failR (ErrorInfo2 InternalError ''Failed to enqueue Blob garbage collection'')))"

end
