(* ===== verification/Upload_State_Machine.thy ===== *)
theory Upload_State_Machine
  imports Disk_Prelude
begin

text \<open>
  The pure rules of the upload task state machine
  (src/src/services/UploadStateMachine.hpp, UploadStateMachine.cpp): the statuses and their
  storage values, and what a finalize or a cancel request may do in each of them.  The
  decisions are linked to an abstract transition relation on statuses, of which the
  repository's statements (theory \<open>Upload_Task_Repository\<close>) are the only realisations.
\<close>

section \<open>Statuses\<close>

datatype UploadTaskStatus = InProgress | Completed | Cancelled | Expired | Finalizing | Failed

datatype FinalizeRequestAction =
  ClaimLease | TakeOverExpiredLease | RetryLater | ReplayCompleted | RejectTerminal

datatype CancelRequestAction =
  CancelTask | ReplayCancelled | RejectConflict | RejectTerminalCancel

fun ToStorageValue :: "UploadTaskStatus \<Rightarrow> int" where
  "ToStorageValue InProgress = 0"
| "ToStorageValue Completed = 1"
| "ToStorageValue Cancelled = 2"
| "ToStorageValue Expired = 3"
| "ToStorageValue Finalizing = 4"
| "ToStorageValue Failed = 5"

definition UploadTaskStatusFromStorage :: "int \<Rightarrow> UploadTaskStatus option" where
  "UploadTaskStatusFromStorage status =
     (if status = ToStorageValue InProgress then Some InProgress
      else if status = ToStorageValue Completed then Some Completed
      else if status = ToStorageValue Cancelled then Some Cancelled
      else if status = ToStorageValue Expired then Some Expired
      else if status = ToStorageValue Finalizing then Some Finalizing
      else if status = ToStorageValue Failed then Some Failed
      else None)"

fun UploadTaskStatusName :: "UploadTaskStatus \<Rightarrow> string" where
  "UploadTaskStatusName InProgress = ''in_progress''"
| "UploadTaskStatusName Completed = ''completed''"
| "UploadTaskStatusName Cancelled = ''cancelled''"
| "UploadTaskStatusName Expired = ''expired''"
| "UploadTaskStatusName Finalizing = ''finalizing''"
| "UploadTaskStatusName Failed = ''failed''"

fun IsTerminalStatus :: "UploadTaskStatus \<Rightarrow> bool" where
  "IsTerminalStatus Completed = True"
| "IsTerminalStatus Cancelled = True"
| "IsTerminalStatus Expired = True"
| "IsTerminalStatus Failed = True"
| "IsTerminalStatus InProgress = False"
| "IsTerminalStatus Finalizing = False"

section \<open>Decisions\<close>

definition DecideFinalizeRequest :: "int \<Rightarrow> bool \<Rightarrow> FinalizeRequestAction" where
  "DecideFinalizeRequest current_status lease_expired =
     (case UploadTaskStatusFromStorage current_status of
        None \<Rightarrow> RejectTerminal
      | Some InProgress \<Rightarrow> ClaimLease
      | Some Finalizing \<Rightarrow> if lease_expired then TakeOverExpiredLease else RetryLater
      | Some Completed \<Rightarrow> ReplayCompleted
      | Some Cancelled \<Rightarrow> RejectTerminal
      | Some Expired \<Rightarrow> RejectTerminal
      | Some Failed \<Rightarrow> RejectTerminal)"

definition DecideCancelRequest :: "int \<Rightarrow> CancelRequestAction" where
  "DecideCancelRequest current_status =
     (case UploadTaskStatusFromStorage current_status of
        None \<Rightarrow> RejectTerminalCancel
      | Some InProgress \<Rightarrow> CancelTask
      | Some Cancelled \<Rightarrow> ReplayCancelled
      | Some Finalizing \<Rightarrow> RejectConflict
      | Some Completed \<Rightarrow> RejectConflict
      | Some Expired \<Rightarrow> RejectTerminalCancel
      | Some Failed \<Rightarrow> RejectTerminalCancel)"

section \<open>Storage values\<close>

lemma FromStorage_ToStorage [simp]: "UploadTaskStatusFromStorage (ToStorageValue st) = Some st"
  by (cases st) (simp_all add: UploadTaskStatusFromStorage_def)

lemma FromStorage_Some: "UploadTaskStatusFromStorage v = Some st \<longleftrightarrow> v = ToStorageValue st"
  by (cases st) (auto simp: UploadTaskStatusFromStorage_def split: if_splits)

lemma ToStorageValue_inject [simp]: "ToStorageValue a = ToStorageValue b \<longleftrightarrow> a = b"
  by (cases a; cases b) simp_all

lemma UploadTaskStatusName_inject: "UploadTaskStatusName a = UploadTaskStatusName b \<longleftrightarrow> a = b"
  by (cases a; cases b) simp_all

text \<open>The database accepts exactly the storage values (constraint \<^verbatim>\<open>ck_upload_tasks_status\<close>).\<close>

lemma FromStorage_range: "UploadTaskStatusFromStorage v \<noteq> None \<longleftrightarrow> 0 \<le> v \<and> v \<le> 5"
  by (auto simp: UploadTaskStatusFromStorage_def)

section \<open>The abstract machine\<close>

text \<open>
  One rule per transition a request may cause.  A task is born in progress; it is claimed for
  finalization once, may be taken over any number of times, and ends completed, cancelled or
  expired.  No rule leads to \<^const>\<open>Failed\<close>: that status is only ever read.
\<close>

inductive status_step :: "UploadTaskStatus \<Rightarrow> UploadTaskStatus \<Rightarrow> bool" where
  claim: "status_step InProgress Finalizing"
| take_over: "status_step Finalizing Finalizing"
| complete: "status_step Finalizing Completed"
| cancel: "status_step InProgress Cancelled"
| expire: "status_step InProgress Expired"

inductive_cases status_step_fromE: "status_step st st'"

inductive_simps status_step_simps [simp]:
  "status_step InProgress st" "status_step Finalizing st" "status_step Completed st"
  "status_step Cancelled st" "status_step Expired st" "status_step Failed st"

lemma terminal_no_step: "IsTerminalStatus st \<Longrightarrow> \<not> status_step st st'"
  by (cases st) simp_all

lemma nonterminal_steps: "\<not> IsTerminalStatus st \<Longrightarrow> \<exists>st'. status_step st st'"
  by (cases st) auto

text \<open>What a decision allows, as a transition.\<close>

lemma DecideFinalizeRequest_sound:
  "DecideFinalizeRequest (ToStorageValue st) le \<in> {ClaimLease, TakeOverExpiredLease} \<Longrightarrow>
   status_step st Finalizing"
  by (cases st) (auto simp: DecideFinalizeRequest_def UploadTaskStatusFromStorage_def split: if_splits)

lemma DecideCancelRequest_iff: "DecideCancelRequest (ToStorageValue st) = CancelTask \<longleftrightarrow> status_step st Cancelled"
  by (cases st) (simp_all add: DecideCancelRequest_def UploadTaskStatusFromStorage_def)

lemma never_failed: "status_step\<^sup>*\<^sup>* InProgress st \<Longrightarrow> st \<noteq> Failed"
  by (induction rule: rtranclp_induct) (auto elim: status_step_fromE)

text \<open>Once a terminal status is reached, every later status is the same one.\<close>

lemma terminal_absorbing: "status_step\<^sup>*\<^sup>* st st' \<Longrightarrow> IsTerminalStatus st \<Longrightarrow> st' = st"
  by (induction rule: converse_rtranclp_induct) (auto dest: terminal_no_step)

end
