(* ===== verification/Upload_Task_Repository.thy ===== *)
theory Upload_Task_Repository
  imports Session_Logic Upload_State_Machine
begin

text \<open>
  The persistence primitives of upload tasks (src/src/services/UploadTaskRepository.cpp): one
  definition per method, each SQL statement as a guarded update, insertion, deletion or
  selection over the tables of theory \<open>Database\<close>.  Guards compare against the database
  clock; a comparison with \<^verbatim>\<open>NULL\<close> does not hold.  The statements are the realisation of the
  status machine: they change a status only along \<^const>\<open>status_step\<close>, bump the state
  version with every change and fence off every owner that lost its lease.
\<close>

section \<open>Staging sessions and records\<close>

fun BackendToStorageValue :: "UploadStagingBackend \<Rightarrow> string" where
  "BackendToStorageValue BackendLocal = ''local''"
| "BackendToStorageValue BackendS3 = ''s3''"

definition ParseUploadStagingBackend :: "string \<Rightarrow> UploadStagingBackend option" where
  "ParseUploadStagingBackend value =
     (if value = ''local'' then Some BackendLocal
      else if value = ''s3'' then Some BackendS3
      else None)"

lemma ParseUploadStagingBackend_inverse [simp]:
  "ParseUploadStagingBackend (BackendToStorageValue b) = Some b"
  by (cases b) (simp_all add: ParseUploadStagingBackend_def)

record UploadStagingChunk =
  sc_chunk_index :: nat
  sc_size_bytes :: nat
  sc_md5_hash :: string
  sc_object_key :: string
  sc_etag :: string

record UploadTaskCleanupRecord =
  cr_id :: string
  cr_user_id :: nat
  cr_reserved_bytes :: nat
  cr_staging_session :: UploadStagingSession

record UploadTaskCancellationState =
  cs_status :: int
  cs_state_version :: nat
  cs_task_expired :: bool

datatype FinalizeClaimDisposition =
  Acquired | IncompleteChunks | LeaseHeld | CompletedReplay | Terminal | NotFound

record FinalizeClaimResult =
  fr_disposition :: FinalizeClaimDisposition
  fr_state_version :: nat
  fr_completed_file_id :: "nat option"

datatype ChunkRecordDisposition = Accepted | TaskRejected | MetadataConflict

definition ValidateLeaseArguments :: "string \<Rightarrow> nat \<Rightarrow> ('w, unit) M" where
  "ValidateLeaseArguments lease_owner lease_duration_seconds =
     (if lease_owner = [] \<or> length lease_owner > 128
      then throwM (InvalidArgument ''Finalize lease owner must contain 1 to 128 characters'')
      else if lease_duration_seconds = 0
      then throwM (InvalidArgument ''Finalize lease duration must be positive'')
      else retM ())"

text \<open>\<^verbatim>\<open>COALESCE(staging_prefix, temp_path)\<close>\<close>

definition row_prefix :: "task_row \<Rightarrow> string" where
  "row_prefix r = (case t_staging_prefix r of Some p \<Rightarrow> p | None \<Rightarrow> t_temp_path r)"

definition ToUploadTaskCleanupRecord :: "task_row \<Rightarrow> ('w, UploadTaskCleanupRecord) M" where
  "ToUploadTaskCleanupRecord r =
     (case ParseUploadStagingBackend (t_staging_backend r) of
        None \<Rightarrow> throwM (RuntimeError ''Upload task contains an unsupported staging backend'')
      | Some backend \<Rightarrow>
          retM \<lparr>cr_id = t_id r, cr_user_id = t_user_id r, cr_reserved_bytes = t_reserved_bytes r,
                cr_staging_session =
                  \<lparr>ss_upload_id = t_id r, ss_backend = backend, ss_prefix = row_prefix r\<rparr>\<rparr>)"

section \<open>Lookups\<close>

definition owned_task :: "string \<Rightarrow> nat \<Rightarrow> task_row \<Rightarrow> bool" where
  "owned_task upload_id user_id r \<longleftrightarrow> t_id r = upload_id \<and> t_user_id r = user_id"

text \<open>\<^verbatim>\<open>CoroMapper::findOne\<close> raises unless exactly one row matches.\<close>

definition FindByIdForUser :: "'w client \<Rightarrow> string \<Rightarrow> nat \<Rightarrow> ('w, task_row option) M" where
  "FindByIdForUser E upload_id user_id =
     catchDb
       (exec E (\<lambda>d. case filter (owned_task upload_id user_id) (upload_tasks d) of
                      [r] \<Rightarrow> (Inr (Some r), d)
                    | _ \<Rightarrow> (Inl DbException, d)))
       (retM None)"

definition FindUnexpiredByIdForUser :: "'w client \<Rightarrow> string \<Rightarrow> nat \<Rightarrow> ('w, task_row option) M" where
  "FindUnexpiredByIdForUser E upload_id user_id =
     exec E (pureS (\<lambda>d. find_row (\<lambda>r. owned_task upload_id user_id r \<and> t_expires_at r \<ge> now d)
                                 (upload_tasks d)))"

definition active_status :: "int \<Rightarrow> bool" where
  "active_status v \<longleftrightarrow> v = ToStorageValue InProgress \<or> v = ToStorageValue Finalizing"

definition FindActiveByUserAndHash :: "'w client \<Rightarrow> nat \<Rightarrow> string \<Rightarrow> ('w, task_row option) M" where
  "FindActiveByUserAndHash E user_id file_hash =
     exec E (pureS (\<lambda>d.
       (case sort_key (\<lambda>r. (t_created_at r, t_id r))
               (filter (\<lambda>r. t_user_id r = user_id \<and> t_file_hash r = file_hash \<and> active_status (t_status r))
                       (upload_tasks d)) of
          [] \<Rightarrow> None
        | r # _ \<Rightarrow> Some r)))"

text \<open>The advisory lock serialises transactions; transactions of the model are serial already.\<close>

definition AcquireUploadInitLock :: "'w client \<Rightarrow> nat \<Rightarrow> string \<Rightarrow> ('w, unit) M" where
  "AcquireUploadInitLock E user_id file_hash = exec E (pureS (\<lambda>_. ()))"

definition FindStagingSessionForUser :: "'w client \<Rightarrow> string \<Rightarrow> nat \<Rightarrow> ('w, UploadStagingSession option) M" where
  "FindStagingSessionForUser E upload_id user_id =
     bindM (exec E (pureS (\<lambda>d. find_row (owned_task upload_id user_id) (upload_tasks d))))
       (\<lambda>row. case row of
          None \<Rightarrow> retM None
        | Some r \<Rightarrow>
            (case ParseUploadStagingBackend (t_staging_backend r) of
               None \<Rightarrow> throwM (RuntimeError ''Upload task contains an unsupported staging backend'')
             | Some backend \<Rightarrow>
                 retM (Some \<lparr>ss_upload_id = t_id r, ss_backend = backend, ss_prefix = row_prefix r\<rparr>)))"

definition FindCancellationStateByIdForUser ::
  "'w client \<Rightarrow> string \<Rightarrow> nat \<Rightarrow> ('w, UploadTaskCancellationState option) M" where
  "FindCancellationStateByIdForUser E upload_id user_id =
     exec E (pureS (\<lambda>d. map_option
       (\<lambda>r. \<lparr>cs_status = t_status r, cs_state_version = t_state_version r,
             cs_task_expired = t_expires_at r < now d\<rparr>)
       (find_row (owned_task upload_id user_id) (upload_tasks d))))"

definition FindExpiredInProgressBatch :: "'w client \<Rightarrow> nat \<Rightarrow> ('w, UploadTaskCleanupRecord list) M" where
  "FindExpiredInProgressBatch E limit =
     bindM (exec E (pureS (\<lambda>d. take limit (sort_key (\<lambda>r. (t_expires_at r, t_id r))
              (filter (\<lambda>r. t_status r = ToStorageValue InProgress \<and> t_expires_at r < now d) (upload_tasks d))))))
       (\<lambda>rows. foldr (\<lambda>r acc. bindM (ToUploadTaskCleanupRecord r) (\<lambda>c. bindM acc (\<lambda>cs. retM (c # cs))))
                     rows (retM []))"

section \<open>Creation\<close>

text \<open>
  \<^verbatim>\<open>INSERT INTO upload_tasks ... RETURNING *\<close>: the primary key rejects a known identifier and the
  check on the staging columns an \<^verbatim>\<open>s3\<close> task without prefix (the prefix is bound, so never null).
\<close>

definition new_task_row :: "'w db \<Rightarrow> task_row \<Rightarrow> UploadStagingSession \<Rightarrow> nat \<Rightarrow> task_row" where
  "new_task_row d task session expiry_seconds =
     \<lparr>t_id = t_id task, t_user_id = t_user_id task, t_folder_id = t_folder_id task,
      t_filename = t_filename task, t_file_size = t_file_size task, t_file_hash = t_file_hash task,
      t_chunk_size = t_chunk_size task, t_total_chunks = t_total_chunks task,
      t_reserved_bytes = t_reserved_bytes task, t_temp_path = t_temp_path task,
      t_staging_backend = BackendToStorageValue (ss_backend session),
      t_staging_prefix = Some (ss_prefix session), t_status = t_status task, t_state_version = 0,
      t_lease_owner = None, t_lease_expires_at = None, t_finalize_attempts = 0,
      t_last_error_code = None, t_last_error_at = None, t_completed_file_id = None,
      t_expires_at = now d + to_int32 (int expiry_seconds), t_finalized_at = None,
      t_fail_reason = None, t_created_at = now d\<rparr>"

definition create_stmt :: "task_row \<Rightarrow> UploadStagingSession \<Rightarrow> nat \<Rightarrow> ('w, task_row) stmt" where
  "create_stmt task staging_session expiry_seconds d =
     (if t_id task \<in> t_id ` set (upload_tasks d) \<or> t_user_id task \<notin> u_id ` set (users d)
      then (Inl DbException, d)
      else (let r = new_task_row d task staging_session expiry_seconds
            in (Inr r, d\<lparr>upload_tasks := upload_tasks d @ [r]\<rparr>)))"

definition Create :: "'w client \<Rightarrow> task_row \<Rightarrow> UploadStagingSession \<Rightarrow> nat \<Rightarrow> ('w, task_row) M" where
  "Create E task staging_session expiry_seconds =
     (if ss_upload_id staging_session \<noteq> t_id task
      then throwM (InvalidArgument ''Staging session upload ID must match upload task ID'')
      else if ss_prefix staging_session = []
      then throwM (InvalidArgument ''Staging session prefix must not be empty'')
      else exec E (create_stmt task staging_session expiry_seconds))"

section \<open>The finalize lease\<close>

definition chunk_rows :: "'w db \<Rightarrow> string \<Rightarrow> chunk_row list" where
  "chunk_rows d upload_id = filter (\<lambda>c. c_task_id c = upload_id) (upload_task_chunks d)"

text \<open>\<^verbatim>\<open>COUNT(*) = total_chunks AND COALESCE(MAX(chunk_index), -1) = total_chunks - 1\<close>\<close>

definition chunks_complete :: "'w db \<Rightarrow> task_row \<Rightarrow> bool" where
  "chunks_complete d r \<longleftrightarrow>
     (let is = map c_chunk_index (chunk_rows d (t_id r)) in
      int (length is) = t_total_chunks r \<and>
      (case is of [] \<Rightarrow> -1 | i # js \<Rightarrow> foldr max js i) = t_total_chunks r - 1)"

definition lease_expired :: "int \<Rightarrow> task_row \<Rightarrow> bool" where
  "lease_expired t r = (case t_lease_expires_at r of None \<Rightarrow> False | Some x \<Rightarrow> x \<le> t)"

definition lease_live :: "int \<Rightarrow> task_row \<Rightarrow> bool" where
  "lease_live t r = (case t_lease_expires_at r of None \<Rightarrow> False | Some x \<Rightarrow> x > t)"

definition claim_guard :: "'w db \<Rightarrow> string \<Rightarrow> nat \<Rightarrow> task_row \<Rightarrow> bool" where
  "claim_guard d upload_id user_id r \<longleftrightarrow>
     owned_task upload_id user_id r \<and>
     (t_status r = ToStorageValue InProgress \<and> t_expires_at r \<ge> now d \<and> chunks_complete d r \<or>
      t_status r = ToStorageValue Finalizing \<and> lease_expired (now d) r)"

definition claim_set :: "int \<Rightarrow> string \<Rightarrow> nat \<Rightarrow> task_row \<Rightarrow> task_row" where
  "claim_set t lease_owner duration r =
     r\<lparr>t_status := ToStorageValue Finalizing, t_lease_owner := Some lease_owner,
       t_lease_expires_at := Some (t + to_int32 (int duration)),
       t_state_version := t_state_version r + 1,
       t_finalize_attempts := t_finalize_attempts r + 1,
       t_last_error_code := None, t_last_error_at := None\<rparr>"

definition claim_stmt :: "string \<Rightarrow> nat \<Rightarrow> string \<Rightarrow> nat \<Rightarrow> ('w, nat list) stmt" where
  "claim_stmt upload_id user_id lease_owner duration d =
     (Inr (map (\<lambda>r. t_state_version r + 1) (filter (claim_guard d upload_id user_id) (upload_tasks d))),
      d\<lparr>upload_tasks := update_where (claim_guard d upload_id user_id)
                          (claim_set (now d) lease_owner duration) (upload_tasks d)\<rparr>)"

definition claim_disposition :: "FinalizeRequestAction \<Rightarrow> bool \<Rightarrow> FinalizeClaimDisposition" where
  "claim_disposition action task_expired =
     (case action of
        ClaimLease \<Rightarrow> if task_expired then Terminal else IncompleteChunks
      | TakeOverExpiredLease \<Rightarrow> LeaseHeld
      | RetryLater \<Rightarrow> LeaseHeld
      | ReplayCompleted \<Rightarrow> CompletedReplay
      | RejectTerminal \<Rightarrow> Terminal)"

definition ClaimFinalizeLease ::
  "'w client \<Rightarrow> string \<Rightarrow> nat \<Rightarrow> string \<Rightarrow> nat \<Rightarrow> ('w, FinalizeClaimResult) M" where
  "ClaimFinalizeLease E upload_id user_id lease_owner duration =
     bindM (ValidateLeaseArguments lease_owner duration) (\<lambda>_.
     bindM (exec E (claim_stmt upload_id user_id lease_owner duration)) (\<lambda>claimed.
       case claimed of
         v # _ \<Rightarrow> retM \<lparr>fr_disposition = Acquired, fr_state_version = v, fr_completed_file_id = None\<rparr>
       | [] \<Rightarrow>
           bindM (exec E (pureS (\<lambda>d. map_option (\<lambda>r. (r, now d))
                                   (find_row (owned_task upload_id user_id) (upload_tasks d))))) (\<lambda>current.
             case current of
               None \<Rightarrow> retM \<lparr>fr_disposition = NotFound, fr_state_version = 0, fr_completed_file_id = None\<rparr>
             | Some (r, t) \<Rightarrow>
                 retM \<lparr>fr_disposition =
                         claim_disposition (DecideFinalizeRequest (t_status r) (lease_expired t r))
                                           (t_expires_at r < t),
                       fr_state_version = t_state_version r,
                       fr_completed_file_id = t_completed_file_id r\<rparr>)))"

definition owns_lease :: "int \<Rightarrow> string \<Rightarrow> nat \<Rightarrow> string \<Rightarrow> nat \<Rightarrow> task_row \<Rightarrow> bool" where
  "owns_lease t upload_id user_id lease_owner expected_state_version r \<longleftrightarrow>
     owned_task upload_id user_id r \<and> t_status r = ToStorageValue Finalizing \<and>
     t_lease_owner r = Some lease_owner \<and> t_state_version r = expected_state_version \<and>
     lease_live t r"

definition renew_set :: "int \<Rightarrow> nat \<Rightarrow> task_row \<Rightarrow> task_row" where
  "renew_set t duration r =
     r\<lparr>t_lease_expires_at := Some (t + to_int32 (int duration)),
       t_state_version := t_state_version r + 1\<rparr>"

definition renew_stmt :: "string \<Rightarrow> nat \<Rightarrow> string \<Rightarrow> nat \<Rightarrow> nat \<Rightarrow> ('w, nat list) stmt" where
  "renew_stmt upload_id user_id lease_owner expected_state_version duration d =
     (let p = owns_lease (now d) upload_id user_id lease_owner expected_state_version in
      (Inr (map (\<lambda>r. t_state_version r + 1) (filter p (upload_tasks d))),
       d\<lparr>upload_tasks := update_where p (renew_set (now d) duration) (upload_tasks d)\<rparr>))"

definition RenewFinalizeLease ::
  "'w client \<Rightarrow> string \<Rightarrow> nat \<Rightarrow> string \<Rightarrow> nat \<Rightarrow> nat \<Rightarrow> ('w, nat option) M" where
  "RenewFinalizeLease E upload_id user_id lease_owner expected_state_version duration =
     bindM (ValidateLeaseArguments lease_owner duration) (\<lambda>_.
     bindM (exec E (renew_stmt upload_id user_id lease_owner expected_state_version duration)) (\<lambda>vs.
       case vs of [] \<Rightarrow> retM None | v # _ \<Rightarrow> retM (Some v)))"

definition complete_set :: "int \<Rightarrow> nat \<Rightarrow> task_row \<Rightarrow> task_row" where
  "complete_set t completed_file_id r =
     r\<lparr>t_status := ToStorageValue Completed, t_completed_file_id := Some completed_file_id,
       t_finalized_at := Some t, t_lease_owner := None, t_lease_expires_at := None,
       t_state_version := t_state_version r + 1\<rparr>"

definition complete_stmt :: "string \<Rightarrow> nat \<Rightarrow> string \<Rightarrow> nat \<Rightarrow> nat \<Rightarrow> ('w, bool) stmt" where
  "complete_stmt upload_id user_id lease_owner expected_state_version completed_file_id d =
     (let p = owns_lease (now d) upload_id user_id lease_owner expected_state_version in
      (Inr (affected p (upload_tasks d) > 0),
       d\<lparr>upload_tasks := update_where p (complete_set (now d) completed_file_id) (upload_tasks d)\<rparr>))"

definition MarkCompletedIfLeaseOwned ::
  "'w client \<Rightarrow> string \<Rightarrow> nat \<Rightarrow> string \<Rightarrow> nat \<Rightarrow> nat \<Rightarrow> ('w, bool) M" where
  "MarkCompletedIfLeaseOwned E upload_id user_id lease_owner expected_state_version completed_file_id =
     exec E (complete_stmt upload_id user_id lease_owner expected_state_version completed_file_id)"

definition error_set :: "int \<Rightarrow> nat \<Rightarrow> task_row \<Rightarrow> task_row" where
  "error_set t error_code r = r\<lparr>t_last_error_code := Some error_code, t_last_error_at := Some t\<rparr>"

definition error_stmt :: "string \<Rightarrow> nat \<Rightarrow> string \<Rightarrow> nat \<Rightarrow> nat \<Rightarrow> ('w, bool) stmt" where
  "error_stmt upload_id user_id lease_owner expected_state_version error_code d =
     (let p = owns_lease (now d) upload_id user_id lease_owner expected_state_version in
      (Inr (affected p (upload_tasks d) > 0),
       d\<lparr>upload_tasks := update_where p (error_set (now d) error_code) (upload_tasks d)\<rparr>))"

definition RecordFinalizeErrorIfLeaseOwned ::
  "'w client \<Rightarrow> string \<Rightarrow> nat \<Rightarrow> string \<Rightarrow> nat \<Rightarrow> nat \<Rightarrow> ('w, bool) M" where
  "RecordFinalizeErrorIfLeaseOwned E upload_id user_id lease_owner expected_state_version error_code =
     exec E (error_stmt upload_id user_id lease_owner expected_state_version error_code)"

section \<open>Cancellation and expiry\<close>

definition finish_set :: "UploadTaskStatus \<Rightarrow> int \<Rightarrow> string \<Rightarrow> task_row \<Rightarrow> task_row" where
  "finish_set st t fail_reason r =
     r\<lparr>t_status := ToStorageValue st, t_finalized_at := Some t, t_fail_reason := Some fail_reason,
       t_state_version := t_state_version r + 1\<rparr>"

definition cancel_guard :: "int \<Rightarrow> string \<Rightarrow> nat \<Rightarrow> task_row \<Rightarrow> bool" where
  "cancel_guard t upload_id user_id r \<longleftrightarrow>
     owned_task upload_id user_id r \<and> t_status r = ToStorageValue InProgress \<and> t_expires_at r \<ge> t"

definition expire_guard :: "int \<Rightarrow> string \<Rightarrow> task_row \<Rightarrow> bool" where
  "expire_guard t upload_id r \<longleftrightarrow>
     t_id r = upload_id \<and> t_status r = ToStorageValue InProgress \<and> t_expires_at r < t"

text \<open>
  The two statements return the updated row; the caller receives the cleanup record built from
  it together with the new state version.
\<close>

definition finish_stmt ::
  "('w db \<Rightarrow> task_row \<Rightarrow> bool) \<Rightarrow> UploadTaskStatus \<Rightarrow> string \<Rightarrow> ('w, task_row list) stmt" where
  "finish_stmt p st fail_reason d =
     (Inr (map (finish_set st (now d) fail_reason) (filter (p d) (upload_tasks d))),
      d\<lparr>upload_tasks := update_where (p d) (finish_set st (now d) fail_reason) (upload_tasks d)\<rparr>)"

definition returning_cleanup :: "task_row list \<Rightarrow> ('w, (UploadTaskCleanupRecord \<times> nat) option) M" where
  "returning_cleanup rows =
     (case rows of
        [] \<Rightarrow> retM None
      | r # _ \<Rightarrow> bindM (ToUploadTaskCleanupRecord r) (\<lambda>c. retM (Some (c, t_state_version r))))"

definition MarkCancelledIfInProgressReturning ::
  "'w client \<Rightarrow> string \<Rightarrow> nat \<Rightarrow> string \<Rightarrow> ('w, (UploadTaskCleanupRecord \<times> nat) option) M" where
  "MarkCancelledIfInProgressReturning E upload_id user_id fail_reason =
     bindM (exec E (finish_stmt (\<lambda>d. cancel_guard (now d) upload_id user_id) Cancelled fail_reason))
       returning_cleanup"

definition MarkExpiredIfInProgressReturning ::
  "'w client \<Rightarrow> string \<Rightarrow> string \<Rightarrow> ('w, (UploadTaskCleanupRecord \<times> nat) option) M" where
  "MarkExpiredIfInProgressReturning E upload_id fail_reason =
     bindM (exec E (finish_stmt (\<lambda>d. expire_guard (now d) upload_id) Expired fail_reason))
       returning_cleanup"

section \<open>Chunks\<close>

definition nullif :: "string \<Rightarrow> string option" where
  "nullif s = (if s = [] then None else Some s)"

definition coalesce :: "'a option \<Rightarrow> 'a option \<Rightarrow> 'a option" where
  "coalesce a b = (case a of None \<Rightarrow> b | Some x \<Rightarrow> Some x)"

definition is_hex_md5 :: "string \<Rightarrow> bool" where
  "is_hex_md5 h \<longleftrightarrow> length h = 32 \<and>
     list_all (\<lambda>c. CHR ''0'' \<le> c \<and> c \<le> CHR ''9'' \<or> CHR ''a'' \<le> c \<and> c \<le> CHR ''f'') h"

text \<open>The check constraints of \<^verbatim>\<open>upload_task_chunks\<close>, raised as a database error.\<close>

definition chunk_checks :: "chunk_row \<Rightarrow> bool" where
  "chunk_checks c \<longleftrightarrow> c_chunk_index c \<ge> 0 \<and>
     (case c_size_bytes c of None \<Rightarrow> True | Some n \<Rightarrow> n > 0) \<and>
     (case c_hash_md5 c of None \<Rightarrow> True | Some h \<Rightarrow> is_hex_md5 h)"

definition null_or_eq :: "'a option \<Rightarrow> 'a option \<Rightarrow> bool" where
  "null_or_eq a b = (case a of None \<Rightarrow> True | Some x \<Rightarrow> b = Some x)"

definition chunk_compatible :: "chunk_row \<Rightarrow> chunk_row \<Rightarrow> bool" where
  "chunk_compatible old ex \<longleftrightarrow>
     null_or_eq (c_size_bytes old) (c_size_bytes ex) \<and>
     null_or_eq (c_hash_md5 old) (c_hash_md5 ex) \<and>
     null_or_eq (c_object_key old) (c_object_key ex) \<and>
     (c_etag old = None \<or> c_etag ex = None \<or> c_etag old = c_etag ex)"

definition chunk_merge :: "chunk_row \<Rightarrow> chunk_row \<Rightarrow> chunk_row" where
  "chunk_merge ex old =
     old\<lparr>c_size_bytes := coalesce (c_size_bytes old) (c_size_bytes ex),
         c_hash_md5 := coalesce (c_hash_md5 old) (c_hash_md5 ex),
         c_object_key := coalesce (c_object_key old) (c_object_key ex),
         c_etag := coalesce (c_etag old) (c_etag ex)\<rparr>"

definition chunk_key :: "chunk_row \<Rightarrow> string \<times> int" where
  "chunk_key c = (c_task_id c, c_chunk_index c)"

definition record_chunk_stmt :: "string \<Rightarrow> nat \<Rightarrow> chunk_row \<Rightarrow> ('w, bool \<times> bool) stmt" where
  "record_chunk_stmt upload_id user_id ex d =
     (if \<not> list_ex (cancel_guard (now d) upload_id user_id) (upload_tasks d) then (Inr (False, False), d)
      else if \<not> chunk_checks ex then (Inl DbException, d)
      else (case find_row (\<lambda>c. chunk_key c = chunk_key ex) (upload_task_chunks d) of
              None \<Rightarrow> (Inr (True, True), d\<lparr>upload_task_chunks := upload_task_chunks d @ [ex]\<rparr>)
            | Some old \<Rightarrow>
                if chunk_compatible old ex
                then (Inr (True, True),
                      d\<lparr>upload_task_chunks :=
                          update_where (\<lambda>c. chunk_key c = chunk_key ex) (chunk_merge ex) (upload_task_chunks d)\<rparr>)
                else (Inr (True, False), d)))"

definition RecordChunkIfInProgress ::
  "'w client \<Rightarrow> string \<Rightarrow> nat \<Rightarrow> nat \<Rightarrow> nat \<Rightarrow> string \<Rightarrow> string \<Rightarrow> string \<Rightarrow> ('w, ChunkRecordDisposition) M" where
  "RecordChunkIfInProgress E upload_id user_id chunk_index size_bytes hash_md5 object_key etag =
     bindM (exec E (record_chunk_stmt upload_id user_id
         \<lparr>c_task_id = upload_id, c_chunk_index = to_int32 (int chunk_index),
          c_size_bytes = Some size_bytes, c_hash_md5 = Some hash_md5,
          c_object_key = nullif object_key, c_etag = nullif etag\<rparr>))
       (\<lambda>(task_eligible, chunk_ok).
          if \<not> task_eligible then retM TaskRejected
          else if \<not> chunk_ok then retM MetadataConflict
          else retM Accepted)"

definition ListChunksForAssembly :: "'w client \<Rightarrow> string \<Rightarrow> ('w, UploadStagingChunk list) M" where
  "ListChunksForAssembly E upload_id =
     exec E (pureS (\<lambda>d. map (\<lambda>c.
         \<lparr>sc_chunk_index = to_uint32 (c_chunk_index c),
          sc_size_bytes = (case c_size_bytes c of None \<Rightarrow> 0 | Some n \<Rightarrow> n),
          sc_md5_hash = (case c_hash_md5 c of None \<Rightarrow> '''' | Some h \<Rightarrow> h),
          sc_object_key = (case c_object_key c of None \<Rightarrow> '''' | Some k \<Rightarrow> k),
          sc_etag = (case c_etag c of None \<Rightarrow> '''' | Some e \<Rightarrow> e)\<rparr>)
       (sort_key c_chunk_index (chunk_rows d upload_id))))"

definition ListUploadedChunkIndices :: "'w client \<Rightarrow> string \<Rightarrow> ('w, nat list) M" where
  "ListUploadedChunkIndices E upload_id =
     exec E (pureS (\<lambda>d. map (to_uint32 \<circ> c_chunk_index) (sort_key c_chunk_index (chunk_rows d upload_id))))"

definition DeleteChunks :: "'w client \<Rightarrow> string \<Rightarrow> ('w, unit) M" where
  "DeleteChunks E upload_id =
     exec E (updateS (\<lambda>_. ()) (\<lambda>d. d\<lparr>upload_task_chunks :=
       filter (\<lambda>c. c_task_id c \<noteq> upload_id) (upload_task_chunks d)\<rparr>))"

end
