(* ===== verification/Storage_Job_Contract.thy ===== *)
theory Storage_Job_Contract
  imports Storage_Job_Repository Upload_Task_Repository
begin

text \<open>
  Payloads and deduplication keys of the periodic storage jobs
  (src/src/services/StorageJobContract.cpp, and the page request of
  src/src/services/StorageReconciliationService.hpp): each kind of job has a builder, which
  validates the request, and a parser, which rebuilds the job from the payload and compares its
  identity columns.  The two directions form a contract (\<open>page_job_contract\<close>) that holds for
  all three page jobs.  SHA-256 is a parameter (\<open>sha256\<close>), the library's function.
\<close>

section \<open>JSON access\<close>

text \<open>
  jsoncpp's view of a payload: a member that is absent reads as null; a number is unsigned
  64-bit if it is a non-negative integer in range, also when it is a double.
\<close>

fun member :: "json \<Rightarrow> string \<Rightarrow> json" where
  "member (JObject fs) k = (case map_of fs k of None \<Rightarrow> JNull | Some v \<Rightarrow> v)"
| "member _ k = JNull"

fun isObject :: "json \<Rightarrow> bool" where
  "isObject (JObject fs) = True"
| "isObject _ = False"

fun jsize :: "json \<Rightarrow> nat" where
  "jsize (JObject fs) = length fs"
| "jsize _ = 0"

fun isString :: "json \<Rightarrow> bool" where
  "isString (JString s) = True"
| "isString _ = False"

fun asString :: "json \<Rightarrow> string" where
  "asString (JString s) = s"
| "asString _ = ''''"

text \<open>
  A number with a fraction or an exponent is a double, \<open>JReal m e t\<close>: its value is
  m * 2^e, kept as a fraction of integers, and \<open>t\<close> the text jsoncpp prints for it.
\<close>

definition real_numer :: "int \<Rightarrow> int \<Rightarrow> int" where
  "real_numer m e = (if 0 \<le> e then m * 2 ^ nat e else m)"

definition real_denom :: "int \<Rightarrow> int" where
  "real_denom e = (if 0 \<le> e then 1 else 2 ^ nat (- e))"

definition real_whole :: "int \<Rightarrow> int \<Rightarrow> bool" where
  "real_whole m e \<longleftrightarrow> real_denom e dvd real_numer m e"

definition real_floor :: "int \<Rightarrow> int \<Rightarrow> int" where
  "real_floor m e = real_numer m e div real_denom e"

fun isUInt64 :: "json \<Rightarrow> bool" where
  "isUInt64 (JUInt n) = (n < 2 ^ 64)"
| "isUInt64 (JInt i) = (0 \<le> i \<and> i < 2 ^ 64)"
| "isUInt64 (JReal m e t) = (0 \<le> m \<and> real_whole m e \<and> real_floor m e < 2 ^ 64)"
| "isUInt64 _ = False"

fun asUInt64 :: "json \<Rightarrow> nat" where
  "asUInt64 (JUInt n) = n"
| "asUInt64 (JInt i) = nat i"
| "asUInt64 (JReal m e t) = nat (real_floor m e)"
| "asUInt64 _ = 0"


lemma real_denom_pos [simp]: "0 < real_denom e"
  by (simp add: real_denom_def)

lemma real_value_iff: "m * 2 ^ nat e = v * 2 ^ nat (- e) \<longleftrightarrow> real_whole m e \<and> real_floor m e = v"
proof -
  have "m * 2 ^ nat e = v * 2 ^ nat (- e) \<longleftrightarrow> real_numer m e = v * real_denom e"
    by (auto simp: real_numer_def real_denom_def)
  also have "\<dots> \<longleftrightarrow> real_whole m e \<and> real_floor m e = v"
    using real_denom_pos [of e] by (auto simp: real_whole_def real_floor_def simp del: real_denom_pos)
  finally show ?thesis .
qed

lemma real_numer_sign: "real_numer m e < 0 \<longleftrightarrow> m < 0"
  by (auto simp: real_numer_def mult_less_0_iff)

lemma real_floor_sign: "real_floor m e < 0 \<longleftrightarrow> m < 0"
  using real_denom_pos [of e] by (simp add: real_floor_def real_numer_sign pos_imp_zdiv_neg_iff)

section \<open>Shared validation\<close>

definition isalnum :: "char \<Rightarrow> bool" where
  "isalnum c \<longleftrightarrow> CHR ''0'' \<le> c \<and> c \<le> CHR ''9'' \<or> CHR ''A'' \<le> c \<and> c \<le> CHR ''Z'' \<or>
     CHR ''a'' \<le> c \<and> c \<le> CHR ''z''"

definition IsSafeScanId :: "string \<Rightarrow> bool" where
  "IsSafeScanId scan_id \<longleftrightarrow> scan_id \<noteq> [] \<and> length scan_id \<le> 64 \<and>
     list_all (\<lambda>c. isalnum c \<or> c = CHR ''.'' \<or> c = CHR ''_'' \<or> c = CHR '':'' \<or> c = CHR ''-'') scan_id"

definition ValidateObjectShape :: "json \<Rightarrow> nat \<Rightarrow> string \<Rightarrow> string + unit" where
  "ValidateObjectShape payload expected_fields job_type =
     (if \<not> isObject payload \<or> jsize payload \<noteq> expected_fields
      then Inl (job_type @ '' payload has an invalid object shape'')
      else Inr ())"

section \<open>Staging cleanup\<close>

definition BuildStagingCleanupJob :: "UploadStagingSession \<Rightarrow> NewStorageJob" where
  "BuildStagingCleanupJob session =
     \<lparr>nj_job_type = kStagingCleanupJobType, nj_aggregate_id = ss_upload_id session,
      nj_dedupe_key = ''staging-cleanup:'' @ ss_upload_id session,
      nj_payload = JObject [(''upload_id'', JString (ss_upload_id session)),
                            (''backend'', JString (BackendToStorageValue (ss_backend session))),
                            (''prefix'', JString (ss_prefix session))],
      nj_max_attempts = 8\<rparr>"

section \<open>Expiration pages\<close>

record ExpireUploadsPageRequest =
  eu_scan_id :: string
  eu_page :: nat
  eu_limit :: nat

definition ValidateExpireUploadsPageRequest :: "ExpireUploadsPageRequest \<Rightarrow> string + unit" where
  "ValidateExpireUploadsPageRequest request =
     (if \<not> IsSafeScanId (eu_scan_id request) then Inl ''expire_uploads scan_id is invalid''
      else if eu_page request = 2 ^ 64 - 1 then Inl ''expire_uploads page cannot be incremented''
      else if eu_limit request = 0 \<or> eu_limit request > 500
      then Inl ''expire_uploads limit must be in range 1-500''
      else Inr ())"

definition BuildExpireUploadsJob :: "ExpireUploadsPageRequest \<Rightarrow> string + NewStorageJob" where
  "BuildExpireUploadsJob request =
     (case ValidateExpireUploadsPageRequest request of
        Inl e \<Rightarrow> Inl e
      | Inr _ \<Rightarrow> Inr
          \<lparr>nj_job_type = kExpireUploadsJobType, nj_aggregate_id = eu_scan_id request,
           nj_dedupe_key = ''periodic:expire-uploads:'' @ eu_scan_id request @ '':'' @ decimal (eu_page request),
           nj_payload = JObject [(''scan_id'', JString (eu_scan_id request)),
                                 (''page'', JUInt (eu_page request)),
                                 (''limit'', JUInt (eu_limit request))],
           nj_max_attempts = 8\<rparr>)"

definition ParseExpireUploadsJob :: "StorageJob \<Rightarrow> string + ExpireUploadsPageRequest" where
  "ParseExpireUploadsJob job =
     (if sj_job_type job \<noteq> kExpireUploadsJobType
      then Inl ''expire_uploads job type does not match parser''
      else case ValidateObjectShape (sj_payload job) 3 kExpireUploadsJobType of
        Inl e \<Rightarrow> Inl e
      | Inr _ \<Rightarrow>
          let p = sj_payload job in
          if \<not> isString (member p ''scan_id'') \<or> \<not> isUInt64 (member p ''page'') \<or>
             \<not> isUInt64 (member p ''limit'') \<or> asUInt64 (member p ''limit'') > 2 ^ 64 - 1
          then Inl ''expire_uploads payload field types are invalid''
          else
            let request = \<lparr>eu_scan_id = asString (member p ''scan_id''),
                           eu_page = asUInt64 (member p ''page''),
                           eu_limit = asUInt64 (member p ''limit'')\<rparr>
            in case BuildExpireUploadsJob request of
                 Inl e \<Rightarrow> Inl e
               | Inr expected_job \<Rightarrow>
                   if sj_aggregate_id job \<noteq> nj_aggregate_id expected_job
                   then Inl ''expire_uploads aggregate_id does not match scan_id''
                   else if sj_dedupe_key job \<noteq> nj_dedupe_key expected_job
                   then Inl ''expire_uploads dedupe_key does not match payload''
                   else Inr request)"

record ExpireTrashPageRequest =
  et_scan_id :: string
  et_after_id :: nat
  et_limit :: nat

definition ValidateExpireTrashPageRequest :: "ExpireTrashPageRequest \<Rightarrow> string + unit" where
  "ValidateExpireTrashPageRequest request =
     (if \<not> IsSafeScanId (et_scan_id request) then Inl ''expire_trash scan_id is invalid''
      else if et_after_id request = 2 ^ 64 - 1 then Inl ''expire_trash after_id cannot advance''
      else if et_limit request = 0 \<or> et_limit request > 500
      then Inl ''expire_trash limit must be in range 1-500''
      else Inr ())"

definition BuildExpireTrashJob :: "ExpireTrashPageRequest \<Rightarrow> string + NewStorageJob" where
  "BuildExpireTrashJob request =
     (case ValidateExpireTrashPageRequest request of
        Inl e \<Rightarrow> Inl e
      | Inr _ \<Rightarrow> Inr
          \<lparr>nj_job_type = kExpireTrashJobType, nj_aggregate_id = et_scan_id request,
           nj_dedupe_key = ''periodic:expire-trash:'' @ et_scan_id request @ '':'' @ decimal (et_after_id request),
           nj_payload = JObject [(''scan_id'', JString (et_scan_id request)),
                                 (''after_id'', JUInt (et_after_id request)),
                                 (''limit'', JUInt (et_limit request))],
           nj_max_attempts = 8\<rparr>)"

definition ParseExpireTrashJob :: "StorageJob \<Rightarrow> string + ExpireTrashPageRequest" where
  "ParseExpireTrashJob job =
     (if sj_job_type job \<noteq> kExpireTrashJobType
      then Inl ''expire_trash job type does not match parser''
      else case ValidateObjectShape (sj_payload job) 3 kExpireTrashJobType of
        Inl e \<Rightarrow> Inl e
      | Inr _ \<Rightarrow>
          let p = sj_payload job in
          if \<not> isString (member p ''scan_id'') \<or> \<not> isUInt64 (member p ''after_id'') \<or>
             \<not> isUInt64 (member p ''limit'') \<or> asUInt64 (member p ''limit'') > 2 ^ 64 - 1
          then Inl ''expire_trash payload field types are invalid''
          else
            let request = \<lparr>et_scan_id = asString (member p ''scan_id''),
                           et_after_id = asUInt64 (member p ''after_id''),
                           et_limit = asUInt64 (member p ''limit'')\<rparr>
            in case BuildExpireTrashJob request of
                 Inl e \<Rightarrow> Inl e
               | Inr expected_job \<Rightarrow>
                   if sj_aggregate_id job \<noteq> nj_aggregate_id expected_job
                   then Inl ''expire_trash aggregate_id does not match scan_id''
                   else if sj_dedupe_key job \<noteq> nj_dedupe_key expected_job
                   then Inl ''expire_trash dedupe_key does not match payload''
                   else Inr request)"

section \<open>Reconciliation pages\<close>

datatype ReconciliationScope = ScopeContents | ScopeUsers | ScopeStaging | ScopeFinal

fun ScopeToStorageValue :: "ReconciliationScope \<Rightarrow> string" where
  "ScopeToStorageValue ScopeContents = ''contents''"
| "ScopeToStorageValue ScopeUsers = ''users''"
| "ScopeToStorageValue ScopeStaging = ''staging''"
| "ScopeToStorageValue ScopeFinal = ''final''"

definition ParseReconciliationScope :: "string \<Rightarrow> ReconciliationScope option" where
  "ParseReconciliationScope value =
     (if value = ''contents'' then Some ScopeContents
      else if value = ''users'' then Some ScopeUsers
      else if value = ''staging'' then Some ScopeStaging
      else if value = ''final'' then Some ScopeFinal
      else None)"

lemma ParseReconciliationScope_inverse [simp]:
  "ParseReconciliationScope (ScopeToStorageValue sc) = Some sc"
  by (cases sc) (simp_all add: ParseReconciliationScope_def)

record ReconciliationPageRequest =
  rp_scan_id :: string
  rp_scope :: ReconciliationScope
  rp_after_id :: nat
  rp_continuation_token :: string
  rp_limit :: nat

definition ValidateReconciliationPageRequest :: "ReconciliationPageRequest \<Rightarrow> unit Result" where
  "ValidateReconciliationPageRequest request =
     (if \<not> IsSafeScanId (rp_scan_id request)
      then Inl (ErrorInfo2 ValidationFailed ''Invalid reconciliation scan ID'')
      else
        let is_database_scope = (rp_scope request = ScopeContents \<or> rp_scope request = ScopeUsers);
            maximum = (if is_database_scope then 500 else 1000)
        in if rp_limit request = 0 \<or> rp_limit request > maximum
           then Inl (ErrorInfo2 ValidationFailed ''Invalid reconciliation page size'')
           else if is_database_scope \<and> rp_continuation_token request \<noteq> []
           then Inl (ErrorInfo2 ValidationFailed ''Database reconciliation cannot use an object cursor'')
           else if \<not> is_database_scope \<and> rp_after_id request \<noteq> 0
           then Inl (ErrorInfo2 ValidationFailed ''Object reconciliation cannot use a database cursor'')
           else if length (rp_continuation_token request) > 4096
           then Inl (ErrorInfo2 ValidationFailed ''Reconciliation continuation token is too long'')
           else Inr ())"

definition BuildReconciliationCursorDigest :: "(string \<Rightarrow> string) \<Rightarrow> ReconciliationPageRequest \<Rightarrow> string" where
  "BuildReconciliationCursorDigest sha256 request =
     sha256 (ScopeToStorageValue (rp_scope request) @ [CHR 0x0A] @ decimal (rp_after_id request) @
             [CHR 0x0A] @ rp_continuation_token request)"

definition BuildStorageReconcileJob ::
  "(string \<Rightarrow> string) \<Rightarrow> ReconciliationPageRequest \<Rightarrow> string + NewStorageJob" where
  "BuildStorageReconcileJob sha256 request =
     (case ValidateReconciliationPageRequest request of
        Inl e \<Rightarrow> Inl (err_message e)
      | Inr _ \<Rightarrow>
          let scope = ScopeToStorageValue (rp_scope request) in Inr
          \<lparr>nj_job_type = kStorageReconcileJobType, nj_aggregate_id = rp_scan_id request,
           nj_dedupe_key = ''periodic:storage-reconcile:'' @ rp_scan_id request @ '':'' @ scope @ '':'' @
                           BuildReconciliationCursorDigest sha256 request,
           nj_payload = JObject [(''scan_id'', JString (rp_scan_id request)),
                                 (''scope'', JString scope),
                                 (''after_id'', JUInt (rp_after_id request)),
                                 (''continuation_token'', JString (rp_continuation_token request)),
                                 (''limit'', JUInt (rp_limit request))],
           nj_max_attempts = 8\<rparr>)"

definition ParseStorageReconcileJob ::
  "(string \<Rightarrow> string) \<Rightarrow> StorageJob \<Rightarrow> string + ReconciliationPageRequest" where
  "ParseStorageReconcileJob sha256 job =
     (if sj_job_type job \<noteq> kStorageReconcileJobType
      then Inl ''storage_reconcile job type does not match parser''
      else case ValidateObjectShape (sj_payload job) 5 kStorageReconcileJobType of
        Inl e \<Rightarrow> Inl e
      | Inr _ \<Rightarrow>
          let p = sj_payload job in
          if \<not> isString (member p ''scan_id'') \<or> \<not> isString (member p ''scope'') \<or>
             \<not> isUInt64 (member p ''after_id'') \<or> \<not> isString (member p ''continuation_token'') \<or>
             \<not> isUInt64 (member p ''limit'') \<or> asUInt64 (member p ''limit'') > 2 ^ 64 - 1
          then Inl ''storage_reconcile payload field types are invalid''
          else case ParseReconciliationScope (asString (member p ''scope'')) of
            None \<Rightarrow> Inl ''storage_reconcile scope is invalid''
          | Some scope \<Rightarrow>
              let request = \<lparr>rp_scan_id = asString (member p ''scan_id''), rp_scope = scope,
                             rp_after_id = asUInt64 (member p ''after_id''),
                             rp_continuation_token = asString (member p ''continuation_token''),
                             rp_limit = asUInt64 (member p ''limit'')\<rparr>
              in case BuildStorageReconcileJob sha256 request of
                   Inl e \<Rightarrow> Inl e
                 | Inr expected_job \<Rightarrow>
                     if sj_aggregate_id job \<noteq> nj_aggregate_id expected_job
                     then Inl ''storage_reconcile aggregate_id does not match scan_id''
                     else if sj_dedupe_key job \<noteq> nj_dedupe_key expected_job
                     then Inl ''storage_reconcile dedupe_key does not match payload''
                     else Inr request)"

section \<open>The contract of a page job\<close>

text \<open>
  \<open>carries job nj\<close>: the claimed job \<open>job\<close> has the identity columns and the payload the builder
  put into \<open>nj\<close>.  The contract says that a parser inverts its builder on every such job, and
  that it accepts a job only if the builder, given the parsed request, produces the same
  identity columns.
\<close>

definition same_identity :: "StorageJob \<Rightarrow> NewStorageJob \<Rightarrow> bool" where
  "same_identity job nj \<longleftrightarrow> sj_job_type job = nj_job_type nj \<and>
     sj_aggregate_id job = nj_aggregate_id nj \<and> sj_dedupe_key job = nj_dedupe_key nj"

definition carries :: "StorageJob \<Rightarrow> NewStorageJob \<Rightarrow> bool" where
  "carries job nj \<longleftrightarrow> same_identity job nj \<and> sj_payload job = nj_payload nj"

definition job_of :: "NewStorageJob \<Rightarrow> StorageJob" where
  "job_of nj = \<lparr>sj_id = 0, sj_job_type = nj_job_type nj, sj_aggregate_id = nj_aggregate_id nj,
     sj_dedupe_key = nj_dedupe_key nj, sj_payload = nj_payload nj, sj_status = Running, sj_attempts = 1,
     sj_max_attempts = nj_max_attempts nj, sj_locked_by = ''w'', sj_lease_takeover = False\<rparr>"

lemma carries_job_of [simp]: "carries (job_of nj) nj"
  by (simp add: carries_def same_identity_def job_of_def)

locale page_job_contract =
  fixes build :: "'req \<Rightarrow> string + NewStorageJob"
    and parse :: "StorageJob \<Rightarrow> string + 'req"
    and wf :: "'req \<Rightarrow> bool"
  assumes parse_build: "wf r \<Longrightarrow> build r = Inr nj \<Longrightarrow> carries job nj \<Longrightarrow> parse job = Inr r"
    and build_parse: "parse job = Inr r \<Longrightarrow> wf r \<and> (\<exists>nj. build r = Inr nj \<and> same_identity job nj)"
begin

lemma build_payload_injective:
  assumes "wf r" "build r = Inr nj" and "wf r'" "build r' = Inr nj'"
    and "carries job nj" "carries job nj'"
  shows "r' = r"
  using parse_build [OF assms(1,2,5)] parse_build [OF assms(3,4,6)] by simp

lemma parsed_request_is_buildable: "parse job = Inr r \<Longrightarrow> \<exists>nj. build r = Inr nj"
  using build_parse by blast

lemma rebuild_same_key: "parse job = Inr r \<Longrightarrow> build r = Inr nj \<Longrightarrow> sj_dedupe_key job = nj_dedupe_key nj"
  using build_parse [of job r] by (auto simp: same_identity_def)

lemma reparse: "parse job = Inr r \<Longrightarrow> build r = Inr nj \<Longrightarrow> carries job' nj \<Longrightarrow> parse job' = Inr r"
  using build_parse [of job r] parse_build by blast

end

lemmas contract_simps = ValidateObjectShape_def Let_def carries_def same_identity_def

definition eu_wf :: "ExpireUploadsPageRequest \<Rightarrow> bool" where
  "eu_wf r \<longleftrightarrow> eu_page r < 2 ^ 64"

definition et_wf :: "ExpireTrashPageRequest \<Rightarrow> bool" where
  "et_wf r \<longleftrightarrow> et_after_id r < 2 ^ 64"

definition rp_wf :: "ReconciliationPageRequest \<Rightarrow> bool" where
  "rp_wf r \<longleftrightarrow> rp_after_id r < 2 ^ 64"

lemma isUInt64_bound: "isUInt64 j \<Longrightarrow> asUInt64 j < 2 ^ 64"
  by (cases j) (auto simp: nat_less_iff)

lemma request_eta [simp]:
  "\<lparr>eu_scan_id = eu_scan_id r, eu_page = eu_page r, eu_limit = eu_limit r\<rparr> = r"
  "\<lparr>et_scan_id = et_scan_id q, et_after_id = et_after_id q, et_limit = et_limit q\<rparr> = q"
  "\<lparr>rp_scan_id = rp_scan_id w, rp_scope = rp_scope w, rp_after_id = rp_after_id w,
    rp_continuation_token = rp_continuation_token w, rp_limit = rp_limit w\<rparr> = w"
  by simp_all

lemma job_type_of_built:
  "BuildExpireUploadsJob r = Inr nj \<Longrightarrow> nj_job_type nj = kExpireUploadsJobType"
  "BuildExpireTrashJob r' = Inr nj \<Longrightarrow> nj_job_type nj = kExpireTrashJobType"
  "BuildStorageReconcileJob sha256 r'' = Inr nj \<Longrightarrow> nj_job_type nj = kStorageReconcileJobType"
  by (auto simp: BuildExpireUploadsJob_def BuildExpireTrashJob_def BuildStorageReconcileJob_def Let_def
      split: sum.splits)

lemma eu_limit_bound: "ValidateExpireUploadsPageRequest r = Inr () \<Longrightarrow> eu_limit r < 2 ^ 64"
  by (simp add: ValidateExpireUploadsPageRequest_def split: if_splits)

lemma et_limit_bound: "ValidateExpireTrashPageRequest r = Inr () \<Longrightarrow> et_limit r < 2 ^ 64"
  by (simp add: ValidateExpireTrashPageRequest_def split: if_splits)

lemma rp_limit_bound: "ValidateReconciliationPageRequest r = Inr () \<Longrightarrow> rp_limit r < 2 ^ 64"
  by (simp add: ValidateReconciliationPageRequest_def Let_def split: if_splits)

lemma build_validE:
  assumes "BuildExpireUploadsJob r = Inr nj"
  obtains "ValidateExpireUploadsPageRequest r = Inr ()"
  using assms by (cases "ValidateExpireUploadsPageRequest r") (simp_all add: BuildExpireUploadsJob_def)

lemma build_trash_validE:
  assumes "BuildExpireTrashJob r = Inr nj"
  obtains "ValidateExpireTrashPageRequest r = Inr ()"
  using assms by (cases "ValidateExpireTrashPageRequest r") (simp_all add: BuildExpireTrashJob_def)

lemma build_reconcile_validE:
  assumes "BuildStorageReconcileJob sha256 r = Inr nj"
  obtains "ValidateReconciliationPageRequest r = Inr ()"
  using assms by (cases "ValidateReconciliationPageRequest r") (simp_all add: BuildStorageReconcileJob_def)

interpretation expire_uploads: page_job_contract BuildExpireUploadsJob ParseExpireUploadsJob eu_wf
proof unfold_locales
  fix r nj job
  assume wf: "eu_wf r" and b: "BuildExpireUploadsJob r = Inr nj" and c: "carries job nj"
  from b obtain v: "ValidateExpireUploadsPageRequest r = Inr ()" by (rule build_validE)
  note lim = eu_limit_bound [OF v]
  have nj: "nj_job_type nj = kExpireUploadsJobType"
    "nj_payload nj = JObject [(''scan_id'', JString (eu_scan_id r)), (''page'', JUInt (eu_page r)),
                              (''limit'', JUInt (eu_limit r))]"
    using b v by (auto simp: BuildExpireUploadsJob_def)
  show "ParseExpireUploadsJob job = Inr r"
    using wf c lim by (simp add: ParseExpireUploadsJob_def contract_simps eu_wf_def nj b)
next
  fix job r
  assume "ParseExpireUploadsJob job = Inr r"
  then show "eu_wf r \<and> (\<exists>nj. BuildExpireUploadsJob r = Inr nj \<and> same_identity job nj)"
    by (auto simp: ParseExpireUploadsJob_def contract_simps eu_wf_def isUInt64_bound [simplified] job_type_of_built
        split: if_splits sum.splits)
qed

interpretation expire_trash: page_job_contract BuildExpireTrashJob ParseExpireTrashJob et_wf
proof unfold_locales
  fix r nj job
  assume wf: "et_wf r" and b: "BuildExpireTrashJob r = Inr nj" and c: "carries job nj"
  from b obtain v: "ValidateExpireTrashPageRequest r = Inr ()" by (rule build_trash_validE)
  note lim = et_limit_bound [OF v]
  have nj: "nj_job_type nj = kExpireTrashJobType"
    "nj_payload nj = JObject [(''scan_id'', JString (et_scan_id r)), (''after_id'', JUInt (et_after_id r)),
                              (''limit'', JUInt (et_limit r))]"
    using b v by (auto simp: BuildExpireTrashJob_def)
  show "ParseExpireTrashJob job = Inr r"
    using wf c lim by (simp add: ParseExpireTrashJob_def contract_simps et_wf_def nj b)
next
  fix job r
  assume "ParseExpireTrashJob job = Inr r"
  then show "et_wf r \<and> (\<exists>nj. BuildExpireTrashJob r = Inr nj \<and> same_identity job nj)"
    by (auto simp: ParseExpireTrashJob_def contract_simps et_wf_def isUInt64_bound [simplified] job_type_of_built
        split: if_splits sum.splits)
qed

interpretation reconcile: page_job_contract "BuildStorageReconcileJob sha256" "ParseStorageReconcileJob sha256" rp_wf
  for sha256
proof unfold_locales
  fix r nj job
  assume wf: "rp_wf r" and b: "BuildStorageReconcileJob sha256 r = Inr nj" and c: "carries job nj"
  from b obtain v: "ValidateReconciliationPageRequest r = Inr ()" by (rule build_reconcile_validE)
  note lim = rp_limit_bound [OF v]
  have nj: "nj_job_type nj = kStorageReconcileJobType"
    "nj_payload nj = JObject [(''scan_id'', JString (rp_scan_id r)),
       (''scope'', JString (ScopeToStorageValue (rp_scope r))), (''after_id'', JUInt (rp_after_id r)),
       (''continuation_token'', JString (rp_continuation_token r)), (''limit'', JUInt (rp_limit r))]"
    using b v by (auto simp: BuildStorageReconcileJob_def Let_def)
  show "ParseStorageReconcileJob sha256 job = Inr r"
    using wf c lim by (simp add: ParseStorageReconcileJob_def contract_simps rp_wf_def nj b)
next
  fix job r
  assume "ParseStorageReconcileJob sha256 job = Inr r"
  then show "rp_wf r \<and> (\<exists>nj. BuildStorageReconcileJob sha256 r = Inr nj \<and> same_identity job nj)"
    by (auto simp: ParseStorageReconcileJob_def contract_simps rp_wf_def isUInt64_bound [simplified] job_type_of_built
        split: if_splits sum.splits option.splits)
qed

section \<open>Page keys\<close>

text \<open>Distinct pages of expiration scans get distinct deduplication keys.\<close>

lemma expire_uploads_key_injective:
  "BuildExpireUploadsJob r = Inr nj \<Longrightarrow> BuildExpireUploadsJob r' = Inr nj' \<Longrightarrow>
   nj_dedupe_key nj = nj_dedupe_key nj' \<Longrightarrow> eu_scan_id r = eu_scan_id r' \<and> eu_page r = eu_page r'"
  by (auto simp: BuildExpireUploadsJob_def append_colon_decimal_inject [simplified] split: sum.splits)

lemma expire_trash_key_injective:
  "BuildExpireTrashJob r = Inr nj \<Longrightarrow> BuildExpireTrashJob r' = Inr nj' \<Longrightarrow>
   nj_dedupe_key nj = nj_dedupe_key nj' \<Longrightarrow> et_scan_id r = et_scan_id r' \<and> et_after_id r = et_after_id r'"
  by (auto simp: BuildExpireTrashJob_def append_colon_decimal_inject [simplified] split: sum.splits)

end
