(* ===== verification/Reconciliation.thy ===== *)
theory Reconciliation
  imports Storage_Job_Contract
begin

text \<open>
  Findings of the consistency checks (src/src/services/StorageReconciliationService.cpp):
  recording and resolving.  A finding is identified by its type and resource; recording it
  again counts an occurrence and reopens it.
\<close>

datatype ReconciliationSeverity = SeverityInfo | SeverityWarning | SeverityCritical
datatype ResolutionStrategy = StrategyAutoGc | StrategyAlert | StrategyManual

fun SeverityValue :: "ReconciliationSeverity \<Rightarrow> int" where
  "SeverityValue SeverityInfo = 0"
| "SeverityValue SeverityWarning = 1"
| "SeverityValue SeverityCritical = 2"

fun StrategyToStorageValue :: "ResolutionStrategy \<Rightarrow> string" where
  "StrategyToStorageValue StrategyAutoGc = ''auto_gc''"
| "StrategyToStorageValue StrategyAlert = ''alert''"
| "StrategyToStorageValue StrategyManual = ''manual''"

record ReconciliationFinding =
  rf_finding_type :: string
  rf_resource_id :: string
  rf_resource_locator :: "string option"
  rf_severity :: ReconciliationSeverity
  rf_resolution_strategy :: ResolutionStrategy
  rf_details :: json

definition finding_of :: "int \<Rightarrow> ReconciliationFinding \<Rightarrow> finding_row" where
  "finding_of t f =
     \<lparr>fd_finding_type = rf_finding_type f, fd_resource_id = rf_resource_id f,
      fd_resource_locator = nullif (case rf_resource_locator f of None \<Rightarrow> '''' | Some l \<Rightarrow> l),
      fd_severity = SeverityValue (rf_severity f),
      fd_resolution_strategy = StrategyToStorageValue (rf_resolution_strategy f),
      fd_details = rf_details f, fd_occurrences = 1, fd_last_seen_at = t, fd_resolved_at = None\<rparr>"

definition same_finding :: "string \<Rightarrow> string \<Rightarrow> finding_row \<Rightarrow> bool" where
  "same_finding ty res r \<longleftrightarrow> fd_finding_type r = ty \<and> fd_resource_id r = res"

definition RecordFinding :: "'w client \<Rightarrow> ReconciliationFinding \<Rightarrow> ('w, unit) M" where
  "RecordFinding E f =
     (if rf_finding_type f = [] \<or> length (rf_finding_type f) > 64 \<or>
         rf_resource_id f = [] \<or> length (rf_resource_id f) > 128 \<or>
         (case rf_resource_locator f of None \<Rightarrow> False | Some l \<Rightarrow> length l > 1024)
      then throwM (InvalidArgument ''Invalid reconciliation finding identity'')
      else exec E (updateS (\<lambda>_. ()) (\<lambda>d.
        let ex = finding_of (now d) f; p = same_finding (rf_finding_type f) (rf_resource_id f) in
        if list_ex p (findings d)
        then d\<lparr>findings := update_where p
               (\<lambda>r. ex\<lparr>fd_occurrences := fd_occurrences r + 1\<rparr>) (findings d)\<rparr>
        else d\<lparr>findings := findings d @ [ex]\<rparr>)))"

definition ResolveFinding :: "'w client \<Rightarrow> string \<Rightarrow> string \<Rightarrow> ('w, unit) M" where
  "ResolveFinding E finding_type resource_id =
     exec E (updateS (\<lambda>_. ()) (\<lambda>d. d\<lparr>findings :=
       update_where (\<lambda>r. same_finding finding_type resource_id r \<and> fd_resolved_at r = None)
         (\<lambda>r. r\<lparr>fd_resolved_at := Some (now d), fd_last_seen_at := now d\<rparr>) (findings d)\<rparr>))"

definition BuildObjectResourceId :: "(string \<Rightarrow> string) \<Rightarrow> string \<Rightarrow> string" where
  "BuildObjectResourceId sha256 locator = sha256 locator"

definition kMissingFinalBlobFindingType :: string where
  "kMissingFinalBlobFindingType = ''missing_final_blob''"

definition kFinalBlobSizeMismatchFindingType :: string where
  "kFinalBlobSizeMismatchFindingType = ''final_blob_size_mismatch''"

definition kFinalBlobReadInterruptedFindingType :: string where
  "kFinalBlobReadInterruptedFindingType = ''final_blob_read_interrupted''"

definition kUploadStagingMismatchFindingType :: string where
  "kUploadStagingMismatchFindingType = ''upload_staging_mismatch''"

text \<open>A final blob as the stores see it (src/src/storage/BlobDescriptor.hpp).\<close>

record BlobDescriptor =
  bd_content_id :: nat
  bd_hash_md5 :: string
  bd_storage_path :: string
  bd_size :: nat

end
