(* ===== verification/Reconciliation_Pages.thy ===== *)
theory Reconciliation_Pages
  imports Content_Service Reconciliation
begin

text \<open>
  The page scans of src/src/services/StorageReconciliationService.cpp: the reference counts and
  blobs of contents, the quota columns of users, and the objects of the staging and the final
  storage.  A page is read in one statement; its rows are then examined one by one, each with
  statements of its own.  Findings about rows that are in order are resolved.  The listing
  operations of the stores are parameters with the interfaces of src/src/storage.
\<close>

section \<open>Interfaces and results\<close>

record StorageInventoryObject =
  so_locator :: string
  so_size_bytes :: nat

record StorageInventoryPage =
  ip_objects :: "StorageInventoryObject list"
  ip_continuation_token :: string
  ip_has_more :: bool

record 'w staging_maintenance =
  CleanupSession :: "UploadStagingSession \<Rightarrow> 'w \<Rightarrow> unit Result \<times> 'w"
  ListStagingObjects :: "string \<Rightarrow> nat \<Rightarrow> 'w \<Rightarrow> StorageInventoryPage Result \<times> 'w"

record 'w blob_maintenance =
  DeleteBlob :: "string \<Rightarrow> 'w \<Rightarrow> unit Result \<times> 'w"
  BlobExists :: "BlobDescriptor \<Rightarrow> 'w \<Rightarrow> bool Result \<times> 'w"
  StoredBlobSize :: "BlobDescriptor \<Rightarrow> 'w \<Rightarrow> nat Result \<times> 'w"
  ListFinalObjects :: "string \<Rightarrow> nat \<Rightarrow> 'w \<Rightarrow> StorageInventoryPage Result \<times> 'w"

text \<open>What the maintenance services are constructed with; a null pointer is \<open>None\<close> or \<open>False\<close>.\<close>

record 'w maintenance =
  mt_db_configured :: bool
  mt_staging :: "'w staging_maintenance option"
  mt_blob :: "'w blob_maintenance option"
  mt_sha256 :: "string \<Rightarrow> string"

record ReconciliationPageResult =
  pr_inspected :: nat
  pr_findings_recorded :: nat
  pr_repairs_enqueued :: nat
  pr_next_after_id :: nat
  pr_next_continuation_token :: string
  pr_has_more :: bool

definition fresh_page :: "nat \<Rightarrow> ReconciliationPageResult" where
  "fresh_page inspected =
     \<lparr>pr_inspected = inspected, pr_findings_recorded = 0, pr_repairs_enqueued = 0, pr_next_after_id = 0,
      pr_next_continuation_token = '''', pr_has_more = False\<rparr>"

definition kContentRefCountMismatch :: string where
  "kContentRefCountMismatch = ''content_ref_count_mismatch''"

definition kZeroReferenceContent :: string where
  "kZeroReferenceContent = ''zero_reference_content''"

definition kQuotaUsedMismatch :: string where
  "kQuotaUsedMismatch = ''quota_used_mismatch''"

definition kQuotaReservedMismatch :: string where
  "kQuotaReservedMismatch = ''quota_reserved_mismatch''"

definition kOrphanStagingObject :: string where
  "kOrphanStagingObject = ''orphan_staging_object''"

definition kOrphanFinalBlob :: string where
  "kOrphanFinalBlob = ''orphan_final_blob''"

definition MakeDetails :: "string \<Rightarrow> (string \<times> json) list \<Rightarrow> json" where
  "MakeDetails scan_id fs = JObject ((''scan_id'', JString scan_id) # fs)"

text \<open>
  A column read as \<^verbatim>\<open>uint64_t\<close>: the text goes through \<^verbatim>\<open>std::stoull\<close>, which negates a number with
  a sign modulo \<open>2\<^sup>6\<^sup>4\<close> and raises when the digits are out of range.
\<close>

definition as_uint64 :: "int \<Rightarrow> exn + nat" where
  "as_uint64 x = (if \<bar>x\<bar> < 2 ^ 64 then Inr (nat (x mod 2 ^ 64)) else Inl (RuntimeError ''stoull''))"

definition AddWithoutOverflow :: "nat \<Rightarrow> nat \<Rightarrow> exn + nat" where
  "AddWithoutOverflow left right =
     (if int right > 2 ^ 64 - 1 - int left then Inl (RuntimeError ''Reconciliation byte total overflow'')
      else Inr (left + right))"

text \<open>Recording a finding counts it on the page.\<close>

definition note_finding ::
  "'w client \<Rightarrow> ReconciliationFinding \<Rightarrow> ReconciliationPageResult \<Rightarrow> ('w, ReconciliationPageResult) M" where
  "note_finding E finding page =
     bindM (RecordFinding E finding) (\<lambda>_.
       retM (page\<lparr>pr_findings_recorded := pr_findings_recorded page + 1\<rparr>))"

section \<open>Contents\<close>

definition ShouldEnqueueBlobGc :: "int \<Rightarrow> nat \<Rightarrow> bool" where
  "ShouldEnqueueBlobGc stored_ref_count actual_ref_count \<longleftrightarrow> stored_ref_count = 0 \<and> actual_ref_count = 0"

text \<open>The references the audit counts: files, and trash rows of single files.\<close>

definition actual_ref_count :: "'w db \<Rightarrow> nat \<Rightarrow> nat" where
  "actual_ref_count d content_id =
     length (filter (\<lambda>f. f_content_id f = content_id) (files d)) +
     length (filter (\<lambda>r. tr_content_id r = Some content_id \<and> tr_item_type r = ''file'') (trash d))"

definition content_page :: "nat \<Rightarrow> nat \<Rightarrow> 'w db \<Rightarrow> (content_row \<times> nat) list" where
  "content_page after_id limit d =
     map (\<lambda>c. (c, actual_ref_count d (fc_id c)))
       (take limit (sort_key fc_id (filter (\<lambda>c. int (fc_id c) > to_int64 (int after_id)) (file_contents d))))"

definition content_finding ::
  "string \<Rightarrow> content_row \<Rightarrow> string \<Rightarrow> ReconciliationSeverity \<Rightarrow> ResolutionStrategy \<Rightarrow> json \<Rightarrow> ReconciliationFinding" where
  "content_finding finding_type c locator severity strategy details =
     \<lparr>rf_finding_type = finding_type, rf_resource_id = decimal (fc_id c), rf_resource_locator = Some locator,
      rf_severity = severity, rf_resolution_strategy = strategy, rf_details = details\<rparr>"

definition missing_blob :: "'w client \<Rightarrow> string \<Rightarrow> content_row \<Rightarrow> ReconciliationPageResult \<Rightarrow> ('w, ReconciliationPageResult Result) M" where
  "missing_blob E scan_id c page =
     bindM (note_finding E (content_finding kMissingFinalBlobFindingType c (fc_storage_path c) SeverityCritical
              StrategyManual (MakeDetails scan_id [(''expected_size'', JUInt (fc_size c))])) page) (\<lambda>page.
     bindM (ResolveFinding E kFinalBlobSizeMismatchFindingType (decimal (fc_id c))) (\<lambda>_. okR page))"

definition audit_blob ::
  "'w client \<Rightarrow> 'w blob_maintenance \<Rightarrow> string \<Rightarrow> content_row \<Rightarrow> ReconciliationPageResult \<Rightarrow> ('w, ReconciliationPageResult Result) M" where
  "audit_blob E B scan_id c page =
     (let blob = \<lparr>bd_content_id = fc_id c, bd_hash_md5 = fc_hash_md5 c, bd_storage_path = fc_storage_path c, bd_size = fc_size c\<rparr>;
          resource_id = decimal (fc_id c)
      in bindR (callStore E (BlobExists B blob)) (\<lambda>found.
           if \<not> found then missing_blob E scan_id c page
           else bindM (ResolveFinding E kMissingFinalBlobFindingType resource_id) (\<lambda>_.
             bindM (callStore E (StoredBlobSize B blob)) (\<lambda>observed_size.
               case observed_size of
                 Inl err \<Rightarrow> if err_code err = FileNotFound then missing_blob E scan_id c page else failR err
               | Inr n \<Rightarrow>
                   if n \<noteq> fc_size c
                   then bindM (note_finding E (content_finding kFinalBlobSizeMismatchFindingType c (fc_storage_path c)
                          SeverityCritical StrategyManual (MakeDetails scan_id
                            [(''expected_size'', JUInt (fc_size c)), (''observed_size'', JUInt n)])) page) okR
                   else bindM (ResolveFinding E kFinalBlobSizeMismatchFindingType resource_id) (\<lambda>_.
                        bindM (ResolveFinding E kFinalBlobReadInterruptedFindingType resource_id) (\<lambda>_. okR page))))))"

definition audit_references ::
  "'w client \<Rightarrow> string \<Rightarrow> content_row \<Rightarrow> nat \<Rightarrow> ReconciliationPageResult \<Rightarrow> ('w, ReconciliationPageResult) M" where
  "audit_references E scan_id c actual page =
     (if fc_ref_count c \<noteq> int actual
      then note_finding E (content_finding kContentRefCountMismatch c (''file_contents/'' @ decimal (fc_id c))
             SeverityCritical StrategyAlert (MakeDetails scan_id
               [(''stored_ref_count'', JInt (fc_ref_count c)), (''actual_ref_count'', JUInt actual)])) page
      else bindM (ResolveFinding E kContentRefCountMismatch (decimal (fc_id c))) (\<lambda>_. retM page))"

definition audit_content ::
  "'w client \<Rightarrow> 'w maintenance \<Rightarrow> string \<Rightarrow> content_row \<Rightarrow> nat \<Rightarrow> ReconciliationPageResult \<Rightarrow> ('w, ReconciliationPageResult Result) M" where
  "audit_content E R scan_id c actual page =
     bindM (audit_references E scan_id c actual page) (\<lambda>page.
       if ShouldEnqueueBlobGc (fc_ref_count c) actual
       then bindM (note_finding E (content_finding kZeroReferenceContent c (''file_contents/'' @ decimal (fc_id c))
                SeverityWarning StrategyAutoGc (MakeDetails scan_id [(''storage_path'', JString (fc_storage_path c))])) page) (\<lambda>page.
            bindM (EnqueueOrRearmSucceeded E (BlobGcJob (fc_id c) (fc_storage_path c))) (\<lambda>enqueued.
              okR (if enqueued then page\<lparr>pr_repairs_enqueued := pr_repairs_enqueued page + 1\<rparr> else page)))
       else bindM (ResolveFinding E kZeroReferenceContent (decimal (fc_id c))) (\<lambda>_.
         if actual = 0 then okR page
         else (case mt_blob R of
                 None \<Rightarrow> failR (ErrorInfo2 InternalError ''Reconciliation Blob store is not configured'')
               | Some B \<Rightarrow> audit_blob E B scan_id c page)))"

fun audit_contents ::
  "'w client \<Rightarrow> 'w maintenance \<Rightarrow> string \<Rightarrow> (content_row \<times> nat) list \<Rightarrow> ReconciliationPageResult \<Rightarrow> ('w, ReconciliationPageResult Result) M" where
  "audit_contents E R scan_id [] page = okR page"
| "audit_contents E R scan_id ((c, actual) # rows) page =
     bindR (audit_content E R scan_id c actual (page\<lparr>pr_next_after_id := fc_id c\<rparr>)) (audit_contents E R scan_id rows)"

definition RunContentPage ::
  "'w client \<Rightarrow> 'w maintenance \<Rightarrow> ReconciliationPageRequest \<Rightarrow> ('w, ReconciliationPageResult Result) M" where
  "RunContentPage E R request =
     bindM (exec E (pureS (content_page (rp_after_id request) (rp_limit request)))) (\<lambda>rows.
     bindR (audit_contents E R (rp_scan_id request) rows (fresh_page (length rows))) (\<lambda>page.
       okR (page\<lparr>pr_has_more := (length rows = rp_limit request)\<rparr>)))"

section \<open>Users\<close>

record user_audit =
  ua_user :: user_row
  ua_active_file_bytes :: nat
  ua_trash_item_bytes :: nat
  ua_active_upload_reserved_bytes :: nat

definition audited_user :: "'w db \<Rightarrow> user_row \<Rightarrow> user_audit" where
  "audited_user d u =
     \<lparr>ua_user = u,
      ua_active_file_bytes = sum_list (map f_size (filter (\<lambda>f. f_user_id f = u_id u) (files d))),
      ua_trash_item_bytes = sum_list (map tr_item_size (filter (\<lambda>r. tr_user_id r = u_id u) (trash d))),
      ua_active_upload_reserved_bytes = sum_list (map t_reserved_bytes
        (filter (\<lambda>t. t_user_id t = u_id u \<and> (t_status t = 0 \<or> t_status t = 4)) (upload_tasks d)))\<rparr>"

definition user_page :: "nat \<Rightarrow> nat \<Rightarrow> 'w db \<Rightarrow> user_audit list" where
  "user_page after_id limit d =
     map (audited_user d)
       (take limit (sort_key u_id (filter (\<lambda>u. int (u_id u) > to_int64 (int after_id)) (users d))))"

definition quota_finding :: "string \<Rightarrow> nat \<Rightarrow> json \<Rightarrow> ReconciliationFinding" where
  "quota_finding finding_type user_id details =
     \<lparr>rf_finding_type = finding_type, rf_resource_id = decimal user_id,
      rf_resource_locator = Some (''users/'' @ decimal user_id), rf_severity = SeverityWarning,
      rf_resolution_strategy = StrategyAlert, rf_details = details\<rparr>"

definition audit_user ::
  "'w client \<Rightarrow> string \<Rightarrow> user_audit \<Rightarrow> ReconciliationPageResult \<Rightarrow> ('w, ReconciliationPageResult) M" where
  "audit_user E scan_id row page =
     (let user_id = u_id (ua_user row) in
      bindM (lift_exn (as_uint64 (u_storage_used (ua_user row)))) (\<lambda>storage_used.
      bindM (lift_exn (as_uint64 (u_storage_reserved (ua_user row)))) (\<lambda>storage_reserved.
      bindM (lift_exn (as_uint64 (int (ua_active_file_bytes row)))) (\<lambda>active_file_bytes.
      bindM (lift_exn (as_uint64 (int (ua_trash_item_bytes row)))) (\<lambda>trash_item_bytes.
      bindM (lift_exn (as_uint64 (int (ua_active_upload_reserved_bytes row)))) (\<lambda>active_upload_reserved.
      bindM (lift_exn (AddWithoutOverflow active_file_bytes trash_item_bytes)) (\<lambda>expected_used.
      bindM (if storage_used \<noteq> expected_used
             then note_finding E (quota_finding kQuotaUsedMismatch user_id (MakeDetails scan_id
                    [(''storage_used'', JUInt storage_used), (''expected_used'', JUInt expected_used),
                     (''active_file_bytes'', JUInt active_file_bytes), (''trash_item_bytes'', JUInt trash_item_bytes)]))
                    (page\<lparr>pr_next_after_id := user_id\<rparr>)
             else bindM (ResolveFinding E kQuotaUsedMismatch (decimal user_id)) (\<lambda>_.
                    retM (page\<lparr>pr_next_after_id := user_id\<rparr>))) (\<lambda>page.
        if storage_reserved \<noteq> active_upload_reserved
        then note_finding E (quota_finding kQuotaReservedMismatch user_id (MakeDetails scan_id
               [(''storage_reserved'', JUInt storage_reserved),
                (''active_upload_reserved_bytes'', JUInt active_upload_reserved)])) page
        else bindM (ResolveFinding E kQuotaReservedMismatch (decimal user_id)) (\<lambda>_. retM page)))))))))"

fun audit_users :: "'w client \<Rightarrow> string \<Rightarrow> user_audit list \<Rightarrow> ReconciliationPageResult \<Rightarrow> ('w, ReconciliationPageResult) M" where
  "audit_users E scan_id [] page = retM page"
| "audit_users E scan_id (row # rows) page = bindM (audit_user E scan_id row page) (audit_users E scan_id rows)"

definition RunUserPage :: "'w client \<Rightarrow> ReconciliationPageRequest \<Rightarrow> ('w, ReconciliationPageResult Result) M" where
  "RunUserPage E request =
     bindM (exec E (pureS (user_page (rp_after_id request) (rp_limit request)))) (\<lambda>rows.
     bindM (audit_users E (rp_scan_id request) rows (fresh_page (length rows))) (\<lambda>page.
       okR (page\<lparr>pr_has_more := (length rows = rp_limit request)\<rparr>)))"

section \<open>Objects\<close>

text \<open>
  \<^verbatim>\<open>LIKE\<close> with the default escape character; a pattern that ends with it, on which the database
  raises, does not occur.
\<close>

fun sql_like :: "string \<Rightarrow> string \<Rightarrow> bool" where
  "sql_like [] s = (s = [])"
| "sql_like (p # ps) s =
     (if p = CHR ''%'' then sql_like ps s \<or> (case s of [] \<Rightarrow> False | _ # s' \<Rightarrow> sql_like (p # ps) s')
      else if p = CHR ''_'' then (case s of [] \<Rightarrow> False | _ # s' \<Rightarrow> sql_like ps s')
      else if p = CHR 0x5C
      then (case ps of [] \<Rightarrow> False | q # qs \<Rightarrow> (case s of [] \<Rightarrow> False | c # s' \<Rightarrow> c = q \<and> sql_like qs s'))
      else (case s of [] \<Rightarrow> False | c # s' \<Rightarrow> c = p \<and> sql_like ps s'))"

definition int_text :: "int \<Rightarrow> string" where
  "int_text i = (if i < 0 then CHR ''-'' # decimal (nat (- i)) else decimal (nat i))"

definition chunk_refers :: "string \<Rightarrow> task_row \<Rightarrow> chunk_row \<Rightarrow> bool" where
  "chunk_refers locator task chunk \<longleftrightarrow>
     t_id task = c_task_id chunk \<and> (t_status task = 0 \<or> t_status task = 4) \<and>
     (c_object_key chunk = Some locator \<or>
      t_staging_backend task = ''local'' \<and> c_object_key chunk = None \<and>
      locator = t_id task @ ''/'' @ int_text (c_chunk_index chunk) @ ''.chunk'')"

definition assembly_refers :: "string \<Rightarrow> task_row \<Rightarrow> bool" where
  "assembly_refers locator task \<longleftrightarrow> t_status task = 4 \<and>
     (t_staging_backend task = ''s3'' \<and>
        (case t_staging_prefix task of None \<Rightarrow> False | Some p \<Rightarrow> sql_like (p @ ''/assembled/%'') locator) \<or>
      t_staging_backend task = ''local'' \<and> locator = t_id task @ ''.tmp'')"

definition staging_referenced :: "'w db \<Rightarrow> string \<Rightarrow> bool" where
  "staging_referenced d locator \<longleftrightarrow>
     list_ex (\<lambda>chunk. list_ex (\<lambda>task. chunk_refers locator task chunk) (upload_tasks d)) (upload_task_chunks d) \<or>
     list_ex (assembly_refers locator) (upload_tasks d)"

definition final_referenced :: "'w db \<Rightarrow> string \<Rightarrow> bool" where
  "final_referenced d locator \<longleftrightarrow> list_ex (\<lambda>c. fc_storage_path c = locator) (file_contents d)"

text \<open>Findings of the type that no page of this scan has seen are resolved at its end.\<close>

definition scan_start :: "NewStorageJob \<Rightarrow> ReconciliationPageRequest \<Rightarrow> job_row \<Rightarrow> bool" where
  "scan_start first_job request j \<longleftrightarrow>
     j_dedupe_key j = nj_dedupe_key first_job \<and> j_job_type j = kStorageReconcileJobType \<and>
     j_aggregate_id j = rp_scan_id request \<and>
     asString (member (j_payload j) ''scope'') = ScopeToStorageValue (rp_scope request)"

definition resolve_stale :: "string \<Rightarrow> NewStorageJob \<Rightarrow> ReconciliationPageRequest \<Rightarrow> 'w db \<Rightarrow> 'w db" where
  "resolve_stale finding_type first_job request d =
     (case find_row (scan_start first_job request) (storage_jobs d) of
        None \<Rightarrow> d
      | Some j \<Rightarrow> d\<lparr>findings := update_where
          (\<lambda>r. fd_finding_type r = finding_type \<and> fd_resolved_at r = None \<and> fd_last_seen_at r < j_created_at j)
          (\<lambda>r. r\<lparr>fd_resolved_at := Some (now d), fd_last_seen_at := now d\<rparr>) (findings d)\<rparr>)"

definition ResolveStaleObjectFindings ::
  "'w client \<Rightarrow> 'w maintenance \<Rightarrow> string \<Rightarrow> ReconciliationPageRequest \<Rightarrow> ('w, unit) M" where
  "ResolveStaleObjectFindings E R finding_type request =
     (case BuildStorageReconcileJob (mt_sha256 R) (request\<lparr>rp_after_id := 0, rp_continuation_token := ''''\<rparr>) of
        Inl _ \<Rightarrow> throwM (RuntimeError ''Failed to rebuild first reconciliation job'')
      | Inr first_job \<Rightarrow> exec E (updateS (\<lambda>_. ()) (resolve_stale finding_type first_job request)))"

definition list_objects ::
  "'w client \<Rightarrow> 'w maintenance \<Rightarrow> ReconciliationPageRequest \<Rightarrow> ('w, StorageInventoryPage Result) M" where
  "list_objects E R request =
     (let unconfigured = failR (ErrorInfo2 InternalError ''Reconciliation inventory is not configured'') in
      if rp_scope request = ScopeStaging
      then (case mt_staging R of
              None \<Rightarrow> unconfigured
            | Some S \<Rightarrow> callStore E (ListStagingObjects S (rp_continuation_token request) (rp_limit request)))
      else (case mt_blob R of
              None \<Rightarrow> unconfigured
            | Some B \<Rightarrow> callStore E (ListFinalObjects B (rp_continuation_token request) (rp_limit request))))"

definition referenced_rows :: "ReconciliationScope \<Rightarrow> string list \<Rightarrow> 'w db \<Rightarrow> (string \<times> bool) list" where
  "referenced_rows scope locators d =
     map (\<lambda>l. (l, if scope = ScopeStaging then staging_referenced d l else final_referenced d l)) locators"

definition object_finding :: "ReconciliationPageRequest \<Rightarrow> string \<Rightarrow> string \<Rightarrow> StorageInventoryObject \<Rightarrow> ReconciliationFinding" where
  "object_finding request finding_type resource_id obj =
     \<lparr>rf_finding_type = finding_type, rf_resource_id = resource_id, rf_resource_locator = Some (so_locator obj),
      rf_severity = (if rp_scope request = ScopeStaging then SeverityWarning else SeverityCritical),
      rf_resolution_strategy = (if rp_scope request = ScopeStaging then StrategyAlert else StrategyManual),
      rf_details = MakeDetails (rp_scan_id request) [(''size_bytes'', JUInt (so_size_bytes obj))]\<rparr>"

fun audit_objects ::
  "'w client \<Rightarrow> 'w maintenance \<Rightarrow> ReconciliationPageRequest \<Rightarrow> string \<Rightarrow> (string \<times> bool) list \<Rightarrow>
   StorageInventoryObject list \<Rightarrow> ReconciliationPageResult \<Rightarrow> ('w, ReconciliationPageResult) M" where
  "audit_objects E R request finding_type referenced [] page = retM page"
| "audit_objects E R request finding_type referenced (obj # objs) page =
     (let resource_id = BuildObjectResourceId (mt_sha256 R) (so_locator obj) in
      bindM (if map_of referenced (so_locator obj) = Some True
             then bindM (ResolveFinding E finding_type resource_id) (\<lambda>_. retM page)
             else note_finding E (object_finding request finding_type resource_id obj) page)
        (audit_objects E R request finding_type referenced objs))"

definition RunObjectPage ::
  "'w client \<Rightarrow> 'w maintenance \<Rightarrow> ReconciliationPageRequest \<Rightarrow> ('w, ReconciliationPageResult Result) M" where
  "RunObjectPage E R request =
     bindR (list_objects E R request) (\<lambda>inventory.
       let objs = ip_objects inventory;
           finding_type = (if rp_scope request = ScopeStaging then kOrphanStagingObject else kOrphanFinalBlob);
           page = (fresh_page (length objs))\<lparr>pr_has_more := ip_has_more inventory,
                     pr_next_continuation_token := ip_continuation_token inventory\<rparr>
       in bindM (if objs = [] then retM []
                 else exec E (pureS (referenced_rows (rp_scope request) (map so_locator objs)))) (\<lambda>referenced.
          bindM (audit_objects E R request finding_type referenced objs page) (\<lambda>page.
          bindM (if \<not> pr_has_more page then ResolveStaleObjectFindings E R finding_type request else retM ()) (\<lambda>_.
            okR page))))"

section \<open>Pages\<close>

definition RunPage :: "'w client \<Rightarrow> 'w maintenance \<Rightarrow> ReconciliationPageRequest \<Rightarrow> ('w, ReconciliationPageResult Result) M" where
  "RunPage E R request =
     (case ValidateReconciliationPageRequest request of
        Inl err \<Rightarrow> failR err
      | Inr _ \<Rightarrow>
          if \<not> mt_db_configured R
          then failR (ErrorInfo2 InternalError ''Reconciliation database is not configured'')
          else catchM
            (case rp_scope request of
               ScopeContents \<Rightarrow> RunContentPage E R request
             | ScopeUsers \<Rightarrow> RunUserPage E request
             | ScopeStaging \<Rightarrow> RunObjectPage E R request
             | ScopeFinal \<Rightarrow> RunObjectPage E R request)
            (\<lambda>e. if e = DbException
                  then failR (ErrorInfo2 InternalError ''Storage reconciliation database failure'')
                  else failR (ErrorInfo2 InternalError ''Storage reconciliation failed'')))"

end
