(* ===== verification/Quota_Service.thy ===== *)
theory Quota_Service
  imports Session_Logic
begin

text \<open>
  Storage quota accounting (src/src/services/QuotaService.cpp): reserving bytes for an upload,
  releasing them, moving them to the used column, consuming used bytes directly and adjusting
  them.  Each operation is one guarded \<^verbatim>\<open>UPDATE users\<close>; a violated guard updates no row and is
  reported as an error.  Byte counts are bound as \<^verbatim>\<open>BIGINT\<close>; an arithmetic result outside its
  range makes PostgreSQL raise an error, which the model writes out.
\<close>

section \<open>Operations\<close>

text \<open>
  \<open>update_user E u exprs guard upd\<close> is \<^verbatim>\<open>UPDATE users SET upd WHERE id = u AND guard\<close>; \<open>exprs\<close>
  lists the arithmetic expressions the statement evaluates on the row.
\<close>

definition update_user ::
  "nat \<Rightarrow> (user_row \<Rightarrow> int list) \<Rightarrow> (user_row \<Rightarrow> bool) \<Rightarrow> (user_row \<Rightarrow> user_row) \<Rightarrow> ('w, nat) stmt" where
  "update_user u exprs guard upd d =
     (if list_ex (\<lambda>r. u_id r = u \<and> list_ex (\<lambda>x. \<not> bigint x) (exprs r)) (users d) then (Inl DbException, d)
      else (Inr (affected (\<lambda>r. u_id r = u \<and> guard r) (users d)),
            d\<lparr>users := update_where (\<lambda>r. u_id r = u \<and> guard r) upd (users d)\<rparr>))"

definition ReserveStorage :: "'w client \<Rightarrow> nat \<Rightarrow> nat \<Rightarrow> ('w, unit Result) M" where
  "ReserveStorage E user_id bytes =
     (if bytes = 0 then okR ()
      else catchDb
        (bindM
          (exec E (update_user user_id
             (\<lambda>r. [u_storage_used r + u_storage_reserved r,
                   u_storage_used r + u_storage_reserved r + int bytes])
             (\<lambda>r. u_storage_used r + u_storage_reserved r + int bytes \<le> u_storage_quota r)
             (\<lambda>r. r\<lparr>u_storage_reserved := u_storage_reserved r + int bytes\<rparr>)))
          (\<lambda>n. if n = 0 then failR (ErrorInfo1 StorageQuotaExceeded) else okR ()))
        (failR (ErrorInfo2 InternalError ''Failed to reserve storage quota'')))"

definition ReleaseReservedStorageChecked :: "'w client \<Rightarrow> nat \<Rightarrow> nat \<Rightarrow> ('w, unit Result) M" where
  "ReleaseReservedStorageChecked E user_id bytes =
     (if bytes = 0 then okR ()
      else catchDb
        (bindM
          (exec E (update_user user_id
             (\<lambda>r. [])
             (\<lambda>r. u_storage_reserved r \<ge> int bytes)
             (\<lambda>r. r\<lparr>u_storage_reserved := u_storage_reserved r - int bytes\<rparr>)))
          (\<lambda>n. if n = 0 then failR (ErrorInfo2 InternalError ''Failed to release reserved quota'')
               else okR ()))
        (failR (ErrorInfo2 InternalError ''Failed to release reserved quota'')))"

definition CommitReservedToUsed :: "'w client \<Rightarrow> nat \<Rightarrow> nat \<Rightarrow> ('w, unit Result) M" where
  "CommitReservedToUsed E user_id bytes =
     (if bytes = 0 then okR ()
      else catchDb
        (bindM
          (exec E (update_user user_id
             (\<lambda>r. if u_storage_reserved r \<ge> int bytes then [u_storage_used r + int bytes] else [])
             (\<lambda>r. u_storage_reserved r \<ge> int bytes)
             (\<lambda>r. r\<lparr>u_storage_reserved := u_storage_reserved r - int bytes,
                    u_storage_used := u_storage_used r + int bytes\<rparr>)))
          (\<lambda>n. if n = 0 then failR (ErrorInfo2 InternalError ''Failed to transfer reserved quota to used'')
               else okR ()))
        (failR (ErrorInfo2 InternalError ''Failed to transfer reserved quota to used'')))"

definition ConsumeUsedStorage :: "'w client \<Rightarrow> nat \<Rightarrow> nat \<Rightarrow> ('w, unit Result) M" where
  "ConsumeUsedStorage E user_id bytes =
     (if bytes = 0 then okR ()
      else catchDb
        (bindM
          (exec E (update_user user_id
             (\<lambda>r. [u_storage_used r + int bytes])
             (\<lambda>r. u_storage_used r + int bytes \<le> u_storage_quota r)
             (\<lambda>r. r\<lparr>u_storage_used := u_storage_used r + int bytes\<rparr>)))
          (\<lambda>n. if n = 0 then failR (ErrorInfo1 StorageQuotaExceeded) else okR ()))
        (failR (ErrorInfo2 InternalError ''Failed to reserve storage quota'')))"

definition AdjustUsedStorageChecked :: "'w client \<Rightarrow> nat \<Rightarrow> int \<Rightarrow> ('w, unit Result) M" where
  "AdjustUsedStorageChecked E user_id delta =
     (if delta = 0 then okR ()
      else catchDb
        (if delta > 0
         then bindM
           (exec E (update_user user_id
              (\<lambda>r. [u_storage_used r + delta])
              (\<lambda>r. u_storage_used r + delta \<le> u_storage_quota r)
              (\<lambda>r. r\<lparr>u_storage_used := u_storage_used r + delta\<rparr>)))
           (\<lambda>n. if n = 0 then failR (ErrorInfo1 StorageQuotaExceeded) else okR ())
         else bindM
           (exec E (update_user user_id
              (\<lambda>r. [u_storage_used r + delta])
              (\<lambda>r. True)
              (\<lambda>r. r\<lparr>u_storage_used := max (u_storage_used r + delta) 0\<rparr>)))
           (\<lambda>n. if n = 0 then failR (ErrorInfo2 InternalError ''Failed to update storage usage'')
                else okR ()))
        (failR (ErrorInfo2 InternalError ''Failed to update storage usage'')))"

section \<open>What a successful operation did\<close>

text \<open>
  On success with a non-zero amount the addressed user exists, the guard held on the row and
  the row was updated; with amount zero nothing happened.
\<close>

definition user_updated ::
  "nat \<Rightarrow> (user_row \<Rightarrow> bool) \<Rightarrow> (user_row \<Rightarrow> user_row) \<Rightarrow> 'w db \<Rightarrow> 'w db \<Rightarrow> bool" where
  "user_updated u guard upd d d' \<longleftrightarrow>
     (\<exists>r \<in> set (users d). u_id r = u \<and> guard r) \<and>
     d' = d\<lparr>users := update_where (\<lambda>r. u_id r = u \<and> guard r) upd (users d)\<rparr>"

lemma update_user_ok:
  assumes "bindM (exec E (update_user u exprs guard upd)) (\<lambda>n. if n = 0 then failR err else okR ()) s = (Inr (Inr x), s')"
  shows "user_updated u guard upd (seen E s) (sdb s')"
proof -
  from assms obtain n s1 where ex: "exec E (update_user u exprs guard upd) s = (Inr n, s1)"
    and k: "(if n = 0 then failR err else okR ()) s1 = (Inr (Inr x), s')"
    by (rule bindM_okE)
  from k have "n \<noteq> 0" and "s' = s1"
    by (auto split: if_splits)
  moreover from ex obtain d' where "update_user u exprs guard upd (seen E s) = (Inr n, d')" "sdb s1 = d'"
    by (rule exec_okE)
  ultimately show ?thesis
    by (auto simp: update_user_def user_updated_def affected_pos_iff split: if_splits)
qed

lemma ReserveStorage_ok:
  assumes "ReserveStorage E u bytes s = (Inr (Inr x), s')"
  shows "bytes = 0 \<and> s' = s \<or> 0 < bytes \<and>
    user_updated u (\<lambda>r. u_storage_used r + u_storage_reserved r + int bytes \<le> u_storage_quota r)
      (\<lambda>r. r\<lparr>u_storage_reserved := u_storage_reserved r + int bytes\<rparr>) (seen E s) (sdb s')"
  using assms by (auto simp: ReserveStorage_def split: if_splits dest!: catchDb_okD update_user_ok)

lemma ReleaseReservedStorageChecked_ok:
  assumes "ReleaseReservedStorageChecked E u bytes s = (Inr (Inr x), s')"
  shows "bytes = 0 \<and> s' = s \<or> 0 < bytes \<and>
    user_updated u (\<lambda>r. u_storage_reserved r \<ge> int bytes)
      (\<lambda>r. r\<lparr>u_storage_reserved := u_storage_reserved r - int bytes\<rparr>) (seen E s) (sdb s')"
  using assms by (auto simp: ReleaseReservedStorageChecked_def split: if_splits dest!: catchDb_okD update_user_ok)

lemma CommitReservedToUsed_ok:
  assumes "CommitReservedToUsed E u bytes s = (Inr (Inr x), s')"
  shows "bytes = 0 \<and> s' = s \<or> 0 < bytes \<and>
    user_updated u (\<lambda>r. u_storage_reserved r \<ge> int bytes)
      (\<lambda>r. r\<lparr>u_storage_reserved := u_storage_reserved r - int bytes,
             u_storage_used := u_storage_used r + int bytes\<rparr>) (seen E s) (sdb s')"
  using assms by (auto simp: CommitReservedToUsed_def split: if_splits dest!: catchDb_okD update_user_ok)

lemma ConsumeUsedStorage_ok:
  assumes "ConsumeUsedStorage E u bytes s = (Inr (Inr x), s')"
  shows "bytes = 0 \<and> s' = s \<or> 0 < bytes \<and>
    user_updated u (\<lambda>r. u_storage_used r + int bytes \<le> u_storage_quota r)
      (\<lambda>r. r\<lparr>u_storage_used := u_storage_used r + int bytes\<rparr>) (seen E s) (sdb s')"
  using assms by (auto simp: ConsumeUsedStorage_def split: if_splits dest!: catchDb_okD update_user_ok)

interpretation user_upd: keyed_update u_id "\<lambda>r. u_id r = u \<and> guard r"
  "\<lambda>r. r\<lparr>u_storage_reserved := f r, u_storage_used := g r\<rparr>" for u guard f g
  by unfold_locales simp

end
