(* ===== verification/Folder_Repository.thy ===== *)
theory Folder_Repository
  imports Session_Logic
begin

text \<open>
  The parts of folder persistence and naming that uploads use: locating an owned folder and
  maintaining its item count (src/src/services/FolderRepository.cpp), and the path and
  extension helpers of src/src/services/FileServiceUtils.cpp.
\<close>

record FolderLocation =
  loc_path :: string
  loc_depth :: nat

definition owned_folder :: "nat \<Rightarrow> nat \<Rightarrow> folder_row \<Rightarrow> bool" where
  "owned_folder folder_id user_id r \<longleftrightarrow> d_id r = folder_id \<and> d_user_id r = user_id"

definition FindOwnedFolder :: "'w client \<Rightarrow> nat \<Rightarrow> nat \<Rightarrow> ('w, folder_row option) M" where
  "FindOwnedFolder E folder_id user_id =
     exec E (pureS (\<lambda>d. find_row (owned_folder folder_id user_id) (folders d)))"

definition ResolveOwnedFolderLocation :: "'w client \<Rightarrow> nat \<Rightarrow> nat \<Rightarrow> ('w, FolderLocation Result) M" where
  "ResolveOwnedFolderLocation E folder_id user_id =
     (if folder_id = 0 then okR \<lparr>loc_path = ''/'', loc_depth = 0\<rparr>
      else catchDb
        (bindM (exec E (pureS (\<lambda>d. find_row (owned_folder folder_id user_id) (folders d)))) (\<lambda>row.
           case row of
             None \<Rightarrow> failR (ErrorInfo1 FolderNotFound)
           | Some r \<Rightarrow> okR \<lparr>loc_path = d_path r, loc_depth = d_depth r\<rparr>))
        (failR (ErrorInfo1 FolderNotFound)))"

definition ApplyItemCountDelta :: "'w client \<Rightarrow> nat \<Rightarrow> nat \<Rightarrow> int \<Rightarrow> ('w, bool) M" where
  "ApplyItemCountDelta E folder_id user_id delta =
     exec E (\<lambda>d.
       (Inr (affected (owned_folder folder_id user_id) (folders d) > 0),
        d\<lparr>folders := update_where (owned_folder folder_id user_id)
            (\<lambda>r. r\<lparr>d_item_count := max (d_item_count r + delta) 0\<rparr>) (folders d)\<rparr>))"

section \<open>Names and paths\<close>

definition ExtractFileExtension :: "string \<Rightarrow> string" where
  "ExtractFileExtension filename =
     (let after_dot = takeWhile (\<lambda>c. c \<noteq> CHR ''.'') (rev filename) in
      if CHR ''.'' \<notin> set filename \<or> after_dot = [] then '''' else rev after_dot)"

definition BuildFilePath :: "string \<Rightarrow> string \<Rightarrow> string" where
  "BuildFilePath folder_path filename =
     (if folder_path = ''/'' then ''/'' @ filename else folder_path @ filename)"

definition BuildFolderPath :: "string \<Rightarrow> string \<Rightarrow> string" where
  "BuildFolderPath parent_path name =
     (if parent_path = ''/'' then ''/'' @ name @ ''/'' else parent_path @ name @ ''/'')"

text \<open>The extension is what follows the last dot: it holds no dot, and splitting there rebuilds the name.\<close>

lemma ExtractFileExtension_split:
  assumes "ExtractFileExtension name \<noteq> ''''"
  shows "CHR ''.'' \<notin> set (ExtractFileExtension name) \<and> (\<exists>stem. name = stem @ ''.'' @ ExtractFileExtension name)"
proof -
  let ?t = "takeWhile (\<lambda>c. c \<noteq> CHR ''.'') (rev name)"
  let ?r = "dropWhile (\<lambda>c. c \<noteq> CHR ''.'') (rev name)"
  from assms have ext: "ExtractFileExtension name = rev ?t" and dot: "CHR ''.'' \<in> set name"
    by (auto simp: ExtractFileExtension_def Let_def split: if_splits)
  from dot have "?r \<noteq> []"
    by (auto simp: dropWhile_eq_Nil_conv)
  then obtain x xs where r: "?r = x # xs" by (cases ?r) auto
  then have x: "x = CHR ''.''"
    using hd_dropWhile [of "\<lambda>c. c \<noteq> CHR ''.''" "rev name"] \<open>?r \<noteq> []\<close> by simp
  have "rev name = ?t @ ?r" by simp
  then have "name = rev ?r @ rev ?t" by (metis rev_append rev_rev_ident)
  with r x ext have "name = rev xs @ ''.'' @ ExtractFileExtension name" by simp
  moreover have "CHR ''.'' \<notin> set (ExtractFileExtension name)"
    using ext by (auto dest: set_takeWhileD)
  ultimately show ?thesis by blast
qed

lemma BuildFilePath_name: "\<exists>prefix. BuildFilePath p name = prefix @ name"
  by (auto simp: BuildFilePath_def)

end
