(* ===== verification/Upload_Lifecycle.thy ===== *)
theory Upload_Lifecycle
  imports Quota_Service Content_Service Folder_Repository Reconciliation
begin

text \<open>
  The upload lifecycle (src/src/services/UploadLifecycleService.cpp): initialisation with
  instant upload, resumption and creation; finalization under a lease, phase by phase and with
  its closing transaction; cancellation; expiry.  The staging and blob stores are the
  interfaces of src/src/storage (\<open>staging_ops\<close>, \<open>blob_ops\<close>): records of functions over an
  abstract storage state, absent where the source's pointer is null.  Logging, metrics, stage
  timers and the fault-injection pauses of the tests have no counterpart.
\<close>

section \<open>Commands, outcomes and store interfaces\<close>

record UploadStagingAssembly =
  as_backend :: UploadStagingBackend
  as_locator :: string
  as_size_bytes :: nat
  as_md5_hash :: string
  as_sha256_hash :: string

record 'w staging_ops =
  EnsureUploadSession :: "UploadStagingSession \<Rightarrow> 'w \<Rightarrow> unit Result \<times> 'w"
  WriteChunk :: "UploadStagingSession \<Rightarrow> nat \<Rightarrow> string \<Rightarrow> string \<Rightarrow> 'w \<Rightarrow> UploadStagingChunk Result \<times> 'w"
  AssembleChunks ::
    "UploadStagingSession \<Rightarrow> nat \<Rightarrow> nat \<Rightarrow> UploadStagingChunk list \<Rightarrow> 'w \<Rightarrow> UploadStagingAssembly Result \<times> 'w"
  DiscardAssembly :: "UploadStagingSession \<Rightarrow> UploadStagingAssembly \<Rightarrow> 'w \<Rightarrow> unit Result \<times> 'w"

record 'w blob_ops =
  PromoteToFinal :: "UploadStagingAssembly \<Rightarrow> string \<Rightarrow> 'w \<Rightarrow> string Result \<times> 'w"

record 'w lifecycle =
  m_upload_staging_storage :: "'w staging_ops option"
  m_blob_store :: "'w blob_ops option"
  hash_sha256 :: "string \<Rightarrow> string"
  cfg_staging_s3 :: bool
  cfg_s3_staging_prefix :: string

record LifecycleFileItem =
  li_id :: nat
  li_name :: string
  li_size :: nat
  li_hash :: string
  li_mime_type :: string
  li_parent_id :: nat
  li_created_at :: int

record InitUploadCommand =
  ic_filename :: string
  ic_file_size :: nat
  ic_file_hash :: string
  ic_parent_id :: nat
  ic_user_id :: nat
  ic_max_file_size :: nat
  ic_chunk_size :: nat
  ic_expiry_seconds :: int
  ic_upload_task_creation_enabled :: bool

record InitUploadOutcome =
  io_upload_id :: string
  io_chunk_size :: nat
  io_total_chunks :: nat
  io_uploaded_chunks :: "nat list"
  io_instant_upload :: bool
  io_file :: "LifecycleFileItem option"
  io_invalid_tasks :: "string list"
  io_invalid_folders :: "nat list"

record CompleteUploadCommand =
  cc_upload_id :: string
  cc_user_id :: nat
  cc_lease_owner :: string
  cc_lease_duration_seconds :: nat

record CompleteUploadOutcome =
  co_file :: LifecycleFileItem
  co_invalid_tasks :: "string list"
  co_invalid_folders :: "nat list"

section \<open>Pure decisions\<close>

datatype InitDecision = InstantUpload | ResumeUpload string | StartNewUpload

definition DecideInitFlow :: "bool \<Rightarrow> string \<Rightarrow> InitDecision" where
  "DecideInitFlow has_existing_content existing_task_id =
     (if has_existing_content then InstantUpload
      else if existing_task_id \<noteq> [] then ResumeUpload existing_task_id
      else StartNewUpload)"

record ChunkAcceptanceError =
  cae_error :: ErrorInfo
  cae_expected_size :: nat

text \<open>
  The geometry is computed in unsigned 64-bit arithmetic.  The result on the right is the
  accepted chunk's expected size.
\<close>

definition ValidateChunkAcceptance ::
  "nat \<Rightarrow> nat \<Rightarrow> nat \<Rightarrow> nat \<Rightarrow> nat \<Rightarrow> ChunkAcceptanceError + nat" where
  "ValidateChunkAcceptance chunk_index data_size file_size chunk_size total_chunks =
     (if chunk_index \<ge> total_chunks
      then Inl \<lparr>cae_error = ErrorInfo2 ValidationFailed ''Chunk index out of range'', cae_expected_size = 0\<rparr>
      else
        let chunk_offset = of_nat chunk_index * of_nat chunk_size :: 64 word;
            remaining_bytes = of_nat file_size - chunk_offset;
            expected_size = unat (min (of_nat chunk_size) remaining_bytes)
        in if data_size \<noteq> expected_size
           then Inl \<lparr>cae_error = ErrorInfo2 ValidationFailed ''Unexpected chunk size'',
                     cae_expected_size = expected_size\<rparr>
           else Inr expected_size)"

definition total_chunks_u64 :: "nat \<Rightarrow> nat \<Rightarrow> nat" where
  "total_chunks_u64 file_size chunk_size =
     unat ((of_nat file_size - 1 :: 64 word) div of_nat chunk_size + 1)"

datatype FinalizeStorageDecision = ReuseExistingContent nat | PromoteAsNewContent

definition DecideFinalizeStorage :: "nat option \<Rightarrow> FinalizeStorageDecision" where
  "DecideFinalizeStorage existing_content_id =
     (case existing_content_id of
        Some c \<Rightarrow> ReuseExistingContent c
      | None \<Rightarrow> PromoteAsNewContent)"

definition decided_content_id :: "FinalizeStorageDecision \<Rightarrow> nat option" where
  "decided_content_id dec = (case dec of ReuseExistingContent c \<Rightarrow> Some c | PromoteAsNewContent \<Rightarrow> None)"

definition ShouldContinueExpirationScan :: "nat \<Rightarrow> nat \<Rightarrow> bool" where
  "ShouldContinueExpirationScan candidates limit \<longleftrightarrow> limit > 0 \<and> candidates = limit"

section \<open>Shared helpers\<close>

definition ToLifecycleFileItem :: "file_row \<Rightarrow> string \<Rightarrow> LifecycleFileItem" where
  "ToLifecycleFileItem f hash =
     \<lparr>li_id = f_id f, li_name = f_name f, li_size = f_size f, li_hash = hash,
      li_mime_type = f_mime_type f, li_parent_id = f_folder_id f, li_created_at = f_created_at f\<rparr>"

definition FindCompletedFile :: "'w client \<Rightarrow> nat \<Rightarrow> nat \<Rightarrow> ('w, LifecycleFileItem option) M" where
  "FindCompletedFile E file_id user_id =
     exec E (pureS (\<lambda>d. map_option
       (\<lambda>f. ToLifecycleFileItem f
              (case find_row (\<lambda>c. fc_id c = f_content_id f) (file_contents d) of
                 None \<Rightarrow> '''' | Some c \<Rightarrow> fc_hash_md5 c))
       (find_row (\<lambda>f. f_id f = file_id \<and> f_user_id f = user_id) (files d))))"

definition LeaseConflictError :: ErrorInfo where
  "LeaseConflictError =
     ErrorInfo2 ResourceConflict ''Upload finalization is owned by another lease; retry later''"

definition RenewLeaseOrConflict :: "'w client \<Rightarrow> CompleteUploadCommand \<Rightarrow> nat \<Rightarrow> ('w, nat Result) M" where
  "RenewLeaseOrConflict E command state_version =
     catchM
       (bindM (RenewFinalizeLease E (cc_upload_id command) (cc_user_id command) (cc_lease_owner command)
                 state_version (cc_lease_duration_seconds command)) (\<lambda>renewed_version.
          case renewed_version of
            None \<Rightarrow> failR LeaseConflictError
          | Some v \<Rightarrow> okR v))
       (\<lambda>_. failR (ErrorInfo2 InternalError ''Failed to renew upload finalize lease''))"

definition RecordFinalizeErrorBestEffort :: "'w client \<Rightarrow> CompleteUploadCommand \<Rightarrow> nat \<Rightarrow> Code \<Rightarrow> ('w, unit) M" where
  "RecordFinalizeErrorBestEffort E command state_version error_code =
     catchM
       (bindM (RecordFinalizeErrorIfLeaseOwned E (cc_upload_id command) (cc_user_id command)
                 (cc_lease_owner command) state_version (CodeInt (ErrorInfo1 error_code))) (\<lambda>_. retM ()))
       (\<lambda>_. retM ())"

definition TriggerStagingReconciliationBestEffort ::
  "'w client \<Rightarrow> 'w lifecycle \<Rightarrow> UploadStagingSession \<Rightarrow> CompleteUploadCommand \<Rightarrow> nat \<Rightarrow> ('w, unit) M" where
  "TriggerStagingReconciliationBestEffort E L session command state_version =
     (let scan_id = ''upload-integrity-'' @ take 32 (BuildObjectResourceId (hash_sha256 L) (cc_upload_id command));
          details = JObject [(''scan_id'', JString scan_id),
                             (''staging_backend'', JString (BackendToStorageValue (ss_backend session))),
                             (''state_version'', JUInt state_version),
                             (''error_code'', JUInt (CodeInt (ErrorInfo1 ChunkVerifyFailed))),
                             (''lease_owner'', JString (cc_lease_owner command))]
      in bindM
           (catchM
             (RecordFinding E
               \<lparr>rf_finding_type = kUploadStagingMismatchFindingType, rf_resource_id = cc_upload_id command,
                rf_resource_locator = Some (ss_prefix session), rf_severity = SeverityCritical,
                rf_resolution_strategy = StrategyManual, rf_details = details\<rparr>)
             (\<lambda>_. retM ())) (\<lambda>_.
         case BuildStorageReconcileJob (hash_sha256 L)
                \<lparr>rp_scan_id = scan_id, rp_scope = ScopeStaging, rp_after_id = 0,
                 rp_continuation_token = '''', rp_limit = 1000\<rparr> of
           Inl _ \<Rightarrow> retM ()
         | Inr job \<Rightarrow>
             catchM (bindM (EnqueueOrRearmSucceeded E job) (\<lambda>_. retM ())) (\<lambda>_. retM ())))"

definition named_file :: "nat \<Rightarrow> nat \<Rightarrow> string \<Rightarrow> file_row \<Rightarrow> bool" where
  "named_file user_id folder_id filename f \<longleftrightarrow>
     f_user_id f = user_id \<and> f_folder_id f = folder_id \<and> f_name f = filename"

definition IsFilenameExists :: "'w client \<Rightarrow> nat \<Rightarrow> string \<Rightarrow> nat \<Rightarrow> ('w, bool) M" where
  "IsFilenameExists E folder_id filename user_id =
     catchDb (exec E (pureS (\<lambda>d. affected (named_file user_id folder_id filename) (files d) > 0)))
             (retM False)"

definition new_file_row ::
  "'w db \<Rightarrow> nat \<Rightarrow> nat \<Rightarrow> nat \<Rightarrow> string \<Rightarrow> string \<Rightarrow> nat \<Rightarrow> string \<Rightarrow> string \<Rightarrow> file_row" where
  "new_file_row d user_id content_id folder_id filename extension fsize mime_type path =
     \<lparr>f_id = Suc (seq_files d), f_user_id = user_id, f_content_id = content_id, f_folder_id = folder_id,
      f_name = filename, f_extension = extension, f_size = fsize, f_mime_type = mime_type,
      f_path = path, f_is_favorite = False, f_download_count = 0, f_created_at = now d\<rparr>"

text \<open>The unique key turns a taken name into an empty result; the foreign keys raise.\<close>

definition InsertFileRecord ::
  "'w client \<Rightarrow> nat \<Rightarrow> nat \<Rightarrow> nat \<Rightarrow> string \<Rightarrow> string \<Rightarrow> nat \<Rightarrow> string \<Rightarrow> string \<Rightarrow> ('w, file_row Result) M" where
  "InsertFileRecord E user_id content_id folder_id filename extension fsize mime_type path =
     bindM (exec E (\<lambda>d.
         if list_ex (named_file user_id folder_id filename) (files d) then (Inr None, d)
         else if user_id \<notin> u_id ` set (users d) \<or> content_id \<notin> fc_id ` set (file_contents d)
         then (Inl DbException, d)
         else (let f = new_file_row d user_id content_id folder_id filename extension fsize mime_type path in
               (Inr (Some f), d\<lparr>files := files d @ [f], seq_files := Suc (seq_files d)\<rparr>))))
       (\<lambda>result. case result of
          None \<Rightarrow> failR (ErrorInfo1 FileAlreadyExists)
        | Some f \<Rightarrow> okR f)"

text \<open>One more item in a folder other than the root.\<close>

definition count_item :: "'w client \<Rightarrow> nat \<Rightarrow> nat \<Rightarrow> ('w, unit) M" where
  "count_item T folder_id user_id =
     (if folder_id > 0
      then bindM (ApplyItemCountDelta T folder_id user_id 1) (\<lambda>_. retM ())
      else retM ())"

section \<open>Expiry\<close>

text \<open>The UTF-8 bytes of the two reasons the source writes into \<^verbatim>\<open>fail_reason\<close>.\<close>

definition cancel_reason :: string where
  "cancel_reason = [CHR 0xE7, CHR 0x94, CHR 0xA8, CHR 0xE6, CHR 0x88, CHR 0xB7,
                    CHR 0xE5, CHR 0x8F, CHR 0x96, CHR 0xE6, CHR 0xB6, CHR 0x88]"

definition expire_reason :: string where
  "expire_reason = [CHR 0xE4, CHR 0xBB, CHR 0xBB, CHR 0xE5, CHR 0x8A, CHR 0xA1,
                    CHR 0xE8, CHR 0xBF, CHR 0x87, CHR 0xE6, CHR 0x9C, CHR 0x9F]"

text \<open>
  The body shared by cancellation and expiry after the status change: give back the
  reservation, queue the cleanup of the staging area, forget the chunks.
\<close>

definition release_and_cleanup :: "'w client \<Rightarrow> string \<Rightarrow> nat \<Rightarrow> UploadTaskCleanupRecord \<Rightarrow> 'a \<Rightarrow> ('w, 'a Result) M" where
  "release_and_cleanup T upload_id user_id cleanup v =
     bindR (ReleaseReservedStorageChecked T user_id (cr_reserved_bytes cleanup)) (\<lambda>_.
     bindM (Enqueue T (BuildStagingCleanupJob (cr_staging_session cleanup))) (\<lambda>_.
     bindM (DeleteChunks T upload_id) (\<lambda>_. okR v)))"

definition expire_tx :: "string \<Rightarrow> 'w client \<Rightarrow> ('w, nat option Result) M" where
  "expire_tx upload_id T =
     bindM (MarkExpiredIfInProgressReturning T upload_id expire_reason) (\<lambda>expired.
       case expired of
         None \<Rightarrow> okR None
       | Some (cleanup, v) \<Rightarrow> release_and_cleanup T upload_id (cr_user_id cleanup) cleanup (Some v))"

definition ExpireInProgressUpload :: "'w client \<Rightarrow> string \<Rightarrow> ('w, bool Result) M" where
  "ExpireInProgressUpload E upload_id =
     bindR (Run E (ErrorInfo1 InternalError) (expire_tx upload_id)) (\<lambda>transitioned.
       okR (transitioned \<noteq> None))"

fun expire_each :: "'w client \<Rightarrow> UploadTaskCleanupRecord list \<Rightarrow> nat \<Rightarrow> ('w, nat Result) M" where
  "expire_each E [] cleaned = okR cleaned"
| "expire_each E (t # ts) cleaned =
     bindR (ExpireInProgressUpload E (cr_id t)) (\<lambda>b. expire_each E ts (if b then cleaned + 1 else cleaned))"

text \<open>The result is the pair of candidates seen and tasks expired.\<close>

definition ExpireInProgressUploads :: "'w client \<Rightarrow> nat \<Rightarrow> ('w, (nat \<times> nat) Result) M" where
  "ExpireInProgressUploads E limit =
     (if limit = 0 \<or> limit > 500
      then failR (ErrorInfo2 ValidationFailed ''Invalid upload expiration batch size'')
      else bindM (FindExpiredInProgressBatch E limit) (\<lambda>expired_tasks.
           bindR (expire_each E expired_tasks 0) (\<lambda>cleaned. okR (length expired_tasks, cleaned))))"

section \<open>Cancellation\<close>

definition cancel_tx :: "string \<Rightarrow> nat \<Rightarrow> 'w client \<Rightarrow> ('w, nat option Result) M" where
  "cancel_tx upload_id user_id T =
     bindM (MarkCancelledIfInProgressReturning T upload_id user_id cancel_reason) (\<lambda>cancelled.
       case cancelled of
         None \<Rightarrow> okR None
       | Some (cleanup, v) \<Rightarrow> release_and_cleanup T upload_id user_id cleanup (Some v))"

definition cancel_reply :: "UploadTaskCancellationState option \<Rightarrow> ('w, nat Result) M" where
  "cancel_reply current_state =
     (case current_state of
        None \<Rightarrow> failR (ErrorInfo1 UploadTaskNotFound)
      | Some cs \<Rightarrow>
          if cs_task_expired cs \<and> cs_status cs = ToStorageValue InProgress
          then failR (ErrorInfo1 UploadTaskNotFound)
          else (case DecideCancelRequest (cs_status cs) of
                  ReplayCancelled \<Rightarrow> okR (cs_state_version cs)
                | RejectConflict \<Rightarrow>
                    failR (ErrorInfo2 ResourceConflict
                             ''Upload task cannot be cancelled while finalizing or completed'')
                | RejectTerminalCancel \<Rightarrow> failR (ErrorInfo1 UploadTaskNotFound)
                | CancelTask \<Rightarrow>
                    failR (ErrorInfo2 ResourceConflict ''Upload task state changed during cancellation'')))"

definition CancelInProgressUpload :: "'w client \<Rightarrow> string \<Rightarrow> nat \<Rightarrow> ('w, nat Result) M" where
  "CancelInProgressUpload E upload_id user_id =
     bindR (Run E (ErrorInfo1 InternalError) (cancel_tx upload_id user_id)) (\<lambda>transitioned.
       case transitioned of
         Some v \<Rightarrow> okR v
       | None \<Rightarrow> bindM (FindCancellationStateByIdForUser E upload_id user_id) cancel_reply)"

section \<open>Initialisation\<close>

definition instant_upload_tx :: "InitUploadCommand \<Rightarrow> ContentMetadata \<Rightarrow> 'w client \<Rightarrow> ('w, file_row Result) M" where
  "instant_upload_tx command content T =
     bindM (IsFilenameExists T (ic_parent_id command) (ic_filename command) (ic_user_id command)) (\<lambda>exists.
       if exists then failR (ErrorInfo1 FileAlreadyExists)
       else
         bindR (ConsumeUsedStorage T (ic_user_id command) (ic_file_size command)) (\<lambda>_.
         bindR (IncrementRefCount T (cm_id content) 1) (\<lambda>_.
         bindR (ResolveOwnedFolderLocation T (ic_parent_id command) (ic_user_id command)) (\<lambda>loc.
         bindR (InsertFileRecord T (ic_user_id command) (cm_id content) (ic_parent_id command)
                  (ic_filename command) (ExtractFileExtension (ic_filename command)) (ic_file_size command)
                  (cm_mime_type content) (BuildFilePath (loc_path loc) (ic_filename command))) (\<lambda>file.
         bindM (count_item T (ic_parent_id command) (ic_user_id command)) (\<lambda>_. okR file))))))"

definition resumed :: "task_row \<Rightarrow> nat list \<Rightarrow> string list \<Rightarrow> InitUploadOutcome" where
  "resumed task uploaded_chunks invalid =
     \<lparr>io_upload_id = t_id task, io_chunk_size = to_uint32 (t_chunk_size task),
      io_total_chunks = to_uint32 (t_total_chunks task), io_uploaded_chunks = uploaded_chunks,
      io_instant_upload = False, io_file = None, io_invalid_tasks = invalid @ [t_id task],
      io_invalid_folders = []\<rparr>"

definition task_template :: "InitUploadCommand \<Rightarrow> string \<Rightarrow> nat \<Rightarrow> task_row" where
  "task_template command upload_id total_chunks =
     \<lparr>t_id = upload_id, t_user_id = ic_user_id command, t_folder_id = ic_parent_id command,
      t_filename = ic_filename command, t_file_size = ic_file_size command,
      t_file_hash = ic_file_hash command, t_chunk_size = to_int32 (int (ic_chunk_size command)),
      t_total_chunks = to_int32 (int total_chunks), t_reserved_bytes = ic_file_size command,
      t_temp_path = upload_id, t_staging_backend = '''', t_staging_prefix = None,
      t_status = ToStorageValue InProgress, t_state_version = 0, t_lease_owner = None,
      t_lease_expires_at = None, t_finalize_attempts = 0, t_last_error_code = None,
      t_last_error_at = None, t_completed_file_id = None, t_expires_at = 0, t_finalized_at = None,
      t_fail_reason = None, t_created_at = 0\<rparr>"

text \<open>The left result is a concurrently created task, the right one the task just created.\<close>

definition create_task_tx ::
  "InitUploadCommand \<Rightarrow> task_row \<Rightarrow> UploadStagingSession \<Rightarrow> 'w client \<Rightarrow> ('w, (task_row + task_row) Result) M" where
  "create_task_tx command task session T =
     bindM (AcquireUploadInitLock T (ic_user_id command) (ic_file_hash command)) (\<lambda>_.
     bindM (FindActiveByUserAndHash T (ic_user_id command) (ic_file_hash command)) (\<lambda>concurrent_task.
       case concurrent_task of
         Some c \<Rightarrow> okR (Inl c)
       | None \<Rightarrow>
           bindR (ReserveStorage T (ic_user_id command) (ic_file_size command)) (\<lambda>_.
           bindM (Create T task session (to_uint32 (ic_expiry_seconds command))) (\<lambda>row. okR (Inr row)))))"

definition staging_session_for :: "'w lifecycle \<Rightarrow> string \<Rightarrow> UploadStagingSession" where
  "staging_session_for L upload_id =
     \<lparr>ss_upload_id = upload_id,
      ss_backend = (if cfg_staging_s3 L then BackendS3 else BackendLocal),
      ss_prefix = (if cfg_staging_s3 L then cfg_s3_staging_prefix L @ ''/'' @ upload_id else upload_id)\<rparr>"

definition start_new_upload ::
  "'w client \<Rightarrow> 'w lifecycle \<Rightarrow> string \<Rightarrow> InitUploadCommand \<Rightarrow> string list \<Rightarrow> ('w, InitUploadOutcome Result) M" where
  "start_new_upload E L upload_id command pending_invalidation =
     (if \<not> ic_upload_task_creation_enabled command then failR (ErrorInfo1 UploadTaskCreationDisabled)
      else if ic_chunk_size command = 0
      then failR (ErrorInfo2 InternalError ''Invalid upload chunk size configuration'')
      else if total_chunks_u64 (ic_file_size command) (ic_chunk_size command) > 2 ^ 32 - 1
      then failR (ErrorInfo2 ValidationFailed ''File requires too many chunks'')
      else
        let total_chunks = total_chunks_u64 (ic_file_size command) (ic_chunk_size command);
            session = staging_session_for L upload_id;
            task = task_template command upload_id total_chunks
        in bindR (Run E (ErrorInfo2 InternalError ''Failed to create upload task'')
                   (create_task_tx command task session)) (\<lambda>created.
             case created of
               Inl c \<Rightarrow>
                 bindM (ListUploadedChunkIndices E (t_id c)) (\<lambda>uploaded_chunks.
                   okR (resumed c uploaded_chunks pending_invalidation))
             | Inr row \<Rightarrow>
                 bindM (case m_upload_staging_storage L of
                          None \<Rightarrow> retM (Inr ())
                        | Some st \<Rightarrow> callStore E (EnsureUploadSession st session)) (\<lambda>_.
                   okR (resumed row [] pending_invalidation))))"

definition InitializeUpload ::
  "'w client \<Rightarrow> 'w lifecycle \<Rightarrow> string \<Rightarrow> InitUploadCommand \<Rightarrow> ('w, InitUploadOutcome Result) M" where
  "InitializeUpload E L new_upload_id command =
     (if ic_file_size command > ic_max_file_size command
      then failR (ErrorInfo2 ValidationFailed ''File size exceeds maximum allowed size'')
      else
        bindM (exec E (pureS (\<lambda>d.
            (find_row (owned_folder (ic_parent_id command) (ic_user_id command)) (folders d),
             affected (named_file (ic_user_id command) (ic_parent_id command) (ic_filename command)) (files d))))) (\<lambda>(folder, filename_count).
          if ic_parent_id command \<noteq> 0 \<and> folder = None then failR (ErrorInfo1 FolderNotFound)
          else if filename_count > 0 then failR (ErrorInfo1 FileAlreadyExists)
          else
            bindM (FindByMd5 E (ic_file_hash command)) (\<lambda>existing_content.
            bindM (FindActiveByUserAndHash E (ic_user_id command) (ic_file_hash command)) (\<lambda>existing_task.
              case (DecideInitFlow (existing_content \<noteq> None)
                      (case existing_task of None \<Rightarrow> '''' | Some t \<Rightarrow> t_id t), existing_content, existing_task) of
                (InstantUpload, Some content, _) \<Rightarrow>
                  bindR (Run E (ErrorInfo2 InternalError ''Failed to create file record'')
                          (instant_upload_tx command content)) (\<lambda>file.
                    okR \<lparr>io_upload_id = '''', io_chunk_size = 0, io_total_chunks = 0, io_uploaded_chunks = [],
                         io_instant_upload = True,
                         io_file = Some (ToLifecycleFileItem file (ic_file_hash command)),
                         io_invalid_tasks = [], io_invalid_folders = [ic_parent_id command]\<rparr>)
              | (ResumeUpload _, _, Some task) \<Rightarrow>
                  bindR (ExpireInProgressUpload E (t_id task)) (\<lambda>expired.
                    if expired then start_new_upload E L new_upload_id command [t_id task]
                    else bindM (ListUploadedChunkIndices E (t_id task)) (\<lambda>uploaded_chunks.
                           okR (resumed task uploaded_chunks [])))
              | _ \<Rightarrow> start_new_upload E L new_upload_id command []))))"

section \<open>Finalization\<close>

definition complete_replay :: "'w client \<Rightarrow> CompleteUploadCommand \<Rightarrow> nat option \<Rightarrow> ('w, CompleteUploadOutcome Result) M" where
  "complete_replay E command completed_file_id =
     (case completed_file_id of
        None \<Rightarrow> failR (ErrorInfo2 InternalError ''Completed upload result is unavailable'')
      | Some fid \<Rightarrow>
          catchM
            (bindM (FindCompletedFile E fid (cc_user_id command)) (\<lambda>file.
               case file of
                 None \<Rightarrow> failR (ErrorInfo2 InternalError ''Completed upload result is unavailable'')
               | Some f \<Rightarrow> okR \<lparr>co_file = f, co_invalid_tasks = [cc_upload_id command],
                                co_invalid_folders = [li_parent_id f]\<rparr>))
            (\<lambda>_. failR (ErrorInfo2 InternalError ''Failed to load completed upload result'')))"

text \<open>\<open>fail_recorded\<close>: note the error on the task if the lease is still ours, then report it.\<close>

definition fail_recorded :: "'w client \<Rightarrow> CompleteUploadCommand \<Rightarrow> nat \<Rightarrow> Code \<Rightarrow> ErrorInfo \<Rightarrow> ('w, 'a Result) M" where
  "fail_recorded E command state_version c err =
     bindM (RecordFinalizeErrorBestEffort E command state_version c) (\<lambda>_. failR err)"

text \<open>Phase 2: load the claimed task, its staging session and the chunk descriptors.\<close>

definition complete_load ::
  "'w client \<Rightarrow> CompleteUploadCommand \<Rightarrow> nat \<Rightarrow> ('w, (task_row \<times> UploadStagingSession \<times> UploadStagingChunk list) Result) M" where
  "complete_load E command state_version =
     bindM (FindByIdForUser E (cc_upload_id command) (cc_user_id command)) (\<lambda>task.
       case task of
         None \<Rightarrow> failR (ErrorInfo2 InternalError ''Failed to load claimed upload task'')
       | Some upload_task \<Rightarrow>
           bindM (catchM (FindStagingSessionForUser E (cc_upload_id command) (cc_user_id command))
                         (\<lambda>_. retM None)) (\<lambda>staging_session.
             case staging_session of
               None \<Rightarrow> fail_recorded E command state_version InternalError
                         (ErrorInfo2 InternalError ''Failed to load upload staging session'')
             | Some session \<Rightarrow>
                 bindM (catchM (bindM (ListChunksForAssembly E (cc_upload_id command)) (\<lambda>cs. retM (Some cs)))
                               (\<lambda>_. retM None)) (\<lambda>chunks.
                   case chunks of
                     None \<Rightarrow> fail_recorded E command state_version InternalError
                               (ErrorInfo2 InternalError ''Failed to load upload chunk descriptors'')
                   | Some cs \<Rightarrow> okR (upload_task, session, cs))))"

text \<open>Phase 3: assemble, renew the lease, verify size and hash.  The result carries the new version.\<close>

definition complete_assemble ::
  "'w client \<Rightarrow> 'w lifecycle \<Rightarrow> 'w staging_ops \<Rightarrow> CompleteUploadCommand \<Rightarrow> nat \<Rightarrow> task_row \<Rightarrow>
   UploadStagingSession \<Rightarrow> UploadStagingChunk list \<Rightarrow> ('w, (UploadStagingAssembly \<times> nat) Result) M" where
  "complete_assemble E L st command state_version upload_task session chunks =
     bindM (callStore E (AssembleChunks st session state_version
                           (to_uint32 (t_total_chunks upload_task)) chunks)) (\<lambda>assemble_result.
       case assemble_result of
         Inl err \<Rightarrow>
           bindM (RecordFinalizeErrorBestEffort E command state_version (err_code err)) (\<lambda>_.
           bindM (if err_code err = ChunkVerifyFailed
                  then TriggerStagingReconciliationBestEffort E L session command state_version
                  else retM ()) (\<lambda>_. failR err))
       | Inr assembled \<Rightarrow>
           bindM (RenewLeaseOrConflict E command state_version) (\<lambda>renewed.
             case renewed of
               Inl err \<Rightarrow> bindM (callStore E (DiscardAssembly st session assembled)) (\<lambda>_. failR err)
             | Inr v \<Rightarrow>
                 if as_size_bytes assembled \<noteq> t_file_size upload_task \<or>
                    as_md5_hash assembled \<noteq> t_file_hash upload_task
                 then bindM (callStore E (DiscardAssembly st session assembled)) (\<lambda>_.
                      fail_recorded E command v ChunkVerifyFailed
                        (ErrorInfo2 ChunkVerifyFailed ''File hash verification failed''))
                 else okR (assembled, v)))"

text \<open>Phase 4: look for a content with the same hash and for a file with the target name.\<close>

definition complete_lookup ::
  "'w client \<Rightarrow> CompleteUploadCommand \<Rightarrow> task_row \<Rightarrow> string \<Rightarrow> ('w, ContentMetadata option \<times> bool) M" where
  "complete_lookup E command upload_task final_hash =
     bindM (FindByMd5 E final_hash) (\<lambda>existing_content.
     bindM (catchDb
              (exec E (pureS (\<lambda>d. list_ex (named_file (cc_user_id command) (t_folder_id upload_task)
                                             (t_filename upload_task)) (files d))))
              (retM False)) (\<lambda>filename_exists.
       retM (existing_content, filename_exists)))"

text \<open>Phase 5: reuse the existing content, or promote the assembled object to a final blob.\<close>

definition content_matches :: "ContentMetadata option \<Rightarrow> UploadStagingAssembly \<Rightarrow> nat option" where
  "content_matches existing_content assembled =
     (case existing_content of
        None \<Rightarrow> None
      | Some c \<Rightarrow> if cm_hash_sha256 c = as_sha256_hash assembled \<and> cm_size c = as_size_bytes assembled
                  then Some (cm_id c) else None)"

definition complete_promote ::
  "'w client \<Rightarrow> 'w lifecycle \<Rightarrow> 'w staging_ops \<Rightarrow> CompleteUploadCommand \<Rightarrow> nat \<Rightarrow> UploadStagingSession \<Rightarrow>
   UploadStagingAssembly \<Rightarrow> ContentMetadata option \<Rightarrow> FinalizeStorageDecision \<Rightarrow> ('w, string Result) M" where
  "complete_promote E L st command state_version session assembled existing_content decision =
     (case decision of
        ReuseExistingContent _ \<Rightarrow>
          okR (case existing_content of None \<Rightarrow> '''' | Some c \<Rightarrow> cm_storage_path c)
      | PromoteAsNewContent \<Rightarrow>
          (case m_blob_store L of
             None \<Rightarrow>
               bindM (callStore E (DiscardAssembly st session assembled)) (\<lambda>_.
               fail_recorded E command state_version InternalError
                 (ErrorInfo2 InternalError ''Blob store is not configured''))
           | Some bs \<Rightarrow>
               bindM (callStore E (PromoteToFinal bs assembled (as_sha256_hash assembled))) (\<lambda>promoted.
                 case promoted of
                   Inl err \<Rightarrow> fail_recorded E command state_version (err_code err) err
                 | Inr path \<Rightarrow> okR path)))"

text \<open>Phase 6: the closing transaction.\<close>

definition complete_tx ::
  "CompleteUploadCommand \<Rightarrow> nat \<Rightarrow> task_row \<Rightarrow> UploadStagingSession \<Rightarrow> UploadStagingAssembly \<Rightarrow> string \<Rightarrow>
   FinalizeStorageDecision \<Rightarrow> 'w client \<Rightarrow> ('w, file_row Result) M" where
  "complete_tx command state_version upload_task session assembled final_storage_path decision T =
     bindR (RenewLeaseOrConflict T command state_version) (\<lambda>tx_version.
     bindR (AcquireReference T
              \<lparr>nc_hash_md5 = as_md5_hash assembled, nc_hash_sha256 = as_sha256_hash assembled,
               nc_size = t_file_size upload_task, nc_storage_path = final_storage_path, nc_mime_type = ''''\<rparr>
              (decided_content_id decision)) (\<lambda>content.
     bindR (ResolveOwnedFolderLocation T (t_folder_id upload_task) (cc_user_id command)) (\<lambda>loc.
     bindR (InsertFileRecord T (cc_user_id command) (cm_id content) (t_folder_id upload_task)
              (t_filename upload_task) (ExtractFileExtension (t_filename upload_task)) (t_file_size upload_task)
              '''' (BuildFilePath (loc_path loc) (t_filename upload_task))) (\<lambda>file.
     bindM (count_item T (t_folder_id upload_task) (cc_user_id command)) (\<lambda>_.
     bindR (CommitReservedToUsed T (cc_user_id command) (t_file_size upload_task)) (\<lambda>_.
     bindM (MarkCompletedIfLeaseOwned T (cc_upload_id command) (cc_user_id command) (cc_lease_owner command)
              tx_version (f_id file)) (\<lambda>finalize_success.
       if \<not> finalize_success
       then failR (ErrorInfo2 ResourceConflict ''Upload finalization lease changed before commit'')
       else
         bindM (Enqueue T (BuildStagingCleanupJob session)) (\<lambda>_.
         bindM (DeleteChunks T (cc_upload_id command)) (\<lambda>_. okR file)))))))))"

text \<open>Phases 4 to 6 after a verified assembly.\<close>

definition complete_commit ::
  "'w client \<Rightarrow> 'w lifecycle \<Rightarrow> 'w staging_ops \<Rightarrow> CompleteUploadCommand \<Rightarrow> nat \<Rightarrow> task_row \<Rightarrow>
   UploadStagingSession \<Rightarrow> UploadStagingAssembly \<Rightarrow> ('w, CompleteUploadOutcome Result) M" where
  "complete_commit E L st command state_version upload_task session assembled =
     bindM (complete_lookup E command upload_task (as_md5_hash assembled)) (\<lambda>(existing_content, filename_exists).
       if filename_exists
       then bindM (callStore E (DiscardAssembly st session assembled)) (\<lambda>_.
            fail_recorded E command state_version FileAlreadyExists (ErrorInfo1 FileAlreadyExists))
       else
         let decision = DecideFinalizeStorage (content_matches existing_content assembled) in
         bindR (complete_promote E L st command state_version session assembled existing_content decision)
           (\<lambda>final_storage_path.
         bindR (RenewLeaseOrConflict E command state_version) (\<lambda>v.
         bindM (Run E (ErrorInfo1 InternalError)
                 (complete_tx command v upload_task session assembled final_storage_path decision)) (\<lambda>tx_result.
           case tx_result of
             Inl err \<Rightarrow> fail_recorded E command v (err_code err) err
           | Inr file \<Rightarrow> okR \<lparr>co_file = ToLifecycleFileItem file (as_md5_hash assembled),
                              co_invalid_tasks = [cc_upload_id command],
                              co_invalid_folders = [f_folder_id file]\<rparr>))))"

definition complete_acquired ::
  "'w client \<Rightarrow> 'w lifecycle \<Rightarrow> CompleteUploadCommand \<Rightarrow> nat \<Rightarrow> ('w, CompleteUploadOutcome Result) M" where
  "complete_acquired E L command state_version =
     bindR (complete_load E command state_version) (\<lambda>(upload_task, session, chunks).
       case m_upload_staging_storage L of
         None \<Rightarrow> fail_recorded E command state_version InternalError
                   (ErrorInfo2 InternalError ''Upload staging storage is not configured'')
       | Some st \<Rightarrow>
           bindR (complete_assemble E L st command state_version upload_task session chunks)
             (\<lambda>(assembled, v). complete_commit E L st command v upload_task session assembled))"

text \<open>Phase 1: claim the lease and dispatch on the outcome.\<close>

definition CompleteUpload ::
  "'w client \<Rightarrow> 'w lifecycle \<Rightarrow> CompleteUploadCommand \<Rightarrow> ('w, CompleteUploadOutcome Result) M" where
  "CompleteUpload E L command =
     bindR (catchM
              (bindM (ClaimFinalizeLease E (cc_upload_id command) (cc_user_id command)
                        (cc_lease_owner command) (cc_lease_duration_seconds command)) okR)
              (\<lambda>_. failR (ErrorInfo2 InternalError ''Failed to claim upload finalize lease''))) (\<lambda>claim.
       case fr_disposition claim of
         Acquired \<Rightarrow> complete_acquired E L command (fr_state_version claim)
       | IncompleteChunks \<Rightarrow> failR (ErrorInfo2 ValidationFailed ''Not all chunks uploaded'')
       | LeaseHeld \<Rightarrow> failR LeaseConflictError
       | CompletedReplay \<Rightarrow> complete_replay E command (fr_completed_file_id claim)
       | Terminal \<Rightarrow> failR (ErrorInfo1 UploadTaskNotFound)
       | NotFound \<Rightarrow> failR (ErrorInfo1 UploadTaskNotFound))"

end
