(* ===== verification/Trash_Data.thy ===== *)
theory Trash_Data
  imports Storage_Job_Contract
begin

text \<open>
  What a trash row remembers.  A trashed file keeps its content id in a column or, in rows of
  an older release, in its JSON data (src/src/services/TrashContentIdResolver.hpp).  A trashed
  folder keeps a snapshot of its tree, written by \<^verbatim>\<open>BuildFolderSnapshot\<close>
  (src/src/services/FileServiceUtils.cpp) and read by \<^verbatim>\<open>ParseFolderTreeSnapshot\<close>
  (src/src/services/TrashService.cpp).  Reading follows jsoncpp: a conversion that does not
  apply raises.
\<close>

section \<open>Reading JSON\<close>

definition json_error :: exn where
  "json_error = RuntimeError ''Json::LogicError''"

definition bindE :: "exn + 'a \<Rightarrow> ('a \<Rightarrow> exn + 'b) \<Rightarrow> exn + 'b" where
  "bindE m k = (case m of Inl e \<Rightarrow> Inl e | Inr x \<Rightarrow> k x)"

lemma bindE_ok_iff: "bindE m k = Inr y \<longleftrightarrow> (\<exists>x. m = Inr x \<and> k x = Inr y)"
  by (cases m) (auto simp: bindE_def)

lemma bindE_Inr [simp]: "bindE (Inr x) k = k x"
  by (simp add: bindE_def)

fun has_member :: "json \<Rightarrow> string \<Rightarrow> exn + bool" where
  "has_member (JObject fs) k = Inr (map_of fs k \<noteq> None)"
| "has_member JNull k = Inr False"
| "has_member _ k = Inl json_error"

fun json_get :: "json \<Rightarrow> string \<Rightarrow> json \<Rightarrow> exn + json" where
  "json_get (JObject fs) k dflt = Inr (case map_of fs k of None \<Rightarrow> dflt | Some v \<Rightarrow> v)"
| "json_get JNull k dflt = Inr dflt"
| "json_get _ k dflt = Inl json_error"

fun to_string :: "json \<Rightarrow> exn + string" where
  "to_string JNull = Inr []"
| "to_string (JString s) = Inr s"
| "to_string (JBool b) = Inr (if b then ''true'' else ''false'')"
| "to_string (JInt i) = Inr (if i < 0 then ''-'' @ decimal (nat (- i)) else decimal (nat i))"
| "to_string (JUInt n) = Inr (decimal n)"
| "to_string (JReal m e t) = Inr t"
| "to_string _ = Inl json_error"

fun to_unsigned :: "nat \<Rightarrow> json \<Rightarrow> exn + nat" where
  "to_unsigned w JNull = Inr 0"
| "to_unsigned w (JBool b) = Inr (if b then 1 else 0)"
| "to_unsigned w (JInt i) = (if 0 \<le> i \<and> i < 2 ^ w then Inr (nat i) else Inl json_error)"
| "to_unsigned w (JUInt n) = (if n < 2 ^ w then Inr n else Inl json_error)"
| "to_unsigned w (JReal m e t) =
     (if 0 \<le> m \<and> real_numer m e \<le> (2 ^ w - 1) * real_denom e then Inr (nat (real_floor m e)) else Inl json_error)"
| "to_unsigned w _ = Inl json_error"

fun to_bool :: "json \<Rightarrow> exn + bool" where
  "to_bool JNull = Inr False"
| "to_bool (JBool b) = Inr b"
| "to_bool (JInt i) = Inr (i \<noteq> 0)"
| "to_bool (JUInt n) = Inr (n \<noteq> 0)"
| "to_bool (JReal m e t) = Inr (m \<noteq> 0)"
| "to_bool _ = Inl json_error"

definition get_string :: "json \<Rightarrow> string \<Rightarrow> string \<Rightarrow> exn + string" where
  "get_string j k dflt = bindE (json_get j k (JString dflt)) to_string"

definition get_unsigned :: "nat \<Rightarrow> json \<Rightarrow> string \<Rightarrow> exn + nat" where
  "get_unsigned w j k = bindE (json_get j k (JInt 0)) (to_unsigned w)"

fun elements :: "json \<Rightarrow> json list" where
  "elements (JArray js) = js"
| "elements _ = []"

section \<open>The content of a trashed file\<close>

datatype ContentIdSource = SourceColumn | SourceItemData

definition ResolveRequiredContentId :: "nat option \<Rightarrow> json option \<Rightarrow> (nat \<times> ContentIdSource) Result" where
  "ResolveRequiredContentId column_content_id item_data =
     (let missing = Inl (ErrorInfo2 ValidationFailed ''Trash item is missing valid content_id'');
          from_data =
            (case item_data of
               Some (JObject fs) \<Rightarrow>
                 let legacy_content_id = member (JObject fs) ''content_id'' in
                 if \<not> isUInt64 legacy_content_id then missing
                 else if asUInt64 legacy_content_id = 0 then missing
                 else Inr (asUInt64 legacy_content_id, SourceItemData)
             | _ \<Rightarrow> missing)
      in case column_content_id of
           Some c \<Rightarrow> if c > 0 then Inr (c, SourceColumn) else from_data
         | None \<Rightarrow> from_data)"

section \<open>The snapshot of a folder\<close>

record SnapshotFolder =
  sf_id :: nat
  sf_parent_id :: nat
  sf_name :: string
  sf_item_count :: nat
  sf_depth :: nat

record SnapshotFile =
  sx_id :: nat
  sx_folder_id :: nat
  sx_content_id :: nat
  sx_name :: string
  sx_extension :: string
  sx_size :: nat
  sx_mime_type :: string
  sx_is_favorite :: bool
  sx_download_count :: nat

record FolderTreeSnapshot =
  sn_root :: SnapshotFolder
  sn_folders :: "SnapshotFolder list"
  sn_files :: "SnapshotFile list"

definition read_folder :: "json \<Rightarrow> exn + SnapshotFolder" where
  "read_folder j =
     bindE (get_unsigned 64 j ''id'') (\<lambda>i.
     bindE (get_unsigned 64 j ''parent_id'') (\<lambda>p.
     bindE (get_string j ''name'' []) (\<lambda>n.
     bindE (get_unsigned 32 j ''item_count'') (\<lambda>c.
     bindE (get_unsigned 32 j ''depth'') (\<lambda>d.
       Inr \<lparr>sf_id = i, sf_parent_id = p, sf_name = n, sf_item_count = c, sf_depth = d\<rparr>)))))"

fun read_folders :: "json list \<Rightarrow> exn + SnapshotFolder list" where
  "read_folders [] = Inr []"
| "read_folders (j # js) =
     bindE (read_folder j) (\<lambda>v.
     bindE (read_folders js) (\<lambda>vs.
       Inr (if sf_id v > 0 \<and> sf_name v \<noteq> [] then v # vs else vs)))"

definition read_file :: "json \<Rightarrow> exn + SnapshotFile" where
  "read_file j =
     bindE (get_unsigned 64 j ''id'') (\<lambda>i.
     bindE (get_unsigned 64 j ''folder_id'') (\<lambda>f.
     bindE (get_unsigned 64 j ''content_id'') (\<lambda>c.
     bindE (get_string j ''name'' []) (\<lambda>n.
     bindE (get_string j ''extension'' []) (\<lambda>e.
     bindE (get_unsigned 64 j ''size'') (\<lambda>s.
     bindE (get_string j ''mime_type'' ''application/octet-stream'') (\<lambda>m.
     bindE (bindE (json_get j ''is_favorite'' (JInt 0)) to_bool) (\<lambda>b.
     bindE (get_unsigned 32 j ''download_count'') (\<lambda>d.
       Inr \<lparr>sx_id = i, sx_folder_id = f, sx_content_id = c, sx_name = n, sx_extension = e, sx_size = s,
            sx_mime_type = m, sx_is_favorite = b, sx_download_count = d\<rparr>)))))))))"

definition kept_file :: "SnapshotFile \<Rightarrow> bool" where
  "kept_file v \<longleftrightarrow> sx_id v > 0 \<and> sx_folder_id v > 0 \<and> sx_content_id v > 0 \<and> sx_name v \<noteq> []"

fun read_files :: "json list \<Rightarrow> exn + SnapshotFile list" where
  "read_files [] = Inr []"
| "read_files (j # js) =
     bindE (has_member j ''content_id'') (\<lambda>present.
       if \<not> present then read_files js
       else
         bindE (read_file j) (\<lambda>v.
         bindE (read_files js) (\<lambda>vs. Inr (if kept_file v then v # vs else vs))))"

definition read_tree :: "json \<Rightarrow> exn + FolderTreeSnapshot option" where
  "read_tree j =
     (if \<not> isObject (member j ''root'') then Inr None
      else
        bindE (has_member (member j ''root'') ''id'') (\<lambda>present.
          if \<not> present then Inr None
          else
            bindE (read_folder (member j ''root'')) (\<lambda>root.
            bindE (read_folders (elements (member j ''folders''))) (\<lambda>folders.
            bindE (read_files (elements (member j ''files''))) (\<lambda>files.
              if sf_id root = 0 \<or> sf_name root = [] then Inr None
              else Inr (Some \<lparr>sn_root = root, sn_folders = sort_key sf_id folders, sn_files = files\<rparr>))))))"

definition ParseFolderTreeSnapshot :: "json option \<Rightarrow> exn + FolderTreeSnapshot option" where
  "ParseFolderTreeSnapshot item_data =
     (case item_data of
        None \<Rightarrow> Inr None
      | Some j \<Rightarrow>
          bindE (get_string j ''type'' []) (\<lambda>ty. if ty \<noteq> ''folder_tree'' then Inr None else read_tree j))"

definition ExtractSnapshotContentIds :: "json option \<Rightarrow> exn + nat list" where
  "ExtractSnapshotContentIds item_data =
     bindE (ParseFolderTreeSnapshot item_data) (\<lambda>snapshot.
       Inr (case snapshot of None \<Rightarrow> [] | Some s \<Rightarrow> map sx_content_id (sn_files s)))"

text \<open>
  Writing the snapshot.  Its timestamps, which nothing reads, are left out.
\<close>

record FolderDeletePlan =
  pl_root :: folder_row
  pl_folders :: "folder_row list"
  pl_files :: "file_row list"
  pl_item_size :: nat

definition folder_json :: "folder_row \<Rightarrow> json" where
  "folder_json r =
     JObject [(''id'', JUInt (d_id r)), (''parent_id'', JUInt (d_parent_id r)), (''name'', JString (d_name r)),
       (''path'', JString (d_path r)), (''depth'', JInt (int (d_depth r))), (''item_count'', JInt (d_item_count r))]"

definition file_json :: "file_row \<Rightarrow> json" where
  "file_json f =
     JObject [(''id'', JUInt (f_id f)), (''folder_id'', JUInt (f_folder_id f)), (''content_id'', JUInt (f_content_id f)),
       (''name'', JString (f_name f)), (''extension'', JString (f_extension f)), (''size'', JUInt (f_size f)),
       (''mime_type'', JString (f_mime_type f)), (''path'', JString (f_path f)),
       (''is_favorite'', JInt (if f_is_favorite f then 1 else 0)), (''download_count'', JInt (int (f_download_count f)))]"

definition BuildFolderSnapshot :: "FolderDeletePlan \<Rightarrow> json" where
  "BuildFolderSnapshot plan =
     JObject [(''type'', JString ''folder_tree''), (''version'', JInt 1), (''root'', folder_json (pl_root plan)),
       (''folders'', JArray (map folder_json (filter (\<lambda>r. d_id r \<noteq> d_id (pl_root plan)) (pl_folders plan)))),
       (''files'', JArray (map file_json (pl_files plan)))]"

section \<open>The references a trash row holds\<close>

text \<open>
  The contents a permanent deletion releases, each with the bytes it accounts for, read off
  the row directly.  \<open>ParseFolderTreeSnapshot\<close> and \<open>ResolveRequiredContentId\<close> compute the same.
\<close>

fun number :: "json \<Rightarrow> nat" where
  "number (JInt i) = nat i"
| "number (JUInt n) = n"
| "number (JReal m e t) = nat (real_floor m e)"
| "number (JBool b) = (if b then 1 else 0)"
| "number _ = 0"

definition nonempty_text :: "json \<Rightarrow> bool" where
  "nonempty_text j \<longleftrightarrow> (case to_string j of Inl _ \<Rightarrow> False | Inr s \<Rightarrow> s \<noteq> [])"

definition raw_file :: "json \<Rightarrow> (nat \<times> nat) list" where
  "raw_file j =
     (if has_member j ''content_id'' = Inr True \<and> number (member j ''id'') > 0 \<and> number (member j ''folder_id'') > 0 \<and>
         number (member j ''content_id'') > 0 \<and> nonempty_text (member j ''name'')
      then [(number (member j ''content_id''), number (member j ''size''))] else [])"

definition raw_tree :: "json \<Rightarrow> (nat \<times> nat) list" where
  "raw_tree j =
     (if get_string j ''type'' [] = Inr ''folder_tree'' \<and> has_member (member j ''root'') ''id'' = Inr True \<and>
         number (member (member j ''root'') ''id'') \<noteq> 0 \<and> nonempty_text (member (member j ''root'') ''name'')
      then concat (map raw_file (elements (member j ''files''))) else [])"

definition released :: "trash_row \<Rightarrow> (nat \<times> nat) list" where
  "released r =
     (if tr_item_type r = ''file'' then
        (case ResolveRequiredContentId (tr_content_id r) (tr_item_data r) of
           Inl _ \<Rightarrow> [] | Inr (c, _) \<Rightarrow> [(c, tr_item_size r)])
      else if tr_item_type r = ''folder'' then (case tr_item_data r of None \<Rightarrow> [] | Some j \<Rightarrow> raw_tree j)
      else [])"

lemma get_unsigned_member:
  "get_unsigned w (JObject fs) k = to_unsigned w (member (JObject fs) k)"
  by (auto simp: get_unsigned_def split: option.splits)

lemma get_string_member: "get_string (JObject fs) k [] = to_string (member (JObject fs) k)"
  by (auto simp: get_string_def split: option.splits)

lemma to_unsigned_number: "to_unsigned w j = Inr n \<Longrightarrow> number j = n"
  by (cases j) (auto split: if_splits)

lemma nonempty_text_iff: "to_string j = Inr s \<Longrightarrow> nonempty_text j \<longleftrightarrow> s \<noteq> []"
  by (simp add: nonempty_text_def)

lemma has_member_object: "has_member j k = Inr True \<Longrightarrow> \<exists>fs. j = JObject fs"
  by (cases j) auto

lemma read_file_raw:
  assumes "read_file (JObject fs) = Inr v" and "has_member (JObject fs) ''content_id'' = Inr True"
  shows "raw_file (JObject fs) = (if kept_file v then [(sx_content_id v, sx_size v)] else [])"
  using assms
  by (auto simp: read_file_def bindE_ok_iff get_unsigned_member get_string_member raw_file_def kept_file_def
      dest!: to_unsigned_number simp: nonempty_text_iff simp del: member.simps has_member.simps)

lemma read_files_raw:
  "read_files js = Inr vs \<Longrightarrow> map (\<lambda>v. (sx_content_id v, sx_size v)) vs = concat (map raw_file js)"
proof (induction js arbitrary: vs)
  case (Cons j js)
  from Cons.prems obtain present where p: "has_member j ''content_id'' = Inr present"
    by (auto simp: bindE_ok_iff)
  show ?case
  proof (cases present)
    case False
    with Cons p show ?thesis by (auto simp: raw_file_def)
  next
    case True
    with p have "has_member j ''content_id'' = Inr True" by simp
    then obtain fs where j: "j = JObject fs" using has_member_object by blast
    from Cons.prems p True obtain v ws where v: "read_file j = Inr v" and ws: "read_files js = Inr ws"
      and vs: "vs = (if kept_file v then v # ws else ws)"
      by (auto simp: bindE_ok_iff simp del: has_member.simps)
    from read_file_raw [of fs v] v p True j Cons.IH [OF ws] vs show ?thesis by auto
  qed
qed simp

lemma read_tree_raw:
  assumes "read_tree j = Inr t" and "get_string j ''type'' [] = Inr ''folder_tree''"
  shows "raw_tree j = (case t of None \<Rightarrow> [] | Some s \<Rightarrow> map (\<lambda>v. (sx_content_id v, sx_size v)) (sn_files s))"
proof (cases "has_member (member j ''root'') ''id'' = Inr True")
  case False
  with assms show ?thesis
    by (auto simp: read_tree_def raw_tree_def bindE_ok_iff simp del: member.simps has_member.simps split: if_splits)
next
  case True
  then obtain rs where rs: "member j ''root'' = JObject rs" using has_member_object by blast
  with assms(1) True obtain root fs xs where r: "read_folder (JObject rs) = Inr root"
    and f: "read_files (elements (member j ''files'')) = Inr xs"
    and t: "t = (if sf_id root = 0 \<or> sf_name root = [] then None
                 else Some \<lparr>sn_root = root, sn_folders = sort_key sf_id fs, sn_files = xs\<rparr>)"
    by (auto simp: read_tree_def bindE_ok_iff simp del: member.simps has_member.simps split: if_splits)
  from r have "number (member (JObject rs) ''id'') = sf_id root" "nonempty_text (member (JObject rs) ''name'') \<longleftrightarrow> sf_name root \<noteq> []"
    by (auto simp: read_folder_def bindE_ok_iff get_unsigned_member get_string_member nonempty_text_iff
        dest!: to_unsigned_number simp del: member.simps)
  with t True rs assms(2) read_files_raw [OF f] show ?thesis
    by (auto simp: raw_tree_def simp del: member.simps has_member.simps)
qed

lemma ExtractSnapshotContentIds_raw:
  assumes "ExtractSnapshotContentIds data = Inr ids"
  shows "ids = map fst (case data of None \<Rightarrow> [] | Some j \<Rightarrow> raw_tree j)"
proof (cases data)
  case (Some j)
  with assms obtain ty t where ty: "get_string j ''type'' [] = Inr ty"
    and t: "(if ty \<noteq> ''folder_tree'' then Inr None else read_tree j) = Inr t"
    and ids: "ids = (case t of None \<Rightarrow> [] | Some s \<Rightarrow> map sx_content_id (sn_files s))"
    by (auto simp: ExtractSnapshotContentIds_def ParseFolderTreeSnapshot_def bindE_ok_iff)
  show ?thesis
  proof (cases "ty = ''folder_tree''")
    case True
    with t ty read_tree_raw [of j t] Some ids show ?thesis by (auto simp: o_def split: option.splits)
  next
    case False
    with t ty Some ids show ?thesis by (auto simp: raw_tree_def)
  qed
qed (use assms in \<open>simp add: ExtractSnapshotContentIds_def ParseFolderTreeSnapshot_def\<close>)

section \<open>Snapshots are read back\<close>

definition storable_file :: "file_row \<Rightarrow> bool" where
  "storable_file f \<longleftrightarrow> f_id f > 0 \<and> f_folder_id f > 0 \<and> f_content_id f > 0 \<and> f_name f \<noteq> []"

lemma raw_file_json: "storable_file f \<Longrightarrow> raw_file (file_json f) = [(f_content_id f, f_size f)]"
  by (simp add: raw_file_def file_json_def storable_file_def nonempty_text_def)

lemma raw_files_json:
  "list_all storable_file xs \<Longrightarrow>
   concat (map raw_file (map file_json xs)) = map (\<lambda>f. (f_content_id f, f_size f)) xs"
  by (induction xs) (simp_all add: raw_file_json)

lemma raw_tree_snapshot:
  assumes "d_id (pl_root plan) > 0" and "d_name (pl_root plan) \<noteq> []" and "list_all storable_file (pl_files plan)"
  shows "raw_tree (BuildFolderSnapshot plan) = map (\<lambda>f. (f_content_id f, f_size f)) (pl_files plan)"
  using assms raw_files_json [of "pl_files plan"]
  by (simp add: raw_tree_def BuildFolderSnapshot_def folder_json_def get_string_def nonempty_text_def)

end
