(* ===== verification/Batch_Utils.thy ===== *)
theory Batch_Utils
  imports Disk_Prelude
begin

text \<open>
  Batching of large operations (src/src/utils/BatchUtils.hpp): cutting a vector into chunks and
  rendering parameter lists and identifier lists for SQL.  Positions are \<^verbatim>\<open>size_t\<close>, so the
  step of the loop wraps at 2^64; a chunk whose end lies before its begin has no defined
  meaning in C++.  The loop does not end for a chunk size of zero, hence the option type.
\<close>

definition DEFAULT_BATCH_CHUNK_SIZE :: nat where
  "DEFAULT_BATCH_CHUNK_SIZE = 500"

partial_function (option) chunk_from :: "'a list \<Rightarrow> nat \<Rightarrow> nat \<Rightarrow> 'a list list option" where
  "chunk_from items chunk_size i =
     (if i < length items
      then
        let next_i = (i + chunk_size) mod 2 ^ 64;
            last_i = min next_i (length items)
        in if last_i < i then None
           else
             Option.bind (chunk_from items chunk_size next_i) (\<lambda>chunks.
               Some (take (last_i - i) (drop i items) # chunks))
      else Some [])"

definition Chunk :: "'a list \<Rightarrow> nat \<Rightarrow> 'a list list option" where
  "Chunk items chunk_size = (if chunk_size = 0 then None else chunk_from items chunk_size 0)"

fun placeholders_from :: "nat \<Rightarrow> nat \<Rightarrow> string" where
  "placeholders_from start_index 0 = []"
| "placeholders_from start_index (Suc n) = '',$'' @ decimal start_index @ placeholders_from (start_index + 1) n"

definition BuildInPlaceholders :: "nat \<Rightarrow> nat \<Rightarrow> string" where
  "BuildInPlaceholders count start_index =
     (if count = 0 then [] else ''$'' @ decimal start_index @ placeholders_from (start_index + 1) (count - 1))"

fun numbers_from :: "nat list \<Rightarrow> string" where
  "numbers_from [] = []"
| "numbers_from (n # ns) = '','' @ decimal n @ numbers_from ns"

definition BuildSafeNumericInClause :: "nat list \<Rightarrow> string" where
  "BuildSafeNumericInClause ids = (case ids of [] \<Rightarrow> [] | n # ns \<Rightarrow> decimal n @ numbers_from ns)"

section \<open>Chunks\<close>

text \<open>The reference: cut off full chunks as long as there are items.\<close>

function batches :: "nat \<Rightarrow> 'a list \<Rightarrow> 'a list list" where
  "batches k xs = (if xs = [] \<or> k = 0 then [] else take k xs # batches k (drop k xs))"
  by pat_completeness auto
termination by (relation "measure (\<lambda>(_, xs). length xs)") auto

declare batches.simps [simp del]

lemma chunk_from_batches:
  assumes "0 < k" and "length items + k \<le> 2 ^ 64"
  shows "chunk_from items k i = Some (batches k (drop i items))"
  using assms
proof (induction "length items - i" arbitrary: i rule: less_induct)
  case less
  show ?case
  proof (cases "i < length items")
    case False
    then show ?thesis by (subst chunk_from.simps) (simp add: batches.simps)
  next
    case True
    have nowrap: "(i + k) mod 2 ^ 64 = i + k" using True less.prems by simp
    have "length items - (i + k) < length items - i" using True less.prems by simp
    from less.hyps [OF this less.prems]
    have IH: "chunk_from items k (i + k) = Some (batches k (drop (i + k) items))" .
    have cut: "take (min (i + k) (length items) - i) (drop i items) = take k (drop i items)"
      by (cases "i + k \<le> length items") (simp_all add: min_def)
    have b: "batches k (drop i items) = take k (drop i items) # batches k (drop (i + k) items)"
      using True less.prems(1) by (subst batches.simps) (simp add: add.commute)
    show ?thesis
      using True by (subst chunk_from.simps) (simp add: nowrap IH cut b Let_def del: power_numeral)
  qed
qed

lemma concat_batches: "0 < k \<Longrightarrow> concat (batches k xs) = xs"
  by (induction k xs rule: batches.induct) (subst batches.simps, auto)

lemma batches_sizes:
  "b \<in> set (batches k xs) \<Longrightarrow> b \<noteq> [] \<and> length b \<le> k"
proof (induction k xs rule: batches.induct)
  case (1 k xs)
  from 1(2) have "xs \<noteq> []" "k \<noteq> 0" and "b = take k xs \<or> b \<in> set (batches k (drop k xs))"
    by (subst (asm) batches.simps, simp split: if_splits)+
  with 1(1) show ?case by auto
qed

lemma length_batches: "0 < k \<Longrightarrow> length (batches k xs) = (length xs + k - 1) div k"
proof (induction k xs rule: batches.induct)
  case (1 k xs)
  show ?case
  proof (cases "xs = []")
    case True
    with 1(2) show ?thesis by (subst batches.simps) simp
  next
    case False
    with 1 have "length (batches k xs) = Suc ((length xs - k + k - 1) div k)"
      by (subst batches.simps) simp
    also have "\<dots> = (length xs + k - 1) div k"
    proof -
      obtain m where m: "length xs = Suc m" using False by (cases xs) simp_all
      have d: "(length xs + k - 1) div k = Suc (m div k)" using m 1(2) by (simp add: div_add_self2)
      show ?thesis
      proof (cases "length xs < k")
        case True
        with m have "(length xs - k + k - 1) div k = 0" "m div k = 0" by simp_all
        with d show ?thesis by simp
      next
        case False
        with m have "length xs - k + k - 1 = m" by simp
        with d show ?thesis by simp
      qed
    qed
    finally show ?thesis .
  qed
qed

section \<open>Lists for SQL\<close>

text \<open>Reading a comma separated list back.\<close>

fun split_commas :: "string \<Rightarrow> string list" where
  "split_commas [] = [[]]"
| "split_commas (c # cs) =
     (if c = CHR '','' then [] # split_commas cs
      else (case split_commas cs of [] \<Rightarrow> [[c]] | w # ws \<Rightarrow> (c # w) # ws))"

lemma split_commas_not_Nil: "split_commas s \<noteq> []"
  by (induction s) (auto split: list.splits)

lemma split_commas_word:
  "CHR '','' \<notin> set w \<Longrightarrow> split_commas (w @ '','' @ s) = w # split_commas s"
  "CHR '','' \<notin> set w \<Longrightarrow> split_commas w = [w]"
  by (induction w) (auto split: list.splits simp: split_commas_not_Nil)

lemma decimal_no_comma: "CHR '','' \<notin> set (decimal n)"
proof
  assume "CHR '','' \<in> set (decimal n)"
  then obtain d where d: "d < 10" "CHR '','' = digit d" using decimal_digits by blast
  then have "(of_char (CHR '','') :: nat) = 48 + d" using of_char_digit [OF d(1)] by simp
  then show False by simp
qed

lemma BuildSafeNumericInClause_Cons:
  "BuildSafeNumericInClause (n # ids) =
     decimal n @ (if ids = [] then [] else '','' @ BuildSafeNumericInClause ids)"
  by (cases ids) (simp_all add: BuildSafeNumericInClause_def)

lemma numeric_in_clause_reads_back:
  "ids \<noteq> [] \<Longrightarrow> map undecimal (split_commas (BuildSafeNumericInClause ids)) = ids"
proof (induction ids)
  case (Cons n ids)
  then show ?case
    by (cases "ids = []") (simp_all add: BuildSafeNumericInClause_Cons split_commas_word [simplified] decimal_no_comma)
qed simp

end
