(* ===== verification/Trash_Repository.thy ===== *)
theory Trash_Repository
  imports Trash_Data Folder_Repository Batch_Utils Upload_Lifecycle "HOL-Library.Multiset"
begin

text \<open>
  The persistence of files, folders and trash that moving items to the trash and back relies
  on: src/src/services/FolderRepository.cpp (subtrees and delete plans),
  src/src/services/FileRepository.cpp, src/src/services/TrashQuery.cpp and the statements of
  src/src/services/FileServiceUtils.cpp.

  A recursive query over a cyclic folder table does not end; the database gives up and the
  statement raises.  The iteration order of a \<^verbatim>\<open>std::unordered_map\<close> is a parameter, a function
  of the sequence in which the keys were inserted.
\<close>

section \<open>Identifier lists\<close>

definition normalize_ids :: "nat list \<Rightarrow> nat list" where
  "normalize_ids ids = remdups_adj (sort ids)"

lemma sorted_distinct_remdups_adj: "sorted xs \<Longrightarrow> distinct (remdups_adj xs)" for xs :: "nat list"
  by (induction xs rule: remdups_adj.induct) (auto simp: order.order_iff_strict)

lemma normalize_ids_props [simp]:
  "set (normalize_ids ids) = set ids" "distinct (normalize_ids ids)" "sorted (normalize_ids ids)"
  by (simp_all add: normalize_ids_def sorted_distinct_remdups_adj)

lemma normalize_ids_Nil_iff [simp]: "normalize_ids ids = [] \<longleftrightarrow> ids = []"
  by (metis normalize_ids_props(1) set_empty)

fun each_chunk :: "(nat list \<Rightarrow> ('w, 'r list) M) \<Rightarrow> nat list list \<Rightarrow> ('w, 'r list) M" where
  "each_chunk f [] = retM []"
| "each_chunk f (c # cs) = bindM (f c) (\<lambda>rs. bindM (each_chunk f cs) (\<lambda>rest. retM (rs @ rest)))"

definition hash_order_ok :: "(nat list \<Rightarrow> nat list) \<Rightarrow> bool" where
  "hash_order_ok hash_order \<longleftrightarrow> (\<forall>ks. distinct ks \<longrightarrow> mset (hash_order ks) = mset ks)"

section \<open>Folders\<close>

definition FindOwnedFolderForUpdate :: "'w client \<Rightarrow> nat \<Rightarrow> nat \<Rightarrow> ('w, folder_row option) M" where
  "FindOwnedFolderForUpdate E folder_id user_id =
     exec E (pureS (\<lambda>d. find_row (owned_folder folder_id user_id) (folders d)))"

definition FetchOwnedFoldersByIdsForUpdate :: "'w client \<Rightarrow> nat list \<Rightarrow> nat \<Rightarrow> ('w, folder_row list) M" where
  "FetchOwnedFoldersByIdsForUpdate E folder_ids user_id =
     each_chunk (\<lambda>chunk. exec E (pureS (\<lambda>d.
         sort_key d_id (filter (\<lambda>r. d_id r \<in> set chunk \<and> d_user_id r = user_id) (folders d)))))
       (batches DEFAULT_BATCH_CHUNK_SIZE (normalize_ids folder_ids))"

definition Folder_AcquireNameLock :: "'w client \<Rightarrow> nat \<Rightarrow> nat \<Rightarrow> string \<Rightarrow> ('w, unit) M" where
  "Folder_AcquireNameLock E user_id parent_id name = exec E (pureS (\<lambda>_. ()))"

definition Folder_NameExistsExcluding :: "'w client \<Rightarrow> string \<Rightarrow> nat \<Rightarrow> nat \<Rightarrow> nat \<Rightarrow> ('w, bool) M" where
  "Folder_NameExistsExcluding E name parent_id user_id excluded_folder_id =
     exec E (pureS (\<lambda>d. list_ex (\<lambda>r.
       d_user_id r = user_id \<and> d_parent_id r = parent_id \<and> d_name r = name \<and> d_id r \<noteq> excluded_folder_id) (folders d)))"

text \<open>
  The recursive query: the rows of a level, each tagged with the root it was reached from, and
  their children; the number of folders bounds the levels of a finite tree.
\<close>

definition next_level :: "folder_row list \<Rightarrow> nat \<Rightarrow> (folder_row \<times> nat) list \<Rightarrow> (folder_row \<times> nat) list" where
  "next_level ds user_id lvl =
     concat (map (\<lambda>(ft, root_id).
       map (\<lambda>f. (f, root_id)) (filter (\<lambda>f. d_parent_id f = d_id ft \<and> d_user_id f = user_id) ds)) lvl)"

fun folder_levels :: "nat \<Rightarrow> folder_row list \<Rightarrow> nat \<Rightarrow> (folder_row \<times> nat) list \<Rightarrow> (folder_row \<times> nat) list option" where
  "folder_levels 0 ds user_id lvl = (if lvl = [] then Some [] else None)"
| "folder_levels (Suc n) ds user_id lvl =
     (if lvl = [] then Some []
      else map_option (\<lambda>rest. lvl @ rest) (folder_levels n ds user_id (next_level ds user_id lvl)))"

definition folder_tree :: "folder_row list \<Rightarrow> nat \<Rightarrow> nat list \<Rightarrow> (folder_row \<times> nat) list option" where
  "folder_tree ds user_id ids =
     map_option (sort_key (\<lambda>(r, root_id). (root_id, d_depth r, d_id r)))
       (folder_levels (length ds) ds user_id
         (map (\<lambda>r. (r, d_id r)) (filter (\<lambda>r. d_id r \<in> set ids \<and> d_user_id r = user_id) ds)))"

definition fetch_tree_stmt :: "nat list \<Rightarrow> nat \<Rightarrow> ('w, (folder_row \<times> nat) list) stmt" where
  "fetch_tree_stmt ids user_id d =
     (case folder_tree (folders d) user_id ids of
        None \<Rightarrow> (Inl DbException, d)
      | Some rows \<Rightarrow> (Inr rows, d))"

section \<open>Files\<close>

definition File_AcquireNameLock :: "'w client \<Rightarrow> nat \<Rightarrow> nat \<Rightarrow> string \<Rightarrow> ('w, unit) M" where
  "File_AcquireNameLock E user_id folder_id name = exec E (pureS (\<lambda>_. ()))"

definition File_NameExistsExcluding :: "'w client \<Rightarrow> string \<Rightarrow> nat \<Rightarrow> nat \<Rightarrow> nat \<Rightarrow> ('w, bool) M" where
  "File_NameExistsExcluding E name folder_id user_id excluded_file_id =
     exec E (pureS (\<lambda>d. list_ex (\<lambda>f. named_file user_id folder_id name f \<and> f_id f \<noteq> excluded_file_id) (files d)))"

definition FetchOwnedFilesByIdsForUpdate :: "'w client \<Rightarrow> nat list \<Rightarrow> nat \<Rightarrow> ('w, file_row list) M" where
  "FetchOwnedFilesByIdsForUpdate E file_ids user_id =
     each_chunk (\<lambda>chunk. exec E (pureS (\<lambda>d.
         sort_key f_id (filter (\<lambda>f. f_id f \<in> set chunk \<and> f_user_id f = user_id) (files d)))))
       (batches DEFAULT_BATCH_CHUNK_SIZE (normalize_ids file_ids))"

definition FetchFilesInFolders :: "'w client \<Rightarrow> nat list \<Rightarrow> nat \<Rightarrow> ('w, file_row list) M" where
  "FetchFilesInFolders E folder_ids user_id =
     (if folder_ids = [] then retM []
      else exec E (pureS (\<lambda>d. sort_key (\<lambda>f. (f_folder_id f, f_id f))
        (filter (\<lambda>f. f_user_id f = user_id \<and> f_folder_id f \<in> set folder_ids) (files d)))))"

section \<open>Delete plans\<close>

text \<open>Plans are kept in the order in which their roots were first seen.\<close>

type_synonym plans = "(nat \<times> FolderDeletePlan) list"

fun add_folder :: "folder_row \<Rightarrow> nat \<Rightarrow> plans \<Rightarrow> plans" where
  "add_folder r root_id [] = [(root_id, \<lparr>pl_root = r, pl_folders = [r], pl_files = [], pl_item_size = 0\<rparr>)]"
| "add_folder r root_id ((k, p) # ps) =
     (if k = root_id then (k, p\<lparr>pl_folders := pl_folders p @ [r]\<rparr>) # ps else (k, p) # add_folder r root_id ps)"

fun add_folders :: "(folder_row \<times> nat) list \<Rightarrow> plans \<Rightarrow> plans" where
  "add_folders [] ps = ps"
| "add_folders ((r, root_id) # rows) ps = add_folders rows (add_folder r root_id ps)"

definition plan_folder_ids :: "FolderDeletePlan \<Rightarrow> nat list" where
  "plan_folder_ids p = map d_id (pl_folders p)"

definition add_file :: "file_row \<Rightarrow> FolderDeletePlan \<Rightarrow> FolderDeletePlan" where
  "add_file f p = p\<lparr>pl_files := pl_files p @ [f], pl_item_size := pl_item_size p + f_size f\<rparr>"

text \<open>A file joins the plan of the first root, in iteration order, whose folders hold it.\<close>

definition assign_file :: "nat list \<Rightarrow> file_row \<Rightarrow> plans \<Rightarrow> plans" where
  "assign_file roots f ps =
     (case find (\<lambda>k. case map_of ps k of None \<Rightarrow> False | Some p \<Rightarrow> f_folder_id f \<in> set (plan_folder_ids p)) roots of
        None \<Rightarrow> ps
      | Some k \<Rightarrow> if k = 0 then ps else map (\<lambda>(k', p). (k', if k' = k then add_file f p else p)) ps)"

definition FetchBatchFolderDeletePlans :: "(nat list \<Rightarrow> nat list) \<Rightarrow> 'w client \<Rightarrow> nat list \<Rightarrow> nat \<Rightarrow> ('w, plans) M" where
  "FetchBatchFolderDeletePlans hash_order E folder_ids user_id =
     (if folder_ids = [] then retM []
      else
        bindM (exec E (fetch_tree_stmt folder_ids user_id)) (\<lambda>rows.
          let plans = add_folders rows []; all_folder_ids = normalize_ids (map (\<lambda>(r, _). d_id r) rows) in
          if all_folder_ids = [] then retM plans
          else
            bindM (FetchFilesInFolders E all_folder_ids user_id) (\<lambda>found.
              retM (fold (assign_file (hash_order (hash_order (map fst plans)))) found plans))))"

definition FilterCoveredFolderIds :: "nat list \<Rightarrow> plans \<Rightarrow> nat list" where
  "FilterCoveredFolderIds requested_folder_ids plans =
     filter (\<lambda>i. map_of plans i \<noteq> None \<and>
                 \<not> list_ex (\<lambda>(k, p). k \<noteq> i \<and> i \<in> set (plan_folder_ids p)) plans) requested_folder_ids"

definition CollectCoveredFileIds :: "nat list \<Rightarrow> plans \<Rightarrow> nat list" where
  "CollectCoveredFileIds top_level_folder_ids plans =
     concat (map (\<lambda>i. case map_of plans i of None \<Rightarrow> [] | Some p \<Rightarrow> map f_id (pl_files p)) top_level_folder_ids)"

section \<open>Trash rows\<close>

record TrashInsertItem =
  ti_item_type :: string
  ti_item_id :: nat
  ti_item_name :: string
  ti_item_size :: nat
  ti_original_folder_id :: nat
  ti_original_path :: string
  ti_content_id :: "nat option"
  ti_item_data :: json

definition trash_retention :: int where
  "trash_retention = 30 * 24 * 60 * 60"

definition new_trash_row :: "'w db \<Rightarrow> nat \<Rightarrow> nat \<Rightarrow> TrashInsertItem \<Rightarrow> trash_row" where
  "new_trash_row d user_id i item =
     \<lparr>tr_id = i, tr_user_id = user_id, tr_item_type = ti_item_type item, tr_item_id = ti_item_id item,
      tr_item_name = ti_item_name item, tr_item_size = ti_item_size item, tr_content_id = ti_content_id item,
      tr_original_folder_id = ti_original_folder_id item, tr_original_path = ti_original_path item,
      tr_item_data = Some (ti_item_data item), tr_expires_at = now d + trash_retention\<rparr>"

fun new_trash_rows :: "'w db \<Rightarrow> nat \<Rightarrow> nat \<Rightarrow> TrashInsertItem list \<Rightarrow> trash_row list" where
  "new_trash_rows d user_id n [] = []"
| "new_trash_rows d user_id n (item # items) =
     new_trash_row d user_id (Suc n) item # new_trash_rows d user_id (Suc n) items"

definition insert_trash_stmt :: "TrashInsertItem list \<Rightarrow> nat \<Rightarrow> ('w, unit) stmt" where
  "insert_trash_stmt items user_id d =
     (if user_id \<notin> u_id ` set (users d) \<or>
         list_ex (\<lambda>item. ti_item_type item \<notin> {''file'', ''folder''} \<or>
           (case ti_content_id item of None \<Rightarrow> False | Some c \<Rightarrow> c \<notin> fc_id ` set (file_contents d))) items
      then (Inl DbException, d)
      else (Inr (), d\<lparr>trash := trash d @ new_trash_rows d user_id (seq_trash d) items,
                      seq_trash := seq_trash d + length items\<rparr>))"

definition InsertTrashRecords :: "'w client \<Rightarrow> TrashInsertItem list \<Rightarrow> nat \<Rightarrow> ('w, bool) M" where
  "InsertTrashRecords E trash_items user_id =
     (if trash_items = [] then retM True
      else catchDb (bindM (exec E (insert_trash_stmt trash_items user_id)) (\<lambda>_. retM True)) (retM False))"

text \<open>The foreign key of completed uploads lets go of a deleted file.\<close>

definition forget_file :: "task_row \<Rightarrow> task_row" where
  "forget_file r = r\<lparr>t_completed_file_id := None\<rparr>"

definition refers_to :: "nat set \<Rightarrow> task_row \<Rightarrow> bool" where
  "refers_to ids r \<longleftrightarrow> (case t_completed_file_id r of None \<Rightarrow> False | Some f \<Rightarrow> f \<in> ids)"

definition delete_files_stmt :: "nat list \<Rightarrow> ('w, nat) stmt" where
  "delete_files_stmt ids d =
     (let gone = f_id ` set (filter (\<lambda>f. f_id f \<in> set ids) (files d)) in
      (Inr (affected (\<lambda>f. f_id f \<in> set ids) (files d)),
       d\<lparr>files := filter (\<lambda>f. f_id f \<notin> set ids) (files d),
         upload_tasks := update_where (refers_to gone) forget_file (upload_tasks d)\<rparr>))"

definition DeleteFilesByIds :: "'w client \<Rightarrow> nat list \<Rightarrow> ('w, nat) M" where
  "DeleteFilesByIds E file_ids =
     (if file_ids = [] then retM 0 else catchDb (exec E (delete_files_stmt file_ids)) (retM 0))"

definition delete_folders_stmt :: "nat list \<Rightarrow> ('w, nat) stmt" where
  "delete_folders_stmt ids d =
     (Inr (affected (\<lambda>r. d_id r \<in> set ids) (folders d)),
      d\<lparr>folders := filter (\<lambda>r. d_id r \<notin> set ids) (folders d)\<rparr>)"

definition DeleteFoldersByIds :: "'w client \<Rightarrow> nat list \<Rightarrow> ('w, nat) M" where
  "DeleteFoldersByIds E folder_ids =
     (if folder_ids = [] then retM 0 else catchDb (exec E (delete_folders_stmt folder_ids)) (retM 0))"

section \<open>Trash queries\<close>

text \<open>
  \<^verbatim>\<open>TrashLifecycleRecord\<close> carries the columns of the row but for its timestamps; rows stand for it.
\<close>

definition CountForUser :: "'w client \<Rightarrow> nat \<Rightarrow> ('w, nat) M" where
  "CountForUser E user_id = exec E (pureS (\<lambda>d. affected (\<lambda>r. tr_user_id r = user_id) (trash d)))"

definition PrefetchLifecycleRowsByIds :: "'w client \<Rightarrow> nat list \<Rightarrow> ('w, trash_row list) M" where
  "PrefetchLifecycleRowsByIds E trash_ids =
     each_chunk (\<lambda>chunk. exec E (pureS (\<lambda>d. filter (\<lambda>r. tr_id r \<in> set chunk) (trash d))))
       (batches DEFAULT_BATCH_CHUNK_SIZE trash_ids)"

definition owned_trash :: "nat \<Rightarrow> nat \<Rightarrow> trash_row \<Rightarrow> bool" where
  "owned_trash trash_id user_id r \<longleftrightarrow> tr_id r = trash_id \<and> tr_user_id r = user_id"

definition FetchLifecycleRowForUpdate :: "'w client \<Rightarrow> nat \<Rightarrow> nat \<Rightarrow> ('w, trash_row option) M" where
  "FetchLifecycleRowForUpdate E trash_id user_id =
     exec E (pureS (\<lambda>d. find_row (owned_trash trash_id user_id) (trash d)))"

definition FetchLifecycleRowsForUser :: "'w client \<Rightarrow> nat \<Rightarrow> ('w, trash_row list) M" where
  "FetchLifecycleRowsForUser E user_id = exec E (pureS (\<lambda>d. filter (\<lambda>r. tr_user_id r = user_id) (trash d)))"

definition FetchExpiredLifecycleBatchAfterId :: "'w client \<Rightarrow> nat \<Rightarrow> nat \<Rightarrow> ('w, trash_row list) M" where
  "FetchExpiredLifecycleBatchAfterId E last_seen_id limit =
     exec E (pureS (\<lambda>d. take limit (sort_key tr_id
       (filter (\<lambda>r. tr_expires_at r < now d \<and> tr_id r > last_seen_id) (trash d)))))"

definition delete_trash_stmt :: "nat \<Rightarrow> nat \<Rightarrow> string \<Rightarrow> ('w, nat) stmt" where
  "delete_trash_stmt trash_id user_id item_type d =
     (let p = (\<lambda>r. owned_trash trash_id user_id r \<and> tr_item_type r = item_type) in
      (Inr (affected p (trash d)), d\<lparr>trash := filter (\<lambda>r. \<not> p r) (trash d)\<rparr>))"

definition purge_trash_stmt :: "nat list \<Rightarrow> ('w, nat) stmt" where
  "purge_trash_stmt ids d =
     (Inr (affected (\<lambda>r. tr_id r \<in> set ids) (trash d)), d\<lparr>trash := filter (\<lambda>r. tr_id r \<notin> set ids) (trash d)\<rparr>)"

section \<open>Inserting through the mapper\<close>

text \<open>The mapper's insert raises on a taken name and on missing references.\<close>

definition insert_file_stmt :: "file_row \<Rightarrow> ('w, file_row) stmt" where
  "insert_file_stmt f d =
     (if list_ex (named_file (f_user_id f) (f_folder_id f) (f_name f)) (files d) \<or>
         f_user_id f \<notin> u_id ` set (users d) \<or> f_content_id f \<notin> fc_id ` set (file_contents d)
      then (Inl DbException, d)
      else (let f' = f\<lparr>f_id := Suc (seq_files d), f_created_at := now d\<rparr> in
            (Inr f', d\<lparr>files := files d @ [f'], seq_files := Suc (seq_files d)\<rparr>)))"

definition insert_folder_stmt :: "folder_row \<Rightarrow> ('w, folder_row) stmt" where
  "insert_folder_stmt r d =
     (if list_ex (\<lambda>x. d_user_id x = d_user_id r \<and> d_parent_id x = d_parent_id r \<and> d_name x = d_name r) (folders d) \<or>
         d_user_id r \<notin> u_id ` set (users d)
      then (Inl DbException, d)
      else (let r' = r\<lparr>d_id := Suc (seq_folders d)\<rparr> in
            (Inr r', d\<lparr>folders := folders d @ [r'], seq_folders := Suc (seq_folders d)\<rparr>)))"

end
