(* ===== verification/Trash_Service.thy ===== *)
theory Trash_Service
  imports Trash_Repository
begin

text \<open>
  The trash (src/src/services/TrashService.cpp): moving files and folder trees there, restoring
  them, and deleting them for good, which is where quota and content references are released.
  Moving and restoring run in a \<^verbatim>\<open>TransactionRunner\<close>; the permanent deletion opens and
  commits its own transaction and raises on failure.  The Redis file-list cache and the
  iteration order of hash maps are parameters.  Sums of item sizes are parts of the bigint
  column \<^verbatim>\<open>storage_used\<close> and are kept as unbounded numbers.
\<close>

record 'w trash_service =
  ts_invalidate_file_list :: "nat \<Rightarrow> 'w \<Rightarrow> 'w"
  ts_hash_order :: "nat list \<Rightarrow> nat list"

definition invalidate_list :: "'w client \<Rightarrow> 'w trash_service \<Rightarrow> nat \<Rightarrow> ('w, unit) M" where
  "invalidate_list E S user_id = callStore E (\<lambda>w. ((), ts_invalidate_file_list S user_id w))"

section \<open>Names\<close>

text \<open>\<^verbatim>\<open>rfind\<close>: the last position at or before \<open>i\<close> where the pattern occurs.\<close>

fun rfind_from :: "string \<Rightarrow> string \<Rightarrow> nat \<Rightarrow> nat option" where
  "rfind_from pat s 0 = (if take (length pat) s = pat then Some 0 else None)"
| "rfind_from pat s (Suc i) =
     (if take (length pat) (drop (Suc i) s) = pat then Some (Suc i) else rfind_from pat s i)"

definition rfind :: "string \<Rightarrow> string \<Rightarrow> nat option" where
  "rfind pat s = rfind_from pat s (length s)"

definition paren_before :: "string \<Rightarrow> nat \<Rightarrow> bool" where
  "paren_before filename pos \<longleftrightarrow> (case rfind '' ('' filename of None \<Rightarrow> False | Some p \<Rightarrow> p < pos)"

definition ExtractExtension :: "string \<Rightarrow> string" where
  "ExtractExtension filename =
     (case rfind ''.'' filename of
        None \<Rightarrow> ''''
      | Some pos \<Rightarrow>
          if pos = 0 \<or> pos = length filename - 1 then ''''
          else if paren_before filename pos then ''''
          else drop (pos + 1) filename)"

definition ExtractBaseName :: "string \<Rightarrow> string" where
  "ExtractBaseName filename =
     (case rfind ''.'' filename of
        None \<Rightarrow> filename
      | Some pos \<Rightarrow>
          if pos = 0 then filename
          else if paren_before filename pos then filename
          else take pos filename)"

section \<open>Moving to the trash\<close>

record MoveToTrashResult =
  mr_deleted_count :: nat
  mr_deleted_file_count :: nat
  mr_deleted_folder_count :: nat
  mr_removed_file_ids :: "nat list"
  mr_removed_folder_ids :: "nat list"

definition discovered_folder_ids :: "nat list \<Rightarrow> plans \<Rightarrow> nat list" where
  "discovered_folder_ids top_level_folder_ids plans =
     normalize_ids (concat (map (\<lambda>i. case map_of plans i of None \<Rightarrow> [] | Some p \<Rightarrow> plan_folder_ids p)
       top_level_folder_ids))"

text \<open>
  Rounds of planning and locking until a plan holds no folder that is not locked yet.
\<close>

fun lock_folders ::
  "nat \<Rightarrow> (nat list \<Rightarrow> nat list) \<Rightarrow> 'w client \<Rightarrow> nat list \<Rightarrow> nat \<Rightarrow> nat list \<Rightarrow> ('w, plans \<times> nat list) M" where
  "lock_folders 0 hash_order T requested user_id locked = throwM (RuntimeError ''lock rounds'')"
| "lock_folders (Suc n) hash_order T requested user_id locked =
     bindM (FetchBatchFolderDeletePlans hash_order T requested user_id) (\<lambda>plans.
       let top_level = FilterCoveredFolderIds requested plans;
           to_lock = filter (\<lambda>i. i \<notin> set locked) (discovered_folder_ids top_level plans)
       in if to_lock = [] then retM (plans, top_level)
          else
            bindM (FetchOwnedFoldersByIdsForUpdate T to_lock user_id) (\<lambda>_.
              lock_folders n hash_order T requested user_id (locked @ to_lock)))"

text \<open>The plans of the folders to delete get the files that were locked.\<close>

definition replan :: "nat list \<Rightarrow> file_row list \<Rightarrow> plans \<Rightarrow> plans" where
  "replan top_level locked_files plans =
     map (\<lambda>(k, p).
       if k \<in> set top_level
       then (let held = filter (\<lambda>f. f_folder_id f \<in> set (plan_folder_ids p)) locked_files in
             (k, p\<lparr>pl_files := held, pl_item_size := sum_list (map f_size held)\<rparr>))
       else (k, p)) plans"

definition file_item :: "file_row \<Rightarrow> TrashInsertItem" where
  "file_item f =
     \<lparr>ti_item_type = ''file'', ti_item_id = f_id f, ti_item_name = f_name f, ti_item_size = f_size f,
      ti_original_folder_id = f_folder_id f, ti_original_path = f_path f, ti_content_id = Some (f_content_id f),
      ti_item_data = JObject [(''content_id'', JUInt (f_content_id f)), (''mime_type'', JString (f_mime_type f))]\<rparr>"

definition folder_item :: "FolderDeletePlan \<Rightarrow> TrashInsertItem" where
  "folder_item p =
     \<lparr>ti_item_type = ''folder'', ti_item_id = d_id (pl_root p), ti_item_name = d_name (pl_root p),
      ti_item_size = pl_item_size p, ti_original_folder_id = d_parent_id (pl_root p),
      ti_original_path = d_path (pl_root p), ti_content_id = None, ti_item_data = BuildFolderSnapshot p\<rparr>"

fun apply_deltas :: "'w client \<Rightarrow> nat \<Rightarrow> (nat \<times> int) list \<Rightarrow> ('w, unit Result) M" where
  "apply_deltas T user_id [] = okR ()"
| "apply_deltas T user_id ((parent_id, delta) # rest) =
     bindM (ApplyItemCountDelta T parent_id user_id delta) (\<lambda>parent_updated.
       if \<not> parent_updated then failR (ErrorInfo2 InternalError ''Failed to delete items'')
       else apply_deltas T user_id rest)"

definition parent_deltas :: "nat list \<Rightarrow> (nat \<times> int) list" where
  "parent_deltas parents =
     (let counted = filter (\<lambda>i. i > 0) parents in
      map (\<lambda>i. (i, - int (count_list counted i))) (normalize_ids counted))"

text \<open>Links of shares to the moved items go; a share that has lost its last link is cancelled.\<close>

definition linked :: "string \<Rightarrow> nat list \<Rightarrow> share_link_row \<Rightarrow> bool" where
  "linked item_type ids l \<longleftrightarrow> sl_item_type l = item_type \<and> sl_item_id l \<in> set ids"

definition unlink :: "'w client \<Rightarrow> string \<Rightarrow> nat list \<Rightarrow> ('w, nat list) M" where
  "unlink T item_type chunk =
     bindM (exec T (pureS (\<lambda>d. remdups (map sl_share_id (filter (linked item_type chunk) (share_files d)))))) (\<lambda>ids.
     bindM (exec T (updateS (\<lambda>d. affected (linked item_type chunk) (share_files d))
       (\<lambda>d. d\<lparr>share_files := filter (\<lambda>l. \<not> linked item_type chunk l) (share_files d)\<rparr>))) (\<lambda>_.
       retM ids))"

definition cancel_empty :: "'w client \<Rightarrow> nat list \<Rightarrow> ('w, nat list) M" where
  "cancel_empty T chunk =
     bindM (exec T (updateS (\<lambda>_. ()) (\<lambda>d. d\<lparr>shares :=
       update_where (\<lambda>s. sh_status s = 1 \<and> sh_id s \<in> set chunk \<and> \<not> list_ex (\<lambda>l. sl_share_id l = sh_id s) (share_files d))
         (\<lambda>s. s\<lparr>sh_status := 0\<rparr>) (shares d)\<rparr>))) (\<lambda>_. retM [])"

definition CleanupShareLinksForMovedItems :: "'w client \<Rightarrow> nat list \<Rightarrow> nat list \<Rightarrow> ('w, unit) M" where
  "CleanupShareLinksForMovedItems T file_ids folder_ids =
     bindM (each_chunk (unlink T ''file'') (batches DEFAULT_BATCH_CHUNK_SIZE file_ids)) (\<lambda>by_file.
     bindM (each_chunk (unlink T ''folder'') (batches DEFAULT_BATCH_CHUNK_SIZE folder_ids)) (\<lambda>by_folder.
     bindM (each_chunk (cancel_empty T) (batches DEFAULT_BATCH_CHUNK_SIZE (normalize_ids (by_file @ by_folder)))) (\<lambda>_.
       retM ())))"

definition move_tx ::
  "(nat list \<Rightarrow> nat list) \<Rightarrow> nat list \<Rightarrow> nat list \<Rightarrow> nat \<Rightarrow> 'w client \<Rightarrow> ('w, MoveToTrashResult Result) M" where
  "move_tx hash_order requested_file_ids requested_folder_ids user_id T =
     bindM (lock_folders 2 hash_order T requested_folder_ids user_id []) (\<lambda>(found_plans, top_level).
     bindM (FetchOwnedFilesByIdsForUpdate T
              (normalize_ids (requested_file_ids @ CollectCoveredFileIds top_level found_plans)) user_id) (\<lambda>locked_files.
       let plans = replan top_level locked_files found_plans;
           covered_file_ids = CollectCoveredFileIds top_level plans;
           explicit_files = List.map_filter (\<lambda>i. find_row (\<lambda>f. f_id f = i) locked_files)
             (filter (\<lambda>i. i \<notin> set covered_file_ids) requested_file_ids);
           top_plans = List.map_filter (map_of plans) top_level;
           trash_items = map file_item explicit_files @ map folder_item top_plans;
           parents = map f_folder_id explicit_files @ map (\<lambda>p. d_parent_id (pl_root p)) top_plans;
           file_ids_to_delete = normalize_ids (map f_id explicit_files @ concat (map (\<lambda>p. map f_id (pl_files p)) top_plans));
           folder_ids_to_delete = normalize_ids (concat (map plan_folder_ids top_plans));
           failed = ErrorInfo2 InternalError ''Failed to delete items''
       in if trash_items = []
          then failR (ErrorInfo2 FileNotFound ''No deletable files or folders found for the given IDs'')
          else
            bindM (InsertTrashRecords T trash_items user_id) (\<lambda>insert_ok.
            if \<not> insert_ok then failR failed
            else
              bindR (apply_deltas T user_id (parent_deltas parents)) (\<lambda>_.
              bindM (CleanupShareLinksForMovedItems T file_ids_to_delete folder_ids_to_delete) (\<lambda>_.
              bindM (DeleteFilesByIds T file_ids_to_delete) (\<lambda>deleted_file_rows.
              if deleted_file_rows \<noteq> length file_ids_to_delete then failR failed
              else
                bindM (DeleteFoldersByIds T folder_ids_to_delete) (\<lambda>deleted_folder_rows.
                if deleted_folder_rows \<noteq> length folder_ids_to_delete then failR failed
                else okR \<lparr>mr_deleted_count = length explicit_files + length top_plans,
                           mr_deleted_file_count = length explicit_files, mr_deleted_folder_count = length top_plans,
                           mr_removed_file_ids = file_ids_to_delete, mr_removed_folder_ids = folder_ids_to_delete\<rparr>)))))))"

definition MoveToTrash ::
  "'w client \<Rightarrow> 'w trash_service \<Rightarrow> nat list \<Rightarrow> nat list \<Rightarrow> nat \<Rightarrow> ('w, MoveToTrashResult Result) M" where
  "MoveToTrash E S file_ids folder_ids user_id =
     bindM (Run E (ErrorInfo1 InternalError)
              (move_tx (ts_hash_order S) (normalize_ids file_ids) (normalize_ids folder_ids) user_id)) (\<lambda>tx_result.
       case tx_result of
         Inl e \<Rightarrow> if err_code e = FileNotFound then failR e
                  else failR (ErrorInfo2 InternalError ''Failed to delete items'')
       | Inr result \<Rightarrow> bindM (invalidate_list E S user_id) (\<lambda>_. okR result))"

section \<open>Restoring\<close>

definition trash_not_found :: ErrorInfo where
  "trash_not_found = ErrorInfo2 ResourceNotFound ''Trash item not found''"

definition filename_occupied :: ErrorInfo where
  "filename_occupied = ErrorInfo2 ResourceConflict ''Restore filename occupied''"

definition folder_name_occupied :: ErrorInfo where
  "folder_name_occupied = ErrorInfo2 ResourceConflict ''Restore folder name occupied''"

text \<open>
  Where an item goes: its original folder if the user still owns it, the root otherwise.  The
  name lock is taken on the folder that was found first.
\<close>

definition locate_target ::
  "'w client \<Rightarrow> (nat \<Rightarrow> ('w, unit) M) \<Rightarrow> nat \<Rightarrow> nat \<Rightarrow> ('w, nat \<times> FolderLocation) M" where
  "locate_target T name_lock original_folder_id user_id =
     bindM (if original_folder_id > 0
            then bindM (FindOwnedFolder T original_folder_id user_id) (\<lambda>r.
                   retM (if r = None then 0 else original_folder_id))
            else retM original_folder_id) (\<lambda>target.
     bindM (name_lock target) (\<lambda>_.
       if target > 0
       then
         bindM (FindOwnedFolderForUpdate T target user_id) (\<lambda>parent.
           case parent of
             Some r \<Rightarrow> retM (target, \<lparr>loc_path = d_path r, loc_depth = d_depth r\<rparr>)
           | None \<Rightarrow> bindM (name_lock 0) (\<lambda>_. retM (0, \<lparr>loc_path = ''/'', loc_depth = 0\<rparr>)))
       else retM (target, \<lparr>loc_path = ''/'', loc_depth = 0\<rparr>)))"

text \<open>One more item in the target, and the trash row goes.\<close>

definition leave_trash :: "'w client \<Rightarrow> ErrorInfo \<Rightarrow> nat \<Rightarrow> trash_row \<Rightarrow> nat \<Rightarrow> string \<Rightarrow> 'a \<Rightarrow> ('w, 'a Result) M" where
  "leave_trash T failed target item user_id item_type v =
     bindM (if target > 0 then ApplyItemCountDelta T target user_id 1 else retM True) (\<lambda>parent_updated.
       if \<not> parent_updated then failR failed
       else
         bindM (exec T (delete_trash_stmt (tr_id item) user_id item_type)) (\<lambda>n.
           if n \<noteq> 1 then failR failed else okR v))"

definition candidate_filename :: "string \<Rightarrow> nat \<Rightarrow> string" where
  "candidate_filename name i =
     (if i > 0
      then ExtractBaseName name @ '' ('' @ decimal i @ '')'' @
           (if ExtractExtension name \<noteq> '''' then ''.'' @ ExtractExtension name else '''')
      else name)"

definition restored_mime :: "json option \<Rightarrow> exn + string" where
  "restored_mime item_data =
     get_string (case item_data of None \<Rightarrow> JNull | Some j \<Rightarrow> j) ''mime_type'' ''application/octet-stream''"

definition restore_file_tx :: "nat \<Rightarrow> nat \<Rightarrow> nat \<Rightarrow> 'w client \<Rightarrow> ('w, (nat \<times> string) Result) M" where
  "restore_file_tx trash_id user_id candidate_index T =
     bindM (FetchLifecycleRowForUpdate T trash_id user_id) (\<lambda>locked.
       case locked of
         None \<Rightarrow> failR trash_not_found
       | Some item \<Rightarrow>
           if tr_item_type item \<noteq> ''file'' then failR trash_not_found
           else (case ResolveRequiredContentId (tr_content_id item) (tr_item_data item) of
             Inl e \<Rightarrow> failR e
           | Inr (content_id, _) \<Rightarrow>
               let restored_name = candidate_filename (tr_item_name item) candidate_index in
               bindM (locate_target T (\<lambda>folder. File_AcquireNameLock T user_id folder restored_name)
                        (tr_original_folder_id item) user_id) (\<lambda>(target, loc).
               bindM (File_NameExistsExcluding T restored_name target user_id 0) (\<lambda>taken.
                 if taken then failR filename_occupied
                 else
                   bindM (lift_exn (restored_mime (tr_item_data item))) (\<lambda>mime_type.
                   bindM (exec T (insert_file_stmt
                       \<lparr>f_id = 0, f_user_id = user_id, f_content_id = content_id, f_folder_id = target,
                        f_name = restored_name, f_extension = ExtractExtension restored_name,
                        f_size = tr_item_size item, f_mime_type = mime_type,
                        f_path = loc_path loc @ restored_name, f_is_favorite = False,
                        f_download_count = 0, f_created_at = 0\<rparr>)) (\<lambda>inserted.
                     leave_trash T (ErrorInfo2 InternalError ''Failed to restore file'') target item user_id ''file''
                       (f_id inserted, loc_path loc @ restored_name)))))))"

text \<open>The folders of a snapshot that were created so far: old id, new id and new path.\<close>

type_synonym created = "(nat \<times> nat \<times> string) list"

fun restore_pass ::
  "'w client \<Rightarrow> nat \<Rightarrow> nat \<Rightarrow> nat \<Rightarrow> SnapshotFolder list \<Rightarrow> created \<Rightarrow> ('w, created \<times> SnapshotFolder list) M" where
  "restore_pass T user_id root_depth folder_depth [] m = retM (m, [])"
| "restore_pass T user_id root_depth folder_depth (x # xs) m =
     (case map_of m (sf_parent_id x) of
        None \<Rightarrow>
          bindM (restore_pass T user_id root_depth folder_depth xs m) (\<lambda>(m', rest). retM (m', x # rest))
      | Some (parent_id, parent_path) \<Rightarrow>
          let child_path = parent_path @ sf_name x @ ''/'';
              depth_delta = (if sf_depth x > root_depth then sf_depth x - root_depth else 1)
          in bindM (exec T (insert_folder_stmt
                 \<lparr>d_id = 0, d_user_id = user_id, d_parent_id = parent_id, d_name = sf_name x, d_path = child_path,
                  d_depth = folder_depth + depth_delta, d_item_count = int (sf_item_count x)\<rparr>)) (\<lambda>inserted.
               restore_pass T user_id root_depth folder_depth xs ((sf_id x, d_id inserted, child_path) # m)))"

text \<open>Every round creates at least one folder, so their number bounds the rounds.\<close>

fun restore_rounds ::
  "nat \<Rightarrow> 'w client \<Rightarrow> nat \<Rightarrow> nat \<Rightarrow> nat \<Rightarrow> SnapshotFolder list \<Rightarrow> created \<Rightarrow> ('w, created Result) M" where
  "restore_rounds n T user_id root_depth folder_depth remaining m =
     (if remaining = [] then okR m
      else (case n of
        0 \<Rightarrow> throwM (RuntimeError ''restore rounds'')
      | Suc n' \<Rightarrow>
          bindM (restore_pass T user_id root_depth folder_depth remaining m) (\<lambda>(m', rest).
            if length rest = length remaining then failR (ErrorInfo2 InternalError ''Failed to restore folder'')
            else restore_rounds n' T user_id root_depth folder_depth rest m')))"

fun restore_files :: "'w client \<Rightarrow> nat \<Rightarrow> created \<Rightarrow> SnapshotFile list \<Rightarrow> ('w, unit Result) M" where
  "restore_files T user_id m [] = okR ()"
| "restore_files T user_id m (x # xs) =
     (case map_of m (sx_folder_id x) of
        None \<Rightarrow> failR (ErrorInfo2 InternalError ''Failed to restore folder'')
      | Some (folder_id, path) \<Rightarrow>
          bindM (exec T (insert_file_stmt
              \<lparr>f_id = 0, f_user_id = user_id, f_content_id = sx_content_id x, f_folder_id = folder_id,
               f_name = sx_name x, f_extension = sx_extension x, f_size = sx_size x,
               f_mime_type = sx_mime_type x, f_path = path @ sx_name x, f_is_favorite = sx_is_favorite x,
               f_download_count = sx_download_count x, f_created_at = 0\<rparr>)) (\<lambda>_.
            restore_files T user_id m xs))"

definition candidate_folder_name :: "string \<Rightarrow> nat \<Rightarrow> string" where
  "candidate_folder_name name i = (if i > 0 then name @ '' ('' @ decimal i @ '')'' else name)"

definition restore_tree ::
  "'w client \<Rightarrow> nat \<Rightarrow> FolderTreeSnapshot option \<Rightarrow> nat \<Rightarrow> string \<Rightarrow> nat \<Rightarrow> ('w, unit Result) M" where
  "restore_tree T user_id snapshot restored_folder_id restored_path folder_depth =
     (case snapshot of
        None \<Rightarrow> okR ()
      | Some s \<Rightarrow>
          bindR (restore_rounds (length (sn_folders s)) T user_id (sf_depth (sn_root s)) folder_depth (sn_folders s)
                   [(sf_id (sn_root s), restored_folder_id, restored_path)]) (\<lambda>m.
            restore_files T user_id m (sn_files s)))"

definition restore_folder_tx :: "nat \<Rightarrow> nat \<Rightarrow> nat \<Rightarrow> 'w client \<Rightarrow> ('w, (nat \<times> string) Result) M" where
  "restore_folder_tx trash_id user_id candidate_index T =
     bindM (FetchLifecycleRowForUpdate T trash_id user_id) (\<lambda>locked.
       case locked of
         None \<Rightarrow> failR trash_not_found
       | Some item \<Rightarrow>
           if tr_item_type item \<noteq> ''folder'' then failR trash_not_found
           else
             bindM (lift_exn (ParseFolderTreeSnapshot (tr_item_data item))) (\<lambda>snapshot.
               let restored_name = candidate_folder_name (tr_item_name item) candidate_index in
               bindM (locate_target T (\<lambda>parent. Folder_AcquireNameLock T user_id parent restored_name)
                        (tr_original_folder_id item) user_id) (\<lambda>(target, loc).
               bindM (Folder_NameExistsExcluding T restored_name target user_id 0) (\<lambda>taken.
                 if taken then failR folder_name_occupied
                 else
                   let restored_path = loc_path loc @ restored_name @ ''/''; folder_depth = loc_depth loc + 1 in
                   bindM (exec T (insert_folder_stmt
                       \<lparr>d_id = 0, d_user_id = user_id, d_parent_id = target, d_name = restored_name,
                        d_path = restored_path, d_depth = folder_depth,
                        d_item_count = (case snapshot of None \<Rightarrow> 0 | Some s \<Rightarrow> int (sf_item_count (sn_root s)))\<rparr>)) (\<lambda>root.
                   bindR (restore_tree T user_id snapshot (d_id root) restored_path folder_depth) (\<lambda>_.
                     leave_trash T (ErrorInfo2 InternalError ''Failed to restore folder'') target item user_id ''folder''
                       (d_id root, restored_path)))))))"

text \<open>Candidate names are tried in turn, each in a transaction of its own.\<close>

fun try_candidates ::
  "nat \<Rightarrow> 'w client \<Rightarrow> ErrorInfo \<Rightarrow> ErrorInfo \<Rightarrow> (nat \<Rightarrow> 'w client \<Rightarrow> ('w, 'a Result) M) \<Rightarrow> nat \<Rightarrow> ('w, 'a Result) M" where
  "try_candidates 0 E failed occupied body i = failR failed"
| "try_candidates (Suc n) E failed occupied body i =
     bindM (Run E failed (body i)) (\<lambda>r.
       case r of
         Inr v \<Rightarrow> okR v
       | Inl e \<Rightarrow> if e = occupied then try_candidates n E failed occupied body (i + 1) else failR e)"

record BatchResultItem =
  br_trash_id :: nat
  br_success :: bool
  br_code :: "nat option"
  br_message :: "string option"
  br_file_id :: "nat option"
  br_folder_id :: "nat option"
  br_path :: "string option"
  br_freed_space :: "nat option"

definition failed_item :: "nat \<Rightarrow> ErrorInfo \<Rightarrow> BatchResultItem" where
  "failed_item trash_id e =
     \<lparr>br_trash_id = trash_id, br_success = False, br_code = Some (CodeInt e), br_message = Some (err_message e),
      br_file_id = None, br_folder_id = None, br_path = None, br_freed_space = None\<rparr>"

definition succeeded_item :: "nat \<Rightarrow> BatchResultItem" where
  "succeeded_item trash_id =
     \<lparr>br_trash_id = trash_id, br_success = True, br_code = None, br_message = None,
      br_file_id = None, br_folder_id = None, br_path = None, br_freed_space = None\<rparr>"

definition RestoreFile :: "'w client \<Rightarrow> trash_row \<Rightarrow> nat \<Rightarrow> ('w, BatchResultItem) M" where
  "RestoreFile E trash_item user_id =
     bindM (try_candidates 1001 E (ErrorInfo2 InternalError ''Failed to restore file'') filename_occupied
              (restore_file_tx (tr_id trash_item) user_id) 0) (\<lambda>r.
       case r of
         Inl e \<Rightarrow> retM (failed_item (tr_id trash_item) e)
       | Inr (file_id, path) \<Rightarrow>
           retM ((succeeded_item (tr_id trash_item))\<lparr>br_file_id := Some file_id, br_path := Some path\<rparr>))"

definition RestoreFolder :: "'w client \<Rightarrow> trash_row \<Rightarrow> nat \<Rightarrow> ('w, BatchResultItem) M" where
  "RestoreFolder E trash_item user_id =
     bindM (try_candidates 1001 E (ErrorInfo2 InternalError ''Failed to restore folder'') folder_name_occupied
              (restore_folder_tx (tr_id trash_item) user_id) 0) (\<lambda>r.
       case r of
         Inl e \<Rightarrow> retM (failed_item (tr_id trash_item) e)
       | Inr (folder_id, path) \<Rightarrow>
           retM ((succeeded_item (tr_id trash_item))\<lparr>br_folder_id := Some folder_id, br_path := Some path\<rparr>))"

definition prefetched :: "trash_row list \<Rightarrow> nat \<Rightarrow> trash_row option" where
  "prefetched items trash_id = map_of (rev (map (\<lambda>r. (tr_id r, r)) items)) trash_id"

definition restore_item :: "'w client \<Rightarrow> nat \<Rightarrow> trash_row list \<Rightarrow> nat \<Rightarrow> ('w, BatchResultItem) M" where
  "restore_item E user_id items trash_id =
     (case prefetched items trash_id of
        None \<Rightarrow> retM (failed_item trash_id trash_not_found)
      | Some item \<Rightarrow>
          if tr_user_id item \<noteq> user_id then retM (failed_item trash_id trash_not_found)
          else if tr_item_type item = ''file'' then RestoreFile E item user_id
          else if tr_item_type item = ''folder'' then RestoreFolder E item user_id
          else retM (failed_item trash_id (ErrorInfo2 ValidationFailed ''Unknown item type'')))"

fun for_each :: "(nat \<Rightarrow> ('w, 'a) M) \<Rightarrow> nat list \<Rightarrow> ('w, 'a list) M" where
  "for_each f [] = retM []"
| "for_each f (i # is) = bindM (f i) (\<lambda>r. bindM (for_each f is) (\<lambda>rs. retM (r # rs)))"

record BatchSummary =
  bs_total :: nat
  bs_success_count :: nat
  bs_failure_count :: nat

definition summarize :: "BatchResultItem list \<Rightarrow> BatchSummary" where
  "summarize rs =
     \<lparr>bs_total = length rs, bs_success_count = length (filter br_success rs),
      bs_failure_count = length (filter (\<lambda>r. \<not> br_success r) rs)\<rparr>"

definition Restore ::
  "'w client \<Rightarrow> 'w trash_service \<Rightarrow> nat \<Rightarrow> nat list \<Rightarrow> ('w, (BatchSummary \<times> BatchResultItem list) Result) M" where
  "Restore E S user_id trash_ids =
     bindM (catchDb (bindM (PrefetchLifecycleRowsByIds E trash_ids) (\<lambda>items. retM (Some items))) (retM None)) (\<lambda>items.
       case items of
         None \<Rightarrow> failR (ErrorInfo2 InternalError ''Failed to restore trash items, please try again later'')
       | Some items \<Rightarrow>
           bindM (for_each (restore_item E user_id items) trash_ids) (\<lambda>results.
           bindM (if bs_success_count (summarize results) > 0 then invalidate_list E S user_id else retM ()) (\<lambda>_.
             okR (summarize results, results))))"

section \<open>Permanent deletion\<close>

text \<open>
  A transaction the caller opens itself: failures, a failing commit included, are raised; the
  body says whether to commit or to roll back.
\<close>

definition own_transaction :: "'w client \<Rightarrow> ('w client \<Rightarrow> ('w, bool \<times> 'a) M) \<Rightarrow> ('w, 'a) M" where
  "own_transaction E body s =
     (let d0 = other E (pc s) (sdb s) in
      if fault E (pc s) then (Inl DbException, \<lparr>sdb = d0, pc = Suc (pc s), aborted = False\<rparr>)
      else (case body (transaction_client E) \<lparr>sdb = d0, pc = Suc (pc s), aborted = False\<rparr> of
              (Inl e, s') \<Rightarrow> (Inl e, \<lparr>sdb = d0, pc = pc s', aborted = False\<rparr>)
            | (Inr (commit, v), s') \<Rightarrow>
                if \<not> commit then (Inr v, \<lparr>sdb = d0, pc = pc s', aborted = False\<rparr>)
                else if aborted s' \<or> fault E (pc s')
                then (Inl (RuntimeError ''Trash permanent-delete transaction commit failed''),
                      \<lparr>sdb = d0, pc = Suc (pc s'), aborted = False\<rparr>)
                else (Inr v, \<lparr>sdb = sdb s', pc = Suc (pc s'), aborted = False\<rparr>)))"

record PermanentDeleteResult =
  pd_deleted_count :: nat
  pd_freed_space :: nat

fun add_to :: "nat \<Rightarrow> 'v::plus \<Rightarrow> (nat \<times> 'v) list \<Rightarrow> (nat \<times> 'v) list" where
  "add_to k v [] = [(k, v)]"
| "add_to k v ((k', w) # m) = (if k = k' then (k', w + v) # m else (k', w) # add_to k v m)"

text \<open>What a chunk of trash rows releases: row ids, content references, bytes per user.\<close>

record purge_plan =
  pp_trash_ids :: "nat list"
  pp_decrements :: "(nat \<times> nat) list"
  pp_user_delta :: "(nat \<times> int) list"
  pp_freed :: nat

definition plan_item :: "trash_row \<Rightarrow> nat list \<Rightarrow> purge_plan \<Rightarrow> purge_plan" where
  "plan_item item content_ids p =
     \<lparr>pp_trash_ids = pp_trash_ids p @ [tr_id item],
      pp_decrements = fold (\<lambda>c. add_to c 1) content_ids (pp_decrements p),
      pp_user_delta = add_to (tr_user_id item) (- int (tr_item_size item)) (pp_user_delta p),
      pp_freed = pp_freed p + tr_item_size item\<rparr>"

fun plan_purge :: "bool \<Rightarrow> trash_row list \<Rightarrow> purge_plan \<Rightarrow> exn + purge_plan" where
  "plan_purge require_valid [] p = Inr p"
| "plan_purge require_valid (item # items) p =
     (if tr_item_type item = ''file'' then
        (case ResolveRequiredContentId (tr_content_id item) (tr_item_data item) of
           Inl e \<Rightarrow> if require_valid then Inl (RuntimeError (err_message e)) else plan_purge require_valid items p
         | Inr (c, _) \<Rightarrow> plan_purge require_valid items (plan_item item [c] p))
      else if tr_item_type item = ''folder'' then
        (case ExtractSnapshotContentIds (tr_item_data item) of
           Inl e \<Rightarrow> Inl e
         | Inr cs \<Rightarrow> plan_purge require_valid items (plan_item item cs p))
      else Inl (RuntimeError ''Unknown item type in trash chunk''))"

definition empty_plan :: purge_plan where
  "empty_plan = \<lparr>pp_trash_ids = [], pp_decrements = [], pp_user_delta = [], pp_freed = 0\<rparr>"

definition or_throw :: "('w, 'a Result) M \<Rightarrow> ('w, 'a) M" where
  "or_throw m = bindM m (\<lambda>r. case r of Inl e \<Rightarrow> throwM (RuntimeError (err_message e)) | Inr v \<Rightarrow> retM v)"

fun release_space :: "'w client \<Rightarrow> (nat \<times> int) list \<Rightarrow> nat list \<Rightarrow> ('w, unit) M" where
  "release_space T deltas [] = retM ()"
| "release_space T deltas (u # us) =
     (let delta = (case map_of deltas u of None \<Rightarrow> 0 | Some v \<Rightarrow> v) in
      bindM (if delta \<noteq> 0 then or_throw (AdjustUsedStorageChecked T u delta) else retM ()) (\<lambda>_.
        release_space T deltas us))"

definition purge_tx ::
  "(nat list \<Rightarrow> nat list) \<Rightarrow> trash_row list \<Rightarrow> bool \<Rightarrow> 'w client \<Rightarrow> ('w, bool \<times> PermanentDeleteResult) M" where
  "purge_tx hash_order trash_items require_valid T =
     bindM (lift_exn (plan_purge require_valid trash_items empty_plan)) (\<lambda>p.
       if pp_trash_ids p = [] then retM (False, \<lparr>pd_deleted_count = 0, pd_freed_space = pp_freed p\<rparr>)
       else
         bindM (if pp_decrements p \<noteq> []
                then bindM (or_throw (DecrementRefCountsAndEnqueueGc T (pp_decrements p))) (\<lambda>_. retM ())
                else retM ()) (\<lambda>_.
         bindM (exec T (purge_trash_stmt (pp_trash_ids p))) (\<lambda>n.
           if n \<noteq> length (pp_trash_ids p) then throwM (RuntimeError ''Chunk delete affected rows mismatch'')
           else
             bindM (release_space T (pp_user_delta p) (hash_order (map fst (pp_user_delta p)))) (\<lambda>_.
               retM (True, \<lparr>pd_deleted_count = length (pp_trash_ids p), pd_freed_space = pp_freed p\<rparr>)))))"

definition PermanentlyDeleteTrashItems ::
  "'w client \<Rightarrow> 'w trash_service \<Rightarrow> trash_row list \<Rightarrow> bool \<Rightarrow> ('w, PermanentDeleteResult) M" where
  "PermanentlyDeleteTrashItems E S trash_items require_valid =
     (if trash_items = [] then retM \<lparr>pd_deleted_count = 0, pd_freed_space = 0\<rparr>
      else own_transaction E (purge_tx (ts_hash_order S) trash_items require_valid))"

definition purge_reply :: "trash_row \<Rightarrow> exn + PermanentDeleteResult \<Rightarrow> BatchResultItem" where
  "purge_reply item r =
     (case r of
        Inr v \<Rightarrow> (succeeded_item (tr_id item))\<lparr>br_freed_space := Some (pd_freed_space v)\<rparr>
      | Inl _ \<Rightarrow> failed_item (tr_id item) (ErrorInfo2 InternalError
          (if tr_item_type item = ''folder'' then ''Failed to permanently delete folder''
           else ''Failed to permanently delete file'')))"

definition delete_item :: "'w client \<Rightarrow> 'w trash_service \<Rightarrow> nat \<Rightarrow> trash_row list \<Rightarrow> nat \<Rightarrow> ('w, BatchResultItem) M" where
  "delete_item E S user_id items trash_id =
     (case prefetched items trash_id of
        None \<Rightarrow> retM (failed_item trash_id trash_not_found)
      | Some item \<Rightarrow>
          if tr_user_id item \<noteq> user_id then retM (failed_item trash_id trash_not_found)
          else
            let purge = catchM (bindM (PermanentlyDeleteTrashItems E S [item] True) (\<lambda>v. retM (purge_reply item (Inr v))))
                          (\<lambda>e. retM (purge_reply item (Inl e)))
            in if tr_item_type item = ''file'' then
                 (case ResolveRequiredContentId (tr_content_id item) (tr_item_data item) of
                    Inl e \<Rightarrow> retM (failed_item trash_id e)
                  | Inr _ \<Rightarrow> purge)
               else if tr_item_type item \<noteq> ''folder''
               then retM (failed_item trash_id (ErrorInfo2 ValidationFailed ''Unknown item type''))
               else purge)"

definition Delete ::
  "'w client \<Rightarrow> 'w trash_service \<Rightarrow> nat \<Rightarrow> nat list \<Rightarrow> ('w, (BatchSummary \<times> BatchResultItem list) Result) M" where
  "Delete E S user_id trash_ids =
     bindM (catchDb (bindM (PrefetchLifecycleRowsByIds E trash_ids) (\<lambda>items. retM (Some items))) (retM None)) (\<lambda>items.
       case items of
         None \<Rightarrow> failR (ErrorInfo2 InternalError ''Failed to delete trash items, please try again later'')
       | Some items \<Rightarrow>
           bindM (for_each (delete_item E S user_id items) trash_ids) (\<lambda>results.
             okR (summarize results, results)))"

text \<open>Emptying the trash goes on after a chunk that failed.\<close>

fun delete_chunks ::
  "'w client \<Rightarrow> 'w trash_service \<Rightarrow> trash_row list list \<Rightarrow> PermanentDeleteResult \<Rightarrow> ('w, PermanentDeleteResult) M" where
  "delete_chunks E S [] acc = retM acc"
| "delete_chunks E S (c # cs) acc =
     bindM (catchM (PermanentlyDeleteTrashItems E S c False) (\<lambda>_. retM \<lparr>pd_deleted_count = 0, pd_freed_space = 0\<rparr>)) (\<lambda>r.
       delete_chunks E S cs
         \<lparr>pd_deleted_count = pd_deleted_count acc + pd_deleted_count r, pd_freed_space = pd_freed_space acc + pd_freed_space r\<rparr>)"

definition DeleteAll :: "'w client \<Rightarrow> 'w trash_service \<Rightarrow> nat \<Rightarrow> ('w, PermanentDeleteResult Result) M" where
  "DeleteAll E S user_id =
     catchM
       (bindM (FetchLifecycleRowsForUser E user_id) (\<lambda>items.
        bindM (delete_chunks E S (batches DEFAULT_BATCH_CHUNK_SIZE items)
                 \<lparr>pd_deleted_count = 0, pd_freed_space = 0\<rparr>) okR))
       (\<lambda>_. failR (ErrorInfo2 InternalError ''Failed to empty trash, please try again later''))"

section \<open>Expired items\<close>

record ExpiredTrashCleanupPageResult =
  ep_candidates :: nat
  ep_deleted :: nat
  ep_next_after_id :: nat
  ep_has_more :: bool

fun cleanup_chunks :: "'w client \<Rightarrow> 'w trash_service \<Rightarrow> trash_row list list \<Rightarrow> nat \<Rightarrow> ('w, nat Result) M" where
  "cleanup_chunks E S [] deleted = okR deleted"
| "cleanup_chunks E S (c # cs) deleted =
     bindM (PermanentlyDeleteTrashItems E S c False) (\<lambda>r.
       if pd_deleted_count r \<noteq> length c
       then failR (ErrorInfo2 ValidationFailed ''Expired trash page contains an invalid content reference'')
       else cleanup_chunks E S cs (deleted + pd_deleted_count r))"

definition CleanupExpiredTrashPage ::
  "'w client \<Rightarrow> 'w trash_service \<Rightarrow> nat \<Rightarrow> nat \<Rightarrow> ('w, ExpiredTrashCleanupPageResult Result) M" where
  "CleanupExpiredTrashPage E S after_id limit =
     (if limit = 0 \<or> limit > 500 \<or> after_id = 2 ^ 64 - 1
      then failR (ErrorInfo2 InvalidParameter ''Expired trash page bounds are invalid'')
      else catchM
        (bindM (FetchExpiredLifecycleBatchAfterId E after_id limit) (\<lambda>items.
          if items = []
          then okR \<lparr>ep_candidates = 0, ep_deleted = 0, ep_next_after_id = after_id, ep_has_more = (length items = limit)\<rparr>
          else bindR (cleanup_chunks E S (batches DEFAULT_BATCH_CHUNK_SIZE items) 0) (\<lambda>deleted.
            okR \<lparr>ep_candidates = length items, ep_deleted = deleted, ep_next_after_id = tr_id (last items),
                 ep_has_more = (length items = limit)\<rparr>)))
        (\<lambda>_. failR (ErrorInfo2 InternalError ''Failed to clean expired trash'')))"

fun cleanup_batches :: "nat \<Rightarrow> 'w client \<Rightarrow> 'w trash_service \<Rightarrow> nat \<Rightarrow> nat \<Rightarrow> nat \<Rightarrow> ('w, nat Result) M" where
  "cleanup_batches 0 E S fetch_batch_size after_id deleted_count = okR deleted_count"
| "cleanup_batches (Suc n) E S fetch_batch_size after_id deleted_count =
     bindR (CleanupExpiredTrashPage E S after_id fetch_batch_size) (\<lambda>page.
       if \<not> ep_has_more page then okR (deleted_count + ep_deleted page)
       else if ep_next_after_id page \<le> after_id
       then failR (ErrorInfo2 ValidationFailed ''Expired trash cleanup cursor did not advance'')
       else cleanup_batches n E S fetch_batch_size (ep_next_after_id page) (deleted_count + ep_deleted page))"

definition CleanupExpiredTrashItems :: "'w client \<Rightarrow> 'w trash_service \<Rightarrow> int \<Rightarrow> int \<Rightarrow> ('w, nat Result) M" where
  "CleanupExpiredTrashItems E S fetch_batch_size max_batches_per_run =
     (if fetch_batch_size \<le> 0 \<or> max_batches_per_run \<le> 0
      then failR (ErrorInfo2 InvalidParameter ''Trash cleanup bounds must be positive'')
      else cleanup_batches (nat max_batches_per_run) E S (nat fetch_batch_size) 0 0)"

definition TrashService_Count :: "'w client \<Rightarrow> nat \<Rightarrow> ('w, nat Result) M" where
  "TrashService_Count E user_id =
     catchDb (bindM (CountForUser E user_id) okR) (failR (ErrorInfo2 InternalError ''Failed to count trash items''))"

end
