(* ===== verification/Storage_Job_Worker.thy ===== *)
theory Storage_Job_Worker
  imports Reconciliation_Pages Upload_Lifecycle Trash_Service
begin

text \<open>
  The worker of the job queue (src/src/services/StorageJobWorker.cpp): the payload parsers, the
  handlers of the six job types, the retry delay, and the loop that claims jobs, runs their
  handlers under a lease and records the outcome.  The collection of a blob is a transaction
  the worker opens itself; it deletes the blob before it commits, and a rollback does not bring
  the blob back.
\<close>

section \<open>Results and payloads\<close>

record JobExecutionResult =
  jr_succeeded :: bool
  jr_retryable :: bool
  jr_outcome_persisted :: bool
  jr_error :: string

definition ExecutionSucceeded :: JobExecutionResult where
  "ExecutionSucceeded = \<lparr>jr_succeeded = True, jr_retryable = False, jr_outcome_persisted = False, jr_error = ''''\<rparr>"

definition ExecutionFailed :: "bool \<Rightarrow> string \<Rightarrow> JobExecutionResult" where
  "ExecutionFailed retryable err =
     \<lparr>jr_succeeded = False, jr_retryable = retryable, jr_outcome_persisted = False, jr_error = err\<rparr>"

definition PermanentFailure :: "string \<Rightarrow> JobExecutionResult" where
  "PermanentFailure err = ExecutionFailed False err"

definition RetryableFailure :: "string \<Rightarrow> JobExecutionResult" where
  "RetryableFailure err = ExecutionFailed True err"

text \<open>An error result is worth another attempt unless it blames the request.\<close>

definition retryable_error :: "ErrorInfo \<Rightarrow> bool" where
  "retryable_error err \<longleftrightarrow> err_code err \<noteq> InvalidParameter \<and> err_code err \<noteq> ValidationFailed"

definition has_text :: "json \<Rightarrow> string \<Rightarrow> bool" where
  "has_text payload fld \<longleftrightarrow> isString (member payload fld) \<and> asString (member payload fld) \<noteq> []"

definition ParseStagingSession :: "StorageJob \<Rightarrow> string + UploadStagingSession" where
  "ParseStagingSession job =
     (let p = sj_payload job in
      if \<not> isObject p then Inl ''staging_cleanup payload must be a JSON object''
      else case find_row (\<lambda>fld. \<not> has_text p fld) [''upload_id'', ''backend'', ''prefix''] of
        Some fld \<Rightarrow> Inl (''staging_cleanup payload requires non-empty string field: '' @ fld)
      | None \<Rightarrow>
          if asString (member p ''upload_id'') \<noteq> sj_aggregate_id job
          then Inl ''staging_cleanup aggregate_id does not match upload_id''
          else case ParseUploadStagingBackend (asString (member p ''backend'')) of
            None \<Rightarrow> Inl ''staging_cleanup payload contains an unsupported backend''
          | Some backend \<Rightarrow> Inr \<lparr>ss_upload_id = asString (member p ''upload_id''), ss_backend = backend,
                                  ss_prefix = asString (member p ''prefix'')\<rparr>)"

record MultipartUploadDescriptor =
  mu_key :: string
  mu_upload_id :: string

definition BuildMultipartUploadRecoveryId :: "(string \<Rightarrow> string) \<Rightarrow> MultipartUploadDescriptor \<Rightarrow> string" where
  "BuildMultipartUploadRecoveryId sha256 descriptor = sha256 (mu_key descriptor @ [CHR 0x0A] @ mu_upload_id descriptor)"

definition BuildMultipartUploadRecoveryDedupeKey :: "(string \<Rightarrow> string) \<Rightarrow> MultipartUploadDescriptor \<Rightarrow> string" where
  "BuildMultipartUploadRecoveryDedupeKey sha256 descriptor =
     ''multipart-abort:'' @ BuildMultipartUploadRecoveryId sha256 descriptor"

definition ParseMultipartUpload :: "(string \<Rightarrow> string) \<Rightarrow> StorageJob \<Rightarrow> string + MultipartUploadDescriptor" where
  "ParseMultipartUpload sha256 job =
     (let p = sj_payload job in
      if \<not> isObject p then Inl ''multipart_abort payload must be a JSON object''
      else case find_row (\<lambda>fld. \<not> has_text p fld) [''backend'', ''key'', ''upload_id''] of
        Some fld \<Rightarrow> Inl (''multipart_abort payload requires non-empty string field: '' @ fld)
      | None \<Rightarrow>
          if asString (member p ''backend'') \<noteq> ''s3''
          then Inl ''multipart_abort payload contains an unsupported backend''
          else
            let descriptor = \<lparr>mu_key = asString (member p ''key''), mu_upload_id = asString (member p ''upload_id'')\<rparr>
            in if sj_aggregate_id job \<noteq> BuildMultipartUploadRecoveryId sha256 descriptor
               then Inl ''multipart_abort aggregate_id does not match payload''
               else if sj_dedupe_key job \<noteq> BuildMultipartUploadRecoveryDedupeKey sha256 descriptor
               then Inl ''multipart_abort dedupe_key does not match payload''
               else Inr descriptor)"

record BlobGcCandidate =
  gc_content_id :: nat
  gc_storage_path :: string

definition ParseBlobGcCandidate :: "StorageJob \<Rightarrow> string + BlobGcCandidate" where
  "ParseBlobGcCandidate job =
     (let p = sj_payload job in
      if \<not> isObject p then Inl ''blob_gc payload must be a JSON object''
      else if \<not> isUInt64 (member p ''content_id'') \<or> asUInt64 (member p ''content_id'') = 0
      then Inl ''blob_gc payload requires a positive uint64 content_id''
      else if \<not> has_text p ''storage_path'' then Inl ''blob_gc payload requires a non-empty storage_path''
      else if sj_aggregate_id job \<noteq> decimal (asUInt64 (member p ''content_id''))
      then Inl ''blob_gc aggregate_id does not match content_id''
      else Inr \<lparr>gc_content_id = asUInt64 (member p ''content_id''),
                gc_storage_path = asString (member p ''storage_path'')\<rparr>)"

section \<open>The worker\<close>

text \<open>
  The collaborators and options of a worker, and what its surroundings decide: \<open>wk_locked\<close> marks
  the jobs other transactions hold while it claims, \<open>wk_ownership_lost\<close> says whether the
  heartbeat has found the lease lost by the time of an await point.  The renewals the heartbeat
  issues are statements of another session.
\<close>

record 'w worker =
  wk_maintenance :: "'w maintenance"
  wk_multipart_cleaner :: "(MultipartUploadDescriptor \<Rightarrow> 'w \<Rightarrow> unit Result \<times> 'w) option"
  wk_trash :: "'w trash_service"
  wk_instance_id :: string
  wk_batch_size :: nat
  wk_lease_duration_seconds :: nat
  wk_retry_base_seconds :: "32 word"
  wk_retry_cap_seconds :: "32 word"
  wk_locked :: "nat \<Rightarrow> bool"
  wk_ownership_lost :: "nat \<Rightarrow> bool"

text \<open>The checks of the constructor.\<close>

definition StorageJobWorker :: "'w worker \<Rightarrow> exn + 'w worker" where
  "StorageJobWorker W =
     (if wk_instance_id W = [] \<or> length (wk_instance_id W) > 128
      then Inl (InvalidArgument ''Storage job worker instance ID must contain 1 to 128 characters'')
      else if wk_batch_size W = 0 \<or> wk_batch_size W > 1000
      then Inl (InvalidArgument ''Storage job worker batch size must be in range 1-1000'')
      else if wk_lease_duration_seconds W < 3
      then Inl (InvalidArgument ''Storage job worker lease duration must be at least 3 seconds'')
      else if wk_retry_base_seconds W = 0 \<or> wk_retry_cap_seconds W < wk_retry_base_seconds W
      then Inl (InvalidArgument ''Storage job worker retry delay bounds are invalid'')
      else Inr W)"

section \<open>Retry delays\<close>

unbundle bit_operations_syntax

definition MixRetrySeed :: "64 word \<Rightarrow> 64 word" where
  "MixRetrySeed x0 =
     (let x1 = x0 + 0x9e3779b97f4a7c15;
          x2 = (x1 XOR drop_bit 30 x1) * 0xbf58476d1ce4e5b9;
          x3 = (x2 XOR drop_bit 27 x2) * 0x94d049bb133111eb
      in x3 XOR drop_bit 31 x3)"

text \<open>The doubling loop: at most \<open>n\<close> rounds, ended early by the cap.\<close>

fun doubled :: "nat \<Rightarrow> 64 word \<Rightarrow> 64 word \<Rightarrow> 64 word" where
  "doubled 0 cap delay = delay"
| "doubled (Suc n) cap delay = (if delay < cap then doubled n cap (min (delay * 2) cap) else delay)"

definition ComputeRetryDelaySeconds :: "64 word \<Rightarrow> 32 word \<Rightarrow> 32 word \<Rightarrow> 32 word \<Rightarrow> exn + 32 word" where
  "ComputeRetryDelaySeconds job_id attempts base_seconds cap_seconds =
     (if base_seconds = 0 \<or> cap_seconds < base_seconds
      then Inl (InvalidArgument ''Storage job retry delay bounds are invalid'')
      else
        let exponent = min (if attempts > 0 then attempts - 1 else 0) 31;
            delay = doubled (unat exponent) (ucast cap_seconds) (ucast base_seconds);
            remaining = ucast cap_seconds - delay;
            jitter_window = min (delay div 4) remaining;
            seed = job_id XOR push_bit 32 (ucast attempts);
            delay = (if jitter_window > 0 then delay + MixRetrySeed seed mod (jitter_window + 1) else delay)
        in Inr (ucast delay))"

section \<open>Handlers\<close>

definition ExecuteStagingCleanup :: "'w client \<Rightarrow> 'w worker \<Rightarrow> StorageJob \<Rightarrow> ('w, JobExecutionResult) M" where
  "ExecuteStagingCleanup E W job =
     (case ParseStagingSession job of
        Inl err \<Rightarrow> retM (PermanentFailure err)
      | Inr session \<Rightarrow>
          (case mt_staging (wk_maintenance W) of
             None \<Rightarrow> retM (RetryableFailure ''Upload staging storage is not configured'')
           | Some S \<Rightarrow> bindM (callStore E (CleanupSession S session)) (\<lambda>cleanup_result.
               case cleanup_result of
                 Inr _ \<Rightarrow> retM ExecutionSucceeded
               | Inl err \<Rightarrow> retM (ExecutionFailed (retryable_error err) ''staging_cleanup failed''))))"

definition ExecuteMultipartAbort :: "'w client \<Rightarrow> 'w worker \<Rightarrow> StorageJob \<Rightarrow> ('w, JobExecutionResult) M" where
  "ExecuteMultipartAbort E W job =
     (case ParseMultipartUpload (mt_sha256 (wk_maintenance W)) job of
        Inl err \<Rightarrow> retM (PermanentFailure err)
      | Inr descriptor \<Rightarrow>
          (case wk_multipart_cleaner W of
             None \<Rightarrow> retM (RetryableFailure ''Multipart upload cleaner is not configured'')
           | Some abort_upload \<Rightarrow> bindM (callStore E (abort_upload descriptor)) (\<lambda>abort_result.
               case abort_result of
                 Inr _ \<Rightarrow> retM ExecutionSucceeded
               | Inl err \<Rightarrow> retM (ExecutionFailed (retryable_error err) ''multipart_abort failed''))))"

subsection \<open>Blob collection\<close>

text \<open>A call of the object storage while a transaction is open.\<close>

definition storeInTx :: "('w \<Rightarrow> 'a \<times> 'w) \<Rightarrow> ('w, 'a) M" where
  "storeInTx f s = (let (v, w) = f (store (sdb s)) in (Inr v, s\<lparr>sdb := (sdb s)\<lparr>store := w\<rparr>, pc := Suc (pc s)\<rparr>))"

text \<open>
  The transaction of the collection: the body says whether it wants to commit.  A rollback
  restores the tables and leaves the storage as it is.
\<close>

definition gc_transaction :: "'w client \<Rightarrow> ('w client \<Rightarrow> ('w, bool \<times> JobExecutionResult) M) \<Rightarrow> ('w, JobExecutionResult) M" where
  "gc_transaction E body s =
     (let d0 = other E (pc s) (sdb s) in
      if fault E (pc s) then (Inl DbException, \<lparr>sdb = d0, pc = Suc (pc s), aborted = False\<rparr>)
      else (case body (transaction_client E) \<lparr>sdb = d0, pc = Suc (pc s), aborted = False\<rparr> of
              (Inl e, s') \<Rightarrow> (Inl e, \<lparr>sdb = d0\<lparr>store := store (sdb s')\<rparr>, pc = pc s', aborted = False\<rparr>)
            | (Inr (commit, v), s') \<Rightarrow>
                if \<not> commit then (Inr v, \<lparr>sdb = d0\<lparr>store := store (sdb s')\<rparr>, pc = pc s', aborted = False\<rparr>)
                else if aborted s' \<or> fault E (pc s')
                then (Inr (RetryableFailure ''blob_gc transaction commit failed''),
                      \<lparr>sdb = d0\<lparr>store := store (sdb s')\<rparr>, pc = Suc (pc s'), aborted = False\<rparr>)
                else (Inr v, \<lparr>sdb = sdb s', pc = Suc (pc s'), aborted = False\<rparr>)))"

definition complete_transaction :: "'w client \<Rightarrow> 'w worker \<Rightarrow> nat \<Rightarrow> StorageJob \<Rightarrow> ('w, bool \<times> JobExecutionResult) M" where
  "complete_transaction T W content_id job =
     bindM (ResolveFinding T kZeroReferenceContent (decimal content_id)) (\<lambda>_.
     bindM (MarkSucceeded T (sj_id job) (wk_instance_id W)) (\<lambda>persisted.
       if \<not> persisted then retM (False, RetryableFailure ''blob_gc ownership changed before commit'')
       else retM (True, ExecutionSucceeded\<lparr>jr_outcome_persisted := True\<rparr>)))"

definition has_file_ref :: "'w db \<Rightarrow> nat \<Rightarrow> bool" where
  "has_file_ref d content_id \<longleftrightarrow> list_ex (\<lambda>f. f_content_id f = content_id) (files d)"

definition has_trash_ref :: "'w db \<Rightarrow> nat \<Rightarrow> bool" where
  "has_trash_ref d content_id \<longleftrightarrow> list_ex (\<lambda>r. tr_content_id r = Some content_id) (trash d)"

definition bound_id :: "nat \<Rightarrow> content_row \<Rightarrow> bool" where
  "bound_id content_id c \<longleftrightarrow> int (fc_id c) = to_int64 (int content_id)"

definition select_content :: "nat \<Rightarrow> 'w db \<Rightarrow> (content_row \<times> bool \<times> bool) option" where
  "select_content content_id d =
     map_option (\<lambda>c. (c, has_file_ref d (fc_id c), has_trash_ref d (fc_id c)))
       (find_row (bound_id content_id) (file_contents d))"

definition collectable :: "nat \<Rightarrow> 'w db \<Rightarrow> content_row \<Rightarrow> bool" where
  "collectable content_id d c \<longleftrightarrow> bound_id content_id c \<and> fc_ref_count c = 0 \<and>
     \<not> has_file_ref d (fc_id c) \<and> \<not> has_trash_ref d (fc_id c)"

definition delete_content :: "nat \<Rightarrow> ('w, nat) stmt" where
  "delete_content content_id d =
     (Inr (affected (collectable content_id d) (file_contents d)),
      d\<lparr>file_contents := filter (\<lambda>c. \<not> collectable content_id d c) (file_contents d)\<rparr>)"

definition gc_tx ::
  "'w worker \<Rightarrow> 'w blob_maintenance \<Rightarrow> StorageJob \<Rightarrow> BlobGcCandidate \<Rightarrow> 'w client \<Rightarrow> ('w, bool \<times> JobExecutionResult) M" where
  "gc_tx W B job candidate T =
     bindM (exec T (pureS (select_content (gc_content_id candidate)))) (\<lambda>content.
       case content of
         None \<Rightarrow> complete_transaction T W (gc_content_id candidate) job
       | Some (c, file_ref, trash_ref) \<Rightarrow>
           if fc_storage_path c \<noteq> gc_storage_path candidate
           then retM (False, PermanentFailure ''blob_gc storage_path does not match file_contents'')
           else if fc_ref_count c > 0 then complete_transaction T W (gc_content_id candidate) job
           else if fc_ref_count c < 0 \<or> file_ref \<or> trash_ref
           then retM (False, PermanentFailure ''blob_gc found inconsistent content references'')
           else
             bindM (storeInTx (DeleteBlob B (gc_storage_path candidate))) (\<lambda>delete_result.
               case delete_result of
                 Inl err \<Rightarrow> retM (False, ExecutionFailed (retryable_error err) ''blob_gc storage deletion failed'')
               | Inr _ \<Rightarrow>
                   bindM (exec T (delete_content (gc_content_id candidate))) (\<lambda>deleted.
                     if deleted \<noteq> 1 then retM (False, RetryableFailure ''blob_gc content row changed before deletion'')
                     else complete_transaction T W (gc_content_id candidate) job)))"

definition ExecuteBlobGc :: "'w client \<Rightarrow> 'w worker \<Rightarrow> StorageJob \<Rightarrow> ('w, JobExecutionResult) M" where
  "ExecuteBlobGc E W job =
     (case ParseBlobGcCandidate job of
        Inl err \<Rightarrow> retM (PermanentFailure err)
      | Inr candidate \<Rightarrow>
          if \<not> mt_db_configured (wk_maintenance W) then retM (RetryableFailure ''Blob GC database is not configured'')
          else (case mt_blob (wk_maintenance W) of
                  None \<Rightarrow> retM (RetryableFailure ''Blob store is not configured'')
                | Some B \<Rightarrow> catchM (gc_transaction E (gc_tx W B job candidate))
                    (\<lambda>e. retM (RetryableFailure
                       (if e = DbException then ''blob_gc database failure'' else ''blob_gc handler failure'')))))"

subsection \<open>Periodic scans\<close>

text \<open>A page that is not the last one enqueues its successor before it counts as done.\<close>

definition continue_with :: "'w client \<Rightarrow> string + NewStorageJob \<Rightarrow> ('w, JobExecutionResult) M" where
  "continue_with E next_job =
     (case next_job of
        Inl err \<Rightarrow> retM (PermanentFailure err)
      | Inr job \<Rightarrow> bindM (Enqueue E job) (\<lambda>_. retM ExecutionSucceeded))"

definition ExecuteExpireUploads :: "'w client \<Rightarrow> 'w worker \<Rightarrow> StorageJob \<Rightarrow> ('w, JobExecutionResult) M" where
  "ExecuteExpireUploads E W job =
     (case ParseExpireUploadsJob job of
        Inl err \<Rightarrow> retM (PermanentFailure err)
      | Inr request \<Rightarrow>
          if \<not> mt_db_configured (wk_maintenance W)
          then retM (RetryableFailure ''Upload expiration database is not configured'')
          else bindM (ExpireInProgressUploads E (eu_limit request)) (\<lambda>expiration.
            case expiration of
              Inl err \<Rightarrow> retM (ExecutionFailed (retryable_error err) ''expire_uploads failed'')
            | Inr (candidates, expired) \<Rightarrow>
                if ShouldContinueExpirationScan candidates (eu_limit request)
                then continue_with E (BuildExpireUploadsJob (request\<lparr>eu_page := (eu_page request + 1) mod 2 ^ 64\<rparr>))
                else retM ExecutionSucceeded))"

definition ExecuteExpireTrash :: "'w client \<Rightarrow> 'w worker \<Rightarrow> StorageJob \<Rightarrow> ('w, JobExecutionResult) M" where
  "ExecuteExpireTrash E W job =
     (case ParseExpireTrashJob job of
        Inl err \<Rightarrow> retM (PermanentFailure err)
      | Inr request \<Rightarrow>
          if \<not> mt_db_configured (wk_maintenance W)
          then retM (RetryableFailure ''Trash expiration database is not configured'')
          else bindM (CleanupExpiredTrashPage E (wk_trash W) (et_after_id request) (et_limit request)) (\<lambda>page.
            case page of
              Inl err \<Rightarrow> retM (ExecutionFailed (retryable_error err) ''expire_trash failed'')
            | Inr page \<Rightarrow>
                if \<not> ep_has_more page then retM ExecutionSucceeded
                else if ep_next_after_id page \<le> et_after_id request
                then retM (PermanentFailure ''expire_trash continuation cursor did not advance'')
                else continue_with E (BuildExpireTrashJob (request\<lparr>et_after_id := ep_next_after_id page\<rparr>))))"

definition cursor_advanced :: "ReconciliationPageRequest \<Rightarrow> ReconciliationPageRequest \<Rightarrow> bool" where
  "cursor_advanced request next_request \<longleftrightarrow>
     (if rp_scope request = ScopeContents \<or> rp_scope request = ScopeUsers
      then rp_after_id next_request > rp_after_id request
      else rp_continuation_token next_request \<noteq> [] \<and>
           rp_continuation_token next_request \<noteq> rp_continuation_token request)"

definition ExecuteStorageReconcile :: "'w client \<Rightarrow> 'w worker \<Rightarrow> StorageJob \<Rightarrow> ('w, JobExecutionResult) M" where
  "ExecuteStorageReconcile E W job =
     (case ParseStorageReconcileJob (mt_sha256 (wk_maintenance W)) job of
        Inl err \<Rightarrow> retM (PermanentFailure err)
      | Inr request \<Rightarrow>
          if \<not> mt_db_configured (wk_maintenance W)
          then retM (RetryableFailure ''Storage reconciliation database is not configured'')
          else bindM (RunPage E (wk_maintenance W) request) (\<lambda>page.
            case page of
              Inl err \<Rightarrow> retM (ExecutionFailed (retryable_error err) ''storage_reconcile failed'')
            | Inr page \<Rightarrow>
                if \<not> pr_has_more page then retM ExecutionSucceeded
                else
                  let next_request = request\<lparr>rp_after_id := pr_next_after_id page,
                                             rp_continuation_token := pr_next_continuation_token page\<rparr>
                  in if \<not> cursor_advanced request next_request
                     then retM (PermanentFailure ''storage_reconcile continuation cursor did not advance'')
                     else continue_with E (BuildStorageReconcileJob (mt_sha256 (wk_maintenance W)) next_request)))"

definition ExecuteJob :: "'w client \<Rightarrow> 'w worker \<Rightarrow> StorageJob \<Rightarrow> ('w, JobExecutionResult) M" where
  "ExecuteJob E W job =
     (if sj_job_type job = kStagingCleanupJobType then ExecuteStagingCleanup E W job
      else if sj_job_type job = kMultipartAbortJobType then ExecuteMultipartAbort E W job
      else if sj_job_type job = kBlobGcJobType then ExecuteBlobGc E W job
      else if sj_job_type job = kExpireUploadsJobType then ExecuteExpireUploads E W job
      else if sj_job_type job = kExpireTrashJobType then ExecuteExpireTrash E W job
      else if sj_job_type job = kStorageReconcileJobType then ExecuteStorageReconcile E W job
      else retM (PermanentFailure ''Unsupported storage job type''))"

section \<open>Running claimed jobs\<close>

datatype PersistDisposition = PersistSucceeded | PersistRetried | PersistDeadLettered | PersistOwnershipLost

definition heartbeat_lost :: "'w worker \<Rightarrow> ('w, bool) M" where
  "heartbeat_lost W s = (Inr (wk_ownership_lost W (pc s)), s)"

definition persist_outcome :: "'w client \<Rightarrow> 'w worker \<Rightarrow> StorageJob \<Rightarrow> JobExecutionResult \<Rightarrow> ('w, PersistDisposition) M" where
  "persist_outcome E W job execution =
     catchM
       (if jr_succeeded execution
        then bindM (MarkSucceeded E (sj_id job) (wk_instance_id W)) (\<lambda>persisted.
               retM (if persisted then PersistSucceeded else PersistOwnershipLost))
        else
          bindM (lift_exn (ComputeRetryDelaySeconds (word_of_nat (sj_id job)) (word_of_nat (sj_attempts job))
                   (wk_retry_base_seconds W) (wk_retry_cap_seconds W))) (\<lambda>retry_delay.
          bindM (MarkFailed E (sj_id job) (wk_instance_id W) (jr_error execution) (jr_retryable execution)
                   (unat retry_delay)) (\<lambda>persisted.
            case persisted of
              None \<Rightarrow> retM PersistOwnershipLost
            | Some st \<Rightarrow> retM (if st = Retry then PersistRetried else PersistDeadLettered))))
       (\<lambda>_. retM PersistOwnershipLost)"

definition ProcessClaimedJob :: "'w client \<Rightarrow> 'w worker \<Rightarrow> StorageJob \<Rightarrow> ('w, PersistDisposition) M" where
  "ProcessClaimedJob E W job =
     bindM (catchM (RenewLease E (sj_id job) (wk_instance_id W) (wk_lease_duration_seconds W)) (\<lambda>_. retM False)) (\<lambda>renewed.
       if \<not> renewed then retM PersistOwnershipLost
       else
         bindM (catchM (ExecuteJob E W job) (\<lambda>_. retM (RetryableFailure ''Storage job handler failed''))) (\<lambda>execution.
           if jr_outcome_persisted execution then retM PersistSucceeded
           else
             bindM (heartbeat_lost W) (\<lambda>ownership_lost.
               if ownership_lost then retM PersistOwnershipLost else persist_outcome E W job execution)))"

record StorageJobRunResult =
  rr_claimed :: nat
  rr_succeeded :: nat
  rr_retried :: nat
  rr_dead_lettered :: nat
  rr_ownership_lost :: nat

fun count_outcome :: "PersistDisposition \<Rightarrow> StorageJobRunResult \<Rightarrow> StorageJobRunResult" where
  "count_outcome PersistSucceeded r = r\<lparr>rr_succeeded := rr_succeeded r + 1\<rparr>"
| "count_outcome PersistRetried r = r\<lparr>rr_retried := rr_retried r + 1\<rparr>"
| "count_outcome PersistDeadLettered r = r\<lparr>rr_dead_lettered := rr_dead_lettered r + 1\<rparr>"
| "count_outcome PersistOwnershipLost r = r\<lparr>rr_ownership_lost := rr_ownership_lost r + 1\<rparr>"

fun run_jobs :: "'w client \<Rightarrow> 'w worker \<Rightarrow> StorageJob list \<Rightarrow> StorageJobRunResult \<Rightarrow> ('w, StorageJobRunResult) M" where
  "run_jobs E W [] result = retM result"
| "run_jobs E W (job # jobs) result =
     bindM (ProcessClaimedJob E W job) (\<lambda>disposition. run_jobs E W jobs (count_outcome disposition result))"

definition RunOnce :: "'w client \<Rightarrow> 'w worker \<Rightarrow> ('w, StorageJobRunResult Result) M" where
  "RunOnce E W =
     bindR (catchM (bindM (ClaimReadyBatch E (wk_locked W) (wk_instance_id W) (wk_batch_size W)
                             (wk_lease_duration_seconds W)) okR)
              (\<lambda>_. failR (ErrorInfo2 InternalError ''Failed to claim storage jobs''))) (\<lambda>jobs.
     bindM (run_jobs E W jobs \<lparr>rr_claimed = length jobs, rr_succeeded = 0, rr_retried = 0, rr_dead_lettered = 0,
                               rr_ownership_lost = 0\<rparr>) okR)"

end
