(* ===== verification/Upload_Service.thy ===== *)
theory Upload_Service
  imports Upload_Lifecycle
begin

text \<open>
  The request-facing upload service (src/src/services/UploadService.cpp): the short-lived
  in-memory cache of upload tasks, the chunk handler that uses it, and the handlers that wrap
  the lifecycle operations and drop cache entries.  Each critical section on the cache is one
  step (\<^const>\<open>callCache\<close>), between which other requests of the process may run.  The MD5
  function, the staging storage and the Redis file-list cache are parameters.
\<close>

record 'w upload_service =
  us_lifecycle :: "'w lifecycle"
  us_hash_md5 :: "string \<Rightarrow> string"
  us_invalidate_file_list :: "nat \<Rightarrow> 'w \<Rightarrow> 'w"
  us_max_file_size :: nat
  us_chunk_size :: nat
  us_expiry_seconds :: int
  us_creation_enabled :: bool
  us_instance_id :: string
  us_finalize_lease_seconds :: nat

record InitUploadRequest =
  ir_filename :: string
  ir_file_size :: nat
  ir_file_hash :: string
  ir_parent_id :: nat

record UploadChunkResponse =
  ur_chunk_index :: nat
  ur_uploaded :: bool

definition UPLOAD_TASK_CACHE_TTL :: int where
  "UPLOAD_TASK_CACHE_TTL = 60"

section \<open>The upload task cache\<close>

definition BuildUploadTaskCacheEntry :: "int \<Rightarrow> task_row \<Rightarrow> UploadStagingSession \<Rightarrow> UploadTaskCacheEntry" where
  "BuildUploadTaskCacheEntry t task staging_session =
     \<lparr>ce_user_id = t_user_id task, ce_file_size = t_file_size task,
      ce_chunk_size = to_uint32 (t_chunk_size task), ce_total_chunks = to_uint32 (t_total_chunks task),
      ce_staging_session = staging_session, ce_cache_expires_at = t + UPLOAD_TASK_CACHE_TTL\<rparr>"

datatype cache_probe = CacheHit UploadTaskCacheEntry | CacheMiss | CacheExpired int

text \<open>The probe under the shared lock; the clock reading is kept for the second lock.\<close>

definition probe_cache :: "string \<Rightarrow> nat \<Rightarrow> int \<Rightarrow> (string \<rightharpoonup> UploadTaskCacheEntry) \<Rightarrow> cache_probe" where
  "probe_cache upload_id user_id t c =
     (case c upload_id of
        None \<Rightarrow> CacheMiss
      | Some e \<Rightarrow>
          if ce_cache_expires_at e > t \<and> ce_user_id e = user_id then CacheHit e
          else if ce_cache_expires_at e > t then CacheMiss
          else CacheExpired t)"

text \<open>The clean-up under the exclusive lock looks the entry up again.\<close>

definition erase_expired :: "string \<Rightarrow> int \<Rightarrow> (string \<rightharpoonup> UploadTaskCacheEntry) \<Rightarrow> (string \<rightharpoonup> UploadTaskCacheEntry)" where
  "erase_expired upload_id t c =
     (case c upload_id of
        None \<Rightarrow> c
      | Some e \<Rightarrow> if ce_cache_expires_at e \<le> t then c(upload_id := None) else c)"

definition TryGetUploadTaskCacheEntry :: "'w client \<Rightarrow> string \<Rightarrow> nat \<Rightarrow> ('w, UploadTaskCacheEntry option) M" where
  "TryGetUploadTaskCacheEntry E upload_id user_id =
     bindM (callCache E (\<lambda>t c. (probe_cache upload_id user_id t c, c))) (\<lambda>probe.
       case probe of
         CacheHit e \<Rightarrow> retM (Some e)
       | CacheMiss \<Rightarrow> retM None
       | CacheExpired t \<Rightarrow> callCache E (\<lambda>_ c. (None, erase_expired upload_id t c)))"

definition CacheUploadTaskEntry :: "'w client \<Rightarrow> string \<Rightarrow> UploadTaskCacheEntry \<Rightarrow> ('w, unit) M" where
  "CacheUploadTaskEntry E upload_id entry = callCache E (\<lambda>_ c. ((), c(upload_id \<mapsto> entry)))"

definition InvalidateUploadTaskCache :: "'w client \<Rightarrow> string \<Rightarrow> ('w, unit) M" where
  "InvalidateUploadTaskCache E upload_id = callCache E (\<lambda>_ c. ((), c(upload_id := None)))"

definition evict :: "int \<Rightarrow> (string \<rightharpoonup> UploadTaskCacheEntry) \<Rightarrow> (string \<rightharpoonup> UploadTaskCacheEntry)" where
  "evict t c = (\<lambda>k. case c k of None \<Rightarrow> None | Some e \<Rightarrow> if ce_cache_expires_at e \<le> t then None else Some e)"

definition EvictExpiredUploadTaskCacheEntries :: "'w client \<Rightarrow> ('w, unit) M" where
  "EvictExpiredUploadTaskCacheEntries E = callCache E (\<lambda>t c. ((), evict t c))"

section \<open>Chunks\<close>

definition FindUploadTask :: "'w client \<Rightarrow> string \<Rightarrow> nat \<Rightarrow> ('w, task_row Result) M" where
  "FindUploadTask E upload_id user_id =
     bindM (FindUnexpiredByIdForUser E upload_id user_id) (\<lambda>task.
       case task of
         None \<Rightarrow> failR (ErrorInfo1 UploadTaskNotFound)
       | Some t \<Rightarrow> okR t)"

definition FindUploadStagingSession :: "'w client \<Rightarrow> string \<Rightarrow> nat \<Rightarrow> ('w, UploadStagingSession Result) M" where
  "FindUploadStagingSession E upload_id user_id =
     catchM
       (bindM (FindStagingSessionForUser E upload_id user_id) (\<lambda>session.
          case session of
            None \<Rightarrow> failR (ErrorInfo1 UploadTaskNotFound)
          | Some x \<Rightarrow> okR x))
       (\<lambda>_. failR (ErrorInfo2 InternalError ''Failed to load upload staging session''))"

text \<open>On a miss the entry is built from the task row and cached.\<close>

definition load_chunk_task :: "'w client \<Rightarrow> string \<Rightarrow> nat \<Rightarrow> ('w, UploadTaskCacheEntry Result) M" where
  "load_chunk_task E upload_id user_id =
     bindR (FindUploadTask E upload_id user_id) (\<lambda>task.
       if t_status task \<noteq> ToStorageValue InProgress
       then failR (ErrorInfo2 ResourceConflict ''Upload task no longer accepts chunks'')
       else
         bindR (FindUploadStagingSession E upload_id user_id) (\<lambda>session.
         bindM (callCache E (\<lambda>t c. (BuildUploadTaskCacheEntry t task session, c))) (\<lambda>entry.
         bindM (CacheUploadTaskEntry E upload_id entry) (\<lambda>_. okR entry))))"

definition record_chunk :: "'w client \<Rightarrow> string \<Rightarrow> nat \<Rightarrow> nat \<Rightarrow> UploadStagingChunk \<Rightarrow> ('w, UploadChunkResponse Result) M" where
  "record_chunk E upload_id user_id chunk_index written =
     catchDb
       (bindM (RecordChunkIfInProgress E upload_id user_id chunk_index (sc_size_bytes written)
                 (sc_md5_hash written) (sc_object_key written) (sc_etag written)) (\<lambda>record_disposition.
          case record_disposition of
            TaskRejected \<Rightarrow>
              bindM (InvalidateUploadTaskCache E upload_id) (\<lambda>_.
              failR (ErrorInfo2 ResourceConflict ''Upload task no longer accepts chunks''))
          | MetadataConflict \<Rightarrow>
              failR (ErrorInfo2 ResourceConflict ''Chunk index already contains different content'')
          | Accepted \<Rightarrow> okR \<lparr>ur_chunk_index = chunk_index, ur_uploaded = True\<rparr>))
       (failR (ErrorInfo2 InternalError ''Failed to record chunk upload''))"

definition UploadChunk ::
  "'w client \<Rightarrow> 'w upload_service \<Rightarrow> string \<Rightarrow> nat \<Rightarrow> string \<Rightarrow> string \<Rightarrow> nat \<Rightarrow> ('w, UploadChunkResponse Result) M" where
  "UploadChunk E U upload_id chunk_index chunk_hash chunk_data user_id =
     bindM (TryGetUploadTaskCacheEntry E upload_id user_id) (\<lambda>cached_task.
     bindR (case cached_task of
              Some e \<Rightarrow> okR e
            | None \<Rightarrow> load_chunk_task E upload_id user_id) (\<lambda>task.
       case ValidateChunkAcceptance chunk_index (length chunk_data) (ce_file_size task)
              (ce_chunk_size task) (ce_total_chunks task) of
         Inl acceptance_error \<Rightarrow> failR (cae_error acceptance_error)
       | Inr _ \<Rightarrow>
           let actual_hash = us_hash_md5 U chunk_data in
           if actual_hash \<noteq> chunk_hash
           then failR (ErrorInfo2 ChunkVerifyFailed ''Chunk hash mismatch'')
           else (case m_upload_staging_storage (us_lifecycle U) of
             None \<Rightarrow> failR (ErrorInfo2 InternalError ''Upload staging storage is not configured'')
           | Some st \<Rightarrow>
               bindR (callStore E (WriteChunk st (ce_staging_session task) chunk_index actual_hash chunk_data))
                 (record_chunk E upload_id user_id chunk_index))))"

section \<open>The wrapped lifecycle operations\<close>

fun invalidate_tasks :: "'w client \<Rightarrow> string list \<Rightarrow> ('w, unit) M" where
  "invalidate_tasks E [] = retM ()"
| "invalidate_tasks E (u # us) = bindM (InvalidateUploadTaskCache E u) (\<lambda>_. invalidate_tasks E us)"

definition invalidate_outcome ::
  "'w client \<Rightarrow> 'w upload_service \<Rightarrow> nat \<Rightarrow> string list \<Rightarrow> nat list \<Rightarrow> ('w, unit) M" where
  "invalidate_outcome E U user_id tasks folder_ids =
     bindM (invalidate_tasks E tasks) (\<lambda>_.
       if folder_ids \<noteq> [] then callStore E (\<lambda>w. ((), us_invalidate_file_list U user_id w)) else retM ())"

definition InitUpload ::
  "'w client \<Rightarrow> 'w upload_service \<Rightarrow> string \<Rightarrow> InitUploadRequest \<Rightarrow> nat \<Rightarrow> ('w, InitUploadOutcome Result) M" where
  "InitUpload E U new_upload_id request user_id =
     bindR (InitializeUpload E (us_lifecycle U) new_upload_id
              \<lparr>ic_filename = ir_filename request, ic_file_size = ir_file_size request,
               ic_file_hash = ir_file_hash request, ic_parent_id = ir_parent_id request,
               ic_user_id = user_id, ic_max_file_size = us_max_file_size U,
               ic_chunk_size = us_chunk_size U, ic_expiry_seconds = us_expiry_seconds U,
               ic_upload_task_creation_enabled = us_creation_enabled U\<rparr>) (\<lambda>outcome.
     bindM (invalidate_outcome E U user_id (io_invalid_tasks outcome) (io_invalid_folders outcome)) (\<lambda>_.
       okR outcome))"

definition UploadService_CompleteUpload ::
  "'w client \<Rightarrow> 'w upload_service \<Rightarrow> string \<Rightarrow> nat \<Rightarrow> ('w, LifecycleFileItem Result) M" where
  "UploadService_CompleteUpload E U upload_id user_id =
     bindR (CompleteUpload E (us_lifecycle U)
              \<lparr>cc_upload_id = upload_id, cc_user_id = user_id, cc_lease_owner = us_instance_id U,
               cc_lease_duration_seconds = us_finalize_lease_seconds U\<rparr>) (\<lambda>outcome.
     bindM (invalidate_outcome E U user_id (co_invalid_tasks outcome) (co_invalid_folders outcome)) (\<lambda>_.
       okR (co_file outcome)))"

definition CancelUpload ::
  "'w client \<Rightarrow> 'w upload_service \<Rightarrow> string \<Rightarrow> nat \<Rightarrow> ('w, nat Result) M" where
  "CancelUpload E U upload_id user_id =
     bindR (CancelInProgressUpload E upload_id user_id) (\<lambda>version.
     bindM (InvalidateUploadTaskCache E upload_id) (\<lambda>_. okR version))"

end
