(* ===== verification/Task_Evolution.thy ===== *)
theory Task_Evolution
  imports Upload_Task_Repository
begin

text \<open>
  How a task row may change.  \<open>task_evolves r r'\<close> relates two states of one task: the columns
  fixed at creation stay, the state version never decreases and identifies the
  status and the lease, statuses move along \<^const>\<open>status_step\<close>, and a row in a terminal
  status is frozen, but for the reference to its file, which the foreign key clears when the
  file is deleted.  Every statement of the repository is shown to be an evolution step, so
  that whole requests, of this session and of all others, are evolutions.
\<close>

section \<open>Evolution of a row\<close>

definition same_task :: "task_row \<Rightarrow> task_row \<Rightarrow> bool" where
  "same_task r r' \<longleftrightarrow>
     t_id r' = t_id r \<and> t_user_id r' = t_user_id r \<and> t_folder_id r' = t_folder_id r \<and>
     t_filename r' = t_filename r \<and> t_file_size r' = t_file_size r \<and> t_file_hash r' = t_file_hash r \<and>
     t_chunk_size r' = t_chunk_size r \<and> t_total_chunks r' = t_total_chunks r \<and>
     t_reserved_bytes r' = t_reserved_bytes r \<and> t_temp_path r' = t_temp_path r \<and>
     t_staging_backend r' = t_staging_backend r \<and> t_staging_prefix r' = t_staging_prefix r \<and>
     t_expires_at r' = t_expires_at r \<and> t_created_at r' = t_created_at r"

definition status_path :: "int \<Rightarrow> int \<Rightarrow> bool" where
  "status_path v v' \<longleftrightarrow>
     v' = v \<or> (\<exists>st st'. v = ToStorageValue st \<and> v' = ToStorageValue st' \<and> status_step\<^sup>*\<^sup>* st st')"

definition terminal_value :: "int \<Rightarrow> bool" where
  "terminal_value v \<longleftrightarrow>
     (case UploadTaskStatusFromStorage v of None \<Rightarrow> False | Some st \<Rightarrow> IsTerminalStatus st)"

definition same_lease :: "task_row \<Rightarrow> task_row \<Rightarrow> bool" where
  "same_lease r r' \<longleftrightarrow> t_status r' = t_status r \<and> t_lease_owner r' = t_lease_owner r \<and>
     t_lease_expires_at r' = t_lease_expires_at r"

definition frozen :: "task_row \<Rightarrow> task_row \<Rightarrow> bool" where
  "frozen r r' \<longleftrightarrow> r' = r \<or> r' = r\<lparr>t_completed_file_id := None\<rparr>"

definition task_evolves :: "task_row \<Rightarrow> task_row \<Rightarrow> bool" where
  "task_evolves r r' \<longleftrightarrow>
     same_task r r' \<and> status_path (t_status r) (t_status r') \<and>
     t_state_version r \<le> t_state_version r' \<and>
     (t_state_version r' = t_state_version r \<longrightarrow> same_lease r r') \<and>
     (terminal_value (t_status r) \<longrightarrow> frozen r r')"

lemma same_task_refl [simp, intro]: "same_task r r"
  by (simp add: same_task_def)

lemma same_task_trans: "same_task r r' \<Longrightarrow> same_task r' r'' \<Longrightarrow> same_task r r''"
  by (simp add: same_task_def)

lemma status_path_trans: "status_path u v \<Longrightarrow> status_path v w \<Longrightarrow> status_path u w"
  by (auto simp: status_path_def dest: rtranclp_trans)

lemma status_path_step: "status_step st st' \<Longrightarrow> status_path (ToStorageValue st) (ToStorageValue st')"
  by (auto simp: status_path_def)

lemma terminal_value_ToStorage [simp]: "terminal_value (ToStorageValue st) = IsTerminalStatus st"
  by (simp add: terminal_value_def)

lemma terminal_value_numerals [simp]:
  "\<not> terminal_value 0" "terminal_value 1" "terminal_value 2" "terminal_value 3" "\<not> terminal_value 4" "terminal_value 5"
  using terminal_value_ToStorage [of InProgress] terminal_value_ToStorage [of Completed]
    terminal_value_ToStorage [of Cancelled] terminal_value_ToStorage [of Expired]
    terminal_value_ToStorage [of Finalizing] terminal_value_ToStorage [of Failed] by simp_all

lemma task_evolves_refl [simp, intro]: "task_evolves r r"
  by (simp add: task_evolves_def status_path_def same_lease_def frozen_def)

lemma frozen_trans: "frozen r r' \<Longrightarrow> frozen r' r'' \<Longrightarrow> frozen r r''"
  by (auto simp: frozen_def)

lemma frozen_status: "frozen r r' \<Longrightarrow> t_status r' = t_status r"
  by (auto simp: frozen_def)

lemma task_evolves_trans:
  assumes "task_evolves r r'" and "task_evolves r' r''"
  shows "task_evolves r r''"
proof -
  have "same_lease r r''" if "t_state_version r'' = t_state_version r"
    using that assms by (simp add: task_evolves_def same_lease_def)
  moreover have "frozen r r''" if "terminal_value (t_status r)"
    using that assms frozen_status [of r r'] by (auto simp: task_evolves_def intro: frozen_trans)
  ultimately show ?thesis
    using assms unfolding task_evolves_def
    by (meson same_task_trans status_path_trans le_trans)
qed

lemma task_evolves_id: "task_evolves r r' \<Longrightarrow> t_id r' = t_id r"
  by (simp add: task_evolves_def same_task_def)

text \<open>A version seen once and since replaced is never seen again: the fencing argument.\<close>

lemma evolved_version_fresh:
  "task_evolves r r' \<Longrightarrow> v < t_state_version r \<Longrightarrow> t_state_version r' \<noteq> v"
  by (auto simp: task_evolves_def)

section \<open>Evolution of the table\<close>

definition tasks_evolve :: "task_row list \<Rightarrow> task_row list \<Rightarrow> bool" where
  "tasks_evolve ts ts' \<longleftrightarrow> (\<forall>r \<in> set ts. \<exists>r' \<in> set ts'. task_evolves r r')"

lemma tasks_evolve_refl [simp, intro]: "tasks_evolve ts ts"
  by (auto simp: tasks_evolve_def)

lemma tasks_evolve_trans: "tasks_evolve a b \<Longrightarrow> tasks_evolve b c \<Longrightarrow> tasks_evolve a c"
  unfolding tasks_evolve_def by (meson task_evolves_trans)

lemma tasks_evolve_append [simp, intro]: "tasks_evolve ts (ts @ us)"
  by (auto simp: tasks_evolve_def)

text \<open>With distinct identifiers the evolved row is the one with the same identifier.\<close>

lemma tasks_evolveD:
  assumes "tasks_evolve ts ts'" and "distinct (map t_id ts')"
    and "r \<in> set ts" and "r' \<in> set ts'" and "t_id r' = t_id r"
  shows "task_evolves r r'"
proof -
  from assms(1,3) obtain x where x: "x \<in> set ts'" "task_evolves r x"
    by (auto simp: tasks_evolve_def)
  then have "t_id x = t_id r'"
    using assms(5) by (simp add: task_evolves_id)
  then have "x = r'"
    using x(1) assms(2,4) by (meson eq_key_imp_eq_value inj_onD distinct_map)
  with x(2) show ?thesis by simp
qed

text \<open>
  The contract of a statement on task rows: it keeps the key, and where its guard holds the
  new row is an evolution of the old one.
\<close>

locale task_update = keyed_update t_id guard upd
  for guard :: "task_row \<Rightarrow> bool" and upd :: "task_row \<Rightarrow> task_row" +
  assumes evolves: "guard r \<Longrightarrow> task_evolves r (upd r)"
begin

lemma table_evolves: "tasks_evolve ts (update_where guard upd ts)"
  unfolding tasks_evolve_def
proof
  fix r
  assume "r \<in> set ts"
  then show "\<exists>r' \<in> set (update_where guard upd ts). task_evolves r r'"
    using row_survives [of r ts] evolves by auto
qed

end

section \<open>The statements are evolutions\<close>

lemmas task_set_defs = claim_set_def renew_set_def complete_set_def error_set_def finish_set_def

lemmas evolution_defs = task_evolves_def same_task_def same_lease_def

lemma claim_set_evolves:
  "claim_guard d u uid r \<Longrightarrow> task_evolves r (claim_set t owner dur r)"
  using status_path_step [of InProgress Finalizing] status_path_step [of Finalizing Finalizing]
  by (auto simp: claim_guard_def evolution_defs claim_set_def)

lemma renew_set_evolves: "owns_lease t u uid owner v r \<Longrightarrow> task_evolves r (renew_set t' dur r)"
  by (auto simp: owns_lease_def evolution_defs renew_set_def status_path_def)

lemma complete_set_evolves: "owns_lease t u uid owner v r \<Longrightarrow> task_evolves r (complete_set t' f r)"
  using status_path_step [of Finalizing Completed]
  by (auto simp: owns_lease_def evolution_defs complete_set_def)

lemma error_set_evolves: "owns_lease t u uid owner v r \<Longrightarrow> task_evolves r (error_set t' c r)"
  by (auto simp: owns_lease_def evolution_defs error_set_def status_path_def)

lemma finish_set_evolves:
  "t_status r = ToStorageValue InProgress \<Longrightarrow> st \<in> {Cancelled, Expired} \<Longrightarrow> task_evolves r (finish_set st t m r)"
  using status_path_step [of InProgress st]
  by (auto simp: evolution_defs finish_set_def)

interpretation claim: task_update "claim_guard d u uid" "claim_set t owner dur" for d u uid t owner dur
  by unfold_locales (simp add: claim_set_def, rule claim_set_evolves)

interpretation renew: task_update "owns_lease t u uid owner v" "renew_set t' dur" for t u uid owner v t' dur
  by unfold_locales (simp add: renew_set_def, rule renew_set_evolves)

interpretation complete: task_update "owns_lease t u uid owner v" "complete_set t' f" for t u uid owner v t' f
  by unfold_locales (simp add: complete_set_def, rule complete_set_evolves)

interpretation error: task_update "owns_lease t u uid owner v" "error_set t' c" for t u uid owner v t' c
  by unfold_locales (simp add: error_set_def, rule error_set_evolves)

interpretation cancel: task_update "cancel_guard t u uid" "finish_set Cancelled t' m" for t u uid t' m
  by unfold_locales (simp add: finish_set_def, auto intro: finish_set_evolves simp: cancel_guard_def)

interpretation expire: task_update "expire_guard t u" "finish_set Expired t' m" for t u t' m
  by unfold_locales (simp add: finish_set_def, auto intro: finish_set_evolves simp: expire_guard_def)

end
