(* ===== verification/Upload_Invariant.thy ===== *)
theory Upload_Invariant
  imports Upload_Service Task_Evolution Trash_Data
begin

text \<open>
  The invariant of the shared state, one predicate per group of tables: task rows are
  well-formed and at most one upload of a hash is active per user, the quota columns of every
  user are the sums over uploads, files and trash, every content counts its references in files
  and trash, file, folder and trash rows carry fresh ids and names, chunk rows belong to active uploads, the job queue is well-formed, and every upload that ended has
  a job that cleans its staging area.
\<close>

section \<open>The predicates\<close>

definition task_ok :: "task_row \<Rightarrow> bool" where
  "task_ok r \<longleftrightarrow>
     t_status r \<in> ToStorageValue ` {InProgress, Completed, Cancelled, Expired, Finalizing} \<and>
     (t_lease_owner r \<noteq> None \<longleftrightarrow> t_status r = ToStorageValue Finalizing) \<and>
     (t_lease_expires_at r \<noteq> None \<longleftrightarrow> t_status r = ToStorageValue Finalizing) \<and>
     (t_completed_file_id r \<noteq> None \<longrightarrow> t_status r = ToStorageValue Completed) \<and>
     t_reserved_bytes r = t_file_size r \<and> t_filename r \<noteq> [] \<and>
     ParseUploadStagingBackend (t_staging_backend r) \<noteq> None"

definition one_active :: "task_row list \<Rightarrow> bool" where
  "one_active ts \<longleftrightarrow>
     (\<forall>r \<in> set ts. \<forall>r' \<in> set ts. active_status (t_status r) \<longrightarrow> active_status (t_status r') \<longrightarrow>
        t_user_id r = t_user_id r' \<longrightarrow> t_file_hash r = t_file_hash r' \<longrightarrow> t_id r = t_id r')"

definition tasks_inv :: "user_row list \<Rightarrow> task_row list \<Rightarrow> bool" where
  "tasks_inv us ts \<longleftrightarrow> distinct (map t_id ts) \<and> one_active ts \<and>
     (\<forall>r \<in> set ts. task_ok r \<and> t_user_id r \<in> u_id ` set us)"

definition reserved_by :: "nat \<Rightarrow> task_row \<Rightarrow> int" where
  "reserved_by u r = (if t_user_id r = u \<and> active_status (t_status r) then int (t_reserved_bytes r) else 0)"

definition file_bytes_of :: "nat \<Rightarrow> file_row \<Rightarrow> int" where
  "file_bytes_of u f = (if f_user_id f = u then int (f_size f) else 0)"

definition trash_bytes_of :: "nat \<Rightarrow> trash_row \<Rightarrow> int" where
  "trash_bytes_of u r = (if tr_user_id r = u then int (tr_item_size r) else 0)"

definition account_ok :: "task_row list \<Rightarrow> file_row list \<Rightarrow> trash_row list \<Rightarrow> user_row \<Rightarrow> bool" where
  "account_ok ts fs trs u \<longleftrightarrow>
     u_storage_reserved u = total (reserved_by (u_id u)) ts \<and>
     u_storage_used u = total (file_bytes_of (u_id u)) fs + total (trash_bytes_of (u_id u)) trs"

definition accounts_inv :: "user_row list \<Rightarrow> task_row list \<Rightarrow> file_row list \<Rightarrow> trash_row list \<Rightarrow> bool" where
  "accounts_inv us ts fs trs \<longleftrightarrow> distinct (map u_id us) \<and> (\<forall>u \<in> set us. account_ok ts fs trs u)"

definition refs_in_file :: "nat \<Rightarrow> file_row \<Rightarrow> int" where
  "refs_in_file c f = (if f_content_id f = c then 1 else 0)"

definition refs_in_trash :: "nat \<Rightarrow> trash_row \<Rightarrow> int" where
  "refs_in_trash c r = int (count_list (map fst (released r)) c)"

definition content_ok :: "file_row list \<Rightarrow> trash_row list \<Rightarrow> content_row \<Rightarrow> bool" where
  "content_ok fs trs c \<longleftrightarrow>
     fc_ref_count c = total (refs_in_file (fc_id c)) fs + total (refs_in_trash (fc_id c)) trs"

definition content_key :: "content_row \<Rightarrow> string \<times> string" where
  "content_key c = (fc_hash_md5 c, fc_hash_sha256 c)"

definition contents_inv :: "content_row list \<Rightarrow> nat \<Rightarrow> file_row list \<Rightarrow> trash_row list \<Rightarrow> bool" where
  "contents_inv cs n fs trs \<longleftrightarrow>
     distinct (map fc_id cs) \<and> distinct (map content_key cs) \<and>
     (\<forall>c \<in> set cs. 0 < fc_id c \<and> fc_id c \<le> n \<and> integer (fc_ref_count c) \<and> content_ok fs trs c) \<and>
     (\<forall>f \<in> set fs. f_content_id f \<in> fc_id ` set cs) \<and>
     (\<forall>r \<in> set trs. \<forall>p \<in> set (released r). fst p \<in> fc_id ` set cs)"

definition file_key :: "file_row \<Rightarrow> nat \<times> nat \<times> string" where
  "file_key f = (f_user_id f, f_folder_id f, f_name f)"

definition files_inv :: "file_row list \<Rightarrow> nat \<Rightarrow> bool" where
  "files_inv fs n \<longleftrightarrow> distinct (map f_id fs) \<and> distinct (map file_key fs) \<and>
     (\<forall>f \<in> set fs. 0 < f_id f \<and> f_id f \<le> n \<and> f_name f \<noteq> [])"

text \<open>The columns of a folder that its item count leaves alone.\<close>

definition folder_ident :: "folder_row \<Rightarrow> nat \<times> nat \<times> nat \<times> string \<times> string \<times> nat" where
  "folder_ident r = (d_id r, d_user_id r, d_parent_id r, d_name r, d_path r, d_depth r)"

definition folders_inv :: "folder_row list \<Rightarrow> nat \<Rightarrow> bool" where
  "folders_inv ds n \<longleftrightarrow> distinct (map d_id ds) \<and> (\<forall>r \<in> set ds. 0 < d_id r \<and> d_id r \<le> n \<and> d_name r \<noteq> [])"

text \<open>A trashed folder accounts for the bytes of the files in its snapshot.\<close>

definition trash_ok :: "trash_row \<Rightarrow> bool" where
  "trash_ok r \<longleftrightarrow> tr_item_type r \<in> {''file'', ''folder''} \<and> tr_item_name r \<noteq> [] \<and>
     (tr_item_type r = ''folder'' \<longrightarrow> tr_item_size r = sum_list (map snd (released r)))"

definition trash_inv :: "trash_row list \<Rightarrow> nat \<Rightarrow> bool" where
  "trash_inv trs n \<longleftrightarrow> distinct (map tr_id trs) \<and> (\<forall>r \<in> set trs. tr_id r \<le> n \<and> trash_ok r)"

definition active_task :: "task_row list \<Rightarrow> string \<Rightarrow> bool" where
  "active_task ts u \<longleftrightarrow> (\<exists>r \<in> set ts. t_id r = u \<and> active_status (t_status r))"

definition chunks_inv :: "task_row list \<Rightarrow> chunk_row list \<Rightarrow> bool" where
  "chunks_inv ts cs \<longleftrightarrow> distinct (map chunk_key cs) \<and>
     (\<forall>c \<in> set cs. chunk_checks c \<and> active_task ts (c_task_id c))"

definition job_ok :: "job_row \<Rightarrow> bool" where
  "job_ok r \<longleftrightarrow>
     ParseStorageJobStatus (j_status r) \<noteq> None \<and>
     (j_locked_by r \<noteq> None \<longleftrightarrow> j_status r = JobStatusToStorage Running) \<and>
     (j_locked_until r \<noteq> None \<longleftrightarrow> j_status r = JobStatusToStorage Running) \<and>
     0 < j_max_attempts r \<and> j_attempts r \<le> j_max_attempts r"

definition jobs_inv :: "job_row list \<Rightarrow> nat \<Rightarrow> bool" where
  "jobs_inv js n \<longleftrightarrow> distinct (map j_id js) \<and> distinct (map j_dedupe_key js) \<and>
     (\<forall>r \<in> set js. job_ok r \<and> j_id r \<le> n)"

definition cleanup_key :: "string \<Rightarrow> string" where
  "cleanup_key upload_id = ''staging-cleanup:'' @ upload_id"

definition cleanup_inv :: "task_row list \<Rightarrow> job_row list \<Rightarrow> bool" where
  "cleanup_inv ts js \<longleftrightarrow>
     (\<forall>r \<in> set ts. \<not> active_status (t_status r) \<longrightarrow> cleanup_key (t_id r) \<in> j_dedupe_key ` set js)"

definition db_inv :: "'w db \<Rightarrow> bool" where
  "db_inv d \<longleftrightarrow>
     tasks_inv (users d) (upload_tasks d) \<and>
     accounts_inv (users d) (upload_tasks d) (files d) (trash d) \<and>
     contents_inv (file_contents d) (seq_contents d) (files d) (trash d) \<and>
     files_inv (files d) (seq_files d) \<and>
     folders_inv (folders d) (seq_folders d) \<and>
     trash_inv (trash d) (seq_trash d) \<and>
     chunks_inv (upload_tasks d) (upload_task_chunks d) \<and>
     jobs_inv (storage_jobs d) (seq_jobs d) \<and>
     cleanup_inv (upload_tasks d) (storage_jobs d)"

lemma db_inv_unrelated [simp]:
  "db_inv (d\<lparr>store := w\<rparr>) = db_inv d" "db_inv (d\<lparr>task_cache := c\<rparr>) = db_inv d"
  "db_inv (d\<lparr>findings := fs\<rparr>) = db_inv d" "db_inv (d\<lparr>shares := ss\<rparr>) = db_inv d"
  "db_inv (d\<lparr>share_files := ls\<rparr>) = db_inv d"
  "db_inv (d\<lparr>now := t\<rparr>) = db_inv d" "db_inv (d\<lparr>steady_now := t\<rparr>) = db_inv d"
  by (simp_all add: db_inv_def)

section \<open>Facts on the predicates\<close>

lemma folders_inv_cong:
  assumes "map folder_ident ds' = map folder_ident ds"
  shows "folders_inv ds' n \<longleftrightarrow> folders_inv ds n"
proof -
  have "map d_id xs = map fst (map folder_ident xs)" for xs
    by (simp add: folder_ident_def comp_def)
  moreover have "(\<forall>r \<in> set xs. 0 < d_id r \<and> d_id r \<le> n \<and> d_name r \<noteq> []) \<longleftrightarrow>
      (\<forall>k \<in> set (map folder_ident xs). 0 < fst k \<and> fst k \<le> n \<and> fst (snd (snd (snd k))) \<noteq> [])" for xs
    by (simp add: folder_ident_def)
  ultimately show ?thesis
    using assms unfolding folders_inv_def by metis
qed

lemma active_values [simp]:
  "active_status 0" "active_status 4" "\<not> active_status 1" "\<not> active_status 2" "\<not> active_status 3"
  by (simp_all add: active_status_def)

lemma active_ToStorage [simp]: "active_status (ToStorageValue st) \<longleftrightarrow> st = InProgress \<or> st = Finalizing"
  by (cases st) (simp_all add: active_status_def)

lemma task_ok_status: "task_ok r \<Longrightarrow> active_status (t_status r) \<or> terminal_value (t_status r)"
  by (auto simp: task_ok_def active_status_def)

lemma one_activeD:
  "one_active ts \<Longrightarrow> r \<in> set ts \<Longrightarrow> r' \<in> set ts \<Longrightarrow> active_status (t_status r) \<Longrightarrow>
   active_status (t_status r') \<Longrightarrow> t_user_id r = t_user_id r' \<Longrightarrow> t_file_hash r = t_file_hash r' \<Longrightarrow>
   t_id r = t_id r'"
  unfolding one_active_def by blast

text \<open>A row may join an active set that has none of its user and hash.\<close>

lemma one_active_snoc:
  assumes "one_active ts" and "\<forall>r \<in> set ts. active_status (t_status r) \<longrightarrow> \<not> (t_user_id r = t_user_id x \<and> t_file_hash r = t_file_hash x)"
  shows "one_active (ts @ [x])"
  unfolding one_active_def
proof (intro ballI impI)
  fix r q
  assume "r \<in> set (ts @ [x])" "q \<in> set (ts @ [x])" and h: "active_status (t_status r)" "active_status (t_status q)"
    "t_user_id r = t_user_id q" "t_file_hash r = t_file_hash q"
  then consider "r \<in> set ts" "q \<in> set ts" | "r = q" | "r \<in> set ts" "q = x" | "r = x" "q \<in> set ts"
    by auto
  then show "t_id r = t_id q"
  proof cases
    case 1
    with h assms(1) show ?thesis by (blast intro: one_activeD)
  next
    case 2
    then show ?thesis by simp
  next
    case 3
    with h assms(2) show ?thesis by blast
  next
    case 4
    with h assms(2) show ?thesis by metis
  qed
qed

lemma reserved_by_nonneg [simp]: "0 \<le> reserved_by u r"
  by (simp add: reserved_by_def)

text \<open>A step on one row of the task table, in terms of what the invariant looks at.\<close>

locale task_step = keyed_update t_id guard upd
  for guard :: "task_row \<Rightarrow> bool" and upd :: "task_row \<Rightarrow> task_row" and k :: string +
  assumes pinned: "guard r \<Longrightarrow> t_id r = k"
    and step_same: "guard r \<Longrightarrow> same_task r (upd r)"
    and step_ok: "guard r \<Longrightarrow> task_ok r \<Longrightarrow> task_ok (upd r)"
    and step_active: "guard r \<Longrightarrow> active_status (t_status r)"
begin

lemma tasks_inv_step:
  assumes "tasks_inv us ts"
  shows "tasks_inv us (update_where guard upd ts)"
proof -
  have "one_active (update_where guard upd ts)"
    unfolding one_active_def
  proof (intro ballI impI)
    fix x y
    assume x: "x \<in> set (update_where guard upd ts)" and y: "y \<in> set (update_where guard upd ts)"
      and ax: "active_status (t_status x)" and ay: "active_status (t_status y)"
      and u: "t_user_id x = t_user_id y" and h: "t_file_hash x = t_file_hash y"
    from row_origin [OF x] obtain r where r: "r \<in> set ts" "t_id x = t_id r"
      "\<not> guard r \<and> x = r \<or> guard r \<and> x = upd r" by blast
    from row_origin [OF y] obtain q where q: "q \<in> set ts" "t_id y = t_id q"
      "\<not> guard q \<and> y = q \<or> guard q \<and> y = upd q" by blast
    have "active_status (t_status r)" "t_user_id r = t_user_id x" "t_file_hash r = t_file_hash x"
      using r(3) ax step_same step_active by (auto simp: same_task_def)
    moreover have "active_status (t_status q)" "t_user_id q = t_user_id y" "t_file_hash q = t_file_hash y"
      using q(3) ay step_same step_active by (auto simp: same_task_def)
    moreover have "one_active ts"
      using assms by (simp add: tasks_inv_def)
    ultimately show "t_id x = t_id y"
      unfolding one_active_def using u h r(1,2) q(1,2) by metis
  qed
  moreover have "task_ok x \<and> t_user_id x \<in> u_id ` set us" if "x \<in> set (update_where guard upd ts)" for x
    using row_origin [OF that] assms step_ok step_same by (auto simp: tasks_inv_def same_task_def)
  ultimately show ?thesis
    using assms by (simp add: tasks_inv_def distinct_keys_update)
qed

end

text \<open>A step within the active statuses keeps the sums, the chunks and the cleanup jobs as they are.\<close>

locale active_step = task_step +
  assumes stays_active: "guard r \<Longrightarrow> active_status (t_status (upd r))"
begin

lemma accounts_inv_step: "accounts_inv us ts fs trs \<Longrightarrow> accounts_inv us (update_where guard upd ts) fs trs"
proof -
  have "total (reserved_by u) (update_where guard upd ts) = total (reserved_by u) ts" for u
    by (rule total_update_same)
       (use step_same step_active stays_active in \<open>auto simp: reserved_by_def same_task_def\<close>)
  then show "accounts_inv us ts fs trs \<Longrightarrow> ?thesis"
    by (simp add: accounts_inv_def account_ok_def)
qed

lemma active_task_step: "active_task ts u \<Longrightarrow> active_task (update_where guard upd ts) u"
  unfolding active_task_def using row_survives [of _ ts] stays_active by metis

lemma chunks_inv_step: "chunks_inv ts cs \<Longrightarrow> chunks_inv (update_where guard upd ts) cs"
  using active_task_step by (auto simp: chunks_inv_def)

lemma cleanup_inv_step: "cleanup_inv ts js \<Longrightarrow> cleanup_inv (update_where guard upd ts) js"
  unfolding cleanup_inv_def using row_origin [of _ ts] stays_active by metis

lemmas inv_steps = tasks_inv_step accounts_inv_step chunks_inv_step cleanup_inv_step

end

text \<open>
  A step into a terminal status: the reservation of the row leaves the sum of its owner, its
  chunks have to go and its cleanup job has to be there.
\<close>

locale final_step = task_step +
  assumes gets_final: "guard r \<Longrightarrow> \<not> active_status (t_status (upd r))"
begin

lemma reserved_total_step:
  assumes "tasks_inv us ts" and "r \<in> set ts" and "guard r"
  shows "total (reserved_by u) (update_where guard upd ts) =
         total (reserved_by u) ts - (if u = t_user_id r then int (t_reserved_bytes r) else 0)"
proof -
  have "total (reserved_by u) (update_where guard upd ts) =
        total (reserved_by u) ts - reserved_by u r + reserved_by u (upd r)"
    using assms pinned by (intro total_pinned) (auto simp: tasks_inv_def)
  then show ?thesis
    using assms(3) step_active gets_final by (auto simp: reserved_by_def)
qed

lemma accounts_inv_final:
  assumes "accounts_inv us ts fs trs" and "tasks_inv us ts" and r: "r \<in> set ts" "guard r"
    and ids: "map u_id us' = map u_id us"
    and upd: "\<And>x'. x' \<in> set us' \<Longrightarrow> \<exists>x \<in> set us. u_id x' = u_id x \<and>
      (if u_id x = t_user_id r \<and> int (t_reserved_bytes r) \<le> u_storage_reserved x
       then u_storage_reserved x' = u_storage_reserved x - int (t_reserved_bytes r) \<and>
            u_storage_used x' = u_storage_used x + gain
       else u_storage_reserved x' = u_storage_reserved x \<and> u_storage_used x' = u_storage_used x)"
    and files': "\<And>u. total (file_bytes_of u) fs' = total (file_bytes_of u) fs + (if u = t_user_id r then gain else 0)"
  shows "accounts_inv us' (update_where guard upd ts) fs' trs"
proof -
  have "account_ok (update_where guard upd ts) fs' trs x'" if x': "x' \<in> set us'" for x'
  proof -
    from upd [OF x'] obtain x where x: "x \<in> set us" "u_id x' = u_id x"
      and eff: "if u_id x = t_user_id r \<and> int (t_reserved_bytes r) \<le> u_storage_reserved x
       then u_storage_reserved x' = u_storage_reserved x - int (t_reserved_bytes r) \<and>
            u_storage_used x' = u_storage_used x + gain
       else u_storage_reserved x' = u_storage_reserved x \<and> u_storage_used x' = u_storage_used x" by blast
    have acc: "account_ok ts fs trs x"
      using assms(1) x(1) by (simp add: accounts_inv_def)
    have "int (t_reserved_bytes r) \<le> u_storage_reserved x" if "u_id x = t_user_id r"
    proof -
      have "reserved_by (u_id x) r \<le> total (reserved_by (u_id x)) ts"
        using r(1) by (intro total_ge_member) simp_all
      with that acc r(2) step_active show ?thesis
        by (simp add: account_ok_def reserved_by_def)
    qed
    with eff acc x(2) files' reserved_total_step [OF assms(2) r] show ?thesis
      by (cases "u_id x = t_user_id r") (auto simp: account_ok_def)
  qed
  moreover have "distinct (map u_id us')"
    using assms(1) ids by (simp add: accounts_inv_def)
  ultimately show ?thesis
    by (simp add: accounts_inv_def)
qed

lemma chunks_inv_final: "chunks_inv ts cs \<Longrightarrow> chunks_inv (update_where guard upd ts) (filter (\<lambda>c. c_task_id c \<noteq> k) cs)"
proof -
  have "active_task (update_where guard upd ts) u" if act: "active_task ts u" and ne: "u \<noteq> k" for u
  proof -
    from act obtain r where r: "r \<in> set ts" "t_id r = u" "active_status (t_status r)"
      by (auto simp: active_task_def)
    moreover have "r \<in> set (update_where guard upd ts)"
      using other_rows [of k r ts] pinned r ne by blast
    ultimately show ?thesis
      by (auto simp: active_task_def)
  qed
  then show "chunks_inv ts cs \<Longrightarrow> ?thesis"
    by (auto simp: chunks_inv_def distinct_map_filter)
qed

lemma cleanup_inv_final:
  assumes "cleanup_inv ts js" and "j_dedupe_key ` set js \<subseteq> j_dedupe_key ` set js'"
    and "cleanup_key k \<in> j_dedupe_key ` set js'"
  shows "cleanup_inv (update_where guard upd ts) js'"
  unfolding cleanup_inv_def
proof (intro ballI impI)
  fix x
  assume x: "x \<in> set (update_where guard upd ts)" and fin: "\<not> active_status (t_status x)"
  from row_origin [OF x] obtain r where "r \<in> set ts" "t_id x = t_id r" "\<not> guard r \<and> x = r \<or> guard r \<and> x = upd r"
    by blast
  then show "cleanup_key (t_id x) \<in> j_dedupe_key ` set js'"
    using assms fin pinned unfolding cleanup_inv_def by (metis subsetD)
qed

end

section \<open>The statements as steps\<close>

lemmas lease_guard_defs = owns_lease_def owned_task_def

interpretation claim: active_step "claim_guard d u uid" "claim_set t owner dur" u for d u uid t owner dur
  by unfold_locales (auto simp: claim_guard_def owned_task_def claim_set_def same_task_def task_ok_def)

interpretation renew: active_step "owns_lease t u uid owner v" "renew_set t' dur" u for t u uid owner v t' dur
  by unfold_locales (auto simp: lease_guard_defs renew_set_def same_task_def task_ok_def)

interpretation error: active_step "owns_lease t u uid owner v" "error_set t' c" u for t u uid owner v t' c
  by unfold_locales (auto simp: lease_guard_defs error_set_def same_task_def task_ok_def)

interpretation complete: final_step "owns_lease t u uid owner v" "complete_set t' f" u for t u uid owner v t' f
  by unfold_locales (auto simp: lease_guard_defs complete_set_def same_task_def task_ok_def)

interpretation cancel: final_step "cancel_guard t u uid" "finish_set Cancelled t' m" u for t u uid t' m
  by unfold_locales (auto simp: cancel_guard_def owned_task_def finish_set_def same_task_def task_ok_def)

interpretation expire: final_step "expire_guard t u" "finish_set Expired t' m" u for t u t' m
  by unfold_locales (auto simp: expire_guard_def finish_set_def same_task_def task_ok_def)

end
