(* ===== verification/Upload_Transactions.thy ===== *)
theory Upload_Transactions
  imports Upload_Invariant
begin

text \<open>
  What the transactions of the upload lifecycle do when they commit: for each of them the
  resulting database, and that it satisfies the invariant again.
\<close>

section \<open>Effects of the statements\<close>

definition enqueued :: "NewStorageJob \<Rightarrow> 'w db \<Rightarrow> 'w db" where
  "enqueued job d =
     (if list_ex (has_dedupe_key (nj_dedupe_key job)) (storage_jobs d) then d else insert_job d job)"

definition without_chunks :: "string \<Rightarrow> 'w db \<Rightarrow> 'w db" where
  "without_chunks u d = d\<lparr>upload_task_chunks := filter (\<lambda>c. c_task_id c \<noteq> u) (upload_task_chunks d)\<rparr>"

definition release_users :: "nat \<Rightarrow> nat \<Rightarrow> user_row list \<Rightarrow> user_row list" where
  "release_users u b us =
     update_where (\<lambda>r. u_id r = u \<and> u_storage_reserved r \<ge> int b)
       (\<lambda>r. r\<lparr>u_storage_reserved := u_storage_reserved r - int b\<rparr>) us"

definition commit_users :: "nat \<Rightarrow> nat \<Rightarrow> user_row list \<Rightarrow> user_row list" where
  "commit_users u b us =
     update_where (\<lambda>r. u_id r = u \<and> u_storage_reserved r \<ge> int b)
       (\<lambda>r. r\<lparr>u_storage_reserved := u_storage_reserved r - int b, u_storage_used := u_storage_used r + int b\<rparr>) us"

lemma update_where_id: "(\<And>r. f r = r) \<Longrightarrow> update_where p f rs = rs"
  by (induction rs) auto

lemma release_users_zero [simp]: "release_users u 0 us = us"
  by (simp add: release_users_def update_where_id)

lemma commit_users_zero [simp]: "commit_users u 0 us = us"
  by (simp add: commit_users_def update_where_id)

lemma u_id_release [simp]: "map u_id (release_users u b us) = map u_id us"
  by (simp add: release_users_def update_where_def)

lemma u_id_commit [simp]: "map u_id (commit_users u b us) = map u_id us"
  by (simp add: commit_users_def update_where_def)

lemma ValidateBoundedValue_ok: "ValidateBoundedValue v n f s = (Inr x, s') \<Longrightarrow> s' = s"
  by (simp add: ValidateBoundedValue_def split: if_splits)

lemma ValidateNewJob_ok: "ValidateNewJob job s = (Inr x, s') \<Longrightarrow> s' = s \<and> 0 < nj_max_attempts job"
  by (auto simp: ValidateNewJob_def split: if_splits elim!: bindM_okE dest!: ValidateBoundedValue_ok)

lemma Enqueue_ok:
  assumes "Enqueue T job s = (Inr b, s')"
  shows "sdb s' = enqueued job (seen T s) \<and> 0 < nj_max_attempts job"
  using assms unfolding Enqueue_def
  by (elim bindM_okE exec_okE)
     (auto dest!: ValidateNewJob_ok simp: enqueue_stmt_def enqueued_def split: if_splits)

lemma DeleteChunks_ok: "DeleteChunks T u s = (Inr x, s') \<Longrightarrow> sdb s' = without_chunks u (seen T s)"
  unfolding DeleteChunks_def by (elim exec_okE) (simp add: without_chunks_def)

lemma Release_effect:
  "ReleaseReservedStorageChecked T u b s = (Inr (Inr x), s') \<Longrightarrow> in_tx T \<Longrightarrow>
   sdb s' = (sdb s)\<lparr>users := release_users u b (users (sdb s))\<rparr>"
  by (auto dest!: ReleaseReservedStorageChecked_ok simp: user_updated_def release_users_def update_where_id)

lemma Commit_effect:
  "CommitReservedToUsed T u b s = (Inr (Inr x), s') \<Longrightarrow> in_tx T \<Longrightarrow>
   sdb s' = (sdb s)\<lparr>users := commit_users u b (users (sdb s))\<rparr>"
  by (auto dest!: CommitReservedToUsed_ok simp: user_updated_def commit_users_def update_where_id)

text \<open>The common tail of cancellation, expiry and completion.\<close>

definition cleaned_up :: "UploadStagingSession \<Rightarrow> string \<Rightarrow> 'w db \<Rightarrow> 'w db" where
  "cleaned_up session u d = without_chunks u (enqueued (BuildStagingCleanupJob session) d)"

lemma release_and_cleanup_ok:
  assumes "release_and_cleanup T u uid c v s = (Inr (Inr w), s')" and "in_tx T"
  shows "w = v \<and> sdb s' = cleaned_up (cr_staging_session c) u
           ((sdb s)\<lparr>users := release_users uid (cr_reserved_bytes c) (users (sdb s))\<rparr>)"
  using assms unfolding release_and_cleanup_def
  by (elim bindR_okE bindM_okE) (auto dest!: Release_effect Enqueue_ok DeleteChunks_ok simp: cleaned_up_def)

section \<open>Jobs\<close>

lemma enqueued_frame [simp]:
  "users (enqueued job d) = users d" "upload_tasks (enqueued job d) = upload_tasks d"
  "upload_task_chunks (enqueued job d) = upload_task_chunks d" "file_contents (enqueued job d) = file_contents d"
  "files (enqueued job d) = files d" "trash (enqueued job d) = trash d"
  "seq_contents (enqueued job d) = seq_contents d" "seq_files (enqueued job d) = seq_files d"
  "folders (enqueued job d) = folders d" "seq_folders (enqueued job d) = seq_folders d" "seq_trash (enqueued job d) = seq_trash d"
  "now (enqueued job d) = now d"
  by (simp_all add: enqueued_def insert_job_def)

lemma without_chunks_frame [simp]:
  "users (without_chunks u d) = users d" "upload_tasks (without_chunks u d) = upload_tasks d"
  "storage_jobs (without_chunks u d) = storage_jobs d" "file_contents (without_chunks u d) = file_contents d"
  "files (without_chunks u d) = files d" "trash (without_chunks u d) = trash d"
  "seq_contents (without_chunks u d) = seq_contents d" "seq_files (without_chunks u d) = seq_files d"
  "folders (without_chunks u d) = folders d" "seq_folders (without_chunks u d) = seq_folders d" "seq_trash (without_chunks u d) = seq_trash d"
  "seq_jobs (without_chunks u d) = seq_jobs d"
  "upload_task_chunks (without_chunks u d) = filter (\<lambda>c. c_task_id c \<noteq> u) (upload_task_chunks d)"
  by (simp_all add: without_chunks_def)

lemma enqueued_keys:
  "j_dedupe_key ` set (storage_jobs (enqueued job d)) =
   insert (nj_dedupe_key job) (j_dedupe_key ` set (storage_jobs d))"
  by (auto simp: enqueued_def insert_job_def fresh_job_def has_dedupe_key_def list_ex_iff intro: rev_image_eqI)

lemma fresh_job_ok: "0 < nj_max_attempts job \<Longrightarrow> job_ok (fresh_job d job)"
  by (simp add: job_ok_def fresh_job_def ParseStorageJobStatus_def)

lemma jobs_inv_insert:
  assumes "jobs_inv (storage_jobs d) (seq_jobs d)" and "0 < nj_max_attempts job"
    and "\<not> list_ex (has_dedupe_key (nj_dedupe_key job)) (storage_jobs d)"
  shows "jobs_inv (storage_jobs (insert_job d job)) (seq_jobs (insert_job d job))"
proof -
  have "nj_dedupe_key job \<notin> j_dedupe_key ` set (storage_jobs d)"
    using assms(3) by (auto simp: list_ex_iff has_dedupe_key_def)
  moreover have "Suc (seq_jobs d) \<notin> j_id ` set (storage_jobs d)"
    using assms(1) by (fastforce simp: jobs_inv_def)
  moreover have "j_id (fresh_job d job) = Suc (seq_jobs d)" "j_dedupe_key (fresh_job d job) = nj_dedupe_key job"
    by (simp_all add: fresh_job_def)
  ultimately show ?thesis
    using assms fresh_job_ok [OF assms(2)] by (auto simp: jobs_inv_def insert_job_def le_SucI)
qed

lemma jobs_inv_enqueued:
  "jobs_inv (storage_jobs d) (seq_jobs d) \<Longrightarrow> 0 < nj_max_attempts job \<Longrightarrow>
   jobs_inv (storage_jobs (enqueued job d)) (seq_jobs (enqueued job d))"
  using jobs_inv_insert by (auto simp: enqueued_def)

lemma cleanup_job_key [simp]:
  "nj_dedupe_key (BuildStagingCleanupJob s) = cleanup_key (ss_upload_id s)"
  "nj_max_attempts (BuildStagingCleanupJob s) = 8"
  by (simp_all add: BuildStagingCleanupJob_def cleanup_key_def)

section \<open>Cancellation and expiry\<close>

lemma ToUploadTaskCleanupRecord_ok:
  "ToUploadTaskCleanupRecord r s = (Inr c, s') \<Longrightarrow>
   s' = s \<and> cr_id c = t_id r \<and> cr_user_id c = t_user_id r \<and> cr_reserved_bytes c = t_reserved_bytes r \<and>
   ss_upload_id (cr_staging_session c) = t_id r"
  by (auto simp: ToUploadTaskCleanupRecord_def split: option.splits)

lemma finish_returning_ok:
  assumes "bindM (exec T (finish_stmt p st m)) returning_cleanup s = (Inr x, s')"
  shows "sdb s' = (seen T s)\<lparr>upload_tasks := update_where (p (seen T s)) (finish_set st (now (seen T s)) m) (upload_tasks (seen T s))\<rparr> \<and>
    (case x of
       None \<Rightarrow> affected (p (seen T s)) (upload_tasks (seen T s)) = 0
     | Some (c, v) \<Rightarrow> \<exists>r \<in> set (upload_tasks (seen T s)). p (seen T s) r \<and> v = t_state_version r + 1 \<and>
         cr_id c = t_id r \<and> cr_user_id c = t_user_id r \<and> cr_reserved_bytes c = t_reserved_bytes r \<and>
         ss_upload_id (cr_staging_session c) = t_id r)"
proof -
  let ?d = "seen T s"
  from assms obtain rows s1 where ex: "exec T (finish_stmt p st m) s = (Inr rows, s1)"
    and ret: "returning_cleanup rows s1 = (Inr x, s')"
    by (rule bindM_okE)
  from ex have rows: "rows = map (finish_set st (now ?d) m) (filter (p ?d) (upload_tasks ?d))"
    and s1: "sdb s1 = ?d\<lparr>upload_tasks := update_where (p ?d) (finish_set st (now ?d) m) (upload_tasks ?d)\<rparr>"
    by (auto elim!: exec_okE simp: finish_stmt_def)
  show ?thesis
  proof (cases "filter (p ?d) (upload_tasks ?d)")
    case Nil
    then show ?thesis
      using ret rows s1 by (auto simp: returning_cleanup_def affected_def)
  next
    case (Cons r rs)
    then have "r \<in> set (upload_tasks ?d)" "p ?d r"
      using filter_eq_ConsD [OF Cons] by auto
    with Cons ret rows s1 show ?thesis
      by (auto simp: returning_cleanup_def finish_set_def elim!: bindM_okE dest!: ToUploadTaskCleanupRecord_ok)
  qed
qed

text \<open>
  The database after an upload was ended without a file: the row carries the new status, the
  reservation went back to the user, the cleanup job is queued and the chunk rows are gone.
\<close>

definition ended :: "(task_row \<Rightarrow> bool) \<Rightarrow> (task_row \<Rightarrow> task_row) \<Rightarrow> task_row \<Rightarrow> UploadStagingSession \<Rightarrow> 'w db \<Rightarrow> 'w db" where
  "ended p f r session d =
     cleaned_up session (t_id r)
       (d\<lparr>upload_tasks := update_where p f (upload_tasks d),
          users := release_users (t_user_id r) (t_reserved_bytes r) (users d)\<rparr>)"

lemma finish_tx_ok:
  assumes run: "bindM (bindM (exec T (finish_stmt p st m)) returning_cleanup) (\<lambda>y. case y of
      None \<Rightarrow> okR None
    | Some (c, v) \<Rightarrow> release_and_cleanup T u (owner c) c (Some v)) s = (Inr (Inr x), s')"
    and tx: "in_tx T"
    and pin: "\<And>r c. p (sdb s) r \<Longrightarrow> t_id r = u \<and> (cr_user_id c = t_user_id r \<longrightarrow> owner c = t_user_id r)"
  shows "x = None \<and> sdb s' = sdb s \<and> affected (p (sdb s)) (upload_tasks (sdb s)) = 0 \<or>
    (\<exists>r session. r \<in> set (upload_tasks (sdb s)) \<and> p (sdb s) r \<and> x = Some (t_state_version r + 1) \<and>
       ss_upload_id session = u \<and> sdb s' = ended (p (sdb s)) (finish_set st (now (sdb s)) m) r session (sdb s))"
proof -
  let ?d = "sdb s" and ?p = "p (sdb s)" and ?f = "finish_set st (now (sdb s)) m"
  from run obtain y s1
    where ret: "bindM (exec T (finish_stmt p st m)) returning_cleanup s = (Inr y, s1)"
      and k: "(case y of None \<Rightarrow> okR None
               | Some (c, v) \<Rightarrow> release_and_cleanup T u (owner c) c (Some v)) s1 = (Inr (Inr x), s')"
    by (rule bindM_okE)
  note eff = finish_returning_ok [OF ret, unfolded seen_tx [OF tx]]
  show ?thesis
  proof (cases y)
    case None
    with eff k show ?thesis
      by (simp add: update_where_none)
  next
    case (Some cv)
    obtain c v where cv: "cv = (c, v)" by (cases cv)
    from eff Some cv obtain r where r: "r \<in> set (upload_tasks ?d)" "?p r" "v = t_state_version r + 1"
      "cr_reserved_bytes c = t_reserved_bytes r" "ss_upload_id (cr_staging_session c) = t_id r" "cr_user_id c = t_user_id r"
      and s1: "sdb s1 = ?d\<lparr>upload_tasks := update_where ?p ?f (upload_tasks ?d)\<rparr>" by auto
    from pin [OF r(2), of c] r(6) have key: "t_id r = u" "owner c = t_user_id r" by simp_all
    from k Some cv have "release_and_cleanup T u (owner c) c (Some v) s1 = (Inr (Inr x), s')" by simp
    from release_and_cleanup_ok [OF this tx] have "x = Some v"
      "sdb s' = ended ?p ?f r (cr_staging_session c) ?d"
      using s1 r key by (simp_all add: ended_def)
    with r key show ?thesis by blast
  qed
qed

lemma cancel_tx_ok:
  assumes "cancel_tx u uid T s = (Inr (Inr x), s')" and "in_tx T"
  shows "x = None \<and> sdb s' = sdb s \<and> affected (cancel_guard (now (sdb s)) u uid) (upload_tasks (sdb s)) = 0 \<or>
    (\<exists>r session. r \<in> set (upload_tasks (sdb s)) \<and> cancel_guard (now (sdb s)) u uid r \<and> x = Some (t_state_version r + 1) \<and>
       ss_upload_id session = u \<and> sdb s' =
         ended (cancel_guard (now (sdb s)) u uid) (finish_set Cancelled (now (sdb s)) cancel_reason) r session (sdb s))"
  using assms(1)
  by (intro finish_tx_ok [where p = "\<lambda>d. cancel_guard (now d) u uid" and owner = "\<lambda>_. uid", OF _ assms(2)])
     (auto simp: cancel_tx_def MarkCancelledIfInProgressReturning_def cancel_guard_def owned_task_def)

lemma expire_tx_ok:
  assumes "expire_tx u T s = (Inr (Inr x), s')" and "in_tx T"
  shows "x = None \<and> sdb s' = sdb s \<and> affected (expire_guard (now (sdb s)) u) (upload_tasks (sdb s)) = 0 \<or>
    (\<exists>r session. r \<in> set (upload_tasks (sdb s)) \<and> expire_guard (now (sdb s)) u r \<and> x = Some (t_state_version r + 1) \<and>
       ss_upload_id session = u \<and> sdb s' =
         ended (expire_guard (now (sdb s)) u) (finish_set Expired (now (sdb s)) expire_reason) r session (sdb s))"
  using assms(1)
  by (intro finish_tx_ok [where p = "\<lambda>d. expire_guard (now d) u" and owner = cr_user_id, OF _ assms(2)])
     (auto simp: expire_tx_def MarkExpiredIfInProgressReturning_def expire_guard_def)

lemma tasks_inv_users: "map u_id us' = map u_id us \<Longrightarrow> tasks_inv us' ts = tasks_inv us ts"
  by (metis list.set_map tasks_inv_def)

lemma tasks_inv_release [simp]: "tasks_inv (release_users u b us) ts = tasks_inv us ts"
  by (rule tasks_inv_users) simp

lemma tasks_inv_commit [simp]: "tasks_inv (commit_users u b us) ts = tasks_inv us ts"
  by (rule tasks_inv_users) simp

lemma release_users_origin:
  "x' \<in> set (release_users u b us) \<Longrightarrow> \<exists>x \<in> set us. u_id x' = u_id x \<and>
     (if u_id x = u \<and> int b \<le> u_storage_reserved x
      then u_storage_reserved x' = u_storage_reserved x - int b \<and> u_storage_used x' = u_storage_used x + 0
      else u_storage_reserved x' = u_storage_reserved x \<and> u_storage_used x' = u_storage_used x)"
  unfolding release_users_def mem_update_where by (erule bexE, rule bexI [rotated], assumption) simp

lemma commit_users_origin:
  "x' \<in> set (commit_users u b us) \<Longrightarrow> \<exists>x \<in> set us. u_id x' = u_id x \<and>
     (if u_id x = u \<and> int b \<le> u_storage_reserved x
      then u_storage_reserved x' = u_storage_reserved x - int b \<and> u_storage_used x' = u_storage_used x + int b
      else u_storage_reserved x' = u_storage_reserved x \<and> u_storage_used x' = u_storage_used x)"
  unfolding commit_users_def mem_update_where by (erule bexE, rule bexI [rotated], assumption) simp

lemma cleaned_up_frame [simp]:
  "users (cleaned_up s u d) = users d" "upload_tasks (cleaned_up s u d) = upload_tasks d"
  "file_contents (cleaned_up s u d) = file_contents d" "files (cleaned_up s u d) = files d"
  "trash (cleaned_up s u d) = trash d" "seq_contents (cleaned_up s u d) = seq_contents d"
  "seq_files (cleaned_up s u d) = seq_files d"
  "folders (cleaned_up s u d) = folders d" "seq_folders (cleaned_up s u d) = seq_folders d" "seq_trash (cleaned_up s u d) = seq_trash d"
  "upload_task_chunks (cleaned_up s u d) = filter (\<lambda>c. c_task_id c \<noteq> u) (upload_task_chunks d)"
  by (simp_all add: cleaned_up_def)

lemma cleaned_up_jobs:
  "jobs_inv (storage_jobs d) (seq_jobs d) \<Longrightarrow>
   jobs_inv (storage_jobs (cleaned_up s u d)) (seq_jobs (cleaned_up s u d))"
  by (simp add: cleaned_up_def jobs_inv_enqueued)

lemma cleaned_up_keys:
  "j_dedupe_key ` set (storage_jobs (cleaned_up s u d)) =
   insert (cleanup_key (ss_upload_id s)) (j_dedupe_key ` set (storage_jobs d))"
  by (simp add: cleaned_up_def enqueued_keys)

text \<open>Chunks and cleanup jobs after a final step that was cleaned up.\<close>

lemma final_cleaned_up:
  assumes "final_step p f u" and "ss_upload_id session = u"
    and "chunks_inv (upload_tasks d) (upload_task_chunks d)" and "cleanup_inv (upload_tasks d) (storage_jobs d)"
    and "upload_tasks e = update_where p f (upload_tasks d)" and "upload_task_chunks e = upload_task_chunks d"
    and "storage_jobs e = storage_jobs d"
  shows "chunks_inv (upload_tasks (cleaned_up session u e)) (upload_task_chunks (cleaned_up session u e)) \<and>
         cleanup_inv (upload_tasks (cleaned_up session u e)) (storage_jobs (cleaned_up session u e))"
  using final_step.chunks_inv_final [OF assms(1,3)]
    final_step.cleanup_inv_final [OF assms(1,4), of "storage_jobs (cleaned_up session u e)"] assms(2,5-)
  by (auto simp: cleaned_up_keys)

lemma db_inv_ended:
  assumes fin: "final_step p f (t_id r)" and inv: "db_inv d" and r: "r \<in> set (upload_tasks d)" "p r"
    and "ss_upload_id session = t_id r"
  shows "db_inv (ended p f r session d)"
proof -
  let ?ts = "update_where p f (upload_tasks d)" and ?us = "release_users (t_user_id r) (t_reserved_bytes r) (users d)"
  let ?e = "d\<lparr>upload_tasks := ?ts, users := ?us\<rparr>"
  have "tasks_inv ?us ?ts"
    using task_step.tasks_inv_step [OF final_step.axioms(1) [OF fin]] inv by (simp add: db_inv_def)
  moreover have "accounts_inv ?us ?ts (files d) (trash d)"
    by (rule final_step.accounts_inv_final [OF fin _ _ r u_id_release release_users_origin])
       (use inv in \<open>simp_all add: db_inv_def\<close>)
  moreover have "jobs_inv (storage_jobs (ended p f r session d)) (seq_jobs (ended p f r session d))"
    unfolding ended_def by (rule cleaned_up_jobs) (use inv in \<open>simp add: db_inv_def\<close>)
  ultimately show ?thesis
    using inv final_cleaned_up [OF fin assms(5), of d ?e] by (simp add: db_inv_def ended_def)
qed

lemma cancel_tx_inv:
  assumes "cancel_tx u uid T s = (Inr (Inr x), s')" and "in_tx T" and "db_inv (sdb s)"
  shows "db_inv (sdb s')"
  using cancel_tx_ok [OF assms(1,2)] assms(3)
  by (auto simp: cancel.pinned intro!: db_inv_ended cancel.final_step_axioms)

lemma expire_tx_inv:
  assumes "expire_tx u T s = (Inr (Inr x), s')" and "in_tx T" and "db_inv (sdb s)"
  shows "db_inv (sdb s')"
  using expire_tx_ok [OF assms(1,2)] assms(3)
  by (auto simp: expire.pinned intro!: db_inv_ended expire.final_step_axioms)

end
