(* ===== verification/Upload_Commit.thy ===== *)
theory Upload_Commit
  imports Upload_Transactions
begin

text \<open>
  The transactions that create rows: a new upload task with its reservation, an instant upload
  of known content, and the closing transaction of a finalization.
\<close>

section \<open>Creating a task\<close>

definition reserve_users :: "nat \<Rightarrow> nat \<Rightarrow> user_row list \<Rightarrow> user_row list" where
  "reserve_users u b us =
     update_where (\<lambda>r. u_id r = u \<and> u_storage_used r + u_storage_reserved r + int b \<le> u_storage_quota r)
       (\<lambda>r. r\<lparr>u_storage_reserved := u_storage_reserved r + int b\<rparr>) us"

definition consume_users :: "nat \<Rightarrow> nat \<Rightarrow> user_row list \<Rightarrow> user_row list" where
  "consume_users u b us =
     update_where (\<lambda>r. u_id r = u \<and> u_storage_used r + int b \<le> u_storage_quota r)
       (\<lambda>r. r\<lparr>u_storage_used := u_storage_used r + int b\<rparr>) us"

lemma u_id_reserve [simp]: "map u_id (reserve_users u b us) = map u_id us"
  by (simp add: reserve_users_def update_where_def)

lemma u_id_consume [simp]: "map u_id (consume_users u b us) = map u_id us"
  by (simp add: consume_users_def update_where_def)

lemma u_id_set_reserve [simp]: "u_id ` set (reserve_users u b us) = u_id ` set us"
  by (metis list.set_map u_id_reserve)

lemma u_id_set_consume [simp]: "u_id ` set (consume_users u b us) = u_id ` set us"
  by (metis list.set_map u_id_consume)

lemma Reserve_effect:
  "ReserveStorage T u b s = (Inr (Inr x), s') \<Longrightarrow> in_tx T \<Longrightarrow>
   sdb s' = (sdb s)\<lparr>users := reserve_users u b (users (sdb s))\<rparr> \<and>
   (b = 0 \<or> (\<exists>r \<in> set (users (sdb s)). u_id r = u \<and> u_storage_used r + u_storage_reserved r + int b \<le> u_storage_quota r))"
  by (auto dest!: ReserveStorage_ok simp: user_updated_def reserve_users_def update_where_id)

lemma Consume_effect:
  "ConsumeUsedStorage T u b s = (Inr (Inr x), s') \<Longrightarrow> in_tx T \<Longrightarrow>
   sdb s' = (sdb s)\<lparr>users := consume_users u b (users (sdb s))\<rparr> \<and>
   (b = 0 \<or> (\<exists>r \<in> set (users (sdb s)). u_id r = u \<and> u_storage_used r + int b \<le> u_storage_quota r))"
  by (auto dest!: ConsumeUsedStorage_ok simp: user_updated_def consume_users_def update_where_id)

lemma same_user:
  "distinct (map u_id us) \<Longrightarrow> x \<in> set us \<Longrightarrow> y \<in> set us \<Longrightarrow> u_id x = u_id y \<Longrightarrow> x = y"
  by (meson distinct_map inj_onD)

lemma reserve_users_origin:
  assumes "x' \<in> set (reserve_users u b us)" and "distinct (map u_id us)"
    and "b = 0 \<or> (\<exists>r \<in> set us. u_id r = u \<and> u_storage_used r + u_storage_reserved r + int b \<le> u_storage_quota r)"
  shows "\<exists>x \<in> set us. u_id x' = u_id x \<and> u_storage_used x' = u_storage_used x \<and>
    u_storage_reserved x' = u_storage_reserved x + (if u_id x = u then int b else 0)"
proof -
  from assms(1) obtain x where x: "x \<in> set us"
    and x': "x' = (if u_id x = u \<and> u_storage_used x + u_storage_reserved x + int b \<le> u_storage_quota x
                   then x\<lparr>u_storage_reserved := u_storage_reserved x + int b\<rparr> else x)"
    by (auto simp: reserve_users_def mem_update_where)
  have "u_storage_used x + u_storage_reserved x + int b \<le> u_storage_quota x" if "u_id x = u" "b \<noteq> 0"
    using that assms(2,3) x same_user by metis
  with x x' show ?thesis by (intro bexI [of _ x]) auto
qed

lemma consume_users_origin:
  assumes "x' \<in> set (consume_users u b us)" and "distinct (map u_id us)"
    and "b = 0 \<or> (\<exists>r \<in> set us. u_id r = u \<and> u_storage_used r + int b \<le> u_storage_quota r)"
  shows "\<exists>x \<in> set us. u_id x' = u_id x \<and> u_storage_reserved x' = u_storage_reserved x \<and>
    u_storage_used x' = u_storage_used x + (if u_id x = u then int b else 0)"
proof -
  from assms(1) obtain x where x: "x \<in> set us"
    and x': "x' = (if u_id x = u \<and> u_storage_used x + int b \<le> u_storage_quota x
                   then x\<lparr>u_storage_used := u_storage_used x + int b\<rparr> else x)"
    by (auto simp: consume_users_def mem_update_where)
  have "u_storage_used x + int b \<le> u_storage_quota x" if "u_id x = u" "b \<noteq> 0"
    using that assms(2,3) x same_user by metis
  with x x' show ?thesis by (intro bexI [of _ x]) auto
qed

text \<open>The first row of the ordered selection, and that there is none only if no row matches.\<close>

definition active_for :: "nat \<Rightarrow> string \<Rightarrow> task_row \<Rightarrow> bool" where
  "active_for user_id file_hash r \<longleftrightarrow>
     t_user_id r = user_id \<and> t_file_hash r = file_hash \<and> active_status (t_status r)"

lemma FindActive_ok:
  assumes "FindActiveByUserAndHash T uid h s = (Inr x, s')"
  shows "sdb s' = seen T s \<and>
    (case x of None \<Rightarrow> \<forall>r \<in> set (upload_tasks (seen T s)). \<not> active_for uid h r
     | Some r \<Rightarrow> r \<in> set (upload_tasks (seen T s)) \<and> active_for uid h r)"
proof -
  let ?d = "seen T s"
  let ?rows = "sort_key (\<lambda>r. (t_created_at r, t_id r)) (filter (active_for uid h) (upload_tasks ?d))"
  from assms have x: "x = (case ?rows of [] \<Rightarrow> None | r # _ \<Rightarrow> Some r)" and "sdb s' = ?d"
    unfolding FindActiveByUserAndHash_def by (auto elim!: exec_okE simp: active_for_def [abs_def])
  moreover have "set ?rows = {r \<in> set (upload_tasks ?d). active_for uid h r}"
    by simp
  ultimately show ?thesis
    by (cases ?rows) auto
qed

lemma Create_ok:
  assumes "Create T task session e s = (Inr row, s')"
  shows "row = new_task_row (seen T s) task session e \<and>
    sdb s' = (seen T s)\<lparr>upload_tasks := upload_tasks (seen T s) @ [row]\<rparr> \<and>
    t_id task \<notin> t_id ` set (upload_tasks (seen T s)) \<and> t_user_id task \<in> u_id ` set (users (seen T s)) \<and>
    ss_upload_id session = t_id task \<and> ss_prefix session \<noteq> []"
  using assms
  by (auto simp: Create_def create_stmt_def Let_def split: if_splits elim!: exec_okE)

lemma create_task_tx_ok:
  assumes "create_task_tx command task session T s = (Inr (Inr x), s')" and tx: "in_tx T"
  shows "case x of
      Inl c \<Rightarrow> sdb s' = sdb s \<and> c \<in> set (upload_tasks (sdb s)) \<and> active_for (ic_user_id command) (ic_file_hash command) c
    | Inr row \<Rightarrow>
        (\<forall>r \<in> set (upload_tasks (sdb s)). \<not> active_for (ic_user_id command) (ic_file_hash command) r) \<and>
        t_id task \<notin> t_id ` set (upload_tasks (sdb s)) \<and> t_user_id task \<in> u_id ` set (users (sdb s)) \<and>
        row = new_task_row (sdb s) task session (to_uint32 (ic_expiry_seconds command)) \<and>
        (ic_file_size command = 0 \<or> (\<exists>r \<in> set (users (sdb s)). u_id r = ic_user_id command \<and>
           u_storage_used r + u_storage_reserved r + int (ic_file_size command) \<le> u_storage_quota r)) \<and>
        sdb s' = (sdb s)\<lparr>users := reserve_users (ic_user_id command) (ic_file_size command) (users (sdb s)),
                          upload_tasks := upload_tasks (sdb s) @ [row]\<rparr>"
proof -
  note [simp] = seen_tx [OF tx]
  from assms(1) obtain s1 y s2 where lock: "sdb s1 = sdb s"
    and find: "FindActiveByUserAndHash T (ic_user_id command) (ic_file_hash command) s1 = (Inr y, s2)"
    and k: "(case y of Some c \<Rightarrow> okR (Inl c) | None \<Rightarrow>
           bindR (ReserveStorage T (ic_user_id command) (ic_file_size command)) (\<lambda>_.
           bindM (Create T task session (to_uint32 (ic_expiry_seconds command))) (\<lambda>row. okR (Inr row)))) s2
         = (Inr (Inr x), s')"
    unfolding create_task_tx_def AcquireUploadInitLock_def by (auto elim!: bindM_okE exec_okE)
  note found = FindActive_ok [OF find, simplified lock seen_tx [OF tx]]
  show ?thesis
  proof (cases y)
    case (Some c)
    with found k show ?thesis by auto
  next
    case None
    with k obtain s3 row where res: "ReserveStorage T (ic_user_id command) (ic_file_size command) s2 = (Inr (Inr ()), s3)"
      and cr: "Create T task session (to_uint32 (ic_expiry_seconds command)) s3 = (Inr row, s')" and x: "x = Inr row"
      by (auto elim!: bindR_okE bindM_okE)
    from Reserve_effect [OF res tx] Create_ok [OF cr] found None x show ?thesis
      by (auto simp: new_task_row_def)
  qed
qed

lemma create_task_tx_inv:
  assumes run: "create_task_tx command (task_template command u n) session T s = (Inr (Inr x), s')" and tx: "in_tx T"
    and inv: "db_inv (sdb s)" and name: "ic_filename command \<noteq> []"
  shows "db_inv (sdb s')"
proof (cases x)
  case (Inl c)
  with create_task_tx_ok [OF run tx] inv show ?thesis by simp
next
  case (Inr row)
  let ?d = "sdb s" and ?uid = "ic_user_id command" and ?b = "ic_file_size command" and ?h = "ic_file_hash command"
  let ?us = "reserve_users ?uid ?b (users ?d)" and ?ts = "upload_tasks ?d @ [row]"
  from create_task_tx_ok [OF run tx] Inr
  have none: "\<forall>r \<in> set (upload_tasks ?d). \<not> active_for ?uid ?h r"
    and fresh: "u \<notin> t_id ` set (upload_tasks ?d)" and user: "?uid \<in> u_id ` set (users ?d)"
    and quota: "?b = 0 \<or> (\<exists>r \<in> set (users ?d). u_id r = ?uid \<and> u_storage_used r + u_storage_reserved r + int ?b \<le> u_storage_quota r)"
    and d': "sdb s' = ?d\<lparr>users := ?us, upload_tasks := ?ts\<rparr>"
    and row: "t_id row = u" "t_user_id row = ?uid" "t_file_hash row = ?h" "t_reserved_bytes row = ?b"
      "t_status row = 0" "task_ok row"
    using name by (auto simp: task_template_def new_task_row_def task_ok_def)
  have old: "tasks_inv (users ?d) (upload_tasks ?d)"
    using inv by (simp add: db_inv_def)
  have "one_active ?ts"
    using old none row by (intro one_active_snoc) (auto simp: tasks_inv_def active_for_def)
  then have "tasks_inv ?us ?ts"
    using old fresh user row by (auto simp: tasks_inv_def)
  moreover have "accounts_inv ?us ?ts (files ?d) (trash ?d)"
  proof -
    have dist: "distinct (map u_id (users ?d))" and acc: "\<And>x. x \<in> set (users ?d) \<Longrightarrow> account_ok (upload_tasks ?d) (files ?d) (trash ?d) x"
      using inv by (simp_all add: db_inv_def accounts_inv_def)
    have "account_ok ?ts (files ?d) (trash ?d) x'" if "x' \<in> set ?us" for x'
      using reserve_users_origin [OF that dist quota] acc row
      by (auto simp: account_ok_def reserved_by_def)
    with dist show ?thesis by (simp add: accounts_inv_def)
  qed
  moreover have "chunks_inv ?ts (upload_task_chunks ?d)" "cleanup_inv ?ts (storage_jobs ?d)"
    using inv row by (auto simp: db_inv_def chunks_inv_def active_task_def cleanup_inv_def)
  ultimately show ?thesis
    using inv d' by (simp add: db_inv_def)
qed

section \<open>Contents and files\<close>

text \<open>
  \<open>referenced c cs n cs' n'\<close>: the content table after one more reference to content \<open>c\<close> was taken,
  either on an existing row or with a new one.
\<close>

definition referenced :: "nat \<Rightarrow> content_row list \<Rightarrow> nat \<Rightarrow> content_row list \<Rightarrow> nat \<Rightarrow> bool" where
  "referenced c cs n cs' n' \<longleftrightarrow>
     c \<in> fc_id ` set cs \<and> (\<forall>r \<in> set cs. fc_id r = c \<longrightarrow> integer (fc_ref_count r + 1)) \<and>
       cs' = update_where (\<lambda>r. fc_id r = c) (bump_ref 1) cs \<and> n' = n \<or>
     (\<exists>r. cs' = cs @ [r] \<and> fc_id r = c \<and> c = Suc n \<and> n' = Suc n \<and> fc_ref_count r = 1 \<and>
          content_key r \<notin> content_key ` set cs)"

lemma bump_ref_simps [simp]:
  "fc_id (bump_ref k r) = fc_id r" "content_key (bump_ref k r) = content_key r"
  "fc_ref_count (bump_ref k r) = fc_ref_count r + k"
  by (simp_all add: bump_ref_def content_key_def)

lemma map_key_update_bump:
  "map fc_id (update_where p (bump_ref k) cs) = map fc_id cs"
  "map content_key (update_where p (bump_ref k) cs) = map content_key cs"
  by (simp_all add: update_where_def)

lemma refs_in_trash_zero: "c \<notin> fst ` set (released r) \<Longrightarrow> refs_in_trash c r = 0"
  by (simp add: refs_in_trash_def count_list_0_iff)

lemma contents_inv_referenced:
  assumes inv: "contents_inv cs n fs trs" and ref: "referenced c cs n cs' n'" and f: "f_content_id f = c"
  shows "contents_inv cs' n' (fs @ [f]) trs"
  using ref unfolding referenced_def
proof
  assume old: "c \<in> fc_id ` set cs \<and> (\<forall>r \<in> set cs. fc_id r = c \<longrightarrow> integer (fc_ref_count r + 1)) \<and> cs' = update_where (\<lambda>r. fc_id r = c) (bump_ref 1) cs \<and> n' = n"
  then have ids: "map fc_id cs' = map fc_id cs" "map content_key cs' = map content_key cs"
    by (simp_all add: map_key_update_bump)
  then have "fc_id ` set cs' = fc_id ` set cs"
    by (metis list.set_map)
  moreover have "0 < fc_id x' \<and> fc_id x' \<le> n \<and> integer (fc_ref_count x') \<and> content_ok (fs @ [f]) trs x'" if "x' \<in> set cs'" for x'
  proof -
    from that old obtain x where x: "x \<in> set cs" "x' = (if fc_id x = c then bump_ref 1 x else x)"
      by (auto simp: mem_update_where)
    then have "0 < fc_id x" "fc_id x \<le> n" "integer (fc_ref_count x)" "content_ok fs trs x"
      using inv by (simp_all add: contents_inv_def)
    moreover have "integer (fc_ref_count x + 1)" if "fc_id x = c"
      using that x(1) old by blast
    ultimately show ?thesis
      using x(2) f by (auto simp: content_ok_def refs_in_file_def)
  qed
  ultimately show ?thesis
    using inv ids old f by (auto simp: contents_inv_def)
next
  assume "\<exists>r. cs' = cs @ [r] \<and> fc_id r = c \<and> c = Suc n \<and> n' = Suc n \<and> fc_ref_count r = 1 \<and>
          content_key r \<notin> content_key ` set cs"
  then obtain r where r: "cs' = cs @ [r]" "fc_id r = c" "c = Suc n" "n' = Suc n" "fc_ref_count r = 1"
    "content_key r \<notin> content_key ` set cs" by blast
  have fresh: "c \<notin> fc_id ` set cs"
    using inv r(3) by (force simp: contents_inv_def)
  have "total (refs_in_file c) fs = 0"
    by (rule total_zero) (use inv fresh in \<open>auto simp: contents_inv_def refs_in_file_def\<close>)
  moreover have "total (refs_in_trash c) trs = 0"
    by (rule total_zero, rule refs_in_trash_zero) (use inv fresh in \<open>unfold contents_inv_def, blast\<close>)
  ultimately have "content_ok (fs @ [f]) trs r"
    using r f by (simp add: content_ok_def refs_in_file_def)
  moreover have "content_ok (fs @ [f]) trs x" if "x \<in> set cs" for x
    using that inv f fresh by (auto simp: contents_inv_def content_ok_def refs_in_file_def)
  ultimately show ?thesis
    using inv r f fresh by (auto simp: contents_inv_def le_SucI integer_def)
qed

text \<open>The gate and the lookups leave the tables alone.\<close>

lemma pure_ok: "exec T (pureS g) s = (Inr v, s') \<Longrightarrow> sdb s' = seen T s \<and> v = g (seen T s)"
  by (auto elim!: exec_okE)

lemma CheckReferenceGate_ok:
  "CheckReferenceGate T c s = (Inr (Inr x), s') \<Longrightarrow> sdb s' = seen T s"
  unfolding CheckReferenceGate_def CheckBlobGcReferenceGate_def
  by (auto dest!: catchM_okD pure_ok elim!: bindM_okE split: option.splits if_splits)

lemma IncrementRefCount_ok:
  assumes "IncrementRefCount T c 1 s = (Inr (Inr x), s')" and tx: "in_tx T"
  shows "c \<in> fc_id ` set (file_contents (sdb s)) \<and>
    (\<forall>r \<in> set (file_contents (sdb s)). fc_id r = c \<longrightarrow> integer (fc_ref_count r + 1)) \<and> sdb s' = (sdb s)\<lparr>file_contents :=
    update_where (\<lambda>r. fc_id r = c) (bump_ref 1) (file_contents (sdb s))\<rparr>"
proof -
  have one: "to_int32 1 = 1" by (rule to_int32_id) simp_all
  from assms show ?thesis
    unfolding IncrementRefCount_def
    by (auto simp: one count_refs_def list_ex_iff affected_pos_iff elim!: bindM_okE bindR_okE exec_okE
        dest!: catchDb_okD CheckReferenceGate_ok split: if_splits)
qed

lemma InsertFileRecord_ok:
  assumes "InsertFileRecord T uid c folder name ext sz mime path s = (Inr (Inr f), s')"
  shows "f = new_file_row (seen T s) uid c folder name ext sz mime path \<and>
    sdb s' = (seen T s)\<lparr>files := files (seen T s) @ [f], seq_files := Suc (seq_files (seen T s))\<rparr> \<and>
    (\<forall>g \<in> set (files (seen T s)). file_key g \<noteq> (uid, folder, name)) \<and>
    uid \<in> u_id ` set (users (seen T s)) \<and> c \<in> fc_id ` set (file_contents (seen T s))"
  using assms unfolding InsertFileRecord_def
  by (auto simp: Let_def list_ex_iff named_file_def file_key_def elim!: bindM_okE exec_okE
      split: if_splits option.splits)

lemma files_inv_insert:
  assumes "files_inv fs n" and "f_id f = Suc n" and "f_name f \<noteq> []" and "\<forall>g \<in> set fs. file_key g \<noteq> file_key f"
  shows "files_inv (fs @ [f]) (Suc n)"
  using assms by (force simp: files_inv_def)

lemma ResolveOwnedFolderLocation_ok:
  "ResolveOwnedFolderLocation T folder uid s = (Inr (Inr loc), s') \<Longrightarrow> in_tx T \<Longrightarrow> sdb s' = sdb s"
  by (auto simp: ResolveOwnedFolderLocation_def split: if_splits option.splits
      dest!: catchDb_okD pure_ok elim!: bindM_okE)

definition counted :: "nat \<Rightarrow> nat \<Rightarrow> int \<Rightarrow> folder_row list \<Rightarrow> folder_row list" where
  "counted folder uid k ds =
     update_where (owned_folder folder uid) (\<lambda>r. r\<lparr>d_item_count := max (d_item_count r + k) 0\<rparr>) ds"

lemma ApplyItemCountDelta_ok:
  "ApplyItemCountDelta T folder uid k s = (Inr b, s') \<Longrightarrow>
   sdb s' = (seen T s)\<lparr>folders := counted folder uid k (folders (seen T s))\<rparr>"
  by (auto simp: ApplyItemCountDelta_def counted_def elim!: exec_okE)

lemma folder_ident_counted [simp]: "map folder_ident (counted folder uid k ds) = map folder_ident ds"
  by (simp add: counted_def update_where_def folder_ident_def)

lemma count_item_ok:
  "count_item T folder uid s = (Inr x, s') \<Longrightarrow> in_tx T \<Longrightarrow>
   \<exists>ds. sdb s' = (sdb s)\<lparr>folders := ds\<rparr> \<and> map folder_ident ds = map folder_ident (folders (sdb s))"
  by (auto simp: count_item_def elim!: bindM_okE dest!: ApplyItemCountDelta_ok split: if_splits
      intro: exI [of _ "folders (sdb s)"])

section \<open>Instant uploads\<close>

text \<open>
  \<open>filed\<close> is the effect both committing transactions share: one more reference to a content, one
  more file of the user and the quota columns \<open>us'\<close>.
\<close>

definition filed :: "user_row list \<Rightarrow> content_row list \<Rightarrow> nat \<Rightarrow> file_row \<Rightarrow> folder_row list \<Rightarrow> 'w db \<Rightarrow> 'w db" where
  "filed us' cs' n' f ds d =
     d\<lparr>file_contents := cs', seq_contents := n', files := files d @ [f],
       seq_files := Suc (seq_files d), folders := ds, users := us'\<rparr>"

lemma IsFilenameExists_ok:
  "IsFilenameExists T folder name uid s = (Inr b, s') \<Longrightarrow> in_tx T \<Longrightarrow> sdb s' = sdb s"
  by (auto simp: IsFilenameExists_def catchDb_def catchM_def split: prod.splits sum.splits if_splits
      dest: pure_ok exec_throws_keeps)

lemma instant_upload_tx_ok:
  assumes "instant_upload_tx command content T s = (Inr (Inr f), s')" and tx: "in_tx T"
  shows "\<exists>us' cs' n' ds. sdb s' = filed us' cs' n' f ds (sdb s) \<and> map folder_ident ds = map folder_ident (folders (sdb s)) \<and>
    us' = consume_users (ic_user_id command) (ic_file_size command) (users (sdb s)) \<and>
    (ic_file_size command = 0 \<or> (\<exists>r \<in> set (users (sdb s)). u_id r = ic_user_id command \<and>
       u_storage_used r + int (ic_file_size command) \<le> u_storage_quota r)) \<and>
    referenced (cm_id content) (file_contents (sdb s)) (seq_contents (sdb s)) cs' n' \<and>
    f_id f = Suc (seq_files (sdb s)) \<and> f_user_id f = ic_user_id command \<and> f_size f = ic_file_size command \<and>
    f_content_id f = cm_id content \<and> f_name f = ic_filename command \<and> f_folder_id f = ic_parent_id command \<and>
    (\<forall>g \<in> set (files (sdb s)). file_key g \<noteq> file_key f)"
proof -
  note [simp] = seen_tx [OF tx]
  from assms(1) obtain b s1 s2 s3 loc s4 s5 where
    ex: "IsFilenameExists T (ic_parent_id command) (ic_filename command) (ic_user_id command) s = (Inr b, s1)"
    and cons: "ConsumeUsedStorage T (ic_user_id command) (ic_file_size command) s1 = (Inr (Inr ()), s2)"
    and inc: "IncrementRefCount T (cm_id content) 1 s2 = (Inr (Inr ()), s3)"
    and loc: "ResolveOwnedFolderLocation T (ic_parent_id command) (ic_user_id command) s3 = (Inr (Inr loc), s4)"
    and ins: "InsertFileRecord T (ic_user_id command) (cm_id content) (ic_parent_id command)
        (ic_filename command) (ExtractFileExtension (ic_filename command)) (ic_file_size command)
        (cm_mime_type content) (BuildFilePath (loc_path loc) (ic_filename command)) s4 = (Inr (Inr f), s5)"
    and cnt: "count_item T (ic_parent_id command) (ic_user_id command) s5 = (Inr (), s')"
    unfolding instant_upload_tx_def by (auto elim!: bindM_okE bindR_okE split: if_splits)
  from count_item_ok [OF cnt tx] obtain ds where "sdb s' = (sdb s5)\<lparr>folders := ds\<rparr>"
    and "map folder_ident ds = map folder_ident (folders (sdb s5))" by blast
  with IsFilenameExists_ok [OF ex tx] Consume_effect [OF cons tx] IncrementRefCount_ok [OF inc tx]
    ResolveOwnedFolderLocation_ok [OF loc tx] InsertFileRecord_ok [OF ins]
  show ?thesis
    by (intro exI [of _ "users (sdb s')"] exI [of _ "file_contents (sdb s')"] exI [of _ "seq_contents (sdb s')"] exI [of _ ds])
       (auto simp: filed_def referenced_def new_file_row_def file_key_def)
qed

lemma db_inv_filed:
  assumes inv: "db_inv d" and acc: "accounts_inv us' (upload_tasks d) (files d @ [f]) (trash d)"
    and us: "map u_id us' = map u_id (users d)"
    and "referenced (f_content_id f) (file_contents d) (seq_contents d) cs' n'"
    and "f_id f = Suc (seq_files d)" and "f_name f \<noteq> []" and "\<forall>g \<in> set (files d). file_key g \<noteq> file_key f"
    and "map folder_ident ds = map folder_ident (folders d)"
  shows "db_inv (filed us' cs' n' f ds d)"
  using inv acc contents_inv_referenced [OF _ assms(4) refl] files_inv_insert [OF _ assms(5,6,7)] tasks_inv_users [OF us]
    folders_inv_cong [OF assms(8)]
  by (simp add: db_inv_def filed_def)

lemma instant_upload_tx_inv:
  assumes run: "instant_upload_tx command content T s = (Inr (Inr f), s')" and tx: "in_tx T" and inv: "db_inv (sdb s)"
    and name: "ic_filename command \<noteq> []"
  shows "db_inv (sdb s')"
proof -
  let ?d = "sdb s" and ?uid = "ic_user_id command" and ?b = "ic_file_size command"
  let ?us = "consume_users ?uid ?b (users ?d)"
  from instant_upload_tx_ok [OF run tx] obtain cs' n' ds where d': "sdb s' = filed ?us cs' n' f ds ?d"
    and ds: "map folder_ident ds = map folder_ident (folders ?d)"
    and quota: "?b = 0 \<or> (\<exists>r \<in> set (users ?d). u_id r = ?uid \<and> u_storage_used r + int ?b \<le> u_storage_quota r)"
    and ref: "referenced (cm_id content) (file_contents ?d) (seq_contents ?d) cs' n'"
    and f: "f_id f = Suc (seq_files ?d)" "f_user_id f = ?uid" "f_size f = ?b" "f_content_id f = cm_id content"
      "\<forall>g \<in> set (files ?d). file_key g \<noteq> file_key f" "f_name f = ic_filename command" by blast
  have dist: "distinct (map u_id (users ?d))" and acc: "\<And>x. x \<in> set (users ?d) \<Longrightarrow> account_ok (upload_tasks ?d) (files ?d) (trash ?d) x"
    using inv by (simp_all add: db_inv_def accounts_inv_def)
  have "account_ok (upload_tasks ?d) (files ?d @ [f]) (trash ?d) x'" if "x' \<in> set ?us" for x'
    using consume_users_origin [OF that dist quota] acc f by (auto simp: account_ok_def file_bytes_of_def)
  with dist have "accounts_inv ?us (upload_tasks ?d) (files ?d @ [f]) (trash ?d)"
    by (simp add: accounts_inv_def)
  with inv d' ds ref f name show ?thesis
    by (simp add: db_inv_filed)
qed

section \<open>Finalization\<close>

lemma ValidateLeaseArguments_ok: "ValidateLeaseArguments owner dur s = (Inr x, s') \<Longrightarrow> s' = s"
  by (simp add: ValidateLeaseArguments_def split: if_splits)

definition renewed :: "CompleteUploadCommand \<Rightarrow> nat \<Rightarrow> 'w db \<Rightarrow> 'w db" where
  "renewed command v d =
     d\<lparr>upload_tasks := update_where
         (owns_lease (now d) (cc_upload_id command) (cc_user_id command) (cc_lease_owner command) v)
         (renew_set (now d) (cc_lease_duration_seconds command)) (upload_tasks d)\<rparr>"

lemma RenewLeaseOrConflict_ok:
  assumes "RenewLeaseOrConflict T command v s = (Inr (Inr v'), s')"
  shows "sdb s' = renewed command v (seen T s) \<and> v' = v + 1 \<and>
    (\<exists>r \<in> set (upload_tasks (seen T s)).
       owns_lease (now (seen T s)) (cc_upload_id command) (cc_user_id command) (cc_lease_owner command) v r)"
proof -
  let ?d = "seen T s"
  let ?p = "owns_lease (now ?d) (cc_upload_id command) (cc_user_id command) (cc_lease_owner command) v"
  from assms obtain vs s1 where ex: "exec T (renew_stmt (cc_upload_id command) (cc_user_id command)
      (cc_lease_owner command) v (cc_lease_duration_seconds command)) s = (Inr vs, s1)"
    and k: "(case vs of [] \<Rightarrow> None | x # _ \<Rightarrow> Some x) = Some v'" "s' = s1"
    unfolding RenewLeaseOrConflict_def RenewFinalizeLease_def
    by (auto dest!: catchM_okD ValidateLeaseArguments_ok elim!: bindM_okE split: list.splits option.splits)
  from ex have "vs = map (\<lambda>r. t_state_version r + 1) (filter ?p (upload_tasks ?d))"
    and s1: "sdb s1 = renewed command v ?d"
    by (auto elim!: exec_okE simp: renew_stmt_def renewed_def Let_def)
  with k(1) obtain r rs where "filter ?p (upload_tasks ?d) = r # rs" "v' = t_state_version r + 1"
    by (cases "filter ?p (upload_tasks ?d)") auto
  moreover from this have "r \<in> set (upload_tasks ?d)" "?p r"
    using filter_eq_ConsD by fastforce+
  ultimately show ?thesis
    using s1 k(2) by (auto simp: owns_lease_def)
qed

lemma MarkCompleted_ok:
  assumes "MarkCompletedIfLeaseOwned T u uid owner v fid s = (Inr b, s')"
  shows "sdb s' = (seen T s)\<lparr>upload_tasks := update_where (owns_lease (now (seen T s)) u uid owner v)
      (complete_set (now (seen T s)) fid) (upload_tasks (seen T s))\<rparr> \<and>
    (b \<longleftrightarrow> (\<exists>r \<in> set (upload_tasks (seen T s)). owns_lease (now (seen T s)) u uid owner v r))"
  using assms unfolding MarkCompletedIfLeaseOwned_def
  by (auto elim!: exec_okE simp: complete_stmt_def Let_def affected_pos_iff)

lemma db_inv_renewed: "db_inv d \<Longrightarrow> db_inv (renewed command v d)"
  by (simp add: db_inv_def renewed_def renew.inv_steps)

text \<open>Acquiring a reference under the invariant: at most one row carries the two hashes.\<close>

lemma same_hashes_key:
  "same_hashes content r \<longleftrightarrow> content_key r = (nc_hash_md5 content, nc_hash_sha256 content)"
  by (auto simp: same_hashes_def content_key_def)

lemma update_same_hashes:
  assumes "distinct (map content_key cs)" and "distinct (map fc_id cs)" and "r \<in> set cs" and "same_hashes content r"
  shows "update_where (same_hashes content) g cs = update_where (\<lambda>x. fc_id x = fc_id r) g cs"
proof -
  have "same_hashes content x \<longleftrightarrow> fc_id x = fc_id r" if "x \<in> set cs" for x
    using that assms inj_onD [of content_key "set cs" x r] inj_onD [of fc_id "set cs" x r]
    by (auto simp: distinct_map same_hashes_key)
  then show ?thesis
    by (simp add: update_where_def)
qed

lemma AcquireReference_ok:
  assumes run: "AcquireReference T content expected s = (Inr (Inr md), s')" and tx: "in_tx T"
    and inv: "contents_inv (file_contents (sdb s)) (seq_contents (sdb s)) fs trs"
  shows "\<exists>cs' n'. sdb s' = (sdb s)\<lparr>file_contents := cs', seq_contents := n'\<rparr> \<and>
    referenced (cm_id md) (file_contents (sdb s)) (seq_contents (sdb s)) cs' n' \<and>
    (\<exists>r \<in> set cs'. fc_id r = cm_id md \<and> same_hashes content r \<and> fc_size r = nc_size content)"
proof -
  note [simp] = seen_tx [OF tx]
  let ?d = "sdb s"
  from run obtain s1 r s2 where up: "exec T (upsert_content content) s1 = (Inr (Some r), s2)"
    and eq: "sdb s1 = ?d" "sdb s' = sdb s2" "cm_id md = fc_id r"
    unfolding AcquireReference_def
    by (auto simp: Let_def ToMetadata_def elim!: bindM_okE bindR_okE dest!: catchDb_okD pure_ok CheckReferenceGate_ok
        split: if_splits option.splits)
  from up have up': "upsert_content content ?d = (Inr (Some r), sdb s2)"
    using eq(1) by (auto elim!: exec_okE)
  show ?thesis
  proof (cases "find_row (same_hashes content) (file_contents ?d)")
    case None
    with up' have r: "r = new_content_row ?d content" and s2: "sdb s2 = ?d\<lparr>file_contents := file_contents ?d @ [r], seq_contents := Suc (seq_contents ?d)\<rparr>"
      by (auto simp: upsert_content_def Let_def)
    have "content_key r \<notin> content_key ` set (file_contents ?d)"
      using None r by (auto simp: find_row_None same_hashes_key new_content_row_def content_key_def)
    with r s2 eq show ?thesis
      by (intro exI [of _ "file_contents ?d @ [r]"] exI [of _ "Suc (seq_contents ?d)"])
         (auto simp: referenced_def new_content_row_def same_hashes_def)
  next
    case (Some q)
    then have q: "q \<in> set (file_contents ?d)" "same_hashes content q"
      using find_row_Some by fastforce+
    from Some up' have sz: "fc_size q = nc_size content" and r: "r = bump_ref 1 q" and range: "integer (fc_ref_count q + 1)"
      and s2: "sdb s2 = ?d\<lparr>file_contents := update_where (same_hashes content) (bump_ref 1) (file_contents ?d)\<rparr>"
      by (auto simp: upsert_content_def split: if_splits)
    have upd: "update_where (same_hashes content) (bump_ref 1) (file_contents ?d) =
               update_where (\<lambda>x. fc_id x = fc_id q) (bump_ref 1) (file_contents ?d)"
      using inv q by (intro update_same_hashes) (simp_all add: contents_inv_def)
    have "integer (fc_ref_count x + 1)" if "x \<in> set (file_contents ?d)" "fc_id x = fc_id q" for x
      using that q(1) range inv inj_onD [of fc_id "set (file_contents ?d)" x q] by (auto simp: contents_inv_def distinct_map)
    moreover have "bump_ref 1 q \<in> set (update_where (\<lambda>x. fc_id x = fc_id q) (bump_ref 1) (file_contents ?d))"
      using q(1) by (auto simp: mem_update_where)
    ultimately show ?thesis using q sz r s2 eq upd
      by (intro exI [of _ "update_where (\<lambda>x. fc_id x = fc_id q) (bump_ref 1) (file_contents ?d)"] exI [of _ "seq_contents ?d"])
         (auto simp: referenced_def same_hashes_def bump_ref_def intro!: bexI [of _ "bump_ref 1 q"])
  qed
qed

text \<open>
  The database after a completed upload: first the lease was renewed, then the content was
  referenced, the file inserted, the reservation turned into usage, the row completed and the
  staging area handed to the cleanup.
\<close>

definition completed_from ::
  "CompleteUploadCommand \<Rightarrow> nat \<Rightarrow> nat \<Rightarrow> UploadStagingSession \<Rightarrow> content_row list \<Rightarrow> nat \<Rightarrow> file_row \<Rightarrow> folder_row list \<Rightarrow> 'w db \<Rightarrow> 'w db" where
  "completed_from command v b session cs' n' f ds e =
     cleaned_up session (cc_upload_id command)
       ((filed (commit_users (cc_user_id command) b (users e)) cs' n' f ds e)
          \<lparr>upload_tasks := update_where
             (owns_lease (now e) (cc_upload_id command) (cc_user_id command) (cc_lease_owner command) v)
             (complete_set (now e) (f_id f)) (upload_tasks e)\<rparr>)"

lemma complete_tx_ok:
  assumes run: "complete_tx command v upload_task session assembled path dec T s = (Inr (Inr f), s')" and tx: "in_tx T"
    and inv: "contents_inv (file_contents (sdb s)) (seq_contents (sdb s)) fs trs"
  shows "\<exists>cs' n' ds. let e = renewed command v (sdb s) in
    (\<exists>r \<in> set (upload_tasks (sdb s)). owns_lease (now (sdb s)) (cc_upload_id command) (cc_user_id command) (cc_lease_owner command) v r) \<and>
    (\<exists>r \<in> set (upload_tasks e). owns_lease (now e) (cc_upload_id command) (cc_user_id command) (cc_lease_owner command) (v + 1) r) \<and>
    sdb s' = completed_from command (v + 1) (t_file_size upload_task) session cs' n' f ds e \<and>
    map folder_ident ds = map folder_ident (folders e) \<and>
    referenced (f_content_id f) (file_contents e) (seq_contents e) cs' n' \<and>
    (\<exists>c \<in> set cs'. fc_id c = f_content_id f \<and> fc_hash_md5 c = as_md5_hash assembled \<and>
       fc_hash_sha256 c = as_sha256_hash assembled \<and> fc_size c = t_file_size upload_task) \<and>
    f_id f = Suc (seq_files e) \<and> f_user_id f = cc_user_id command \<and> f_size f = t_file_size upload_task \<and>
    f_name f = t_filename upload_task \<and> f_folder_id f = t_folder_id upload_task \<and>
    (\<forall>g \<in> set (files e). file_key g \<noteq> file_key f)"
proof -
  note [simp] = seen_tx [OF tx]
  let ?u = "cc_upload_id command" and ?uid = "cc_user_id command" and ?owner = "cc_lease_owner command"
  let ?e = "renewed command v (sdb s)" and ?b = "t_file_size upload_task"
  let ?nc = "\<lparr>nc_hash_md5 = as_md5_hash assembled, nc_hash_sha256 = as_sha256_hash assembled,
               nc_size = ?b, nc_storage_path = path, nc_mime_type = ''''\<rparr>"
  from run obtain v' s1 md s2 loc s3 s4 s5 x s6 s7 b s8 y where
    ren: "RenewLeaseOrConflict T command v s = (Inr (Inr v'), s1)"
    and acq: "AcquireReference T ?nc (decided_content_id dec) s1 = (Inr (Inr md), s2)"
    and loc: "ResolveOwnedFolderLocation T (t_folder_id upload_task) ?uid s2 = (Inr (Inr loc), s3)"
    and ins: "InsertFileRecord T ?uid (cm_id md) (t_folder_id upload_task) (t_filename upload_task)
        (ExtractFileExtension (t_filename upload_task)) ?b '''' (BuildFilePath (loc_path loc) (t_filename upload_task)) s3 = (Inr (Inr f), s4)"
    and cnt: "count_item T (t_folder_id upload_task) ?uid s4 = (Inr x, s5)"
    and com: "CommitReservedToUsed T ?uid ?b s5 = (Inr (Inr ()), s6)"
    and mark: "MarkCompletedIfLeaseOwned T ?u ?uid ?owner v' (f_id f) s6 = (Inr True, s7)"
    and enq: "Enqueue T (BuildStagingCleanupJob session) s7 = (Inr b, s8)"
    and del: "DeleteChunks T ?u s8 = (Inr y, s')"
    unfolding complete_tx_def by (auto elim!: bindM_okE bindR_okE split: if_splits)
  from RenewLeaseOrConflict_ok [OF ren] have s1: "sdb s1 = ?e" "v' = v + 1"
    and owned: "\<exists>r \<in> set (upload_tasks (sdb s)). owns_lease (now (sdb s)) ?u ?uid ?owner v r" by simp_all
  have "contents_inv (file_contents (sdb s1)) (seq_contents (sdb s1)) fs trs"
    using inv s1 by (simp add: renewed_def)
  from AcquireReference_ok [OF acq tx this] obtain cs' n' where
    s2: "sdb s2 = (sdb s1)\<lparr>file_contents := cs', seq_contents := n'\<rparr>"
    and ref: "referenced (cm_id md) (file_contents (sdb s1)) (seq_contents (sdb s1)) cs' n'"
    and row: "\<exists>r \<in> set cs'. fc_id r = cm_id md \<and> same_hashes ?nc r \<and> fc_size r = ?b" by auto
  from count_item_ok [OF cnt tx] obtain ds where s5: "sdb s5 = (sdb s4)\<lparr>folders := ds\<rparr>"
    and ds: "map folder_ident ds = map folder_ident (folders (sdb s4))" by blast
  note fin = ResolveOwnedFolderLocation_ok [OF loc tx] InsertFileRecord_ok [OF ins] Commit_effect [OF com tx]
    MarkCompleted_ok [OF mark] Enqueue_ok [OF enq] DeleteChunks_ok [OF del]
  have f: "f_content_id f = cm_id md" "f_id f = Suc (seq_files ?e)" "f_user_id f = ?uid" "f_size f = ?b"
    "f_name f = t_filename upload_task" "f_folder_id f = t_folder_id upload_task"
    "\<forall>g \<in> set (files ?e). file_key g \<noteq> file_key f"
    using fin s1 s2 by (auto simp: new_file_row_def file_key_def)
  have "sdb s4 = (sdb s3)\<lparr>files := files (sdb s3) @ [f], seq_files := Suc (seq_files (sdb s3))\<rparr>"
    using fin(2) by simp
  with fin(1,3-) s1 s2 s5 have "sdb s' = completed_from command (v + 1) ?b session cs' n' f ds ?e"
    by (simp add: completed_from_def filed_def cleaned_up_def)
  moreover have "\<exists>r \<in> set (upload_tasks ?e). owns_lease (now ?e) ?u ?uid ?owner (v + 1) r"
    using fin s1 s2 s5 by simp
  ultimately show ?thesis
    using owned f ref row s1 s2 fin(1,2) ds by (intro exI [of _ cs'] exI [of _ n'] exI [of _ ds]) (auto simp: Let_def same_hashes_def)
qed

text \<open>
  The transaction keeps the invariant if the task it was prepared from is the one in the
  table; the reservation it turns into usage is then the one of the row.
\<close>

lemma complete_tx_inv:
  assumes run: "complete_tx command v upload_task session assembled path dec T s = (Inr (Inr f), s')" and tx: "in_tx T"
    and inv: "db_inv (sdb s)"
    and prep: "t \<in> set (upload_tasks (sdb s))" "same_task upload_task t" "t_id t = cc_upload_id command"
      "ss_upload_id session = cc_upload_id command"
  shows "db_inv (sdb s')"
proof -
  let ?u = "cc_upload_id command" and ?uid = "cc_user_id command" and ?owner = "cc_lease_owner command"
  let ?e = "renewed command v (sdb s)" and ?b = "t_file_size upload_task"
  have inve: "db_inv ?e" using inv by (rule db_inv_renewed)
  have "contents_inv (file_contents (sdb s)) (seq_contents (sdb s)) (files (sdb s)) (trash (sdb s))"
    using inv by (simp add: db_inv_def)
  from complete_tx_ok [OF run tx this] obtain cs' n' ds r where
    r: "r \<in> set (upload_tasks ?e)" "owns_lease (now ?e) ?u ?uid ?owner (v + 1) r"
    and d': "sdb s' = completed_from command (v + 1) ?b session cs' n' f ds ?e"
    and ref: "referenced (f_content_id f) (file_contents ?e) (seq_contents ?e) cs' n'"
    and ds: "map folder_ident ds = map folder_ident (folders ?e)"
    and f: "f_id f = Suc (seq_files ?e)" "f_user_id f = ?uid" "f_size f = ?b" "\<forall>g \<in> set (files ?e). file_key g \<noteq> file_key f"
      "f_name f = t_filename upload_task"
    by (auto simp: Let_def)
  let ?p = "owns_lease (now ?e) ?u ?uid ?owner (v + 1)" and ?f = "complete_set (now ?e) (f_id f)"
  have fin: "final_step ?p ?f ?u" by (rule complete.final_step_axioms)
  from r(2) have key: "t_id r = ?u" "t_user_id r = ?uid" by (simp_all add: lease_guard_defs)
  have bytes: "t_reserved_bytes r = ?b"
  proof -
    from r(1) have "r \<in> set (update_where (owns_lease (now (sdb s)) ?u ?uid ?owner v)
        (renew_set (now (sdb s)) (cc_lease_duration_seconds command)) (upload_tasks (sdb s)))"
      by (simp add: renewed_def)
    from renew.row_origin [OF this] obtain q where q: "q \<in> set (upload_tasks (sdb s))" "t_id r = t_id q"
      "r = q \<or> r = renew_set (now (sdb s)) (cc_lease_duration_seconds command) q" by blast
    then have "t_reserved_bytes r = t_reserved_bytes q" by (auto simp: renew_set_def)
    moreover have "q = t"
      using q(1,2) prep(1,3) key inv by (metis db_inv_def distinct_map inj_onD tasks_inv_def)
    moreover have "task_ok t"
      using prep(1) inv by (simp add: db_inv_def tasks_inv_def)
    ultimately show ?thesis
      using prep(2) by (simp add: task_ok_def same_task_def)
  qed
  have name: "t_filename upload_task \<noteq> []"
    using prep(1,2) inv by (auto simp: db_inv_def tasks_inv_def task_ok_def same_task_def)
  let ?us = "commit_users ?uid ?b (users ?e)" and ?ts = "update_where ?p ?f (upload_tasks ?e)"
  let ?x = "(filed ?us cs' n' f ds ?e)\<lparr>upload_tasks := ?ts\<rparr>"
  have old: "accounts_inv (users ?e) (upload_tasks ?e) (files ?e) (trash ?e)" "tasks_inv (users ?e) (upload_tasks ?e)"
    using inve by (simp_all add: db_inv_def)
  have "accounts_inv (commit_users (t_user_id r) (t_reserved_bytes r) (users ?e)) ?ts (files ?e @ [f]) (trash ?e)"
    by (rule final_step.accounts_inv_final [OF fin old r u_id_commit commit_users_origin])
       (use f key bytes in \<open>simp_all add: file_bytes_of_def\<close>)
  then have "accounts_inv ?us ?ts (files ?e @ [f]) (trash ?e)"
    using key bytes by simp
  moreover have "tasks_inv ?us ?ts"
    using task_step.tasks_inv_step [OF final_step.axioms(1) [OF fin]] inve by (simp add: db_inv_def)
  moreover have "jobs_inv (storage_jobs (cleaned_up session ?u ?x)) (seq_jobs (cleaned_up session ?u ?x))"
    by (rule cleaned_up_jobs) (use inve in \<open>simp add: db_inv_def filed_def\<close>)
  moreover have "contents_inv cs' n' (files ?e @ [f]) (trash ?e)"
    using inve by (intro contents_inv_referenced [OF _ ref refl]) (simp add: db_inv_def)
  moreover have "files_inv (files ?e @ [f]) (Suc (seq_files ?e))"
    using inve f(5) name by (intro files_inv_insert [OF _ f(1) _ f(4)]) (simp_all add: db_inv_def)
  moreover have "folders_inv ds (seq_folders ?e)"
    using inve folders_inv_cong [OF ds] by (simp add: db_inv_def)
  ultimately show ?thesis
    using d' inve final_cleaned_up [OF fin prep(4), of ?e ?x]
    by (simp add: db_inv_def completed_from_def filed_def)
qed

end
