(* ===== verification/Job_Queue.thy ===== *)
theory Job_Queue
  imports Upload_Transactions
begin

text \<open>
  The job queue as a shared structure: every statement of the repository keeps the queue
  well-formed, loses no job and leaves all dedupe keys taken; who may be claimed, by whom and how
  often.
\<close>

section \<open>Steps on job rows\<close>

text \<open>The contract of a statement on job rows.\<close>

locale job_update = keyed_update j_id guard upd
  for guard :: "job_row \<Rightarrow> bool" and upd :: "job_row \<Rightarrow> job_row" +
  assumes dedupe_same: "guard r \<Longrightarrow> j_dedupe_key (upd r) = j_dedupe_key r"
    and upd_ok: "guard r \<Longrightarrow> job_ok r \<Longrightarrow> job_ok (upd r)"
begin

lemma dedupe_keys: "map j_dedupe_key (update_where guard upd js) = map j_dedupe_key js"
  by (simp add: update_where_def dedupe_same)

lemma jobs_inv_update: "jobs_inv js n \<Longrightarrow> jobs_inv (update_where guard upd js) n"
  using row_origin [of _ js] upd_ok
  by (fastforce simp: jobs_inv_def distinct_keys_update dedupe_keys)

lemma cleanup_inv_update: "cleanup_inv ts js \<Longrightarrow> cleanup_inv ts (update_where guard upd js)"
  unfolding cleanup_inv_def using dedupe_keys [of js] by (metis list.set_map)

lemma db_inv_update: "db_inv d \<Longrightarrow> db_inv (d\<lparr>storage_jobs := update_where guard upd (storage_jobs d)\<rparr>)"
  by (simp add: db_inv_def jobs_inv_update cleanup_inv_update)

end

lemma parse_values [simp]:
  "ParseStorageJobStatus 0 = Some Pending" "ParseStorageJobStatus 1 = Some Running"
  "ParseStorageJobStatus 2 = Some Retry" "ParseStorageJobStatus 3 = Some Succeeded"
  "ParseStorageJobStatus 4 = Some DeadLetter"
  by (simp_all add: ParseStorageJobStatus_def)

interpretation exhaust: job_update "exhausted_guard t" exhausted_set for t
  by unfold_locales (auto simp: exhausted_set_def job_ok_def)

interpretation job_claim: job_update "\<lambda>r. r \<in> set (claim_candidates locked n d)" "job_claim_set (now d) inst dur"
  for locked n d inst dur
  by unfold_locales
     (auto simp: job_claim_set_def job_ok_def claim_candidates_def ready_guard_def dest!: in_set_takeD)

interpretation job_renew: job_update "\<lambda>r. job_owned i inst r \<and> job_lease_live t r"
  "\<lambda>r. r\<lparr>j_locked_until := Some t'\<rparr>" for i inst t t'
  by unfold_locales (auto simp: job_owned_def job_ok_def)

interpretation job_succeed: job_update "job_owned i inst" "succeeded_set t" for i inst t
  by unfold_locales (auto simp: job_owned_def succeeded_set_def job_ok_def)

interpretation job_fail: job_update "job_owned i inst" "failed_set t err retryable delay" for i inst t err retryable delay
  by unfold_locales (auto simp: job_owned_def failed_set_def job_ok_def Let_def)

text \<open>Re-arming needs a positive attempt bound, which \<^const>\<open>ValidateNewJob\<close> has checked.\<close>

interpretation rearm: job_update "\<lambda>r. 0 < nj_max_attempts job \<and> rearm_guard job r" "rearm_set t job" for job t
  by unfold_locales (auto simp: rearm_guard_def has_dedupe_key_def rearm_set_def job_ok_def)

section \<open>The statements keep the invariant\<close>

text \<open>With distinct identifiers a job is claimed exactly if it is one of the candidates.\<close>

lemma claim_by_candidates:
  assumes "distinct (map j_id (storage_jobs d))" and "r \<in> set (storage_jobs d)"
  shows "j_id r \<in> j_id ` set (claim_candidates locked n d) \<longleftrightarrow> r \<in> set (claim_candidates locked n d)"
proof -
  have "set (claim_candidates locked n d) \<subseteq> set (storage_jobs d)"
    by (auto simp: claim_candidates_def dest!: in_set_takeD)
  then show ?thesis
    using assms by (auto simp: distinct_map dest: inj_onD)
qed

lemma job_claim_stmt_eq:
  assumes "distinct (map j_id (storage_jobs d))"
  shows "job_claim_stmt locked inst n dur d =
    (let cs = claim_candidates locked n d; upd = job_claim_set (now d) inst dur in
     (Inr (map (\<lambda>r. (upd r, j_status r = JobStatusToStorage Running)) (filter (\<lambda>r. r \<in> set cs) (storage_jobs d))),
      d\<lparr>storage_jobs := update_where (\<lambda>r. r \<in> set cs) upd (storage_jobs d)\<rparr>))"
proof -
  have "update_where (\<lambda>r. j_id r \<in> j_id ` set (claim_candidates locked n d)) f (storage_jobs d) =
        update_where (\<lambda>r. r \<in> set (claim_candidates locked n d)) f (storage_jobs d)" for f
    unfolding update_where_def by (rule map_cong) (use claim_by_candidates [OF assms] in simp_all)
  moreover have "filter (\<lambda>r. j_id r \<in> j_id ` set (claim_candidates locked n d)) (storage_jobs d) =
        filter (\<lambda>r. r \<in> set (claim_candidates locked n d)) (storage_jobs d)"
    by (rule filter_cong) (use claim_by_candidates [OF assms] in simp_all)
  ultimately show ?thesis
    by (simp add: job_claim_stmt_def Let_def)
qed

lemma db_inv_distinct_jobs: "db_inv d \<Longrightarrow> distinct (map j_id (storage_jobs d))"
  by (simp add: db_inv_def jobs_inv_def)

lemma db_inv_enqueued:
  assumes "db_inv d" and "0 < nj_max_attempts job"
  shows "db_inv (enqueued job d)"
proof -
  have "cleanup_inv (upload_tasks d) (storage_jobs (enqueued job d))"
    using assms(1) enqueued_keys [of job d] unfolding db_inv_def cleanup_inv_def by blast
  with assms jobs_inv_enqueued [of d job] show ?thesis
    by (simp add: db_inv_def)
qed

lemma enqueue_stmt_inv: "enqueue_stmt job d = (Inr b, d') \<Longrightarrow> 0 < nj_max_attempts job \<Longrightarrow> db_inv d \<Longrightarrow> db_inv d'"
  using db_inv_enqueued [of d job] by (auto simp: enqueue_stmt_def enqueued_def split: if_splits)

lemma rearm_stmt_inv: "rearm_stmt job d = (Inr b, d') \<Longrightarrow> 0 < nj_max_attempts job \<Longrightarrow> db_inv d \<Longrightarrow> db_inv d'"
  using db_inv_enqueued [of d job] rearm.db_inv_update [of d job "now d"]
  by (auto simp: rearm_stmt_def enqueued_def split: if_splits)

lemma exhaust_stmt_inv: "exhaust_stmt d = (x, d') \<Longrightarrow> db_inv d \<Longrightarrow> db_inv d'"
  by (auto simp: exhaust_stmt_def exhaust.db_inv_update)

lemma job_claim_stmt_inv: "job_claim_stmt locked inst n dur d = (x, d') \<Longrightarrow> db_inv d \<Longrightarrow> db_inv d'"
  by (auto simp: job_claim_stmt_eq [OF db_inv_distinct_jobs] Let_def job_claim.db_inv_update)

lemma job_renew_stmt_inv: "job_renew_stmt i inst dur d = (x, d') \<Longrightarrow> db_inv d \<Longrightarrow> db_inv d'"
  by (auto simp: job_renew_stmt_def Let_def job_renew.db_inv_update)

lemma job_succeed_stmt_inv: "job_succeed_stmt i inst d = (x, d') \<Longrightarrow> db_inv d \<Longrightarrow> db_inv d'"
  by (auto simp: job_succeed_stmt_def job_succeed.db_inv_update)

lemma job_fail_stmt_inv: "job_fail_stmt i inst err rt dl d = (x, d') \<Longrightarrow> db_inv d \<Longrightarrow> db_inv d'"
  by (auto simp: job_fail_stmt_def Let_def job_fail.db_inv_update)

end
