(* ===== verification/Blob_Collection.thy ===== *)
theory Blob_Collection
  imports Storage_Job_Worker Upload_Commit Job_Queue
begin

text \<open>
  What the collection of a blob does: the transaction removes at most one content row, which
  nobody references, settles the job and touches nothing else of the tables; the storage is
  called for such a content only, whether the transaction commits or not.
\<close>

section \<open>Removing unreferenced contents\<close>

lemma referenced_count:
  assumes "content_ok fs trs c"
  shows "f \<in> set fs \<Longrightarrow> f_content_id f = fc_id c \<Longrightarrow> 0 < fc_ref_count c"
    and "r \<in> set trs \<Longrightarrow> p \<in> set (released r) \<Longrightarrow> fst p = fc_id c \<Longrightarrow> 0 < fc_ref_count c"
proof -
  have nonneg: "0 \<le> total (refs_in_file (fc_id c)) fs" "0 \<le> total (refs_in_trash (fc_id c)) trs"
    by (rule total_nonneg, simp add: refs_in_file_def refs_in_trash_def)+
  have "1 \<le> total (refs_in_file (fc_id c)) fs" if "f \<in> set fs" "f_content_id f = fc_id c"
    using total_ge_member [OF that(1), of "refs_in_file (fc_id c)"] that by (simp add: refs_in_file_def)
  then show "f \<in> set fs \<Longrightarrow> f_content_id f = fc_id c \<Longrightarrow> 0 < fc_ref_count c"
    using nonneg assms by (simp add: content_ok_def)
  have "1 \<le> total (refs_in_trash (fc_id c)) trs" if "r \<in> set trs" "p \<in> set (released r)" "fst p = fc_id c"
  proof -
    have "count_list (map fst (released r)) (fc_id c) \<noteq> 0"
      using that(2) unfolding that(3) [symmetric] by (simp add: count_list_0_iff)
    then show ?thesis
      using total_ge_member [OF that(1), of "refs_in_trash (fc_id c)"] by (simp add: refs_in_trash_def)
  qed
  then show "r \<in> set trs \<Longrightarrow> p \<in> set (released r) \<Longrightarrow> fst p = fc_id c \<Longrightarrow> 0 < fc_ref_count c"
    using nonneg assms by (simp add: content_ok_def)
qed

lemma contents_inv_collect:
  assumes inv: "contents_inv cs n fs trs" and zero: "\<And>c. c \<in> set cs \<Longrightarrow> gone c \<Longrightarrow> fc_ref_count c = 0"
  shows "contents_inv (filter (\<lambda>c. \<not> gone c) cs) n fs trs"
proof -
  have ok: "content_ok fs trs c" if "c \<in> set cs" for c
    using inv that by (simp add: contents_inv_def)
  have stays: "k \<in> fc_id ` set (filter (\<lambda>c. \<not> gone c) cs)"
    if "k \<in> fc_id ` set cs" "\<And>c. c \<in> set cs \<Longrightarrow> fc_id c = k \<Longrightarrow> 0 < fc_ref_count c" for k
    using that zero by force
  have "f_content_id f \<in> fc_id ` set (filter (\<lambda>c. \<not> gone c) cs)" if "f \<in> set fs" for f
    using inv that referenced_count(1) [OF ok that] by (intro stays) (auto simp: contents_inv_def)
  moreover have "fst p \<in> fc_id ` set (filter (\<lambda>c. \<not> gone c) cs)" if "r \<in> set trs" "p \<in> set (released r)" for r p
    using inv that referenced_count(2) [OF ok that] by (intro stays) (auto simp: contents_inv_def)
  ultimately show ?thesis
    using inv unfolding contents_inv_def by (auto simp: distinct_map_filter)
qed

section \<open>The transaction\<close>

definition settled :: "'w worker \<Rightarrow> StorageJob \<Rightarrow> finding_row list \<Rightarrow> 'w db \<Rightarrow> 'w db" where
  "settled W job fs d =
     d\<lparr>findings := fs, storage_jobs := update_where (job_owned (sj_id job) (wk_instance_id W)) (succeeded_set (now d)) (storage_jobs d)\<rparr>"

lemma complete_transaction_ok:
  assumes "complete_transaction T W k job s = (Inr (True, r), s')" and tx: "in_tx T"
  obtains fs where "sdb s' = settled W job fs (sdb s)" "r = ExecutionSucceeded\<lparr>jr_outcome_persisted := True\<rparr>"
    "affected (job_owned (sj_id job) (wk_instance_id W)) (storage_jobs (sdb s)) = 1"
proof -
  note [simp] = seen_tx [OF tx]
  from assms(1) obtain s1 s2 where fnd: "ResolveFinding T kZeroReferenceContent (decimal k) s = (Inr (), s1)"
    and mark: "MarkSucceeded T (sj_id job) (wk_instance_id W) s1 = (Inr True, s2)"
    and r: "r = ExecutionSucceeded\<lparr>jr_outcome_persisted := True\<rparr>" "s' = s2"
    unfolding complete_transaction_def by (auto elim!: bindM_okE split: if_splits)
  from fnd obtain fs where s1: "sdb s1 = (sdb s)\<lparr>findings := fs\<rparr>"
    by (auto simp: ResolveFinding_def updateS_def elim!: exec_okE dest: sym)
  from mark have "sdb s2 = settled W job fs (sdb s)"
    "affected (job_owned (sj_id job) (wk_instance_id W)) (storage_jobs (sdb s)) = 1"
    by (auto simp: MarkSucceeded_def ValidateBoundedValue_def job_succeed_stmt_def settled_def s1
        elim!: bindM_okE exec_okE split: if_splits)
  with r show thesis by (intro that [of fs]) simp_all
qed

text \<open>The store is called only for a content that the tables say is unreferenced.\<close>

definition collects :: "BlobGcCandidate \<Rightarrow> 'w db \<Rightarrow> content_row \<Rightarrow> bool" where
  "collects candidate d c \<longleftrightarrow> c \<in> set (file_contents d) \<and> collectable (gc_content_id candidate) d c \<and>
     fc_storage_path c = gc_storage_path candidate"

lemma gc_tx_ok:
  assumes run: "gc_tx W B job candidate T s = (Inr (True, r), s')" and tx: "in_tx T"
  obtains (kept) fs where "sdb s' = settled W job fs (sdb s)" "r = ExecutionSucceeded\<lparr>jr_outcome_persisted := True\<rparr>"
      "affected (job_owned (sj_id job) (wk_instance_id W)) (storage_jobs (sdb s)) = 1"
    | (collected) c fs w where "collects candidate (sdb s) c" "DeleteBlob B (gc_storage_path candidate) (store (sdb s)) = (Inr (), w)"
      "affected (collectable (gc_content_id candidate) (sdb s)) (file_contents (sdb s)) = 1"
      "sdb s' = settled W job fs ((sdb s)\<lparr>store := w,
         file_contents := filter (\<lambda>c. \<not> collectable (gc_content_id candidate) (sdb s) c) (file_contents (sdb s))\<rparr>)"
      "r = ExecutionSucceeded\<lparr>jr_outcome_persisted := True\<rparr>"
      "affected (job_owned (sj_id job) (wk_instance_id W)) (storage_jobs (sdb s)) = 1"
proof -
  note [simp] = seen_tx [OF tx]
  let ?k = "gc_content_id candidate"
  from run obtain s1 where s1: "sdb s1 = sdb s"
    and rest: "(case select_content ?k (sdb s) of
         None \<Rightarrow> complete_transaction T W ?k job
       | Some (c, file_ref, trash_ref) \<Rightarrow>
           if fc_storage_path c \<noteq> gc_storage_path candidate
           then retM (False, PermanentFailure ''blob_gc storage_path does not match file_contents'')
           else if fc_ref_count c > 0 then complete_transaction T W ?k job
           else if fc_ref_count c < 0 \<or> file_ref \<or> trash_ref
           then retM (False, PermanentFailure ''blob_gc found inconsistent content references'')
           else
             bindM (storeInTx (DeleteBlob B (gc_storage_path candidate))) (\<lambda>delete_result.
               case delete_result of
                 Inl err \<Rightarrow> retM (False, ExecutionFailed (retryable_error err) ''blob_gc storage deletion failed'')
               | Inr _ \<Rightarrow>
                   bindM (exec T (delete_content ?k)) (\<lambda>deleted.
                     if deleted \<noteq> 1 then retM (False, RetryableFailure ''blob_gc content row changed before deletion'')
                     else complete_transaction T W ?k job))) s1 = (Inr (True, r), s')"
    unfolding gc_tx_def by (elim bindM_okE) (auto dest!: pure_ok)
  show thesis
  proof (cases "select_content ?k (sdb s)")
    case None
    with rest s1 show thesis by (auto elim!: complete_transaction_ok [OF _ tx] intro: kept)
  next
    case (Some x)
    obtain c fr tr where x: "x = (c, fr, tr)" by (cases x)
    show thesis
    proof (cases "fc_ref_count c > 0")
      case True
      with Some x rest s1 show thesis
        by (auto elim!: complete_transaction_ok [OF _ tx] intro: kept split: if_splits)
    next
      case False
      with Some x rest obtain v s2 n s3 where "fc_storage_path c = gc_storage_path candidate" "fc_ref_count c = 0" "\<not> fr" "\<not> tr"
        and del: "storeInTx (DeleteBlob B (gc_storage_path candidate)) s1 = (Inr (Inr v), s2)"
        and row: "exec T (delete_content ?k) s2 = (Inr n, s3)" "n = 1"
        and fin: "complete_transaction T W ?k job s3 = (Inr (True, r), s')"
        by (fastforce elim!: bindM_okE split: if_splits sum.splits)
      moreover from Some x have "find_row (bound_id ?k) (file_contents (sdb s)) = Some c"
        "fr = has_file_ref (sdb s) (fc_id c)" "tr = has_trash_ref (sdb s) (fc_id c)"
        by (auto simp: select_content_def)
      ultimately have c: "collects candidate (sdb s) c"
        using find_row_Some by (fastforce simp: collects_def collectable_def)
      obtain w where w: "DeleteBlob B (gc_storage_path candidate) (store (sdb s)) = (Inr (), w)"
        and s2: "sdb s2 = (sdb s)\<lparr>store := w\<rparr>"
        using del s1 by (auto simp: storeInTx_def Let_def split: prod.splits)
      have same: "collectable ?k ((sdb s)\<lparr>store := w\<rparr>) = collectable ?k (sdb s)"
        by (rule ext) (simp add: collectable_def has_file_ref_def has_trash_ref_def)
      from row have s3: "sdb s3 = (sdb s)\<lparr>store := w,
           file_contents := filter (\<lambda>c. \<not> collectable ?k (sdb s) c) (file_contents (sdb s))\<rparr>"
        and one: "affected (collectable ?k (sdb s)) (file_contents (sdb s)) = 1"
        by (auto simp: delete_content_def same s2 elim!: exec_okE dest: sym)
      from fin tx show thesis
        by (rule complete_transaction_ok) (rule collected [OF c w one], simp_all add: s3)
    qed
  qed
qed

lemma db_inv_settled: "db_inv d \<Longrightarrow> db_inv (settled W job fs d)"
  unfolding settled_def using job_succeed.db_inv_update [of "d\<lparr>findings := fs\<rparr>"] by simp

lemma gc_tx_inv:
  assumes "gc_tx W B job candidate T s = (Inr (True, r), s')" and "in_tx T" and inv: "db_inv (sdb s)"
  shows "db_inv (sdb s')"
  using assms(1,2)
proof (cases rule: gc_tx_ok)
  case (kept fs)
  with inv show ?thesis by (simp add: db_inv_settled)
next
  case (collected c fs w)
  have "contents_inv (filter (\<lambda>c. \<not> collectable (gc_content_id candidate) (sdb s) c) (file_contents (sdb s)))
      (seq_contents (sdb s)) (files (sdb s)) (trash (sdb s))"
    using inv by (intro contents_inv_collect) (auto simp: db_inv_def collectable_def)
  with inv have "db_inv ((sdb s)\<lparr>store := w,
         file_contents := filter (\<lambda>c. \<not> collectable (gc_content_id candidate) (sdb s) c) (file_contents (sdb s))\<rparr>)"
    by (simp add: db_inv_def)
  then show ?thesis by (simp add: collected db_inv_settled)
qed

lemma gc_tx_frame:
  assumes "gc_tx W B job candidate T s = (Inr (True, r), s')" and "in_tx T"
  shows "upload_tasks (sdb s') = upload_tasks (sdb s)" "upload_task_chunks (sdb s') = upload_task_chunks (sdb s)"
    "task_cache (sdb s') = task_cache (sdb s)" "trash (sdb s') = trash (sdb s)" "seq_trash (sdb s') = seq_trash (sdb s)"
    "files (sdb s') = files (sdb s)" "users (sdb s') = users (sdb s)" "folders (sdb s') = folders (sdb s)"
  using assms by (cases rule: gc_tx_ok, simp_all add: settled_def)+

text \<open>Whatever the outcome, the storage is called for an unreferenced content only.\<close>

lemma gc_tx_store:
  assumes "gc_tx W B job candidate T s = (x, s')" and tx: "in_tx T" and "store (sdb s') \<noteq> store (sdb s)"
  obtains c where "collects candidate (sdb s) c"
proof -
  let ?k = "gc_content_id candidate"
  have ct: "store (sdb (snd (complete_transaction T W k job t))) = store (sdb t)" for k t
    using tx by (auto simp: complete_transaction_def ResolveFinding_def MarkSucceeded_def ValidateBoundedValue_def
        bindM_def retM_def throwM_def exec_def updateS_def job_succeed_stmt_def Let_def split: prod.splits sum.splits if_splits)
  obtain y s1 where y: "exec T (pureS (select_content ?k)) s = (y, s1)" by (cases "exec T (pureS (select_content ?k)) s")
  have s1: "sdb s1 = sdb s" and ysel: "\<And>v. y = Inr v \<Longrightarrow> v = select_content ?k (sdb s)"
    using y tx by (auto simp: exec_def pureS_def Let_def split: if_splits)
  show thesis
  proof (cases y)
    case (Inl e)
    with y assms s1 show thesis by (simp add: gc_tx_def bindM_def)
  next
    case (Inr v)
    note v = ysel [OF Inr]
    show thesis
    proof (cases v)
      case None
      with Inr y assms s1 ct [of ?k s1] show thesis by (auto simp: gc_tx_def bindM_def)
    next
      case (Some q)
      obtain c fr tr where q: "q = (c, fr, tr)" by (cases q)
      from v Some q have "select_content ?k (sdb s) = Some (c, fr, tr)" by simp
      then have c: "find_row (bound_id ?k) (file_contents (sdb s)) = Some c"
        "fr = has_file_ref (sdb s) (fc_id c)" "tr = has_trash_ref (sdb s) (fc_id c)"
        by (auto simp: select_content_def)
      have "fc_storage_path c = gc_storage_path candidate \<and> fc_ref_count c = 0 \<and> \<not> fr \<and> \<not> tr"
      proof (rule ccontr)
        assume "\<not> ?thesis"
        with Inr Some q y assms(1) have "sdb s' = sdb s1 \<or> (x, s') = complete_transaction T W ?k job s1"
          by (auto simp: gc_tx_def bindM_def retM_def split: if_splits)
        with s1 ct [of ?k s1] assms(3) show False by (metis snd_conv)
      qed
      with c find_row_Some [OF c(1)] show thesis
        by (intro that [of c]) (simp add: collects_def collectable_def)
    qed
  qed
qed

end
