(* ===== verification/Name_Validation.thy ===== *)
theory Name_Validation
  imports Error_Code
begin

text \<open>
  Validation of file and folder names (src/src/utils/NameValidation.hpp) and of the upload and
  rename requests that use it (src/src/dtos/FileDto.hpp).  A string is a list of bytes; the
  decoder works on the bytes and on a 32-bit code point as the source does.  The reference is
  an encoder of Unicode scalar values: the decoder accepts exactly its outputs.
\<close>

unbundle bit_operations_syntax

section \<open>The decoder of the source\<close>

definition byte_at :: "string \<Rightarrow> nat \<Rightarrow> 8 word" where
  "byte_at value i = of_char (value ! i)"

text \<open>The code point bits of a leading byte and the length of the sequence it opens.\<close>

definition lead_class :: "8 word \<Rightarrow> (32 word \<times> nat) option" where
  "lead_class lead =
     (if lead \<le> 0x7F then Some (ucast lead, 1)
      else if lead \<ge> 0xC2 \<and> lead \<le> 0xDF then Some (ucast (lead AND 0x1F), 2)
      else if lead \<ge> 0xE0 \<and> lead \<le> 0xEF then Some (ucast (lead AND 0x0F), 3)
      else if lead \<ge> 0xF0 \<and> lead \<le> 0xF4 then Some (ucast (lead AND 0x07), 4)
      else None)"

function read_continuations :: "string \<Rightarrow> nat \<Rightarrow> nat \<Rightarrow> nat \<Rightarrow> 32 word \<Rightarrow> 32 word option" where
  "read_continuations value index sequence_length offset code_point =
     (if offset < sequence_length then
        (let continuation = byte_at value (index + offset) in
         if continuation AND 0xC0 \<noteq> 0x80 then None
         else read_continuations value index sequence_length (offset + 1)
                (push_bit 6 code_point OR ucast (continuation AND 0x3F)))
      else Some code_point)"
  by pat_completeness auto
termination by (relation "measure (\<lambda>(_, _, n, k, _). n - k)") auto

definition code_point_rejected :: "nat \<Rightarrow> 32 word \<Rightarrow> bool" where
  "code_point_rejected sequence_length code_point \<longleftrightarrow>
     sequence_length = 2 \<and> code_point < 0x80 \<or>
     sequence_length = 3 \<and> code_point < 0x800 \<or>
     sequence_length = 4 \<and> code_point < 0x10000 \<or>
     code_point \<ge> 0xD800 \<and> code_point \<le> 0xDFFF \<or> code_point > 0x10FFFF \<or>
     code_point \<le> 0x1F \<or> code_point \<ge> 0x7F \<and> code_point \<le> 0x9F"

lemma lead_class_length: "lead_class b = Some (c, n) \<Longrightarrow> 0 < n"
  by (auto simp: lead_class_def split: if_splits)

function utf8_from :: "string \<Rightarrow> nat \<Rightarrow> bool" where
  "utf8_from value index =
     (if index < length value then
        (case lead_class (byte_at value index) of
           None \<Rightarrow> False
         | Some (bits, sequence_length) \<Rightarrow>
             if index + sequence_length > length value then False
             else
               (case read_continuations value index sequence_length 1 bits of
                  None \<Rightarrow> False
                | Some code_point \<Rightarrow>
                    if code_point_rejected sequence_length code_point then False
                    else utf8_from value (index + sequence_length)))
      else True)"
  by pat_completeness auto
termination by (relation "measure (\<lambda>(v, i). length v - i)") (auto dest: lead_class_length)

declare read_continuations.simps [simp del] utf8_from.simps [simp del]

definition IsValidUtf8WithoutControlChars :: "string \<Rightarrow> bool" where
  "IsValidUtf8WithoutControlChars value = utf8_from value 0"

definition FORBIDDEN_CHARS :: string where
  "FORBIDDEN_CHARS = map char_of [47, 92, 58, 42, 63, 34, 60, 62, 124 :: nat]"

definition HasForbiddenDriveItemChars :: "string \<Rightarrow> bool" where
  "HasForbiddenDriveItemChars value \<longleftrightarrow>
     list_ex (\<lambda>c. (of_char c :: 8 word) \<le> 0x1F \<or> c \<in> set FORBIDDEN_CHARS) value"

section \<open>The reference encoder\<close>

text \<open>Scalar values that are no control characters, and their UTF-8 encoding.\<close>

definition printable :: "nat \<Rightarrow> bool" where
  "printable c \<longleftrightarrow> 0x20 \<le> c \<and> c \<le> 0x10FFFF \<and> \<not> (0x7F \<le> c \<and> c \<le> 0x9F) \<and> \<not> (0xD800 \<le> c \<and> c \<le> 0xDFFF)"

definition utf8_bytes :: "nat \<Rightarrow> nat list" where
  "utf8_bytes c =
     (if c < 0x80 then [c]
      else if c < 0x800 then [0xC0 + c div 64, 0x80 + c mod 64]
      else if c < 0x10000 then [0xE0 + c div 4096, 0x80 + c div 64 mod 64, 0x80 + c mod 64]
      else [0xF0 + c div 262144, 0x80 + c div 4096 mod 64, 0x80 + c div 64 mod 64, 0x80 + c mod 64])"

definition utf8_encode :: "nat \<Rightarrow> string" where
  "utf8_encode c = map char_of (utf8_bytes c)"

section \<open>Bytes\<close>

lemma and_low_bits: "(b :: nat) AND (2 ^ n - 1) = b mod 2 ^ n"
  by (simp flip: take_bit_eq_mod add: take_bit_eq_mask mask_eq_exp_minus_1)

lemma nat_masks:
  "(b :: nat) AND 63 = b mod 64" "b AND 31 = b mod 32" "b AND 15 = b mod 16" "b AND 7 = b mod 8"
  using and_low_bits [of b 6] and_low_bits [of b 5] and_low_bits [of b 4] and_low_bits [of b 3] by simp_all

lemma nat_high_bits:
  assumes "b < (256 :: nat)"
  shows "b AND 192 = b div 64 * 64"
proof -
  have 1: "drop_bit 6 (b AND 192) = b div 64 AND 3" by (simp add: drop_bit_and) (simp add: drop_bit_eq_div)
  have 2: "\<dots> = b div 64" using and_low_bits [of "b div 64" 2] assms by simp
  have 3: "take_bit 6 (b AND 192) = 0" by (simp add: take_bit_and)
  from 1 2 3 bits_ident [of 6 "b AND 192"] show ?thesis by (simp add: push_bit_eq_mult)
qed

lemma unat_byte_less: "unat (b :: 8 word) < 256"
  using unsigned_less [of b] by simp

lemma continuation_iff: "((b :: 8 word) AND 0xC0 = 0x80) \<longleftrightarrow> 128 \<le> unat b \<and> unat b < 192"
proof -
  have "(b AND 0xC0 = 0x80) \<longleftrightarrow> unat (b AND 0xC0) = unat (0x80 :: 8 word)" by (simp only: word_unat_eq_iff)
  also have "\<dots> \<longleftrightarrow> unat b div 64 = 2"
    using nat_high_bits [OF unat_byte_less, of b] by (simp add: unsigned_and_eq)
  also have "\<dots> \<longleftrightarrow> 128 \<le> unat b \<and> unat b < 192" by linarith
  finally show ?thesis .
qed

lemma take_bit_byte [simp]: "take_bit 32 (unat (b :: 8 word)) = unat b"
  using unat_byte_less [of b] by (simp add: take_bit_nat_eq_self)

lemma unat_masks:
  "unat (ucast (b :: 8 word) :: 32 word) = unat b"
  "unat (ucast (b AND 0x1F) :: 32 word) = unat b mod 32"
  "unat (ucast (b AND 0x0F) :: 32 word) = unat b mod 16"
  "unat (ucast (b AND 0x07) :: 32 word) = unat b mod 8"
  "unat (ucast (b AND 0x3F) :: 32 word) = unat b mod 64"
  by (simp_all add: unsigned_and_eq unsigned_ucast_eq nat_masks)

lemma or_disjoint: "push_bit n (a :: nat) OR (b mod 2 ^ n) = a * 2 ^ n + b mod 2 ^ n"
proof -
  have "push_bit n a AND (b mod 2 ^ n) = 0"
    by (rule bit_eqI) (auto simp: bit_simps simp flip: take_bit_eq_mod)
  then show ?thesis by (simp add: disjunctive_add_eq_or push_bit_eq_mult flip: disjunctive_add_eq_or)
qed

lemma push_continuation:
  assumes "unat (c :: 32 word) < 2 ^ 26"
  shows "unat (push_bit 6 c OR ucast ((b :: 8 word) AND 0x3F)) = unat c * 64 + unat b mod 64"
proof -
  have "unat (push_bit 6 c) = push_bit 6 (unat c)"
    using assms by (simp only: unsigned_push_bit_eq) (simp add: push_bit_eq_mult take_bit_nat_eq_self)
  then show ?thesis
    using or_disjoint [of 6 "unat c" "unat b"] unat_masks(5) [of b] by (simp add: unsigned_or_eq)
qed

text \<open>The same decoder on the byte values, for sequences inside the string.\<close>

definition lead_bits :: "nat \<Rightarrow> (nat \<times> nat) option" where
  "lead_bits b =
     (if b \<le> 0x7F then Some (b, 1) else if 0xC2 \<le> b \<and> b \<le> 0xDF then Some (b mod 32, 2)
      else if 0xE0 \<le> b \<and> b \<le> 0xEF then Some (b mod 16, 3)
      else if 0xF0 \<le> b \<and> b \<le> 0xF4 then Some (b mod 8, 4) else None)"

lemma lead_class_bits: "map_option (apfst unat) (lead_class b) = lead_bits (unat b)"
  by (simp add: lead_class_def lead_bits_def unsigned_and_eq nat_masks word_le_nat_alt unat_masks(1))

lemma lead_class_Some: "lead_class b = Some (c, n) \<Longrightarrow> lead_bits (unat b) = Some (unat c, n)"
  using lead_class_bits [of b] by simp

lemma lead_class_SomeI: "lead_bits (unat b) = Some (c, n) \<Longrightarrow> \<exists>c'. lead_class b = Some (c', n) \<and> unat c' = c"
  using lead_class_bits [of b] by (cases "lead_class b") auto

text \<open>Decoding a well-formed sequence, and what an accepted sequence looks like.\<close>

definition code_of :: "nat list \<Rightarrow> nat" where
  "code_of bs =
     (case bs of
        [b0] \<Rightarrow> b0
      | [b0, b1] \<Rightarrow> b0 mod 32 * 64 + b1 mod 64
      | [b0, b1, b2] \<Rightarrow> (b0 mod 16 * 64 + b1 mod 64) * 64 + b2 mod 64
      | [b0, b1, b2, b3] \<Rightarrow> ((b0 mod 8 * 64 + b1 mod 64) * 64 + b2 mod 64) * 64 + b3 mod 64
      | _ \<Rightarrow> 0)"

definition well_formed :: "nat list \<Rightarrow> bool" where
  "well_formed bs \<longleftrightarrow>
     (case bs of
        [b0] \<Rightarrow> b0 \<le> 0x7F
      | [b0, b1] \<Rightarrow> 0xC2 \<le> b0 \<and> b0 \<le> 0xDF \<and> 128 \<le> b1 \<and> b1 < 192
      | [b0, b1, b2] \<Rightarrow> 0xE0 \<le> b0 \<and> b0 \<le> 0xEF \<and> 128 \<le> b1 \<and> b1 < 192 \<and> 128 \<le> b2 \<and> b2 < 192
      | [b0, b1, b2, b3] \<Rightarrow> 0xF0 \<le> b0 \<and> b0 \<le> 0xF4 \<and> 128 \<le> b1 \<and> b1 < 192 \<and> 128 \<le> b2 \<and> b2 < 192 \<and>
          128 \<le> b3 \<and> b3 < 192
      | _ \<Rightarrow> False)"

definition accepted :: "nat list \<Rightarrow> bool" where
  "accepted bs \<longleftrightarrow> well_formed bs \<and> printable (code_of bs) \<and>
     (length bs = 3 \<longrightarrow> 0x800 \<le> code_of bs) \<and> (length bs = 4 \<longrightarrow> 0x10000 \<le> code_of bs)"

lemma offset_from:
  assumes "m \<le> b" and "b < m + (n :: nat)"
  obtains x where "b = m + x" and "x < n"
  using assms by (metis add_less_cancel_left le_Suc_ex)

lemma add_multiple_mod: "x < n \<Longrightarrow> (n * k + x) mod n = (x :: nat)"
  by simp

lemma offset_mods:
  "x < 32 \<Longrightarrow> (192 + x) mod 32 = (x :: nat)" "x < 64 \<Longrightarrow> (128 + x) mod 64 = (x :: nat)"
  "x < 16 \<Longrightarrow> (224 + x) mod 16 = (x :: nat)" "x < 8 \<Longrightarrow> (240 + x) mod 8 = (x :: nat)"
  using add_multiple_mod [of x 32 6] add_multiple_mod [of x 64 2] add_multiple_mod [of x 16 14]
    add_multiple_mod [of x 8 30] by simp_all

lemma last_digit: "z < 64 \<Longrightarrow> (q * 64 + z) div 64 = (q :: nat)" "z < 64 \<Longrightarrow> (q * 64 + z) mod 64 = (z :: nat)"
  by simp_all

lemma div_powers: "(c :: nat) div 4096 = c div 64 div 64" "c div 262144 = c div 64 div 64 div 64"
  by (simp_all flip: div_mult2_eq)

text \<open>Both directions are stated for the number a sequence denotes, digit by digit.\<close>

lemma utf8_bytes_3:
  assumes "x < 16" and "y < 64" and "z < 64" and "0x800 \<le> c" and "c = (x * 64 + y) * 64 + z"
  shows "utf8_bytes c = [224 + x, 128 + y, 128 + z]"
proof -
  have "c div 64 = x * 64 + y" "c mod 64 = z" "(x * 64 + y) div 64 = x" "(x * 64 + y) mod 64 = y"
    unfolding assms(5) using assms(2,3) by (simp_all only: last_digit)
  moreover have "c < 0x10000" using assms by simp
  ultimately show ?thesis using assms(4) by (simp add: utf8_bytes_def div_powers)
qed

lemma utf8_bytes_4:
  assumes "x < 8" and "y < 64" and "z < 64" and "w < 64" and "0x10000 \<le> c" and "c = ((x * 64 + y) * 64 + z) * 64 + w"
  shows "utf8_bytes c = [240 + x, 128 + y, 128 + z, 128 + w]"
proof -
  have "c div 64 = (x * 64 + y) * 64 + z" "c mod 64 = w" "((x * 64 + y) * 64 + z) div 64 = x * 64 + y"
    "((x * 64 + y) * 64 + z) mod 64 = z" "(x * 64 + y) div 64 = x" "(x * 64 + y) mod 64 = y"
    unfolding assms(6) using assms(2-4) by (simp_all only: last_digit)
  then show ?thesis using assms(5) by (simp add: utf8_bytes_def div_powers)
qed

lemma accepted_encode:
  assumes "accepted bs"
  shows "utf8_bytes (code_of bs) = bs"
proof -
  consider (1) b0 where "bs = [b0]" | (2) b0 b1 where "bs = [b0, b1]" | (3) b0 b1 b2 where "bs = [b0, b1, b2]"
    | (4) b0 b1 b2 b3 where "bs = [b0, b1, b2, b3]"
    using assms by (auto simp: accepted_def well_formed_def split: list.splits)
  then show ?thesis
  proof cases
    case 1
    then show ?thesis using assms by (simp add: accepted_def well_formed_def code_of_def utf8_bytes_def)
  next
    case 2
    then have b: "192 \<le> b0" "b0 < 192 + 32" "128 \<le> b1" "b1 < 128 + 64" "194 \<le> b0"
      using assms by (auto simp: accepted_def well_formed_def)
    from b(1,2) obtain x where x: "b0 = 192 + x" "x < 32" by (rule offset_from)
    from b(3,4) obtain y where y: "b1 = 128 + y" "y < 64" by (rule offset_from)
    from b(5) 2 x y show ?thesis by (simp add: code_of_def utf8_bytes_def offset_mods)
  next
    case 3
    then have b: "224 \<le> b0" "b0 < 224 + 16" "128 \<le> b1" "b1 < 128 + 64" "128 \<le> b2" "b2 < 128 + 64" "0x800 \<le> code_of bs"
      using assms by (auto simp: accepted_def well_formed_def)
    from b(1,2) obtain x where x: "b0 = 224 + x" "x < 16" by (rule offset_from)
    from b(3,4) obtain y where y: "b1 = 128 + y" "y < 64" by (rule offset_from)
    from b(5,6) obtain z where z: "b2 = 128 + z" "z < 64" by (rule offset_from)
    have "code_of bs = (x * 64 + y) * 64 + z" using 3 x y z by (simp add: code_of_def offset_mods)
    from utf8_bytes_3 [OF x(2) y(2) z(2) b(7) this] 3 x y z show ?thesis by simp
  next
    case 4
    then have b: "240 \<le> b0" "b0 < 240 + 8" "128 \<le> b1" "b1 < 128 + 64" "128 \<le> b2" "b2 < 128 + 64"
      "128 \<le> b3" "b3 < 128 + 64" "0x10000 \<le> code_of bs"
      using assms by (auto simp: accepted_def well_formed_def)
    from b(1,2) obtain x where x: "b0 = 240 + x" "x < 8" by (rule offset_from)
    from b(3,4) obtain y where y: "b1 = 128 + y" "y < 64" by (rule offset_from)
    from b(5,6) obtain z where z: "b2 = 128 + z" "z < 64" by (rule offset_from)
    from b(7,8) obtain w where w: "b3 = 128 + w" "w < 64" by (rule offset_from)
    have "code_of bs = ((x * 64 + y) * 64 + z) * 64 + w" using 4 x y z w by (simp add: code_of_def offset_mods)
    from utf8_bytes_4 [OF x(2) y(2) z(2) w(2) b(9) this] 4 x y z w show ?thesis by simp
  qed
qed

lemma encode_code_of:
  assumes "c \<le> 0x10FFFF"
  shows "code_of (utf8_bytes c) = c"
proof -
  consider "c < 0x80" | "0x80 \<le> c" "c < 0x800" | "0x800 \<le> c" "c < 0x10000" | "0x10000 \<le> c"
    by linarith
  then show ?thesis
  proof cases
    case 1 then show ?thesis by (simp add: utf8_bytes_def code_of_def)
  next
    case 2
    then have "c div 64 < 32" by simp
    with 2 show ?thesis by (simp add: utf8_bytes_def code_of_def offset_mods)
  next
    case 3
    then have "c div 64 div 64 < 16" by simp
    then have "code_of (utf8_bytes c) = (c div 64 div 64 * 64 + c div 64 mod 64) * 64 + c mod 64"
      using 3 by (simp add: utf8_bytes_def code_of_def offset_mods div_powers del: distrib_right_numeral)
    then show ?thesis by (simp only: div_mult_mod_eq)
  next
    case 4
    with assms have "c div 64 div 64 div 64 < 8" by simp
    then have "code_of (utf8_bytes c) =
        ((c div 64 div 64 div 64 * 64 + c div 64 div 64 mod 64) * 64 + c div 64 mod 64) * 64 + c mod 64"
      using 4 by (simp add: utf8_bytes_def code_of_def offset_mods div_powers del: distrib_right_numeral)
    then show ?thesis by (simp only: div_mult_mod_eq)
  qed
qed

lemma encode_well_formed: "printable c \<Longrightarrow> well_formed (utf8_bytes c)"
  using div_le_mono [of 128 c 64] div_le_mono [of c 2047 64] div_le_mono [of c 65535 4096]
    div_le_mono [of c 1114111 262144]
  by (auto simp: utf8_bytes_def well_formed_def printable_def not_le)

lemma encode_accepted: "printable c \<Longrightarrow> accepted (utf8_bytes c)"
  using encode_code_of [of c] encode_well_formed [of c]
  by (auto simp: accepted_def printable_def utf8_bytes_def)

section \<open>The decoder accepts the encodings\<close>

lemma of_char_less [simp]: "(of_char c :: nat) < 256"
  using mod_less_divisor [of 256 "of_char c :: nat"] by simp

lemma unat_of_char [simp]: "unat (of_char c :: 8 word) = of_char c"
proof -
  have "unat (of_nat (of_char c) :: 8 word) = of_char c"
    by (simp add: unat_of_nat take_bit_eq_mod del: of_nat_of_char)
  then show ?thesis by (simp only: of_nat_of_char)
qed

text \<open>The bytes of the string from a position on.\<close>

definition bytes_from :: "string \<Rightarrow> nat \<Rightarrow> nat list" where
  "bytes_from value i = map of_char (drop i value)"

lemma bytes_from_nth: "i + k < length value \<Longrightarrow> unat (byte_at value (i + k)) = bytes_from value i ! k"
  by (simp add: byte_at_def bytes_from_def)

lemma length_bytes_from [simp]: "length (bytes_from value i) = length value - i"
  by (simp add: bytes_from_def)

lemma read_one [simp]: "read_continuations value i n n c = Some c"
  by (simp add: read_continuations.simps)

lemma word_of_unat: "of_nat (unat w) = (w :: 32 word)"
  by simp

lemma unat_of_small: "n < 2 ^ 32 \<Longrightarrow> unat (of_nat n :: 32 word) = n"
  by (simp add: unat_of_nat take_bit_nat_eq_self)

lemma read_step:
  assumes "k < n" and "i + n \<le> length value" and "m < 2 ^ 26"
  shows "read_continuations value i n k (of_nat m) =
    (let b = bytes_from value i ! k in
     if 128 \<le> b \<and> b < 192
     then read_continuations value i n (k + 1) (of_nat (m * 64 + b mod 64)) else None)"
proof -
  let ?b = "byte_at value (i + k)" and ?c = "of_nat m :: 32 word"
  have b: "unat ?b = bytes_from value i ! k" using assms by (simp add: bytes_from_nth)
  have m: "unat ?c = m" using assms(3) by (intro unat_of_small) simp
  with assms(3) have "unat (push_bit 6 ?c OR ucast (?b AND 0x3F)) = m * 64 + unat ?b mod 64"
    using push_continuation [of ?c ?b] by simp
  then have "push_bit 6 ?c OR ucast (?b AND 0x3F) = of_nat (m * 64 + unat ?b mod 64)"
    using word_of_unat [of "push_bit 6 ?c OR ucast (?b AND 0x3F)"] by (simp only:)
  with assms(1) b show ?thesis
    by (subst read_continuations.simps) (simp add: continuation_iff Let_def del: of_nat_add of_nat_mult)
qed

text \<open>Reading a sequence that fits the string: the bits of its bytes, or nothing when one is no continuation.\<close>

lemma read_sequence:
  assumes "lead_bits (bytes_from value i ! 0) = Some (m, n)" and "i + n \<le> length value"
  shows "read_continuations value i n 1 (of_nat m) =
    (if well_formed (take n (bytes_from value i)) then Some (of_nat (code_of (take n (bytes_from value i)))) else None)"
proof -
  let ?b = "bytes_from value i"
  have len: "n \<le> length ?b" using assms(2) by simp
  have m: "m < 128" using assms(1) by (auto simp: lead_bits_def split: if_splits)
  note defs = well_formed_def code_of_def Let_def
  from assms(1) have "n = 1 \<or> n = 2 \<or> n = 3 \<or> n = 4" by (auto simp: lead_bits_def split: if_splits)
  then consider b0 r where "n = 1" "?b = b0 # r" | b0 b1 r where "n = 2" "?b = b0 # b1 # r"
    | b0 b1 b2 r where "n = 3" "?b = b0 # b1 # b2 # r" | b0 b1 b2 b3 r where "n = 4" "?b = b0 # b1 # b2 # b3 # r"
    using len by (auto simp: numeral_eq_Suc Suc_le_length_iff simp del: length_bytes_from)
  then show ?thesis
  proof cases
    case 1 with assms(1) show ?thesis by (simp add: defs lead_bits_def split: if_splits)
  next
    case 2
    with assms m show ?thesis by (simp add: read_step defs lead_bits_def del: of_nat_add of_nat_mult One_nat_def split: if_splits)
  next
    case 3
    with assms m show ?thesis by (simp add: read_step defs lead_bits_def del: of_nat_add of_nat_mult One_nat_def split: if_splits)
  next
    case 4
    with assms m show ?thesis by (simp add: read_step defs lead_bits_def del: of_nat_add of_nat_mult One_nat_def split: if_splits)
  qed
qed

lemma well_formed_code_less: "well_formed bs \<Longrightarrow> code_of bs < 2 ^ 32"
  by (auto simp: well_formed_def code_of_def split: list.splits)

lemma two_byte_lead: "194 \<le> b \<Longrightarrow> b \<le> 223 \<Longrightarrow> 128 \<le> b mod 32 * 64 + (c :: nat)"
proof -
  assume "194 \<le> b" "b \<le> 223"
  then have "192 \<le> b" "b < 192 + 32" by simp_all
  then obtain x where "b = 192 + x" "x < 32" by (rule offset_from)
  with \<open>194 \<le> b\<close> show ?thesis by (simp add: offset_mods)
qed

lemma rejected_iff:
  assumes "well_formed bs"
  shows "code_point_rejected (length bs) (of_nat (code_of bs)) \<longleftrightarrow> \<not> accepted bs"
proof -
  have u: "unat (of_nat (code_of bs) :: 32 word) = code_of bs"
    using assms by (intro unat_of_small well_formed_code_less)
  have two: "length bs = 2 \<Longrightarrow> 128 \<le> code_of bs"
    using assms two_byte_lead by (fastforce simp: well_formed_def code_of_def numeral_2_eq_2 split: list.splits)
  show ?thesis using assms two
    by (auto simp: code_point_rejected_def accepted_def printable_def word_less_nat_alt word_le_nat_alt u)
qed

lemma well_formed_lead:
  assumes "well_formed bs"
  shows "\<exists>m. lead_bits (bs ! 0) = Some (m, length bs)"
  using assms by (auto simp: well_formed_def lead_bits_def split: list.splits)

text \<open>One round of the loop accepts exactly a sequence of the grammar.\<close>

lemma utf8_step:
  assumes "i < length value"
  shows "utf8_from value i \<longleftrightarrow>
    (\<exists>n. i + n \<le> length value \<and> accepted (take n (bytes_from value i)) \<and> utf8_from value (i + n))"
proof
  let ?bs = "bytes_from value i"
  have b0: "unat (byte_at value i) = ?bs ! 0" using bytes_from_nth [of i 0 "value"] assms by simp
  {
    assume "utf8_from value i"
    then obtain c n cp where l: "lead_class (byte_at value i) = Some (c, n)" and len: "i + n \<le> length value"
      and rd: "read_continuations value i n 1 c = Some cp" and ok: "\<not> code_point_rejected n cp"
      and rest: "utf8_from value (i + n)"
      using assms by (subst (asm) utf8_from.simps) (auto split: option.splits if_splits)
    have lb: "lead_bits (?bs ! 0) = Some (unat c, n)" using lead_class_Some [OF l] b0 by simp
    from read_sequence [OF lb len] rd have wf: "well_formed (take n ?bs)" and "cp = of_nat (code_of (take n ?bs))"
      by (simp_all split: if_splits)
    moreover have "length (take n ?bs) = n" using len by simp
    ultimately have "accepted (take n ?bs)" using rejected_iff [OF wf] ok by simp
    with len rest show "\<exists>n. i + n \<le> length value \<and> accepted (take n ?bs) \<and> utf8_from value (i + n)" by blast
  }
  assume "\<exists>n. i + n \<le> length value \<and> accepted (take n ?bs) \<and> utf8_from value (i + n)"
  then obtain n where n: "i + n \<le> length value" "accepted (take n ?bs)" "utf8_from value (i + n)" by blast
  then have wf: "well_formed (take n ?bs)" by (simp add: accepted_def)
  from n(1) have len: "length (take n ?bs) = n" by simp
  from well_formed_lead [OF wf] len obtain m where lb: "lead_bits (take n ?bs ! 0) = Some (m, n)" by auto
  moreover have "0 < n" using wf by (cases n) (auto simp: well_formed_def)
  ultimately have lb: "lead_bits (?bs ! 0) = Some (m, n)" by simp
  then obtain c where c: "lead_class (byte_at value i) = Some (c, n)" "unat c = m"
    using lead_class_SomeI b0 by metis
  have "read_continuations value i n 1 c = Some (of_nat (code_of (take n ?bs)))"
    using read_sequence [OF lb n(1)] wf c(2) word_of_unat [of c] by simp
  moreover have "\<not> code_point_rejected n (of_nat (code_of (take n ?bs)))"
    using rejected_iff [OF wf] n(2) len by simp
  ultimately show "utf8_from value i" using assms c(1) n by (subst utf8_from.simps) simp
qed

lemma accepted_take:
  assumes "accepted (take n (bytes_from value i))"
  shows "take n (drop i value) = utf8_encode (code_of (take n (bytes_from value i)))"
proof -
  have "utf8_encode (code_of (take n (bytes_from value i))) = map char_of (take n (bytes_from value i))"
    using accepted_encode [OF assms] by (simp add: utf8_encode_def)
  then show ?thesis by (simp add: bytes_from_def take_map)
qed

definition is_utf8_text :: "string \<Rightarrow> bool" where
  "is_utf8_text s \<longleftrightarrow> (\<exists>cs. (\<forall>c \<in> set cs. printable c) \<and> s = concat (map utf8_encode cs))"

lemma is_utf8_text_Nil: "is_utf8_text []"
  unfolding is_utf8_text_def by (rule exI [of _ "[]"]) simp

lemma is_utf8_text_append: "printable c \<Longrightarrow> is_utf8_text s \<Longrightarrow> is_utf8_text (utf8_encode c @ s)"
  unfolding is_utf8_text_def by (metis concat.simps(2) list.simps(9) set_ConsD)

lemma is_utf8_text_cases:
  assumes "is_utf8_text s" and "s \<noteq> []"
  obtains c s' where "printable c" and "s = utf8_encode c @ s'" and "is_utf8_text s'"
proof -
  from assms(1) obtain cs where cs: "\<forall>c \<in> set cs. printable c" "s = concat (map utf8_encode cs)"
    by (auto simp: is_utf8_text_def)
  with assms(2) obtain c cs' where "cs = c # cs'" by (cases cs) auto
  with cs that [of c "concat (map utf8_encode cs')"] show thesis by (auto simp: is_utf8_text_def)
qed

lemma encoded_bytes:
  assumes "printable c" and "drop i value = utf8_encode c @ s"
  shows "take (length (utf8_encode c)) (bytes_from value i) = utf8_bytes c"
proof -
  have "b < 256" if "b \<in> set (utf8_bytes c)" for b
  proof -
    have "list_all (\<lambda>b. b < 256) bs" if "well_formed bs" for bs
      using that by (auto simp: well_formed_def split: list.splits)
    from this [OF encode_well_formed [OF assms(1)]] that show ?thesis by (simp add: list_all_iff)
  qed
  then have "map of_char (utf8_encode c) = utf8_bytes c" by (simp add: utf8_encode_def map_idI)
  moreover have "length (utf8_bytes c) = length (utf8_encode c)" by (simp add: utf8_encode_def)
  ultimately show ?thesis using assms(2) by (simp add: bytes_from_def)
qed

lemma utf8_from_iff: "utf8_from value i \<longleftrightarrow> is_utf8_text (drop i value)"
proof (induction "length value - i" arbitrary: i rule: less_induct)
  case less
  show ?case
  proof (cases "i < length value")
    case False
    then show ?thesis by (subst utf8_from.simps) (simp add: is_utf8_text_Nil)
  next
    case True
    have pos: "0 < n" if "accepted (take n (bytes_from value i))" for n
      using that by (cases n) (auto simp: accepted_def well_formed_def)
    have IH: "utf8_from value (i + n) \<longleftrightarrow> is_utf8_text (drop (i + n) value)" if "0 < n" for n
      using less [of "i + n"] True that by auto
    show ?thesis
    proof
      assume "utf8_from value i"
      then obtain n where n: "i + n \<le> length value" "accepted (take n (bytes_from value i))" "utf8_from value (i + n)"
        using utf8_step [OF True] by blast
      have "drop i value = utf8_encode (code_of (take n (bytes_from value i))) @ drop (i + n) value"
        using accepted_take [OF n(2)] by (metis add.commute append_take_drop_id drop_drop)
      moreover have "printable (code_of (take n (bytes_from value i)))" using n(2) by (simp add: accepted_def)
      ultimately show "is_utf8_text (drop i value)"
        using IH [OF pos [OF n(2)]] n(3) by (simp add: is_utf8_text_append)
    next
      assume "is_utf8_text (drop i value)"
      then obtain c s where c: "printable c" "drop i value = utf8_encode c @ s" "is_utf8_text s"
        using True by (auto elim: is_utf8_text_cases)
      let ?n = "length (utf8_encode c)"
      have acc: "accepted (take ?n (bytes_from value i))" using encoded_bytes [OF c(1,2)] encode_accepted [OF c(1)] by simp
      have "s = drop (i + ?n) value" using c(2) by (metis add.commute append_eq_conv_conj drop_drop)
      moreover have "i + ?n \<le> length value" using arg_cong [OF c(2), of length] True by simp
      ultimately show "utf8_from value i" using utf8_step [OF True] acc IH [OF pos [OF acc]] c(3) by blast
    qed
  qed
qed

end
