(* ===== verification/Request_Validation.thy ===== *)
theory Request_Validation
  imports Name_Validation Upload_Service
begin

text \<open>
  From the JSON body of a request to a validated command: the field helpers of
  src/src/utils/DtoBase.hpp and \<^verbatim>\<open>InitUploadRequest::FromRequest\<close> of
  src/src/dtos/FileDto.hpp.  The parser of the body is jsoncpp's: its result is the argument,
  \<open>None\<close> when the body is missing or no JSON text.  jsoncpp raises when a member is looked up
  in a value that is neither an object nor null, and when a number outside the unsigned 64-bit
  range is read as unsigned.  Its signed and unsigned integers have 64 bits, every other number
  is a double, and a double without a fraction inside the range of the integers counts as an
  integer: 6.0 and 1e3 are accepted where 6 and 1000 are, 2^64 is not.
\<close>

type_synonym 'a parsed = "exn + 'a Result"

definition logic_error :: exn where
  "logic_error = RuntimeError ''Json::LogicError''"

definition okP :: "'a \<Rightarrow> 'a parsed" where
  "okP x = Inr (Inr x)"

definition failP :: "Code \<Rightarrow> string \<Rightarrow> 'a parsed" where
  "failP c m = Inr (Inl (ErrorInfo2 c m))"

definition bindP :: "'a parsed \<Rightarrow> ('a \<Rightarrow> 'b parsed) \<Rightarrow> 'b parsed" where
  "bindP m k = (case m of Inl e \<Rightarrow> Inl e | Inr (Inl e) \<Rightarrow> Inr (Inl e) | Inr (Inr x) \<Rightarrow> k x)"

lemma bindP_ok_iff: "bindP m k = Inr (Inr y) \<longleftrightarrow> (\<exists>x. m = Inr (Inr x) \<and> k x = Inr (Inr y))"
  by (auto simp: bindP_def split: sum.splits)

lemma bindP_okP [simp]: "bindP (Inr (Inr x)) k = k x"
  by (simp add: bindP_def)

section \<open>Fields\<close>

fun isMember :: "json \<Rightarrow> string \<Rightarrow> bool parsed" where
  "isMember (JObject fs) k = okP (map_of fs k \<noteq> None)"
| "isMember JNull k = okP False"
| "isMember _ k = Inl logic_error"

fun isIntegral :: "json \<Rightarrow> bool" where
  "isIntegral (JInt i) = (- (2 ^ 63) \<le> i \<and> i < 2 ^ 63)"
| "isIntegral (JUInt n) = (n < 2 ^ 64)"
| "isIntegral (JReal m e t) = (real_whole m e \<and> - (2 ^ 63) \<le> real_floor m e \<and> real_floor m e < 2 ^ 64)"
| "isIntegral _ = False"

fun isInt64 :: "json \<Rightarrow> bool" where
  "isInt64 (JInt i) = (- (2 ^ 63) \<le> i \<and> i < 2 ^ 63)"
| "isInt64 (JUInt n) = (n < 2 ^ 63)"
| "isInt64 (JReal m e t) = (real_whole m e \<and> - (2 ^ 63) \<le> real_floor m e \<and> real_floor m e < 2 ^ 63)"
| "isInt64 _ = False"

fun asInt64 :: "json \<Rightarrow> int" where
  "asInt64 (JInt i) = i"
| "asInt64 (JUInt n) = int n"
| "asInt64 (JReal m e t) = real_floor m e"
| "asInt64 _ = 0"

definition isNegative :: "json \<Rightarrow> bool" where
  "isNegative j \<longleftrightarrow> isInt64 j \<and> asInt64 j < 0"

fun readUInt64 :: "json \<Rightarrow> nat parsed" where
  "readUInt64 JNull = okP 0"
| "readUInt64 (JBool b) = okP (if b then 1 else 0)"
| "readUInt64 (JInt i) = (if 0 \<le> i \<and> i < 2 ^ 64 then okP (nat i) else Inl logic_error)"
| "readUInt64 (JUInt n) = (if n < 2 ^ 64 then okP n else Inl logic_error)"
| "readUInt64 (JReal m e t) =
     (if 0 \<le> m \<and> real_numer m e \<le> (2 ^ 64 - 1) * real_denom e then okP (nat (real_floor m e)) else Inl logic_error)"
| "readUInt64 _ = Inl logic_error"

definition param :: "string \<Rightarrow> string \<Rightarrow> string" where
  "param key what = ''Parameter '' @ [CHR 0x27] @ key @ [CHR 0x27] @ what"

definition RequireJsonBody :: "json option \<Rightarrow> json parsed" where
  "RequireJsonBody body =
     (case body of None \<Rightarrow> failP ValidationFailed ''Request body is not valid JSON'' | Some j \<Rightarrow> okP j)"

definition RequireString :: "json \<Rightarrow> string \<Rightarrow> string parsed" where
  "RequireString j key =
     bindP (isMember j key) (\<lambda>present.
       if \<not> present then failP ValidationFailed (''Missing required parameter: '' @ key)
       else if \<not> isString (member j key) then failP ValidationFailed (param key '' type error: expected string'')
       else okP (asString (member j key)))"

definition RequireUInt64 :: "json \<Rightarrow> string \<Rightarrow> nat parsed" where
  "RequireUInt64 j key =
     bindP (isMember j key) (\<lambda>present.
       if \<not> present then failP ValidationFailed (''Missing required parameter: '' @ key)
       else if \<not> isIntegral (member j key) \<or> isNegative (member j key)
       then failP ValidationFailed (param key '' type error: expected unsigned integer'')
       else readUInt64 (member j key))"

definition OptionalUInt64 :: "json \<Rightarrow> string \<Rightarrow> nat option parsed" where
  "OptionalUInt64 j key =
     bindP (isMember j key) (\<lambda>present.
       if \<not> present then okP None
       else if \<not> isIntegral (member j key) \<or> isNegative (member j key)
       then failP ValidationFailed (param key '' type error: expected unsigned integer'')
       else bindP (readUInt64 (member j key)) (\<lambda>n. okP (Some n)))"

text \<open>Lists of positive identifiers: the size bounds, then each element in turn.\<close>

fun positive_ids :: "string \<Rightarrow> nat \<Rightarrow> json list \<Rightarrow> nat list parsed" where
  "positive_ids fld i [] = okP []"
| "positive_ids fld i (j # js) =
     (if \<not> isIntegral j
      then failP ValidationFailed (''Parameter '' @ [CHR 0x27] @ fld @ ''['' @ decimal i @ '']'' @ [CHR 0x27] @
             '' type error: expected positive integer'')
      else bindP (readUInt64 j) (\<lambda>n.
        if n = 0
        then failP ValidationFailed (''Parameter '' @ [CHR 0x27] @ fld @ ''['' @ decimal i @ '']'' @ [CHR 0x27] @
               '' must be a positive integer'')
        else bindP (positive_ids fld (i + 1) js) (\<lambda>ns. okP (n # ns))))"

definition RequirePositiveIdArray :: "json \<Rightarrow> string \<Rightarrow> nat \<Rightarrow> nat \<Rightarrow> nat list parsed" where
  "RequirePositiveIdArray j fld min_size max_size =
     bindP (isMember j fld) (\<lambda>present.
       if \<not> present then failP ValidationFailed (''Missing required parameter: '' @ fld)
       else
         (case member j fld of
            JArray js \<Rightarrow>
              if length js < min_size then failP ValidationFailed (param fld '' cannot be empty array'')
              else if length js > max_size
              then failP ValidationFailed (param fld ('' supports at most '' @ decimal max_size @ '' IDs''))
              else positive_ids fld 0 js
          | _ \<Rightarrow> failP ValidationFailed (param fld '' type error: expected array'')))"

section \<open>Starting an upload\<close>

definition forbidden_message :: string where
  "forbidden_message =
     ''Filename contains forbidden characters: / '' @ [CHR 0x5C] @ '' : * ? '' @ [CHR 0x22] @ '' < > | or control characters''"

text \<open>The checks of a file name, in the order of the source.\<close>

definition ValidateFilename :: "string \<Rightarrow> unit parsed" where
  "ValidateFilename filename =
     (if \<not> (length filename \<ge> 1 \<and> length filename \<le> 255)
      then failP ValidationFailed ''Filename length must be between 1-255 characters''
      else if HasForbiddenDriveItemChars filename then failP InvalidFilename forbidden_message
      else if filename = ''.'' \<or> filename = ''..''
      then failP InvalidFilename (''Filename cannot be reserved name '' @ [CHR 0x22] @ ''.'' @ [CHR 0x22] @ '' or '' @
             [CHR 0x22] @ ''..'' @ [CHR 0x22])
      else if filename \<noteq> [] \<and> hd filename = CHR ''.''
      then failP InvalidFilename (''Filename cannot start with '' @ [CHR 0x22] @ ''.'' @ [CHR 0x22])
      else if \<not> IsValidUtf8WithoutControlChars filename
      then failP InvalidFilename ''Filename must be valid UTF-8 and cannot contain control characters''
      else okP ())"

definition ValidateFileHash :: "string \<Rightarrow> bool" where
  "ValidateFileHash file_hash \<longleftrightarrow> length file_hash = 32 \<and>
     list_all (\<lambda>c. CHR ''0'' \<le> c \<and> c \<le> CHR ''9'' \<or> CHR ''a'' \<le> c \<and> c \<le> CHR ''f'') file_hash"

definition InitUploadRequest_FromRequest :: "json option \<Rightarrow> InitUploadRequest parsed" where
  "InitUploadRequest_FromRequest body =
     bindP (RequireJsonBody body) (\<lambda>j.
     bindP (RequireString j ''filename'') (\<lambda>filename.
     bindP (RequireUInt64 j ''file_size'') (\<lambda>file_size.
     bindP (RequireString j ''file_hash'') (\<lambda>file_hash.
     bindP (OptionalUInt64 j ''parent_id'') (\<lambda>parent_id.
     bindP (ValidateFilename filename) (\<lambda>_.
       if \<not> file_size > 0
       then failP ValidationFailed ''File size must be greater than 0 and not exceed the maximum limit''
       else if \<not> ValidateFileHash file_hash
       then failP ValidationFailed ''File hash must be a 32-character lowercase hexadecimal string''
       else okP \<lparr>ir_filename = filename, ir_file_size = file_size, ir_file_hash = file_hash,
                 ir_parent_id = (case parent_id of None \<Rightarrow> 0 | Some p \<Rightarrow> p)\<rparr>))))))"

section \<open>Identifier lists in request bodies\<close>

fun optional_ids :: "string \<Rightarrow> json list \<Rightarrow> nat list parsed" where
  "optional_ids fld [] = okP []"
| "optional_ids fld (j # js) =
     (if \<not> isIntegral j
      then failP InvalidParameter (''Element in parameter '' @ [CHR 0x27] @ fld @ [CHR 0x27] @ '' type error: expected integer'')
      else bindP (readUInt64 j) (\<lambda>n.
        if n = 0
        then failP InvalidParameter (''Element in parameter '' @ [CHR 0x27] @ fld @ [CHR 0x27] @ '' must be a positive integer'')
        else bindP (optional_ids fld js) (\<lambda>ns. okP (n # ns))))"

definition OptionalPositiveIdArray :: "json \<Rightarrow> string \<Rightarrow> nat list parsed" where
  "OptionalPositiveIdArray j fld =
     bindP (isMember j fld) (\<lambda>present.
       if \<not> present then okP []
       else (case member j fld of
               JArray js \<Rightarrow> optional_ids fld js
             | _ \<Rightarrow> failP InvalidParameter (param fld '' type error: expected array'')))"

record DeleteRequest =
  dr_file_ids :: "nat list"
  dr_folder_ids :: "nat list"

definition DeleteRequest_FromRequest :: "json option \<Rightarrow> DeleteRequest parsed" where
  "DeleteRequest_FromRequest body =
     bindP (RequireJsonBody body) (\<lambda>j.
     bindP (OptionalPositiveIdArray j ''file_ids'') (\<lambda>file_ids.
     bindP (OptionalPositiveIdArray j ''folder_ids'') (\<lambda>folder_ids.
       if file_ids = [] \<and> folder_ids = []
       then failP InvalidParameter ''At least one file_id or folder_id is required''
       else okP \<lparr>dr_file_ids = file_ids, dr_folder_ids = folder_ids\<rparr>)))"

definition TrashBatchRequest_FromRequest :: "json option \<Rightarrow> nat list parsed" where
  "TrashBatchRequest_FromRequest body =
     bindP (RequireJsonBody body) (\<lambda>j. RequirePositiveIdArray j ''trash_ids'' 1 100)"

section \<open>What is accepted\<close>

lemma utf8_encode_bytes:
  assumes "printable c" and "ch \<in> set (utf8_encode c)"
  shows "32 \<le> (of_char ch :: nat)"
proof -
  have "32 \<le> b" "b < 256" if "b \<in> set (utf8_bytes c)" for b
    using encode_well_formed [OF assms(1)] assms(1) that
    by (auto simp: utf8_bytes_def well_formed_def printable_def split: if_splits)
  with assms(2) show ?thesis by (auto simp: utf8_encode_def)
qed

lemma utf8_text_no_control: "is_utf8_text s \<Longrightarrow> c \<in> set s \<Longrightarrow> 32 \<le> (of_char c :: nat)"
  using utf8_encode_bytes by (fastforce simp: is_utf8_text_def)

definition acceptable_name :: "string \<Rightarrow> bool" where
  "acceptable_name n \<longleftrightarrow> n \<noteq> [] \<and> length n \<le> 255 \<and> is_utf8_text n \<and> set n \<inter> set FORBIDDEN_CHARS = {} \<and> hd n \<noteq> CHR ''.''"

lemma HasForbidden_iff:
  "is_utf8_text n \<Longrightarrow> HasForbiddenDriveItemChars n \<longleftrightarrow> set n \<inter> set FORBIDDEN_CHARS \<noteq> {}"
  by (fastforce simp: HasForbiddenDriveItemChars_def list_ex_iff word_le_nat_alt dest: utf8_text_no_control)

lemma ValidateFilename_ok_iff: "ValidateFilename n = Inr (Inr u) \<longleftrightarrow> acceptable_name n"
proof (cases "is_utf8_text n")
  case True
  then show ?thesis
    by (cases n) (auto simp: ValidateFilename_def acceptable_name_def HasForbidden_iff failP_def okP_def
        IsValidUtf8WithoutControlChars_def utf8_from_iff)
next
  case False
  then show ?thesis
    by (auto simp: ValidateFilename_def acceptable_name_def failP_def IsValidUtf8WithoutControlChars_def utf8_from_iff)
qed

end
