(* ===== verification/Folder_Service.thy ===== *)
theory Folder_Service
  imports Trash_Service Request_Validation
begin

text \<open>
  Folders (src/src/services/FolderService.cpp) with the statements of
  src/src/services/FolderRepository.cpp and src/src/services/FileRepository.cpp they need:
  creating and renaming a folder, the folder tree and the breadcrumb.  The record of the trash
  service carries the file-list cache and the hash order, which all these services share.

  Timestamps of folders and of renamed files are not part of the rows; responses are given
  without them.  The collation of \<^verbatim>\<open>ORDER BY path\<close> belongs to the database and is a parameter.
\<close>

section \<open>Requests\<close>

definition TrimAsciiSpaces :: "string \<Rightarrow> string" where
  "TrimAsciiSpaces s = rev (dropWhile (\<lambda>c. c = CHR '' '') (rev (dropWhile (\<lambda>c. c = CHR '' '') s)))"

definition ValidateFolderName :: "string \<Rightarrow> unit parsed" where
  "ValidateFolderName name =
     (if \<not> (length name \<ge> 1 \<and> length name \<le> 255)
      then failP ValidationFailed ''Folder name length must be between 1-255 characters''
      else if HasForbiddenDriveItemChars name
      then failP InvalidFilename (''Folder name contains forbidden characters: / '' @ [CHR 0x5C] @ '' : * ? '' @ [CHR 0x22] @
             '' < > | or control characters'')
      else if name = ''.'' \<or> name = ''..''
      then failP InvalidFilename (''Folder name cannot be reserved name '' @ [CHR 0x22] @ ''.'' @ [CHR 0x22] @ '' or '' @
             [CHR 0x22] @ ''..'' @ [CHR 0x22])
      else if name \<noteq> [] \<and> hd name = CHR ''.''
      then failP InvalidFilename (''Folder name cannot start with '' @ [CHR 0x22] @ ''.'' @ [CHR 0x22])
      else if \<not> IsValidUtf8WithoutControlChars name
      then failP InvalidFilename ''Folder name must be valid UTF-8 and cannot contain control characters''
      else okP ())"

record CreateFolderRequest =
  cf_name :: string
  cf_parent_id :: nat

definition CreateFolderRequest_FromRequest :: "json option \<Rightarrow> CreateFolderRequest parsed" where
  "CreateFolderRequest_FromRequest body =
     bindP (RequireJsonBody body) (\<lambda>j.
     bindP (RequireString j ''name'') (\<lambda>name.
     bindP (OptionalUInt64 j ''parent_id'') (\<lambda>parent_id.
       let name = TrimAsciiSpaces name in
       bindP (ValidateFolderName name) (\<lambda>_.
         okP \<lparr>cf_name = name, cf_parent_id = (case parent_id of None \<Rightarrow> 0 | Some p \<Rightarrow> p)\<rparr>))))"

text \<open>The new name of a folder; its identifier comes from the path and is checked before.\<close>

definition RenameFolderRequest_new_name :: "json option \<Rightarrow> string parsed" where
  "RenameFolderRequest_new_name body =
     bindP (RequireJsonBody body) (\<lambda>j.
     bindP (RequireString j ''new_name'') (\<lambda>name.
       let name = TrimAsciiSpaces name in bindP (ValidateFolderName name) (\<lambda>_. okP name)))"

section \<open>Statements\<close>

definition same_folder_name :: "folder_row \<Rightarrow> folder_row \<Rightarrow> bool" where
  "same_folder_name r x \<longleftrightarrow> d_user_id x = d_user_id r \<and> d_parent_id x = d_parent_id r \<and> d_name x = d_name r"

text \<open>\<^verbatim>\<open>ON CONFLICT (user_id, parent_id, name) DO NOTHING\<close>\<close>

definition insert_if_available :: "folder_row \<Rightarrow> ('w, folder_row option) stmt" where
  "insert_if_available r d =
     (if list_ex (same_folder_name r) (folders d) then (Inr None, d)
      else if d_user_id r \<notin> u_id ` set (users d) then (Inl DbException, d)
      else (let r' = r\<lparr>d_id := Suc (seq_folders d)\<rparr> in
            (Inr (Some r'), d\<lparr>folders := folders d @ [r'], seq_folders := Suc (seq_folders d)\<rparr>)))"

definition InsertIfNameAvailable :: "'w client \<Rightarrow> folder_row \<Rightarrow> ('w, folder_row option) M" where
  "InsertIfNameAvailable E folder = exec E (insert_if_available folder)"

definition FetchFolderSubtree :: "'w client \<Rightarrow> nat \<Rightarrow> nat \<Rightarrow> ('w, folder_row list) M" where
  "FetchFolderSubtree E root_folder_id user_id =
     bindM (exec E (fetch_tree_stmt [root_folder_id] user_id)) (\<lambda>rows. retM (map fst rows))"

text \<open>
  An update of one folder or file.  The unique index on owner, place and name refuses a row
  that takes the name of another one.
\<close>

definition update_folder :: "nat \<Rightarrow> nat \<Rightarrow> (folder_row \<Rightarrow> folder_row) \<Rightarrow> ('w, bool) stmt" where
  "update_folder folder_id user_id upd d =
     (if list_ex (\<lambda>r. owned_folder folder_id user_id r \<and>
            list_ex (\<lambda>x. d_id x \<noteq> d_id r \<and> same_folder_name (upd r) x) (folders d)) (folders d)
      then (Inl DbException, d)
      else (Inr (affected (owned_folder folder_id user_id) (folders d) > 0),
            d\<lparr>folders := update_where (owned_folder folder_id user_id) upd (folders d)\<rparr>))"

definition RenameFolderPath :: "'w client \<Rightarrow> nat \<Rightarrow> nat \<Rightarrow> string \<Rightarrow> string \<Rightarrow> ('w, bool) M" where
  "RenameFolderPath E folder_id user_id new_name new_path =
     exec E (update_folder folder_id user_id (\<lambda>r. r\<lparr>d_name := new_name, d_path := new_path\<rparr>))"

definition UpdateFolderPath :: "'w client \<Rightarrow> nat \<Rightarrow> nat \<Rightarrow> string \<Rightarrow> ('w, bool) M" where
  "UpdateFolderPath E folder_id user_id new_path =
     exec E (update_folder folder_id user_id (\<lambda>r. r\<lparr>d_path := new_path\<rparr>))"

definition owned_file :: "nat \<Rightarrow> nat \<Rightarrow> file_row \<Rightarrow> bool" where
  "owned_file file_id user_id f \<longleftrightarrow> f_id f = file_id \<and> f_user_id f = user_id"

definition update_file :: "nat \<Rightarrow> nat \<Rightarrow> (file_row \<Rightarrow> file_row) \<Rightarrow> ('w, bool) stmt" where
  "update_file file_id user_id upd d =
     (if list_ex (\<lambda>f. owned_file file_id user_id f \<and>
            list_ex (\<lambda>x. f_id x \<noteq> f_id f \<and> named_file (f_user_id (upd f)) (f_folder_id (upd f)) (f_name (upd f)) x)
              (files d)) (files d)
      then (Inl DbException, d)
      else (Inr (affected (owned_file file_id user_id) (files d) > 0),
            d\<lparr>files := update_where (owned_file file_id user_id) upd (files d)\<rparr>))"

definition UpdateFilePath :: "'w client \<Rightarrow> nat \<Rightarrow> nat \<Rightarrow> string \<Rightarrow> ('w, bool) M" where
  "UpdateFilePath E file_id user_id new_path =
     exec E (update_file file_id user_id (\<lambda>f. f\<lparr>f_path := new_path\<rparr>))"

section \<open>Creating\<close>

definition create_folder_tx :: "CreateFolderRequest \<Rightarrow> nat \<Rightarrow> 'w client \<Rightarrow> ('w, folder_row Result) M" where
  "create_folder_tx request user_id T =
     (let parent_id = cf_parent_id request in
      bindM (Folder_AcquireNameLock T user_id parent_id (cf_name request)) (\<lambda>_.
      bindR
        (if parent_id > 0
         then bindM (ApplyItemCountDelta T parent_id user_id 1) (\<lambda>parent_updated.
                if \<not> parent_updated then failR (ErrorInfo1 FolderNotFound)
                else bindM (FindOwnedFolder T parent_id user_id) (\<lambda>parent.
                  case parent of
                    None \<Rightarrow> failR (ErrorInfo1 FolderNotFound)
                  | Some p \<Rightarrow> okR \<lparr>loc_path = d_path p, loc_depth = d_depth p\<rparr>))
         else okR \<lparr>loc_path = ''/'', loc_depth = 0\<rparr>) (\<lambda>parent.
      bindM (InsertIfNameAvailable T
          \<lparr>d_id = 0, d_user_id = user_id, d_parent_id = parent_id, d_name = cf_name request,
           d_path = BuildFolderPath (loc_path parent) (cf_name request), d_depth = loc_depth parent + 1,
           d_item_count = 0\<rparr>) (\<lambda>inserted.
        case inserted of
          None \<Rightarrow> failR (ErrorInfo1 FolderAlreadyExists)
        | Some folder \<Rightarrow> okR folder))))"

definition CreateFolder :: "'w client \<Rightarrow> 'w trash_service \<Rightarrow> CreateFolderRequest \<Rightarrow> nat \<Rightarrow> ('w, folder_row Result) M" where
  "CreateFolder E S request user_id =
     bindR (Run E (ErrorInfo2 InternalError ''Failed to create folder, please try again later'')
              (create_folder_tx request user_id)) (\<lambda>folder.
     bindM (invalidate_list E S user_id) (\<lambda>_. okR folder))"

section \<open>Renaming\<close>

text \<open>\<^verbatim>\<open>new_prefix + old_path.substr(old_prefix.size())\<close>; \<^verbatim>\<open>substr\<close> raises behind the end.\<close>

definition relocated :: "string \<Rightarrow> string \<Rightarrow> string \<Rightarrow> exn + string" where
  "relocated new_prefix old_prefix old_path =
     (if length old_prefix > length old_path then Inl (RuntimeError ''std::out_of_range'')
      else Inr (new_prefix @ drop (length old_prefix) old_path))"

fun rename_subtree ::
  "'w client \<Rightarrow> nat \<Rightarrow> nat \<Rightarrow> string \<Rightarrow> string \<Rightarrow> string \<Rightarrow> folder_row list \<Rightarrow> ('w, unit Result) M" where
  "rename_subtree T user_id folder_id new_name new_prefix old_prefix [] = okR ()"
| "rename_subtree T user_id folder_id new_name new_prefix old_prefix (r # rs) =
     bindM (lift_exn (relocated new_prefix old_prefix (d_path r))) (\<lambda>new_path.
     bindM (if d_id r = folder_id then RenameFolderPath T (d_id r) user_id new_name new_path
            else UpdateFolderPath T (d_id r) user_id new_path) (\<lambda>updated.
       if \<not> updated then failR (ErrorInfo2 InternalError ''Failed to rename folder'')
       else rename_subtree T user_id folder_id new_name new_prefix old_prefix rs))"

definition folder_paths :: "string \<Rightarrow> string \<Rightarrow> folder_row list \<Rightarrow> (nat \<times> string) list" where
  "folder_paths new_prefix old_prefix rows =
     map (\<lambda>r. (d_id r, new_prefix @ drop (length old_prefix) (d_path r))) rows"

text \<open>Files follow the new path of their folder.\<close>

fun repath_files :: "'w client \<Rightarrow> nat \<Rightarrow> ErrorInfo \<Rightarrow> (nat \<times> string) list \<Rightarrow> file_row list \<Rightarrow> ('w, unit Result) M" where
  "repath_files T user_id failed paths [] = okR ()"
| "repath_files T user_id failed paths (f # fs) =
     (case map_of paths (f_folder_id f) of
        None \<Rightarrow> repath_files T user_id failed paths fs
      | Some p \<Rightarrow>
          bindM (UpdateFilePath T (f_id f) user_id (BuildFilePath p (f_name f))) (\<lambda>updated.
            if \<not> updated then failR failed else repath_files T user_id failed paths fs))"

definition rename_folder_tx :: "nat \<Rightarrow> string \<Rightarrow> nat \<Rightarrow> 'w client \<Rightarrow> ('w, string Result) M" where
  "rename_folder_tx folder_id new_name user_id T =
     bindM (FindOwnedFolderForUpdate T folder_id user_id) (\<lambda>found.
       case found of
         None \<Rightarrow> failR (ErrorInfo1 FolderNotFound)
       | Some folder \<Rightarrow>
           let parent_id = d_parent_id folder in
           bindM (Folder_AcquireNameLock T user_id parent_id new_name) (\<lambda>_.
           bindM (if d_name folder \<noteq> new_name
                  then Folder_NameExistsExcluding T new_name parent_id user_id folder_id
                  else retM False) (\<lambda>occupied.
           if occupied then failR (ErrorInfo1 FolderAlreadyExists)
           else
             bindR (if parent_id > 0
                    then bindM (FindOwnedFolderForUpdate T parent_id user_id) (\<lambda>parent.
                           case parent of
                             None \<Rightarrow> failR (ErrorInfo1 FolderNotFound)
                           | Some p \<Rightarrow> okR (d_path p))
                    else okR ''/'') (\<lambda>parent_path.
             let old_prefix = d_path folder; new_prefix = BuildFolderPath parent_path new_name in
             bindM (FetchFolderSubtree T folder_id user_id) (\<lambda>subtree.
             if subtree = [] then failR (ErrorInfo1 FolderNotFound)
             else
               bindR (rename_subtree T user_id folder_id new_name new_prefix old_prefix subtree) (\<lambda>_.
               let paths = folder_paths new_prefix old_prefix subtree in
               bindM (FetchFilesInFolders T (map fst paths) user_id) (\<lambda>found_files.
               bindR (repath_files T user_id (ErrorInfo2 InternalError ''Failed to rename folder'') paths found_files) (\<lambda>_.
                 okR new_prefix))))))))"

definition RenameFolder :: "'w client \<Rightarrow> 'w trash_service \<Rightarrow> nat \<Rightarrow> string \<Rightarrow> nat \<Rightarrow> ('w, string Result) M" where
  "RenameFolder E S folder_id new_name user_id =
     bindR (Run E (ErrorInfo2 InternalError ''Failed to rename folder'')
              (rename_folder_tx folder_id new_name user_id)) (\<lambda>path.
     bindM (invalidate_list E S user_id) (\<lambda>_. okR path))"

section \<open>The folder tree\<close>

record FolderNodeData =
  nd_id :: nat
  nd_name :: string
  nd_parent_id :: nat

text \<open>Rows of level \<open>0\<close> and, while the level is below the maximum, their children.\<close>

fun tree_levels :: "nat \<Rightarrow> folder_row list \<Rightarrow> nat \<Rightarrow> folder_row list \<Rightarrow> folder_row list" where
  "tree_levels 0 ds user_id lvl = lvl"
| "tree_levels (Suc n) ds user_id lvl =
     lvl @ tree_levels n ds user_id
       (concat (map (\<lambda>ft. filter (\<lambda>f. d_parent_id f = d_id ft \<and> d_user_id f = user_id) ds) lvl))"

definition FetchFolderTreeRows ::
  "'w client \<Rightarrow> (folder_row list \<Rightarrow> folder_row list) \<Rightarrow> nat \<Rightarrow> nat \<Rightarrow> nat \<Rightarrow> ('w, FolderNodeData list) M" where
  "FetchFolderTreeRows E order_by_path user_id parent_id max_depth =
     exec E (pureS (\<lambda>d.
       map (\<lambda>r. \<lparr>nd_id = d_id r, nd_name = d_name r, nd_parent_id = d_parent_id r\<rparr>)
         (order_by_path (tree_levels max_depth (folders d) user_id
           (filter (\<lambda>r. d_user_id r = user_id \<and> d_parent_id r = parent_id) (folders d))))))"

datatype FolderTreeNode = FolderTreeNode (tn_id: nat) (tn_name: string) (tn_children: "FolderTreeNode list")

text \<open>
  The recursion that hangs the children below their parents.  It descends at most once per
  node when the nodes form a tree; on nodes with a cycle it would never end, which is \<open>None\<close>.
\<close>

fun build_children :: "nat \<Rightarrow> FolderNodeData list \<Rightarrow> nat \<Rightarrow> FolderTreeNode list option" where
  "build_children 0 nodes parent_id = (if list_ex (\<lambda>n. nd_parent_id n = parent_id) nodes then None else Some [])"
| "build_children (Suc k) nodes parent_id =
     those (map (\<lambda>n. map_option (FolderTreeNode (nd_id n) (nd_name n)) (build_children k nodes (nd_id n)))
       (filter (\<lambda>n. nd_parent_id n = parent_id) nodes))"

definition root_label :: string where
  "root_label = [CHR 0xE6, CHR 0xA0, CHR 0xB9, CHR 0xE7, CHR 0x9B, CHR 0xAE, CHR 0xE5, CHR 0xBD, CHR 0x95]"

definition BuildTreeFromFlatList :: "FolderNodeData list \<Rightarrow> nat \<Rightarrow> FolderTreeNode option" where
  "BuildTreeFromFlatList nodes root_id =
     map_option (FolderTreeNode root_id (if root_id = 0 then root_label else '''')) (build_children (length nodes) nodes root_id)"

definition ValidateParentOwnership :: "'w client \<Rightarrow> nat \<Rightarrow> nat \<Rightarrow> ('w, unit Result) M" where
  "ValidateParentOwnership E parent_id user_id =
     catchDb (bindM (FindOwnedFolder E parent_id user_id) (\<lambda>parent.
         if parent = None then failR (ErrorInfo1 FolderNotFound) else okR ()))
       (failR (ErrorInfo1 FolderNotFound))"

definition GetFolderTree ::
  "'w client \<Rightarrow> (folder_row list \<Rightarrow> folder_row list) \<Rightarrow> nat \<Rightarrow> nat \<Rightarrow> int \<Rightarrow> ('w, FolderTreeNode option Result) M" where
  "GetFolderTree E order_by_path user_id parent_id depth =
     bindR (if parent_id > 0 then ValidateParentOwnership E parent_id user_id else okR ()) (\<lambda>_.
       let max_depth = (if depth = -1 then 100 else nat depth) in
       catchDb
         (bindM (FetchFolderTreeRows E order_by_path user_id parent_id max_depth) (\<lambda>nodes.
            if nodes = [] then okR (Some (FolderTreeNode parent_id (if parent_id = 0 then root_label else '''') []))
            else okR (BuildTreeFromFlatList nodes parent_id)))
         (failR (ErrorInfo2 InternalError ''Failed to get folder tree, please try again later'')))"

section \<open>The breadcrumb\<close>

text \<open>The folder and its ancestors; over a cyclic table the query does not end and raises.\<close>

fun ancestors :: "nat \<Rightarrow> folder_row list \<Rightarrow> nat \<Rightarrow> nat \<Rightarrow> folder_row list option" where
  "ancestors 0 ds user_id folder_id = (if find_row (owned_folder folder_id user_id) ds = None then Some [] else None)"
| "ancestors (Suc k) ds user_id folder_id =
     (case find_row (owned_folder folder_id user_id) ds of
        None \<Rightarrow> Some []
      | Some r \<Rightarrow> map_option (Cons r) (ancestors k ds user_id (d_parent_id r)))"

definition FetchBreadcrumbRows :: "'w client \<Rightarrow> nat \<Rightarrow> nat \<Rightarrow> ('w, (nat \<times> string) list) M" where
  "FetchBreadcrumbRows E folder_id user_id =
     exec E (\<lambda>d. case ancestors (length (folders d)) (folders d) user_id folder_id of
                   None \<Rightarrow> (Inl DbException, d)
                 | Some rows \<Rightarrow> (Inr (map (\<lambda>r. (d_id r, d_name r)) rows), d))"

definition GetBreadcrumb :: "'w client \<Rightarrow> nat \<Rightarrow> nat \<Rightarrow> ('w, (nat \<times> string) list Result) M" where
  "GetBreadcrumb E folder_id user_id =
     (if folder_id = 0 then okR [(0, root_label)]
      else catchDb
        (bindM (FetchBreadcrumbRows E folder_id user_id) (\<lambda>path.
           if path = [] then failR (ErrorInfo1 FolderNotFound)
           else okR (rev (path @ [(0, root_label)]))))
        (failR (ErrorInfo2 InternalError ''Failed to retrieve breadcrumb'')))"

end
