(* ===== verification/File_Mutation.thy ===== *)
theory File_Mutation
  imports Folder_Service
begin

text \<open>
  Changing the drive (src/src/services/FileMutationService.cpp): renaming a file, moving and
  copying files and folder trees, and deleting them, which is the trash's work.  A move is one
  transaction; a copy reserves its bytes first and then commits batch by batch, giving back
  what it did not use.

  Sizes are sums over files of one user, parts of the bigint column \<^verbatim>\<open>storage_used\<close>, and are
  kept as unbounded numbers.  Depths are natural numbers: below a moved folder they exceed the
  depth of that folder.
\<close>

section \<open>Requests\<close>

record MoveRequest =
  mv_file_ids :: "nat list"
  mv_folder_ids :: "nat list"
  mv_target_folder_id :: nat

definition items_request :: "string \<Rightarrow> json option \<Rightarrow> MoveRequest parsed" where
  "items_request verb body =
     bindP (RequireJsonBody body) (\<lambda>j.
     bindP (OptionalPositiveIdArray j ''file_ids'') (\<lambda>file_ids.
     bindP (OptionalPositiveIdArray j ''folder_ids'') (\<lambda>folder_ids.
       if file_ids = [] \<and> folder_ids = []
       then failP InvalidParameter (verb @ '' request must contain file_ids or folder_ids'')
       else bindP (OptionalUInt64 j ''target_folder_id'') (\<lambda>target.
         okP \<lparr>mv_file_ids = file_ids, mv_folder_ids = folder_ids,
              mv_target_folder_id = (case target of None \<Rightarrow> 0 | Some t \<Rightarrow> t)\<rparr>))))"

definition MoveRequest_FromRequest :: "json option \<Rightarrow> MoveRequest parsed" where
  "MoveRequest_FromRequest body = items_request ''Move'' body"

definition CopyRequest_FromRequest :: "json option \<Rightarrow> MoveRequest parsed" where
  "CopyRequest_FromRequest body = items_request ''Copy'' body"

definition RenameRequest_new_name :: "json option \<Rightarrow> string parsed" where
  "RenameRequest_new_name body =
     bindP (RequireJsonBody body) (\<lambda>j.
     bindP (RequireString j ''new_name'') (\<lambda>name.
     bindP (ValidateFilename name) (\<lambda>_. okP name)))"

section \<open>Statements\<close>

definition FindOwnedFileForUpdate :: "'w client \<Rightarrow> nat \<Rightarrow> nat \<Rightarrow> ('w, file_row option) M" where
  "FindOwnedFileForUpdate E file_id user_id =
     exec E (pureS (\<lambda>d. find_row (owned_file file_id user_id) (files d)))"

definition RenameOwnedFile :: "'w client \<Rightarrow> nat \<Rightarrow> nat \<Rightarrow> string \<Rightarrow> string \<Rightarrow> string \<Rightarrow> ('w, bool) M" where
  "RenameOwnedFile E file_id user_id new_name extension new_path =
     exec E (update_file file_id user_id (\<lambda>f. f\<lparr>f_name := new_name, f_extension := extension, f_path := new_path\<rparr>))"

definition UpdateFileLocation :: "'w client \<Rightarrow> nat \<Rightarrow> nat \<Rightarrow> nat \<Rightarrow> string \<Rightarrow> ('w, bool) M" where
  "UpdateFileLocation E file_id user_id folder_id new_path =
     exec E (update_file file_id user_id (\<lambda>f. f\<lparr>f_folder_id := folder_id, f_path := new_path\<rparr>))"

definition shift_depth :: "int \<Rightarrow> folder_row \<Rightarrow> nat" where
  "shift_depth depth_delta r = nat (int (d_depth r) + depth_delta)"

definition UpdateFolderLocationForMove :: "'w client \<Rightarrow> nat \<Rightarrow> nat \<Rightarrow> nat \<Rightarrow> string \<Rightarrow> int \<Rightarrow> ('w, bool) M" where
  "UpdateFolderLocationForMove E folder_id user_id parent_id new_path depth_delta =
     exec E (update_folder folder_id user_id
       (\<lambda>r. r\<lparr>d_parent_id := parent_id, d_path := new_path, d_depth := shift_depth depth_delta r\<rparr>))"

definition UpdateFolderPathForMove :: "'w client \<Rightarrow> nat \<Rightarrow> nat \<Rightarrow> string \<Rightarrow> int \<Rightarrow> ('w, bool) M" where
  "UpdateFolderPathForMove E folder_id user_id new_path depth_delta =
     exec E (update_folder folder_id user_id (\<lambda>r. r\<lparr>d_path := new_path, d_depth := shift_depth depth_delta r\<rparr>))"

definition QueryOccupiedNames :: "'w client \<Rightarrow> nat \<Rightarrow> nat \<Rightarrow> string list \<Rightarrow> ('w, string list) M" where
  "QueryOccupiedNames E folder_id user_id candidate_names =
     (if candidate_names = [] then retM []
      else exec E (pureS (\<lambda>d. map f_name
        (filter (\<lambda>f. f_folder_id f = folder_id \<and> f_user_id f = user_id \<and> f_name f \<in> set candidate_names) (files d)))))"

definition QueryOccupiedFolderNames :: "'w client \<Rightarrow> nat \<Rightarrow> nat \<Rightarrow> string list \<Rightarrow> ('w, string list) M" where
  "QueryOccupiedFolderNames E parent_id user_id candidate_names =
     (if candidate_names = [] then retM []
      else exec E (pureS (\<lambda>d. map d_name
        (filter (\<lambda>r. d_parent_id r = parent_id \<and> d_user_id r = user_id \<and> d_name r \<in> set candidate_names) (folders d)))))"

definition normalize_names :: "string list \<Rightarrow> string list" where
  "normalize_names names = remdups_adj (sort names)"

fun lock_names :: "(string \<Rightarrow> ('w, unit) M) \<Rightarrow> string list \<Rightarrow> ('w, unit) M" where
  "lock_names lock [] = retM ()"
| "lock_names lock (n # ns) = bindM (lock n) (\<lambda>_. lock_names lock ns)"

section \<open>Renaming a file\<close>

definition rename_file_tx :: "nat \<Rightarrow> string \<Rightarrow> nat \<Rightarrow> 'w client \<Rightarrow> ('w, nat Result) M" where
  "rename_file_tx file_id new_name user_id T =
     bindM (FindOwnedFileForUpdate T file_id user_id) (\<lambda>found.
       case found of
         None \<Rightarrow> failR (ErrorInfo1 FileNotFound)
       | Some file \<Rightarrow>
           bindM (File_AcquireNameLock T user_id (f_folder_id file) new_name) (\<lambda>_.
           bindM (if f_name file \<noteq> new_name
                  then File_NameExistsExcluding T new_name (f_folder_id file) user_id file_id
                  else retM False) (\<lambda>occupied.
           if occupied then failR (ErrorInfo1 FileAlreadyExists)
           else
             bindR (ResolveOwnedFolderLocation T (f_folder_id file) user_id) (\<lambda>location.
             bindM (RenameOwnedFile T file_id user_id new_name (ExtractFileExtension new_name)
                      (BuildFilePath (loc_path location) new_name)) (\<lambda>updated.
               if \<not> updated then failR (ErrorInfo1 FileNotFound) else okR (f_id file))))))"

definition RenameFile :: "'w client \<Rightarrow> 'w trash_service \<Rightarrow> nat \<Rightarrow> string \<Rightarrow> nat \<Rightarrow> ('w, nat Result) M" where
  "RenameFile E S file_id new_name user_id =
     bindR (Run E (ErrorInfo2 InternalError ''Failed to rename file'') (rename_file_tx file_id new_name user_id)) (\<lambda>i.
     bindM (invalidate_list E S user_id) (\<lambda>_. okR i))"

section \<open>Moving\<close>

definition move_failed :: ErrorInfo where
  "move_failed = ErrorInfo2 InternalError ''Failed to move items''"

text \<open>The files of a batch in turn; the item count deltas of their folders are collected.\<close>

fun move_files ::
  "'w client \<Rightarrow> nat \<Rightarrow> nat \<Rightarrow> FolderLocation \<Rightarrow> file_row list \<Rightarrow> nat list \<Rightarrow> string list \<Rightarrow> (nat \<times> int) list \<Rightarrow> nat \<Rightarrow>
   ('w, ((nat \<times> int) list \<times> nat) Result) M" where
  "move_files T user_id target location fetched [] occupied deltas moved = okR (deltas, moved)"
| "move_files T user_id target location fetched (i # ids) occupied deltas moved =
     (case find_row (\<lambda>f. f_id f = i) fetched of
        None \<Rightarrow> move_files T user_id target location fetched ids occupied deltas moved
      | Some f \<Rightarrow>
          if f_folder_id f = target then move_files T user_id target location fetched ids occupied deltas (moved + 1)
          else if f_name f \<in> set occupied then move_files T user_id target location fetched ids occupied deltas moved
          else
            bindM (UpdateFileLocation T i user_id target (BuildFilePath (loc_path location) (f_name f))) (\<lambda>updated.
              if \<not> updated then failR move_failed
              else
                let deltas = (if f_folder_id f > 0 then add_to (f_folder_id f) (- 1) deltas else deltas);
                    deltas = (if target > 0 then add_to target 1 deltas else deltas)
                in move_files T user_id target location fetched ids (f_name f # occupied) deltas (moved + 1)))"

fun apply_move_deltas :: "'w client \<Rightarrow> nat \<Rightarrow> (nat \<times> int) list \<Rightarrow> ('w, unit Result) M" where
  "apply_move_deltas T user_id [] = okR ()"
| "apply_move_deltas T user_id ((folder_id, delta) # rest) =
     (if delta = 0 then apply_move_deltas T user_id rest
      else bindM (ApplyItemCountDelta T folder_id user_id delta) (\<lambda>count_updated.
        if \<not> count_updated then failR move_failed else apply_move_deltas T user_id rest))"

definition in_hash_order :: "(nat list \<Rightarrow> nat list) \<Rightarrow> (nat \<times> int) list \<Rightarrow> (nat \<times> int) list" where
  "in_hash_order hash_order deltas =
     List.map_filter (\<lambda>k. map_option (Pair k) (map_of deltas k)) (hash_order (map fst deltas))"

fun move_file_batches ::
  "(nat list \<Rightarrow> nat list) \<Rightarrow> 'w client \<Rightarrow> nat \<Rightarrow> nat \<Rightarrow> FolderLocation \<Rightarrow> file_row list \<Rightarrow> nat list list \<Rightarrow> nat \<Rightarrow>
   ('w, nat Result) M" where
  "move_file_batches hash_order T user_id target location fetched [] moved = okR moved"
| "move_file_batches hash_order T user_id target location fetched (chunk # chunks) moved =
     bindM (QueryOccupiedNames T target user_id
              (map f_name (filter (\<lambda>f. f_folder_id f \<noteq> target)
                (List.map_filter (\<lambda>i. find_row (\<lambda>f. f_id f = i) fetched) chunk)))) (\<lambda>occupied.
     bindR (move_files T user_id target location fetched chunk occupied [] moved) (\<lambda>(deltas, moved).
     bindR (apply_move_deltas T user_id (in_hash_order hash_order deltas)) (\<lambda>_.
       move_file_batches hash_order T user_id target location fetched chunks moved)))"

definition move_all_files ::
  "(nat list \<Rightarrow> nat list) \<Rightarrow> 'w client \<Rightarrow> nat \<Rightarrow> nat \<Rightarrow> FolderLocation \<Rightarrow> nat list \<Rightarrow> ('w, nat Result) M" where
  "move_all_files hash_order T user_id target location file_ids =
     (if file_ids = [] then okR 0
      else
        bindM (FetchOwnedFilesByIdsForUpdate T file_ids user_id) (\<lambda>fetched.
        bindM (lock_names (File_AcquireNameLock T user_id target)
                 (normalize_names (map f_name (filter (\<lambda>f. f_folder_id f \<noteq> target) fetched)))) (\<lambda>_.
          move_file_batches hash_order T user_id target location fetched
            (batches DEFAULT_BATCH_CHUNK_SIZE file_ids) 0)))"

text \<open>The folders of a moved tree get their new paths, the root its new parent as well.\<close>

fun move_subtree ::
  "'w client \<Rightarrow> nat \<Rightarrow> nat \<Rightarrow> nat \<Rightarrow> string \<Rightarrow> string \<Rightarrow> int \<Rightarrow> folder_row list \<Rightarrow> ('w, unit Result) M" where
  "move_subtree T user_id target root_id new_prefix old_prefix depth_delta [] = okR ()"
| "move_subtree T user_id target root_id new_prefix old_prefix depth_delta (r # rs) =
     bindM (lift_exn (relocated new_prefix old_prefix (d_path r))) (\<lambda>new_path.
     bindM (if d_id r = root_id then UpdateFolderLocationForMove T (d_id r) user_id target new_path depth_delta
            else UpdateFolderPathForMove T (d_id r) user_id new_path depth_delta) (\<lambda>updated.
       if \<not> updated then failR move_failed
       else move_subtree T user_id target root_id new_prefix old_prefix depth_delta rs))"

definition count_moved :: "'w client \<Rightarrow> nat \<Rightarrow> nat \<Rightarrow> int \<Rightarrow> ('w, unit Result) M" where
  "count_moved T user_id folder_id delta =
     (if folder_id > 0
      then bindM (ApplyItemCountDelta T folder_id user_id delta) (\<lambda>updated. if \<not> updated then failR move_failed else okR ())
      else okR ())"

definition move_folder :: "'w client \<Rightarrow> nat \<Rightarrow> nat \<Rightarrow> FolderLocation \<Rightarrow> FolderDeletePlan \<Rightarrow> ('w, unit Result) M" where
  "move_folder T user_id target location plan =
     (let root = pl_root plan; old_prefix = d_path root;
          new_prefix = BuildFolderPath (loc_path location) (d_name root);
          depth_delta = int (loc_depth location) + 1 - int (d_depth root) in
      bindR (move_subtree T user_id target (d_id root) new_prefix old_prefix depth_delta (pl_folders plan)) (\<lambda>_.
      bindR (repath_files T user_id move_failed (folder_paths new_prefix old_prefix (pl_folders plan)) (pl_files plan)) (\<lambda>_.
      bindR (count_moved T user_id (d_parent_id root) (- 1)) (\<lambda>_.
        count_moved T user_id target 1))))"

fun move_folders ::
  "'w client \<Rightarrow> nat \<Rightarrow> nat \<Rightarrow> FolderLocation \<Rightarrow> plans \<Rightarrow> nat list \<Rightarrow> string list \<Rightarrow> nat \<Rightarrow> ('w, nat Result) M" where
  "move_folders T user_id target location plans [] occupied moved = okR moved"
| "move_folders T user_id target location plans (i # ids) occupied moved =
     (case map_of plans i of
        None \<Rightarrow> move_folders T user_id target location plans ids occupied moved
      | Some plan \<Rightarrow>
          if target \<in> set (plan_folder_ids plan)
          then failR (ErrorInfo2 ValidationFailed ''Cannot move a folder into itself or its descendant'')
          else if d_parent_id (pl_root plan) = target
          then move_folders T user_id target location plans ids occupied (moved + 1)
          else if d_name (pl_root plan) \<in> set occupied
          then move_folders T user_id target location plans ids occupied moved
          else
            bindR (move_folder T user_id target location plan) (\<lambda>_.
              move_folders T user_id target location plans ids (d_name (pl_root plan) # occupied) (moved + 1)))"

fun lock_each :: "'w client \<Rightarrow> nat \<Rightarrow> nat list \<Rightarrow> ('w, unit) M" where
  "lock_each T user_id [] = retM ()"
| "lock_each T user_id (i # ids) = bindM (FindOwnedFolderForUpdate T i user_id) (\<lambda>_. lock_each T user_id ids)"

definition move_items_tx ::
  "(nat list \<Rightarrow> nat list) \<Rightarrow> nat list \<Rightarrow> nat list \<Rightarrow> nat \<Rightarrow> FolderLocation \<Rightarrow> nat \<Rightarrow> 'w client \<Rightarrow> ('w, (nat \<times> nat) Result) M" where
  "move_items_tx hash_order file_ids folder_ids target location user_id T =
     bindR (move_all_files hash_order T user_id target location file_ids) (\<lambda>moved_files.
     bindM (lock_each T user_id folder_ids) (\<lambda>_.
     bindM (FetchBatchFolderDeletePlans hash_order T folder_ids user_id) (\<lambda>plans.
       let top_level = FilterCoveredFolderIds folder_ids plans;
           names = normalize_names (map (\<lambda>p. d_name (pl_root p))
             (filter (\<lambda>p. d_parent_id (pl_root p) \<noteq> target) (List.map_filter (map_of plans) top_level)))
       in bindM (lock_names (Folder_AcquireNameLock T user_id target) names) (\<lambda>_.
          bindM (QueryOccupiedFolderNames T target user_id names) (\<lambda>occupied.
          bindR (move_folders T user_id target location plans top_level occupied 0) (\<lambda>moved_folders.
            okR (moved_files, moved_folders)))))))"

definition Move ::
  "'w client \<Rightarrow> 'w trash_service \<Rightarrow> MoveRequest \<Rightarrow> nat \<Rightarrow> ('w, (nat \<times> nat) Result) M" where
  "Move E S request user_id =
     bindR (ResolveOwnedFolderLocation E (mv_target_folder_id request) user_id) (\<lambda>location.
     bindR (Run E move_failed
              (move_items_tx (ts_hash_order S) (normalize_ids (mv_file_ids request)) (normalize_ids (mv_folder_ids request))
                 (mv_target_folder_id request) location user_id)) (\<lambda>(moved_files, moved_folders).
     bindM (if moved_files > 0 \<or> moved_folders > 0 then invalidate_list E S user_id else retM ()) (\<lambda>_.
       okR (moved_files, moved_folders))))"

section \<open>Deleting\<close>

definition FileMutation_Delete ::
  "'w client \<Rightarrow> 'w trash_service \<Rightarrow> DeleteRequest \<Rightarrow> nat \<Rightarrow> ('w, (nat \<times> nat \<times> nat) Result) M" where
  "FileMutation_Delete E S request user_id =
     bindR (MoveToTrash E S (dr_file_ids request) (dr_folder_ids request) user_id) (\<lambda>result.
       okR (mr_deleted_count result, mr_deleted_file_count result, mr_deleted_folder_count result))"

end
