(* ===== verification/Trash_Purge.thy ===== *)
theory Trash_Purge
  imports Trash_Service Upload_Commit Job_Queue
begin

text \<open>
  Permanent deletion keeps the invariant: the rows a chunk deletes account exactly for the
  references and the bytes it releases.
\<close>

section \<open>Taking rows out of a table\<close>

lemma total_mset: "mset xs = mset ys \<Longrightarrow> total w xs = total w ys"
  unfolding total_def by (metis mset_map sum_mset_sum_list)

lemma mset_taken:
  assumes "distinct (map key rs)" and "set xs \<subseteq> set rs" and "distinct xs"
  shows "mset rs = mset (filter (\<lambda>r. key r \<notin> key ` set xs) rs) + mset xs"
proof -
  let ?p = "\<lambda>r. key r \<in> key ` set xs"
  have inj: "inj_on key (set rs)" and d: "distinct rs"
    using assms(1) by (simp_all add: distinct_map)
  have "set (filter ?p rs) = set xs"
    using assms(2) inj by (auto dest: inj_onD)
  then have "mset (filter ?p rs) = mset xs"
    by (rule iffD1 [OF set_eq_iff_mset_eq_distinct, rotated 2]) (use d assms(3) in simp_all)
  moreover have "mset rs = mset (filter ?p rs) + mset (filter (\<lambda>r. \<not> ?p r) rs)"
    by simp
  ultimately show ?thesis
    by (metis add.commute)
qed

lemma total_taken:
  assumes "distinct (map key rs)" and "set xs \<subseteq> set rs" and "distinct xs"
  shows "total w rs = total w (filter (\<lambda>r. key r \<notin> key ` set xs) rs) + total w xs"
proof -
  have "total w rs = total w (filter (\<lambda>r. key r \<notin> key ` set xs) rs @ xs)"
    by (rule total_mset) (use mset_taken [OF assms] in \<open>simp only: mset_append\<close>)
  then show ?thesis by simp
qed

text \<open>A deletion that hits as many rows as there are ids hits a row for every id, once.\<close>

lemma deletes_all:
  assumes "distinct (map key rs)" and "affected (\<lambda>r. key r \<in> set ids) rs = length ids"
  shows "distinct ids \<and> set ids \<subseteq> key ` set rs"
proof -
  let ?hit = "filter (\<lambda>r. key r \<in> set ids) rs"
  have "distinct (map key ?hit)"
    using assms(1) by (simp add: distinct_map_filter)
  then have card: "card (set (map key ?hit)) = length ids"
    using assms(2) by (metis affected_def distinct_card length_map)
  moreover have sub: "set (map key ?hit) \<subseteq> set ids" by auto
  ultimately have "length ids \<le> card (set ids)"
    by (metis List.finite_set card_mono)
  then have "card (set ids) = length ids"
    using card_length le_antisym by blast
  then have "distinct ids" and "set (map key ?hit) = set ids"
    using card sub by (auto simp: card_distinct card_subset_eq)
  then show ?thesis by auto
qed

lemma distinct_of_keys: "distinct (map key xs) \<Longrightarrow> distinct xs"
  by (simp add: distinct_map)

section \<open>Jobs\<close>

definition jobs_grown :: "'w db \<Rightarrow> 'w db \<Rightarrow> bool" where
  "jobs_grown d d' \<longleftrightarrow>
     (\<exists>js n. d' = d\<lparr>storage_jobs := js, seq_jobs := n\<rparr> \<and>
       (jobs_inv (storage_jobs d) (seq_jobs d) \<longrightarrow> jobs_inv js n) \<and>
       j_dedupe_key ` set (storage_jobs d) \<subseteq> j_dedupe_key ` set js)"

lemma jobs_grown_refl [simp]: "jobs_grown d d"
  unfolding jobs_grown_def by (intro exI [of _ "storage_jobs d"] exI [of _ "seq_jobs d"]) simp

lemma jobs_grownI:
  "(jobs_inv (storage_jobs d) (seq_jobs d) \<Longrightarrow> jobs_inv js n) \<Longrightarrow>
   j_dedupe_key ` set (storage_jobs d) \<subseteq> j_dedupe_key ` set js \<Longrightarrow> jobs_grown d (d\<lparr>storage_jobs := js, seq_jobs := n\<rparr>)"
  unfolding jobs_grown_def by blast

lemma jobs_grown_trans:
  assumes "jobs_grown d e" and "jobs_grown e f"
  shows "jobs_grown d f"
proof -
  from assms(1) obtain js n where e: "e = d\<lparr>storage_jobs := js, seq_jobs := n\<rparr>"
    and 1: "jobs_inv (storage_jobs d) (seq_jobs d) \<longrightarrow> jobs_inv js n" "j_dedupe_key ` set (storage_jobs d) \<subseteq> j_dedupe_key ` set js"
    unfolding jobs_grown_def by (elim exE conjE)
  from assms(2) obtain js' n' where f: "f = e\<lparr>storage_jobs := js', seq_jobs := n'\<rparr>"
    and 2: "jobs_inv (storage_jobs e) (seq_jobs e) \<longrightarrow> jobs_inv js' n'" "j_dedupe_key ` set (storage_jobs e) \<subseteq> j_dedupe_key ` set js'"
    unfolding jobs_grown_def by (elim exE conjE)
  have "f = d\<lparr>storage_jobs := js', seq_jobs := n'\<rparr>"
    unfolding f e by simp
  moreover have "jobs_inv (storage_jobs d) (seq_jobs d) \<longrightarrow> jobs_inv js' n'"
    "j_dedupe_key ` set (storage_jobs d) \<subseteq> j_dedupe_key ` set js'"
    using 1 2 unfolding e by simp_all
  ultimately show ?thesis
    unfolding jobs_grown_def by blast
qed

lemma rearm_grows:
  assumes run: "rearm_stmt job d = (Inr b, d')" and pos: "0 < nj_max_attempts job"
  shows "jobs_grown d d'"
proof (cases "list_ex (has_dedupe_key (nj_dedupe_key job)) (storage_jobs d)")
  case True
  let ?js = "update_where (rearm_guard job) (rearm_set (now d) job) (storage_jobs d)"
  have "jobs_grown d (d\<lparr>storage_jobs := ?js, seq_jobs := seq_jobs d\<rparr>)"
  proof (rule jobs_grownI)
    show "jobs_inv ?js (seq_jobs d)" if "jobs_inv (storage_jobs d) (seq_jobs d)"
      using rearm.jobs_inv_update [OF that, of job "now d"] pos by simp
    have "map j_dedupe_key ?js = map j_dedupe_key (storage_jobs d)"
      using rearm.dedupe_keys [of job "now d" "storage_jobs d"] pos by simp
    then show "j_dedupe_key ` set (storage_jobs d) \<subseteq> j_dedupe_key ` set ?js"
      by (metis list.set_map order_refl)
  qed
  with True run show ?thesis
    by (auto simp: rearm_stmt_def split: if_splits)
next
  case False
  then have "d' = enqueued job d" "enqueued job d = d\<lparr>storage_jobs := storage_jobs (enqueued job d), seq_jobs := seq_jobs (enqueued job d)\<rparr>"
    using run by (auto simp: rearm_stmt_def enqueued_def insert_job_def split: if_splits)
  moreover have "jobs_grown d (d\<lparr>storage_jobs := storage_jobs (enqueued job d), seq_jobs := seq_jobs (enqueued job d)\<rparr>)"
    by (rule jobs_grownI) (use pos jobs_inv_enqueued enqueued_keys [of job d] in auto)
  ultimately show ?thesis by simp
qed

lemma EnqueueOrRearm_grows:
  assumes "EnqueueOrRearmSucceeded T job s = (Inr b, s')" and tx: "in_tx T" and pos: "0 < nj_max_attempts job"
  shows "jobs_grown (sdb s) (sdb s')"
proof -
  from assms(1,2) obtain b' where "rearm_stmt job (sdb s) = (Inr b', sdb s')"
    unfolding EnqueueOrRearmSucceeded_def
    by (auto dest!: ValidateNewJob_ok pure_ok elim!: bindM_okE exec_okE split: if_splits option.splits)
  then show ?thesis using pos by (rule rearm_grows)
qed

lemma enqueue_gc_grows: "enqueue_gc T rs s = (Inr x, s') \<Longrightarrow> in_tx T \<Longrightarrow> jobs_grown (sdb s) (sdb s')"
proof (induction rs arbitrary: s)
  case (Cons r rs)
  then obtain b s1 where e: "EnqueueOrRearmSucceeded T (BlobGcJob (fc_id r) (fc_storage_path r)) s = (Inr b, s1)"
    and g: "enqueue_gc T rs s1 = (Inr x, s')"
    by (auto elim: bindM_okE)
  from e Cons.prems(2) have "jobs_grown (sdb s) (sdb s1)"
    by (rule EnqueueOrRearm_grows) (simp add: BlobGcJob_def)
  with Cons.IH [OF g Cons.prems(2)] show ?case
    by (blast intro: jobs_grown_trans)
qed simp

section \<open>The plan of a chunk\<close>

definition value_of :: "(nat \<times> 'v::zero) list \<Rightarrow> nat \<Rightarrow> 'v" where
  "value_of m k = (case map_of m k of None \<Rightarrow> 0 | Some v \<Rightarrow> v)"

lemma value_of_add_to [simp]:
  "value_of (add_to k v m) j = value_of m j + (if j = k then v else 0)" for v :: "'v::comm_monoid_add"
  by (induction k v m rule: add_to.induct) (auto simp: value_of_def)

lemma keys_add_to [simp]: "fst ` set (add_to k v m) = insert k (fst ` set m)"
  by (induction k v m rule: add_to.induct) auto

lemma distinct_add_to [simp]: "distinct (map fst m) \<Longrightarrow> distinct (map fst (add_to k v m))"
proof (induction k v m rule: add_to.induct)
  case (2 k v k' w m)
  then show ?case using keys_add_to [of k v m] by auto
qed simp

lemma delta_of_value: "delta_of m k = value_of m k"
  by (simp add: delta_of_def value_of_def)

lemma value_of_absent: "k \<notin> fst ` set m \<Longrightarrow> value_of m k = 0"
  by (simp add: value_of_def map_of_eq_None_iff [THEN iffD2])

lemma value_of_counts: "value_of (fold (\<lambda>c. add_to c 1) cs m) k = value_of m k + count_list cs k"
  for m :: "(nat \<times> nat) list"
  by (induction cs arbitrary: m) (simp_all del: One_nat_def)

lemma distinct_counts: "distinct (map fst m) \<Longrightarrow> distinct (map fst (fold (\<lambda>c. add_to c 1) cs m))"
  by (induction cs arbitrary: m) simp_all

definition purgeable :: "trash_row \<Rightarrow> bool" where
  "purgeable r \<longleftrightarrow> tr_item_type r = ''file'' \<longrightarrow> (\<exists>v. ResolveRequiredContentId (tr_content_id r) (tr_item_data r) = Inr v)"

lemma plan_purge_kept:
  "plan_purge rv items p = Inr q \<Longrightarrow>
   q = fold (\<lambda>r. plan_item r (map fst (released r))) (filter purgeable items) p"
proof (induction rv items p rule: plan_purge.induct)
  case (2 rv item items p)
  consider (isfile) "tr_item_type item = ''file''" | (isfolder) "tr_item_type item = ''folder''"
    using "2.prems" by (auto split: if_splits)
  then show ?case
  proof cases
    case isfile
    show ?thesis
    proof (cases "ResolveRequiredContentId (tr_content_id item) (tr_item_data item)")
      case (Inl e)
      with 2 isfile show ?thesis by (auto simp: purgeable_def split: if_splits)
    next
      case (Inr v)
      obtain c src where "v = (c, src)" by (cases v)
      with 2 isfile Inr show ?thesis by (simp add: purgeable_def released_def)
    qed
  next
    case isfolder
    with "2.prems" obtain cs where cs: "ExtractSnapshotContentIds (tr_item_data item) = Inr cs"
      by (auto split: sum.splits)
    have "cs = map fst (released item)"
      using ExtractSnapshotContentIds_raw [OF cs] isfolder by (simp add: released_def)
    with 2 isfolder cs show ?thesis by (simp add: purgeable_def)
  qed
qed simp

lemma planned:
  fixes p :: purge_plan
  defines "q \<equiv> \<lambda>kept. fold (\<lambda>r. plan_item r (map fst (released r))) kept p"
  shows "pp_trash_ids (q kept) = pp_trash_ids p @ map tr_id kept"
    and "int (value_of (pp_decrements (q kept)) c) = int (value_of (pp_decrements p) c) + total (refs_in_trash c) kept"
    and "value_of (pp_user_delta (q kept)) u = value_of (pp_user_delta p) u - total (trash_bytes_of u) kept"
    and "distinct (map fst (pp_decrements p)) \<Longrightarrow> distinct (map fst (pp_decrements (q kept)))"
    and "distinct (map fst (pp_user_delta p)) \<Longrightarrow> distinct (map fst (pp_user_delta (q kept)))"
  unfolding q_def
  by (induction kept arbitrary: p)
     (simp_all add: plan_item_def value_of_counts distinct_counts refs_in_trash_def trash_bytes_of_def
       del: One_nat_def)

text \<open>The plan of a whole chunk, by what it looks up.\<close>

definition plan_of :: "trash_row list \<Rightarrow> purge_plan" where
  "plan_of kept = fold (\<lambda>r. plan_item r (map fst (released r))) kept empty_plan"

lemma plan_of_facts:
  "pp_trash_ids (plan_of kept) = map tr_id kept"
  "int (delta_of (pp_decrements (plan_of kept)) c) = total (refs_in_trash c) kept"
  "value_of (pp_user_delta (plan_of kept)) u = - total (trash_bytes_of u) kept"
  "distinct (map fst (pp_decrements (plan_of kept)))" "distinct (map fst (pp_user_delta (plan_of kept)))"
  using planned [where p = empty_plan and kept = kept] by (simp_all add: plan_of_def empty_plan_def value_of_def delta_of_value)

section \<open>Releasing references\<close>

lemma CollectContentIds_mem: "distinct (map fst m) \<Longrightarrow> c \<in> set (CollectContentIds m) \<longleftrightarrow> delta_of m c \<noteq> 0"
proof -
  assume d: "distinct (map fst m)"
  have "c \<in> set (CollectContentIds m) \<longleftrightarrow> (\<exists>n. (c, n) \<in> set m \<and> n \<noteq> 0)"
    by (force simp: CollectContentIds_def)
  also have "\<dots> \<longleftrightarrow> delta_of m c \<noteq> 0"
    using d by (auto simp: delta_of_def split: option.splits dest: map_of_SomeD eq_key_imp_eq_value)
  finally show ?thesis .
qed

definition dropped :: "(nat \<times> nat) list \<Rightarrow> content_row list \<Rightarrow> content_row list" where
  "dropped decs cs = update_where (\<lambda>r. fc_id r \<in> set (CollectContentIds decs)) (drop_ref decs) cs"

lemma Decrement_ok:
  assumes "DecrementRefCountsAndEnqueueGc T decs s = (Inr (Inr n), s')" and tx: "in_tx T"
  shows "jobs_grown ((sdb s)\<lparr>file_contents := dropped decs (file_contents (sdb s))\<rparr>) (sdb s')"
proof (cases "CollectContentIds decs = []")
  case True
  then have "dropped decs (file_contents (sdb s)) = file_contents (sdb s)"
    by (simp add: dropped_def update_where_def)
  with True assms show ?thesis
    by (simp add: DecrementRefCountsAndEnqueueGc_def)
next
  case False
  with assms obtain k s1 rs s2 u s3 where
    up: "exec T (count_refs (\<lambda>r. fc_id r \<in> set (CollectContentIds decs))
            (\<lambda>r. fc_ref_count r - to_int32 (int (delta_of decs (fc_id r)))) (drop_ref decs)) s = (Inr k, s1)"
    and sel: "sdb s2 = sdb s1" and gc: "enqueue_gc T rs s2 = (Inr u, s3)" and s': "s' = s3"
    unfolding DecrementRefCountsAndEnqueueGc_def
    by (auto simp: Let_def catchM_def split: prod.splits sum.splits if_splits elim!: bindM_okE dest!: pure_ok)
  from up tx have "sdb s1 = (sdb s)\<lparr>file_contents := dropped decs (file_contents (sdb s))\<rparr>"
    by (auto elim!: exec_okE simp: count_refs_def dropped_def split: if_splits)
  with enqueue_gc_grows [OF gc tx] sel s' show ?thesis by simp
qed

lemma refs_nonneg [simp]: "0 \<le> refs_in_file c f" "0 \<le> refs_in_trash c r"
  by (simp_all add: refs_in_file_def refs_in_trash_def)

lemma fc_id_dropped [simp]: "map fc_id (dropped decs cs) = map fc_id cs" "map content_key (dropped decs cs) = map content_key cs"
  by (simp_all add: dropped_def update_where_def drop_ref_def content_key_def)

lemma dropped_ids [simp]: "fc_id ` set (dropped decs cs) = fc_id ` set cs"
  by (metis fc_id_dropped(1) list.set_map)

lemma contents_inv_dropped:
  assumes inv: "contents_inv cs n fs trs" and keys: "distinct (map fst decs)"
    and less: "\<And>c. total (refs_in_trash c) trs = total (refs_in_trash c) trs' + int (delta_of decs c)"
    and sub: "set trs' \<subseteq> set trs"
  shows "contents_inv (dropped decs cs) n fs trs'"
proof -
  have row: "0 < fc_id x' \<and> fc_id x' \<le> n \<and> integer (fc_ref_count x') \<and> content_ok fs trs' x'" if "x' \<in> set (dropped decs cs)" for x'
  proof -
    from that obtain x where x: "x \<in> set cs"
      and x': "x' = (if delta_of decs (fc_id x) \<noteq> 0 then drop_ref decs x else x)"
      using CollectContentIds_mem [OF keys] by (auto simp: dropped_def mem_update_where)
    let ?n = "int (delta_of decs (fc_id x))"
    have ok: "0 < fc_id x" "fc_id x \<le> n" "integer (fc_ref_count x)"
      using inv x by (simp_all add: contents_inv_def)
    have refs: "fc_ref_count x = total (refs_in_file (fc_id x)) fs + total (refs_in_trash (fc_id x)) trs' + ?n"
      using inv x less [of "fc_id x"] by (simp add: contents_inv_def content_ok_def)
    have nonneg: "0 \<le> total (refs_in_file (fc_id x)) fs" "0 \<le> total (refs_in_trash (fc_id x)) trs'"
      by (simp_all add: total_nonneg)
    have "to_int32 ?n = ?n"
      by (rule to_int32_id) (use ok(3) refs nonneg in \<open>auto simp: integer_def\<close>)
    with x' refs nonneg have "fc_id x' = fc_id x" "fc_ref_count x' = fc_ref_count x - ?n"
      by (auto simp: drop_ref_def)
    with ok refs nonneg show ?thesis
      by (simp add: content_ok_def integer_def)
  qed
  have "\<forall>r \<in> set trs'. \<forall>p \<in> set (released r). fst p \<in> fc_id ` set (dropped decs cs)"
    using inv sub unfolding contents_inv_def dropped_ids by blast
  with row inv show ?thesis
    unfolding contents_inv_def by (simp only: fc_id_dropped dropped_ids) blast
qed

section \<open>Releasing space\<close>

lemma AdjustUsed_release_ok:
  assumes "AdjustUsedStorageChecked T u v s = (Inr (Inr x), s')" and "in_tx T" and "v < 0"
  shows "sdb s' = (sdb s)\<lparr>users := update_where (\<lambda>r. u_id r = u) (\<lambda>r. r\<lparr>u_storage_used := max (u_storage_used r + v) 0\<rparr>) (users (sdb s))\<rparr>"
  using assms
  by (auto simp: AdjustUsedStorageChecked_def user_updated_def split: if_splits dest!: catchDb_okD update_user_ok)

lemma or_throw_okD: "or_throw m s = (Inr v, s') \<Longrightarrow> m s = (Inr (Inr v), s')"
  by (auto simp: or_throw_def retM_def throwM_def elim!: bindM_okE split: sum.splits)

definition freed_user :: "(nat \<times> int) list \<Rightarrow> nat list \<Rightarrow> user_row \<Rightarrow> user_row" where
  "freed_user deltas us r =
     (if u_id r \<in> set us \<and> value_of deltas (u_id r) \<noteq> 0
      then r\<lparr>u_storage_used := max (u_storage_used r + value_of deltas (u_id r)) 0\<rparr> else r)"

lemma release_space_Cons:
  "release_space T deltas (u # us) =
     bindM (if value_of deltas u \<noteq> 0 then or_throw (AdjustUsedStorageChecked T u (value_of deltas u)) else retM ()) (\<lambda>_.
       release_space T deltas us)"
  by (simp add: value_of_def Let_def)

lemma release_space_ok:
  assumes "release_space T deltas us s = (Inr x, s')" and tx: "in_tx T" and "distinct us"
    and neg: "\<And>u. value_of deltas u \<le> 0"
  shows "sdb s' = (sdb s)\<lparr>users := map (freed_user deltas us) (users (sdb s))\<rparr>"
  using assms(1,3)
proof (induction us arbitrary: s)
  case Nil
  then show ?case by (simp add: freed_user_def [abs_def] retM_def)
next
  case (Cons u us)
  let ?v = "value_of deltas u"
  from Cons.prems obtain y s1 where adj: "(if ?v \<noteq> 0 then or_throw (AdjustUsedStorageChecked T u ?v) else retM ()) s = (Inr y, s1)"
    and rest: "release_space T deltas us s1 = (Inr x, s')"
    by (auto simp only: release_space_Cons elim!: bindM_okE)
  let ?g = "\<lambda>r. if u_id r = u \<and> ?v \<noteq> 0 then r\<lparr>u_storage_used := max (u_storage_used r + ?v) 0\<rparr> else r"
  have "sdb s1 = (sdb s)\<lparr>users := map ?g (users (sdb s))\<rparr>"
  proof (cases "?v = 0")
    case True
    with adj show ?thesis by (simp add: retM_def)
  next
    case False
    then have "?v < 0" using neg [of u] by simp
    with adj show ?thesis
      by (simp add: AdjustUsed_release_ok [OF or_throw_okD tx] update_where_def)
  qed
  moreover have "freed_user deltas us (?g r) = freed_user deltas (u # us) r" for r
    using Cons.prems(2) by (auto simp: freed_user_def)
  ultimately show ?case
    using Cons.IH [OF rest] Cons.prems(2) by simp
qed

lemma freed_user_simps [simp]:
  "u_id (freed_user deltas us r) = u_id r" "u_storage_reserved (freed_user deltas us r) = u_storage_reserved r"
  by (simp_all add: freed_user_def)

lemma bytes_nonneg [simp]: "0 \<le> file_bytes_of u f" "0 \<le> trash_bytes_of u r"
  by (simp_all add: file_bytes_of_def trash_bytes_of_def)

lemma accounts_inv_freed:
  assumes inv: "accounts_inv us ts fs trs"
    and less: "\<And>u. total (trash_bytes_of u) trs = total (trash_bytes_of u) trs' - value_of deltas u"
    and keys: "\<And>u. value_of deltas u \<noteq> 0 \<Longrightarrow> u \<in> set ks"
  shows "accounts_inv (map (freed_user deltas ks) us) ts fs trs'"
proof -
  have "account_ok ts fs trs' (freed_user deltas ks x)" if "x \<in> set us" for x
  proof -
    have acc: "account_ok ts fs trs x" using inv that by (simp add: accounts_inv_def)
    have "0 \<le> total (file_bytes_of (u_id x)) fs" "0 \<le> total (trash_bytes_of (u_id x)) trs'"
      by (simp_all add: total_nonneg)
    with acc less [of "u_id x"] have "u_storage_used (freed_user deltas ks x) = u_storage_used x + value_of deltas (u_id x)"
      using keys [of "u_id x"] by (auto simp: freed_user_def account_ok_def)
    with acc less [of "u_id x"] show ?thesis by (simp add: account_ok_def)
  qed
  moreover have "map u_id (map (freed_user deltas ks) us) = map u_id us" by simp
  ultimately show ?thesis
    using inv by (auto simp: accounts_inv_def simp del: map_map)
qed

section \<open>The transaction\<close>

text \<open>
  The rows a caller read before the transaction still describe what is in the table: rows of
  the trash never change, and identifiers are not used again.
\<close>

definition holds_trash :: "trash_row list \<Rightarrow> 'w db \<Rightarrow> bool" where
  "holds_trash items d \<longleftrightarrow>
     (\<forall>r \<in> set items. tr_id r \<le> seq_trash d \<and> (\<forall>x \<in> set (trash d). tr_id x = tr_id r \<longrightarrow> x = r))"

definition purged :: "trash_row list \<Rightarrow> nat list \<Rightarrow> 'w db \<Rightarrow> 'w db" where
  "purged kept ks d =
     d\<lparr>file_contents := dropped (pp_decrements (plan_of kept)) (file_contents d),
       trash := filter (\<lambda>r. tr_id r \<notin> tr_id ` set kept) (trash d),
       users := map (freed_user (pp_user_delta (plan_of kept)) ks) (users d)\<rparr>"

lemma hash_order_facts:
  "hash_order_ok ord \<Longrightarrow> distinct ks \<Longrightarrow> distinct (ord ks) \<and> set (ord ks) = set ks"
  unfolding hash_order_ok_def by (metis mset_eq_imp_distinct_iff mset_eq_setD)

lemma jobs_grown_fields:
  "jobs_grown d d' \<Longrightarrow> users d' = users d \<and> trash d' = trash d \<and> file_contents d' = file_contents d"
  unfolding jobs_grown_def by (elim exE conjE) simp

lemma jobs_grown_update:
  assumes "jobs_grown d d'"
  shows "jobs_grown (d\<lparr>trash := t, users := us\<rparr>) (d'\<lparr>trash := t, users := us\<rparr>)"
proof -
  from assms obtain js n where d': "d' = d\<lparr>storage_jobs := js, seq_jobs := n\<rparr>"
    and g: "jobs_inv (storage_jobs d) (seq_jobs d) \<longrightarrow> jobs_inv js n" "j_dedupe_key ` set (storage_jobs d) \<subseteq> j_dedupe_key ` set js"
    unfolding jobs_grown_def by (elim exE conjE)
  have "d'\<lparr>trash := t, users := us\<rparr> = d\<lparr>trash := t, users := us, storage_jobs := js, seq_jobs := n\<rparr>"
    unfolding d' by simp
  moreover have "jobs_grown (d\<lparr>trash := t, users := us\<rparr>) (d\<lparr>trash := t, users := us, storage_jobs := js, seq_jobs := n\<rparr>)"
    by (rule jobs_grownI) (use g in simp_all)
  ultimately show ?thesis by simp
qed

lemma purge_tx_ok:
  assumes run: "purge_tx ord items rv T s = (Inr (True, v), s')" and tx: "in_tx T"
    and keys: "distinct (map tr_id (trash (sdb s)))" and held: "holds_trash items (sdb s)" and ord: "hash_order_ok ord"
  defines "kept \<equiv> filter purgeable items"
  shows "kept \<noteq> [] \<and> set kept \<subseteq> set (trash (sdb s)) \<and> distinct (map tr_id kept) \<and>
    v = \<lparr>pd_deleted_count = length kept, pd_freed_space = pp_freed (plan_of kept)\<rparr> \<and>
    jobs_grown (purged kept (ord (map fst (pp_user_delta (plan_of kept)))) (sdb s)) (sdb s')"
proof -
  note [simp] = seen_tx [OF tx]
  let ?p = "plan_of kept" and ?d = "sdb s"
  let ?ks = "ord (map fst (pp_user_delta ?p))"
  have plan: "plan_purge rv items empty_plan = Inr q \<Longrightarrow> q = ?p" for q
    using plan_purge_kept [of rv items empty_plan q] by (simp add: plan_of_def kept_def)
  from run obtain s1 n s2 y where ne: "pp_trash_ids ?p \<noteq> []"
    and dec: "pp_decrements ?p = [] \<and> s1 = s \<or>
          pp_decrements ?p \<noteq> [] \<and> or_throw (DecrementRefCountsAndEnqueueGc T (pp_decrements ?p)) s = (Inr y, s1)"
    and del: "exec T (purge_trash_stmt (pp_trash_ids ?p)) s1 = (Inr n, s2)" and n: "n = length (pp_trash_ids ?p)"
    and rel: "release_space T (pp_user_delta ?p) ?ks s2 = (Inr (), s')"
    and v: "v = \<lparr>pd_deleted_count = length (pp_trash_ids ?p), pd_freed_space = pp_freed ?p\<rparr>"
    unfolding purge_tx_def
    by (auto simp: retM_def dest!: plan elim!: bindM_okE split: if_splits)
  have grown: "jobs_grown (?d\<lparr>file_contents := dropped (pp_decrements ?p) (file_contents ?d)\<rparr>) (sdb s1)"
  proof (cases "pp_decrements ?p = []")
    case True
    moreover have "dropped [] (file_contents ?d) = file_contents ?d"
      by (simp add: dropped_def CollectContentIds_def update_where_def)
    ultimately show ?thesis using dec by simp
  next
    case False
    with dec have "or_throw (DecrementRefCountsAndEnqueueGc T (pp_decrements ?p)) s = (Inr y, s1)" by blast
    from Decrement_ok [OF or_throw_okD [OF this] tx] show ?thesis .
  qed
  note same = jobs_grown_fields [OF grown, simplified]
  from del have cnt: "n = affected (\<lambda>r. tr_id r \<in> set (map tr_id kept)) (trash ?d)"
    and s2: "sdb s2 = (sdb s1)\<lparr>trash := filter (\<lambda>r. tr_id r \<notin> tr_id ` set kept) (trash ?d)\<rparr>"
    by (auto simp: purge_trash_stmt_def plan_of_facts same elim!: exec_okE)
  have ids: "distinct (map tr_id kept)" "set (map tr_id kept) \<subseteq> tr_id ` set (trash ?d)"
    using deletes_all [OF keys cnt [symmetric, unfolded n plan_of_facts(1)]] by auto
  have "set kept \<subseteq> set (trash ?d)"
    using ids(2) held by (fastforce simp: holds_trash_def kept_def)
  moreover have "sdb s' = (sdb s2)\<lparr>users := map (freed_user (pp_user_delta ?p) ?ks) (users (sdb s2))\<rparr>"
    by (rule release_space_ok [OF rel tx])
       (use hash_order_facts [OF ord plan_of_facts(5)] in \<open>simp_all add: plan_of_facts total_nonneg\<close>)
  then have "jobs_grown (purged kept ?ks ?d) (sdb s')"
    using jobs_grown_update [OF grown, where t = "filter (\<lambda>r. tr_id r \<notin> tr_id ` set kept) (trash ?d)"
        and us = "map (freed_user (pp_user_delta ?p) ?ks) (users ?d)"] s2 same
    by (simp add: purged_def)
  ultimately show ?thesis
    using ids ne v by (auto simp: plan_of_facts)
qed

lemma db_inv_purged:
  assumes inv: "db_inv d" and sub: "set kept \<subseteq> set (trash d)" and dist: "distinct (map tr_id kept)"
    and ks: "set ks = fst ` set (pp_user_delta (plan_of kept))"
  shows "db_inv (purged kept ks d)"
proof -
  let ?trs = "filter (\<lambda>r. tr_id r \<notin> tr_id ` set kept) (trash d)" and ?p = "plan_of kept"
  have keys: "distinct (map tr_id (trash d))"
    using inv by (simp add: db_inv_def trash_inv_def)
  note taken = total_taken [OF keys sub distinct_of_keys [OF dist]]
  have "contents_inv (dropped (pp_decrements ?p) (file_contents d)) (seq_contents d) (files d) ?trs"
    by (rule contents_inv_dropped)
       (use inv taken in \<open>auto simp: db_inv_def plan_of_facts\<close>)
  moreover have "accounts_inv (map (freed_user (pp_user_delta ?p) ks) (users d)) (upload_tasks d) (files d) ?trs"
    by (rule accounts_inv_freed)
       (use inv taken ks value_of_absent [of _ "pp_user_delta ?p"] in \<open>auto simp: db_inv_def plan_of_facts\<close>)
  moreover have "tasks_inv (map (freed_user (pp_user_delta ?p) ks) (users d)) (upload_tasks d)"
    using inv tasks_inv_users [of "map (freed_user (pp_user_delta ?p) ks) (users d)" "users d"]
    by (simp add: db_inv_def comp_def)
  moreover have "trash_inv ?trs (seq_trash d)"
    using inv by (auto simp: db_inv_def trash_inv_def distinct_map_filter)
  ultimately show ?thesis
    using inv by (simp add: db_inv_def purged_def)
qed

lemma db_inv_jobs_grown: "jobs_grown d d' \<Longrightarrow> db_inv d \<Longrightarrow> db_inv d'"
  unfolding jobs_grown_def db_inv_def cleanup_inv_def by (elim exE conjE) (simp, blast)

lemma purge_tx_inv:
  assumes "purge_tx ord items rv T s = (Inr (True, v), s')" and "in_tx T" and inv: "db_inv (sdb s)"
    and "holds_trash items (sdb s)" and ord: "hash_order_ok ord"
  shows "db_inv (sdb s')"
proof -
  have "distinct (map tr_id (trash (sdb s)))"
    using inv by (simp add: db_inv_def trash_inv_def)
  from purge_tx_ok [OF assms(1,2) this assms(4,5)] show ?thesis
    using db_inv_purged [OF inv] db_inv_jobs_grown hash_order_facts [OF ord plan_of_facts(5)]
    by (metis (no_types, lifting) list.set_map)
qed

end
