(* ===== verification/Trash_Restore.thy ===== *)
theory Trash_Restore
  imports Trash_Purge
begin

text \<open>
  Restoring keeps the invariant: the files that come back reference the contents and account
  for the bytes their trash row stood for.
\<close>

section \<open>Files in exchange for a trash row\<close>

definition restored_rows :: "trash_row \<Rightarrow> file_row list \<Rightarrow> bool" where
  "restored_rows item fs \<longleftrightarrow>
     map (\<lambda>f. (f_content_id f, f_size f)) fs = released item \<and> (\<forall>f \<in> set fs. f_user_id f = tr_user_id item) \<and>
     sum_list (map f_size fs) = tr_item_size item"

lemma refs_of_files: "total (refs_in_file c) fs = int (count_list (map f_content_id fs) c)"
  by (induction fs) (auto simp: refs_in_file_def)

lemma bytes_of_files:
  "\<forall>f \<in> set fs. f_user_id f = v \<Longrightarrow> total (file_bytes_of u) fs = (if u = v then int (sum_list (map f_size fs)) else 0)"
  by (induction fs) (auto simp: file_bytes_of_def)

lemma restored_totals:
  assumes "restored_rows item fs"
  shows "total (refs_in_file c) fs = refs_in_trash c item" and "total (file_bytes_of u) fs = trash_bytes_of u item"
proof -
  from assms have "map f_content_id fs = map fst (released item)"
    by (metis (no_types, lifting) comp_apply fst_conv list.map_comp list.map_cong0 restored_rows_def)
  then show "total (refs_in_file c) fs = refs_in_trash c item"
    by (simp add: refs_of_files refs_in_trash_def)
  show "total (file_bytes_of u) fs = trash_bytes_of u item"
    using assms bytes_of_files [of fs "tr_user_id item" u] by (auto simp: restored_rows_def trash_bytes_of_def)
qed

lemma db_inv_restored:
  assumes inv: "db_inv d" and item: "item \<in> set (trash d)" and rows: "restored_rows item fs"
    and files: "files_inv (files d @ fs) n" and folders: "folders_inv ds m"
  shows "db_inv (d\<lparr>files := files d @ fs, seq_files := n, folders := ds, seq_folders := m,
                   trash := filter (\<lambda>r. tr_id r \<noteq> tr_id item) (trash d)\<rparr>)"
proof -
  let ?trs = "filter (\<lambda>r. tr_id r \<noteq> tr_id item) (trash d)"
  have keys: "distinct (map tr_id (trash d))"
    using inv by (simp add: db_inv_def trash_inv_def)
  have taken: "total w (trash d) = total w ?trs + w item" for w
    using total_taken [OF keys, of "[item]" w] item by simp
  note tot = restored_totals [OF rows]
  have "fst p \<in> fc_id ` set (file_contents d)" if "p \<in> set (released item)" for p
    using inv item that by (auto simp: db_inv_def contents_inv_def)
  then have "f_content_id f \<in> fc_id ` set (file_contents d)" if "f \<in> set fs" for f
    using rows that unfolding restored_rows_def by (metis (mono_tags, lifting) fst_conv image_eqI list.set_map)
  then have "contents_inv (file_contents d) (seq_contents d) (files d @ fs) ?trs"
    using inv tot(1) taken by (auto simp: db_inv_def contents_inv_def content_ok_def)
  moreover have "accounts_inv (users d) (upload_tasks d) (files d @ fs) ?trs"
    using inv tot(2) taken by (simp add: db_inv_def accounts_inv_def account_ok_def)
  moreover have "trash_inv ?trs (seq_trash d)"
    using inv by (auto simp: db_inv_def trash_inv_def distinct_map_filter)
  ultimately show ?thesis
    using inv files folders by (simp add: db_inv_def)
qed

section \<open>The statements\<close>

definition reads_only :: "(nat \<Rightarrow> ('w, unit) M) \<Rightarrow> bool" where
  "reads_only m \<longleftrightarrow> (\<forall>f s v s'. m f s = (Inr v, s') \<longrightarrow> sdb s' = sdb s)"

lemma locate_target_ok:
  assumes "locate_target T name_lock orig uid s = (Inr (target, loc), s')" and tx: "in_tx T"
    and "reads_only name_lock"
  shows "sdb s' = sdb s \<and>
    (target = 0 \<and> loc = \<lparr>loc_path = ''/'', loc_depth = 0\<rparr> \<or>
     target = orig \<and> (\<exists>r \<in> set (folders (sdb s)). owned_folder target uid r \<and> loc = \<lparr>loc_path = d_path r, loc_depth = d_depth r\<rparr>)) \<and>
    (orig = 0 \<or> \<not> (\<exists>r \<in> set (folders (sdb s)). owned_folder orig uid r) \<longrightarrow> target = 0) \<and>
    ((\<exists>r \<in> set (folders (sdb s)). owned_folder orig uid r) \<and> orig > 0 \<longrightarrow> target = orig)"
proof (cases "find_row (owned_folder orig uid) (folders (sdb s))")
  note lock = assms(3) [unfolded reads_only_def, rule_format]
  case None
  then have "\<not> (\<exists>r \<in> set (folders (sdb s)). owned_folder orig uid r)" by (simp add: find_row_None)
  with None assms(1,2) show ?thesis
    by (auto simp: locate_target_def FindOwnedFolder_def FindOwnedFolderForUpdate_def retM_def elim!: bindM_okE
        dest!: pure_ok lock split: if_splits option.splits)
next
  note lock = assms(3) [unfolded reads_only_def, rule_format]
  case (Some r)
  then have r: "r \<in> set (folders (sdb s))" "owned_folder orig uid r" using find_row_Some by fastforce+
  have "sdb s' = sdb s \<and> (if orig > 0 then target = orig \<and> loc = \<lparr>loc_path = d_path r, loc_depth = d_depth r\<rparr>
          else target = 0 \<and> loc = \<lparr>loc_path = ''/'', loc_depth = 0\<rparr>)"
    using Some assms(1,2)
    by (auto simp: locate_target_def FindOwnedFolder_def FindOwnedFolderForUpdate_def retM_def elim!: bindM_okE
        dest!: pure_ok lock split: if_splits option.splits)
  with r show ?thesis by (cases "orig > 0") (simp_all, blast)
qed

lemma name_locks_ok:
  "in_tx T \<Longrightarrow> reads_only (\<lambda>f. File_AcquireNameLock T uid f n)"
  "in_tx T \<Longrightarrow> reads_only (\<lambda>f. Folder_AcquireNameLock T uid f n)"
  by (auto simp: reads_only_def File_AcquireNameLock_def Folder_AcquireNameLock_def dest!: pure_ok)

lemma insert_file_ok:
  assumes "exec T (insert_file_stmt f) s = (Inr g, s')" and "in_tx T"
  shows "g = f\<lparr>f_id := Suc (seq_files (sdb s)), f_created_at := now (sdb s)\<rparr> \<and>
    sdb s' = (sdb s)\<lparr>files := files (sdb s) @ [g], seq_files := Suc (seq_files (sdb s))\<rparr> \<and>
    (\<forall>x \<in> set (files (sdb s)). file_key x \<noteq> file_key g)"
  using assms
  by (auto simp: insert_file_stmt_def Let_def list_ex_iff named_file_def file_key_def elim!: exec_okE split: if_splits)

lemma insert_folder_ok:
  assumes "exec T (insert_folder_stmt r) s = (Inr q, s')" and "in_tx T"
  shows "q = r\<lparr>d_id := Suc (seq_folders (sdb s))\<rparr> \<and>
    sdb s' = (sdb s)\<lparr>folders := folders (sdb s) @ [q], seq_folders := Suc (seq_folders (sdb s))\<rparr>"
  using assms by (auto simp: insert_folder_stmt_def Let_def elim!: exec_okE split: if_splits)

lemma folders_inv_insert:
  "folders_inv ds n \<Longrightarrow> d_id r = Suc n \<Longrightarrow> d_name r \<noteq> [] \<Longrightarrow> folders_inv (ds @ [r]) (Suc n)"
  by (force simp: folders_inv_def)

lemma leave_trash_ok:
  assumes "leave_trash T failed target item uid ty v s = (Inr (Inr x), s')" and tx: "in_tx T"
  shows "x = v \<and> (\<exists>ds. map folder_ident ds = map folder_ident (folders (sdb s)) \<and>
    sdb s' = (sdb s)\<lparr>folders := ds, trash := filter (\<lambda>r. \<not> (owned_trash (tr_id item) uid r \<and> tr_item_type r = ty)) (trash (sdb s))\<rparr>)"
proof -
  from assms(1) obtain b s1 where
    cnt: "(if target > 0 then ApplyItemCountDelta T target uid 1 else retM True) s = (Inr b, s1)"
    and rest: "(if \<not> b then failR failed else bindM (exec T (delete_trash_stmt (tr_id item) uid ty)) (\<lambda>n.
                 if n \<noteq> 1 then failR failed else okR v)) s1 = (Inr (Inr x), s')"
    unfolding leave_trash_def by (rule bindM_okE)
  from rest obtain n s2 where
    del: "exec T (delete_trash_stmt (tr_id item) uid ty) s1 = (Inr n, s2)" and eq: "s' = s2" "x = v"
    by (auto elim!: bindM_okE split: if_splits)
  from cnt obtain ds where "sdb s1 = (sdb s)\<lparr>folders := ds\<rparr>" "map folder_ident ds = map folder_ident (folders (sdb s))"
    using tx by (auto simp: retM_def dest!: ApplyItemCountDelta_ok intro: that [of "folders (sdb s)"] that split: if_splits)
  moreover from del tx have "sdb s2 = (sdb s1)\<lparr>trash := filter (\<lambda>r. \<not> (owned_trash (tr_id item) uid r \<and> tr_item_type r = ty)) (trash (sdb s1))\<rparr>"
    by (auto simp: delete_trash_stmt_def Let_def elim!: exec_okE)
  ultimately show ?thesis
    using eq by auto
qed

text \<open>The row a restore has locked is the only one it deletes.\<close>

lemma only_this_row:
  assumes "distinct (map tr_id trs)" and "item \<in> set trs" and "owned_trash i uid item" and "tr_item_type item = ty"
  shows "filter (\<lambda>r. \<not> (owned_trash (tr_id item) uid r \<and> tr_item_type r = ty)) trs = filter (\<lambda>r. tr_id r \<noteq> tr_id item) trs"
  by (rule filter_cong) (use assms in \<open>auto simp: owned_trash_def distinct_map dest: inj_onD\<close>)

section \<open>Restoring a file\<close>

definition restored_file :: "trash_row \<Rightarrow> nat \<Rightarrow> nat \<Rightarrow> string \<Rightarrow> string \<Rightarrow> string \<Rightarrow> 'w db \<Rightarrow> file_row" where
  "restored_file item content_id target name path mime_type d =
     \<lparr>f_id = Suc (seq_files d), f_user_id = tr_user_id item, f_content_id = content_id, f_folder_id = target,
      f_name = name, f_extension = ExtractExtension name, f_size = tr_item_size item, f_mime_type = mime_type,
      f_path = path, f_is_favorite = False, f_download_count = 0, f_created_at = now d\<rparr>"

lemma restore_file_tx_ok:
  assumes run: "restore_file_tx i uid k T s = (Inr (Inr (fid, path)), s')" and tx: "in_tx T"
    and keys: "distinct (map tr_id (trash (sdb s)))"
  obtains item c src target mime ds f and loc :: FolderLocation where
    "item \<in> set (trash (sdb s))" "owned_trash i uid item" "tr_item_type item = ''file''"
    "ResolveRequiredContentId (tr_content_id item) (tr_item_data item) = Inr (c, src)"
    "restored_mime (tr_item_data item) = Inr mime"
    "(\<exists>r \<in> set (folders (sdb s)). owned_folder (tr_original_folder_id item) uid r) \<longrightarrow> target = tr_original_folder_id item"
    "target = 0 \<and> loc_path loc = ''/'' \<or> target = tr_original_folder_id item \<and>
       (\<exists>r \<in> set (folders (sdb s)). owned_folder target uid r \<and> loc_path loc = d_path r)"
    "f = restored_file item c target (candidate_filename (tr_item_name item) k)
          (loc_path loc @ candidate_filename (tr_item_name item) k) mime (sdb s)"
    "fid = f_id f" "path = f_path f" "\<forall>x \<in> set (files (sdb s)). file_key x \<noteq> file_key f"
    "map folder_ident ds = map folder_ident (folders (sdb s))"
    "sdb s' = (sdb s)\<lparr>files := files (sdb s) @ [f], seq_files := Suc (seq_files (sdb s)), folders := ds,
                      trash := filter (\<lambda>r. tr_id r \<noteq> tr_id item) (trash (sdb s))\<rparr>"
proof -
  note [simp] = seen_tx [OF tx]
  let ?d = "sdb s"
  from run obtain item c src target loc s1 s2 taken s3 mime g s4 where
    item: "find_row (owned_trash i uid) (trash ?d) = Some item" "tr_item_type item = ''file''"
    and res: "ResolveRequiredContentId (tr_content_id item) (tr_item_data item) = Inr (c, src)"
    and s1: "sdb s1 = ?d"
    and loc: "locate_target T (\<lambda>folder. File_AcquireNameLock T uid folder (candidate_filename (tr_item_name item) k))
                (tr_original_folder_id item) uid s1 = (Inr (target, loc), s2)"
    and s3: "sdb s3 = sdb s2" and mime: "restored_mime (tr_item_data item) = Inr mime"
    and ins: "exec T (insert_file_stmt
                       \<lparr>f_id = 0, f_user_id = uid, f_content_id = c, f_folder_id = target,
                        f_name = candidate_filename (tr_item_name item) k,
                        f_extension = ExtractExtension (candidate_filename (tr_item_name item) k),
                        f_size = tr_item_size item, f_mime_type = mime,
                        f_path = loc_path loc @ candidate_filename (tr_item_name item) k, f_is_favorite = False,
                        f_download_count = 0, f_created_at = 0\<rparr>) s3 = (Inr g, s4)"
    and out: "leave_trash T (ErrorInfo2 InternalError ''Failed to restore file'') target item uid ''file''
               (f_id g, loc_path loc @ candidate_filename (tr_item_name item) k) s4 = (Inr (Inr (fid, path)), s')"
    unfolding restore_file_tx_def FetchLifecycleRowForUpdate_def File_NameExistsExcluding_def
    by (auto simp: Let_def elim!: bindM_okE dest!: pure_ok split: option.splits if_splits sum.splits)
  have mem: "item \<in> set (trash ?d)" "owned_trash i uid item"
    using find_row_Some [OF item(1)] by auto
  note l = locate_target_ok [OF loc tx name_locks_ok(1) [OF tx]]
  have s3d: "sdb s3 = ?d" using l s1 s3 by simp
  note g = insert_file_ok [OF ins tx, unfolded s3d]
  from leave_trash_ok [OF out tx] obtain ds where fp: "fid = f_id g" "path = loc_path loc @ candidate_filename (tr_item_name item) k"
    and ds: "map folder_ident ds = map folder_ident (folders (sdb s4))"
    and s': "sdb s' = (sdb s4)\<lparr>folders := ds, trash := filter (\<lambda>r. \<not> (owned_trash (tr_id item) uid r \<and> tr_item_type r = ''file'')) (trash (sdb s4))\<rparr>"
    by auto
  have "g = restored_file item c target (candidate_filename (tr_item_name item) k)
          (loc_path loc @ candidate_filename (tr_item_name item) k) mime ?d"
    using g mem(2) by (simp add: restored_file_def owned_trash_def)
  moreover have "sdb s' = ?d\<lparr>files := files ?d @ [g], seq_files := Suc (seq_files ?d), folders := ds,
                      trash := filter (\<lambda>r. tr_id r \<noteq> tr_id item) (trash ?d)\<rparr>"
    using s' g only_this_row [OF keys mem item(2)] by simp
  moreover have "path = f_path g" using g fp by simp
  moreover have "\<forall>x \<in> set (files ?d). file_key x \<noteq> file_key g" "map folder_ident ds = map folder_ident (folders ?d)"
    using g ds by (blast, simp)
  moreover have "target = 0 \<and> loc_path loc = ''/'' \<or> target = tr_original_folder_id item \<and>
       (\<exists>r \<in> set (folders ?d). owned_folder target uid r \<and> loc_path loc = d_path r)"
    using l s1 by auto
  moreover have "(\<exists>r \<in> set (folders ?d). owned_folder (tr_original_folder_id item) uid r) \<longrightarrow> target = tr_original_folder_id item"
    using l s1 by (cases "tr_original_folder_id item = 0") auto
  ultimately show ?thesis
    using mem item(2) res mime fp(1) by (intro that [of item c src mime target loc g ds])
qed

lemma candidate_filename_nonempty: "name \<noteq> [] \<Longrightarrow> candidate_filename name k \<noteq> []"
  by (simp add: candidate_filename_def)

lemma restore_file_tx_inv:
  assumes run: "restore_file_tx i uid k T s = (Inr (Inr v), s')" and tx: "in_tx T" and inv: "db_inv (sdb s)"
  shows "db_inv (sdb s')"
proof -
  let ?d = "sdb s"
  have keys: "distinct (map tr_id (trash ?d))"
    using inv by (simp add: db_inv_def trash_inv_def)
  obtain fid path where v: "v = (fid, path)" by (cases v)
  from restore_file_tx_ok [OF run [unfolded v] tx keys] obtain item c src target mime ds f and loc :: FolderLocation where
    item: "item \<in> set (trash ?d)" "tr_item_type item = ''file''"
    and res: "ResolveRequiredContentId (tr_content_id item) (tr_item_data item) = Inr (c, src)"
    and f: "f = restored_file item c target (candidate_filename (tr_item_name item) k)
          (loc_path loc @ candidate_filename (tr_item_name item) k) mime ?d"
    and fresh: "\<forall>x \<in> set (files ?d). file_key x \<noteq> file_key f"
    and ds: "map folder_ident ds = map folder_ident (folders ?d)"
    and s': "sdb s' = ?d\<lparr>files := files ?d @ [f], seq_files := Suc (seq_files ?d), folders := ds,
                      trash := filter (\<lambda>r. tr_id r \<noteq> tr_id item) (trash ?d)\<rparr>"
    by metis
  have name: "tr_item_name item \<noteq> []"
    using inv item(1) by (auto simp: db_inv_def trash_inv_def trash_ok_def)
  have "restored_rows item [f]"
    using f res item(2) by (simp add: restored_rows_def released_def restored_file_def)
  moreover have "files_inv (files ?d @ [f]) (Suc (seq_files ?d))"
    using inv f fresh candidate_filename_nonempty [OF name]
    by (intro files_inv_insert) (simp_all add: db_inv_def restored_file_def)
  moreover have "folders_inv ds (seq_folders ?d)"
    using inv folders_inv_cong [OF ds] by (simp add: db_inv_def)
  ultimately show ?thesis
    using db_inv_restored [OF inv item(1), of "[f]" "Suc (seq_files ?d)" ds "seq_folders ?d"] s' by simp
qed

section \<open>Restoring a folder\<close>

lemma restore_pass_ok:
  "restore_pass T uid rd fd xs m s = (Inr (m', rest), s') \<Longrightarrow> in_tx T \<Longrightarrow>
   folders_inv (folders (sdb s)) (seq_folders (sdb s)) \<Longrightarrow> \<forall>x \<in> set xs. sf_name x \<noteq> [] \<Longrightarrow>
   \<exists>ds n. sdb s' = (sdb s)\<lparr>folders := ds, seq_folders := n\<rparr> \<and> folders_inv ds n \<and> set rest \<subseteq> set xs \<and>
     length rest \<le> length xs"
proof (induction xs arbitrary: m s m' rest)
  case Nil
  then show ?case
    by (intro exI [of _ "folders (sdb s)"] exI [of _ "seq_folders (sdb s)"]) (auto simp: retM_def)
next
  case (Cons x xs)
  show ?case
  proof (cases "map_of m (sf_parent_id x)")
    case None
    with Cons.prems(1) obtain rest' where "restore_pass T uid rd fd xs m s = (Inr (m', rest'), s')" "rest = x # rest'"
      by (auto elim!: bindM_okE simp: retM_def)
    with Cons.IH [of m s m' rest'] Cons.prems(2-) show ?thesis by auto
  next
    case (Some pp)
    obtain pid ppath where pp: "pp = (pid, ppath)" by (cases pp)
    with Some Cons.prems(1) obtain r q s1 m1 where ins: "exec T (insert_folder_stmt r) s = (Inr q, s1)" and "d_name r = sf_name x"
      and rest: "restore_pass T uid rd fd xs m1 s1 = (Inr (m', rest), s')"
      by (fastforce elim!: bindM_okE simp: Let_def)
    then have "folders_inv (folders (sdb s1)) (seq_folders (sdb s1))"
      and s1: "sdb s1 = (sdb s)\<lparr>folders := folders (sdb s) @ [q], seq_folders := Suc (seq_folders (sdb s))\<rparr>"
      using insert_folder_ok [OF ins Cons.prems(2)] Cons.prems(3,4) by (simp_all add: folders_inv_insert)
    from Cons.IH [OF rest Cons.prems(2) this(1)] Cons.prems(4) obtain ds n where
      "sdb s' = (sdb s1)\<lparr>folders := ds, seq_folders := n\<rparr>" "folders_inv ds n" "set rest \<subseteq> set xs" "length rest \<le> length xs"
      by auto
    then show ?thesis
      by (intro exI [of _ ds] exI [of _ n]) (auto simp: s1)
  qed
qed

text \<open>The rounds never run out: each of them leaves fewer folders.\<close>

lemma restore_pass_shrinks:
  "restore_pass T uid rd fd xs m s = (Inr (m', rest), s') \<Longrightarrow> length rest \<le> length xs"
proof (induction xs arbitrary: m s m' rest)
  case (Cons x xs)
  then show ?case
    by (force simp: Let_def retM_def elim!: bindM_okE split: option.splits)
qed (simp add: retM_def)

lemma restore_rounds_enough:
  "length xs \<le> n \<Longrightarrow> restore_rounds (n + k) T uid rd fd xs m = restore_rounds n T uid rd fd xs m"
proof (induction n arbitrary: xs m)
  case (Suc n)
  show ?case
  proof (cases "xs = []")
    case False
    have "(\<lambda>(m', rest). if length rest = length xs then failR (ErrorInfo2 InternalError ''Failed to restore folder'')
             else restore_rounds (n + k) T uid rd fd rest m') (m', rest) s' =
          (\<lambda>(m', rest). if length rest = length xs then failR (ErrorInfo2 InternalError ''Failed to restore folder'')
             else restore_rounds n T uid rd fd rest m') (m', rest) s'"
      if "restore_pass T uid rd fd xs m s = (Inr (m', rest), s')" for s m' rest s'
      using restore_pass_shrinks [OF that] Suc by auto
    then have "bindM (restore_pass T uid rd fd xs m) (\<lambda>(m', rest).
            if length rest = length xs then failR (ErrorInfo2 InternalError ''Failed to restore folder'')
            else restore_rounds (n + k) T uid rd fd rest m') =
          bindM (restore_pass T uid rd fd xs m) (\<lambda>(m', rest).
            if length rest = length xs then failR (ErrorInfo2 InternalError ''Failed to restore folder'')
            else restore_rounds n T uid rd fd rest m')"
      by (intro ext) (auto simp: bindM_def split: prod.splits sum.splits)
    with False show ?thesis by (subst (1 2) restore_rounds.simps) simp
  qed simp
qed simp

lemma restore_rounds_ok:
  "restore_rounds n T uid rd fd xs m s = (Inr (Inr m'), s') \<Longrightarrow> in_tx T \<Longrightarrow>
   folders_inv (folders (sdb s)) (seq_folders (sdb s)) \<Longrightarrow> \<forall>x \<in> set xs. sf_name x \<noteq> [] \<Longrightarrow>
   \<exists>ds n. sdb s' = (sdb s)\<lparr>folders := ds, seq_folders := n\<rparr> \<and> folders_inv ds n"
proof (induction n arbitrary: xs m s)
  case 0
  then show ?case
    by (intro exI [of _ "folders (sdb s)"] exI [of _ "seq_folders (sdb s)"]) (auto simp: throwM_def split: if_splits)
next
  case (Suc n)
  show ?case
  proof (cases "xs = []")
    case True
    with Suc.prems show ?thesis
      by (intro exI [of _ "folders (sdb s)"] exI [of _ "seq_folders (sdb s)"]) auto
  next
    case False
    with Suc.prems(1) obtain m1 rest s1 where pass: "restore_pass T uid rd fd xs m s = (Inr (m1, rest), s1)"
      and next_round: "restore_rounds n T uid rd fd rest m1 s1 = (Inr (Inr m'), s')"
      by (subst (asm) restore_rounds.simps) (auto elim!: bindM_okE split: if_splits)
    from restore_pass_ok [OF pass Suc.prems(2-)] obtain ds k where
      s1: "sdb s1 = (sdb s)\<lparr>folders := ds, seq_folders := k\<rparr>" "folders_inv ds k" "set rest \<subseteq> set xs" by blast
    with Suc.IH [OF next_round Suc.prems(2)] Suc.prems(4) show ?thesis by auto
  qed
qed

lemma restore_files_ok:
  "restore_files T uid m xs s = (Inr (Inr u), s') \<Longrightarrow> in_tx T \<Longrightarrow> files_inv (files (sdb s)) (seq_files (sdb s)) \<Longrightarrow>
   \<forall>x \<in> set xs. sx_name x \<noteq> [] \<Longrightarrow>
   \<exists>fs n. sdb s' = (sdb s)\<lparr>files := files (sdb s) @ fs, seq_files := n\<rparr> \<and> files_inv (files (sdb s) @ fs) n \<and>
     map (\<lambda>f. (f_content_id f, f_size f)) fs = map (\<lambda>x. (sx_content_id x, sx_size x)) xs \<and>
     (\<forall>f \<in> set fs. f_user_id f = uid)"
proof (induction xs arbitrary: s)
  case Nil
  then show ?case
    by (intro exI [of _ "[]"] exI [of _ "seq_files (sdb s)"]) auto
next
  case (Cons x xs)
  then obtain pp where pp: "map_of m (sx_folder_id x) = Some pp"
    by (cases "map_of m (sx_folder_id x)") auto
  obtain fid path where "pp = (fid, path)" by (cases pp)
  with pp Cons.prems(1) obtain f g s1 where ins: "exec T (insert_file_stmt f) s = (Inr g, s1)"
    and f: "f_name f = sx_name x" "f_content_id f = sx_content_id x" "f_size f = sx_size x" "f_user_id f = uid"
    and rest: "restore_files T uid m xs s1 = (Inr (Inr u), s')"
    by (fastforce elim!: bindM_okE)
  note g = insert_file_ok [OF ins Cons.prems(2)]
  have inv1: "files_inv (files (sdb s1)) (seq_files (sdb s1))"
  proof -
    have "files_inv (files (sdb s) @ [g]) (Suc (seq_files (sdb s)))"
      by (rule files_inv_insert) (use g f Cons.prems(3,4) in auto)
    then show ?thesis using g by simp
  qed
  from Cons.IH [OF rest Cons.prems(2) inv1] Cons.prems(4) obtain fs n where
    IH: "sdb s' = (sdb s1)\<lparr>files := files (sdb s1) @ fs, seq_files := n\<rparr>" "files_inv (files (sdb s1) @ fs) n"
      "map (\<lambda>f. (f_content_id f, f_size f)) fs = map (\<lambda>x. (sx_content_id x, sx_size x)) xs" "\<forall>f \<in> set fs. f_user_id f = uid"
    by auto
  show ?case
    by (intro exI [of _ "g # fs"] exI [of _ n]) (use IH g f in auto)
qed

lemma read_folders_named: "read_folders js = Inr vs \<Longrightarrow> \<forall>v \<in> set vs. sf_name v \<noteq> []"
  by (induction js arbitrary: vs) (auto simp: bindE_ok_iff split: if_splits)

lemma read_files_named: "read_files js = Inr vs \<Longrightarrow> \<forall>v \<in> set vs. sx_name v \<noteq> []"
  by (induction js arbitrary: vs) (auto simp: bindE_ok_iff kept_file_def split: if_splits)

text \<open>What a parsed snapshot holds: named entries, and the references of the row.\<close>

lemma ParseFolderTreeSnapshot_ok:
  assumes "ParseFolderTreeSnapshot data = Inr snap"
  shows "(case snap of None \<Rightarrow> [] | Some t \<Rightarrow> map (\<lambda>x. (sx_content_id x, sx_size x)) (sn_files t)) =
      (case data of None \<Rightarrow> [] | Some j \<Rightarrow> raw_tree j)"
    and "snap = Some t \<Longrightarrow> (\<forall>x \<in> set (sn_folders t). sf_name x \<noteq> []) \<and> (\<forall>x \<in> set (sn_files t). sx_name x \<noteq> [])"
proof -
  show "(case snap of None \<Rightarrow> [] | Some t \<Rightarrow> map (\<lambda>x. (sx_content_id x, sx_size x)) (sn_files t)) =
      (case data of None \<Rightarrow> [] | Some j \<Rightarrow> raw_tree j)"
  proof (cases data)
    case (Some j)
    with assms obtain ty where ty: "get_string j ''type'' [] = Inr ty"
      and t: "(if ty \<noteq> ''folder_tree'' then Inr None else read_tree j) = Inr snap"
      by (auto simp: ParseFolderTreeSnapshot_def bindE_ok_iff)
    show ?thesis
      using t ty read_tree_raw [of j snap] Some by (cases "ty = ''folder_tree''") (auto simp: raw_tree_def)
  qed (use assms in \<open>simp add: ParseFolderTreeSnapshot_def\<close>)
  assume "snap = Some t"
  with assms obtain j where "read_tree j = Inr (Some t)"
    by (auto simp: ParseFolderTreeSnapshot_def bindE_ok_iff split: option.splits if_splits)
  then show "(\<forall>x \<in> set (sn_folders t). sf_name x \<noteq> []) \<and> (\<forall>x \<in> set (sn_files t). sx_name x \<noteq> [])"
    by (auto simp: read_tree_def bindE_ok_iff simp del: member.simps split: if_splits
        dest!: read_folders_named read_files_named)
qed

lemma restore_tree_ok:
  assumes run: "restore_tree T uid snap rid path fd s = (Inr (Inr u), s')" and tx: "in_tx T"
    and folders: "folders_inv (folders (sdb s)) (seq_folders (sdb s))"
    and files: "files_inv (files (sdb s)) (seq_files (sdb s))"
    and snap: "ParseFolderTreeSnapshot data = Inr snap"
  shows "\<exists>ds n fs m. sdb s' = (sdb s)\<lparr>folders := ds, seq_folders := n, files := files (sdb s) @ fs, seq_files := m\<rparr> \<and>
    folders_inv ds n \<and> files_inv (files (sdb s) @ fs) m \<and>
    map (\<lambda>f. (f_content_id f, f_size f)) fs = (case data of None \<Rightarrow> [] | Some j \<Rightarrow> raw_tree j) \<and>
    (\<forall>f \<in> set fs. f_user_id f = uid)"
proof (cases snap)
  case None
  then show ?thesis
    using run folders files ParseFolderTreeSnapshot_ok(1) [OF snap]
    by (intro exI [of _ "folders (sdb s)"] exI [of _ "seq_folders (sdb s)"] exI [of _ "[]"] exI [of _ "seq_files (sdb s)"])
       (simp add: restore_tree_def)
next
  case (Some t)
  note named = ParseFolderTreeSnapshot_ok(2) [OF snap Some]
  from Some run obtain m s1 where rounds: "restore_rounds (length (sn_folders t)) T uid (sf_depth (sn_root t)) fd (sn_folders t)
      [(sf_id (sn_root t), rid, path)] s = (Inr (Inr m), s1)"
    and fil: "restore_files T uid m (sn_files t) s1 = (Inr (Inr u), s')"
    by (auto simp: restore_tree_def simp del: restore_rounds.simps elim!: bindR_okE)
  from restore_rounds_ok [OF rounds tx folders] named obtain ds n where
    s1: "sdb s1 = (sdb s)\<lparr>folders := ds, seq_folders := n\<rparr>" "folders_inv ds n" by blast
  from restore_files_ok [OF fil tx] named files s1 obtain fs k where
    "sdb s' = (sdb s1)\<lparr>files := files (sdb s) @ fs, seq_files := k\<rparr>" "files_inv (files (sdb s) @ fs) k"
    "map (\<lambda>f. (f_content_id f, f_size f)) fs = map (\<lambda>x. (sx_content_id x, sx_size x)) (sn_files t)"
    "\<forall>f \<in> set fs. f_user_id f = uid" by auto
  then show ?thesis
    using s1 ParseFolderTreeSnapshot_ok(1) [OF snap] Some
    by (intro exI [of _ ds] exI [of _ n] exI [of _ fs] exI [of _ k]) simp
qed

lemma sum_sizes: "map (\<lambda>f. (f_content_id f, f_size f)) fs = ps \<Longrightarrow> sum_list (map f_size fs) = sum_list (map snd ps)"
  by (auto simp: comp_def)

text \<open>The steps of a successful restore: locate the target, create the folder and its tree, leave the trash.\<close>

lemma restore_folder_tx_steps:
  assumes run: "restore_folder_tx i uid k T s = (Inr (Inr v), s')" and tx: "in_tx T"
  obtains item snap target loc s3 r q s4 u s5 path fd where
    "find_row (owned_trash i uid) (trash (sdb s)) = Some item" "tr_item_type item = ''folder''"
    "ParseFolderTreeSnapshot (tr_item_data item) = Inr snap" "sdb s3 = sdb s"
    "target = 0 \<or> (\<exists>r \<in> set (folders (sdb s)). owned_folder target uid r \<and> loc = \<lparr>loc_path = d_path r, loc_depth = d_depth r\<rparr>)"
    "exec T (insert_folder_stmt r) s3 = (Inr q, s4)"
    "d_name r = candidate_folder_name (tr_item_name item) k" "d_parent_id r = target"
    "restore_tree T uid snap (d_id q) path fd s4 = (Inr (Inr u), s5)"
    "leave_trash T (ErrorInfo2 InternalError ''Failed to restore folder'') target item uid ''folder''
       (d_id q, path) s5 = (Inr (Inr v), s')"
proof -
  note [simp] = seen_tx [OF tx]
  let ?d = "sdb s"
  from run obtain item snap s1 target loc s2 s3 r q s4 u s5 path fd where
    item: "find_row (owned_trash i uid) (trash ?d) = Some item" "tr_item_type item = ''folder''"
    and snap: "ParseFolderTreeSnapshot (tr_item_data item) = Inr snap"
    and s1: "sdb s1 = ?d"
    and loc: "locate_target T (\<lambda>parent. Folder_AcquireNameLock T uid parent (candidate_folder_name (tr_item_name item) k))
                (tr_original_folder_id item) uid s1 = (Inr (target, loc), s2)"
    and s3: "sdb s3 = sdb s2"
    and ins: "exec T (insert_folder_stmt r) s3 = (Inr q, s4)" and r: "d_name r = candidate_folder_name (tr_item_name item) k"
      "d_parent_id r = target"
    and tree: "restore_tree T uid snap (d_id q) path fd s4 = (Inr (Inr u), s5)"
    and out: "leave_trash T (ErrorInfo2 InternalError ''Failed to restore folder'') target item uid ''folder''
               (d_id q, path) s5 = (Inr (Inr v), s')"
    unfolding restore_folder_tx_def FetchLifecycleRowForUpdate_def Folder_NameExistsExcluding_def
    by (fastforce simp: Let_def elim!: bindM_okE bindR_okE dest!: pure_ok split: option.splits if_splits)
  note target = locate_target_ok [OF loc tx name_locks_ok(2) [OF tx]]
  have "sdb s3 = ?d" using target s1 s3 by simp
  moreover have "target = 0 \<or> (\<exists>r \<in> set (folders ?d). owned_folder target uid r \<and> loc = \<lparr>loc_path = d_path r, loc_depth = d_depth r\<rparr>)"
    using target s1 by auto
  ultimately show thesis using item snap ins r tree out that by blast
qed

lemma restore_folder_tx_ok:
  assumes run: "restore_folder_tx i uid k T s = (Inr (Inr v), s')" and tx: "in_tx T" and inv: "db_inv (sdb s)"
  obtains item fs n ds m where "item \<in> set (trash (sdb s))" "owned_trash i uid item" "tr_item_type item = ''folder''"
    "restored_rows item fs" "files_inv (files (sdb s) @ fs) n" "folders_inv ds m"
    "sdb s' = (sdb s)\<lparr>files := files (sdb s) @ fs, seq_files := n, folders := ds, seq_folders := m,
                      trash := filter (\<lambda>r. tr_id r \<noteq> tr_id item) (trash (sdb s))\<rparr>"
proof -
  note [simp] = seen_tx [OF tx]
  let ?d = "sdb s"
  obtain item snap target loc s3 r q s4 u s5 path fd where
    item: "find_row (owned_trash i uid) (trash ?d) = Some item" "tr_item_type item = ''folder''"
    and snap: "ParseFolderTreeSnapshot (tr_item_data item) = Inr snap" and s3d: "sdb s3 = ?d"
    and ins: "exec T (insert_folder_stmt r) s3 = (Inr q, s4)" and r: "d_name r = candidate_folder_name (tr_item_name item) k"
    and tree: "restore_tree T uid snap (d_id q) path fd s4 = (Inr (Inr u), s5)"
    and out: "leave_trash T (ErrorInfo2 InternalError ''Failed to restore folder'') target item uid ''folder''
               (d_id q, path) s5 = (Inr (Inr v), s')"
    by (rule restore_folder_tx_steps [OF run tx])
  have mem: "item \<in> set (trash ?d)" "owned_trash i uid item"
    using find_row_Some [OF item(1)] by auto
  have ok: "trash_ok item" and keys: "distinct (map tr_id (trash ?d))"
    using inv mem(1) by (auto simp: db_inv_def trash_inv_def)
  have name: "d_name q \<noteq> []"
    using insert_folder_ok [OF ins tx] r ok by (auto simp: candidate_folder_name_def trash_ok_def)
  have s4: "sdb s4 = ?d\<lparr>folders := folders ?d @ [q], seq_folders := Suc (seq_folders ?d)\<rparr>"
    "folders_inv (folders (sdb s4)) (seq_folders (sdb s4))" "files_inv (files (sdb s4)) (seq_files (sdb s4))"
    using insert_folder_ok [OF ins tx] s3d inv name by (auto simp: db_inv_def intro: folders_inv_insert)
  from restore_tree_ok [OF tree tx s4(2,3) snap] obtain ds m fs n where
    s5: "sdb s5 = ?d\<lparr>folders := ds, seq_folders := m, files := files ?d @ fs, seq_files := n\<rparr>"
    and invs: "folders_inv ds m" "files_inv (files ?d @ fs) n"
    and refs: "map (\<lambda>f. (f_content_id f, f_size f)) fs = released item" and users: "\<forall>f \<in> set fs. f_user_id f = uid"
    using s4(1) item(2) by (auto simp: released_def)
  from leave_trash_ok [OF out tx] obtain ds' where ds': "map folder_ident ds' = map folder_ident ds"
    and s': "sdb s' = (sdb s5)\<lparr>folders := ds', trash := filter (\<lambda>r. tr_id r \<noteq> tr_id item) (trash ?d)\<rparr>"
    using s5 only_this_row [OF keys mem item(2)] by auto
  have rows: "restored_rows item fs"
    using refs users mem(2) ok item(2) sum_sizes [OF refs] by (simp add: restored_rows_def owned_trash_def trash_ok_def)
  have "folders_inv ds' m"
    using invs(1) folders_inv_cong [OF ds'] by simp
  with mem item(2) rows invs(2) show thesis
    by (rule that) (use s' s5 in simp)
qed

lemma restore_folder_tx_inv:
  assumes "restore_folder_tx i uid k T s = (Inr (Inr v), s')" and "in_tx T" and "db_inv (sdb s)"
  shows "db_inv (sdb s')"
  using assms by (rule restore_folder_tx_ok) (use db_inv_restored assms(3) in simp)

end
