(* ===== verification/Trash_Move.thy ===== *)
theory Trash_Move
  imports Trash_Restore
begin

text \<open>
  Moving to the trash keeps the invariant.  The folders of a deletion form a forest: the plans
  of two folders of which none covers the other share no folder, hence no file is moved twice,
  and every moved file is accounted for by exactly one trash row.
\<close>

section \<open>Folder trees\<close>

inductive below :: "folder_row list \<Rightarrow> nat \<Rightarrow> nat \<Rightarrow> folder_row \<Rightarrow> bool" for ds uid where
  itself: "r \<in> set ds \<Longrightarrow> d_user_id r = uid \<Longrightarrow> below ds uid (d_id r) r"
| child: "below ds uid k p \<Longrightarrow> f \<in> set ds \<Longrightarrow> d_parent_id f = d_id p \<Longrightarrow> d_user_id f = uid \<Longrightarrow> below ds uid k f"

lemma below_row: "below ds uid k r \<Longrightarrow> r \<in> set ds \<and> d_user_id r = uid"
  by (induction rule: below.induct) auto

lemma below_root: "below ds uid k r \<Longrightarrow> \<exists>q \<in> set ds. d_id q = k \<and> d_user_id q = uid"
  by (induction rule: below.induct) auto

text \<open>With one parent per folder, two trees that meet are nested.\<close>

lemma below_meets:
  assumes dist: "distinct (map d_id ds)" and "below ds uid a x" and "below ds uid b x"
  shows "(\<exists>r. d_id r = a \<and> below ds uid b r) \<or> (\<exists>r. d_id r = b \<and> below ds uid a r)"
  using assms(2,3)
proof (induction arbitrary: rule: below.induct)
  case (itself r)
  then show ?case by blast
next
  case (child k p f)
  from child.prems show ?case
  proof (cases rule: below.cases)
    case itself
    then show ?thesis
      using below.child [OF child.hyps] by blast
  next
    case (child p')
    with \<open>below ds uid k p\<close> \<open>d_parent_id f = d_id p\<close> have "p' = p"
      using dist below_row by (metis distinct_map inj_onD)
    with child \<open>below ds uid b p \<Longrightarrow> _\<close> show ?thesis by blast
  qed
qed

definition level_ok :: "folder_row list \<Rightarrow> nat \<Rightarrow> nat list \<Rightarrow> (folder_row \<times> nat) list \<Rightarrow> bool" where
  "level_ok ds uid ids lvl \<longleftrightarrow> (\<forall>(r, k) \<in> set lvl. k \<in> set ids \<and> below ds uid k r)"

lemma level_ok_next: "level_ok ds uid ids lvl \<Longrightarrow> level_ok ds uid ids (next_level ds uid lvl)"
  by (auto simp: level_ok_def next_level_def intro: below.child)

lemma folder_levels_sound: "folder_levels n ds uid lvl = Some rows \<Longrightarrow> level_ok ds uid ids lvl \<Longrightarrow> level_ok ds uid ids rows"
proof (induction n arbitrary: lvl rows)
  case (Suc n)
  show ?case
  proof (cases "lvl = []")
    case False
    with Suc.prems obtain rest where rest: "folder_levels n ds uid (next_level ds uid lvl) = Some rest" "rows = lvl @ rest"
      by auto
    with Suc.IH [OF rest(1) level_ok_next [OF Suc.prems(2)]] Suc.prems(2) show ?thesis
      by (auto simp: level_ok_def)
  qed (use Suc.prems in \<open>simp add: level_ok_def\<close>)
qed (auto simp: level_ok_def split: if_splits)

lemma folder_levels_first: "folder_levels n ds uid lvl = Some rows \<Longrightarrow> set lvl \<subseteq> set rows"
  by (cases n) (auto split: if_splits)

lemma folder_levels_closed:
  assumes "folder_levels n ds uid lvl = Some rows" and "(p, k) \<in> set rows" and "f \<in> set ds"
    and "d_parent_id f = d_id p" and "d_user_id f = uid"
  shows "(f, k) \<in> set rows"
  using assms(1,2)
proof (induction n arbitrary: lvl rows)
  case (Suc n)
  then have ne: "lvl \<noteq> []" by auto
  with Suc.prems obtain rest where rest: "folder_levels n ds uid (next_level ds uid lvl) = Some rest" "rows = lvl @ rest"
    by auto
  show ?case
  proof (cases "(p, k) \<in> set lvl")
    case True
    then have hd: "(f, k) \<in> set (next_level ds uid lvl)"
      using assms(3-5) unfolding next_level_def by (auto intro!: bexI [of _ "(p, k)"])
    moreover have "set (next_level ds uid lvl) \<subseteq> set rest"
      using folder_levels_first [OF rest(1)] .
    ultimately show ?thesis using rest(2) by auto
  next
    case False
    with Suc.IH [OF rest(1)] Suc.prems(2) rest(2) show ?thesis by auto
  qed
qed (auto split: if_splits)

lemma folder_tree_ok:
  assumes "folder_tree ds uid ids = Some rows"
  shows "(r, k) \<in> set rows \<longleftrightarrow> k \<in> set ids \<and> below ds uid k r"
proof -
  let ?lvl = "map (\<lambda>r. (r, d_id r)) (filter (\<lambda>r. d_id r \<in> set ids \<and> d_user_id r = uid) ds)"
  from assms obtain rows' where lv: "folder_levels (length ds) ds uid ?lvl = Some rows'" and set: "set rows = set rows'"
    by (auto simp: folder_tree_def)
  have "level_ok ds uid ids ?lvl"
    by (auto simp: level_ok_def intro: below.itself)
  from folder_levels_sound [OF lv this] have sound: "(r, k) \<in> set rows' \<Longrightarrow> k \<in> set ids \<and> below ds uid k r" for r k
    by (auto simp: level_ok_def)
  have "below ds uid k r \<Longrightarrow> k \<in> set ids \<Longrightarrow> (r, k) \<in> set rows'" for r k
  proof (induction rule: below.induct)
    case (itself r)
    then have "(r, d_id r) \<in> set ?lvl" by auto
    with folder_levels_first [OF lv] show ?case by blast
  next
    case (child k p f)
    with folder_levels_closed [OF lv] show ?case by blast
  qed
  with sound set show ?thesis by blast
qed

section \<open>Delete plans\<close>

definition plan_rows :: "plans \<Rightarrow> nat \<Rightarrow> folder_row list" where
  "plan_rows ps k = (case map_of ps k of None \<Rightarrow> [] | Some p \<Rightarrow> pl_folders p)"

definition plan_ok :: "FolderDeletePlan \<Rightarrow> bool" where
  "plan_ok p \<longleftrightarrow> pl_root p \<in> set (pl_folders p)"

lemma add_folder_lookup:
  "map_of (add_folder r k ps) j =
     (if j = k then Some (case map_of ps k of
          None \<Rightarrow> \<lparr>pl_root = r, pl_folders = [r], pl_files = [], pl_item_size = 0\<rparr>
        | Some p \<Rightarrow> p\<lparr>pl_folders := pl_folders p @ [r]\<rparr>)
      else map_of ps j)"
  by (induction r k ps rule: add_folder.induct) auto

lemma add_folders_rows:
  "set (plan_rows (add_folders rows ps) k) = set (plan_rows ps k) \<union> {r. (r, k) \<in> set rows}"
proof (induction rows ps rule: add_folders.induct)
  case (2 r root rows ps)
  then show ?case by (auto simp: plan_rows_def add_folder_lookup split: option.splits)
qed simp

lemma add_folders_ok:
  "(\<forall>k p. map_of ps k = Some p \<longrightarrow> plan_ok p) \<Longrightarrow> map_of (add_folders rows ps) k = Some p \<Longrightarrow> plan_ok p"
proof (induction rows ps arbitrary: k p rule: add_folders.induct)
  case (2 r root rows ps)
  have "\<forall>k p. map_of (add_folder r root ps) k = Some p \<longrightarrow> plan_ok p"
    using "2.prems"(1) by (auto simp: add_folder_lookup plan_ok_def split: option.splits if_splits)
  with 2 show ?case by simp
qed simp

lemma map_of_map_plans: "map_of (map (\<lambda>(k, p). (k, g k p)) ps) j = map_option (g j) (map_of ps j)"
  by (induction ps) auto

definition same_folders :: "plans \<Rightarrow> plans \<Rightarrow> bool" where
  "same_folders ps qs \<longleftrightarrow> (\<forall>k. map_option (\<lambda>p. (pl_root p, pl_folders p)) (map_of ps k) =
                              map_option (\<lambda>p. (pl_root p, pl_folders p)) (map_of qs k))"

lemma same_folders_assign: "same_folders (assign_file roots f ps) ps"
  by (auto simp: assign_file_def same_folders_def map_of_map_plans option.map_comp comp_def add_file_def
      intro: option.map_cong split: option.splits)

lemma same_folders_fold: "same_folders (fold (assign_file roots) fs ps) ps"
proof (induction fs arbitrary: ps)
  case (Cons f fs)
  from Cons [of "assign_file roots f ps"] same_folders_assign [of roots f ps] show ?case
    by (simp add: same_folders_def)
qed (simp add: same_folders_def)

text \<open>The plans as a function of the tables.\<close>

definition plans_of :: "(nat list \<Rightarrow> nat list) \<Rightarrow> nat list \<Rightarrow> nat \<Rightarrow> 'w db \<Rightarrow> plans" where
  "plans_of ord ids uid d =
     (if ids = [] then []
      else (case folder_tree (folders d) uid ids of
        None \<Rightarrow> []
      | Some rows \<Rightarrow>
          let ps = add_folders rows []; all = normalize_ids (map (\<lambda>(r, _). d_id r) rows) in
          if all = [] then ps
          else fold (assign_file (ord (ord (map fst ps))))
            (sort_key (\<lambda>f. (f_folder_id f, f_id f)) (filter (\<lambda>f. f_user_id f = uid \<and> f_folder_id f \<in> set all) (files d))) ps))"

lemma fetch_plans_ok:
  assumes "FetchBatchFolderDeletePlans ord T ids uid s = (Inr ps, s')" and "in_tx T"
  shows "sdb s' = sdb s \<and> ps = plans_of ord ids uid (sdb s) \<and> (ids = [] \<or> folder_tree (folders (sdb s)) uid ids \<noteq> None)"
  using assms unfolding FetchBatchFolderDeletePlans_def FetchFilesInFolders_def plans_of_def
  by (auto simp: retM_def Let_def fetch_tree_stmt_def elim!: bindM_okE exec_okE dest!: pure_ok split: if_splits option.splits)

definition plans_cover :: "plans \<Rightarrow> nat list \<Rightarrow> nat \<Rightarrow> 'w db \<Rightarrow> bool" where
  "plans_cover ps ids uid d \<longleftrightarrow>
     (\<forall>k r. r \<in> set (plan_rows ps k) \<longleftrightarrow> k \<in> set ids \<and> below (folders d) uid k r) \<and>
     (\<forall>k p. map_of ps k = Some p \<longrightarrow> plan_ok p)"

lemma plans_cover_same:
  assumes "same_folders ps qs" and "plans_cover qs ids uid d"
  shows "plans_cover ps ids uid d"
proof -
  have look: "map_option (\<lambda>p. (pl_root p, pl_folders p)) (map_of ps k) = map_option (\<lambda>p. (pl_root p, pl_folders p)) (map_of qs k)" for k
    using assms(1) by (simp add: same_folders_def)
  have "plan_rows ps k = plan_rows qs k" for k
    using look [of k] by (auto simp: plan_rows_def split: option.splits)
  moreover have "plan_ok p" if "map_of ps k = Some p" for k p
    using look [of k] that assms(2) by (cases "map_of qs k") (auto simp: plans_cover_def plan_ok_def)
  ultimately show ?thesis
    using assms(2) by (simp add: plans_cover_def)
qed

lemma plans_of_cover:
  assumes "ids = [] \<or> folder_tree (folders d) uid ids \<noteq> None"
  shows "plans_cover (plans_of ord ids uid d) ids uid d"
proof (cases "ids = []")
  case True
  then show ?thesis by (simp add: plans_of_def plans_cover_def plan_rows_def)
next
  case False
  with assms obtain rows where rows: "folder_tree (folders d) uid ids = Some rows" by auto
  have base: "plans_cover (add_folders rows []) ids uid d"
    using add_folders_rows [of rows "[]"] add_folders_ok [of "[]" rows] folder_tree_ok [OF rows]
    by (auto simp: plans_cover_def plan_rows_def)
  from rows False show ?thesis
    using base plans_cover_same [OF same_folders_fold base]
    by (auto simp: plans_of_def Let_def)
qed

lemma each_chunk_reads:
  "each_chunk (\<lambda>c. exec T (pureS (g c))) cs s = (Inr rs, s') \<Longrightarrow> in_tx T \<Longrightarrow>
   sdb s' = sdb s \<and> rs = concat (map (\<lambda>c. g c (sdb s)) cs)"
proof (induction cs arbitrary: s rs)
  case (Cons c cs)
  then obtain v s1 rest where "exec T (pureS (g c)) s = (Inr v, s1)"
    and rest: "each_chunk (\<lambda>c. exec T (pureS (g c))) cs s1 = (Inr rest, s')" and rs: "rs = v @ rest"
    by (auto simp: retM_def elim!: bindM_okE)
  then have "v = g c (sdb s)" "sdb s1 = sdb s"
    using Cons.prems(2) by (auto dest!: pure_ok)
  with Cons.IH [OF rest Cons.prems(2)] rs show ?case by simp
qed (simp add: retM_def)

lemma lock_folders_ok:
  "lock_folders n ord T ids uid locked s = (Inr (ps, tops), s') \<Longrightarrow> in_tx T \<Longrightarrow>
   sdb s' = sdb s \<and> ps = plans_of ord ids uid (sdb s) \<and> tops = FilterCoveredFolderIds ids ps \<and>
   plans_cover ps ids uid (sdb s)"
proof (induction n arbitrary: locked s)
  case (Suc n)
  from Suc.prems obtain ps1 s1 where f: "FetchBatchFolderDeletePlans ord T ids uid s = (Inr ps1, s1)"
    and k: "(let top_level = FilterCoveredFolderIds ids ps1;
           to_lock = filter (\<lambda>i. i \<notin> set locked) (discovered_folder_ids top_level ps1)
       in if to_lock = [] then retM (ps1, top_level)
          else
            bindM (FetchOwnedFoldersByIdsForUpdate T to_lock uid) (\<lambda>_.
              lock_folders n ord T ids uid (locked @ to_lock))) s1 = (Inr (ps, tops), s')"
    by (auto elim!: bindM_okE)
  note ok = fetch_plans_ok [OF f Suc.prems(2)]
  show ?case
  proof (cases "filter (\<lambda>i. i \<notin> set locked) (discovered_folder_ids (FilterCoveredFolderIds ids ps1) ps1) = []")
    case True
    with k have "ps = ps1" "tops = FilterCoveredFolderIds ids ps1" "s' = s1"
      by (auto simp: Let_def retM_def simp del: filter_empty_conv)
    with ok plans_of_cover [of ids "sdb s" uid ord] show ?thesis by simp
  next
    case False
    with k obtain rs s2 l where lock: "FetchOwnedFoldersByIdsForUpdate T l uid s1 = (Inr rs, s2)"
      and rec: "lock_folders n ord T ids uid (locked @ l) s2 = (Inr (ps, tops), s')"
      by (auto simp: Let_def simp del: filter_empty_conv elim!: bindM_okE)
    from lock Suc.prems(2) have "sdb s2 = sdb s1"
      unfolding FetchOwnedFoldersByIdsForUpdate_def by (auto dest!: each_chunk_reads)
    with Suc.IH [OF rec Suc.prems(2)] ok show ?thesis by metis
  qed
qed (simp add: throwM_def)

text \<open>
  Two rounds are enough: nothing else changes the tables, so the second round finds the plans
  of the first, all of whose folders are locked.
\<close>

lemma lock_folders_stops:
  assumes "in_tx T" and "set (discovered_folder_ids (FilterCoveredFolderIds ids ps) ps) \<subseteq> set locked"
    and "ps = plans_of ord ids uid (sdb s)"
  shows "lock_folders (Suc n) ord T ids uid locked s = lock_folders (Suc m) ord T ids uid locked s"
proof -
  let ?F = "FetchBatchFolderDeletePlans ord T ids uid"
  have none: "filter (\<lambda>i. i \<notin> set locked) (discovered_folder_ids (FilterCoveredFolderIds ids qs) qs) = []"
    if "?F s = (Inr qs, s1)" for qs s1
    using fetch_plans_ok [OF that assms(1)] assms(2,3) by (auto simp: filter_empty_conv)
  show ?thesis
    by (cases "?F s") (use none in \<open>auto simp: bindM_def Let_def simp del: filter_empty_conv split: sum.splits\<close>)
qed

lemma lock_folders_enough:
  assumes tx: "in_tx T"
  shows "lock_folders (n + 2) ord T ids uid [] s = lock_folders 2 ord T ids uid [] s"
proof -
  let ?F = "FetchBatchFolderDeletePlans ord T ids uid"
  obtain r s1 where F: "?F s = (r, s1)" by (cases "?F s")
  show ?thesis
  proof (cases r)
    case (Inl e)
    with F show ?thesis by (simp add: bindM_def numeral_2_eq_2)
  next
    case (Inr ps)
    note ok = fetch_plans_ok [OF F [unfolded Inr] tx]
    let ?l = "filter (\<lambda>i. i \<notin> set []) (discovered_folder_ids (FilterCoveredFolderIds ids ps) ps)"
    have "lock_folders (Suc n) ord T ids uid ([] @ ?l) s2 = lock_folders (Suc 0) ord T ids uid ([] @ ?l) s2"
      if "FetchOwnedFoldersByIdsForUpdate T ?l uid s1 = (Inr rs, s2)" for rs s2
    proof (rule lock_folders_stops [OF tx])
      from that tx have "sdb s2 = sdb s1"
        unfolding FetchOwnedFoldersByIdsForUpdate_def by (auto dest!: each_chunk_reads)
      with ok show "ps = plans_of ord ids uid (sdb s2)" by simp
    qed auto
    with F Inr show ?thesis
      by (auto simp: bindM_def Let_def numeral_2_eq_2 simp del: lock_folders.simps(2)
          simp: lock_folders.simps(2) [of "Suc _" _ _ _ _ "[]"] split: sum.splits prod.splits)
  qed
qed

section \<open>What is moved\<close>

text \<open>The plans of uncovered folders share no folder.\<close>

lemma uncovered_disjoint:
  assumes cover: "plans_cover ps ids uid d" and dist: "distinct (map d_id (folders d))"
    and a: "a \<in> set (FilterCoveredFolderIds ids ps)" and b: "b \<in> set (FilterCoveredFolderIds ids ps)" and "a \<noteq> b"
  shows "d_id ` set (plan_rows ps a) \<inter> d_id ` set (plan_rows ps b) = {}"
proof (rule ccontr)
  assume "d_id ` set (plan_rows ps a) \<inter> d_id ` set (plan_rows ps b) \<noteq> {}"
  then obtain x y where xy: "x \<in> set (plan_rows ps a)" "y \<in> set (plan_rows ps b)" "d_id x = d_id y" by auto
  then have ab: "below (folders d) uid a x" "below (folders d) uid b y"
    and ids: "a \<in> set ids" "b \<in> set ids"
    using cover by (auto simp: plans_cover_def)
  have "x = y"
    using below_row [OF ab(1)] below_row [OF ab(2)] xy(3) dist by (metis distinct_map inj_onD)
  then have "(\<exists>r. d_id r = a \<and> r \<in> set (plan_rows ps b)) \<or> (\<exists>r. d_id r = b \<and> r \<in> set (plan_rows ps a))"
    using below_meets [OF dist ab(1)] ab(2) ids cover by (metis plans_cover_def)
  moreover have "\<not> (\<exists>r. d_id r = i \<and> r \<in> set (plan_rows ps k))"
    if "i \<in> set (FilterCoveredFolderIds ids ps)" "k \<noteq> i" for i k
  proof
    assume "\<exists>r. d_id r = i \<and> r \<in> set (plan_rows ps k)"
    then obtain r p where "d_id r = i" "map_of ps k = Some p" "r \<in> set (pl_folders p)"
      by (cases "map_of ps k") (auto simp: plan_rows_def)
    then have "(k, p) \<in> set ps" "i \<in> set (plan_folder_ids p)"
      by (auto simp: plan_folder_ids_def dest: map_of_SomeD)
    with that show False
      by (fastforce simp: FilterCoveredFolderIds_def list_ex_iff)
  qed
  ultimately show False
    using a b \<open>a \<noteq> b\<close> by metis
qed

lemma distinct_sort_key: "distinct (map key xs) \<Longrightarrow> distinct (map key (sort_key key xs))"
  by (metis distinct_map distinct_sort set_sort)

text \<open>Locked rows are the owned rows asked for, each once.\<close>

lemma batches_cover: "concat (batches DEFAULT_BATCH_CHUNK_SIZE xs) = xs"
  by (rule concat_batches) (simp add: DEFAULT_BATCH_CHUNK_SIZE_def)

lemma distinct_by_chunks:
  assumes "distinct (concat cs)" and "distinct (map key rows)"
  shows "distinct (map key (concat (map (\<lambda>c. sort_key key (filter (\<lambda>r. key r \<in> set c \<and> p r) rows)) cs)))"
  using assms(1)
proof (induction cs)
  case (Cons c cs)
  have "distinct (map key (sort_key key (filter (\<lambda>r. key r \<in> set c \<and> p r) rows)))"
    using assms(2) by (intro distinct_sort_key) (simp add: distinct_map_filter)
  with Cons show ?case by auto
qed simp

lemma FetchOwnedFiles_ok:
  assumes "FetchOwnedFilesByIdsForUpdate T ids uid s = (Inr fs, s')" and "in_tx T" and "distinct (map f_id (files (sdb s)))"
  shows "sdb s' = sdb s \<and> distinct (map f_id fs) \<and>
    set fs = {f \<in> set (files (sdb s)). f_id f \<in> set ids \<and> f_user_id f = uid}"
proof -
  from assms(1,2) have s': "sdb s' = sdb s"
    and fs: "fs = concat (map (\<lambda>c. sort_key f_id (filter (\<lambda>f. f_id f \<in> set c \<and> f_user_id f = uid) (files (sdb s))))
       (batches DEFAULT_BATCH_CHUNK_SIZE (normalize_ids ids)))"
    unfolding FetchOwnedFilesByIdsForUpdate_def by (auto dest!: each_chunk_reads)
  have "distinct (concat (batches DEFAULT_BATCH_CHUNK_SIZE (normalize_ids ids)))"
    by (simp add: batches_cover)
  then have "distinct (map f_id fs)"
    unfolding fs by (rule distinct_by_chunks [OF _ assms(3)])
  moreover have "\<Union> (set ` set (batches DEFAULT_BATCH_CHUNK_SIZE (normalize_ids ids))) = set ids"
    using batches_cover [of "normalize_ids ids"] by (metis normalize_ids_props(1) set_concat)
  moreover have "set fs = {f \<in> set (files (sdb s)). f_id f \<in> \<Union> (set ` set (batches DEFAULT_BATCH_CHUNK_SIZE (normalize_ids ids))) \<and>
      f_user_id f = uid}"
    unfolding fs by auto
  ultimately show ?thesis using s' by simp
qed

lemma replan_lookup:
  "map_of (replan tops fs ps) k = map_option (\<lambda>p. if k \<in> set tops
       then p\<lparr>pl_files := filter (\<lambda>f. f_folder_id f \<in> set (plan_folder_ids p)) fs,
              pl_item_size := sum_list (map f_size (filter (\<lambda>f. f_folder_id f \<in> set (plan_folder_ids p)) fs))\<rparr>
       else p) (map_of ps k)"
  by (induction ps) (auto simp: replan_def Let_def)

lemma map_filter_Cons: "List.map_filter f (x # xs) = (case f x of None \<Rightarrow> [] | Some y \<Rightarrow> [y]) @ List.map_filter f xs"
  by (simp add: List.map_filter_def split: option.splits)

lemma map_filter_mem: "y \<in> set (List.map_filter f xs) \<longleftrightarrow> (\<exists>x \<in> set xs. f x = Some y)"
  by (force simp: List.map_filter_def)

definition top_plans :: "nat list \<Rightarrow> file_row list \<Rightarrow> plans \<Rightarrow> FolderDeletePlan list" where
  "top_plans tops fs ps = List.map_filter (map_of (replan tops fs ps)) tops"

lemma top_plans_mem:
  "p \<in> set (top_plans tops fs ps) \<longleftrightarrow> (\<exists>k \<in> set tops. map_of (replan tops fs ps) k = Some p)"
  by (simp add: top_plans_def map_filter_mem)

lemma top_plan_facts:
  assumes "p \<in> set (top_plans tops fs ps)" and "plans_cover ps ids uid d"
  shows "pl_files p = filter (\<lambda>f. f_folder_id f \<in> d_id ` set (pl_folders p)) fs"
    and "pl_item_size p = sum_list (map f_size (pl_files p))"
    and "pl_root p \<in> set (pl_folders p)" and "\<exists>k \<in> set tops. pl_folders p = plan_rows ps k"
    and "r \<in> set (pl_folders p) \<Longrightarrow> r \<in> set (folders d)"
proof -
  from assms(1) obtain k q where k: "k \<in> set tops" "map_of ps k = Some q"
    and p: "p = q\<lparr>pl_files := filter (\<lambda>f. f_folder_id f \<in> set (plan_folder_ids q)) fs,
              pl_item_size := sum_list (map f_size (filter (\<lambda>f. f_folder_id f \<in> set (plan_folder_ids q)) fs))\<rparr>"
    by (auto simp: top_plans_mem replan_lookup)
  then show "pl_files p = filter (\<lambda>f. f_folder_id f \<in> d_id ` set (pl_folders p)) fs"
    and "pl_item_size p = sum_list (map f_size (pl_files p))"
    by (simp_all add: plan_folder_ids_def)
  show "pl_root p \<in> set (pl_folders p)"
    using assms(2) k p by (auto simp: plans_cover_def plan_ok_def)
  show rows: "\<exists>k \<in> set tops. pl_folders p = plan_rows ps k"
    by (rule bexI [OF _ k(1)]) (use k(2) p in \<open>simp add: plan_rows_def\<close>)
  show "r \<in> set (folders d)" if "r \<in> set (pl_folders p)"
    using that rows assms(2) below_row by (metis plans_cover_def)
qed

text \<open>No file is in two plans.\<close>

lemma plan_files_distinct:
  assumes cover: "plans_cover ps ids uid d" and dist: "distinct (map d_id (folders d))" and fs: "distinct fs"
    and "distinct tops" and "set tops \<subseteq> set (FilterCoveredFolderIds ids ps)"
    and "\<forall>k p. map_of qs k = Some p \<longrightarrow> k \<in> set all \<longrightarrow>
           pl_folders p = plan_rows ps k \<and> pl_files p = filter (\<lambda>f. f_folder_id f \<in> d_id ` set (pl_folders p)) fs"
    and "set tops \<subseteq> set all"
  shows "distinct (concat (map pl_files (List.map_filter (map_of qs) tops)))"
  using assms(4,5,7)
proof (induction tops)
  case (Cons k tops)
  show ?case
  proof (cases "map_of qs k")
    case None
    with Cons show ?thesis by (simp add: map_filter_Cons)
  next
    case (Some p)
    have p: "pl_folders p = plan_rows ps k" "pl_files p = filter (\<lambda>f. f_folder_id f \<in> d_id ` set (plan_rows ps k)) fs"
      using assms(6) Some Cons.prems(3) by auto
    have "set (pl_files p) \<inter> set (pl_files q) = {}" if q: "q \<in> set (List.map_filter (map_of qs) tops)" for q
    proof -
      from q obtain j where j: "j \<in> set tops" "map_of qs j = Some q" by (auto simp: map_filter_mem)
      then have "pl_folders q = plan_rows ps j" "pl_files q = filter (\<lambda>f. f_folder_id f \<in> d_id ` set (plan_rows ps j)) fs"
        using assms(6) Cons.prems(3) by auto
      moreover have "d_id ` set (plan_rows ps k) \<inter> d_id ` set (plan_rows ps j) = {}"
        using uncovered_disjoint [OF cover dist, of k j] Cons.prems j(1) by auto
      ultimately show ?thesis using p by auto
    qed
    moreover have "distinct (pl_files p)" using p(2) fs by simp
    ultimately show ?thesis
      using Cons Some by (auto simp: map_filter_Cons)
  qed
qed (simp add: List.map_filter_def)

end
