(* ===== verification/Trash_Accounts.thy ===== *)
theory Trash_Accounts
  imports Trash_Move
begin

text \<open>
  The effect of moving items to the trash on the tables, and that it keeps the invariant: the
  new trash rows take over the references and the bytes of exactly the files that go.
\<close>

section \<open>Effects of the statements\<close>

definition shares_changed :: "'w db \<Rightarrow> 'w db \<Rightarrow> bool" where
  "shares_changed d d' \<longleftrightarrow> (\<exists>ss ls. d' = d\<lparr>shares := ss, share_files := ls\<rparr>)"

lemma shares_changed_refl [simp]: "shares_changed d d"
  unfolding shares_changed_def by (intro exI [of _ "shares d"] exI [of _ "share_files d"]) simp

lemma shares_changed_trans: "shares_changed d e \<Longrightarrow> shares_changed e f \<Longrightarrow> shares_changed d f"
  unfolding shares_changed_def by (elim exE) (simp, intro exI, rule refl)

lemma shares_changedI: "d\<lparr>shares := ss\<rparr> = d' \<Longrightarrow> shares_changed d d'"
  unfolding shares_changed_def by (rule exI [of _ ss], rule exI [of _ "share_files d"]) auto

lemma links_changedI: "d\<lparr>share_files := ls\<rparr> = d' \<Longrightarrow> shares_changed d d'"
  unfolding shares_changed_def by (rule exI [of _ "shares d"], rule exI [of _ ls]) auto

lemma each_chunk_shares:
  assumes "each_chunk f cs s = (Inr rs, s')" and "\<And>c s v s'. f c s = (Inr v, s') \<Longrightarrow> shares_changed (sdb s) (sdb s')"
  shows "shares_changed (sdb s) (sdb s')"
  using assms(1)
proof (induction cs arbitrary: s rs)
  case (Cons c cs)
  then obtain v s1 rest where "f c s = (Inr v, s1)" "each_chunk f cs s1 = (Inr rest, s')"
    by (auto simp: retM_def elim!: bindM_okE)
  with Cons.IH assms(2) show ?case by (blast intro: shares_changed_trans)
qed (simp add: retM_def)

lemma unlink_shares: "unlink T ty c s = (Inr v, s') \<Longrightarrow> in_tx T \<Longrightarrow> shares_changed (sdb s) (sdb s')"
  unfolding unlink_def by (auto simp: retM_def updateS_def intro: shares_changedI links_changedI elim!: bindM_okE exec_okE dest!: pure_ok)

lemma cancel_empty_shares: "cancel_empty T c s = (Inr v, s') \<Longrightarrow> in_tx T \<Longrightarrow> shares_changed (sdb s) (sdb s')"
  unfolding cancel_empty_def by (auto simp: retM_def updateS_def intro: shares_changedI links_changedI elim!: bindM_okE exec_okE)

lemma Cleanup_shares:
  assumes "CleanupShareLinksForMovedItems T fs ds s = (Inr v, s')" and tx: "in_tx T"
  shows "shares_changed (sdb s) (sdb s')"
proof -
  from assms(1) obtain a s1 b s2 c where
    "each_chunk (unlink T ''file'') (batches DEFAULT_BATCH_CHUNK_SIZE fs) s = (Inr a, s1)"
    "each_chunk (unlink T ''folder'') (batches DEFAULT_BATCH_CHUNK_SIZE ds) s1 = (Inr b, s2)"
    "each_chunk (cancel_empty T) (batches DEFAULT_BATCH_CHUNK_SIZE (normalize_ids (a @ b))) s2 = (Inr c, s')"
    unfolding CleanupShareLinksForMovedItems_def by (auto simp: retM_def elim!: bindM_okE)
  then show ?thesis
    using tx by (blast intro: shares_changed_trans each_chunk_shares unlink_shares cancel_empty_shares)
qed

lemma apply_deltas_ok:
  "apply_deltas T uid xs s = (Inr (Inr u), s') \<Longrightarrow> in_tx T \<Longrightarrow>
   \<exists>ds. sdb s' = (sdb s)\<lparr>folders := ds\<rparr> \<and> map folder_ident ds = map folder_ident (folders (sdb s))"
proof (induction xs arbitrary: s)
  case Nil
  then show ?case by (intro exI [of _ "folders (sdb s)"]) simp
next
  case (Cons x xs)
  obtain k v where x: "x = (k, v)" by (cases x)
  with Cons.prems(1) obtain s1 where "ApplyItemCountDelta T k uid v s = (Inr True, s1)"
    and rest: "apply_deltas T uid xs s1 = (Inr (Inr u), s')"
    by (auto elim!: bindM_okE split: if_splits)
  then have s1: "sdb s1 = (sdb s)\<lparr>folders := counted k uid v (folders (sdb s))\<rparr>"
    using Cons.prems(2) by (auto dest!: ApplyItemCountDelta_ok)
  from Cons.IH [OF rest Cons.prems(2)] obtain ds where
    "sdb s' = (sdb s1)\<lparr>folders := ds\<rparr>" "map folder_ident ds = map folder_ident (folders (sdb s1))" by blast
  with s1 show ?case by (intro exI [of _ ds]) simp
qed

lemma catchDb_retM_okD: "catchDb m (retM d) s = (Inr v, s') \<Longrightarrow> v \<noteq> d \<Longrightarrow> m s = (Inr v, s')"
  by (auto simp: catchDb_def catchM_def retM_def throwM_def split: prod.splits sum.splits if_splits)

lemma InsertTrashRecords_ok:
  assumes "InsertTrashRecords T items uid s = (Inr True, s')" and "in_tx T" and "items \<noteq> []"
  shows "sdb s' = (sdb s)\<lparr>trash := trash (sdb s) @ new_trash_rows (sdb s) uid (seq_trash (sdb s)) items,
                           seq_trash := seq_trash (sdb s) + length items\<rparr>"
  using assms unfolding InsertTrashRecords_def
  by (auto simp: insert_trash_stmt_def retM_def dest!: catchDb_retM_okD elim!: bindM_okE exec_okE split: if_splits)

lemma DeleteFiles_ok:
  assumes "DeleteFilesByIds T ids s = (Inr (length ids), s')" and "in_tx T"
  shows "sdb s' = (sdb s)\<lparr>files := filter (\<lambda>f. f_id f \<notin> set ids) (files (sdb s)),
     upload_tasks := update_where (refers_to (f_id ` set (filter (\<lambda>f. f_id f \<in> set ids) (files (sdb s))))) forget_file
       (upload_tasks (sdb s))\<rparr>"
proof (cases "ids = []")
  case True
  have "update_where (refers_to {}) forget_file ts = ts" for ts
    by (induction ts) (auto simp: refers_to_def split: option.splits)
  with True assms show ?thesis by (simp add: DeleteFilesByIds_def retM_def)
next
  case False
  with assms show ?thesis unfolding DeleteFilesByIds_def
    by (auto simp: delete_files_stmt_def Let_def dest!: catchDb_retM_okD elim!: exec_okE)
qed

lemma DeleteFolders_ok:
  assumes "DeleteFoldersByIds T ids s = (Inr (length ids), s')" and "in_tx T"
  shows "sdb s' = (sdb s)\<lparr>folders := filter (\<lambda>r. d_id r \<notin> set ids) (folders (sdb s))\<rparr>"
  using assms unfolding DeleteFoldersByIds_def
  by (cases "ids = []") (auto simp: delete_folders_stmt_def retM_def dest!: catchDb_retM_okD elim!: exec_okE)

section \<open>Tasks that forget their file\<close>

lemma forget_file_simps [simp]:
  "t_id (forget_file r) = t_id r" "t_user_id (forget_file r) = t_user_id r" "t_status (forget_file r) = t_status r"
  "t_file_hash (forget_file r) = t_file_hash r" "t_reserved_bytes (forget_file r) = t_reserved_bytes r"
  "same_task r (forget_file r)" "task_ok r \<Longrightarrow> task_ok (forget_file r)"
  by (simp_all add: forget_file_def same_task_def task_ok_def)

abbreviation forgotten :: "nat set \<Rightarrow> task_row list \<Rightarrow> task_row list" where
  "forgotten ids ts \<equiv> update_where (refers_to ids) forget_file ts"

interpretation forget: keyed_update t_id guard forget_file for guard
  by unfold_locales simp

lemma forgotten_origin: "x \<in> set (forgotten ids ts) \<Longrightarrow> \<exists>r \<in> set ts. x = r \<or> x = forget_file r"
  by (auto simp: mem_update_where)

lemma tasks_inv_forgotten:
  assumes "tasks_inv us ts"
  shows "tasks_inv us (forgotten ids ts)"
proof -
  have "one_active (forgotten ids ts)"
    unfolding one_active_def
  proof (intro ballI impI)
    fix x y
    assume "x \<in> set (forgotten ids ts)" "y \<in> set (forgotten ids ts)"
      and h: "active_status (t_status x)" "active_status (t_status y)" "t_user_id x = t_user_id y" "t_file_hash x = t_file_hash y"
    then obtain r q where "r \<in> set ts" "x = r \<or> x = forget_file r" "q \<in> set ts" "y = q \<or> y = forget_file q"
      using forgotten_origin by metis
    with h assms show "t_id x = t_id y"
      by (auto simp: tasks_inv_def intro: one_activeD)
  qed
  moreover have "task_ok x \<and> t_user_id x \<in> u_id ` set us" if "x \<in> set (forgotten ids ts)" for x
    using forgotten_origin [OF that] assms by (auto simp: tasks_inv_def)
  ultimately show ?thesis
    using assms by (simp add: tasks_inv_def forget.distinct_keys_update)
qed

lemma reserved_forgotten: "total (reserved_by u) (forgotten ids ts) = total (reserved_by u) ts"
  by (rule total_update_same) (simp add: reserved_by_def)

lemma active_task_forgotten: "active_task ts u \<Longrightarrow> active_task (forgotten ids ts) u"
  unfolding active_task_def using forget.row_survives [of _ ts] by (metis forget_file_simps(3))

lemma chunks_inv_forgotten: "chunks_inv ts cs \<Longrightarrow> chunks_inv (forgotten ids ts) cs"
  by (auto simp: chunks_inv_def active_task_forgotten)

lemma cleanup_inv_forgotten: "cleanup_inv ts js \<Longrightarrow> cleanup_inv (forgotten ids ts) js"
  unfolding cleanup_inv_def using forgotten_origin by (metis forget_file_simps(1,3))

section \<open>The new rows\<close>

definition moved_refs :: "file_row list \<Rightarrow> (nat \<times> nat) list" where
  "moved_refs fs = map (\<lambda>f. (f_content_id f, f_size f)) fs"

definition accounts_for :: "nat \<Rightarrow> trash_row list \<Rightarrow> file_row list \<Rightarrow> bool" where
  "accounts_for uid rows fs \<longleftrightarrow>
     concat (map released rows) = moved_refs fs \<and> (\<forall>f \<in> set fs. f_user_id f = uid) \<and>
     (\<forall>r \<in> set rows. tr_user_id r = uid \<and> tr_item_size r = sum_list (map snd (released r)))"

lemma count_list_concat: "count_list (concat xss) c = sum_list (map (\<lambda>xs. count_list xs c) xss)"
  by (induction xss) simp_all

lemma accounts_for_totals:
  assumes "accounts_for uid rows fs"
  shows "total (refs_in_trash c) rows = total (refs_in_file c) fs"
    and "total (trash_bytes_of u) rows = total (file_bytes_of u) fs"
proof -
  have "total (refs_in_trash c) rows = int (count_list (map fst (concat (map released rows))) c)" for rows
    by (induction rows) (simp_all add: refs_in_trash_def)
  then show "total (refs_in_trash c) rows = total (refs_in_file c) fs"
    using assms by (simp add: accounts_for_def moved_refs_def refs_of_files comp_def)
  have "total (trash_bytes_of u) rows = (if u = uid then int (sum_list (map snd (concat (map released rows)))) else 0)"
    if "\<forall>r \<in> set rows. tr_user_id r = uid \<and> tr_item_size r = sum_list (map snd (released r))" for rows
    using that by (induction rows) (auto simp: trash_bytes_of_def)
  then show "total (trash_bytes_of u) rows = total (file_bytes_of u) fs"
    using assms bytes_of_files [of fs uid u] by (simp add: accounts_for_def moved_refs_def comp_def)
qed

lemma new_trash_rows_ids:
  "map tr_id (new_trash_rows d uid n items) = [Suc n..<Suc (n + length items)]"
  by (induction items arbitrary: n) (simp_all add: new_trash_row_def upt_rec)

lemma new_trash_rows_mem:
  "r \<in> set (new_trash_rows d uid n items) \<Longrightarrow> \<exists>i item. item \<in> set items \<and> r = new_trash_row d uid i item"
  by (induction items arbitrary: n) (auto, blast)

lemma released_new_rows:
  "(\<And>item i. item \<in> set items \<Longrightarrow> released (new_trash_row d uid i item) = g item) \<Longrightarrow>
   concat (map released (new_trash_rows d uid n items)) = concat (map g items)"
  by (induction items arbitrary: n) simp_all

lemma released_file_item:
  "f_content_id f > 0 \<Longrightarrow> released (new_trash_row d uid i (file_item f)) = [(f_content_id f, f_size f)]"
  by (simp add: released_def new_trash_row_def file_item_def ResolveRequiredContentId_def)

lemma released_folder_item:
  "d_id (pl_root p) > 0 \<Longrightarrow> d_name (pl_root p) \<noteq> [] \<Longrightarrow> list_all storable_file (pl_files p) \<Longrightarrow>
   released (new_trash_row d uid i (folder_item p)) = moved_refs (pl_files p)"
  by (simp add: released_def new_trash_row_def folder_item_def raw_tree_snapshot moved_refs_def)

section \<open>The transaction\<close>

definition moved_db ::
  "nat \<Rightarrow> TrashInsertItem list \<Rightarrow> folder_row list \<Rightarrow> nat list \<Rightarrow> nat list \<Rightarrow> share_row list \<Rightarrow> share_link_row list \<Rightarrow> 'w db \<Rightarrow> 'w db" where
  "moved_db uid items ds file_ids folder_ids ss ls d =
     d\<lparr>trash := trash d @ new_trash_rows d uid (seq_trash d) items, seq_trash := seq_trash d + length items,
       shares := ss, share_files := ls,
       files := filter (\<lambda>f. f_id f \<notin> set file_ids) (files d),
       upload_tasks := forgotten (f_id ` set (filter (\<lambda>f. f_id f \<in> set file_ids) (files d))) (upload_tasks d),
       folders := filter (\<lambda>r. d_id r \<notin> set folder_ids) ds\<rparr>"

text \<open>The files that are moved: those named in the request, then those of the plans.\<close>

definition explicit_files :: "nat list \<Rightarrow> file_row list \<Rightarrow> plans \<Rightarrow> nat list \<Rightarrow> file_row list" where
  "explicit_files tops locked ps requested =
     List.map_filter (\<lambda>i. find_row (\<lambda>f. f_id f = i) locked)
       (filter (\<lambda>i. i \<notin> set (CollectCoveredFileIds tops (replan tops locked ps))) requested)"

definition moved_files :: "nat list \<Rightarrow> file_row list \<Rightarrow> plans \<Rightarrow> nat list \<Rightarrow> file_row list" where
  "moved_files tops locked ps requested =
     explicit_files tops locked ps requested @ concat (map pl_files (top_plans tops locked ps))"

lemma move_tx_ok:
  assumes run: "move_tx ord rf rd uid T s = (Inr (Inr res), s')" and tx: "in_tx T"
    and dist: "distinct (map f_id (files (sdb s)))"
  defines "ps \<equiv> plans_of ord rd uid (sdb s)"
  defines "tops \<equiv> FilterCoveredFolderIds rd ps"
  obtains locked ds ss ls where
    "plans_cover ps rd uid (sdb s)" "distinct (map f_id locked)"
    "set locked = {f \<in> set (files (sdb s)). f_id f \<in> set rf \<union> set (CollectCoveredFileIds tops ps) \<and> f_user_id f = uid}"
    "map folder_ident ds = map folder_ident (folders (sdb s))"
    "mr_deleted_count res = length (explicit_files tops locked ps rf) + length (top_plans tops locked ps)"
    "mr_removed_file_ids res = normalize_ids (map f_id (moved_files tops locked ps rf))"
    "mr_removed_folder_ids res = normalize_ids (concat (map plan_folder_ids (top_plans tops locked ps)))"
    "sdb s' = moved_db uid (map file_item (explicit_files tops locked ps rf) @ map folder_item (top_plans tops locked ps)) ds
       (mr_removed_file_ids res) (mr_removed_folder_ids res) ss ls (sdb s)"
proof -
  let ?d = "sdb s"
  let ?lk = "normalize_ids (rf @ CollectCoveredFileIds tops ps)"
  from run obtain ps' tops' s1 locked s2 where
    lock: "lock_folders 2 ord T rd uid [] s = (Inr (ps', tops'), s1)"
    and get: "FetchOwnedFilesByIdsForUpdate T (normalize_ids (rf @ CollectCoveredFileIds tops' ps')) uid s1 = (Inr locked, s2)"
    and k: "(let plans = replan tops' locked ps';
           covered_file_ids = CollectCoveredFileIds tops' plans;
           explicit_files = List.map_filter (\<lambda>i. find_row (\<lambda>f. f_id f = i) locked)
             (filter (\<lambda>i. i \<notin> set covered_file_ids) rf);
           top_plans = List.map_filter (map_of plans) tops';
           trash_items = map file_item explicit_files @ map folder_item top_plans;
           parents = map f_folder_id explicit_files @ map (\<lambda>p. d_parent_id (pl_root p)) top_plans;
           file_ids_to_delete = normalize_ids (map f_id explicit_files @ concat (map (\<lambda>p. map f_id (pl_files p)) top_plans));
           folder_ids_to_delete = normalize_ids (concat (map plan_folder_ids top_plans));
           failed = ErrorInfo2 InternalError ''Failed to delete items''
       in if trash_items = []
          then failR (ErrorInfo2 FileNotFound ''No deletable files or folders found for the given IDs'')
          else
            bindM (InsertTrashRecords T trash_items uid) (\<lambda>insert_ok.
            if \<not> insert_ok then failR failed
            else
              bindR (apply_deltas T uid (parent_deltas parents)) (\<lambda>_.
              bindM (CleanupShareLinksForMovedItems T file_ids_to_delete folder_ids_to_delete) (\<lambda>_.
              bindM (DeleteFilesByIds T file_ids_to_delete) (\<lambda>deleted_file_rows.
              if deleted_file_rows \<noteq> length file_ids_to_delete then failR failed
              else
                bindM (DeleteFoldersByIds T folder_ids_to_delete) (\<lambda>deleted_folder_rows.
                if deleted_folder_rows \<noteq> length folder_ids_to_delete then failR failed
                else okR \<lparr>mr_deleted_count = length explicit_files + length top_plans,
                           mr_deleted_file_count = length explicit_files, mr_deleted_folder_count = length top_plans,
                           mr_removed_file_ids = file_ids_to_delete, mr_removed_folder_ids = folder_ids_to_delete\<rparr>)))))) s2
        = (Inr (Inr res), s')"
    unfolding move_tx_def by (elim bindM_okE) (auto split: prod.splits elim!: bindM_okE)
  note l = lock_folders_ok [OF lock tx]
  have eq: "ps' = ps" "tops' = tops" "sdb s1 = ?d" "plans_cover ps rd uid ?d"
    using l by (auto simp: ps_def tops_def)
  have dist1: "distinct (map f_id (files (sdb s1)))" using dist eq(3) by simp
  note g = FetchOwnedFiles_ok [OF get tx dist1]
  let ?ex = "explicit_files tops locked ps rf" and ?tp = "top_plans tops locked ps"
  let ?items = "map file_item ?ex @ map folder_item ?tp"
  let ?fids = "normalize_ids (map f_id (moved_files tops locked ps rf))"
  let ?dids = "normalize_ids (concat (map plan_folder_ids ?tp))"
  have fids: "normalize_ids (map f_id ?ex @ concat (map (\<lambda>p. map f_id (pl_files p)) ?tp)) = ?fids"
    by (simp add: moved_files_def map_concat comp_def)
  from k obtain s3 s4 s5 s6 where ne: "?items \<noteq> []"
    and ins: "InsertTrashRecords T ?items uid s2 = (Inr True, s3)"
    and del: "apply_deltas T uid (parent_deltas (map f_folder_id ?ex @ map (\<lambda>p. d_parent_id (pl_root p)) ?tp)) s3 = (Inr (Inr ()), s4)"
    and sh: "CleanupShareLinksForMovedItems T ?fids ?dids s4 = (Inr (), s5)"
    and df: "DeleteFilesByIds T ?fids s5 = (Inr (length ?fids), s6)"
    and dd: "DeleteFoldersByIds T ?dids s6 = (Inr (length ?dids), s')"
    and res: "mr_deleted_count res = length ?ex + length ?tp" "mr_removed_file_ids res = ?fids" "mr_removed_folder_ids res = ?dids"
    unfolding eq Let_def explicit_files_def [symmetric] top_plans_def [symmetric] fids
    by (auto elim!: bindM_okE bindR_okE split: if_splits)
  have s3: "sdb s3 = ?d\<lparr>trash := trash ?d @ new_trash_rows ?d uid (seq_trash ?d) ?items, seq_trash := seq_trash ?d + length ?items\<rparr>"
    using InsertTrashRecords_ok [OF ins tx ne] g eq(3) by simp
  from apply_deltas_ok [OF del tx] obtain ds where s4: "sdb s4 = (sdb s3)\<lparr>folders := ds\<rparr>"
    and ds: "map folder_ident ds = map folder_ident (folders ?d)" using s3 by auto
  from Cleanup_shares [OF sh tx] obtain ss ls where s5: "sdb s5 = (sdb s4)\<lparr>shares := ss, share_files := ls\<rparr>"
    by (auto simp: shares_changed_def)
  have "sdb s' = moved_db uid ?items ds ?fids ?dids ss ls ?d"
    using DeleteFolders_ok [OF dd tx] DeleteFiles_ok [OF df tx] s3 s4 s5 by (simp add: moved_db_def)
  moreover have "set locked = {f \<in> set (files ?d). f_id f \<in> set rf \<union> set (CollectCoveredFileIds tops ps) \<and> f_user_id f = uid}"
    using g eq by auto
  ultimately show thesis
    using that [of locked ds ss ls] eq(4) g ds res by simp
qed

section \<open>The moved files\<close>

lemma explicit_ids:
  "map f_id (List.map_filter (\<lambda>i. find_row (\<lambda>f. f_id f = i) fs) xs) = filter (\<lambda>i. i \<in> f_id ` set fs) xs"
proof (induction xs)
  case (Cons i xs)
  show ?case
  proof (cases "find_row (\<lambda>f. f_id f = i) fs")
    case None
    then have "i \<notin> f_id ` set fs" by (auto simp: find_row_None)
    with None Cons show ?thesis by (simp only: map_filter_Cons option.case append.simps filter.simps if_False)
  next
    case (Some f)
    then have "f \<in> set fs" "f_id f = i" using find_row_Some by fast+
    then have "i \<in> f_id ` set fs" by (simp only: image_iff) blast
    with Some Cons \<open>f_id f = i\<close> show ?thesis
      by (simp only: map_filter_Cons option.case append.simps filter.simps if_True list.map)
  qed
qed (simp add: List.map_filter_def)

lemma explicit_file_mem:
  "f \<in> set (explicit_files tops locked ps rf) \<Longrightarrow>
   f \<in> set locked \<and> f_id f \<in> set rf \<and> f_id f \<notin> set (CollectCoveredFileIds tops (replan tops locked ps))"
  by (auto simp: explicit_files_def map_filter_mem dest: find_row_Some)

lemma covered_ids:
  assumes "p \<in> set (top_plans tops locked ps)" and "f \<in> set (pl_files p)"
  shows "f_id f \<in> set (CollectCoveredFileIds tops (replan tops locked ps))"
proof -
  from assms(1) obtain k where "k \<in> set tops" "map_of (replan tops locked ps) k = Some p"
    unfolding top_plans_mem by blast
  with assms(2) show ?thesis
    unfolding CollectCoveredFileIds_def set_concat set_map image_image by (intro UN_I [of k]) simp_all
qed

lemma replan_folders:
  assumes "map_of (replan tops fs ps) k = Some p" and "k \<in> set tops"
  shows "pl_folders p = plan_rows ps k \<and> pl_files p = filter (\<lambda>f. f_folder_id f \<in> d_id ` set (pl_folders p)) fs"
proof -
  from assms obtain q where "map_of ps k = Some q"
    and "p = q\<lparr>pl_files := filter (\<lambda>f. f_folder_id f \<in> set (plan_folder_ids q)) fs,
              pl_item_size := sum_list (map f_size (filter (\<lambda>f. f_folder_id f \<in> set (plan_folder_ids q)) fs))\<rparr>"
    unfolding replan_lookup by (cases "map_of ps k") simp_all
  then show ?thesis by (simp add: plan_rows_def plan_folder_ids_def)
qed

lemma moved_files_distinct:
  assumes cover: "plans_cover ps rd uid d" and fold: "distinct (map d_id (folders d))" and lk: "distinct (map f_id locked)"
    and rf: "distinct rf" and rd: "distinct rd"
  defines "tops \<equiv> FilterCoveredFolderIds rd ps"
  shows "distinct (moved_files tops locked ps rf)"
proof -
  have "distinct (map f_id (explicit_files tops locked ps rf))"
    using rf by (simp add: explicit_files_def explicit_ids)
  then have "distinct (explicit_files tops locked ps rf)"
    by (rule distinct_of_keys)
  moreover have "distinct (concat (map pl_files (top_plans tops locked ps)))"
    unfolding top_plans_def
  proof (rule plan_files_distinct [OF cover fold distinct_of_keys [OF lk], where all = tops])
    show "distinct tops" using rd by (simp add: tops_def FilterCoveredFolderIds_def)
    show "\<forall>k p. map_of (replan tops locked ps) k = Some p \<longrightarrow> k \<in> set tops \<longrightarrow>
        pl_folders p = plan_rows ps k \<and> pl_files p = filter (\<lambda>f. f_folder_id f \<in> d_id ` set (pl_folders p)) locked"
      using replan_folders by blast
  qed (simp_all add: tops_def)
  moreover have "set (explicit_files tops locked ps rf) \<inter> set (concat (map pl_files (top_plans tops locked ps))) = {}"
    using explicit_file_mem [of _ tops locked ps rf] covered_ids [of _ tops locked ps] by auto
  ultimately show ?thesis
    by (simp add: moved_files_def)
qed

section \<open>The invariant\<close>

lemma db_inv_moved:
  assumes inv: "db_inv d" and fs: "distinct fs" "set fs \<subseteq> set (files d)" "set file_ids = f_id ` set fs"
    and acc: "accounts_for uid (new_trash_rows d uid (seq_trash d) items) fs"
    and items: "\<forall>item \<in> set items. ti_item_type item \<in> {''file'', ''folder''} \<and> ti_item_name item \<noteq> []"
    and ds: "map folder_ident ds = map folder_ident (folders d)"
  shows "db_inv (moved_db uid items ds file_ids folder_ids ss ls d)"
proof -
  let ?rows = "new_trash_rows d uid (seq_trash d) items" and ?fs = "filter (\<lambda>f. f_id f \<notin> set file_ids) (files d)"
  let ?ts = "forgotten (f_id ` set (filter (\<lambda>f. f_id f \<in> set file_ids) (files d))) (upload_tasks d)"
  have keys: "distinct (map f_id (files d))"
    using inv by (simp add: db_inv_def files_inv_def)
  have taken: "total w (files d) = total w ?fs + total w fs" for w
    using total_taken [OF keys fs(2,1), of w] by (simp add: fs(3))
  note tot = accounts_for_totals [OF acc]
  have "accounts_inv (users d) ?ts ?fs (trash d @ ?rows)"
    using inv taken tot(2) by (simp add: db_inv_def accounts_inv_def account_ok_def reserved_forgotten)
  moreover have "contents_inv (file_contents d) (seq_contents d) ?fs (trash d @ ?rows)"
  proof -
    have "fst p \<in> fc_id ` set (file_contents d)" if "r \<in> set ?rows" "p \<in> set (released r)" for r p
    proof -
      from that have "p \<in> set (concat (map released ?rows))" by auto
      then have "p \<in> set (moved_refs fs)" using acc unfolding accounts_for_def by (simp only:)
      then show ?thesis using inv fs(2) by (auto simp: moved_refs_def db_inv_def contents_inv_def)
    qed
    then show ?thesis
      using inv taken tot(1) by (auto simp: db_inv_def contents_inv_def content_ok_def)
  qed
  moreover have "trash_inv (trash d @ ?rows) (seq_trash d + length items)"
  proof -
    have "trash_ok r" if "r \<in> set ?rows" for r
      using new_trash_rows_mem [OF that] items acc that by (auto simp: trash_ok_def new_trash_row_def accounts_for_def)
    moreover have "tr_id r \<in> set [Suc (seq_trash d)..<Suc (seq_trash d + length items)]" if "r \<in> set ?rows" for r
      using that by (metis image_eqI list.set_map new_trash_rows_ids)
    moreover have "distinct (map tr_id ?rows)"
      by (simp add: new_trash_rows_ids del: upt_Suc)
    ultimately show ?thesis
      using inv by (fastforce simp: db_inv_def trash_inv_def)
  qed
  moreover have "folders_inv (filter (\<lambda>r. d_id r \<notin> set folder_ids) ds) (seq_folders d)"
  proof -
    have "folders_inv ds (seq_folders d)"
      using inv folders_inv_cong [OF ds] by (simp add: db_inv_def)
    then show ?thesis by (auto simp: folders_inv_def distinct_map_filter)
  qed
  moreover have "files_inv ?fs (seq_files d)"
    using inv by (auto simp: db_inv_def files_inv_def distinct_map_filter)
  ultimately show ?thesis
    using inv by (simp add: db_inv_def moved_db_def tasks_inv_forgotten chunks_inv_forgotten cleanup_inv_forgotten)
qed

lemma concat_map_single: "concat (map (\<lambda>x. [f x]) xs) = map f xs"
  by (induction xs) simp_all

text \<open>The rows written for explicit files and for plans account for exactly their files.\<close>

lemma new_rows_account:
  assumes ex: "\<And>f. f \<in> set ex \<Longrightarrow> 0 < f_content_id f \<and> f_user_id f = uid"
    and tp: "\<And>p. p \<in> set tp \<Longrightarrow> 0 < d_id (pl_root p) \<and> d_name (pl_root p) \<noteq> [] \<and>
        pl_item_size p = sum_list (map f_size (pl_files p)) \<and> list_all storable_file (pl_files p) \<and>
        (\<forall>f \<in> set (pl_files p). f_user_id f = uid)"
  shows "accounts_for uid (new_trash_rows d uid n (map file_item ex @ map folder_item tp)) (ex @ concat (map pl_files tp))"
proof -
  have append: "accounts_for uid (xs @ ys) (as @ bs)" if "accounts_for uid xs as" "accounts_for uid ys bs" for xs ys as bs
    using that by (auto simp: accounts_for_def moved_refs_def)
  have split: "new_trash_rows d uid n (xs @ ys) = new_trash_rows d uid n xs @ new_trash_rows d uid (n + length xs) ys" for xs ys n
    by (induction xs arbitrary: n) simp_all
  have one: "accounts_for uid [new_trash_row d uid i (file_item f)] [f]" if "f \<in> set ex" for i f
    using ex [OF that] by (simp add: accounts_for_def moved_refs_def released_file_item)
      (simp add: new_trash_row_def file_item_def)
  have plan: "accounts_for uid [new_trash_row d uid i (folder_item p)] (pl_files p)" if "p \<in> set tp" for i p
    using tp [OF that] by (simp add: accounts_for_def released_folder_item)
      (simp add: new_trash_row_def folder_item_def moved_refs_def comp_def)
  have fs: "accounts_for uid (new_trash_rows d uid n (map file_item xs)) xs" if "set xs \<subseteq> set ex" for xs n
    using that
  proof (induction xs arbitrary: n)
    case (Cons x xs)
    from append [OF one Cons.IH] Cons.prems show ?case by simp
  qed (simp add: accounts_for_def moved_refs_def)
  have ps: "accounts_for uid (new_trash_rows d uid n (map folder_item xs)) (concat (map pl_files xs))" if "set xs \<subseteq> set tp" for xs n
    using that
  proof (induction xs arbitrary: n)
    case (Cons x xs)
    from append [OF plan Cons.IH] Cons.prems show ?case by simp
  qed (simp add: accounts_for_def moved_refs_def)
  show ?thesis
    unfolding split by (rule append [OF fs ps]) simp_all
qed

lemma move_tx_facts:
  assumes run: "move_tx ord rf rd uid T s = (Inr (Inr res), s')" and tx: "in_tx T" and inv: "db_inv (sdb s)"
    and req: "distinct rf" "distinct rd"
  obtains fs items ds ss ls where "distinct fs" "set fs \<subseteq> set (files (sdb s))"
    "accounts_for uid (new_trash_rows (sdb s) uid (seq_trash (sdb s)) items) fs"
    "\<forall>item \<in> set items. ti_item_type item \<in> {''file'', ''folder''} \<and> ti_item_name item \<noteq> []"
    "\<forall>item \<in> set items. ti_item_type item = ''file'' \<longrightarrow> (\<exists>f \<in> set fs. item = file_item f)"
    "map folder_ident ds = map folder_ident (folders (sdb s))" "mr_deleted_count res = length items"
    "mr_removed_file_ids res = normalize_ids (map f_id fs)"
    "sdb s' = moved_db uid items ds (mr_removed_file_ids res) (mr_removed_folder_ids res) ss ls (sdb s)"
proof -
  let ?d = "sdb s"
  let ?ps = "plans_of ord rd uid ?d"
  let ?tops = "FilterCoveredFolderIds rd ?ps"
  have fi: "distinct (map f_id (files ?d))" "\<And>f. f \<in> set (files ?d) \<Longrightarrow> 0 < f_id f \<and> f_name f \<noteq> []"
    and di: "distinct (map d_id (folders ?d))" "\<And>r. r \<in> set (folders ?d) \<Longrightarrow> 0 < d_id r \<and> d_name r \<noteq> []"
    using inv by (auto simp: db_inv_def files_inv_def folders_inv_def)
  have ci: "0 < f_content_id f" if "f \<in> set (files ?d)" for f
    using inv that by (fastforce simp: db_inv_def contents_inv_def)
  obtain locked ds ss ls where
    cover: "plans_cover ?ps rd uid ?d" and lk: "distinct (map f_id locked)"
    and set_locked: "set locked = {f \<in> set (files ?d). f_id f \<in> set rf \<union> set (CollectCoveredFileIds ?tops ?ps) \<and> f_user_id f = uid}"
    and ds: "map folder_ident ds = map folder_ident (folders ?d)"
    and cnt: "mr_deleted_count res = length (explicit_files ?tops locked ?ps rf) + length (top_plans ?tops locked ?ps)"
    and ids: "mr_removed_file_ids res = normalize_ids (map f_id (moved_files ?tops locked ?ps rf))"
    and s': "sdb s' = moved_db uid (map file_item (explicit_files ?tops locked ?ps rf) @ map folder_item (top_plans ?tops locked ?ps)) ds
       (mr_removed_file_ids res) (mr_removed_folder_ids res) ss ls ?d"
    by (rule move_tx_ok [OF run tx fi(1)])
  have locked: "f \<in> set (files ?d) \<and> f_user_id f = uid" if "f \<in> set locked" for f
    using that set_locked by simp
  let ?ex = "explicit_files ?tops locked ?ps rf" and ?tp = "top_plans ?tops locked ?ps"
  note plan = top_plan_facts [OF _ cover]
  have pf: "f \<in> set locked \<and> f_folder_id f \<in> d_id ` set (folders ?d)" if "p \<in> set ?tp" "f \<in> set (pl_files p)" for p f
    using that plan(1) [OF that(1)] plan(5) [OF that(1)] by auto
  have ex: "f \<in> set locked" if "f \<in> set ?ex" for f
    using explicit_file_mem [OF that] by simp
  have mem: "set (moved_files ?tops locked ?ps rf) \<subseteq> set (files ?d)"
    using ex pf locked by (auto simp: moved_files_def)
  have root: "0 < d_id (pl_root p) \<and> d_name (pl_root p) \<noteq> []" if "p \<in> set ?tp" for p
    by (rule di(2) [OF plan(5) [OF that plan(3) [OF that]]])
  have store: "storable_file f" if "p \<in> set ?tp" "f \<in> set (pl_files p)" for p f
    using pf [OF that] locked fi(2) ci di(2) by (auto simp: storable_file_def)
  have "accounts_for uid (new_trash_rows ?d uid (seq_trash ?d) (map file_item ?ex @ map folder_item ?tp)) (moved_files ?tops locked ?ps rf)"
    unfolding moved_files_def
    by (rule new_rows_account) (use ex locked ci root plan(2) store pf in \<open>simp_all add: list_all_iff\<close>)
  moreover have "\<forall>item \<in> set (map file_item ?ex @ map folder_item ?tp). ti_item_type item \<in> {''file'', ''folder''} \<and> ti_item_name item \<noteq> []"
    using ex locked fi(2) root by (auto simp: file_item_def folder_item_def)
  moreover have "\<forall>item \<in> set (map file_item ?ex @ map folder_item ?tp). ti_item_type item = ''file'' \<longrightarrow>
      (\<exists>f \<in> set (moved_files ?tops locked ?ps rf). item = file_item f)"
    by (auto simp: folder_item_def moved_files_def)
  ultimately show ?thesis
    using that [OF moved_files_distinct [OF cover di(1) lk req] mem _ _ _ ds _ ids s'] cnt by simp
qed

lemma move_tx_inv:
  assumes "move_tx ord rf rd uid T s = (Inr (Inr res), s')" and "in_tx T" and inv: "db_inv (sdb s)"
    and "distinct rf" "distinct rd"
  shows "db_inv (sdb s')"
  using assms
proof (rule move_tx_facts)
  fix fs items ds ss ls
  assume "distinct fs" "set fs \<subseteq> set (files (sdb s))"
    "accounts_for uid (new_trash_rows (sdb s) uid (seq_trash (sdb s)) items) fs"
    "\<forall>item \<in> set items. ti_item_type item \<in> {''file'', ''folder''} \<and> ti_item_name item \<noteq> []"
    "map folder_ident ds = map folder_ident (folders (sdb s))"
    "mr_removed_file_ids res = normalize_ids (map f_id fs)"
    "sdb s' = moved_db uid items ds (mr_removed_file_ids res) (mr_removed_folder_ids res) ss ls (sdb s)"
  then show ?thesis
    using db_inv_moved [OF inv, of fs "mr_removed_file_ids res" uid items ds "mr_removed_folder_ids res" ss ls] by simp
qed

lemma forget_evolves: "tasks_evolve ts (forgotten ids ts)"
  unfolding tasks_evolve_def
proof
  fix r assume "r \<in> set ts"
  then have "(if refers_to ids r then forget_file r else r) \<in> set (forgotten ids ts)" by (auto simp: mem_update_where)
  moreover have "task_evolves r (if refers_to ids r then forget_file r else r)"
    by (simp add: task_evolves_def status_path_def same_lease_def frozen_def) (simp add: forget_file_def)
  ultimately show "\<exists>r' \<in> set (forgotten ids ts). task_evolves r r'" by blast
qed

lemma move_tx_evolves:
  assumes "move_tx ord rf rd uid T s = (Inr (Inr res), s')" and "in_tx T" and "db_inv (sdb s)"
  shows "tasks_evolve (upload_tasks (sdb s)) (upload_tasks (sdb s'))"
proof -
  have "distinct (map f_id (files (sdb s)))" using assms(3) by (simp add: db_inv_def files_inv_def)
  then show ?thesis
    by (rule move_tx_ok [OF assms(1,2)]) (simp add: moved_db_def forget_evolves)
qed

end
