(* ===== verification/Drive_Changes.thy ===== *)
theory Drive_Changes
  imports File_Mutation Trash_Accounts
begin

text \<open>
  Creating, renaming and moving change names and places only.  The transactions are sequences
  of statements that keep the identity of every file (owner, content, size) and the uniqueness
  of names, so the invariant holds after them.
\<close>

section \<open>Statements in a transaction\<close>

lemma keeps_tx_exec:
  assumes "in_tx T" and "\<And>d v d'. P d \<Longrightarrow> q d = (Inr v, d') \<Longrightarrow> P d'"
  shows "keeps P (exec T q)"
  using assms by (auto simp: keeps_def exec_def Let_def split: prod.splits sum.splits)

lemma keeps_tx_read: "in_tx T \<Longrightarrow> keeps P (exec T (pureS f))"
  by (rule keeps_tx_exec) auto

lemma keeps_fetch_tree: "in_tx T \<Longrightarrow> keeps P (exec T (fetch_tree_stmt ids uid))"
  by (rule keeps_tx_exec) (auto simp: fetch_tree_stmt_def split: option.splits)

lemma keeps_each_chunk_tx: "(\<And>c. keeps P (f c)) \<Longrightarrow> keeps P (each_chunk f cs)"
  by (induction cs) (simp_all add: keeps_intros)

lemma keeps_lock_names: "(\<And>n. keeps P (lock n)) \<Longrightarrow> keeps P (lock_names lock ns)"
  by (induction ns) (simp_all add: keeps_intros)

lemma keeps_drive_reads:
  assumes "in_tx T"
  shows "keeps P (FindOwnedFolder T i uid)" "keeps P (FindOwnedFolderForUpdate T i uid)"
    "keeps P (Folder_AcquireNameLock T uid i nm)" "keeps P (File_AcquireNameLock T uid i nm)"
    "keeps P (Folder_NameExistsExcluding T nm i uid k)" "keeps P (File_NameExistsExcluding T nm i uid k)"
    "keeps P (FetchFolderSubtree T i uid)" "keeps P (FetchFilesInFolders T ids uid)"
    "keeps P (FindOwnedFileForUpdate T i uid)" "keeps P (FetchOwnedFilesByIdsForUpdate T ids uid)"
    "keeps P (QueryOccupiedNames T i uid ns)" "keeps P (QueryOccupiedFolderNames T i uid ns)"
    "keeps P (ResolveOwnedFolderLocation T i uid)" "keeps P (FetchBatchFolderDeletePlans ord T ids uid)"
    "keeps P (lock_each T uid ids)"
proof -
  note defs = FindOwnedFolder_def FindOwnedFolderForUpdate_def Folder_AcquireNameLock_def File_AcquireNameLock_def
    Folder_NameExistsExcluding_def File_NameExistsExcluding_def FetchFolderSubtree_def FetchFilesInFolders_def
    FindOwnedFileForUpdate_def FetchOwnedFilesByIdsForUpdate_def QueryOccupiedNames_def QueryOccupiedFolderNames_def
    ResolveOwnedFolderLocation_def
  show "keeps P (FindOwnedFolder T i uid)" "keeps P (FindOwnedFolderForUpdate T i uid)"
    "keeps P (Folder_AcquireNameLock T uid i nm)" "keeps P (File_AcquireNameLock T uid i nm)"
    "keeps P (Folder_NameExistsExcluding T nm i uid k)" "keeps P (File_NameExistsExcluding T nm i uid k)"
    "keeps P (FetchFolderSubtree T i uid)" "keeps P (FindOwnedFileForUpdate T i uid)"
    "keeps P (FetchOwnedFilesByIdsForUpdate T ids uid)"
    "keeps P (QueryOccupiedNames T i uid ns)" "keeps P (QueryOccupiedFolderNames T i uid ns)"
    "keeps P (ResolveOwnedFolderLocation T i uid)"
    unfolding defs by (intro keeps_intros keeps_tx_read keeps_fetch_tree keeps_each_chunk_tx assms)+
  show files: "keeps P (FetchFilesInFolders T ids uid)" for ids
    unfolding defs by (intro keeps_intros keeps_tx_read assms)
  show "keeps P (FetchBatchFolderDeletePlans ord T ids uid)"
    unfolding FetchBatchFolderDeletePlans_def Let_def by (intro keeps_intros keeps_fetch_tree files assms)
  show "keeps P (lock_each T uid ids)"
    by (induction ids) (simp_all add: keeps_intros FindOwnedFolderForUpdate_def keeps_tx_read assms)
qed

section \<open>Relocation\<close>

text \<open>The columns of a file that tell which bytes of whom it is.\<close>

definition file_ident :: "file_row \<Rightarrow> nat \<times> nat \<times> nat \<times> nat" where
  "file_ident f = (f_id f, f_user_id f, f_content_id f, f_size f)"

definition relocates :: "'w db \<Rightarrow> 'w db \<Rightarrow> bool" where
  "relocates d d' \<longleftrightarrow>
     (\<exists>fs ds n. d' = d\<lparr>files := fs, folders := ds, seq_folders := n\<rparr> \<and> map file_ident fs = map file_ident (files d) \<and>
        files_inv fs (seq_files d) \<and> folders_inv ds n \<and> seq_folders d \<le> n)"

lemma relocatesI:
  "d' = d\<lparr>files := fs, folders := ds, seq_folders := n\<rparr> \<Longrightarrow> map file_ident fs = map file_ident (files d) \<Longrightarrow>
   files_inv fs (seq_files d) \<Longrightarrow> folders_inv ds n \<Longrightarrow> seq_folders d \<le> n \<Longrightarrow> relocates d d'"
  unfolding relocates_def by blast

lemma relocates_refl: "db_inv d \<Longrightarrow> relocates d d"
  by (auto simp: relocates_def db_inv_def intro!: exI [of _ "files d"] exI [of _ "folders d"] exI [of _ "seq_folders d"])

lemma relocatesE:
  assumes "relocates d d'"
  obtains fs ds n where "d' = d\<lparr>files := fs, folders := ds, seq_folders := n\<rparr>" "map file_ident fs = map file_ident (files d)"
    "files_inv fs (seq_files d)" "folders_inv ds n" "seq_folders d \<le> n"
  using assms unfolding relocates_def by blast

lemma total_of_idents:
  assumes "map file_ident fs = map file_ident gs"
  shows "total (file_bytes_of u) fs = total (file_bytes_of u) gs" "total (refs_in_file c) fs = total (refs_in_file c) gs"
proof -
  have "map (file_bytes_of u) xs = map (\<lambda>(i, w, c, n). if w = u then int n else 0) (map file_ident xs)"
    "map (refs_in_file c) xs = map (\<lambda>(i, w, k, n). if k = c then 1 else 0) (map file_ident xs)" for xs
    by (simp_all add: file_ident_def file_bytes_of_def refs_in_file_def)
  then show "total (file_bytes_of u) fs = total (file_bytes_of u) gs" "total (refs_in_file c) fs = total (refs_in_file c) gs"
    unfolding total_def using assms by metis+
qed

lemma contents_of_idents:
  assumes "map file_ident fs = map file_ident gs"
  shows "f_content_id ` set fs = f_content_id ` set gs"
proof -
  have "f_content_id ` set xs = (\<lambda>(i, w, c, n). c) ` set (map file_ident xs)" for xs
    by (auto simp: file_ident_def image_image)
  then show ?thesis using assms by metis
qed

lemma relocates_inv:
  assumes inv: "db_inv d" and rel: "relocates d d'"
  shows "db_inv d'"
proof -
  from rel obtain fs ds n where d': "d' = d\<lparr>files := fs, folders := ds, seq_folders := n\<rparr>"
    and ids: "map file_ident fs = map file_ident (files d)" and "files_inv fs (seq_files d)" "folders_inv ds n"
    by (rule relocatesE)
  moreover have "accounts_inv (users d) (upload_tasks d) fs (trash d)"
    using inv by (simp add: db_inv_def accounts_inv_def account_ok_def total_of_idents [OF ids])
  moreover have "contents_inv (file_contents d) (seq_contents d) fs (trash d)"
  proof -
    have "f_content_id ` set (files d) \<subseteq> fc_id ` set (file_contents d)"
      using inv by (auto simp: db_inv_def contents_inv_def)
    then have "\<forall>f \<in> set fs. f_content_id f \<in> fc_id ` set (file_contents d)"
      unfolding contents_of_idents [OF ids, symmetric] by blast
    moreover have "content_ok fs (trash d) c \<longleftrightarrow> content_ok (files d) (trash d) c" for c
      by (simp add: content_ok_def total_of_idents [OF ids])
    ultimately show ?thesis using inv by (simp add: db_inv_def contents_inv_def)
  qed
  ultimately show ?thesis using inv by (simp add: db_inv_def)
qed

section \<open>The statements relocate\<close>

lemma distinct_by_key:
  assumes "distinct (map key xs)" and "\<And>x y. x \<in> set xs \<Longrightarrow> y \<in> set xs \<Longrightarrow> other_key x = other_key y \<Longrightarrow> key x = key y"
  shows "distinct (map other_key xs)"
proof -
  have "distinct xs" and inj: "inj_on key (set xs)" using assms(1) by (simp_all add: distinct_map)
  moreover have "inj_on other_key (set xs)"
    by (rule inj_onI) (rule inj_onD [OF inj], rule assms(2))
  ultimately show ?thesis by (simp add: distinct_map)
qed

lemma files_inv_update:
  assumes inv: "files_inv fs n" and upd: "\<And>f. file_ident (upd f) = file_ident f" "\<And>f. f_name f \<noteq> [] \<Longrightarrow> f_name (upd f) \<noteq> []"
    and free: "\<And>f x. f \<in> set fs \<Longrightarrow> owned_file i uid f \<Longrightarrow> x \<in> set fs \<Longrightarrow> f_id x \<noteq> f_id f \<Longrightarrow> file_key x \<noteq> file_key (upd f)"
  shows "files_inv (update_where (owned_file i uid) upd fs) n"
proof -
  let ?fs = "update_where (owned_file i uid) upd fs"
  have id: "f_id (upd f) = f_id f" for f using upd(1) [of f] by (simp add: file_ident_def)
  then have ids: "map f_id ?fs = map f_id fs" by (simp add: update_where_def)
  have keys: "inj_on f_id (set fs)" "inj_on file_key (set fs)" using inv by (simp_all add: files_inv_def distinct_map)
  have "f_id x = f_id y" if "x \<in> set ?fs" "y \<in> set ?fs" and k: "file_key x = file_key y" for x y
  proof -
    from that obtain f g where f: "f \<in> set fs" "x = (if owned_file i uid f then upd f else f)"
      and g: "g \<in> set fs" "y = (if owned_file i uid g then upd g else g)"
      unfolding mem_update_where by blast
    have "f_id f = f_id g"
    proof (rule ccontr)
      assume ne: "f_id f \<noteq> f_id g"
      with k f g free [of f g] free [of g f] show False
        by (auto simp: owned_file_def split: if_splits dest: inj_onD [OF keys(2)])
    qed
    with f(2) g(2) id show ?thesis by simp
  qed
  moreover have "distinct (map f_id ?fs)" unfolding ids using inv by (simp add: files_inv_def)
  ultimately have "distinct (map file_key ?fs)" by (rule distinct_by_key [rotated])
  with inv ids id upd(2) show ?thesis
    by (auto simp: files_inv_def mem_update_where split: if_splits)
qed

lemma idents_update: "(\<And>f. file_ident (upd f) = file_ident f) \<Longrightarrow> map file_ident (update_where p upd fs) = map file_ident fs"
  by (simp add: update_where_def)

lemma relocates_update_file:
  assumes "relocates d0 d" and "update_file i uid upd d = (Inr b, d')"
    and upd: "\<And>f. file_ident (upd f) = file_ident f" "\<And>f. f_name f \<noteq> [] \<Longrightarrow> f_name (upd f) \<noteq> []"
  shows "relocates d0 d'"
proof -
  from assms(1) obtain fs ds n where d: "d = d0\<lparr>files := fs, folders := ds, seq_folders := n\<rparr>"
    and ids: "map file_ident fs = map file_ident (files d0)" "files_inv fs (seq_files d0)" "folders_inv ds n" "seq_folders d0 \<le> n"
    by (rule relocatesE)
  from assms(2) have free: "\<not> named_file (f_user_id (upd f)) (f_folder_id (upd f)) (f_name (upd f)) x"
    if "f \<in> set fs" "owned_file i uid f" "x \<in> set fs" "f_id x \<noteq> f_id f" for f x
    using that d by (auto simp: update_file_def list_ex_iff split: if_splits)
  have d': "d' = d0\<lparr>files := update_where (owned_file i uid) upd fs, folders := ds, seq_folders := n\<rparr>"
    using assms(2) d by (auto simp: update_file_def split: if_splits)
  have "files_inv (update_where (owned_file i uid) upd fs) (seq_files d0)"
    using ids(2) upd free by (intro files_inv_update) (auto simp: file_key_def named_file_def)
  with d' ids show ?thesis
    using idents_update [of upd, OF upd(1)] by (intro relocatesI [OF d']) simp_all
qed

lemma relocates_update_folder:
  assumes "relocates d0 d" and "update_folder i uid upd d = (Inr b, d')"
    and upd: "\<And>r. d_id (upd r) = d_id r" "\<And>r. d_name r \<noteq> [] \<Longrightarrow> d_name (upd r) \<noteq> []"
  shows "relocates d0 d'"
proof -
  from assms(1) obtain fs ds n where d: "d = d0\<lparr>files := fs, folders := ds, seq_folders := n\<rparr>"
    and ids: "map file_ident fs = map file_ident (files d0)" "files_inv fs (seq_files d0)" "folders_inv ds n" "seq_folders d0 \<le> n"
    by (rule relocatesE)
  let ?ds = "update_where (owned_folder i uid) upd ds"
  have "map d_id ?ds = map d_id ds" by (simp add: update_where_def upd(1))
  then have "folders_inv ?ds n" using ids(3) upd by (auto simp: folders_inv_def mem_update_where split: if_splits)
  moreover have "d' = d0\<lparr>files := fs, folders := ?ds, seq_folders := n\<rparr>"
    using assms(2) d by (auto simp: update_folder_def split: if_splits)
  ultimately show ?thesis using ids by (intro relocatesI)
qed

lemma relocates_insert:
  assumes "relocates d0 d" and "insert_if_available r d = (Inr x, d')" and "d_name r \<noteq> []"
  shows "relocates d0 d'"
proof -
  from assms(1) obtain fs ds n where d: "d = d0\<lparr>files := fs, folders := ds, seq_folders := n\<rparr>"
    and ids: "map file_ident fs = map file_ident (files d0)" "files_inv fs (seq_files d0)" "folders_inv ds n" "seq_folders d0 \<le> n"
    by (rule relocatesE)
  have "folders_inv (ds @ [r\<lparr>d_id := Suc n\<rparr>]) (Suc n)"
    using ids(3) assms(3) by (fastforce simp: folders_inv_def)
  moreover have "d' = d \<or> d' = d0\<lparr>files := fs, folders := ds @ [r\<lparr>d_id := Suc n\<rparr>], seq_folders := Suc n\<rparr>"
    using assms(2) d by (auto simp: insert_if_available_def Let_def split: if_splits)
  moreover have "relocates d0 (d0\<lparr>files := fs, folders := ds @ [r\<lparr>d_id := Suc n\<rparr>], seq_folders := Suc n\<rparr>)"
    using ids calculation(1) by (intro relocatesI [OF refl]) simp_all
  ultimately show ?thesis using assms(1) by blast
qed

lemma relocates_count:
  assumes "relocates d0 d"
  shows "relocates d0 (d\<lparr>folders := update_where (owned_folder i uid) (\<lambda>r. r\<lparr>d_item_count := g r\<rparr>) (folders d)\<rparr>)"
proof -
  from assms obtain fs ds n where d: "d = d0\<lparr>files := fs, folders := ds, seq_folders := n\<rparr>"
    and ids: "map file_ident fs = map file_ident (files d0)" "files_inv fs (seq_files d0)" "folders_inv ds n" "seq_folders d0 \<le> n"
    by (rule relocatesE)
  let ?ds = "update_where (owned_folder i uid) (\<lambda>r. r\<lparr>d_item_count := g r\<rparr>) ds"
  have "map d_id ?ds = map d_id ds" by (simp add: update_where_def)
  then have "folders_inv ?ds n" using ids(3) by (auto simp: folders_inv_def mem_update_where split: if_splits)
  with d ids show ?thesis by (intro relocatesI [where fs = fs and ds = ?ds and n = n]) simp_all
qed

section \<open>The transactions relocate\<close>

lemma keeps_ApplyItemCountDelta: "in_tx T \<Longrightarrow> keeps (relocates d0) (ApplyItemCountDelta T i uid n)"
  unfolding ApplyItemCountDelta_def by (rule keeps_tx_exec) (auto intro: relocates_count)

lemma keeps_update_file:
  "in_tx T \<Longrightarrow> keeps (relocates d0) (UpdateFilePath T i uid p)"
  "in_tx T \<Longrightarrow> keeps (relocates d0) (UpdateFileLocation T i uid k p)"
  "in_tx T \<Longrightarrow> nm \<noteq> [] \<Longrightarrow> keeps (relocates d0) (RenameOwnedFile T i uid nm e p)"
  unfolding UpdateFilePath_def UpdateFileLocation_def RenameOwnedFile_def
  by (rule keeps_tx_exec, assumption, erule (1) relocates_update_file, simp_all add: file_ident_def)+

lemma keeps_update_folder:
  "in_tx T \<Longrightarrow> keeps (relocates d0) (UpdateFolderPath T i uid p)"
  "in_tx T \<Longrightarrow> keeps (relocates d0) (UpdateFolderPathForMove T i uid p k)"
  "in_tx T \<Longrightarrow> keeps (relocates d0) (UpdateFolderLocationForMove T i uid t p k)"
  "in_tx T \<Longrightarrow> nm \<noteq> [] \<Longrightarrow> keeps (relocates d0) (RenameFolderPath T i uid nm p)"
  unfolding UpdateFolderPath_def UpdateFolderPathForMove_def UpdateFolderLocationForMove_def RenameFolderPath_def
  by (rule keeps_tx_exec, assumption, erule (1) relocates_update_folder, simp_all)+

lemma keeps_InsertIfNameAvailable: "in_tx T \<Longrightarrow> d_name r \<noteq> [] \<Longrightarrow> keeps (relocates d0) (InsertIfNameAvailable T r)"
  unfolding InsertIfNameAvailable_def by (rule keeps_tx_exec, assumption, erule (2) relocates_insert)

lemma keeps_repath_files: "in_tx T \<Longrightarrow> keeps (relocates d0) (repath_files T uid err ps fs)"
  by (induction fs) (auto intro!: keeps_intros keeps_update_file split: option.split)

lemma keeps_rename_subtree:
  "in_tx T \<Longrightarrow> nm \<noteq> [] \<Longrightarrow> keeps (relocates d0) (rename_subtree T uid i nm np op rs)"
  by (induction rs) (auto intro!: keeps_intros keeps_update_folder)

lemma keeps_create_folder_tx:
  "in_tx T \<Longrightarrow> cf_name request \<noteq> [] \<Longrightarrow> keeps (relocates d0) (create_folder_tx request uid T)"
  unfolding create_folder_tx_def Let_def
  by (intro keeps_intros keeps_drive_reads keeps_ApplyItemCountDelta keeps_InsertIfNameAvailable) simp_all

lemma keeps_rename_folder_tx: "in_tx T \<Longrightarrow> nm \<noteq> [] \<Longrightarrow> keeps (relocates d0) (rename_folder_tx i nm uid T)"
  unfolding rename_folder_tx_def Let_def
  by (intro keeps_intros keeps_drive_reads keeps_rename_subtree keeps_repath_files)

lemma keeps_rename_file_tx: "in_tx T \<Longrightarrow> nm \<noteq> [] \<Longrightarrow> keeps (relocates d0) (rename_file_tx i nm uid T)"
  unfolding rename_file_tx_def Let_def
  by (intro keeps_intros keeps_drive_reads keeps_update_file)

lemma keeps_move_files: "in_tx T \<Longrightarrow> keeps (relocates d0) (move_files T uid t loc fetched ids occ ds n)"
  by (induction ids arbitrary: occ ds n)
     (auto intro!: keeps_intros keeps_update_file simp: Let_def split: option.split)

lemma keeps_apply_move_deltas: "in_tx T \<Longrightarrow> keeps (relocates d0) (apply_move_deltas T uid ds)"
  by (induction T uid ds rule: apply_move_deltas.induct) (auto intro!: keeps_intros keeps_ApplyItemCountDelta)

lemma keeps_move_file_batches: "in_tx T \<Longrightarrow> keeps (relocates d0) (move_file_batches ord T uid t loc fetched cs n)"
  by (induction cs arbitrary: n)
     (auto intro!: keeps_intros keeps_drive_reads keeps_move_files keeps_apply_move_deltas split: prod.split)

lemma keeps_move_all_files: "in_tx T \<Longrightarrow> keeps (relocates d0) (move_all_files ord T uid t loc ids)"
  unfolding move_all_files_def
  by (intro keeps_intros keeps_drive_reads keeps_lock_names keeps_move_file_batches)

lemma keeps_move_subtree: "in_tx T \<Longrightarrow> keeps (relocates d0) (move_subtree T uid t i np op k rs)"
  by (induction rs) (auto intro!: keeps_intros keeps_update_folder)

lemma keeps_move_folder: "in_tx T \<Longrightarrow> keeps (relocates d0) (move_folder T uid t loc p)"
  unfolding move_folder_def count_moved_def Let_def
  by (intro keeps_intros keeps_move_subtree keeps_repath_files keeps_ApplyItemCountDelta)

lemma keeps_move_folders: "in_tx T \<Longrightarrow> keeps (relocates d0) (move_folders T uid t loc ps ids occ n)"
  by (induction ids arbitrary: occ n) (auto intro!: keeps_intros keeps_move_folder split: option.split)

lemma keeps_move_items_tx: "in_tx T \<Longrightarrow> keeps (relocates d0) (move_items_tx ord fs ds t loc uid T)"
  unfolding move_items_tx_def Let_def
  by (intro keeps_intros keeps_drive_reads keeps_lock_names keeps_move_all_files keeps_move_folders)

lemma drive_tx_relocates:
  "create_folder_tx request uid T s = (r, s') \<Longrightarrow> in_tx T \<Longrightarrow> cf_name request \<noteq> [] \<Longrightarrow> db_inv (sdb s) \<Longrightarrow>
   relocates (sdb s) (sdb s')"
  "rename_folder_tx i nm uid T s = (q, s') \<Longrightarrow> in_tx T \<Longrightarrow> nm \<noteq> [] \<Longrightarrow> db_inv (sdb s) \<Longrightarrow> relocates (sdb s) (sdb s')"
  "rename_file_tx i nm uid T s = (p, s') \<Longrightarrow> in_tx T \<Longrightarrow> nm \<noteq> [] \<Longrightarrow> db_inv (sdb s) \<Longrightarrow> relocates (sdb s) (sdb s')"
  "move_items_tx ord fs ds t loc uid T s = (o', s') \<Longrightarrow> in_tx T \<Longrightarrow> db_inv (sdb s) \<Longrightarrow> relocates (sdb s) (sdb s')"
  by (rule keepsD' [OF keeps_create_folder_tx relocates_refl] keepsD' [OF keeps_rename_folder_tx relocates_refl]
      keepsD' [OF keeps_rename_file_tx relocates_refl] keepsD' [OF keeps_move_items_tx relocates_refl], assumption+)+

section \<open>The changes of the drive as actions\<close>

inductive drive_commits :: "'w session \<Rightarrow> 'w session \<Rightarrow> bool" where
  create_folder: "create_folder_tx request uid T s = (Inr (Inr r), s') \<Longrightarrow> in_tx T \<Longrightarrow> cf_name request \<noteq> [] \<Longrightarrow>
    drive_commits s s'"
| rename_folder: "rename_folder_tx i nm uid T s = (Inr (Inr p), s') \<Longrightarrow> in_tx T \<Longrightarrow> nm \<noteq> [] \<Longrightarrow> drive_commits s s'"
| rename_file: "rename_file_tx i nm uid T s = (Inr (Inr k), s') \<Longrightarrow> in_tx T \<Longrightarrow> nm \<noteq> [] \<Longrightarrow> drive_commits s s'"
| move_items: "move_items_tx ord (normalize_ids fs) (normalize_ids ds) t loc uid T s = (Inr (Inr m), s') \<Longrightarrow> in_tx T \<Longrightarrow>
    drive_commits s s'"

lemma drive_relocates: "drive_commits s s' \<Longrightarrow> db_inv (sdb s) \<Longrightarrow> relocates (sdb s) (sdb s')"
  by (induction rule: drive_commits.induct) (blast intro: drive_tx_relocates)+

lemma drive_inv: "drive_commits s s' \<Longrightarrow> db_inv (sdb s) \<Longrightarrow> db_inv (sdb s')"
  using drive_relocates relocates_inv by blast

text \<open>What no change of the drive touches.\<close>

lemma drive_frame:
  assumes "drive_commits s s'" and "db_inv (sdb s)"
  shows "upload_tasks (sdb s') = upload_tasks (sdb s)" "upload_task_chunks (sdb s') = upload_task_chunks (sdb s)"
    "trash (sdb s') = trash (sdb s)" "seq_trash (sdb s') = seq_trash (sdb s)" "task_cache (sdb s') = task_cache (sdb s)"
    "users (sdb s') = users (sdb s)" "file_contents (sdb s') = file_contents (sdb s)" "now (sdb s') = now (sdb s)"
    "storage_jobs (sdb s') = storage_jobs (sdb s)"
  using drive_relocates [OF assms] by (auto elim!: relocatesE)

end
