(* ===== verification/Upload_System.thy ===== *)
theory Upload_System
  imports Blob_Collection Drive_Changes
begin

text \<open>
  The upload and trash subsystems and the job workers of a cluster as a transition system on the shared state.  \<open>commits\<close> has
  one rule for every atomic action a session can take: a single statement, a committed
  transaction, a critical section on the task cache, a call of the object storage, the passing
  of time.  Sessions interleave at these actions.  The actions keep the invariant and let task
  rows evolve; the handlers are shown to consist of such actions only.
\<close>

section \<open>Atomic actions\<close>

definition cache_matches :: "string \<Rightarrow> UploadTaskCacheEntry \<Rightarrow> task_row \<Rightarrow> bool" where
  "cache_matches u e r \<longleftrightarrow>
     t_id r = u \<and> ce_user_id e = t_user_id r \<and> ce_file_size e = t_file_size r \<and>
     ce_chunk_size e = to_uint32 (t_chunk_size r) \<and> ce_total_chunks e = to_uint32 (t_total_chunks r) \<and>
     ParseUploadStagingBackend (t_staging_backend r) = Some (ss_backend (ce_staging_session e)) \<and>
     ss_prefix (ce_staging_session e) = row_prefix r \<and> ss_upload_id (ce_staging_session e) = u"

definition shrinks :: "(string \<rightharpoonup> UploadTaskCacheEntry) \<Rightarrow> (string \<rightharpoonup> UploadTaskCacheEntry) \<Rightarrow> bool" where
  "shrinks c c' \<longleftrightarrow> (\<forall>k. c' k = None \<or> c' k = c k)"

definition holds_task :: "string \<Rightarrow> task_row \<Rightarrow> 'w db \<Rightarrow> bool" where
  "holds_task u t d \<longleftrightarrow> (\<exists>r \<in> set (upload_tasks d). t_id r = u \<and> same_task t r)"

inductive commits :: "'w db \<Rightarrow> 'w db \<Rightarrow> bool" where
  time_passes: "now d \<le> t \<Longrightarrow> steady_now d \<le> u \<Longrightarrow> commits d (d\<lparr>now := t, steady_now := u\<rparr>)"
| object_storage: "commits d (d\<lparr>store := w\<rparr>)"
| cache_put: "cache_matches u e r \<Longrightarrow> r \<in> set (upload_tasks d) \<Longrightarrow>
    commits d (d\<lparr>task_cache := (task_cache d)(u \<mapsto> e)\<rparr>)"
| cache_erase: "shrinks (task_cache d) c \<Longrightarrow> commits d (d\<lparr>task_cache := c\<rparr>)"
| claim_lease: "claim_stmt u uid owner dur d = (x, d') \<Longrightarrow> commits d d'"
| renew_lease: "renew_stmt u uid owner v dur d = (x, d') \<Longrightarrow> commits d d'"
| note_error: "error_stmt u uid owner v code d = (x, d') \<Longrightarrow> commits d d'"
| record_chunk: "record_chunk_stmt u uid ex d = (Inr x, d') \<Longrightarrow> c_task_id ex = u \<Longrightarrow> commits d d'"
| record_finding: "commits d (d\<lparr>findings := fs\<rparr>)"
| enqueue_job: "enqueue_stmt job d = (Inr x, d') \<Longrightarrow> 0 < nj_max_attempts job \<Longrightarrow> commits d d'"
| rearm_job: "rearm_stmt job d = (Inr x, d') \<Longrightarrow> 0 < nj_max_attempts job \<Longrightarrow> commits d d'"
| exhaust_jobs: "exhaust_stmt d = (y, d') \<Longrightarrow> commits d d'"
| claim_jobs: "job_claim_stmt locked inst n dur d = (z, d') \<Longrightarrow> commits d d'"
| renew_job: "job_renew_stmt i inst dur d = (b, d') \<Longrightarrow> commits d d'"
| succeed_job: "job_succeed_stmt i inst d = (b, d') \<Longrightarrow> commits d d'"
| fail_job: "job_fail_stmt i inst err retryable delay d = (is, d') \<Longrightarrow> commits d d'"
| cancel_upload: "cancel_tx u uid T s = (Inr (Inr o'), s') \<Longrightarrow> in_tx T \<Longrightarrow> commits (sdb s) (sdb s')"
| expire_upload: "expire_tx u T s = (Inr (Inr o'), s') \<Longrightarrow> in_tx T \<Longrightarrow> commits (sdb s) (sdb s')"
| create_upload: "create_task_tx command (task_template command u n) session T s = (Inr (Inr rr), s') \<Longrightarrow> in_tx T \<Longrightarrow>
    ic_filename command \<noteq> [] \<Longrightarrow> commits (sdb s) (sdb s')"
| instant_upload: "instant_upload_tx command content T s = (Inr (Inr f), s') \<Longrightarrow> in_tx T \<Longrightarrow>
    ic_filename command \<noteq> [] \<Longrightarrow> commits (sdb s) (sdb s')"
| complete_upload: "complete_tx cc v t session assembled path dec T s = (Inr (Inr f), s') \<Longrightarrow> in_tx T \<Longrightarrow>
    holds_task (cc_upload_id cc) t (sdb s) \<Longrightarrow> ss_upload_id session = cc_upload_id cc \<Longrightarrow> commits (sdb s) (sdb s')"
| move_to_trash: "move_tx ord (normalize_ids fs) (normalize_ids ds) uid T s = (Inr (Inr m), s') \<Longrightarrow> in_tx T \<Longrightarrow>
    commits (sdb s) (sdb s')"
| restore_file: "restore_file_tx i uid k T s = (Inr (Inr w), s') \<Longrightarrow> in_tx T \<Longrightarrow> commits (sdb s) (sdb s')"
| restore_folder: "restore_folder_tx i uid k T s = (Inr (Inr w), s') \<Longrightarrow> in_tx T \<Longrightarrow> commits (sdb s) (sdb s')"
| purge_trash: "purge_tx ord items rv T s = (Inr (True, p), s') \<Longrightarrow> in_tx T \<Longrightarrow>
    holds_trash items (sdb s) \<Longrightarrow> hash_order_ok ord \<Longrightarrow> commits (sdb s) (sdb s')"
| collect_blob: "gc_tx W B job candidate T s = (Inr (True, jr), s') \<Longrightarrow> in_tx T \<Longrightarrow> commits (sdb s) (sdb s')"
| change_drive: "drive_commits s s' \<Longrightarrow> commits (sdb s) (sdb s')"

section \<open>The invariant\<close>

lemma claim_stmt_inv: "claim_stmt u uid owner dur d = (x, d') \<Longrightarrow> db_inv d \<Longrightarrow> db_inv d'"
  by (auto simp: claim_stmt_def db_inv_def claim.inv_steps)

lemma renew_stmt_inv: "renew_stmt u uid owner v dur d = (x, d') \<Longrightarrow> db_inv d \<Longrightarrow> db_inv d'"
  by (auto simp: renew_stmt_def Let_def db_inv_def renew.inv_steps)

lemma error_stmt_inv: "error_stmt u uid owner v code d = (x, d') \<Longrightarrow> db_inv d \<Longrightarrow> db_inv d'"
  by (auto simp: error_stmt_def Let_def db_inv_def error.inv_steps)

lemma chunk_merge_simps [simp]:
  "chunk_key (chunk_merge ex c) = chunk_key c" "c_task_id (chunk_merge ex c) = c_task_id c"
  "c_chunk_index (chunk_merge ex c) = c_chunk_index c"
  by (simp_all add: chunk_merge_def chunk_key_def)

lemma chunk_merge_checks: "chunk_checks c \<Longrightarrow> chunk_checks ex \<Longrightarrow> chunk_checks (chunk_merge ex c)"
  by (auto simp: chunk_checks_def chunk_merge_def coalesce_def split: option.splits)

interpretation chunk_upd: keyed_update chunk_key guard "chunk_merge ex" for guard ex
  by unfold_locales simp

lemma record_chunk_stmt_inv:
  assumes "record_chunk_stmt u uid ex d = (Inr x, d')" and "c_task_id ex = u" and inv: "db_inv d"
  shows "db_inv d'"
proof -
  have ci: "chunks_inv (upload_tasks d) (upload_task_chunks d)"
    using inv by (simp add: db_inv_def)
  have act: "active_task (upload_tasks d) (c_task_id ex)" if "list_ex (cancel_guard (now d) u uid) (upload_tasks d)"
    using that assms(2) by (auto simp: list_ex_iff active_task_def cancel_guard_def owned_task_def)
  have ins: "chunks_inv (upload_tasks d) (upload_task_chunks d @ [ex])"
    if "list_ex (cancel_guard (now d) u uid) (upload_tasks d)" "chunk_checks ex"
      "find_row (\<lambda>c. chunk_key c = chunk_key ex) (upload_task_chunks d) = None"
    using ci that act by (auto simp: chunks_inv_def find_row_None)
  have upd: "chunks_inv (upload_tasks d) (update_where (\<lambda>c. chunk_key c = chunk_key ex) (chunk_merge ex) (upload_task_chunks d))"
    if "chunk_checks ex"
    using ci that chunk_merge_checks unfolding chunks_inv_def
    by (simp add: chunk_upd.distinct_keys_update) (auto simp: mem_update_where)
  from assms(1) inv ins upd show ?thesis
    by (auto simp: record_chunk_stmt_def db_inv_def split: if_splits option.splits)
qed

lemmas action_invs = claim_stmt_inv renew_stmt_inv error_stmt_inv record_chunk_stmt_inv
  enqueue_stmt_inv rearm_stmt_inv exhaust_stmt_inv job_claim_stmt_inv job_renew_stmt_inv
  job_succeed_stmt_inv job_fail_stmt_inv cancel_tx_inv expire_tx_inv create_task_tx_inv instant_upload_tx_inv
  restore_file_tx_inv restore_folder_tx_inv gc_tx_inv drive_inv

lemma commits_inv: "commits d d' \<Longrightarrow> db_inv d \<Longrightarrow> db_inv d'"
proof (induction rule: commits.induct)
  case (complete_upload cc v t session assembled path dec T s f s')
  then show ?case
    by (auto simp: holds_task_def intro: complete_tx_inv)
next
  case (move_to_trash ord fs ds uid T s m s')
  then show ?case
    using move_tx_inv by (metis normalize_ids_props(2))
next
  case (purge_trash ord items rv T s p s')
  then show ?case
    using purge_tx_inv by metis
qed (simp, simp, simp, simp, (erule (1) action_invs | erule (2) action_invs | (erule action_invs, assumption+) | simp)+)

section \<open>Evolution\<close>

lemma ended_tasks [simp]: "upload_tasks (ended p f r session d) = update_where p f (upload_tasks d)"
  by (simp add: ended_def)

lemma completed_tasks [simp]:
  "upload_tasks (completed_from cc v b session cs' n' f ds e) =
     update_where (owns_lease (now e) (cc_upload_id cc) (cc_user_id cc) (cc_lease_owner cc) v)
       (complete_set (now e) (f_id f)) (upload_tasks e)"
  by (simp add: completed_from_def)

lemma renewed_evolves: "tasks_evolve (upload_tasks d) (upload_tasks (renewed cc v d))"
  by (simp add: renewed_def renew.table_evolves)

lemma complete_tx_evolves:
  assumes "complete_tx cc v t session assembled path dec T s = (Inr (Inr f), s')" and "in_tx T" and "db_inv (sdb s)"
  shows "tasks_evolve (upload_tasks (sdb s)) (upload_tasks (sdb s'))"
proof -
  have "contents_inv (file_contents (sdb s)) (seq_contents (sdb s)) (files (sdb s)) (trash (sdb s))"
    using assms(3) by (simp add: db_inv_def)
  from complete_tx_ok [OF assms(1,2) this] have "tasks_evolve (upload_tasks (renewed cc v (sdb s))) (upload_tasks (sdb s'))"
    by (auto simp: Let_def complete.table_evolves)
  with renewed_evolves show ?thesis
    by (rule tasks_evolve_trans)
qed

lemma cancel_tx_evolves:
  "cancel_tx u uid T s = (Inr (Inr x), s') \<Longrightarrow> in_tx T \<Longrightarrow> tasks_evolve (upload_tasks (sdb s)) (upload_tasks (sdb s'))"
  by (frule (1) cancel_tx_ok) (auto simp: cancel.table_evolves)

lemma expire_tx_evolves:
  "expire_tx u T s = (Inr (Inr x), s') \<Longrightarrow> in_tx T \<Longrightarrow> tasks_evolve (upload_tasks (sdb s)) (upload_tasks (sdb s'))"
  by (frule (1) expire_tx_ok) (auto simp: expire.table_evolves)

lemma create_task_tx_evolves:
  "create_task_tx c t session T s = (Inr (Inr x), s') \<Longrightarrow> in_tx T \<Longrightarrow> tasks_evolve (upload_tasks (sdb s)) (upload_tasks (sdb s'))"
  by (frule (1) create_task_tx_ok) (auto split: sum.splits)

lemma instant_upload_tx_evolves:
  "instant_upload_tx c m T s = (Inr (Inr f), s') \<Longrightarrow> in_tx T \<Longrightarrow> tasks_evolve (upload_tasks (sdb s)) (upload_tasks (sdb s'))"
  by (frule (1) instant_upload_tx_ok) (auto simp: filed_def)

text \<open>What the trash leaves alone of an upload: everything but the reference to a deleted file.\<close>

definition uploads_kept :: "'w db \<Rightarrow> 'w db \<Rightarrow> bool" where
  "uploads_kept d d' \<longleftrightarrow> (\<exists>ids. upload_tasks d' = forgotten ids (upload_tasks d)) \<and>
     upload_task_chunks d' = upload_task_chunks d \<and> task_cache d' = task_cache d"

lemma uploads_kept_same:
  "upload_tasks d' = upload_tasks d \<Longrightarrow> upload_task_chunks d' = upload_task_chunks d \<Longrightarrow> task_cache d' = task_cache d \<Longrightarrow>
   uploads_kept d d'"
  unfolding uploads_kept_def
  by (auto simp: update_where_def refers_to_def split: option.splits intro!: exI [of _ "{}"] map_idI [symmetric])

lemma move_tx_frame:
  assumes "move_tx ord rf rd uid T s = (Inr (Inr m), s')" and "in_tx T" and "db_inv (sdb s)"
  shows "uploads_kept (sdb s) (sdb s')"
proof -
  have "distinct (map f_id (files (sdb s)))" using assms(3) by (simp add: db_inv_def files_inv_def)
  then show ?thesis
    by (rule move_tx_ok [OF assms(1,2)]) (auto simp: uploads_kept_def moved_db_def)
qed

lemma restore_file_tx_frame:
  assumes "restore_file_tx i uid k T s = (Inr (Inr w), s')" and "in_tx T" and "db_inv (sdb s)"
  shows "upload_tasks (sdb s') = upload_tasks (sdb s) \<and> set (trash (sdb s')) \<subseteq> set (trash (sdb s)) \<and>
    seq_trash (sdb s') = seq_trash (sdb s) \<and> uploads_kept (sdb s) (sdb s')"
proof -
  obtain fid path where w: "w = (fid, path)" by (cases w)
  have "distinct (map tr_id (trash (sdb s)))" using assms(3) by (simp add: db_inv_def trash_inv_def)
  then show ?thesis
    by (rule restore_file_tx_ok [OF assms(1) [unfolded w] assms(2)]) (auto intro!: uploads_kept_same)
qed

lemma restore_folder_tx_frame:
  assumes "restore_folder_tx i uid k T s = (Inr (Inr w), s')" and "in_tx T" and "db_inv (sdb s)"
  shows "upload_tasks (sdb s') = upload_tasks (sdb s) \<and> set (trash (sdb s')) \<subseteq> set (trash (sdb s)) \<and>
    seq_trash (sdb s') = seq_trash (sdb s) \<and> uploads_kept (sdb s) (sdb s')"
  using assms by (rule restore_folder_tx_ok) (auto intro!: uploads_kept_same)

lemma purge_tx_frame:
  assumes "purge_tx ord items rv T s = (Inr (True, p), s')" and "in_tx T" and "db_inv (sdb s)"
    and "holds_trash items (sdb s)" and "hash_order_ok ord"
  shows "upload_tasks (sdb s') = upload_tasks (sdb s) \<and> set (trash (sdb s')) \<subseteq> set (trash (sdb s)) \<and>
    seq_trash (sdb s') = seq_trash (sdb s) \<and> uploads_kept (sdb s) (sdb s')"
proof -
  have "distinct (map tr_id (trash (sdb s)))" using assms(3) by (simp add: db_inv_def trash_inv_def)
  from purge_tx_ok [OF assms(1,2) this assms(4,5)] show ?thesis
    unfolding jobs_grown_def purged_def by (elim conjE exE) (auto intro!: uploads_kept_same)
qed

lemma trash_keeps_uploads:
  "restore_file_tx i uid k T s = (Inr (Inr w), s') \<Longrightarrow> in_tx T \<Longrightarrow> db_inv (sdb s) \<Longrightarrow> uploads_kept (sdb s) (sdb s')"
  "restore_folder_tx i uid k T s = (Inr (Inr w), s') \<Longrightarrow> in_tx T \<Longrightarrow> db_inv (sdb s) \<Longrightarrow> uploads_kept (sdb s) (sdb s')"
  "purge_tx ord items rv T s = (Inr (True, p), s') \<Longrightarrow> in_tx T \<Longrightarrow> holds_trash items (sdb s) \<Longrightarrow> hash_order_ok ord \<Longrightarrow>
   db_inv (sdb s) \<Longrightarrow> uploads_kept (sdb s) (sdb s')"
  by (drule (2) restore_file_tx_frame restore_folder_tx_frame purge_tx_frame | assumption | simp)+

lemma restore_tx_evolves:
  "restore_file_tx i uid k T s = (Inr (Inr w), s') \<Longrightarrow> in_tx T \<Longrightarrow> db_inv (sdb s) \<Longrightarrow>
   tasks_evolve (upload_tasks (sdb s)) (upload_tasks (sdb s'))"
  "restore_folder_tx i uid k T s = (Inr (Inr w), s') \<Longrightarrow> in_tx T \<Longrightarrow> db_inv (sdb s) \<Longrightarrow>
   tasks_evolve (upload_tasks (sdb s)) (upload_tasks (sdb s'))"
  by (drule (2) restore_file_tx_frame, simp) (drule (2) restore_folder_tx_frame, simp)

lemma purge_tx_evolves:
  "purge_tx ord items rv T s = (Inr (True, p), s') \<Longrightarrow> in_tx T \<Longrightarrow> db_inv (sdb s) \<Longrightarrow> holds_trash items (sdb s) \<Longrightarrow>
   hash_order_ok ord \<Longrightarrow> tasks_evolve (upload_tasks (sdb s)) (upload_tasks (sdb s'))"
  by (drule (4) purge_tx_frame) simp

text \<open>The statements that do not touch the task table.\<close>

lemma task_frame:
  "record_chunk_stmt u uid ex d = (x, d') \<Longrightarrow> upload_tasks d' = upload_tasks d"
  "enqueue_stmt job d = (b, d') \<Longrightarrow> upload_tasks d' = upload_tasks d"
  "rearm_stmt job d = (b, d') \<Longrightarrow> upload_tasks d' = upload_tasks d"
  "exhaust_stmt d = (y, d') \<Longrightarrow> upload_tasks d' = upload_tasks d"
  "job_claim_stmt locked inst n dur d = (z, d') \<Longrightarrow> upload_tasks d' = upload_tasks d"
  "job_renew_stmt i inst dur d = (b, d') \<Longrightarrow> upload_tasks d' = upload_tasks d"
  "job_succeed_stmt i inst d = (b, d') \<Longrightarrow> upload_tasks d' = upload_tasks d"
  "job_fail_stmt i inst err retryable delay d = (l, d') \<Longrightarrow> upload_tasks d' = upload_tasks d"
  by (auto simp: record_chunk_stmt_def enqueue_stmt_def insert_job_def rearm_stmt_def exhaust_stmt_def
      job_claim_stmt_def job_renew_stmt_def job_succeed_stmt_def job_fail_stmt_def Let_def
      split: if_splits option.splits)

lemma lease_stmts_evolve:
  "claim_stmt u uid owner dur d = (x, d') \<Longrightarrow> tasks_evolve (upload_tasks d) (upload_tasks d')"
  "renew_stmt u uid owner v dur d = (x, d') \<Longrightarrow> tasks_evolve (upload_tasks d) (upload_tasks d')"
  "error_stmt u uid owner v code d = (b, d') \<Longrightarrow> tasks_evolve (upload_tasks d) (upload_tasks d')"
  by (auto simp: claim_stmt_def renew_stmt_def error_stmt_def Let_def
      claim.table_evolves renew.table_evolves error.table_evolves)

lemmas action_evolves = lease_stmts_evolve cancel_tx_evolves expire_tx_evolves create_task_tx_evolves
  instant_upload_tx_evolves complete_tx_evolves move_tx_evolves restore_tx_evolves purge_tx_evolves

lemma commits_evolves: "commits d d' \<Longrightarrow> db_inv d \<Longrightarrow> tasks_evolve (upload_tasks d) (upload_tasks d')"
  by (induction rule: commits.induct) (simp_all add: action_evolves task_frame gc_tx_frame drive_frame)

section \<open>Closed properties and interleaving\<close>

text \<open>
  A property is closed if every action keeps it (on states that satisfy the invariant);
  \<open>cluster E\<close> says that the other sessions perform such actions only.
\<close>

definition closed :: "('w db \<Rightarrow> bool) \<Rightarrow> bool" where
  "closed P \<longleftrightarrow> (\<forall>d d'. db_inv d \<longrightarrow> P d \<longrightarrow> commits d d' \<longrightarrow> P d')"

definition cluster :: "'w client \<Rightarrow> bool" where
  "cluster E \<longleftrightarrow> (\<forall>n d. commits\<^sup>*\<^sup>* d (other E n d))"

definition inv_and :: "('w db \<Rightarrow> bool) \<Rightarrow> 'w db \<Rightarrow> bool" where
  "inv_and P d \<longleftrightarrow> db_inv d \<and> P d"

lemma inv_and_step: "closed P \<Longrightarrow> inv_and P d \<Longrightarrow> commits d d' \<Longrightarrow> inv_and P d'"
  by (auto simp: inv_and_def closed_def intro: commits_inv)

lemma inv_and_steps: "commits\<^sup>*\<^sup>* d d' \<Longrightarrow> closed P \<Longrightarrow> inv_and P d \<Longrightarrow> inv_and P d'"
  by (induction rule: rtranclp_induct) (auto intro: inv_and_step)

lemma stable_inv_and: "cluster E \<Longrightarrow> closed P \<Longrightarrow> stable (inv_and P) E"
  by (auto simp: stable_def cluster_def intro: inv_and_steps)

lemma closed_reach: "closed (\<lambda>d. commits\<^sup>*\<^sup>* d0 d)"
  by (auto simp: closed_def)

lemma closed_True [simp]: "closed (\<lambda>d. True)"
  by (simp add: closed_def)

lemma closed_conj: "closed P \<Longrightarrow> closed Q \<Longrightarrow> closed (\<lambda>d. P d \<and> Q d)"
  unfolding closed_def by blast

lemma commits_inv_steps: "commits\<^sup>*\<^sup>* d d' \<Longrightarrow> db_inv d \<Longrightarrow> db_inv d'"
  by (induction rule: rtranclp_induct) (auto intro: commits_inv)

lemma commits_evolves_steps: "commits\<^sup>*\<^sup>* d d' \<Longrightarrow> db_inv d \<Longrightarrow> tasks_evolve (upload_tasks d) (upload_tasks d')"
proof (induction rule: rtranclp_induct)
  case (step e e')
  then have "tasks_evolve (upload_tasks e) (upload_tasks e')"
    by (auto intro: commits_evolves commits_inv_steps)
  with step show ?case
    by (auto intro: tasks_evolve_trans)
qed simp

lemma closed_evolution: "closed (\<lambda>d. tasks_evolve ts (upload_tasks d))"
  unfolding closed_def by (blast intro: tasks_evolve_trans commits_evolves)

lemma holds_task_evolves:
  assumes "holds_task u t d" and "tasks_evolve (upload_tasks d) (upload_tasks d')"
  shows "holds_task u t d'"
proof -
  from assms(1) obtain r where r: "r \<in> set (upload_tasks d)" "t_id r = u" "same_task t r"
    by (auto simp: holds_task_def)
  with assms(2) obtain r' where "r' \<in> set (upload_tasks d')" "task_evolves r r'"
    by (auto simp: tasks_evolve_def)
  with r show ?thesis
    unfolding holds_task_def task_evolves_def by (metis same_task_trans same_task_def)
qed

lemma closed_holds_task: "closed (holds_task u t)"
  unfolding closed_def by (blast intro: holds_task_evolves commits_evolves)

section \<open>Trash rows\<close>

text \<open>Rows of the trash never change: actions only remove rows and add rows with new identifiers.\<close>

definition trash_flows :: "'w db \<Rightarrow> 'w db \<Rightarrow> bool" where
  "trash_flows d d' \<longleftrightarrow> seq_trash d \<le> seq_trash d' \<and>
     (\<forall>x \<in> set (trash d'). x \<in> set (trash d) \<or> seq_trash d < tr_id x)"

lemma trash_flows_same: "trash d' = trash d \<Longrightarrow> seq_trash d' = seq_trash d \<Longrightarrow> trash_flows d d'"
  by (simp add: trash_flows_def)

lemma trash_flows_less: "set (trash d') \<subseteq> set (trash d) \<Longrightarrow> seq_trash d' = seq_trash d \<Longrightarrow> trash_flows d d'"
  by (auto simp: trash_flows_def)

lemma move_tx_flows:
  assumes "move_tx ord rf rd uid T s = (Inr (Inr m), s')" and "in_tx T" and "db_inv (sdb s)"
  shows "trash_flows (sdb s) (sdb s')"
proof -
  have new: "n < tr_id x" if "x \<in> set (new_trash_rows d uid n items)" for x d n items
    using that by (induction items arbitrary: n) (auto simp: new_trash_row_def dest: Suc_lessD)
  have "distinct (map f_id (files (sdb s)))" using assms(3) by (simp add: db_inv_def files_inv_def)
  then show ?thesis
    by (rule move_tx_ok [OF assms(1,2)]) (auto simp: trash_flows_def moved_db_def new)
qed

lemma trash_frame:
  "claim_stmt u uid owner dur d = (x, d') \<Longrightarrow> trash d' = trash d \<and> seq_trash d' = seq_trash d"
  "renew_stmt u uid owner v dur d = (x, d') \<Longrightarrow> trash d' = trash d \<and> seq_trash d' = seq_trash d"
  "error_stmt u uid owner v code d = (b, d') \<Longrightarrow> trash d' = trash d \<and> seq_trash d' = seq_trash d"
  "record_chunk_stmt u uid ex d = (y, d') \<Longrightarrow> trash d' = trash d \<and> seq_trash d' = seq_trash d"
  "enqueue_stmt job d = (z, d') \<Longrightarrow> trash d' = trash d \<and> seq_trash d' = seq_trash d"
  "rearm_stmt job d = (z, d') \<Longrightarrow> trash d' = trash d \<and> seq_trash d' = seq_trash d"
  "exhaust_stmt d = (a, d') \<Longrightarrow> trash d' = trash d \<and> seq_trash d' = seq_trash d"
  "job_claim_stmt locked inst n dur d = (e, d') \<Longrightarrow> trash d' = trash d \<and> seq_trash d' = seq_trash d"
  "job_renew_stmt i inst dur d = (f, d') \<Longrightarrow> trash d' = trash d \<and> seq_trash d' = seq_trash d"
  "job_succeed_stmt i inst d = (g, d') \<Longrightarrow> trash d' = trash d \<and> seq_trash d' = seq_trash d"
  "job_fail_stmt i inst err retryable delay d = (l, d') \<Longrightarrow> trash d' = trash d \<and> seq_trash d' = seq_trash d"
  by (auto simp: claim_stmt_def renew_stmt_def error_stmt_def record_chunk_stmt_def enqueue_stmt_def insert_job_def
      rearm_stmt_def exhaust_stmt_def job_claim_stmt_def job_renew_stmt_def job_succeed_stmt_def job_fail_stmt_def
      Let_def split: if_splits option.splits)

lemma cancel_tx_flows: "cancel_tx u uid T s = (Inr (Inr x), s') \<Longrightarrow> in_tx T \<Longrightarrow> trash_flows (sdb s) (sdb s')"
  by (frule (1) cancel_tx_ok) (auto simp: ended_def intro: trash_flows_same)

lemma expire_tx_flows: "expire_tx u T s = (Inr (Inr x), s') \<Longrightarrow> in_tx T \<Longrightarrow> trash_flows (sdb s) (sdb s')"
  by (frule (1) expire_tx_ok) (auto simp: ended_def intro: trash_flows_same)

lemma create_task_tx_flows: "create_task_tx c t session T s = (Inr (Inr x), s') \<Longrightarrow> in_tx T \<Longrightarrow> trash_flows (sdb s) (sdb s')"
  by (frule (1) create_task_tx_ok) (auto intro: trash_flows_same split: sum.splits)

lemma instant_upload_tx_flows: "instant_upload_tx c m T s = (Inr (Inr f), s') \<Longrightarrow> in_tx T \<Longrightarrow> trash_flows (sdb s) (sdb s')"
  by (frule (1) instant_upload_tx_ok) (auto simp: filed_def intro: trash_flows_same)

lemma complete_tx_flows:
  assumes "complete_tx cc v t session assembled path dec T s = (Inr (Inr f), s')" and "in_tx T" and "db_inv (sdb s)"
  shows "trash_flows (sdb s) (sdb s')"
proof -
  have "contents_inv (file_contents (sdb s)) (seq_contents (sdb s)) (files (sdb s)) (trash (sdb s))"
    using assms(3) by (simp add: db_inv_def)
  from complete_tx_ok [OF assms(1,2) this] show ?thesis
    by (auto simp: Let_def completed_from_def renewed_def cleaned_up_def filed_def intro!: trash_flows_same)
qed

lemmas action_flows = cancel_tx_flows expire_tx_flows create_task_tx_flows instant_upload_tx_flows complete_tx_flows
  move_tx_flows

lemma commits_trash: "commits d d' \<Longrightarrow> db_inv d \<Longrightarrow> trash_flows d d'"
proof (induction rule: commits.induct)
  case (restore_file i uid k T s w s')
  then show ?case by (intro trash_flows_less) (drule (2) restore_file_tx_frame, simp)+
next
  case (restore_folder i uid k T s w s')
  then show ?case by (intro trash_flows_less) (drule (2) restore_folder_tx_frame, simp)+
next
  case (purge_trash ord items rv T s p s')
  then show ?case by (intro trash_flows_less) (drule (4) purge_tx_frame, simp)+
qed (simp_all add: action_flows trash_frame trash_flows_same gc_tx_frame drive_frame)

lemma closed_holds_trash: "closed (holds_trash items)"
  unfolding closed_def holds_trash_def
proof (intro allI impI ballI)
  fix d d' :: "'a db" and r
  assume "db_inv d" "commits d d'" and r: "r \<in> set items"
    and held: "\<forall>r \<in> set items. tr_id r \<le> seq_trash d \<and> (\<forall>x \<in> set (trash d). tr_id x = tr_id r \<longrightarrow> x = r)"
  then have "trash_flows d d'" by (simp add: commits_trash)
  with held r show "tr_id r \<le> seq_trash d' \<and> (\<forall>x \<in> set (trash d'). tr_id x = tr_id r \<longrightarrow> x = r)"
    by (fastforce simp: trash_flows_def)
qed

text \<open>Rows read from the table are held.\<close>

lemma holds_trash_read: "db_inv d \<Longrightarrow> set items \<subseteq> set (trash d) \<Longrightarrow> holds_trash items d"
  by (auto simp: holds_trash_def db_inv_def trash_inv_def distinct_map dest: inj_onD)

end
