(* ===== verification/Upload_Handlers.thy ===== *)
theory Upload_Handlers
  imports Upload_System
begin

text \<open>
  The handlers consist of atomic actions: each keeps every closed property, in particular the
  invariant and "reachable from the state before the request", whatever faults strike and
  however the other sessions interleave.
\<close>

section \<open>Lookups and single statements\<close>

lemma keeps_read:
  assumes "stable P E" and "\<And>d. snd (q d) = d"
  shows "keeps P (exec E q)"
proof (rule keeps_exec [OF assms(1)])
  fix d v d'
  assume "P d" and "q d = (Inr v, d')"
  with assms(2) [of d] show "P d'" by simp
qed

lemma keeps_case_prod [keeps_intros]:
  "(\<And>a b. x = (a, b) \<Longrightarrow> keeps P (k a b)) \<Longrightarrow> keeps P (case x of (a, b) \<Rightarrow> k a b)"
  by (cases x) simp

lemma keeps_case_list [keeps_intros]:
  "(xs = [] \<Longrightarrow> keeps P m) \<Longrightarrow> (\<And>y ys. xs = y # ys \<Longrightarrow> keeps P (k y ys)) \<Longrightarrow>
   keeps P (case xs of [] \<Rightarrow> m | y # ys \<Rightarrow> k y ys)"
  by (cases xs) simp_all

lemma keeps_FindByIdForUser [keeps_intros]: "stable P E \<Longrightarrow> keeps P (FindByIdForUser E u uid)"
  unfolding FindByIdForUser_def by (intro keeps_intros keeps_read) (auto split: list.splits)

lemma keeps_FindByMd5 [keeps_intros]: "stable P E \<Longrightarrow> keeps P (FindByMd5 E h)"
  unfolding FindByMd5_def by (intro keeps_intros keeps_read) (auto split: list.splits)

lemma keeps_FindActive [keeps_intros]: "stable P E \<Longrightarrow> keeps P (FindActiveByUserAndHash E uid h)"
  unfolding FindActiveByUserAndHash_def by (intro keeps_intros)

lemma keeps_FindUnexpired [keeps_intros]: "stable P E \<Longrightarrow> keeps P (FindUnexpiredByIdForUser E u uid)"
  unfolding FindUnexpiredByIdForUser_def by (intro keeps_intros)

lemma keeps_ListUploaded [keeps_intros]: "stable P E \<Longrightarrow> keeps P (ListUploadedChunkIndices E u)"
  unfolding ListUploadedChunkIndices_def by (intro keeps_intros)

lemma keeps_ListChunks [keeps_intros]: "stable P E \<Longrightarrow> keeps P (ListChunksForAssembly E u)"
  unfolding ListChunksForAssembly_def by (intro keeps_intros)

lemma keeps_FindCancellation [keeps_intros]: "stable P E \<Longrightarrow> keeps P (FindCancellationStateByIdForUser E u uid)"
  unfolding FindCancellationStateByIdForUser_def by (intro keeps_intros)

lemma keeps_FindStaging [keeps_intros]: "stable P E \<Longrightarrow> keeps P (FindStagingSessionForUser E u uid)"
  unfolding FindStagingSessionForUser_def by (intro keeps_intros)

lemma keeps_FindCompletedFile [keeps_intros]: "stable P E \<Longrightarrow> keeps P (FindCompletedFile E fid uid)"
  unfolding FindCompletedFile_def by (intro keeps_intros)

lemma keeps_ToCleanup [keeps_intros]: "keeps P (ToUploadTaskCleanupRecord r)"
  unfolding ToUploadTaskCleanupRecord_def by (intro keeps_intros)

lemma keeps_FindExpired [keeps_intros]: "stable P E \<Longrightarrow> keeps P (FindExpiredInProgressBatch E n)"
proof -
  have "keeps P (foldr (\<lambda>r acc. bindM (ToUploadTaskCleanupRecord r) (\<lambda>c. bindM acc (\<lambda>cs. retM (c # cs)))) rows (retM []))" for rows
    by (induction rows) (simp_all add: keeps_intros)
  then show "stable P E \<Longrightarrow> ?thesis"
    unfolding FindExpiredInProgressBatch_def by (intro keeps_intros)
qed

lemma keeps_ValidateLease [keeps_intros]: "keeps P (ValidateLeaseArguments owner dur)"
  unfolding ValidateLeaseArguments_def by (intro keeps_intros)

lemma keeps_ValidateBounded [keeps_intros]: "keeps P (ValidateBoundedValue v n f)"
  unfolding ValidateBoundedValue_def by (intro keeps_intros)

text \<open>Values in hand: what is known of a result may be used for what follows.\<close>

lemma keeps_bindM_with:
  assumes "keeps P m" and "\<And>s x s'. P (sdb s) \<Longrightarrow> m s = (Inr x, s') \<Longrightarrow> Q x (sdb s')"
    and "\<And>x. keeps (Q x) (k x)" and "\<And>x d. Q x d \<Longrightarrow> P d"
  shows "keeps P (bindM m k)"
proof (rule keepsI)
  fix s :: "'a session"
  assume P: "P (sdb s)"
  obtain r s1 where m: "m s = (r, s1)" by (cases "m s")
  show "P (sdb (snd (bindM m k s)))"
  proof (cases r)
    case (Inl e)
    then show ?thesis
      using keepsD' [OF assms(1) P m] m by (simp add: bindM_def)
  next
    case (Inr x)
    with assms(2) [OF P] m have "Q x (sdb s1)" by simp
    with assms(3) have "Q x (sdb (snd (k x s1)))" by (rule keepsD)
    with assms(4) m Inr show ?thesis by (simp add: bindM_def)
  qed
qed

lemma keeps_bindR_with:
  assumes "keeps P m" and "\<And>s x s'. P (sdb s) \<Longrightarrow> m s = (Inr (Inr x), s') \<Longrightarrow> Q x (sdb s')"
    and "\<And>x. keeps (Q x) (k x)" and "\<And>x d. Q x d \<Longrightarrow> P d"
  shows "keeps P (bindR m k)"
  unfolding bindR_def
proof (rule keeps_bindM_with [OF assms(1), where Q = "\<lambda>r d. case r of Inl e \<Rightarrow> P d | Inr x \<Rightarrow> Q x d"])
  fix s r s'
  assume "P (sdb s)" and "m s = (Inr r, s')"
  then show "case r of Inl e \<Rightarrow> P (sdb s') | Inr x \<Rightarrow> Q x (sdb s')"
    using assms(2) keepsD' [OF assms(1)] by (cases r) auto
next
  fix r
  show "keeps (\<lambda>d. case r of Inl e \<Rightarrow> P d | Inr x \<Rightarrow> Q x d) (case r of Inl e \<Rightarrow> failR e | Inr x \<Rightarrow> k x)"
    using assms(3) by (cases r) (simp_all add: keeps_failR)
qed (auto split: sum.splits intro: assms(4))

section \<open>Actions outside transactions\<close>

lemma keeps_action:
  assumes "cluster E" and "closed P" and "\<And>d v d'. q d = (Inr v, d') \<Longrightarrow> commits d d'"
  shows "keeps (inv_and P) (exec E q)"
  using assms by (auto intro!: keeps_exec stable_inv_and intro: inv_and_step)

lemma keeps_store_call:
  assumes "cluster E" and "closed P"
  shows "keeps (inv_and P) (callStore E f)"
  using assms by (intro keeps_callStore stable_inv_and) (auto intro: inv_and_step object_storage)

lemma keeps_tx:
  assumes "cluster E" and "closed P"
    and "\<And>s v s'. inv_and P (sdb s) \<Longrightarrow> body (transaction_client E) s = (Inr (Inr v), s') \<Longrightarrow> commits (sdb s) (sdb s')"
  shows "keeps (inv_and P) (Run E err body)"
  using assms by (intro keeps_Run stable_inv_and) (auto intro: inv_and_step)

text \<open>The rules for a session of the cluster and a closed property.\<close>

lemma keeps_claim:
  assumes "cluster E" and "closed P"
  shows "keeps (inv_and P) (ClaimFinalizeLease E u uid owner dur)"
  unfolding ClaimFinalizeLease_def
  by (intro keeps_intros keeps_action stable_inv_and assms) (rule claim_lease)

lemma keeps_renew:
  assumes "cluster E" and "closed P"
  shows "keeps (inv_and P) (RenewLeaseOrConflict E cc v)"
  unfolding RenewLeaseOrConflict_def RenewFinalizeLease_def
  by (intro keeps_intros keeps_action assms) (rule renew_lease)

lemma keeps_note_error:
  assumes "cluster E" and "closed P"
  shows "keeps (inv_and P) (RecordFinalizeErrorBestEffort E cc v c)"
  unfolding RecordFinalizeErrorBestEffort_def RecordFinalizeErrorIfLeaseOwned_def
  by (intro keeps_intros keeps_action assms) (auto intro: note_error)

lemma keeps_fail_recorded:
  assumes "cluster E" and "closed P"
  shows "keeps (inv_and P) (fail_recorded E cc v c e)"
  unfolding fail_recorded_def by (intro keeps_intros keeps_note_error assms)

lemma keeps_finding:
  assumes "cluster E" and "closed P"
  shows "keeps (inv_and P) (RecordFinding E f)"
  unfolding RecordFinding_def
  by (intro keeps_intros keeps_action assms) (auto simp: Let_def intro: record_finding split: if_splits)

lemma keeps_rearm:
  assumes "cluster E" and "closed P"
  shows "keeps (inv_and P) (EnqueueOrRearmSucceeded E job)"
  unfolding EnqueueOrRearmSucceeded_def
proof (rule keeps_bindM_with [where Q = "\<lambda>_. inv_and (\<lambda>d. P d \<and> 0 < nj_max_attempts job)"])
  show "keeps (inv_and P) (ValidateNewJob job)"
    unfolding ValidateNewJob_def by (intro keeps_intros)
next
  have cl: "closed (\<lambda>d. P d \<and> 0 < nj_max_attempts job)"
    using assms(2) by (simp add: closed_def)
  have "keeps (inv_and (\<lambda>d. P d \<and> 0 < nj_max_attempts job)) (exec E (rearm_stmt job))"
    by (rule keeps_exec [OF stable_inv_and [OF assms(1) cl]])
       (metis cl inv_and_def inv_and_step rearm_job)
  then show "keeps (inv_and (\<lambda>d. P d \<and> 0 < nj_max_attempts job)) (bindM (exec E (rearm_stmt job)) (\<lambda>returned.
       if returned then retM True
       else bindM (exec E (pureS (\<lambda>d. find_row (has_dedupe_key (nj_dedupe_key job)) (storage_jobs d)))) (\<lambda>existing.
         case existing of
           None \<Rightarrow> throwM (RuntimeError ''Storage job conflict disappeared during enqueue'')
         | Some r \<Rightarrow>
             if j_job_type r \<noteq> nj_job_type job \<or> j_aggregate_id r \<noteq> nj_aggregate_id job
             then throwM (RuntimeError ''Storage job dedupe key is owned by another aggregate'')
             else retM False)))" for x :: unit
    by (intro keeps_intros stable_inv_and assms cl)
qed (auto simp: inv_and_def dest: ValidateNewJob_ok)

lemma keeps_trigger:
  assumes "cluster E" and "closed P"
  shows "keeps (inv_and P) (TriggerStagingReconciliationBestEffort E L session cc v)"
  unfolding TriggerStagingReconciliationBestEffort_def Let_def
  by (intro keeps_intros keeps_finding keeps_rearm assms)

lemmas session_keeps = keeps_claim keeps_renew keeps_note_error keeps_fail_recorded keeps_trigger
  keeps_store_call keeps_tx stable_inv_and

section \<open>Cancellation, expiry and initialisation\<close>

lemma keeps_expire:
  assumes "cluster E" and "closed P"
  shows "keeps (inv_and P) (ExpireInProgressUpload E u)"
  unfolding ExpireInProgressUpload_def
  by (intro keeps_intros keeps_tx assms) (rule expire_upload, assumption, simp)

lemma keeps_expire_each:
  assumes "cluster E" and "closed P"
  shows "keeps (inv_and P) (expire_each E ts n)"
  by (induction ts arbitrary: n) (simp_all add: keeps_intros keeps_expire assms)

lemma keeps_ExpireInProgressUploads:
  assumes "cluster E" and "closed P"
  shows "keeps (inv_and P) (ExpireInProgressUploads E n)"
  unfolding ExpireInProgressUploads_def
  by (intro keeps_intros keeps_expire_each stable_inv_and assms)

lemma keeps_cancel_reply: "keeps P (cancel_reply cs)"
  unfolding cancel_reply_def by (auto intro!: keeps_intros split: CancelRequestAction.splits)

lemma keeps_CancelInProgressUpload:
  assumes "cluster E" and "closed P"
  shows "keeps (inv_and P) (CancelInProgressUpload E u uid)"
  unfolding CancelInProgressUpload_def
  by (intro keeps_intros keeps_tx keeps_cancel_reply stable_inv_and assms) (rule cancel_upload, assumption, simp)

lemma keeps_start_new_upload:
  assumes "cluster E" and "closed P" and name: "ic_filename command \<noteq> []"
  shows "keeps (inv_and P) (start_new_upload E L u command pending)"
  unfolding start_new_upload_def Let_def
  by (intro keeps_intros keeps_tx keeps_store_call stable_inv_and assms(1,2)) (rule create_upload, assumption, simp, rule name)

lemma keeps_InitializeUpload:
  assumes "cluster E" and "closed P" and name: "ic_filename command \<noteq> []"
  shows "keeps (inv_and P) (InitializeUpload E L u command)"
proof -
  have inst: "keeps (inv_and P) (Run E err (instant_upload_tx command content))" for err content
    by (intro keeps_tx assms(1,2)) (rule instant_upload, assumption, simp, rule name)
  show ?thesis
    unfolding InitializeUpload_def
    by (auto intro!: keeps_intros keeps_expire keeps_start_new_upload inst stable_inv_and assms
        split: InitDecision.splits option.splits)
qed

section \<open>Finalization\<close>

lemma keeps_complete_replay:
  assumes "stable P E"
  shows "keeps P (complete_replay E cc fid)"
  unfolding complete_replay_def by (intro keeps_intros assms)

lemma keeps_complete_load:
  assumes "cluster E" and "closed P"
  shows "keeps (inv_and P) (complete_load E cc v)"
  unfolding complete_load_def
  by (intro keeps_intros keeps_fail_recorded stable_inv_and assms)

text \<open>The loaded task is a row of the table, and stays one in the sense of \<^const>\<open>holds_task\<close>.\<close>

lemma FindByIdForUser_ok:
  assumes "FindByIdForUser E u uid s = (Inr (Some t), s')"
  shows "t \<in> set (upload_tasks (sdb s')) \<and> owned_task u uid t"
proof -
  from assms have ex: "exec E (\<lambda>d. case filter (owned_task u uid) (upload_tasks d) of
                      [r] \<Rightarrow> (Inr (Some r), d) | _ \<Rightarrow> (Inl DbException, d)) s = (Inr (Some t), s')"
    by (auto simp: FindByIdForUser_def catchDb_def catchM_def split: prod.splits sum.splits if_splits)
  then obtain d' where "(case filter (owned_task u uid) (upload_tasks (seen E s)) of
                      [r] \<Rightarrow> (Inr (Some r), seen E s) | _ \<Rightarrow> (Inl DbException, seen E s)) = (Inr (Some t), d')" "sdb s' = d'"
    by (rule exec_okE)
  then have "filter (owned_task u uid) (upload_tasks (sdb s')) = [t]"
    by (auto split: list.splits)
  then have "t \<in> set (filter (owned_task u uid) (upload_tasks (sdb s')))"
    by simp
  then show ?thesis
    by simp
qed

lemma FindStagingSessionForUser_ok:
  "FindStagingSessionForUser E u uid s = (Inr (Some session), s') \<Longrightarrow> ss_upload_id session = u"
  unfolding FindStagingSessionForUser_def
  by (auto elim!: bindM_okE dest!: pure_ok find_row_Some split: option.splits simp: owned_task_def)

lemma complete_load_ok:
  assumes E: "cluster E" and P: "closed P" and inv: "inv_and P (sdb s)"
    and run: "complete_load E cc v s = (Inr (Inr (t, session, chunks)), s')"
  shows "inv_and (\<lambda>d. P d \<and> holds_task (cc_upload_id cc) t d) (sdb s') \<and>
    t_user_id t = cc_user_id cc \<and> ss_upload_id session = cc_upload_id cc"
proof -
  from run obtain s1 s2 where find: "FindByIdForUser E (cc_upload_id cc) (cc_user_id cc) s = (Inr (Some t), s1)"
    and stag: "catchM (FindStagingSessionForUser E (cc_upload_id cc) (cc_user_id cc)) (\<lambda>_. retM None) s1 = (Inr (Some session), s2)"
    and list: "catchM (bindM (ListChunksForAssembly E (cc_upload_id cc)) (\<lambda>cs. retM (Some cs))) (\<lambda>_. retM None) s2 = (Inr (Some chunks), s')"
    unfolding complete_load_def fail_recorded_def by (auto elim!: bindM_okE split: option.splits)
  let ?Q = "\<lambda>d. P d \<and> holds_task (cc_upload_id cc) t d"
  have Q: "closed ?Q" by (intro closed_conj P closed_holds_task)
  have st: "stable (inv_and P) E" "stable (inv_and ?Q) E"
    by (simp_all add: stable_inv_and E P Q)
  have "inv_and P (sdb s1)"
    by (rule keepsD' [OF keeps_FindByIdForUser [OF st(1)] inv find])
  with FindByIdForUser_ok [OF find] have s1: "inv_and ?Q (sdb s1)"
    by (auto simp: inv_and_def holds_task_def owned_task_def intro!: bexI [of _ t])
  have k1: "keeps (inv_and ?Q) (catchM (FindStagingSessionForUser E (cc_upload_id cc) (cc_user_id cc)) (\<lambda>_. retM None))"
    by (intro keeps_intros st(2))
  have k2: "keeps (inv_and ?Q) (catchM (bindM (ListChunksForAssembly E (cc_upload_id cc)) (\<lambda>cs. retM (Some cs))) (\<lambda>_. retM None))"
    by (intro keeps_intros st(2))
  have "inv_and ?Q (sdb s')"
    by (rule keepsD' [OF k2 keepsD' [OF k1 s1 stag] list])
  moreover have "ss_upload_id session = cc_upload_id cc"
    using stag FindStagingSessionForUser_ok by (fastforce simp: catchM_def split: prod.splits sum.splits)
  ultimately show ?thesis
    using FindByIdForUser_ok [OF find] by (simp add: owned_task_def)
qed

lemma keeps_complete_assemble:
  assumes "cluster E" and "closed P"
  shows "keeps (inv_and P) (complete_assemble E L st cc v t session chunks)"
  unfolding complete_assemble_def
  by (intro keeps_intros keeps_fail_recorded keeps_note_error keeps_trigger keeps_store_call keeps_renew assms)

lemma keeps_complete_lookup:
  assumes "stable P E"
  shows "keeps P (complete_lookup E cc t h)"
  unfolding complete_lookup_def by (intro keeps_intros assms)

lemma keeps_complete_promote:
  assumes "cluster E" and "closed P"
  shows "keeps (inv_and P) (complete_promote E L st cc v session a c dec)"
  unfolding complete_promote_def
  by (cases dec) (auto intro!: keeps_intros keeps_fail_recorded keeps_store_call assms)

lemma keeps_complete_commit:
  assumes "cluster E" and "closed P" and "ss_upload_id session = cc_upload_id cc"
  shows "keeps (inv_and (\<lambda>d. P d \<and> holds_task (cc_upload_id cc) t d)) (complete_commit E L st cc v t session a)"
proof -
  have Q: "closed (\<lambda>d. P d \<and> holds_task (cc_upload_id cc) t d)"
    by (intro closed_conj assms closed_holds_task)
  have tx: "keeps (inv_and (\<lambda>d. P d \<and> holds_task (cc_upload_id cc) t d)) (Run E err (complete_tx cc v t session a path dec))"
    for err v path dec
  proof (rule keeps_tx [OF assms(1) Q])
    fix s f s'
    assume "inv_and (\<lambda>d. P d \<and> holds_task (cc_upload_id cc) t d) (sdb s)"
      and "complete_tx cc v t session a path dec (transaction_client E) s = (Inr (Inr f), s')"
    then show "commits (sdb s) (sdb s')"
      by (auto simp: inv_and_def intro: complete_upload assms(3))
  qed
  show ?thesis
    unfolding complete_commit_def Let_def
    by (intro keeps_intros keeps_complete_lookup keeps_complete_promote keeps_store_call keeps_fail_recorded
        keeps_renew tx stable_inv_and assms(1) Q)
qed

lemma keeps_and_const: "(c \<Longrightarrow> keeps P m) \<Longrightarrow> keeps (\<lambda>d. P d \<and> c) m"
  by (auto simp: keeps_def)

definition loaded :: "('w db \<Rightarrow> bool) \<Rightarrow> string \<Rightarrow> task_row \<times> UploadStagingSession \<times> UploadStagingChunk list \<Rightarrow> 'w db \<Rightarrow> bool" where
  "loaded P u x d \<longleftrightarrow>
     inv_and (\<lambda>d. P d \<and> holds_task u (fst x) d) d \<and> ss_upload_id (fst (snd x)) = u"

lemma keeps_complete_acquired:
  assumes "cluster E" and "closed P"
  shows "keeps (inv_and P) (complete_acquired E L cc v)"
  unfolding complete_acquired_def
proof (rule keeps_bindR_with [OF keeps_complete_load [OF assms], where Q = "loaded P (cc_upload_id cc)"])
  fix s x s'
  assume "inv_and P (sdb s)" and "complete_load E cc v s = (Inr (Inr x), s')"
  then show "loaded P (cc_upload_id cc) x (sdb s')"
    by (cases x) (auto simp: loaded_def dest!: complete_load_ok [OF assms])
next
  fix x :: "task_row \<times> UploadStagingSession \<times> UploadStagingChunk list"
  obtain t session chunks where x: "x = (t, session, chunks)" by (cases x)
  have Q: "closed (\<lambda>d. P d \<and> holds_task (cc_upload_id cc) t d)"
    by (intro closed_conj assms closed_holds_task)
  have "keeps (loaded P (cc_upload_id cc) x) (case m_upload_staging_storage L of
         None \<Rightarrow> fail_recorded E cc v InternalError (ErrorInfo2 InternalError ''Upload staging storage is not configured'')
       | Some st \<Rightarrow> bindR (complete_assemble E L st cc v t session chunks)
             (\<lambda>(assembled, v). complete_commit E L st cc v t session assembled))"
    unfolding loaded_def x fst_conv snd_conv
    by (rule keeps_and_const)
       (intro keeps_intros keeps_fail_recorded keeps_complete_assemble keeps_complete_commit assms Q)
  then show "keeps (loaded P (cc_upload_id cc) x) (case x of (t, session, chunks) \<Rightarrow>
       case m_upload_staging_storage L of
         None \<Rightarrow> fail_recorded E cc v InternalError (ErrorInfo2 InternalError ''Upload staging storage is not configured'')
       | Some st \<Rightarrow> bindR (complete_assemble E L st cc v t session chunks)
             (\<lambda>(assembled, v). complete_commit E L st cc v t session assembled))"
    by (simp add: x)
qed (auto simp: loaded_def inv_and_def)

lemma keeps_CompleteUpload:
  assumes "cluster E" and "closed P"
  shows "keeps (inv_and P) (CompleteUpload E L cc)"
proof -
  have "keeps (inv_and P) (case fr_disposition c of
         Acquired \<Rightarrow> complete_acquired E L cc (fr_state_version c)
       | IncompleteChunks \<Rightarrow> failR (ErrorInfo2 ValidationFailed ''Not all chunks uploaded'')
       | LeaseHeld \<Rightarrow> failR LeaseConflictError
       | CompletedReplay \<Rightarrow> complete_replay E cc (fr_completed_file_id c)
       | Terminal \<Rightarrow> failR (ErrorInfo1 UploadTaskNotFound)
       | NotFound \<Rightarrow> failR (ErrorInfo1 UploadTaskNotFound))" for c
    by (cases "fr_disposition c") (simp_all add: keeps_intros keeps_complete_acquired keeps_complete_replay stable_inv_and assms)
  then show ?thesis
    unfolding CompleteUpload_def by (intro keeps_intros keeps_claim assms)
qed

section \<open>Chunks and the task cache\<close>

lemma keeps_cache_erase:
  assumes "cluster E" and "closed P" and "\<And>t c. shrinks c (snd (f t c))"
  shows "keeps (inv_and P) (callCache E f)"
proof (rule keeps_callCache [OF stable_inv_and [OF assms(1,2)]])
  fix d v c
  assume "inv_and P d" and "f (steady_now d) (task_cache d) = (v, c)"
  with assms(3) [of "task_cache d" "steady_now d"] show "inv_and P (d\<lparr>task_cache := c\<rparr>)"
    by (auto intro: inv_and_step [OF assms(2)] cache_erase)
qed

lemma shrinks_simps [simp]:
  "shrinks c c" "shrinks c (c(u := None))" "shrinks c (erase_expired u t c)" "shrinks c (evict t c)"
  by (auto simp: shrinks_def erase_expired_def evict_def split: option.splits)

lemma keeps_TryGet:
  assumes "cluster E" and "closed P"
  shows "keeps (inv_and P) (TryGetUploadTaskCacheEntry E u uid)"
  unfolding TryGetUploadTaskCacheEntry_def
  by (auto intro!: keeps_intros keeps_cache_erase assms split: cache_probe.splits)

lemma keeps_Invalidate:
  assumes "cluster E" and "closed P"
  shows "keeps (inv_and P) (InvalidateUploadTaskCache E u)"
  unfolding InvalidateUploadTaskCache_def by (intro keeps_cache_erase assms) simp

lemma keeps_Evict:
  assumes "cluster E" and "closed P"
  shows "keeps (inv_and P) (EvictExpiredUploadTaskCacheEntries E)"
  unfolding EvictExpiredUploadTaskCacheEntries_def by (intro keeps_cache_erase assms) simp

definition session_of :: "task_row \<Rightarrow> UploadStagingSession \<Rightarrow> bool" where
  "session_of t session \<longleftrightarrow>
     ParseUploadStagingBackend (t_staging_backend t) = Some (ss_backend session) \<and>
     ss_prefix session = row_prefix t \<and> ss_upload_id session = t_id t"

lemma same_prefix: "same_task t r \<Longrightarrow> row_prefix r = row_prefix t"
  by (simp add: same_task_def row_prefix_def split: option.splits)

lemma session_of_same: "same_task t r \<Longrightarrow> session_of r session \<longleftrightarrow> session_of t session"
  by (simp add: session_of_def same_prefix) (simp add: same_task_def)

lemma holds_task_unique:
  assumes "db_inv d" and "holds_task u t d" and "r \<in> set (upload_tasks d)" and "t_id r = u"
  shows "same_task t r"
proof -
  from assms(2) obtain q where q: "q \<in> set (upload_tasks d)" "t_id q = u" "same_task t q"
    by (auto simp: holds_task_def)
  have "distinct (map t_id (upload_tasks d))"
    using assms(1) by (simp add: db_inv_def tasks_inv_def)
  then have "q = r"
    using q(1,2) assms(3,4) by (simp add: distinct_map inj_on_def)
  with q(3) show ?thesis by simp
qed

lemma FindUploadStagingSession_ok:
  assumes "FindUploadStagingSession E u uid s = (Inr (Inr session), s')"
  shows "\<exists>r \<in> set (upload_tasks (sdb s')). t_id r = u \<and> session_of r session"
proof -
  from assms have "FindStagingSessionForUser E u uid s = (Inr (Some session), s')"
    unfolding FindUploadStagingSession_def by (auto dest!: catchM_okD elim!: bindM_okE split: option.splits)
  then show ?thesis
    unfolding FindStagingSessionForUser_def
    by (elim bindM_okE)
       (auto dest!: pure_ok find_row_Some [OF sym] split: option.splits simp: owned_task_def session_of_def intro!: rev_bexI)
qed

lemma keeps_cache_put:
  assumes "cluster E" and "closed P" and "session_of t session" and "t_id t = u"
    and e: "e = BuildUploadTaskCacheEntry x t session"
  shows "keeps (inv_and (\<lambda>d. P d \<and> holds_task u t d)) (CacheUploadTaskEntry E u e)"
proof -
  have Q: "closed (\<lambda>d. P d \<and> holds_task u t d)"
    by (intro closed_conj assms closed_holds_task)
  show ?thesis
    unfolding CacheUploadTaskEntry_def
  proof (rule keeps_callCache [OF stable_inv_and [OF assms(1) Q]])
    fix d v c
    assume d: "inv_and (\<lambda>d. P d \<and> holds_task u t d) d" and "((), (task_cache d)(u \<mapsto> e)) = (v, c)"
    then have c: "c = (task_cache d)(u \<mapsto> e)" by simp
    from d obtain r where r: "r \<in> set (upload_tasks d)" "t_id r = u" "same_task t r"
      by (auto simp: inv_and_def holds_task_def)
    have "cache_matches u e r"
      using assms(3,4) r(2,3) e same_prefix [OF r(3)]
      by (auto simp: cache_matches_def BuildUploadTaskCacheEntry_def session_of_def same_task_def)
    from inv_and_step [OF Q d cache_put [OF this r(1)]] c
    show "inv_and (\<lambda>d. P d \<and> holds_task u t d) (d\<lparr>task_cache := c\<rparr>)" by simp
  qed
qed

lemma keeps_FindUploadTask: "stable P E \<Longrightarrow> keeps P (FindUploadTask E u uid)"
  unfolding FindUploadTask_def by (intro keeps_intros)

lemma keeps_FindUploadStagingSession: "stable P E \<Longrightarrow> keeps P (FindUploadStagingSession E u uid)"
  unfolding FindUploadStagingSession_def by (intro keeps_intros)

lemma FindUploadTask_ok:
  "FindUploadTask E u uid s = (Inr (Inr t), s') \<Longrightarrow> t \<in> set (upload_tasks (sdb s')) \<and> owned_task u uid t"
  unfolding FindUploadTask_def FindUnexpiredByIdForUser_def
  by (auto elim!: bindM_okE dest!: pure_ok find_row_Some split: option.splits)

lemma keeps_cache_fill:
  assumes "cluster E" and "closed P" and "session_of t session" and "t_id t = u"
  shows "keeps (inv_and (\<lambda>d. P d \<and> holds_task u t d))
    (bindM (callCache E (\<lambda>x c. (BuildUploadTaskCacheEntry x t session, c))) (\<lambda>entry.
     bindM (CacheUploadTaskEntry E u entry) (\<lambda>_. okR entry)))"
proof -
  let ?Q = "inv_and (\<lambda>d. P d \<and> holds_task u t d)"
  have Q: "closed (\<lambda>d. P d \<and> holds_task u t d)"
    by (intro closed_conj assms closed_holds_task)
  show ?thesis
  proof (rule keeps_bindM_with [where Q = "\<lambda>e d. ?Q d \<and> (\<exists>x. e = BuildUploadTaskCacheEntry x t session)"])
    show "keeps ?Q (callCache E (\<lambda>x c. (BuildUploadTaskCacheEntry x t session, c)))"
      by (rule keeps_cache_erase [OF assms(1) Q]) simp
    then show "?Q (sdb s') \<and> (\<exists>x. e = BuildUploadTaskCacheEntry x t session)"
      if "?Q (sdb s)" "callCache E (\<lambda>x c. (BuildUploadTaskCacheEntry x t session, c)) s = (Inr e, s')" for s e s'
      using that keepsD' by (fastforce simp: callCache_def Let_def)
  next
    fix e
    show "keeps (\<lambda>d. ?Q d \<and> (\<exists>x. e = BuildUploadTaskCacheEntry x t session))
      (bindM (CacheUploadTaskEntry E u e) (\<lambda>_. okR e))"
      by (rule keeps_and_const) (auto intro!: keeps_intros keeps_cache_put [OF assms])
  qed simp
qed

text \<open>On a miss the row read first and the session read next belong to the same task.\<close>

lemma keeps_load_chunk_task:
  assumes "cluster E" and "closed P"
  shows "keeps (inv_and P) (load_chunk_task E u uid)"
  unfolding load_chunk_task_def
proof (rule keeps_bindR_with [where Q = "\<lambda>t d. inv_and (\<lambda>d. P d \<and> holds_task u t d) d \<and> t_id t = u"])
  show find: "keeps (inv_and P) (FindUploadTask E u uid)"
    by (intro keeps_FindUploadTask stable_inv_and assms)
  show "inv_and (\<lambda>d. P d \<and> holds_task u t d) (sdb s') \<and> t_id t = u"
    if "inv_and P (sdb s)" "FindUploadTask E u uid s = (Inr (Inr t), s')" for s t s'
    using keepsD' [OF find that] FindUploadTask_ok [OF that(2)]
    by (auto simp: inv_and_def holds_task_def owned_task_def intro!: bexI [of _ t])
next
  fix t
  let ?Q = "inv_and (\<lambda>d. P d \<and> holds_task u t d)"
  have Q: "closed (\<lambda>d. P d \<and> holds_task u t d)"
    by (intro closed_conj assms closed_holds_task)
  have stag: "keeps ?Q (FindUploadStagingSession E u uid)"
    by (intro keeps_FindUploadStagingSession stable_inv_and assms(1) Q)
  have val: "?Q (sdb s') \<and> session_of t session"
    if "?Q (sdb s)" "FindUploadStagingSession E u uid s = (Inr (Inr session), s')" for s session s'
    using keepsD' [OF stag that] FindUploadStagingSession_ok [OF that(2)] session_of_same holds_task_unique
    by (metis inv_and_def)
  have "t_id t = u \<Longrightarrow> keeps ?Q (bindR (FindUploadStagingSession E u uid) (\<lambda>session.
         bindM (callCache E (\<lambda>x c. (BuildUploadTaskCacheEntry x t session, c))) (\<lambda>entry.
         bindM (CacheUploadTaskEntry E u entry) (\<lambda>_. okR entry))))"
    by (rule keeps_bindR_with [OF stag, where Q = "\<lambda>session d. ?Q d \<and> session_of t session"])
       (use val in \<open>auto intro: keeps_and_const keeps_cache_fill [OF assms]\<close>)
  then show "keeps (\<lambda>d. ?Q d \<and> t_id t = u)
    (if t_status t \<noteq> ToStorageValue InProgress
       then failR (ErrorInfo2 ResourceConflict ''Upload task no longer accepts chunks'')
       else bindR (FindUploadStagingSession E u uid) (\<lambda>session.
         bindM (callCache E (\<lambda>x c. (BuildUploadTaskCacheEntry x t session, c))) (\<lambda>entry.
         bindM (CacheUploadTaskEntry E u entry) (\<lambda>_. okR entry))))"
    by (intro keeps_and_const keeps_if keeps_failR) simp_all
qed (auto simp: inv_and_def)

lemma keeps_record_chunk:
  assumes "cluster E" and "closed P"
  shows "keeps (inv_and P) (Upload_Service.record_chunk E u uid i w)"
proof -
  have "keeps (inv_and P) (RecordChunkIfInProgress E u uid i n h k t)" for n h k t
    unfolding RecordChunkIfInProgress_def
    by (intro keeps_intros keeps_action assms) (erule commits.record_chunk, simp)
  then show ?thesis
    unfolding record_chunk_def
    by (auto intro!: keeps_intros keeps_Invalidate assms split: ChunkRecordDisposition.splits)
qed

lemma keeps_UploadChunk:
  assumes "cluster E" and "closed P"
  shows "keeps (inv_and P) (UploadChunk E U u i h data uid)"
  unfolding UploadChunk_def Let_def
  by (intro keeps_intros keeps_TryGet keeps_load_chunk_task keeps_store_call keeps_record_chunk assms)

section \<open>The service's wrappers\<close>

lemma keeps_invalidate_outcome:
  assumes "cluster E" and "closed P"
  shows "keeps (inv_and P) (invalidate_outcome E U uid tasks folder_ids)"
proof -
  have "keeps (inv_and P) (invalidate_tasks E us)" for us
    by (induction us) (simp_all add: keeps_intros keeps_Invalidate assms)
  then show ?thesis
    unfolding invalidate_outcome_def by (intro keeps_intros keeps_store_call assms)
qed

lemma keeps_InitUpload:
  assumes "cluster E" and "closed P" and "ir_filename request \<noteq> []"
  shows "keeps (inv_and P) (InitUpload E U u request uid)"
  unfolding InitUpload_def
  by (intro keeps_intros keeps_InitializeUpload keeps_invalidate_outcome assms(1,2)) (simp add: assms(3))

lemma keeps_UploadService_CompleteUpload:
  assumes "cluster E" and "closed P"
  shows "keeps (inv_and P) (UploadService_CompleteUpload E U u uid)"
  unfolding UploadService_CompleteUpload_def
  by (intro keeps_intros keeps_CompleteUpload keeps_invalidate_outcome assms)

lemma keeps_CancelUpload:
  assumes "cluster E" and "closed P"
  shows "keeps (inv_and P) (CancelUpload E U u uid)"
  unfolding CancelUpload_def
  by (intro keeps_intros keeps_CancelInProgressUpload keeps_Invalidate assms)

end
