(* ===== verification/Trash_Handlers.thy ===== *)
theory Trash_Handlers
  imports Upload_Handlers
begin

text \<open>
  The handlers of the trash consist of atomic actions: transactions of the runner, transactions
  they open themselves, lookups.  The rows a deletion was planned on are still the rows of the
  table when its transaction starts, because trash rows never change.
\<close>

section \<open>Lookups\<close>

lemma keeps_each_chunk: "(\<And>c. keeps P (f c)) \<Longrightarrow> keeps P (each_chunk f cs)"
  by (induction cs) (simp_all add: keeps_intros)

lemma keeps_for_each: "(\<And>c. keeps P (f c)) \<Longrightarrow> keeps P (for_each f cs)"
  by (induction cs) (simp_all add: keeps_intros)

lemma keeps_invalidate_list:
  assumes "cluster E" and "closed P"
  shows "keeps (inv_and P) (invalidate_list E S uid)"
  unfolding invalidate_list_def by (intro keeps_store_call assms)

section \<open>Moving and restoring\<close>

lemma keeps_MoveToTrash:
  assumes "cluster E" and "closed P"
  shows "keeps (inv_and P) (MoveToTrash E S fs ds uid)"
  unfolding MoveToTrash_def
  by (intro keeps_intros keeps_tx keeps_invalidate_list assms) (rule move_to_trash, assumption, simp)

lemma keeps_try_candidates:
  assumes "cluster E" and "closed P"
    and "\<And>i s v s'. body i (transaction_client E) s = (Inr (Inr v), s') \<Longrightarrow> commits (sdb s) (sdb s')"
  shows "keeps (inv_and P) (try_candidates n E failed occupied body i)"
  by (induction n arbitrary: i) (auto intro!: keeps_intros keeps_tx assms)

lemma keeps_restore_item:
  assumes "cluster E" and "closed P"
  shows "keeps (inv_and P) (restore_item E uid items i)"
proof -
  have "keeps (inv_and P) (RestoreFile E r uid)" for r
    unfolding RestoreFile_def
    by (intro keeps_intros keeps_try_candidates assms) (rule restore_file, assumption, simp)
  moreover have "keeps (inv_and P) (RestoreFolder E r uid)" for r
    unfolding RestoreFolder_def
    by (intro keeps_intros keeps_try_candidates assms) (rule restore_folder, assumption, simp)
  ultimately show ?thesis
    unfolding restore_item_def by (auto intro!: keeps_intros split: option.splits)
qed

lemma keeps_Prefetch: "stable P E \<Longrightarrow> keeps P (PrefetchLifecycleRowsByIds E ids)"
  unfolding PrefetchLifecycleRowsByIds_def by (intro keeps_intros keeps_each_chunk)

lemma keeps_Restore:
  assumes "cluster E" and "closed P"
  shows "keeps (inv_and P) (Restore E S uid ids)"
  unfolding Restore_def
  by (intro keeps_intros keeps_Prefetch keeps_for_each keeps_restore_item keeps_invalidate_list stable_inv_and assms)

section \<open>Permanent deletion\<close>

lemma keeps_own_transaction:
  assumes E: "cluster E" and Q: "closed Q"
    and body: "\<And>s v s'. inv_and Q (sdb s) \<Longrightarrow> body (transaction_client E) s = (Inr (True, v), s') \<Longrightarrow> commits (sdb s) (sdb s')"
  shows "keeps (inv_and Q) (own_transaction E body)"
proof (rule keepsI)
  fix s :: "'a session"
  assume "inv_and Q (sdb s)"
  then have d0: "inv_and Q (other E (pc s) (sdb s))"
    using stable_inv_and [OF E Q] by (simp add: stable_def)
  let ?s0 = "\<lparr>sdb = other E (pc s) (sdb s), pc = Suc (pc s), aborted = False\<rparr>"
  obtain r s' where r: "body (transaction_client E) ?s0 = (r, s')" by (cases "body (transaction_client E) ?s0")
  have "inv_and Q (sdb s')" if "r = Inr (True, v)" for v
    using inv_and_step [OF Q, of "sdb ?s0"] body [of ?s0] d0 r that by simp
  then show "inv_and Q (sdb (snd (own_transaction E body s)))"
    using d0 r by (cases r) (auto simp: own_transaction_def Let_def)
qed

lemma closed_and_held: "closed P \<Longrightarrow> closed (\<lambda>d. P d \<and> holds_trash items d)"
  by (intro closed_conj closed_holds_trash)

lemma holds_trash_sub: "holds_trash items d \<Longrightarrow> set xs \<subseteq> set items \<Longrightarrow> holds_trash xs d"
  by (auto simp: holds_trash_def)

abbreviation holding :: "('w db \<Rightarrow> bool) \<Rightarrow> trash_row list \<Rightarrow> 'w db \<Rightarrow> bool" where
  "holding P items \<equiv> inv_and (\<lambda>d. P d \<and> holds_trash items d)"

lemma keeps_purge:
  assumes "cluster E" and "closed P" and ord: "hash_order_ok (ts_hash_order S)" and sub: "set xs \<subseteq> set items"
  shows "keeps (holding P items) (PermanentlyDeleteTrashItems E S xs rv)"
proof -
  have "keeps (holding P items) (own_transaction E (purge_tx (ts_hash_order S) xs rv))"
  proof (rule keeps_own_transaction [OF assms(1) closed_and_held [OF assms(2)]])
    fix s v s'
    assume "holding P items (sdb s)" and "purge_tx (ts_hash_order S) xs rv (transaction_client E) s = (Inr (True, v), s')"
    then show "commits (sdb s) (sdb s')"
      using holds_trash_sub [OF _ sub] by (intro purge_trash [OF _ _ _ ord]) (auto simp: inv_and_def)
  qed
  then show ?thesis
    unfolding PermanentlyDeleteTrashItems_def by (intro keeps_intros)
qed

lemma prefetched_mem: "prefetched items i = Some r \<Longrightarrow> r \<in> set items"
  by (auto simp: prefetched_def dest: map_of_SomeD)

lemma keeps_delete_item:
  assumes "cluster E" and "closed P" and "hash_order_ok (ts_hash_order S)"
  shows "keeps (holding P items) (delete_item E S uid items i)"
proof (cases "prefetched items i")
  case (Some r)
  then have "set [r] \<subseteq> set items" by (simp add: prefetched_mem)
  from keeps_purge [OF assms this] Some show ?thesis
    unfolding delete_item_def Let_def by (auto intro!: keeps_intros split: sum.splits)
qed (simp add: delete_item_def keeps_intros)

text \<open>Rows read by a lookup are held, also when it reads in several statements.\<close>

lemma exec_read_held:
  assumes "cluster E" and "closed P" and "inv_and P (sdb s)"
    and run: "exec E (pureS g) s = (Inr rows, s')" and g: "\<And>d. set (g d) \<subseteq> set (trash d)"
  shows "holding P rows (sdb s')"
proof -
  have "inv_and P (sdb s')"
    using keepsD' [OF keeps_read [OF stable_inv_and [OF assms(1,2)]] assms(3) run] by (simp add: pureS_def)
  moreover from run have "rows = g (sdb s')" by (auto dest!: pure_ok)
  ultimately show ?thesis
    using holds_trash_read [OF _ g, of "sdb s'"] by (simp add: inv_and_def)
qed

lemma each_chunk_held:
  assumes "cluster E" and g: "\<And>c d. set (g c d) \<subseteq> set (trash d)"
  shows "each_chunk (\<lambda>c. exec E (pureS (g c))) cs s = (Inr rows, s') \<Longrightarrow> closed P \<Longrightarrow> inv_and P (sdb s) \<Longrightarrow>
    holding P rows (sdb s')"
proof (induction cs arbitrary: s rows P)
  case Nil
  then show ?case by (simp add: retM_def inv_and_def holds_trash_def)
next
  case (Cons c cs)
  from Cons.prems(1) obtain xs s1 ys where first: "exec E (pureS (g c)) s = (Inr xs, s1)"
    and rest: "each_chunk (\<lambda>c. exec E (pureS (g c))) cs s1 = (Inr ys, s')" and rows: "rows = xs @ ys"
    by (auto simp: retM_def elim!: bindM_okE)
  have "holding P xs (sdb s1)"
    by (rule exec_read_held [OF assms(1) Cons.prems(2,3) first g])
  from Cons.IH [OF rest closed_and_held [OF Cons.prems(2)] this] show ?case
    unfolding rows inv_and_def holds_trash_def by auto
qed

lemma keeps_Delete:
  assumes E: "cluster E" and P: "closed P" and ord: "hash_order_ok (ts_hash_order S)"
  shows "keeps (inv_and P) (Delete E S uid ids)"
  unfolding Delete_def
proof (rule keeps_bindM_with [where Q = "\<lambda>items. case items of None \<Rightarrow> inv_and P | Some rows \<Rightarrow> holding P rows"])
  let ?m = "catchDb (bindM (PrefetchLifecycleRowsByIds E ids) (\<lambda>items. retM (Some items))) (retM None)"
  show m: "keeps (inv_and P) ?m"
    by (intro keeps_intros keeps_Prefetch stable_inv_and E P)
  show "(case items of None \<Rightarrow> inv_and P | Some rows \<Rightarrow> holding P rows) (sdb s')"
    if "inv_and P (sdb s)" "?m s = (Inr items, s')" for s items s'
  proof (cases items)
    case None
    with keepsD' [OF m that] show ?thesis by simp
  next
    case (Some rows)
    with that(2) have "PrefetchLifecycleRowsByIds E ids s = (Inr rows, s')"
      by (auto simp: retM_def dest!: catchDb_retM_okD elim!: bindM_okE)
    then show ?thesis
      unfolding PrefetchLifecycleRowsByIds_def Some option.case
      by (rule each_chunk_held [OF E, of "\<lambda>chunk d. filter (\<lambda>r. tr_id r \<in> set chunk) (trash d)", OF _ _ P that(1), rotated]) auto
  qed
  show "keeps (case items of None \<Rightarrow> inv_and P | Some rows \<Rightarrow> holding P rows)
      (case items of None \<Rightarrow> failR (ErrorInfo2 InternalError ''Failed to delete trash items, please try again later'')
       | Some items \<Rightarrow> bindM (for_each (delete_item E S uid items) ids) (\<lambda>results. okR (summarize results, results)))" for items
    by (cases items) (auto intro!: keeps_intros keeps_for_each keeps_delete_item assms)
qed (auto simp: inv_and_def split: option.splits)

section \<open>Emptying the trash and expiry\<close>

lemma keeps_delete_chunks:
  assumes "cluster E" and "closed P" and "hash_order_ok (ts_hash_order S)"
  shows "set (concat cs) \<subseteq> set items \<Longrightarrow> keeps (holding P items) (delete_chunks E S cs acc)"
  by (induction cs arbitrary: acc) (auto intro!: keeps_intros keeps_purge assms)

lemma keeps_cleanup_chunks:
  assumes "cluster E" and "closed P" and "hash_order_ok (ts_hash_order S)"
  shows "set (concat cs) \<subseteq> set items \<Longrightarrow> keeps (holding P items) (cleanup_chunks E S cs n)"
  by (induction cs arbitrary: n) (auto intro!: keeps_intros keeps_purge assms)

lemma keeps_read_then:
  assumes E: "cluster E" and P: "closed P" and g: "\<And>d. set (g d) \<subseteq> set (trash d)"
    and k: "\<And>items. keeps (holding P items) (k items)"
  shows "keeps (inv_and P) (bindM (exec E (pureS g)) k)"
  by (rule keeps_bindM_with [where Q = "\<lambda>items. holding P items", OF _ exec_read_held [OF E P _ _ g] k])
     (auto intro!: keeps_intros stable_inv_and E P simp: inv_and_def)

lemma keeps_DeleteAll:
  assumes "cluster E" and "closed P" and "hash_order_ok (ts_hash_order S)"
  shows "keeps (inv_and P) (DeleteAll E S uid)"
  unfolding DeleteAll_def FetchLifecycleRowsForUser_def
  by (intro keeps_catchM keeps_read_then keeps_bindM keeps_delete_chunks keeps_okR keeps_failR assms)
     (auto simp: batches_cover)

lemma keeps_CleanupExpiredTrashPage:
  assumes "cluster E" and "closed P" and "hash_order_ok (ts_hash_order S)"
  shows "keeps (inv_and P) (CleanupExpiredTrashPage E S i n)"
proof -
  have g: "set (take n (sort_key tr_id (filter (\<lambda>r. tr_expires_at r < now d \<and> tr_id r > i) (trash d)))) \<subseteq> set (trash d)"
    for d :: "'a db" using set_take_subset by fastforce
  have chunks: "keeps (holding P items) (cleanup_chunks E S (batches DEFAULT_BATCH_CHUNK_SIZE items) 0)" for items
    by (rule keeps_cleanup_chunks [OF assms]) (simp only: batches_cover order_refl)
  show ?thesis
    unfolding CleanupExpiredTrashPage_def FetchExpiredLifecycleBatchAfterId_def
    by (intro keeps_if keeps_failR keeps_catchM keeps_read_then [OF assms(1,2) g] keeps_okR keeps_bindR chunks)
qed

lemma keeps_CleanupExpiredTrashItems:
  assumes "cluster E" and "closed P" and "hash_order_ok (ts_hash_order S)"
  shows "keeps (inv_and P) (CleanupExpiredTrashItems E S a b)"
proof -
  have "keeps (inv_and P) (cleanup_batches n E S m i k)" for n m i k
    by (induction n arbitrary: i k) (auto intro!: keeps_intros keeps_CleanupExpiredTrashPage assms)
  then show ?thesis
    unfolding CleanupExpiredTrashItems_def by (intro keeps_intros)
qed

end
