(* ===== verification/Worker_Handlers.thy ===== *)
theory Worker_Handlers
  imports Trash_Handlers
begin

text \<open>
  The job handlers, the page scans and the worker loop consist of atomic actions.
\<close>

section \<open>Statements of the queue\<close>

lemma ValidateNewJob_positive: "ValidateNewJob job s = (Inr x, s') \<Longrightarrow> 0 < nj_max_attempts job"
  by (auto simp: ValidateNewJob_def elim!: bindM_okE split: if_splits)

lemma keeps_validated:
  fixes k :: "unit \<Rightarrow> ('w, 'b) M"
  assumes "\<And>(s :: 'w session) x s'. ValidateNewJob job s = (Inr x, s') \<Longrightarrow> keeps P (k x)"
  shows "keeps P (bindM (ValidateNewJob job) k)"
proof (rule keepsI)
  fix s :: "'w session"
  assume P: "P (sdb s)"
  obtain r s' where r: "ValidateNewJob job s = (r, s')" by (cases "ValidateNewJob job s")
  then have "sdb s' = sdb s"
    by (auto simp: ValidateNewJob_def ValidateBoundedValue_def bindM_def retM_def throwM_def split: if_splits)
  with P r assms keepsD [of P "k _" s'] show "P (sdb (snd (bindM (ValidateNewJob job) k s)))"
    by (cases r) (auto simp: bindM_def)
qed

lemma keeps_Enqueue:
  assumes "cluster E" and "closed P"
  shows "keeps (inv_and P) (Enqueue E job)"
  unfolding Enqueue_def
  by (intro keeps_validated keeps_action assms) (auto intro: enqueue_job dest: ValidateNewJob_positive)

lemma keeps_EnqueueOrRearm:
  assumes "cluster E" and "closed P"
  shows "keeps (inv_and P) (EnqueueOrRearmSucceeded E job)"
  unfolding EnqueueOrRearmSucceeded_def
  by (intro keeps_validated keeps_intros keeps_action stable_inv_and assms) (auto intro: rearm_job dest: ValidateNewJob_positive)

lemma keeps_ValidateJobLease [keeps_intros]: "keeps P (ValidateJobLeaseArguments inst dur)"
  unfolding ValidateJobLeaseArguments_def by (intro keeps_intros)

lemma keeps_RenewLease:
  assumes "cluster E" and "closed P"
  shows "keeps (inv_and P) (RenewLease E i inst dur)"
  unfolding RenewLease_def by (intro keeps_intros keeps_action assms) (rule renew_job)

lemma keeps_MarkSucceeded:
  assumes "cluster E" and "closed P"
  shows "keeps (inv_and P) (MarkSucceeded E i inst)"
  unfolding MarkSucceeded_def by (intro keeps_intros keeps_action assms) (rule succeed_job)

lemma keeps_MarkFailed:
  assumes "cluster E" and "closed P"
  shows "keeps (inv_and P) (MarkFailed E i inst err retryable delay)"
  unfolding MarkFailed_def by (intro keeps_intros keeps_action assms) (rule fail_job)

lemma keeps_ToStorageJob [keeps_intros]: "keeps P (ToStorageJob r t)"
  unfolding ToStorageJob_def by (intro keeps_intros)

lemma keeps_mapM [keeps_intros]: "(\<And>x. keeps P (f x)) \<Longrightarrow> keeps P (mapM f xs)"
  by (induction xs) (simp_all add: keeps_intros)

lemma keeps_ClaimReadyBatch:
  assumes "cluster E" and "closed P"
  shows "keeps (inv_and P) (ClaimReadyBatch E locked inst n dur)"
  unfolding ClaimReadyBatch_def
  by (intro keeps_intros keeps_action assms) (rule exhaust_jobs claim_jobs, assumption)+

section \<open>Findings and pages\<close>

lemma keeps_finding_stmt:
  assumes "cluster E" and "closed P" and "\<And>d. \<exists>fs. g d = d\<lparr>findings := fs\<rparr>"
  shows "keeps (inv_and P) (exec E (updateS h g))"
proof (rule keeps_action [OF assms(1,2)])
  fix d :: "'a db" and v d'
  assume "updateS h g d = (Inr v, d')"
  with assms(3) [of d] show "commits d d'"
    using record_finding [of d] by (auto simp: updateS_def)
qed

lemma keeps_ResolveFinding:
  assumes "cluster E" and "closed P"
  shows "keeps (inv_and P) (ResolveFinding E ty res)"
  unfolding ResolveFinding_def by (intro keeps_finding_stmt assms) blast

lemma keeps_RecordFinding:
  assumes "cluster E" and "closed P"
  shows "keeps (inv_and P) (RecordFinding E f)"
  unfolding RecordFinding_def by (intro keeps_intros keeps_finding_stmt assms) (auto simp: Let_def)

lemma keeps_note_finding:
  assumes "cluster E" and "closed P"
  shows "keeps (inv_and P) (note_finding E f page)"
  unfolding note_finding_def by (intro keeps_intros keeps_RecordFinding assms)

lemmas keeps_page_parts = keeps_ResolveFinding keeps_note_finding keeps_store_call keeps_EnqueueOrRearm

lemma keeps_audit_content:
  assumes "cluster E" and "closed P"
  shows "keeps (inv_and P) (audit_content E R scan c n page)"
  unfolding audit_content_def audit_references_def audit_blob_def missing_blob_def Let_def
  by (intro keeps_intros keeps_page_parts assms)

lemma keeps_RunContentPage:
  assumes "cluster E" and "closed P"
  shows "keeps (inv_and P) (RunContentPage E R request)"
proof -
  have "keeps (inv_and P) (audit_contents E R scan rows page)" for scan rows page
    by (induction rows arbitrary: page) (auto intro!: keeps_intros keeps_audit_content assms)
  then show ?thesis
    unfolding RunContentPage_def by (intro keeps_intros stable_inv_and assms)
qed

lemma keeps_RunUserPage:
  assumes "cluster E" and "closed P"
  shows "keeps (inv_and P) (RunUserPage E request)"
proof -
  have "keeps (inv_and P) (audit_users E scan rows page)" for scan rows page
    unfolding audit_user_def
    by (induction rows arbitrary: page) (auto simp: audit_user_def Let_def intro!: keeps_intros keeps_page_parts assms)
  then show ?thesis
    unfolding RunUserPage_def by (intro keeps_intros stable_inv_and assms)
qed

lemma keeps_RunObjectPage:
  assumes "cluster E" and "closed P"
  shows "keeps (inv_and P) (RunObjectPage E R request)"
proof -
  have objs: "keeps (inv_and P) (audit_objects E R request ty refd objs page)" for ty refd objs page
    by (induction objs arbitrary: page) (auto simp: Let_def intro!: keeps_intros keeps_page_parts assms)
  have found: "\<exists>fs. resolve_stale ty fj request d = d\<lparr>findings := fs\<rparr>" for ty fj and d :: "'a db"
  proof (cases "find_row (scan_start fj request) (storage_jobs d)")
    case None
    then show ?thesis by (intro exI [of _ "findings d"]) (simp add: resolve_stale_def)
  qed (auto simp: resolve_stale_def)
  have stale: "keeps (inv_and P) (ResolveStaleObjectFindings E R ty request)" for ty
    unfolding ResolveStaleObjectFindings_def
    by (intro keeps_intros keeps_finding_stmt assms found)
  have "keeps (inv_and P) (list_objects E R request)"
    unfolding list_objects_def Let_def by (intro keeps_intros keeps_store_call assms)
  with objs stale show ?thesis
    unfolding RunObjectPage_def Let_def by (intro keeps_intros stable_inv_and assms)
qed

lemma keeps_RunPage:
  assumes "cluster E" and "closed P"
  shows "keeps (inv_and P) (RunPage E R request)"
  unfolding RunPage_def
  by (cases "rp_scope request") (auto intro!: keeps_intros keeps_RunContentPage keeps_RunUserPage keeps_RunObjectPage assms split: sum.splits)

section \<open>Handlers\<close>

lemma keeps_gc_transaction:
  assumes E: "cluster E" and Q: "closed Q"
    and body: "\<And>s v s'. body (transaction_client E) s = (Inr (True, v), s') \<Longrightarrow> commits (sdb s) (sdb s')"
  shows "keeps (inv_and Q) (gc_transaction E body)"
proof (rule keepsI)
  fix s :: "'a session"
  assume "inv_and Q (sdb s)"
  then have d0: "inv_and Q (other E (pc s) (sdb s))"
    using stable_inv_and [OF E Q] by (simp add: stable_def)
  then have rolled: "inv_and Q ((other E (pc s) (sdb s))\<lparr>store := w\<rparr>)" for w
    by (rule inv_and_step [OF Q _ object_storage])
  let ?s0 = "\<lparr>sdb = other E (pc s) (sdb s), pc = Suc (pc s), aborted = False\<rparr>"
  obtain r s' where r: "body (transaction_client E) ?s0 = (r, s')" by (cases "body (transaction_client E) ?s0")
  have "inv_and Q (sdb s')" if "r = Inr (True, v)" for v
    using inv_and_step [OF Q, of "sdb ?s0"] body [of ?s0] d0 r that by simp
  then show "inv_and Q (sdb (snd (gc_transaction E body s)))"
    using d0 rolled r by (cases r) (auto simp: gc_transaction_def Let_def)
qed

lemma keeps_ExecuteBlobGc:
  assumes "cluster E" and "closed P"
  shows "keeps (inv_and P) (ExecuteBlobGc E W job)"
  unfolding ExecuteBlobGc_def
  by (intro keeps_intros keeps_gc_transaction assms) (rule collect_blob, assumption, simp)

lemma keeps_continue_with:
  assumes "cluster E" and "closed P"
  shows "keeps (inv_and P) (continue_with E j)"
  unfolding continue_with_def by (intro keeps_intros keeps_Enqueue assms)

lemma keeps_ExecuteJob:
  assumes "cluster E" and "closed P" and ord: "hash_order_ok (ts_hash_order (wk_trash W))"
  shows "keeps (inv_and P) (ExecuteJob E W job)"
proof -
  have "keeps (inv_and P) (ExecuteStagingCleanup E W job)" "keeps (inv_and P) (ExecuteMultipartAbort E W job)"
    unfolding ExecuteStagingCleanup_def ExecuteMultipartAbort_def by (intro keeps_intros keeps_store_call assms)+
  moreover have "keeps (inv_and P) (ExecuteExpireUploads E W job)"
    unfolding ExecuteExpireUploads_def by (intro keeps_intros keeps_ExpireInProgressUploads keeps_continue_with assms)
  moreover have "keeps (inv_and P) (ExecuteExpireTrash E W job)"
    unfolding ExecuteExpireTrash_def by (intro keeps_intros keeps_CleanupExpiredTrashPage keeps_continue_with assms)
  moreover have "keeps (inv_and P) (ExecuteStorageReconcile E W job)"
    unfolding ExecuteStorageReconcile_def Let_def by (intro keeps_intros keeps_RunPage keeps_continue_with assms)
  ultimately show ?thesis
    unfolding ExecuteJob_def by (intro keeps_intros keeps_ExecuteBlobGc assms)
qed

section \<open>The loop\<close>

lemma keeps_heartbeat_lost [keeps_intros]: "keeps P (heartbeat_lost W)"
  by (simp add: keeps_def heartbeat_lost_def)

lemma keeps_ProcessClaimedJob:
  assumes "cluster E" and "closed P" and "hash_order_ok (ts_hash_order (wk_trash W))"
  shows "keeps (inv_and P) (ProcessClaimedJob E W job)"
  unfolding ProcessClaimedJob_def persist_outcome_def
  by (intro keeps_intros keeps_RenewLease keeps_ExecuteJob keeps_MarkSucceeded keeps_MarkFailed assms)

lemma keeps_RunOnce:
  assumes "cluster E" and "closed P" and "hash_order_ok (ts_hash_order (wk_trash W))"
  shows "keeps (inv_and P) (RunOnce E W)"
proof -
  have "keeps (inv_and P) (run_jobs E W jobs result)" for jobs result
    by (induction jobs arbitrary: result) (auto intro!: keeps_intros keeps_ProcessClaimedJob assms)
  then show ?thesis
    unfolding RunOnce_def by (intro keeps_intros keeps_ClaimReadyBatch assms)
qed

end
