(* ===== verification/Drive_Handlers.thy ===== *)
theory Drive_Handlers
  imports Trash_Handlers
begin

text \<open>The handlers that create, rename and move consist of atomic actions.\<close>

lemma keeps_Resolve: "stable P E \<Longrightarrow> keeps P (ResolveOwnedFolderLocation E i uid)"
  unfolding ResolveOwnedFolderLocation_def by (intro keeps_intros)

lemma keeps_drive_tx:
  assumes "cluster E" and "closed P"
    and "\<And>s v s'. body (transaction_client E) s = (Inr (Inr v), s') \<Longrightarrow> drive_commits s s'"
  shows "keeps (inv_and P) (Run E err body)"
  by (rule keeps_tx [OF assms(1,2)]) (blast intro: change_drive assms(3))

lemma keeps_CreateFolder:
  assumes "cluster E" and "closed P" and "cf_name request \<noteq> []"
  shows "keeps (inv_and P) (CreateFolder E S request uid)"
  unfolding CreateFolder_def
  by (intro keeps_intros keeps_drive_tx keeps_invalidate_list assms) (rule create_folder [OF _ _ assms(3)], assumption, simp)

lemma keeps_RenameFolder:
  assumes "cluster E" and "closed P" and "nm \<noteq> []"
  shows "keeps (inv_and P) (RenameFolder E S i nm uid)"
  unfolding RenameFolder_def
  by (intro keeps_intros keeps_drive_tx keeps_invalidate_list assms) (rule rename_folder [OF _ _ assms(3)], assumption, simp)

lemma keeps_RenameFile:
  assumes "cluster E" and "closed P" and "nm \<noteq> []"
  shows "keeps (inv_and P) (RenameFile E S i nm uid)"
  unfolding RenameFile_def
  by (intro keeps_intros keeps_drive_tx keeps_invalidate_list assms) (rule rename_file [OF _ _ assms(3)], assumption, simp)

lemma keeps_Move:
  assumes "cluster E" and "closed P"
  shows "keeps (inv_and P) (Move E S request uid)"
  unfolding Move_def
  by (intro keeps_intros keeps_Resolve keeps_drive_tx keeps_invalidate_list stable_inv_and assms) (rule move_items, assumption, simp)

lemma keeps_FileMutation_Delete:
  assumes "cluster E" and "closed P"
  shows "keeps (inv_and P) (FileMutation_Delete E S request uid)"
  unfolding FileMutation_Delete_def by (intro keeps_intros keeps_MoveToTrash assms)

text \<open>Names that were validated are not empty.\<close>

lemma ValidateFolderName_name: "ValidateFolderName nm = Inr (Inr u) \<Longrightarrow> nm \<noteq> []"
  by (auto simp: ValidateFolderName_def failP_def split: if_splits)

lemma request_names:
  "CreateFolderRequest_FromRequest body = Inr (Inr request) \<Longrightarrow> cf_name request \<noteq> []"
  "RenameFolderRequest_new_name body = Inr (Inr nm) \<Longrightarrow> nm \<noteq> []"
  "RenameRequest_new_name body = Inr (Inr nm) \<Longrightarrow> nm \<noteq> []"
  by (auto simp: CreateFolderRequest_FromRequest_def RenameFolderRequest_new_name_def RenameRequest_new_name_def Let_def
      bindP_ok_iff okP_def ValidateFilename_ok_iff acceptable_name_def dest: ValidateFolderName_name)

end
