(* ===== verification/Service_Requests.thy ===== *)
theory Service_Requests
  imports Request_Validation Storage_Job_Worker File_Mutation
begin

text \<open>
  Requests as the controllers hand them over (src/src/controllers/FileController.cpp,
  src/src/controllers/TrashController.cpp), the background tasks of
  src/src/services/CleanupService.cpp, and sequences of them.
\<close>

section \<open>The cleanup task\<close>

definition CleanupExpiredTrash :: "'w client \<Rightarrow> 'w trash_service \<Rightarrow> ('w, nat Result) M" where
  "CleanupExpiredTrash E S = CleanupExpiredTrashItems E S 100 20"

definition CleanupExpiredUploadTasks :: "'w client \<Rightarrow> ('w, nat Result) M" where
  "CleanupExpiredUploadTasks E =
     catchM (bindR (ExpireInProgressUploads E 100) (\<lambda>(_, expired). okR expired))
       (\<lambda>_. failR (ErrorInfo2 InternalError ''Failed to clean expired upload tasks''))"

text \<open>Both cleanups run, whatever the first one reports.\<close>

definition RunExpiredCleanupOnce :: "'w client \<Rightarrow> 'w trash_service \<Rightarrow> ('w, (nat \<times> nat) Result) M" where
  "RunExpiredCleanupOnce E S =
     bindM (CleanupExpiredTrash E S) (\<lambda>trash_result.
     bindM (CleanupExpiredUploadTasks E) (\<lambda>upload_result.
       case trash_result of
         Inl e \<Rightarrow> failR e
       | Inr t \<Rightarrow> (case upload_result of Inl e \<Rightarrow> failR e | Inr u \<Rightarrow> okR (t, u))))"

section \<open>Requests\<close>

record 'w services =
  sv_upload :: "'w upload_service"
  sv_trash :: "'w trash_service"
  sv_worker :: "'w worker"

text \<open>
  The entry points: the handlers of the upload and the trash controllers, deleting, moving and
  renaming files and folders and creating folders, and the background tasks: the cleanup and a
  run of the job worker.  A request carries its JSON body where it has one; a
  body that does not validate is answered without touching the state.
\<close>

datatype request =
    ReqInit string "json option" nat
  | ReqChunk string nat string string nat
  | ReqComplete string nat
  | ReqCancel string nat
  | ReqExpire nat
  | ReqEvict
  | ReqDelete "json option" nat
  | ReqRestore "json option" nat
  | ReqPurge "json option" nat
  | ReqEmptyTrash nat
  | ReqCleanup
  | ReqWork
  | ReqCreateFolder "json option" nat
  | ReqRenameFolder nat "json option" nat
  | ReqRenameFile nat "json option" nat
  | ReqMove "json option" nat

definition serve :: "'w client \<Rightarrow> 'w services \<Rightarrow> request \<Rightarrow> 'w session \<Rightarrow> 'w session" where
  "serve E V req s =
     (case req of
        ReqInit new_id body user_id \<Rightarrow>
          (case InitUploadRequest_FromRequest body of
             Inr (Inr r) \<Rightarrow> snd (InitUpload E (sv_upload V) new_id r user_id s)
           | _ \<Rightarrow> s)
      | ReqChunk upload_id i hash bytes user_id \<Rightarrow> snd (UploadChunk E (sv_upload V) upload_id i hash bytes user_id s)
      | ReqComplete upload_id user_id \<Rightarrow> snd (UploadService_CompleteUpload E (sv_upload V) upload_id user_id s)
      | ReqCancel upload_id user_id \<Rightarrow> snd (CancelUpload E (sv_upload V) upload_id user_id s)
      | ReqExpire limit \<Rightarrow> snd (ExpireInProgressUploads E limit s)
      | ReqEvict \<Rightarrow> snd (EvictExpiredUploadTaskCacheEntries E s)
      | ReqDelete body user_id \<Rightarrow>
          (case DeleteRequest_FromRequest body of
             Inr (Inr r) \<Rightarrow> snd (FileMutation_Delete E (sv_trash V) r user_id s)
           | _ \<Rightarrow> s)
      | ReqRestore body user_id \<Rightarrow>
          (case TrashBatchRequest_FromRequest body of
             Inr (Inr ids) \<Rightarrow> snd (Restore E (sv_trash V) user_id ids s)
           | _ \<Rightarrow> s)
      | ReqPurge body user_id \<Rightarrow>
          (case TrashBatchRequest_FromRequest body of
             Inr (Inr ids) \<Rightarrow> snd (Delete E (sv_trash V) user_id ids s)
           | _ \<Rightarrow> s)
      | ReqEmptyTrash user_id \<Rightarrow> snd (DeleteAll E (sv_trash V) user_id s)
      | ReqCleanup \<Rightarrow> snd (RunExpiredCleanupOnce E (sv_trash V) s)
      | ReqWork \<Rightarrow> snd (RunOnce E (sv_worker V) s)
      | ReqCreateFolder body user_id \<Rightarrow>
          (case CreateFolderRequest_FromRequest body of
             Inr (Inr r) \<Rightarrow> snd (CreateFolder E (sv_trash V) r user_id s)
           | _ \<Rightarrow> s)
      | ReqRenameFolder folder_id body user_id \<Rightarrow>
          (case RenameFolderRequest_new_name body of
             Inr (Inr new_name) \<Rightarrow> snd (RenameFolder E (sv_trash V) folder_id new_name user_id s)
           | _ \<Rightarrow> s)
      | ReqRenameFile file_id body user_id \<Rightarrow>
          (case RenameRequest_new_name body of
             Inr (Inr new_name) \<Rightarrow> snd (RenameFile E (sv_trash V) file_id new_name user_id s)
           | _ \<Rightarrow> s)
      | ReqMove body user_id \<Rightarrow>
          (case MoveRequest_FromRequest body of
             Inr (Inr r) \<Rightarrow> snd (Move E (sv_trash V) r user_id s)
           | _ \<Rightarrow> s))"

text \<open>A sequence of requests, each over its own connection and by its own instance.\<close>

definition serve_all :: "('w client \<times> 'w services \<times> request) list \<Rightarrow> 'w session \<Rightarrow> 'w session" where
  "serve_all reqs s = foldl (\<lambda>s (E, V, req). serve E V req s) s reqs"

end
