(* ===== verification/Service_Handlers.thy ===== *)
theory Service_Handlers
  imports Worker_Handlers Drive_Handlers Service_Requests
begin

text \<open>
  Requests of all kinds, served by several instances over their own connections, are sequences
  of atomic actions.
\<close>

lemma keeps_RunExpiredCleanupOnce:
  assumes "cluster E" and "closed P" and "hash_order_ok (ts_hash_order S)"
  shows "keeps (inv_and P) (RunExpiredCleanupOnce E S)"
  unfolding RunExpiredCleanupOnce_def CleanupExpiredTrash_def CleanupExpiredUploadTasks_def
  by (intro keeps_intros keeps_CleanupExpiredTrashItems keeps_ExpireInProgressUploads assms)

lemma InitUploadRequest_name: "InitUploadRequest_FromRequest body = Inr (Inr r) \<Longrightarrow> ir_filename r \<noteq> []"
  unfolding InitUploadRequest_FromRequest_def
  by (auto simp: bindP_ok_iff ValidateFilename_ok_iff acceptable_name_def okP_def failP_def split: if_splits)

text \<open>
  What is assumed of an instance: its connection interleaves with actions of the cluster only,
  and its hash maps iterate over every key once.
\<close>

definition deployed :: "'w client \<Rightarrow> 'w services \<Rightarrow> bool" where
  "deployed E V \<longleftrightarrow> cluster E \<and> hash_order_ok (ts_hash_order (sv_trash V)) \<and>
     hash_order_ok (ts_hash_order (wk_trash (sv_worker V)))"

lemma keeps_serve:
  assumes "deployed E V" and P: "closed P" and inv: "inv_and P (sdb s)"
  shows "inv_and P (sdb (serve E V req s))"
proof -
  have E: "cluster E" and ord: "hash_order_ok (ts_hash_order (sv_trash V))"
    and wk: "hash_order_ok (ts_hash_order (wk_trash (sv_worker V)))"
    using assms(1) by (simp_all add: deployed_def)
  show ?thesis
    unfolding serve_def using inv
    by (auto simp: keepsD keeps_InitUpload InitUploadRequest_name keeps_UploadChunk keeps_UploadService_CompleteUpload
        keeps_CancelUpload keeps_ExpireInProgressUploads keeps_Evict keeps_Restore keeps_Delete
        keeps_CreateFolder keeps_RenameFolder keeps_RenameFile keeps_Move keeps_FileMutation_Delete request_names
        keeps_DeleteAll keeps_RunExpiredCleanupOnce keeps_RunOnce E P ord wk split: request.split sum.split)
qed

lemma keeps_serve_all:
  assumes "\<forall>(E, V, req) \<in> set reqs. deployed E V" and "closed P" and "inv_and P (sdb s)"
  shows "inv_and P (sdb (serve_all reqs s))"
  using assms(1,3)
proof (induction reqs arbitrary: s)
  case (Cons x reqs)
  obtain E V req where x: "x = (E, V, req)" by (cases x)
  with Cons.prems have "inv_and P (sdb (serve E V req s))"
    by (intro keeps_serve assms(2)) simp_all
  with Cons x show ?case
    by (simp add: serve_all_def)
qed (simp add: serve_all_def)

lemma serve_all_commits:
  assumes "\<forall>(E, V, req) \<in> set reqs. deployed E V" and "db_inv (sdb s)"
  shows "commits\<^sup>*\<^sup>* (sdb s) (sdb (serve_all reqs s)) \<and> db_inv (sdb (serve_all reqs s))"
  using keeps_serve_all [OF assms(1) closed_reach [of "sdb s"], of s] assms(2)
  by (auto simp: inv_and_def)

end
