(* ===== verification/Upload_Results.thy ===== *)
theory Upload_Results
  imports Service_Handlers
begin

text \<open>
  What the results of the handlers mean: the row a cancellation or a completion leaves behind,
  the file and content a completed upload has, the fencing of owners that lost their lease, and
  that a failed cancellation has no effect of its own.
\<close>

lemma Some_eq_map: "Some y = map_option f x \<longleftrightarrow> (\<exists>z. x = Some z \<and> y = f z)"
  by (cases x) auto

section \<open>Rows after the closing transactions\<close>

lemma db_inv_distinct_tasks: "db_inv d \<Longrightarrow> distinct (map t_id (upload_tasks d))"
  by (simp add: db_inv_def tasks_inv_def)

lemma db_inv_contents: "db_inv d \<Longrightarrow> contents_inv (file_contents d) (seq_contents d) (files d) (trash d)"
  by (simp add: db_inv_def)

lemma complete_tx_row:
  assumes run: "complete_tx cc v t session a path dec T s = (Inr (Inr f), s')" and "in_tx T" and "db_inv (sdb s)"
  shows "\<exists>r \<in> set (upload_tasks (sdb s')). t_id r = cc_upload_id cc \<and> t_user_id r = cc_user_id cc \<and>
    t_status r = ToStorageValue Completed \<and> t_completed_file_id r = Some (f_id f)"
proof -
  let ?e = "renewed cc v (sdb s)"
  from complete_tx_ok [OF run assms(2) db_inv_contents [OF assms(3)]] obtain r cs' n' ds where
    r: "r \<in> set (upload_tasks ?e)" "owns_lease (now ?e) (cc_upload_id cc) (cc_user_id cc) (cc_lease_owner cc) (v + 1) r"
    and s': "sdb s' = completed_from cc (v + 1) (t_file_size t) session cs' n' f ds ?e"
    by (auto simp: Let_def)
  then have "complete_set (now ?e) (f_id f) r \<in> set (upload_tasks (sdb s'))"
    by (auto simp: mem_update_where)
  with r(2) show ?thesis
    by (intro bexI [of _ "complete_set (now ?e) (f_id f) r"]) (simp_all add: complete_set_def lease_guard_defs)
qed

text \<open>The file of a committed finalization: its name, place and size are the task's, and its content carries the assembled hashes.\<close>

lemma complete_tx_file:
  assumes run: "complete_tx cc v t session a path dec T s = (Inr (Inr f), s')" and "in_tx T" and "db_inv (sdb s)"
  shows "f \<in> set (files (sdb s')) \<and> f_user_id f = cc_user_id cc \<and> f_name f = t_filename t \<and>
    f_folder_id f = t_folder_id t \<and> f_size f = t_file_size t \<and>
    (\<exists>c \<in> set (file_contents (sdb s')). fc_id c = f_content_id f \<and> fc_hash_md5 c = as_md5_hash a \<and>
       fc_hash_sha256 c = as_sha256_hash a \<and> fc_size c = t_file_size t)"
  using complete_tx_ok [OF run assms(2) db_inv_contents [OF assms(3)]]
  by (auto simp: Let_def completed_from_def filed_def)

lemma ended_row:
  assumes "r \<in> set (upload_tasks d)" and "p r"
  shows "finish_set st t m r \<in> set (upload_tasks (ended p (finish_set st t m) r session d))"
  using assms by (auto simp: mem_update_where)

section \<open>Frozen rows\<close>

text \<open>A row found in a terminal status is the same row, up to the file reference, in every later state.\<close>

lemma terminal_row_stays:
  assumes "db_inv d" and "commits\<^sup>*\<^sup>* d d'" and "r \<in> set (upload_tasks d)" and "terminal_value (t_status r)"
    and "r' \<in> set (upload_tasks d')" and "t_id r' = t_id r"
  shows "frozen r r'"
proof -
  have "task_evolves r r'"
    using assms by (intro tasks_evolveD [OF commits_evolves_steps])
      (auto intro: db_inv_distinct_tasks commits_inv_steps)
  with assms(4) show ?thesis
    by (simp add: task_evolves_def)
qed

lemma evolved_row:
  assumes "db_inv d" and "commits\<^sup>*\<^sup>* d d'" and "r \<in> set (upload_tasks d)"
    and "r' \<in> set (upload_tasks d')" and "t_id r' = t_id r"
  shows "task_evolves r r'"
  using assms by (intro tasks_evolveD [OF commits_evolves_steps])
    (auto intro: db_inv_distinct_tasks commits_inv_steps)

text \<open>No row can own a lease under a version below one that was seen.\<close>

lemma stale_version:
  assumes "db_inv d" and "commits\<^sup>*\<^sup>* d d'" and "r \<in> set (upload_tasks d)" and "t_id r = u" and "v < t_state_version r"
  shows "\<forall>r' \<in> set (upload_tasks d'). \<not> owns_lease t u uid owner v r'"
proof (intro ballI notI)
  fix r'
  assume r': "r' \<in> set (upload_tasks d')" and own: "owns_lease t u uid owner v r'"
  then have "task_evolves r r'"
    using assms by (intro evolved_row [OF assms(1-3) r']) (simp add: lease_guard_defs)
  with own assms(5) show False
    by (simp add: task_evolves_def owns_lease_def)
qed

lemma terminal_no_lease:
  assumes "db_inv d" and "commits\<^sup>*\<^sup>* d d'" and "r \<in> set (upload_tasks d)" and "t_id r = u" and "terminal_value (t_status r)"
  shows "\<forall>r' \<in> set (upload_tasks d'). t_id r' = u \<longrightarrow> t_status r' = t_status r"
  using terminal_row_stays [OF assms(1-3,5)] assms(4) by (auto dest: frozen_status)

section \<open>Cancellation\<close>

lemma cancel_reply_ok:
  "cancel_reply x s = (Inr (Inr v), s') \<Longrightarrow>
   s' = s \<and> (\<exists>cs. x = Some cs \<and> cs_status cs = ToStorageValue Cancelled \<and> v = cs_state_version cs)"
  unfolding cancel_reply_def
  by (auto split: option.splits if_splits CancelRequestAction.splits UploadTaskStatus.splits
      simp: DecideCancelRequest_def FromStorage_Some)

lemma CancelInProgressUpload_ok:
  assumes "CancelInProgressUpload E u uid s = (Inr (Inr v), s')"
  shows "\<exists>r \<in> set (upload_tasks (sdb s')). t_id r = u \<and> t_user_id r = uid \<and>
    t_status r = ToStorageValue Cancelled \<and> t_state_version r = v"
proof -
  from assms obtain x s1 where run: "Run E (ErrorInfo1 InternalError) (cancel_tx u uid) s = (Inr (Inr x), s1)"
    and k: "(case x of Some v \<Rightarrow> okR v | None \<Rightarrow> bindM (FindCancellationStateByIdForUser E u uid) cancel_reply) s1 = (Inr (Inr v), s')"
    unfolding CancelInProgressUpload_def by (rule bindR_okE)
  show ?thesis
  proof (cases x)
    case None
    with k obtain y s2 where "FindCancellationStateByIdForUser E u uid s1 = (Inr y, s2)"
      and rep: "cancel_reply y s2 = (Inr (Inr v), s')"
      by (auto elim: bindM_okE)
    then have "sdb s2 = seen E s1" and y: "y = map_option (\<lambda>r. \<lparr>cs_status = t_status r, cs_state_version = t_state_version r,
             cs_task_expired = t_expires_at r < now (seen E s1)\<rparr>) (find_row (owned_task u uid) (upload_tasks (seen E s1)))"
      unfolding FindCancellationStateByIdForUser_def by (auto dest: pure_ok)
    with cancel_reply_ok [OF rep] show ?thesis
      by (auto simp: owned_task_def dest!: find_row_Some)
  next
    case (Some w)
    with k have eq: "w = v" "s' = s1" by simp_all
    from run obtain s0 s2 where tx: "cancel_tx u uid (transaction_client E) s0 = (Inr (Inr x), s2)" and "sdb s1 = sdb s2"
      by (rule Run_okE)
    with cancel_tx_ok [OF tx] Some obtain r session where r: "r \<in> set (upload_tasks (sdb s0))" "cancel_guard (now (sdb s0)) u uid r"
      "w = t_state_version r + 1" and s1: "sdb s1 = ended (cancel_guard (now (sdb s0)) u uid)
         (finish_set Cancelled (now (sdb s0)) cancel_reason) r session (sdb s0)" by auto
    from ended_row [of r "sdb s0" "cancel_guard (now (sdb s0)) u uid" Cancelled "now (sdb s0)" cancel_reason session] r s1 eq show ?thesis
      by (intro bexI [of _ "finish_set Cancelled (now (sdb s0)) cancel_reason r"])
         (simp_all add: finish_set_def cancel_guard_def owned_task_def)
  qed
qed

text \<open>An operation whose result is not a success leaves the database to the other sessions.\<close>

lemma Run_failure_keeps:
  assumes "stable P E" and "P (sdb s)" and "Run E err body s = (Inr (Inl e), s')"
  shows "P (sdb s')"
  using Run_error_rolls_back [OF assms(3)] assms(1,2) by (simp add: stable_def)

lemma cancel_tx_none:
  assumes "Run E err (cancel_tx u uid) s = (Inr (Inr None), s')" and "stable P E" and "P (sdb s)"
  shows "P (sdb s')"
proof -
  from assms(1) obtain s0 s1 where s0: "sdb s0 = other E (pc s) (sdb s)"
    and tx: "cancel_tx u uid (transaction_client E) s0 = (Inr (Inr None), s1)" and "sdb s' = sdb s1"
    by (rule Run_okE)
  with cancel_tx_ok [OF tx] have "sdb s' = other E (pc s) (sdb s)" by auto
  with assms(2,3) show ?thesis by (simp add: stable_def)
qed

lemma CancelInProgressUpload_failure:
  assumes "stable P E" and "P (sdb s)" and "CancelInProgressUpload E u uid s = (r, s')" and "\<And>v. r \<noteq> Inr (Inr v)"
  shows "P (sdb s')"
proof -
  obtain x s1 where run: "Run E (ErrorInfo1 InternalError) (cancel_tx u uid) s = (Inr x, s1)"
    using Run_never_throws by blast
  show ?thesis
  proof (cases x)
    case (Inl e)
    with run assms(3) have "s' = s1" by (simp add: CancelInProgressUpload_def bindR_def bindM_def failR_def retM_def)
    with run Inl assms(1,2) show ?thesis by (auto intro: Run_failure_keeps)
  next
    case (Inr y)
    with run assms(3,4) have y: "y = None" and rest: "bindM (FindCancellationStateByIdForUser E u uid) cancel_reply s1 = (r, s')"
      by (auto simp: CancelInProgressUpload_def bindR_def bindM_def okR_def retM_def split: option.splits)
    have "P (sdb s1)"
      using run Inr y assms(1,2) by (auto intro: cancel_tx_none)
    moreover have "keeps P (bindM (FindCancellationStateByIdForUser E u uid) cancel_reply)"
      by (intro keeps_intros keeps_cancel_reply assms(1))
    ultimately show ?thesis
      using rest by (auto dest: keepsD')
  qed
qed

section \<open>Completion\<close>

lemma complete_assemble_ok:
  assumes "complete_assemble E L st cc v t session chunks s = (Inr (Inr (a, v')), s')"
  shows "as_size_bytes a = t_file_size t \<and> as_md5_hash a = t_file_hash t"
  using assms unfolding complete_assemble_def fail_recorded_def
  by (auto elim!: bindM_okE split: sum.splits if_splits)

text \<open>What is known once a finalization that held the lease has succeeded.\<close>

definition finalized :: "CompleteUploadCommand \<Rightarrow> CompleteUploadOutcome \<Rightarrow> 'w db \<Rightarrow> bool" where
  "finalized cc out d \<longleftrightarrow>
     (\<exists>r \<in> set (upload_tasks d). \<exists>f \<in> set (files d). \<exists>c \<in> set (file_contents d).
        t_id r = cc_upload_id cc \<and> t_user_id r = cc_user_id cc \<and> t_status r = ToStorageValue Completed \<and>
        t_completed_file_id r = Some (f_id f) \<and>
        f_user_id f = cc_user_id cc \<and> f_name f = t_filename r \<and> f_folder_id f = t_folder_id r \<and> f_size f = t_file_size r \<and>
        f_content_id f = fc_id c \<and> fc_hash_md5 c = t_file_hash r \<and> fc_size c = t_file_size r \<and>
        co_file out = ToLifecycleFileItem f (fc_hash_md5 c))"

lemma complete_commit_ok:
  assumes E: "cluster E" and inv: "inv_and (holds_task (cc_upload_id cc) t) (sdb s)"
    and session: "ss_upload_id session = cc_upload_id cc" and hash: "as_md5_hash a = t_file_hash t"
    and run: "complete_commit E L st cc v t session a s = (Inr (Inr out), s')"
  shows "finalized cc out (sdb s')"
proof -
  let ?P = "inv_and (holds_task (cc_upload_id cc) t)"
  have cl: "closed (holds_task (cc_upload_id cc) t)" by (rule closed_holds_task)
  have st: "stable ?P E" by (intro stable_inv_and E cl)
  from run obtain x fe s1 path s2 w s3 fl s4 dec where
    look: "complete_lookup E cc t (as_md5_hash a) s = (Inr (x, fe), s1)"
    and prom: "complete_promote E L st cc v session a x dec s1 = (Inr (Inr path), s2)"
    and ren: "RenewLeaseOrConflict E cc v s2 = (Inr (Inr w), s3)"
    and tx: "Run E (ErrorInfo1 InternalError) (complete_tx cc w t session a path dec) s3 = (Inr (Inr fl), s4)"
    and out: "s' = s4" "co_file out = ToLifecycleFileItem fl (as_md5_hash a)"
    unfolding complete_commit_def Let_def fail_recorded_def
    by (auto elim!: bindM_okE bindR_okE split: if_splits sum.splits)
  have "?P (sdb s3)"
    by (rule keepsD' [OF keeps_renew [OF E cl] keepsD' [OF keeps_complete_promote [OF E cl]
          keepsD' [OF keeps_complete_lookup [OF st] inv look] prom] ren])
  from tx obtain s0 s5 where s0: "sdb s0 = other E (pc s3) (sdb s3)"
    and body: "complete_tx cc w t session a path dec (transaction_client E) s0 = (Inr (Inr fl), s5)" and s4: "sdb s4 = sdb s5"
    by (rule Run_okE)
  have P0: "?P (sdb s0)"
    using s0 \<open>?P (sdb s3)\<close> st by (simp add: stable_def)
  have inv0: "db_inv (sdb s0)" and hold: "holds_task (cc_upload_id cc) t (sdb s0)"
    using P0 by (simp_all add: inv_and_def)
  note row = complete_tx_row [OF body in_tx_transaction_client inv0]
  note fl_facts = complete_tx_file [OF body in_tx_transaction_client inv0]
  have step: "commits (sdb s0) (sdb s5)"
    by (rule complete_upload [OF body in_tx_transaction_client hold session])
  from row obtain r where r: "r \<in> set (upload_tasks (sdb s5))" "t_id r = cc_upload_id cc" "t_user_id r = cc_user_id cc"
    "t_status r = ToStorageValue Completed" "t_completed_file_id r = Some (f_id fl)" by blast
  have "same_task t r"
  proof (rule holds_task_unique [OF _ _ r(1,2)])
    show "db_inv (sdb s5)" using commits_inv [OF step inv0] .
    show "holds_task (cc_upload_id cc) t (sdb s5)"
      using hold commits_evolves [OF step inv0] by (rule holds_task_evolves)
  qed
  moreover from fl_facts obtain c where c: "c \<in> set (file_contents (sdb s5))" "fc_id c = f_content_id fl"
    "fc_hash_md5 c = as_md5_hash a" "fc_size c = t_file_size t" by blast
  ultimately show ?thesis
    using r fl_facts out s4 hash unfolding finalized_def same_task_def
    by (intro bexI [of _ r] bexI [of _ fl] bexI [of _ c]) simp_all
qed

lemma complete_acquired_ok:
  assumes E: "cluster E" and inv: "db_inv (sdb s)" and run: "complete_acquired E L cc v s = (Inr (Inr out), s')"
  shows "finalized cc out (sdb s')"
proof -
  from run obtain t session chunks s1 st a w s2 where
    load: "complete_load E cc v s = (Inr (Inr (t, session, chunks)), s1)"
    and asm: "complete_assemble E L st cc v t session chunks s1 = (Inr (Inr (a, w)), s2)"
    and com: "complete_commit E L st cc w t session a s2 = (Inr (Inr out), s')"
    unfolding complete_acquired_def fail_recorded_def
    by (auto elim!: bindR_okE bindM_okE split: option.splits)
  have "inv_and (\<lambda>_. True) (sdb s)" using inv by (simp add: inv_and_def)
  from complete_load_ok [OF E closed_True this load] have
    s1: "inv_and (holds_task (cc_upload_id cc) t) (sdb s1)" and session: "ss_upload_id session = cc_upload_id cc"
    by (simp_all add: inv_and_def)
  have "inv_and (holds_task (cc_upload_id cc) t) (sdb s2)"
    by (rule keepsD' [OF keeps_complete_assemble [OF E closed_holds_task] s1 asm])
  from complete_commit_ok [OF E this session _ com] complete_assemble_ok [OF asm] show ?thesis by simp
qed

text \<open>
  A replayed completion: in the tables \<open>d\<close> the claim left, the row was already completed and
  referenced the file; it still is completed in the tables \<open>d'\<close> of the reply, and the
  reported item is the file of that id with the hash of its content as they are there.
\<close>

definition replayed :: "CompleteUploadCommand \<Rightarrow> CompleteUploadOutcome \<Rightarrow> 'w db \<Rightarrow> 'w db \<Rightarrow> bool" where
  "replayed cc out d d' \<longleftrightarrow>
     (\<exists>r \<in> set (upload_tasks d). owned_task (cc_upload_id cc) (cc_user_id cc) r \<and>
        t_status r = ToStorageValue Completed \<and> t_completed_file_id r = Some (li_id (co_file out))) \<and>
     (\<exists>r \<in> set (upload_tasks d'). owned_task (cc_upload_id cc) (cc_user_id cc) r \<and> t_status r = ToStorageValue Completed) \<and>
     (\<exists>f \<in> set (files d'). \<exists>c \<in> set (file_contents d'). f_id f = li_id (co_file out) \<and> f_user_id f = cc_user_id cc \<and>
        fc_id c = f_content_id f \<and> co_file out = ToLifecycleFileItem f (fc_hash_md5 c))"

text \<open>What a claim that got the lease leaves in the task's row.\<close>

definition lease_taken :: "CompleteUploadCommand \<Rightarrow> nat \<Rightarrow> 'w db \<Rightarrow> bool" where
  "lease_taken cc v d \<longleftrightarrow>
     (\<exists>r \<in> set (upload_tasks d). owned_task (cc_upload_id cc) (cc_user_id cc) r \<and>
        t_status r = ToStorageValue Finalizing \<and> t_lease_owner r = Some (cc_lease_owner cc) \<and> t_state_version r = v)"

lemma claim_acquired_ok:
  assumes "ClaimFinalizeLease E (cc_upload_id cc) (cc_user_id cc) (cc_lease_owner cc) dur s = (Inr c, s')"
    and "fr_disposition c = Acquired"
  shows "lease_taken cc (fr_state_version c) (sdb s')"
proof -
  let ?g = "claim_guard (seen E s) (cc_upload_id cc) (cc_user_id cc)"
  have "claim_disposition a b \<noteq> Acquired" for a b
    by (cases a) (simp_all add: claim_disposition_def)
  with assms obtain v vs where st: "exec E (claim_stmt (cc_upload_id cc) (cc_user_id cc) (cc_lease_owner cc) dur) s = (Inr (v # vs), s')"
    and v: "fr_state_version c = v"
    unfolding ClaimFinalizeLease_def
    by (auto elim!: bindM_okE dest!: ValidateLeaseArguments_ok split: list.splits option.splits)
  then have hits: "map (\<lambda>r. t_state_version r + 1) (filter ?g (upload_tasks (seen E s))) = v # vs"
    and d': "upload_tasks (sdb s') = update_where ?g (claim_set (now (seen E s)) (cc_lease_owner cc) dur) (upload_tasks (seen E s))"
    by (auto simp: claim_stmt_def elim!: exec_okE dest!: sym [of _ "sdb s'"])
  from hits obtain r rs where hit: "filter ?g (upload_tasks (seen E s)) = r # rs" and rv: "t_state_version r + 1 = v"
    by (metis (no_types, lifting) map_eq_Cons_conv)
  then have "r \<in> set (filter ?g (upload_tasks (seen E s)))" by simp
  then have "r \<in> set (upload_tasks (seen E s))" "?g r" by simp_all
  then have "claim_set (now (seen E s)) (cc_lease_owner cc) dur r \<in> set (upload_tasks (sdb s'))"
    "owned_task (cc_upload_id cc) (cc_user_id cc) r"
    by (auto simp: d' mem_update_where claim_guard_def)
  then show ?thesis
    unfolding lease_taken_def using rv v
    by (intro bexI [of _ "claim_set (now (seen E s)) (cc_lease_owner cc) dur r"]) (simp_all add: claim_set_def owned_task_def)
qed

lemma claim_replay_ok:
  assumes "ClaimFinalizeLease E u uid owner dur s = (Inr c, s')" and "fr_disposition c = CompletedReplay"
  shows "\<exists>r \<in> set (upload_tasks (sdb s')). owned_task u uid r \<and> t_status r = ToStorageValue Completed \<and>
    fr_completed_file_id c = t_completed_file_id r"
proof -
  from assms obtain s1 r t where look: "exec E (pureS (\<lambda>d. map_option (\<lambda>r. (r, now d))
      (find_row (owned_task u uid) (upload_tasks d)))) s1 = (Inr (Some (r, t)), s')"
    and c: "fr_disposition c = claim_disposition (DecideFinalizeRequest (t_status r) (lease_expired t r)) (t_expires_at r < t)"
      "fr_completed_file_id c = t_completed_file_id r"
    unfolding ClaimFinalizeLease_def
    by (auto elim!: bindM_okE dest!: ValidateLeaseArguments_ok split: list.splits option.splits)
  have "t_status r = ToStorageValue Completed"
    using c(1) assms(2)
    by (auto simp: claim_disposition_def DecideFinalizeRequest_def FromStorage_Some
        split: FinalizeRequestAction.splits option.splits UploadTaskStatus.splits if_splits)
  moreover have "r \<in> set (upload_tasks (sdb s')) \<and> owned_task u uid r"
    using pure_ok [OF look] by (auto simp: Some_eq_map dest!: find_row_Some)
  ultimately show ?thesis
    using c(2) by blast
qed

lemma FindCompletedFile_ok:
  assumes "FindCompletedFile E fid uid s = (Inr (Some i), s')" and "db_inv (sdb s')"
  shows "\<exists>f \<in> set (files (sdb s')). \<exists>c \<in> set (file_contents (sdb s')). f_id f = fid \<and> f_user_id f = uid \<and>
    fc_id c = f_content_id f \<and> i = ToLifecycleFileItem f (fc_hash_md5 c)"
proof -
  let ?hash = "\<lambda>f. case find_row (\<lambda>c. fc_id c = f_content_id f) (file_contents (sdb s')) of None \<Rightarrow> '''' | Some c \<Rightarrow> fc_hash_md5 c"
  from assms(1) obtain f where find: "find_row (\<lambda>f. f_id f = fid \<and> f_user_id f = uid) (files (sdb s')) = Some f"
    and i: "i = ToLifecycleFileItem f (?hash f)"
    unfolding FindCompletedFile_def by (auto simp: Some_eq_map dest!: pure_ok)
  note f = find_row_Some [OF find]
  then have "f_content_id f \<in> fc_id ` set (file_contents (sdb s'))"
    using assms(2) by (simp add: db_inv_def contents_inv_def)
  then obtain c where c: "find_row (\<lambda>c. fc_id c = f_content_id f) (file_contents (sdb s')) = Some c"
    by (cases "find_row (\<lambda>c. fc_id c = f_content_id f) (file_contents (sdb s'))") (auto simp: find_row_None)
  with find_row_Some [OF c] f i show ?thesis
    by (intro bexI [of _ f] bexI [of _ c]) simp_all
qed

lemma complete_replay_ok:
  assumes "complete_replay E cc fid s = (Inr (Inr out), s')" and "db_inv (sdb s')"
  shows "fid = Some (li_id (co_file out)) \<and>
    (\<exists>f \<in> set (files (sdb s')). \<exists>c \<in> set (file_contents (sdb s')). f_id f = li_id (co_file out) \<and> f_user_id f = cc_user_id cc \<and>
      fc_id c = f_content_id f \<and> co_file out = ToLifecycleFileItem f (fc_hash_md5 c))"
proof -
  from assms(1) obtain x i s1 where fid: "fid = Some x" and find: "FindCompletedFile E x (cc_user_id cc) s = (Inr (Some i), s1)"
    and out: "s' = s1" "co_file out = i"
    unfolding complete_replay_def by (auto dest!: catchM_okD elim!: bindM_okE split: option.splits)
  from FindCompletedFile_ok [OF find] assms(2) fid out show ?thesis
    by (fastforce simp: ToLifecycleFileItem_def)
qed

lemma CompleteUpload_ok:
  assumes E: "cluster E" and inv: "db_inv (sdb s)" and run: "CompleteUpload E L cc s = (Inr (Inr out), s')"
  shows "\<exists>c s1. ClaimFinalizeLease E (cc_upload_id cc) (cc_user_id cc) (cc_lease_owner cc) (cc_lease_duration_seconds cc) s = (Inr c, s1) \<and>
    (fr_disposition c = Acquired \<and> lease_taken cc (fr_state_version c) (sdb s1) \<and> finalized cc out (sdb s') \<or>
     fr_disposition c = CompletedReplay \<and> replayed cc out (sdb s1) (sdb s'))"
proof -
  from run obtain c s1 where claim: "ClaimFinalizeLease E (cc_upload_id cc) (cc_user_id cc) (cc_lease_owner cc)
        (cc_lease_duration_seconds cc) s = (Inr c, s1)"
    and rest: "fr_disposition c = Acquired \<and> complete_acquired E L cc (fr_state_version c) s1 = (Inr (Inr out), s') \<or>
       fr_disposition c = CompletedReplay \<and> complete_replay E cc (fr_completed_file_id c) s1 = (Inr (Inr out), s')"
    unfolding CompleteUpload_def
    by (auto elim!: bindR_okE bindM_okE dest!: catchM_okD split: FinalizeClaimDisposition.splits)
  have top: "inv_and (\<lambda>_. True) (sdb s)" using inv by (simp add: inv_and_def)
  have inv1: "db_inv (sdb s1)"
    using keepsD' [OF keeps_claim [OF E closed_True] top claim] by (simp add: inv_and_def)
  have "replayed cc out (sdb s1) (sdb s')"
    if rep: "fr_disposition c = CompletedReplay" "complete_replay E cc (fr_completed_file_id c) s1 = (Inr (Inr out), s')"
  proof -
    obtain r where r: "r \<in> set (upload_tasks (sdb s1))" "owned_task (cc_upload_id cc) (cc_user_id cc) r"
      "t_status r = ToStorageValue Completed" "fr_completed_file_id c = t_completed_file_id r"
      using claim_replay_ok [OF claim rep(1)] by blast
    have "inv_and (\<lambda>d. commits\<^sup>*\<^sup>* (sdb s1) d) (sdb s1)" using inv1 by (simp add: inv_and_def)
    from keepsD' [OF keeps_complete_replay [OF stable_inv_and [OF E closed_reach]] this rep(2)]
    have reach: "commits\<^sup>*\<^sup>* (sdb s1) (sdb s')" and inv': "db_inv (sdb s')" by (simp_all add: inv_and_def)
    from commits_evolves_steps [OF reach inv1] r(1) obtain r' where r': "r' \<in> set (upload_tasks (sdb s'))" "task_evolves r r'"
      by (auto simp: tasks_evolve_def)
    then have "owned_task (cc_upload_id cc) (cc_user_id cc) r'" "t_status r' = ToStorageValue Completed"
      using r(2,3) by (auto simp: task_evolves_def same_task_def owned_task_def frozen_def)
    with r'(1) r complete_replay_ok [OF rep(2) inv'] show ?thesis
      unfolding replayed_def by auto
  qed
  with rest claim claim_acquired_ok [OF claim] complete_acquired_ok [OF E inv1] show ?thesis by blast
qed

end
