(* ===== verification/Sample_State.thy ===== *)
theory Sample_State
  imports Service_Handlers "HOL-Library.Code_Target_Numeral"
begin

text \<open>
  A small concrete deployment on which the hypotheses of the properties are exhibited: an
  undisturbed connection, one user, stores that succeed, and the commands of one upload of
  six bytes in two chunks.
\<close>

definition quiet :: "'w client" where
  "quiet = \<lparr>fault = (\<lambda>_. False), other = (\<lambda>_ d. d), in_tx = False\<rparr>"

definition empty_db :: "user_row list \<Rightarrow> 'w \<Rightarrow> 'w db" where
  "empty_db us w =
     \<lparr>users = us, upload_tasks = [], upload_task_chunks = [], storage_jobs = [], file_contents = [],
      files = [], folders = [], trash = [], shares = [], share_files = [],
      findings = [], seq_jobs = 0, seq_contents = 0, seq_files = 0, seq_folders = 0, seq_trash = 0,
      now = 1000, task_cache = (\<lambda>_. None), steady_now = 0, store = w\<rparr>"

definition start :: "'w db \<Rightarrow> 'w session" where
  "start d = \<lparr>sdb = d, pc = 0, aborted = False\<rparr>"

definition sample_user :: user_row where
  "sample_user = \<lparr>u_id = 1, u_storage_quota = 100, u_storage_used = 0, u_storage_reserved = 0\<rparr>"

definition sample_db :: "unit db" where
  "sample_db = empty_db [sample_user] ()"

definition sample_md5 :: string where
  "sample_md5 = replicate 32 (CHR ''a'')"

definition sample_staging :: "unit staging_ops" where
  "sample_staging =
     \<lparr>EnsureUploadSession = (\<lambda>_ w. (Inr (), w)),
      WriteChunk = (\<lambda>ss i h bytes w. (Inr \<lparr>sc_chunk_index = i, sc_size_bytes = length bytes, sc_md5_hash = h,
                                       sc_object_key = '''', sc_etag = ''''\<rparr>, w)),
      AssembleChunks = (\<lambda>ss v n cs w. (Inr \<lparr>as_backend = ss_backend ss, as_locator = ss_prefix ss,
                          as_size_bytes = sum_list (map sc_size_bytes cs), as_md5_hash = sample_md5,
                          as_sha256_hash = ''sha''\<rparr>, w)),
      DiscardAssembly = (\<lambda>ss a w. (Inr (), w))\<rparr>"

definition sample_lifecycle :: "unit lifecycle" where
  "sample_lifecycle =
     \<lparr>m_upload_staging_storage = Some sample_staging,
      m_blob_store = Some \<lparr>PromoteToFinal = (\<lambda>a h w. (Inr h, w))\<rparr>,
      hash_sha256 = (\<lambda>x. x), cfg_staging_s3 = False, cfg_s3_staging_prefix = ''''\<rparr>"

definition sample_service :: "unit upload_service" where
  "sample_service =
     \<lparr>us_lifecycle = sample_lifecycle, us_hash_md5 = (\<lambda>_. sample_md5), us_invalidate_file_list = (\<lambda>_ w. w),
      us_max_file_size = 1000, us_chunk_size = 4, us_expiry_seconds = 60, us_creation_enabled = True,
      us_instance_id = ''node-1'', us_finalize_lease_seconds = 30\<rparr>"

definition sample_request :: InitUploadRequest where
  "sample_request = \<lparr>ir_filename = ''a.txt'', ir_file_size = 6, ir_file_hash = sample_md5, ir_parent_id = 0\<rparr>"

text \<open>The body it was parsed from.\<close>

definition upload_body :: "string \<Rightarrow> nat \<Rightarrow> string \<Rightarrow> json option" where
  "upload_body name bytes hash =
     Some (JObject [(''filename'', JString name), (''file_size'', JUInt bytes), (''file_hash'', JString hash)])"

definition sample_body :: "json option" where
  "sample_body = upload_body ''a.txt'' 6 sample_md5"

definition sample_trash :: "'w trash_service" where
  "sample_trash = \<lparr>ts_invalidate_file_list = (\<lambda>_ w. w), ts_hash_order = (\<lambda>ks. ks)\<rparr>"

text \<open>A worker over a store that deletes blobs with \<open>del\<close>, finds every blob and lists nothing.\<close>

definition sample_maintenance :: "(string \<Rightarrow> 'w \<Rightarrow> unit Result \<times> 'w) \<Rightarrow> 'w maintenance" where
  "sample_maintenance del =
     \<lparr>mt_db_configured = True,
      mt_staging = Some \<lparr>CleanupSession = (\<lambda>_ w. (Inr (), w)),
        ListStagingObjects = (\<lambda>_ _ w. (Inr \<lparr>ip_objects = [], ip_continuation_token = '''', ip_has_more = False\<rparr>, w))\<rparr>,
      mt_blob = Some \<lparr>DeleteBlob = del, BlobExists = (\<lambda>_ w. (Inr True, w)),
        StoredBlobSize = (\<lambda>b w. (Inr (bd_size b), w)),
        ListFinalObjects = (\<lambda>_ _ w. (Inr \<lparr>ip_objects = [], ip_continuation_token = '''', ip_has_more = False\<rparr>, w))\<rparr>,
      mt_sha256 = (\<lambda>x. x)\<rparr>"

definition sample_worker :: "(string \<Rightarrow> 'w \<Rightarrow> unit Result \<times> 'w) \<Rightarrow> 'w worker" where
  "sample_worker del =
     \<lparr>wk_maintenance = sample_maintenance del, wk_multipart_cleaner = None, wk_trash = sample_trash,
      wk_instance_id = ''w1'', wk_batch_size = 16, wk_lease_duration_seconds = 120, wk_retry_base_seconds = 5,
      wk_retry_cap_seconds = 3600, wk_locked = (\<lambda>_. False), wk_ownership_lost = (\<lambda>_. False)\<rparr>"

definition sample_services :: "unit services" where
  "sample_services = \<lparr>sv_upload = sample_service, sv_trash = sample_trash, sv_worker = sample_worker (\<lambda>_ w. (Inr (), w))\<rparr>"

text \<open>The session after the upload was initialised, and after its two chunks were uploaded.\<close>

definition sample_initialised :: "unit session" where
  "sample_initialised = snd (InitUpload quiet sample_service ''u1'' sample_request 1 (start sample_db))"

definition sample_uploaded :: "unit session" where
  "sample_uploaded =
     snd (UploadChunk quiet sample_service ''u1'' 1 sample_md5 ''ef'' 1
       (snd (UploadChunk quiet sample_service ''u1'' 0 sample_md5 ''abcd'' 1 sample_initialised)))"

lemma cluster_quiet [simp]: "cluster quiet"
  by (simp add: cluster_def quiet_def)

lemma empty_db_inv: 
  assumes "distinct (map u_id us)" and "\<forall>u \<in> set us. u_storage_used u = 0 \<and> u_storage_reserved u = 0"
  shows "db_inv (empty_db us w)"
  using assms
  by (simp add: db_inv_def empty_db_def tasks_inv_def one_active_def accounts_inv_def account_ok_def
      contents_inv_def files_inv_def folders_inv_def trash_inv_def chunks_inv_def jobs_inv_def cleanup_inv_def)

lemma sample_db_inv [simp]: "db_inv sample_db"
  unfolding sample_db_def by (rule empty_db_inv) (simp_all add: sample_user_def)

lemma deployed_sample [simp]: "deployed quiet sample_services"
  by (simp add: deployed_def sample_services_def sample_worker_def sample_trash_def hash_order_ok_def)

lemma sample_body_parsed [simp]: "InitUploadRequest_FromRequest sample_body = Inr (Inr sample_request)"
  by code_simp

end
