(* ===== verification/Upload_Properties.thy ===== *)
theory Upload_Properties
  imports Upload_Results Sample_State
begin

text \<open>
  The properties of the upload subsystem as a whole: the invariant of the shared state, the
  interleaving of requests, fencing, completion, cancellation and expiry, each with a run of
  the sample deployment to which it applies.
\<close>

section \<open>Sample runs\<close>

definition sample_requests :: "(unit client \<times> unit services \<times> request) list" where
  "sample_requests =
     [(quiet, sample_services, ReqInit ''u1'' sample_body 1),
      (quiet, sample_services, ReqChunk ''u1'' 0 sample_md5 ''abcd'' 1),
      (quiet, sample_services, ReqChunk ''u1'' 1 sample_md5 ''ef'' 1),
      (quiet, sample_services, ReqComplete ''u1'' 1)]"

definition sample_command :: CompleteUploadCommand where
  "sample_command = \<lparr>cc_upload_id = ''u1'', cc_user_id = 1, cc_lease_owner = ''node-1'', cc_lease_duration_seconds = 30\<rparr>"

definition sample_task :: task_row where
  "sample_task = hd (upload_tasks (sdb sample_uploaded))"

definition sample_session :: UploadStagingSession where
  "sample_session = \<lparr>ss_upload_id = ''u1'', ss_backend = BackendLocal, ss_prefix = ''u1''\<rparr>"

definition sample_assembly :: UploadStagingAssembly where
  "sample_assembly = \<lparr>as_backend = BackendLocal, as_locator = ''u1'', as_size_bytes = 6, as_md5_hash = sample_md5,
     as_sha256_hash = ''sha''\<rparr>"

text \<open>The state after the lease was claimed, and the run of the closing transaction from there.\<close>

definition sample_claimed :: "unit session" where
  "sample_claimed = snd (ClaimFinalizeLease quiet ''u1'' 1 ''node-1'' 30 sample_uploaded)"

definition sample_close :: "nat \<Rightarrow> (exn + file_row Result) \<times> unit session" where
  "sample_close v =
     complete_tx sample_command v sample_task sample_session sample_assembly ''sha'' PromoteAsNewContent
       (transaction_client quiet) (start (sdb sample_claimed))"

lemma sample_requests_cluster: "\<forall>(E, V, req) \<in> set sample_requests. deployed E V"
  by (simp add: sample_requests_def)

lemma sample_requests_prefix: "\<forall>(E, V, req) \<in> set (take n sample_requests). deployed E V"
  using sample_requests_cluster set_take_subset [of n sample_requests] by fast

lemma sample_uploaded_inv: "db_inv (sdb sample_uploaded)"
proof -
  have "sample_uploaded = serve_all (take 3 sample_requests) (start sample_db)"
    by (simp add: sample_requests_def serve_all_def serve_def sample_uploaded_def sample_initialised_def sample_services_def)
  moreover have "db_inv (sdb (serve_all (take 3 sample_requests) (start sample_db)))"
    using serve_all_commits [OF sample_requests_prefix, of "start sample_db"] by (simp add: start_def)
  ultimately show ?thesis by simp
qed

lemma sample_claimed_inv: "db_inv (sdb sample_claimed)"
  using keepsD [OF keeps_claim [OF cluster_quiet closed_True], of sample_uploaded "''u1''" 1 "''node-1''" 30] sample_uploaded_inv
  by (simp add: inv_and_def sample_claimed_def)

section \<open>The invariant and the interleaving\<close>

text \<open>
  C1: Whatever sequence of upload, folder, rename, move, deletion, restore, purge and cleanup
  requests and of worker runs the instances of the cluster serve, with whatever database faults
  and interleaved with whatever actions of other sessions, the invariant of the shared state
  holds afterwards: quota columns are the sums over uploads, files and trash,
  contents count their references, at most one upload of a hash is active per user, chunk rows
  belong to active uploads, and every ended upload has a cleanup job.
\<close>

theorem requests_keep_invariant:
  assumes "\<forall>(E, V, req) \<in> set reqs. deployed E V" and "db_inv (sdb s)"
  shows "db_inv (sdb (serve_all reqs s))"
  using serve_all_commits [OF assms] by simp

theorem requests_keep_invariant_witness: "db_inv (sdb (serve_all sample_requests (start sample_db)))"
  using requests_keep_invariant [OF sample_requests_cluster, of "start sample_db"] by (simp add: start_def)



text \<open>
  C3: Along any interleaving a task row only evolves: the columns fixed at creation stay, the
  state version never decreases and an unchanged version means an unchanged status and lease,
  the status moves along the state machine, and a terminal row never changes again except that
  its file reference may be cleared.
\<close>

theorem tasks_only_evolve:
  assumes "db_inv d" and "commits\<^sup>*\<^sup>* d d'" and "r \<in> set (upload_tasks d)"
  shows "\<exists>r' \<in> set (upload_tasks d'). task_evolves r r'"
  using commits_evolves_steps [OF assms(2,1)] assms(3) by (auto simp: tasks_evolve_def)

theorem tasks_only_evolve_witness:
  "\<exists>r' \<in> set (upload_tasks (sdb sample_claimed)). task_evolves sample_task r'"
proof -
  have "sample_task \<in> set (upload_tasks (sdb sample_uploaded))"
    by code_simp
  moreover have "commits\<^sup>*\<^sup>* (sdb sample_uploaded) (sdb sample_claimed)"
    using keepsD [OF keeps_claim [OF cluster_quiet closed_reach], of "sdb sample_uploaded" sample_uploaded "''u1''" 1 "''node-1''" 30]
      sample_uploaded_inv by (simp add: inv_and_def sample_claimed_def)
  ultimately show ?thesis
    using tasks_only_evolve [OF sample_uploaded_inv] by blast
qed

section \<open>Fencing\<close>

text \<open>
  C4: A finalizer that lost its lease is fenced off: once a task row has moved past state
  version v, no statement guarded by v (renewing the lease, noting an error, completing) finds
  a row or changes anything, in any later state.
\<close>

theorem stale_lease_is_fenced:
  assumes "db_inv d" and "commits\<^sup>*\<^sup>* d d'" and "r \<in> set (upload_tasks d)" and "t_id r = u" and "v < t_state_version r"
  shows "renew_stmt u uid owner v dur d' = (Inr [], d') \<and> error_stmt u uid owner v code d' = (Inr False, d') \<and>
    complete_stmt u uid owner v fid d' = (Inr False, d')"
proof -
  have none: "affected (owns_lease (now d') u uid owner v) (upload_tasks d') = 0"
    using stale_version [OF assms] by (simp add: affected_zero_iff)
  then have "filter (owns_lease (now d') u uid owner v) (upload_tasks d') = []"
    by (simp add: affected_def)
  with none show ?thesis
    by (simp add: renew_stmt_def error_stmt_def complete_stmt_def Let_def update_where_none)
qed

lemma sample_claimed_task:
  "\<exists>r \<in> set (upload_tasks (sdb sample_claimed)). t_id r = ''u1'' \<and> t_state_version r = 1"
proof -
  have "map (\<lambda>r. (t_id r, t_state_version r)) (upload_tasks (sdb sample_claimed)) = [(''u1'', 1)]"
    by code_simp
  then show ?thesis by auto
qed

theorem stale_lease_is_fenced_witness:
  "renew_stmt ''u1'' 1 ''node-1'' 0 30 (sdb sample_claimed) = (Inr [], sdb sample_claimed)"
proof -
  obtain r where "r \<in> set (upload_tasks (sdb sample_claimed))" "t_id r = ''u1''" "0 < t_state_version r"
    using sample_claimed_task by auto
  from stale_lease_is_fenced [OF sample_claimed_inv rtranclp.rtrancl_refl this] show ?thesis by blast
qed

text \<open>
  C5: A closing transaction that was prepared under a superseded version never commits,
  whatever it assembled and promoted in the meantime.
\<close>

theorem superseded_finalization_cannot_commit:
  assumes "db_inv d" and "commits\<^sup>*\<^sup>* d (sdb s)" and "r \<in> set (upload_tasks d)" and "t_id r = cc_upload_id cc"
    and "v < t_state_version r" and "in_tx T"
  shows "complete_tx cc v t session a path dec T s \<noteq> (Inr (Inr f), s')"
proof
  assume run: "complete_tx cc v t session a path dec T s = (Inr (Inr f), s')"
  have "db_inv (sdb s)" using assms(1,2) by (rule commits_inv_steps [rotated])
  from complete_tx_ok [OF run assms(6) db_inv_contents [OF this]] stale_version [OF assms(1-5)]
  show False by (auto simp: Let_def)
qed

theorem superseded_finalization_cannot_commit_witness: "\<forall>f s'. sample_close 0 \<noteq> (Inr (Inr f), s')"
proof -
  obtain r where "r \<in> set (upload_tasks (sdb sample_claimed))" "t_id r = cc_upload_id sample_command" "0 < t_state_version r"
    using sample_claimed_task by (auto simp: sample_command_def)
  moreover have "commits\<^sup>*\<^sup>* (sdb sample_claimed) (sdb (start (sdb sample_claimed)))"
    by (simp add: start_def)
  ultimately show ?thesis
    unfolding sample_close_def
    using superseded_finalization_cannot_commit [OF sample_claimed_inv] in_tx_transaction_client by blast
qed

text \<open>
  An upload is completed at most once: after its closing transaction has committed, no
  interleaving leads to a state in which a closing transaction of the same upload commits
  again, or in which the upload can still be cancelled or expired.
\<close>

theorem completes_at_most_once:
  assumes "db_inv (sdb s)" and "complete_tx cc v t session a path dec T s = (Inr (Inr f), s')" and "in_tx T"
    and "holds_task (cc_upload_id cc) t (sdb s)" and "ss_upload_id session = cc_upload_id cc"
    and "commits\<^sup>*\<^sup>* (sdb s') (sdb s2)" and "in_tx T2" and "cc_upload_id cc2 = cc_upload_id cc"
  shows "complete_tx cc2 v2 t2 session2 a2 path2 dec2 T2 s2 \<noteq> (Inr (Inr f2), s2') \<and>
    cancel_tx (cc_upload_id cc) uid T2 s2 \<noteq> (Inr (Inr (Some w)), s2') \<and>
    expire_tx (cc_upload_id cc) T2 s2 \<noteq> (Inr (Inr (Some w)), s2')"
proof -
  from complete_tx_row [OF assms(2,3,1)] obtain r where r: "r \<in> set (upload_tasks (sdb s'))"
    "t_id r = cc_upload_id cc" "t_status r = ToStorageValue Completed" by blast
  have inv': "db_inv (sdb s')"
    using commits_inv [OF complete_upload [OF assms(2-5)] assms(1)] .
  have status: "\<forall>q \<in> set (upload_tasks (sdb s2)). t_id q = cc_upload_id cc \<longrightarrow> t_status q = 1"
    using terminal_no_lease [OF inv' assms(6) r(1,2)] r(3) by simp
  have inv2: "db_inv (sdb s2)" using inv' assms(6) by (rule commits_inv_steps [rotated])
  have "complete_tx cc2 v2 t2 session2 a2 path2 dec2 T2 s2 \<noteq> (Inr (Inr f2), s2')"
    using complete_tx_ok [OF _ assms(7) db_inv_contents [OF inv2]] status assms(8)
    by (fastforce simp: Let_def lease_guard_defs)
  moreover have "cancel_tx (cc_upload_id cc) uid T2 s2 \<noteq> (Inr (Inr (Some w)), s2')"
    using cancel_tx_ok [OF _ assms(7)] status by (fastforce simp: cancel_guard_def owned_task_def)
  moreover have "expire_tx (cc_upload_id cc) T2 s2 \<noteq> (Inr (Inr (Some w)), s2')"
    using expire_tx_ok [OF _ assms(7)] status by (fastforce simp: expire_guard_def)
  ultimately show ?thesis by blast
qed

theorem completes_at_most_once_witness:
  "\<forall>f2 s2'. complete_tx sample_command 2 sample_task sample_session sample_assembly ''sha'' PromoteAsNewContent
     (transaction_client quiet) (snd (sample_close 1)) \<noteq> (Inr (Inr f2), s2')"
proof -
  have "case fst (sample_close 1) of Inr (Inr f) \<Rightarrow> f_name f = ''a.txt'' | _ \<Rightarrow> False"
    by code_simp
  then obtain f where f: "sample_close 1 = (Inr (Inr f), snd (sample_close 1))"
    by (auto simp: prod_eq_iff split: sum.splits)
  have hold: "holds_task (cc_upload_id sample_command) sample_task (sdb (start (sdb sample_claimed)))"
    by code_simp
  have sess: "ss_upload_id sample_session = cc_upload_id sample_command"
    by code_simp
  have "db_inv (sdb (start (sdb sample_claimed)))"
    using sample_claimed_inv by (simp add: start_def)
  from completes_at_most_once [OF this f [unfolded sample_close_def] in_tx_transaction_client hold sess
      _ in_tx_transaction_client refl] show ?thesis
    by (fold sample_close_def) blast
qed

section \<open>Completion and cancellation\<close>



text \<open>
  A successful cancellation leaves the upload cancelled under exactly the state version it
  reports.
\<close>

theorem cancellation_is_sound:
  assumes "CancelInProgressUpload E u uid s = (Inr (Inr v), s')"
  shows "\<exists>r \<in> set (upload_tasks (sdb s')). t_id r = u \<and> t_user_id r = uid \<and>
    t_status r = ToStorageValue Cancelled \<and> t_state_version r = v"
  using assms by (rule CancelInProgressUpload_ok)

theorem cancellation_is_sound_witness:
  "\<exists>r \<in> set (upload_tasks (sdb (snd (CancelInProgressUpload quiet ''u1'' 1 sample_uploaded)))).
     t_id r = ''u1'' \<and> t_user_id r = 1 \<and> t_status r = ToStorageValue Cancelled \<and> t_state_version r = 1"
proof (rule cancellation_is_sound [of quiet])
  have "fst (CancelInProgressUpload quiet ''u1'' 1 sample_uploaded) = Inr (Inr 1)"
    by code_simp
  then show "CancelInProgressUpload quiet ''u1'' 1 sample_uploaded =
      (Inr (Inr 1), snd (CancelInProgressUpload quiet ''u1'' 1 sample_uploaded))"
    by (simp add: prod_eq_iff)
qed

text \<open>
  Cancelling is idempotent: whatever happens between two successful cancellations of an
  upload, both report the same state version.
\<close>

theorem cancellation_is_idempotent:
  assumes "cluster E2" and "db_inv (sdb s1)" and "CancelInProgressUpload E1 u uid s0 = (Inr (Inr v1), s1)"
    and "commits\<^sup>*\<^sup>* (sdb s1) (sdb s2)" and "CancelInProgressUpload E2 u uid s2 = (Inr (Inr v2), s3)"
  shows "v2 = v1"
proof -
  from CancelInProgressUpload_ok [OF assms(3)] obtain r where r: "r \<in> set (upload_tasks (sdb s1))" "t_id r = u"
    "t_status r = ToStorageValue Cancelled" "t_state_version r = v1" by blast
  from CancelInProgressUpload_ok [OF assms(5)] obtain q where q: "q \<in> set (upload_tasks (sdb s3))" "t_id q = u"
    "t_state_version q = v2" by blast
  have "inv_and (\<lambda>d. commits\<^sup>*\<^sup>* (sdb s2) d) (sdb s2)"
    using commits_inv_steps [OF assms(4,2)] by (simp add: inv_and_def)
  from keepsD' [OF keeps_CancelInProgressUpload [OF assms(1) closed_reach] this assms(5)]
  have "commits\<^sup>*\<^sup>* (sdb s1) (sdb s3)"
    using assms(4) by (auto simp: inv_and_def)
  from terminal_row_stays [OF assms(2) this r(1) _ q(1)] r q show ?thesis
    by (auto simp: frozen_def)
qed

theorem cancellation_is_idempotent_witness:
  "let s1 = snd (CancelInProgressUpload quiet ''u1'' 1 sample_uploaded) in
   (\<exists>v1 v2. fst (CancelInProgressUpload quiet ''u1'' 1 sample_uploaded) = Inr (Inr v1) \<and>
      fst (CancelInProgressUpload quiet ''u1'' 1 s1) = Inr (Inr v2) \<and> v2 = v1)"
proof -
  let ?s1 = "snd (CancelInProgressUpload quiet ''u1'' 1 sample_uploaded)"
  have f1: "fst (CancelInProgressUpload quiet ''u1'' 1 sample_uploaded) = Inr (Inr 1)"
    and f2: "fst (CancelInProgressUpload quiet ''u1'' 1 ?s1) = Inr (Inr 1)"
    by code_simp+
  have "db_inv (sdb ?s1)"
    using keepsD [OF keeps_CancelInProgressUpload [OF cluster_quiet closed_True], of sample_uploaded "''u1''" 1]
      sample_uploaded_inv by (simp add: inv_and_def)
  from cancellation_is_idempotent [OF cluster_quiet this, of quiet "''u1''" 1 sample_uploaded 1 ?s1 1] f1 f2
  show ?thesis by (simp add: prod_eq_iff Let_def)
qed

text \<open>
  A cancellation that reports an error, or that is cut short by a database exception, has
  no effect of its own: every property of the database that the other sessions maintain still
  holds.
\<close>

theorem failed_cancellation_has_no_effect:
  assumes "stable P E" and "P (sdb s)" and "CancelInProgressUpload E u uid s = (r, s')" and "\<forall>v. r \<noteq> Inr (Inr v)"
  shows "P (sdb s')"
  using assms by (auto intro: CancelInProgressUpload_failure)

theorem failed_cancellation_has_no_effect_witness:
  "fst (CancelInProgressUpload quiet ''u1'' 2 sample_uploaded) = Inr (Inl (ErrorInfo1 UploadTaskNotFound)) \<and>
   sdb (snd (CancelInProgressUpload quiet ''u1'' 2 sample_uploaded)) = sdb sample_uploaded"
proof -
  have f: "fst (CancelInProgressUpload quiet ''u1'' 2 sample_uploaded) = Inr (Inl (ErrorInfo1 UploadTaskNotFound))"
    by code_simp
  have "stable (\<lambda>d. d = sdb sample_uploaded) quiet"
    by (simp add: stable_def quiet_def)
  from failed_cancellation_has_no_effect [OF this refl, of "''u1''" 2 "Inr (Inl (ErrorInfo1 UploadTaskNotFound))"] f
  show ?thesis by (simp add: prod_eq_iff)
qed

end
