(* ===== verification/Chunk_Geometry.thy ===== *)
theory Chunk_Geometry
  imports Upload_Lifecycle
begin

text \<open>
  The division of a file into chunks: the number of chunks fixed at initialisation and the size
  the chunk handler accepts for each index, both computed in unsigned 64-bit arithmetic by the
  source.  They are compared with a reference on the natural numbers, on which the sizes of all
  chunks add up to the size of the file.
\<close>

section \<open>The reference\<close>

definition chunk_count :: "nat \<Rightarrow> nat \<Rightarrow> nat" where
  "chunk_count fsize csize = (fsize + csize - 1) div csize"

definition chunk_length :: "nat \<Rightarrow> nat \<Rightarrow> nat \<Rightarrow> nat" where
  "chunk_length fsize csize i = min csize (fsize - i * csize)"

lemma chunk_count_pos: "0 < fsize \<Longrightarrow> 0 < csize \<Longrightarrow> chunk_count fsize csize = (fsize - 1) div csize + 1"
  unfolding chunk_count_def by (metis Nat.add_diff_assoc2 One_nat_def Suc_leI Suc_eq_plus1 div_add_self2 less_numeral_extra(3) add.commute)

lemma chunk_offset_less: "0 < fsize \<Longrightarrow> 0 < csize \<Longrightarrow> i < chunk_count fsize csize \<Longrightarrow> i * csize < fsize"
proof -
  assume "0 < fsize" "0 < csize" "i < chunk_count fsize csize"
  then have "i \<le> (fsize - 1) div csize" by (simp add: chunk_count_pos)
  then have "i * csize \<le> (fsize - 1) div csize * csize" by simp
  also have "\<dots> \<le> fsize - 1" by (rule div_times_less_eq_dividend)
  finally show ?thesis using \<open>0 < fsize\<close> by linarith
qed

lemma chunk_length_pos: "0 < fsize \<Longrightarrow> 0 < csize \<Longrightarrow> i < chunk_count fsize csize \<Longrightarrow> 0 < chunk_length fsize csize i"
  using chunk_offset_less [of fsize csize i] by (simp add: chunk_length_def)

text \<open>The first chunks cover a prefix of the file.\<close>

lemma chunk_lengths_prefix: "(\<Sum>i<n. chunk_length fsize csize i) = min (n * csize) fsize"
  by (induction n) (auto simp: chunk_length_def)

lemma chunk_lengths_sum:
  assumes "0 < fsize" and "0 < csize"
  shows "(\<Sum>i<chunk_count fsize csize. chunk_length fsize csize i) = fsize"
proof -
  have "fsize - 1 < ((fsize - 1) div csize + 1) * csize"
    using dividend_less_div_times [OF assms(2), of "fsize - 1"] by (simp add: algebra_simps)
  then have "fsize \<le> chunk_count fsize csize * csize"
    using assms by (simp add: chunk_count_pos)
  then show ?thesis by (simp add: chunk_lengths_prefix)
qed

section \<open>The source's arithmetic\<close>

lemma total_chunks_reference:
  assumes "0 < fsize" and "fsize < 2 ^ 64" and "0 < csize" and "csize < 2 ^ 64"
  shows "total_chunks_u64 fsize csize = chunk_count fsize csize"
proof -
  have "unat (of_nat fsize - 1 :: 64 word) = fsize - 1"
    using assms by (simp add: unat_sub word_le_nat_alt unat_of_nat)
  then have q: "unat ((of_nat fsize - 1 :: 64 word) div of_nat csize) = (fsize - 1) div csize"
    using assms by (simp add: unat_div unat_of_nat)
  have "(fsize - 1) div csize \<le> fsize - 1"
    by (rule div_le_dividend)
  then have "(fsize - 1) div csize + 1 < 2 ^ 64"
    using assms by linarith
  then show ?thesis
    using assms q by (simp add: total_chunks_u64_def chunk_count_pos unat_word_ariths)
qed

lemma accepted_size_reference:
  assumes "0 < fsize" and "fsize < 2 ^ 64" and "0 < csize" and "csize < 2 ^ 64" and "i < chunk_count fsize csize"
  shows "unat (min (of_nat csize) (of_nat fsize - of_nat i * of_nat csize :: 64 word)) = chunk_length fsize csize i"
proof -
  have off: "i * csize < fsize"
    using assms by (intro chunk_offset_less)
  have "unat (of_nat i * of_nat csize :: 64 word) = i * csize"
    using off assms(2) by (simp flip: of_nat_mult add: unat_of_nat)
  then have "unat (of_nat fsize - of_nat i * of_nat csize :: 64 word) = fsize - i * csize"
    using off assms(2) by (simp add: unat_sub word_le_nat_alt unat_of_nat)
  then show ?thesis
    using assms(3,4) by (auto simp: chunk_length_def min_def word_le_nat_alt unat_of_nat)
qed

lemma ValidateChunkAcceptance_iff:
  assumes "0 < fsize" and "fsize < 2 ^ 64" and "0 < csize" and "csize < 2 ^ 64"
  shows "ValidateChunkAcceptance i n fsize csize (total_chunks_u64 fsize csize) = Inr m \<longleftrightarrow>
    i < chunk_count fsize csize \<and> n = chunk_length fsize csize i \<and> m = n"
  using accepted_size_reference [OF assms, of i] total_chunks_reference [OF assms]
  by (auto simp: ValidateChunkAcceptance_def Let_def split: if_splits)

end
