(* ===== verification/Upload_Progress.thy ===== *)
theory Upload_Progress
  imports Upload_Results Chunk_Geometry "HOL-Library.Multiset"
begin

text \<open>
  Progress of an upload towards its file: which chunks a finalizing upload has, what the
  assembler is handed, that the process's task cache agrees with the table, and what an
  accepted chunk leaves behind.
\<close>

section \<open>Chunk indices\<close>

definition chunk_indices :: "'w db \<Rightarrow> string \<Rightarrow> int list" where
  "chunk_indices d u = map c_chunk_index (chunk_rows d u)"

lemma chunk_indices_distinct:
  assumes "db_inv d"
  shows "distinct (chunk_indices d u)" and "\<forall>i \<in> set (chunk_indices d u). 0 \<le> i"
proof -
  have inv: "chunks_inv (upload_tasks d) (upload_task_chunks d)"
    using assms by (simp add: db_inv_def)
  have "distinct (map chunk_key (chunk_rows d u))"
    using inv by (simp add: chunks_inv_def chunk_rows_def distinct_map_filter)
  moreover have "map chunk_key (chunk_rows d u) = map (Pair u) (chunk_indices d u)"
    by (auto simp: chunk_key_def chunk_rows_def chunk_indices_def)
  ultimately show "distinct (chunk_indices d u)"
    by (simp add: distinct_map)
  show "\<forall>i \<in> set (chunk_indices d u). 0 \<le> i"
    using inv by (auto simp: chunk_indices_def chunk_rows_def chunks_inv_def chunk_checks_def)
qed

lemma foldr_max_ge: "x \<in> set (i # js) \<Longrightarrow> x \<le> foldr max js (i :: int)"
  by (induction js) auto

text \<open>Counting the chunks and looking at the largest index is enough to know that none is missing.\<close>

lemma chunks_complete_iff:
  assumes "db_inv d" and "chunks_complete d r"
  shows "set (chunk_indices d (t_id r)) = {0..<t_total_chunks r}"
proof -
  let ?is = "chunk_indices d (t_id r)"
  note dist = chunk_indices_distinct [OF assms(1), of "t_id r"]
  have len: "int (length ?is) = t_total_chunks r"
    and mx: "(case ?is of [] \<Rightarrow> -1 | i # js \<Rightarrow> foldr max js i) = t_total_chunks r - 1"
    using assms(2) by (simp_all add: chunks_complete_def chunk_indices_def Let_def)
  have "x \<le> t_total_chunks r - 1" if "x \<in> set ?is" for x
  proof (cases ?is)
    case (Cons i js)
    with that foldr_max_ge [of x i js] mx show ?thesis by simp
  qed (use that in simp)
  then have sub: "set ?is \<subseteq> {0..<t_total_chunks r}"
    using dist(2) by force
  have "card (set ?is) = card {0..<t_total_chunks r}"
    using len distinct_card [OF dist(1)] by simp
  with sub show ?thesis
    by (intro card_subset_eq) simp_all
qed

section \<open>A finalizing upload has all its chunks\<close>

definition has_all_chunks :: "'w db \<Rightarrow> string \<Rightarrow> int \<Rightarrow> bool" where
  "has_all_chunks d u n \<longleftrightarrow> set (chunk_indices d u) = {0..<n}"

definition finalizing_ready :: "'w db \<Rightarrow> bool" where
  "finalizing_ready d \<longleftrightarrow>
     (\<forall>r \<in> set (upload_tasks d). t_status r = ToStorageValue Finalizing \<longrightarrow>
        has_all_chunks d (t_id r) (t_total_chunks r))"

lemma same_row: "db_inv d \<Longrightarrow> r \<in> set (upload_tasks d) \<Longrightarrow> q \<in> set (upload_tasks d) \<Longrightarrow> t_id r = t_id q \<Longrightarrow> r = q"
  using db_inv_distinct_tasks [of d] by (simp add: distinct_map inj_on_def)

text \<open>A step keeps the property if the finalizing rows come from finalizing rows and keep their chunks.\<close>

lemma finalizing_ready_step:
  assumes "finalizing_ready d"
    and "\<And>r'. r' \<in> set (upload_tasks d') \<Longrightarrow> t_status r' = ToStorageValue Finalizing \<Longrightarrow>
      (\<exists>r \<in> set (upload_tasks d). t_status r = ToStorageValue Finalizing \<and> same_task r r') \<and>
      set (chunk_indices d' (t_id r')) = set (chunk_indices d (t_id r'))"
  shows "finalizing_ready d'"
  unfolding finalizing_ready_def
proof (intro ballI impI)
  fix r'
  assume "r' \<in> set (upload_tasks d')" "t_status r' = ToStorageValue Finalizing"
  from assms(2) [OF this] obtain r where "r \<in> set (upload_tasks d)" "t_status r = ToStorageValue Finalizing" "same_task r r'"
    "set (chunk_indices d' (t_id r')) = set (chunk_indices d (t_id r'))" by blast
  with assms(1) show "has_all_chunks d' (t_id r') (t_total_chunks r')"
    by (simp add: finalizing_ready_def has_all_chunks_def same_task_def)
qed

lemma finalizing_ready_frame:
  "finalizing_ready d \<Longrightarrow> upload_tasks d' = upload_tasks d \<Longrightarrow> upload_task_chunks d' = upload_task_chunks d \<Longrightarrow> finalizing_ready d'"
  by (simp add: finalizing_ready_def has_all_chunks_def chunk_indices_def chunk_rows_def)

lemma chunk_frame:
  "enqueue_stmt job d = (b, d') \<Longrightarrow> upload_task_chunks d' = upload_task_chunks d"
  "rearm_stmt job d = (b, d') \<Longrightarrow> upload_task_chunks d' = upload_task_chunks d"
  "exhaust_stmt d = (y, d') \<Longrightarrow> upload_task_chunks d' = upload_task_chunks d"
  "job_claim_stmt locked inst n dur d = (z, d') \<Longrightarrow> upload_task_chunks d' = upload_task_chunks d"
  "job_renew_stmt i inst dur d = (b, d') \<Longrightarrow> upload_task_chunks d' = upload_task_chunks d"
  "job_succeed_stmt i inst d = (b, d') \<Longrightarrow> upload_task_chunks d' = upload_task_chunks d"
  "job_fail_stmt i inst err retryable delay d = (l, d') \<Longrightarrow> upload_task_chunks d' = upload_task_chunks d"
  by (auto simp: enqueue_stmt_def rearm_stmt_def exhaust_stmt_def job_claim_stmt_def job_renew_stmt_def
      job_succeed_stmt_def job_fail_stmt_def insert_job_def Let_def split: if_splits)

lemma has_all_chunks_frame:
  "upload_task_chunks d' = upload_task_chunks d \<Longrightarrow> has_all_chunks d' = has_all_chunks d"
  by (rule ext)+ (simp add: has_all_chunks_def chunk_indices_def chunk_rows_def)

lemma claim_ready:
  assumes "claim_stmt u uid owner dur d = (x, d')" and "db_inv d" and "finalizing_ready d"
  shows "finalizing_ready d'"
proof -
  have ch: "has_all_chunks d' = has_all_chunks d"
    using assms(1) by (intro has_all_chunks_frame) (auto simp: claim_stmt_def)
  have "has_all_chunks d (t_id r) (t_total_chunks r)" if "r \<in> set (upload_tasks d)" "claim_guard d u uid r" for r
    using that assms(2,3) by (auto simp: claim_guard_def finalizing_ready_def has_all_chunks_def chunks_complete_iff)
  moreover have "upload_tasks d' = update_where (claim_guard d u uid) (claim_set (now d) owner dur) (upload_tasks d)"
    using assms(1) by (auto simp: claim_stmt_def)
  ultimately show ?thesis
    using assms(3) unfolding finalizing_ready_def ch by (auto simp: mem_update_where claim_set_def)
qed

lemma lease_ready:
  assumes "finalizing_ready d" and "upload_tasks d' = update_where p f (upload_tasks d)" and "upload_task_chunks d' = upload_task_chunks d"
    and "\<And>r. p r \<Longrightarrow> t_status r = ToStorageValue Finalizing \<and> same_task r (f r)"
  shows "finalizing_ready d'"
  using assms(1)
proof (rule finalizing_ready_step)
  fix r'
  assume "r' \<in> set (upload_tasks d')" "t_status r' = ToStorageValue Finalizing"
  then obtain r where r: "r \<in> set (upload_tasks d)" "r' = (if p r then f r else r)"
    using assms(2) by (auto simp: mem_update_where)
  then have "t_status r = ToStorageValue Finalizing \<and> same_task r r'"
    using \<open>t_status r' = _\<close> assms(4) by (auto split: if_splits)
  with r assms(3) show "(\<exists>r \<in> set (upload_tasks d). t_status r = ToStorageValue Finalizing \<and> same_task r r') \<and>
      set (chunk_indices d' (t_id r')) = set (chunk_indices d (t_id r'))"
    by (auto simp: chunk_indices_def chunk_rows_def)
qed

lemma renew_ready: "renew_stmt u uid owner v dur d = (x, d') \<Longrightarrow> finalizing_ready d \<Longrightarrow> finalizing_ready d'"
  by (erule lease_ready [where p = "owns_lease (now d) u uid owner v" and f = "renew_set (now d) dur"])
     (auto simp: renew_stmt_def Let_def lease_guard_defs renew.step_same)

lemma error_ready: "error_stmt u uid owner v code d = (x, d') \<Longrightarrow> finalizing_ready d \<Longrightarrow> finalizing_ready d'"
  by (erule lease_ready [where p = "owns_lease (now d) u uid owner v" and f = "error_set (now d) code"])
     (auto simp: error_stmt_def Let_def lease_guard_defs error.step_same)

lemma record_chunk_ready:
  assumes "record_chunk_stmt u uid ex d = (Inr x, d')" and "c_task_id ex = u" and "db_inv d" and "finalizing_ready d"
  shows "finalizing_ready d'"
proof (cases "list_ex (cancel_guard (now d) u uid) (upload_tasks d)")
  case False
  with assms(1,4) show ?thesis by (simp add: record_chunk_stmt_def)
next
  case True
  then obtain q where q: "q \<in> set (upload_tasks d)" "t_id q = u" "t_status q = ToStorageValue InProgress"
    by (auto simp: list_ex_iff cancel_guard_def owned_task_def)
  have ch: "chunk_indices d' k = chunk_indices d k" if "k \<noteq> u" for k
    using assms(1,2) that
    by (auto simp: record_chunk_stmt_def chunk_indices_def chunk_rows_def update_where_def filter_map comp_def
        split: if_splits option.splits)
  show ?thesis
    using assms(4)
  proof (rule finalizing_ready_step)
    fix r
    assume r: "r \<in> set (upload_tasks d')" "t_status r = ToStorageValue Finalizing"
    then have "r \<in> set (upload_tasks d)"
      using task_frame(1) [OF assms(1)] by simp
    moreover have "t_id r \<noteq> u"
    proof
      assume "t_id r = u"
      then have "q = r"
        using same_row [OF assms(3) q(1) calculation] q(2) by simp
      with q(3) r(2) show False by simp
    qed
    ultimately show "(\<exists>q \<in> set (upload_tasks d). t_status q = ToStorageValue Finalizing \<and> same_task q r) \<and>
      set (chunk_indices d' (t_id r)) = set (chunk_indices d (t_id r))"
      using r(2) by (intro conjI bexI [of _ r]) (simp_all add: ch)
  qed
qed

text \<open>Ending an upload takes its own chunks away, and no other's.\<close>

lemma ending_ready:
  assumes "db_inv d" and "finalizing_ready d" and "r \<in> set (upload_tasks d)" and "t_id r = u" and "p r"
    and "upload_tasks d' = update_where p f (upload_tasks d)"
    and "upload_task_chunks d' = filter (\<lambda>c. c_task_id c \<noteq> u) (upload_task_chunks d)"
    and "\<And>r. p r \<Longrightarrow> t_id r = u \<and> t_id (f r) = u \<and> t_status (f r) \<noteq> ToStorageValue Finalizing"
  shows "finalizing_ready d'"
  using assms(2)
proof (rule finalizing_ready_step)
  fix r'
  assume r': "r' \<in> set (upload_tasks d')" "t_status r' = ToStorageValue Finalizing"
  then obtain q where q: "q \<in> set (upload_tasks d)" "r' = (if p q then f q else q)"
    using assms(6) by (auto simp: mem_update_where)
  with r'(2) assms(8) [of q] have "\<not> p q" "r' = q"
    by (auto split: if_splits)
  moreover have "t_id q \<noteq> u"
  proof
    assume "t_id q = u"
    then have "r = q"
      using same_row [OF assms(1) assms(3) q(1)] assms(4) by simp
    with assms(5) \<open>\<not> p q\<close> show False by simp
  qed
  ultimately show "(\<exists>r \<in> set (upload_tasks d). t_status r = ToStorageValue Finalizing \<and> same_task r r') \<and>
      set (chunk_indices d' (t_id r')) = set (chunk_indices d (t_id r'))"
    using q(1) r'(2) assms(7)
    by (intro conjI bexI [of _ q]) (auto simp: chunk_indices_def chunk_rows_def)
qed

lemma cancel_ready:
  assumes "cancel_tx u uid T s = (Inr (Inr x), s')" and "in_tx T" and "db_inv (sdb s)" and "finalizing_ready (sdb s)"
  shows "finalizing_ready (sdb s')"
  using cancel_tx_ok [OF assms(1,2)]
proof (elim disjE exE conjE)
  fix r session
  assume "r \<in> set (upload_tasks (sdb s))" "cancel_guard (now (sdb s)) u uid r"
    "sdb s' = ended (cancel_guard (now (sdb s)) u uid) (finish_set Cancelled (now (sdb s)) cancel_reason) r session (sdb s)"
  then show ?thesis
    by (intro ending_ready [OF assms(3,4), of r u "cancel_guard (now (sdb s)) u uid" _ "finish_set Cancelled (now (sdb s)) cancel_reason"])
       (auto simp: cancel.pinned ended_def finish_set_def)
qed (use assms(4) in simp)

lemma expire_ready:
  assumes "expire_tx u T s = (Inr (Inr x), s')" and "in_tx T" and "db_inv (sdb s)" and "finalizing_ready (sdb s)"
  shows "finalizing_ready (sdb s')"
  using expire_tx_ok [OF assms(1,2)]
proof (elim disjE exE conjE)
  fix r session
  assume "r \<in> set (upload_tasks (sdb s))" "expire_guard (now (sdb s)) u r"
    "sdb s' = ended (expire_guard (now (sdb s)) u) (finish_set Expired (now (sdb s)) expire_reason) r session (sdb s)"
  then show ?thesis
    by (intro ending_ready [OF assms(3,4), of r u "expire_guard (now (sdb s)) u" _ "finish_set Expired (now (sdb s)) expire_reason"])
       (auto simp: expire.pinned ended_def finish_set_def)
qed (use assms(4) in simp)

lemma create_ready:
  assumes "create_task_tx command (task_template command u n) session T s = (Inr (Inr x), s')" and "in_tx T"
    and "finalizing_ready (sdb s)"
  shows "finalizing_ready (sdb s')"
  using create_task_tx_ok [OF assms(1,2)] assms(3)
  by (auto simp: finalizing_ready_def has_all_chunks_def chunk_indices_def chunk_rows_def new_task_row_def task_template_def
      split: sum.splits)

lemma instant_ready:
  assumes "instant_upload_tx command content T s = (Inr (Inr f), s')" and "in_tx T" and "finalizing_ready (sdb s)"
  shows "finalizing_ready (sdb s')"
  using instant_upload_tx_ok [OF assms(1,2)] assms(3) by (auto simp: filed_def elim!: finalizing_ready_frame)

lemma complete_ready:
  assumes "complete_tx cc v t session a path dec T s = (Inr (Inr f), s')" and "in_tx T" and "db_inv (sdb s)"
    and "finalizing_ready (sdb s)"
  shows "finalizing_ready (sdb s')"
proof -
  let ?e = "renewed cc v (sdb s)"
  let ?p = "owns_lease (now ?e) (cc_upload_id cc) (cc_user_id cc) (cc_lease_owner cc) (v + 1)"
  from complete_tx_ok [OF assms(1,2) db_inv_contents [OF assms(3)]] obtain r cs' n' ds where
    r: "r \<in> set (upload_tasks ?e)" "?p r"
    and s': "sdb s' = completed_from cc (v + 1) (t_file_size t) session cs' n' f ds ?e"
    by (auto simp: Let_def)
  have "finalizing_ready ?e"
    by (rule lease_ready [OF assms(4),
          where p = "owns_lease (now (sdb s)) (cc_upload_id cc) (cc_user_id cc) (cc_lease_owner cc) v" and
                f = "renew_set (now (sdb s)) (cc_lease_duration_seconds cc)"])
       (auto simp: renewed_def lease_guard_defs renew.step_same)
  then show ?thesis
    by (rule ending_ready [OF db_inv_renewed [OF assms(3)] _ r(1) _, where p = ?p and f = "complete_set (now ?e) (f_id f)", OF _ _ r(2)])
       (use r(2) in \<open>simp_all add: s' lease_guard_defs completed_from_def filed_def complete_set_def\<close>)
qed

text \<open>Clearing the reference to a deleted file changes neither the status nor the chunks of a task.\<close>

lemma kept_ready:
  assumes "uploads_kept d d'" and "finalizing_ready d"
  shows "finalizing_ready d'"
proof -
  have "has_all_chunks d' (t_id q) (t_total_chunks q)" if "q \<in> set (upload_tasks d')" "t_status q = ToStorageValue Finalizing" for q
  proof -
    from that assms(1) obtain r where r: "r \<in> set (upload_tasks d)" "q = r \<or> q = forget_file r"
      using forgotten_origin unfolding uploads_kept_def by metis
    with that(2) assms(2) have "has_all_chunks d (t_id r) (t_total_chunks r)" by (auto simp: finalizing_ready_def)
    with r(2) assms(1) show ?thesis
      by (auto simp: has_all_chunks_def chunk_indices_def chunk_rows_def uploads_kept_def forget_file_def)
  qed
  then show ?thesis by (simp add: finalizing_ready_def)
qed

lemmas kept_ready_tx = kept_ready [OF move_tx_frame] trash_keeps_uploads [THEN kept_ready]

lemmas ready_steps = claim_ready renew_ready error_ready record_chunk_ready cancel_ready expire_ready create_ready
  instant_ready complete_ready

lemma closed_finalizing_ready: "closed finalizing_ready"
  unfolding closed_def
proof (intro allI impI)
  fix d d' :: "'w db"
  assume "db_inv d" "finalizing_ready d" "commits d d'"
  from this(3,1,2) show "finalizing_ready d'"
    by (induction rule: commits.induct)
       ((erule (3) ready_steps | erule (2) ready_steps | erule (1) ready_steps | (erule kept_ready_tx, assumption+) |
         (erule finalizing_ready_frame; simp add: chunk_frame task_frame gc_tx_frame drive_frame))+)
qed

section \<open>What the assembler is handed\<close>

lemma sorted_range:
  assumes "sorted is" and "distinct is" and "set is = {0..<n}"
  shows "is = map int [0..<nat n]"
proof (rule sorted_distinct_set_unique)
  show "sorted (map int [0..<nat n])"
    by (simp add: sorted_map)
  have "x \<in> int ` {0..<nat n}" if "0 \<le> x" "x < n" for x
    using that by (intro image_eqI [of x int "nat x"]) auto
  then show "set is = set (map int [0..<nat n])"
    using assms(3) by auto
qed (use assms in \<open>simp_all add: distinct_map\<close>)

lemma sorted_chunk_indices:
  assumes "db_inv d" and "has_all_chunks d u n"
  shows "map c_chunk_index (sort_key c_chunk_index (chunk_rows d u)) = map int [0..<nat n]"
proof (rule sorted_range)
  have "mset (map c_chunk_index (sort_key c_chunk_index (chunk_rows d u))) = mset (chunk_indices d u)"
    by (simp add: chunk_indices_def mset_map)
  then show "distinct (map c_chunk_index (sort_key c_chunk_index (chunk_rows d u)))"
    using chunk_indices_distinct(1) [OF assms(1), of u] mset_eq_imp_distinct_iff by blast
qed (use assms(2) in \<open>simp_all add: has_all_chunks_def chunk_indices_def\<close>)

lemma ListChunksForAssembly_ok:
  assumes "ListChunksForAssembly E u s = (Inr cs, s')" and "db_inv (seen E s)" and "has_all_chunks (seen E s) u n"
    and "n \<le> 2 ^ 32"
  shows "map sc_chunk_index cs = [0..<nat n]"
proof -
  let ?rows = "sort_key c_chunk_index (chunk_rows (seen E s) u)"
  from assms(1) have "map sc_chunk_index cs = map to_uint32 (map c_chunk_index ?rows)"
    by (auto simp: ListChunksForAssembly_def comp_def dest!: pure_ok)
  also have "\<dots> = map (to_uint32 \<circ> int) [0..<nat n]"
    by (simp add: sorted_chunk_indices [OF assms(2,3)])
  also have "\<dots> = map id [0..<nat n]"
    using assms(4) by (intro map_cong) (auto simp: to_uint32_def)
  finally show ?thesis by simp
qed

section \<open>The task cache agrees with the table\<close>

definition entry_ok :: "string \<Rightarrow> UploadTaskCacheEntry \<Rightarrow> 'w db \<Rightarrow> bool" where
  "entry_ok u e d \<longleftrightarrow> (\<exists>r \<in> set (upload_tasks d). cache_matches u e r)"

definition cache_inv :: "'w db \<Rightarrow> bool" where
  "cache_inv d \<longleftrightarrow> (\<forall>u e. task_cache d u = Some e \<longrightarrow> entry_ok u e d)"

lemma cache_matches_same: "same_task r r' \<Longrightarrow> cache_matches u e r \<Longrightarrow> cache_matches u e r'"
  using same_prefix [of r r'] by (simp add: cache_matches_def same_task_def)

lemma entry_ok_evolves:
  assumes "entry_ok u e d" and "tasks_evolve (upload_tasks d) (upload_tasks d')"
  shows "entry_ok u e d'"
proof -
  from assms(1) obtain r where r: "r \<in> set (upload_tasks d)" "cache_matches u e r"
    by (auto simp: entry_ok_def)
  with assms(2) obtain r' where "r' \<in> set (upload_tasks d')" "task_evolves r r'"
    by (auto simp: tasks_evolve_def)
  with r show ?thesis
    by (auto simp: entry_ok_def task_evolves_def intro: cache_matches_same)
qed

lemma closed_entry_ok: "closed (entry_ok u e)"
  unfolding closed_def by (blast intro: entry_ok_evolves commits_evolves)

text \<open>Only the two cache actions change the cache.\<close>

lemma cache_frame:
  "claim_stmt u uid owner dur d = (x, d') \<Longrightarrow> task_cache d' = task_cache d"
  "renew_stmt u uid owner v dur d = (x, d') \<Longrightarrow> task_cache d' = task_cache d"
  "error_stmt u uid owner v code d = (y, d') \<Longrightarrow> task_cache d' = task_cache d"
  "record_chunk_stmt u uid ex d = (z, d') \<Longrightarrow> task_cache d' = task_cache d"
  "enqueue_stmt job d = (b, d') \<Longrightarrow> task_cache d' = task_cache d"
  "rearm_stmt job d = (b, d') \<Longrightarrow> task_cache d' = task_cache d"
  "exhaust_stmt d = (w, d') \<Longrightarrow> task_cache d' = task_cache d"
  "job_claim_stmt locked inst n dur d = (q, d') \<Longrightarrow> task_cache d' = task_cache d"
  "job_renew_stmt i inst dur d = (b, d') \<Longrightarrow> task_cache d' = task_cache d"
  "job_succeed_stmt i inst d = (b, d') \<Longrightarrow> task_cache d' = task_cache d"
  "job_fail_stmt i inst err retryable delay d = (l, d') \<Longrightarrow> task_cache d' = task_cache d"
  by (auto simp: claim_stmt_def renew_stmt_def error_stmt_def record_chunk_stmt_def enqueue_stmt_def rearm_stmt_def
      exhaust_stmt_def job_claim_stmt_def job_renew_stmt_def job_succeed_stmt_def job_fail_stmt_def insert_job_def Let_def
      split: if_splits option.splits)

lemma cleaned_up_cache [simp]: "task_cache (cleaned_up session u d) = task_cache d"
  by (simp add: cleaned_up_def without_chunks_def enqueued_def insert_job_def)

lemma tx_cache_frame:
  "cancel_tx u uid T s = (Inr (Inr x), s') \<Longrightarrow> in_tx T \<Longrightarrow> task_cache (sdb s') = task_cache (sdb s)"
  "expire_tx u T s = (Inr (Inr x), s') \<Longrightarrow> in_tx T \<Longrightarrow> task_cache (sdb s') = task_cache (sdb s)"
  "create_task_tx command t session T s = (Inr (Inr y), s') \<Longrightarrow> in_tx T \<Longrightarrow> task_cache (sdb s') = task_cache (sdb s)"
  "instant_upload_tx command content T s = (Inr (Inr f), s') \<Longrightarrow> in_tx T \<Longrightarrow> task_cache (sdb s') = task_cache (sdb s)"
  by (frule (1) cancel_tx_ok expire_tx_ok create_task_tx_ok instant_upload_tx_ok,
      auto simp: ended_def filed_def split: sum.splits)+

lemma complete_cache_frame:
  "complete_tx cc v t session a path dec T s = (Inr (Inr f), s') \<Longrightarrow> in_tx T \<Longrightarrow> db_inv (sdb s) \<Longrightarrow>
   task_cache (sdb s') = task_cache (sdb s)"
  using complete_tx_ok [of cc v t session a path dec T s f s'] db_inv_contents [of "sdb s"]
  by (fastforce simp: Let_def completed_from_def filed_def renewed_def)

lemma trash_cache_frame:
  "move_tx ord fs ds uid T s = (Inr (Inr m), s') \<Longrightarrow> in_tx T \<Longrightarrow> db_inv (sdb s) \<Longrightarrow> task_cache (sdb s') = task_cache (sdb s)"
  "restore_file_tx i uid k T s = (Inr (Inr w), s') \<Longrightarrow> in_tx T \<Longrightarrow> db_inv (sdb s) \<Longrightarrow> task_cache (sdb s') = task_cache (sdb s)"
  "restore_folder_tx i uid k T s = (Inr (Inr w), s') \<Longrightarrow> in_tx T \<Longrightarrow> db_inv (sdb s) \<Longrightarrow> task_cache (sdb s') = task_cache (sdb s)"
  "purge_tx ord items rv T s = (Inr (True, p), s') \<Longrightarrow> in_tx T \<Longrightarrow> holds_trash items (sdb s) \<Longrightarrow> hash_order_ok ord \<Longrightarrow>
   db_inv (sdb s) \<Longrightarrow> task_cache (sdb s') = task_cache (sdb s)"
  by (drule (2) move_tx_frame trash_keeps_uploads | drule (4) trash_keeps_uploads | simp add: uploads_kept_def)+

lemma commits_cache:
  assumes "commits d d'" and "db_inv d" and "task_cache d' u = Some e"
  shows "task_cache d u = Some e \<or> entry_ok u e d"
  using assms
proof (induction rule: commits.induct)
  case (cache_put k e' r d)
  then show ?case by (auto simp: entry_ok_def split: if_splits)
next
  case (cache_erase d c)
  from cache_erase(1) have "c u = None \<or> c u = task_cache d u"
    unfolding shrinks_def by blast
  with cache_erase(3) show ?case by simp
qed (simp_all add: cache_frame tx_cache_frame complete_cache_frame trash_cache_frame gc_tx_frame drive_frame)

lemma closed_cache_inv: "closed cache_inv"
  unfolding closed_def cache_inv_def
  by (meson commits_cache commits_evolves entry_ok_evolves)

section \<open>An accepted chunk\<close>

lemma TryGet_ok:
  assumes "cluster E" and "inv_and cache_inv (sdb s)" and "TryGetUploadTaskCacheEntry E u uid s = (Inr (Some e), s')"
  shows "inv_and (entry_ok u e) (sdb s') \<and> ce_user_id e = uid"
proof -
  let ?d = "other E (pc s) (sdb s)"
  have d: "inv_and cache_inv ?d"
    using stable_inv_and [OF assms(1) closed_cache_inv] assms(2) by (simp add: stable_def)
  from assms(3) have "task_cache ?d u = Some e" "ce_user_id e = uid" "sdb s' = ?d\<lparr>task_cache := task_cache ?d\<rparr>"
    by (auto simp: TryGetUploadTaskCacheEntry_def callCache_def probe_cache_def Let_def elim!: bindM_okE
        split: cache_probe.splits option.splits if_splits prod.splits)
  with d show ?thesis
    by (simp add: inv_and_def cache_inv_def entry_ok_def)
qed

lemma load_chunk_task_ok:
  assumes E: "cluster E" and inv: "db_inv (sdb s)" and run: "load_chunk_task E u uid s = (Inr (Inr e), s')"
  shows "inv_and (entry_ok u e) (sdb s') \<and> ce_user_id e = uid"
proof -
  from run obtain t s1 session s2 x s3 where find: "FindUploadTask E u uid s = (Inr (Inr t), s1)"
    and stag: "FindUploadStagingSession E u uid s1 = (Inr (Inr session), s2)"
    and fill: "bindM (callCache E (\<lambda>t' c. (BuildUploadTaskCacheEntry t' t session, c))) (\<lambda>entry.
         bindM (CacheUploadTaskEntry E u entry) (\<lambda>_. okR entry)) s2 = (Inr (Inr e), s')"
    unfolding load_chunk_task_def by (auto elim!: bindR_okE split: if_splits)
  let ?Q = "inv_and (\<lambda>d. True \<and> holds_task u t d)"
  have cl: "closed (\<lambda>d. True \<and> holds_task u t d)"
    by (intro closed_conj closed_True closed_holds_task)
  have "inv_and (\<lambda>_. True) (sdb s)" using inv by (simp add: inv_and_def)
  from keepsD' [OF keeps_FindUploadTask [OF stable_inv_and [OF E closed_True]] this find] FindUploadTask_ok [OF find]
  have Q1: "?Q (sdb s1)" and t: "t_id t = u" "t_user_id t = uid"
    by (auto simp: inv_and_def holds_task_def owned_task_def)
  have Q2: "?Q (sdb s2)"
    by (rule keepsD' [OF keeps_FindUploadStagingSession [OF stable_inv_and [OF E cl]] Q1 stag])
  have sess: "session_of t session"
    using FindUploadStagingSession_ok [OF stag] Q2 session_of_same holds_task_unique by (metis inv_and_def)
  have Q3: "?Q (sdb s')"
    by (rule keepsD' [OF keeps_cache_fill [OF E closed_True sess t(1)] Q2 fill])
  from fill obtain x where e: "e = BuildUploadTaskCacheEntry x t session"
    by (auto simp: callCache_def Let_def elim!: bindM_okE)
  have "cache_matches u e t"
    using sess t e by (simp add: cache_matches_def BuildUploadTaskCacheEntry_def session_of_def)
  with Q3 e t show ?thesis
    by (auto simp: inv_and_def holds_task_def entry_ok_def BuildUploadTaskCacheEntry_def intro: cache_matches_same)
qed

text \<open>A recorded chunk: the statement found the upload in progress, and the row carries what was written.\<close>

definition chunk_recorded :: "string \<Rightarrow> nat \<Rightarrow> nat \<Rightarrow> UploadStagingChunk \<Rightarrow> 'w db \<Rightarrow> bool" where
  "chunk_recorded u uid i w d \<longleftrightarrow>
     (\<exists>r \<in> set (upload_tasks d). cancel_guard (now d) u uid r) \<and>
     (\<exists>c \<in> set (upload_task_chunks d). c_task_id c = u \<and> c_chunk_index c = to_int32 (int i) \<and>
        c_size_bytes c = Some (sc_size_bytes w) \<and> c_hash_md5 c = Some (sc_md5_hash w))"

lemma record_chunk_stmt_ok:
  assumes "record_chunk_stmt u uid ex d = (Inr (True, True), d')"
    and "c_task_id ex = u" "c_chunk_index ex = to_int32 (int i)" "c_size_bytes ex = Some (sc_size_bytes w)" "c_hash_md5 ex = Some (sc_md5_hash w)"
  shows "chunk_recorded u uid i w d'"
proof -
  have row: "\<exists>r \<in> set (upload_tasks d'). cancel_guard (now d') u uid r"
    using assms(1) by (auto simp: record_chunk_stmt_def list_ex_iff split: if_splits option.splits)
  have "\<exists>c \<in> set (upload_task_chunks d'). chunk_key c = chunk_key ex \<and> c_size_bytes c = c_size_bytes ex \<and> c_hash_md5 c = c_hash_md5 ex"
  proof (cases "find_row (\<lambda>c. chunk_key c = chunk_key ex) (upload_task_chunks d)")
    case None
    with assms(1) show ?thesis by (auto simp: record_chunk_stmt_def split: if_splits)
  next
    case (Some old)
    with assms(1) have comp: "chunk_compatible old ex"
      and d': "upload_task_chunks d' = update_where (\<lambda>c. chunk_key c = chunk_key ex) (chunk_merge ex) (upload_task_chunks d)"
      by (auto simp: record_chunk_stmt_def split: if_splits)
    from find_row_Some [OF Some] d' have "chunk_merge ex old \<in> set (upload_task_chunks d')"
      by (auto simp: mem_update_where intro!: bexI [of _ old])
    moreover have "chunk_key (chunk_merge ex old) = chunk_key ex \<and> c_size_bytes (chunk_merge ex old) = c_size_bytes ex \<and>
        c_hash_md5 (chunk_merge ex old) = c_hash_md5 ex"
      using comp find_row_Some [OF Some]
      by (auto simp: chunk_compatible_def null_or_eq_def coalesce_def chunk_merge_def chunk_key_def split: option.splits)
    ultimately show ?thesis by blast
  qed
  with row assms(2-) show ?thesis
    unfolding chunk_recorded_def by (fastforce simp: chunk_key_def)
qed

lemma record_chunk_ok:
  assumes "Upload_Service.record_chunk E u uid i w s = (Inr (Inr resp), s')"
  shows "resp = \<lparr>ur_chunk_index = i, ur_uploaded = True\<rparr> \<and> chunk_recorded u uid i w (sdb s')"
proof -
  from assms obtain disp s1 where rec: "RecordChunkIfInProgress E u uid i (sc_size_bytes w) (sc_md5_hash w) (sc_object_key w) (sc_etag w) s
      = (Inr Accepted, s1)" and "s' = s1" "resp = \<lparr>ur_chunk_index = i, ur_uploaded = True\<rparr>"
    unfolding record_chunk_def
    by (auto dest!: catchDb_okD elim!: bindM_okE split: ChunkRecordDisposition.splits)
  moreover from rec have "chunk_recorded u uid i w (sdb s1)"
    unfolding RecordChunkIfInProgress_def
    by (auto elim!: bindM_okE exec_okE split: if_splits intro: record_chunk_stmt_ok)
  ultimately show ?thesis by simp
qed

text \<open>
  What the handler relies on from the staging storage: a chunk it reports as written has the
  index, size and hash of the data it was given (src/src/storage/UploadStagingStorage.hpp).
\<close>

definition writes_faithfully :: "'w staging_ops \<Rightarrow> bool" where
  "writes_faithfully st \<longleftrightarrow>
     (\<forall>session i h bytes w chunk w'. WriteChunk st session i h bytes w = (Inr chunk, w') \<longrightarrow>
        sc_chunk_index chunk = i \<and> sc_size_bytes chunk = length bytes \<and> sc_md5_hash chunk = h)"

lemma writes_faithfullyD:
  "writes_faithfully st \<Longrightarrow> WriteChunk st session i h bytes w = (Inr chunk, w') \<Longrightarrow>
   sc_size_bytes chunk = length bytes \<and> sc_md5_hash chunk = h"
  unfolding writes_faithfully_def by blast

lemma UploadChunk_ok:
  assumes E: "cluster E" and inv: "inv_and cache_inv (sdb s)"
    and st: "m_upload_staging_storage (us_lifecycle U) = Some st" "writes_faithfully st"
    and run: "UploadChunk E U u i h bytes uid s = (Inr (Inr resp), s')"
  shows "\<exists>r \<in> set (upload_tasks (sdb s')). \<exists>c \<in> set (upload_task_chunks (sdb s')).
    t_id r = u \<and> t_user_id r = uid \<and> t_status r = ToStorageValue InProgress \<and> now (sdb s') \<le> t_expires_at r \<and>
    ValidateChunkAcceptance i (length bytes) (t_file_size r) (to_uint32 (t_chunk_size r)) (to_uint32 (t_total_chunks r)) = Inr (length bytes) \<and>
    c_task_id c = u \<and> c_chunk_index c = to_int32 (int i) \<and> c_size_bytes c = Some (length bytes) \<and>
    c_hash_md5 c = Some h \<and> us_hash_md5 U bytes = h"
proof -
  from run st obtain x s1 e s2 w s3 n where probe: "TryGetUploadTaskCacheEntry E u uid s = (Inr x, s1)"
    and get: "(case x of Some e \<Rightarrow> okR e | None \<Rightarrow> load_chunk_task E u uid) s1 = (Inr (Inr e), s2)"
    and val: "ValidateChunkAcceptance i (length bytes) (ce_file_size e) (ce_chunk_size e) (ce_total_chunks e) = Inr n"
    and hash: "us_hash_md5 U bytes = h"
    and wr: "callStore E (WriteChunk st (ce_staging_session e) i h bytes) s2 = (Inr (Inr w), s3)"
    and rec: "Upload_Service.record_chunk E u uid i w s3 = (Inr (Inr resp), s')"
    unfolding UploadChunk_def Let_def
    by (auto elim!: bindM_okE bindR_okE split: sum.splits if_splits)
  have s2: "inv_and (entry_ok u e) (sdb s2)"
  proof (cases x)
    case None
    moreover have "db_inv (sdb s1)"
      using keepsD' [OF keeps_TryGet [OF E closed_cache_inv] inv probe] by (simp add: inv_and_def)
    ultimately show ?thesis
      using load_chunk_task_ok [OF E] get by simp
  next
    case (Some e')
    with TryGet_ok [OF E inv] probe get show ?thesis by simp
  qed
  have s3: "inv_and (entry_ok u e) (sdb s3)"
    by (rule keepsD' [OF keeps_store_call [OF E closed_entry_ok] s2 wr])
  have s': "inv_and (entry_ok u e) (sdb s')"
    by (rule keepsD' [OF keeps_record_chunk [OF E closed_entry_ok] s3 rec])
  have w: "sc_size_bytes w = length bytes" "sc_md5_hash w = h"
    using wr writes_faithfullyD [OF st(2)] by (auto simp: callStore_def Let_def split: prod.splits)
  from record_chunk_ok [OF rec] obtain r c where r: "r \<in> set (upload_tasks (sdb s'))" "cancel_guard (now (sdb s')) u uid r"
    and c: "c \<in> set (upload_task_chunks (sdb s'))" "c_task_id c = u" "c_chunk_index c = to_int32 (int i)"
      "c_size_bytes c = Some (length bytes)" "c_hash_md5 c = Some h"
    using w by (auto simp: chunk_recorded_def)
  from s' obtain q where q: "q \<in> set (upload_tasks (sdb s'))" "cache_matches u e q"
    by (auto simp: inv_and_def entry_ok_def)
  have "q = r"
    using s' q r same_row [of "sdb s'" q r] by (simp add: inv_and_def cache_matches_def cancel_guard_def owned_task_def)
  moreover have "n = length bytes"
    using val by (auto simp: ValidateChunkAcceptance_def Let_def split: if_splits)
  ultimately show ?thesis
    using r c q val hash
    by (intro bexI [of _ r] bexI [of _ c]) (auto simp: cache_matches_def cancel_guard_def owned_task_def)
qed

end
