(* ===== verification/Accounting.thy ===== *)
theory Accounting
  imports Upload_Results
begin

text \<open>
  Quota.  A user is within quota if used and reserved bytes together do not exceed the quota.
  Reserving for an upload, releasing and turning a reservation into usage keep every user
  within quota; an instant upload checks the used bytes only and keeps the weaker bound.
\<close>

definition within_quota :: "user_row \<Rightarrow> bool" where
  "within_quota u \<longleftrightarrow> u_storage_used u + u_storage_reserved u \<le> u_storage_quota u"

definition all_within_quota :: "'w db \<Rightarrow> bool" where
  "all_within_quota d \<longleftrightarrow> (\<forall>u \<in> set (users d). within_quota u)"

section \<open>Updates of the users table\<close>

lemma within_quota_update:
  assumes "\<And>u. u \<in> set us \<Longrightarrow> p u \<Longrightarrow> within_quota u \<Longrightarrow> within_quota (f u)" and "\<forall>u \<in> set us. within_quota u"
  shows "\<forall>u \<in> set (update_where p f us). within_quota u"
  using assms by (auto simp: mem_update_where)

lemma reserve_within: "\<forall>u \<in> set us. within_quota u \<Longrightarrow> \<forall>u \<in> set (reserve_users k b us). within_quota u"
  unfolding reserve_users_def by (rule within_quota_update) (simp_all add: within_quota_def)

lemma release_within: "\<forall>u \<in> set us. within_quota u \<Longrightarrow> \<forall>u \<in> set (release_users k b us). within_quota u"
  unfolding release_users_def by (rule within_quota_update) (fastforce simp: within_quota_def)+

lemma commit_within: "\<forall>u \<in> set us. within_quota u \<Longrightarrow> \<forall>u \<in> set (commit_users k b us). within_quota u"
  unfolding commit_users_def by (rule within_quota_update) (simp_all add: within_quota_def)

section \<open>Transactions\<close>

lemma cancel_within:
  "cancel_tx u uid T s = (Inr (Inr x), s') \<Longrightarrow> in_tx T \<Longrightarrow> all_within_quota (sdb s) \<Longrightarrow> all_within_quota (sdb s')"
  by (frule (1) cancel_tx_ok) (auto simp: all_within_quota_def ended_def intro: bspec [OF release_within])

lemma expire_within:
  "expire_tx u T s = (Inr (Inr x), s') \<Longrightarrow> in_tx T \<Longrightarrow> all_within_quota (sdb s) \<Longrightarrow> all_within_quota (sdb s')"
  by (frule (1) expire_tx_ok) (auto simp: all_within_quota_def ended_def intro: bspec [OF release_within])

lemma create_within:
  "create_task_tx command t session T s = (Inr (Inr x), s') \<Longrightarrow> in_tx T \<Longrightarrow> all_within_quota (sdb s) \<Longrightarrow> all_within_quota (sdb s')"
  by (frule (1) create_task_tx_ok) (auto simp: all_within_quota_def intro: bspec [OF reserve_within] split: sum.splits)

lemma complete_within:
  assumes "complete_tx cc v t session a path dec T s = (Inr (Inr f), s')" and "in_tx T" and "db_inv (sdb s)"
    and "all_within_quota (sdb s)"
  shows "all_within_quota (sdb s')"
  using complete_tx_ok [OF assms(1,2) db_inv_contents [OF assms(3)]] assms(4)
  by (auto simp: Let_def all_within_quota_def completed_from_def filed_def renewed_def intro: bspec [OF commit_within])

text \<open>A reservation that succeeded fits.\<close>

lemma reservation_fits:
  assumes "create_task_tx command t session T s = (Inr (Inr (Inr row)), s')" and "in_tx T" and "db_inv (sdb s)"
    and "0 < ic_file_size command"
  shows "\<exists>u \<in> set (users (sdb s')). u_id u = ic_user_id command \<and> within_quota u"
proof -
  from create_task_tx_ok [OF assms(1,2)] assms(4) obtain u where u: "u \<in> set (users (sdb s))" "u_id u = ic_user_id command"
    "u_storage_used u + u_storage_reserved u + int (ic_file_size command) \<le> u_storage_quota u"
    and s': "users (sdb s') = reserve_users (ic_user_id command) (ic_file_size command) (users (sdb s))"
    by auto
  let ?u = "u\<lparr>u_storage_reserved := u_storage_reserved u + int (ic_file_size command)\<rparr>"
  have "?u \<in> set (users (sdb s'))"
    using u s' by (auto simp: reserve_users_def mem_update_where intro!: bexI [of _ u])
  then show ?thesis
    using u by (intro bexI [of _ ?u]) (simp_all add: within_quota_def)
qed

lemma instant_upload_bound:
  assumes "instant_upload_tx command content T s = (Inr (Inr f), s')" and "in_tx T"
    and "\<forall>u \<in> set (users (sdb s)). u_storage_used u \<le> u_storage_quota u"
  shows "\<forall>u \<in> set (users (sdb s')). u_storage_used u \<le> u_storage_quota u"
  using instant_upload_tx_ok [OF assms(1,2)] assms(3)
  by (auto simp: filed_def consume_users_def mem_update_where)

end
