(* ===== verification/Progress_Properties.thy ===== *)
theory Progress_Properties
  imports Upload_Properties Upload_Progress Accounting
begin

text \<open>
  The properties of chunks, of the task cache and of quota, with the sample runs on which they
  apply, and the run in which an instant upload and a completion exceed the quota together.
\<close>

section \<open>Chunks\<close>

text \<open>
  C10: The chunks partition the file.  For a non-empty file there is a length for every chunk
  index such that the handler accepts data for an index exactly if the index is below the
  number of chunks fixed at initialisation and the data has that length; every length is
  positive and at most the chunk size, and the lengths add up to the size of the file.  The
  source's unsigned 64-bit arithmetic does not wrap on the way.
\<close>

theorem chunks_partition_file:
  assumes "0 < fsize" and "fsize < 2 ^ 64" and "0 < csize" and "csize < 2 ^ 32"
  shows "\<exists>len. (\<forall>i n. (\<exists>m. ValidateChunkAcceptance i n fsize csize (total_chunks_u64 fsize csize) = Inr m) \<longleftrightarrow>
                     i < total_chunks_u64 fsize csize \<and> n = len i) \<and>
    (\<forall>i < total_chunks_u64 fsize csize. 0 < len i \<and> len i \<le> csize) \<and>
    (\<Sum>i<total_chunks_u64 fsize csize. len i) = fsize"
proof -
  have c: "csize < 2 ^ 64" using assms(4) by simp
  show ?thesis
    using ValidateChunkAcceptance_iff [OF assms(1-3) c] total_chunks_reference [OF assms(1-3) c]
      chunk_lengths_sum [OF assms(1,3)] chunk_length_pos [OF assms(1,3)]
    by (intro exI [of _ "chunk_length fsize csize"]) (simp add: chunk_length_def)
qed

theorem chunks_partition_file_witness:
  "\<exists>len. (\<forall>i n. (\<exists>m. ValidateChunkAcceptance i n 6 4 (total_chunks_u64 6 4) = Inr m) \<longleftrightarrow>
                     i < total_chunks_u64 6 4 \<and> n = len i) \<and>
    (\<forall>i < total_chunks_u64 6 4. 0 < len i \<and> len i \<le> 4) \<and> (\<Sum>i<total_chunks_u64 6 4. len i) = 6"
  by (rule chunks_partition_file) simp_all

text \<open>
  A file of size zero never gets an upload task while the chunk size is at least two: the
  number of chunks wraps around to more than a 32-bit count and the request is refused.
\<close>

theorem empty_file_is_refused:
  assumes "ic_file_size command = 0" and "1 < ic_chunk_size command" and "ic_chunk_size command < 2 ^ 32"
    and "ic_upload_task_creation_enabled command"
  shows "start_new_upload E L u command pending s =
    (Inr (Inl (ErrorInfo2 ValidationFailed ''File requires too many chunks'')), s)"
proof -
  let ?c = "ic_chunk_size command"
  have q: "unat ((- 1 :: 64 word) div of_nat ?c) = (2 ^ 64 - 1) div ?c"
    using assms(3) by (simp add: unat_div unat_of_nat unsigned_minus_1_eq_mask mask_eq_exp_minus_1)
  have "(2 ^ 64 - 1) div ?c \<le> (2 ^ 64 - 1) div (2 :: nat)"
    using assms(2) by (intro div_le_mono2) simp_all
  then have "unat ((- 1 :: 64 word) div of_nat ?c + 1) = (2 ^ 64 - 1) div ?c + 1"
    using q by (simp add: unat_word_ariths)
  moreover have "(2 ^ 64 - 1) div (2 ^ 32) \<le> (2 ^ 64 - 1) div ?c"
    using assms(2,3) by (intro div_le_mono2) simp_all
  ultimately have "2 ^ 32 - 1 < total_chunks_u64 0 ?c"
    by (simp add: total_chunks_u64_def)
  then show ?thesis
    using assms by (simp add: start_new_upload_def failR_def retM_def)
qed

definition empty_file_command :: InitUploadCommand where
  "empty_file_command =
     \<lparr>ic_filename = ''a'', ic_file_size = 0, ic_file_hash = sample_md5, ic_parent_id = 0, ic_user_id = 1,
      ic_max_file_size = 10, ic_chunk_size = 4, ic_expiry_seconds = 60, ic_upload_task_creation_enabled = True\<rparr>"

theorem empty_file_is_refused_witness:
  "start_new_upload quiet sample_lifecycle ''u1'' empty_file_command [] (start sample_db) =
    (Inr (Inl (ErrorInfo2 ValidationFailed ''File requires too many chunks'')), start sample_db)"
  by (rule empty_file_is_refused) (simp_all add: empty_file_command_def)

text \<open>
  C7: In every state the cluster reaches, an upload that is being finalized has recorded
  exactly the chunks with the indices below its number of chunks, whatever happened to other
  uploads in between.
\<close>

theorem finalizing_upload_has_all_chunks:
  assumes "\<forall>(E, V, req) \<in> set reqs. deployed E V" and "db_inv (sdb s)" and "finalizing_ready (sdb s)"
    and "r \<in> set (upload_tasks (sdb (serve_all reqs s)))" and "t_status r = ToStorageValue Finalizing"
  shows "c_chunk_index ` set (chunk_rows (sdb (serve_all reqs s)) (t_id r)) = {0..<t_total_chunks r}"
proof -
  have "commits\<^sup>*\<^sup>* (sdb s) (sdb (serve_all reqs s))"
    using serve_all_commits [OF assms(1,2)] by simp
  then have "finalizing_ready (sdb (serve_all reqs s))"
    using inv_and_steps [OF _ closed_finalizing_ready] assms(2,3) by (auto simp: inv_and_def)
  with assms(4,5) show ?thesis
    by (simp add: finalizing_ready_def has_all_chunks_def chunk_indices_def)
qed

definition stuck_service :: "unit upload_service" where
  "stuck_service = sample_service\<lparr>us_lifecycle := sample_lifecycle\<lparr>m_upload_staging_storage := None\<rparr>\<rparr>"

definition stuck_requests :: "(unit client \<times> unit services \<times> request) list" where
  "stuck_requests = take 3 sample_requests @ [(quiet, sample_services\<lparr>sv_upload := stuck_service\<rparr>, ReqComplete ''u1'' 1)]"

theorem finalizing_upload_has_all_chunks_witness:
  "let d = sdb (serve_all stuck_requests (start sample_db)); r = hd (upload_tasks d) in
   t_status r = ToStorageValue Finalizing \<and> c_chunk_index ` set (chunk_rows d (t_id r)) = {0..<t_total_chunks r}"
proof -
  let ?s = "serve_all stuck_requests (start sample_db)"
  have s: "?s = snd (UploadService_CompleteUpload quiet stuck_service ''u1'' 1 sample_uploaded)"
    by (simp add: stuck_requests_def sample_requests_def serve_all_def serve_def sample_uploaded_def sample_initialised_def
        sample_services_def)
  have "let ts = upload_tasks (sdb (snd (UploadService_CompleteUpload quiet stuck_service ''u1'' 1 sample_uploaded)))
     in ts \<noteq> [] \<and> t_status (hd ts) = ToStorageValue Finalizing"
    by code_simp
  then have r: "hd (upload_tasks (sdb ?s)) \<in> set (upload_tasks (sdb ?s))"
    "t_status (hd (upload_tasks (sdb ?s))) = ToStorageValue Finalizing"
    by (simp_all add: s Let_def)
  have "deployed quiet (sample_services\<lparr>sv_upload := stuck_service\<rparr>)"
    using deployed_sample by (simp add: deployed_def)
  then have "\<forall>(E, V, req) \<in> set stuck_requests. deployed E V"
    using sample_requests_prefix [of 3] by (auto simp: stuck_requests_def)
  from finalizing_upload_has_all_chunks [OF this _ _ r] r(2) show ?thesis
    by (simp add: Let_def start_def finalizing_ready_def sample_db_def empty_db_def) (simp flip: sample_db_def empty_db_def)
qed

text \<open>
  What the assembler is handed for an upload that has its chunks is one descriptor per
  chunk, in the order of the indices, none missing and none twice.
\<close>

theorem assembler_gets_chunks_in_order:
  assumes "ListChunksForAssembly E u s = (Inr cs, s')" and "db_inv (seen E s)"
    and "c_chunk_index ` set (chunk_rows (seen E s) u) = {0..<n}" and "n \<le> 2 ^ 32"
  shows "map sc_chunk_index cs = [0..<nat n]"
  using ListChunksForAssembly_ok [OF assms(1,2) _ assms(4)] assms(3)
  by (simp add: has_all_chunks_def chunk_indices_def)

theorem assembler_gets_chunks_in_order_witness:
  "\<exists>cs s'. ListChunksForAssembly quiet ''u1'' sample_uploaded = (Inr cs, s') \<and> map sc_chunk_index cs = [0..<2]"
proof -
  let ?run = "ListChunksForAssembly quiet ''u1'' sample_uploaded"
  have "case fst ?run of Inr cs \<Rightarrow> cs \<noteq> [] | Inl _ \<Rightarrow> False" by code_simp
  then obtain cs where run: "?run = (Inr cs, snd ?run)"
    by (auto simp: prod_eq_iff split: sum.splits)
  have seen: "seen quiet sample_uploaded = sdb sample_uploaded"
    by (simp add: seen_def quiet_def)
  have "map c_chunk_index (chunk_rows (sdb sample_uploaded) ''u1'') = [0, 1]"
    by code_simp
  then have "c_chunk_index ` set (chunk_rows (sdb sample_uploaded) ''u1'') = {0, 1}"
    by (simp flip: list.set_map)
  also have "\<dots> = {0..<2}" by auto
  finally have "c_chunk_index ` set (chunk_rows (sdb sample_uploaded) ''u1'') = {0..<2}" .
  with assembler_gets_chunks_in_order [OF run, of 2] seen sample_uploaded_inv run show ?thesis by auto
qed

text \<open>
  C9: The process's task cache never lies: along any interleaving every cached entry carries
  the owner, sizes and staging session of the task row with its identifier, so a chunk that is
  checked against the cache is checked against the table.
\<close>

theorem cache_agrees_with_table:
  assumes "\<forall>(E, V, req) \<in> set reqs. deployed E V" and "db_inv (sdb s)" and "cache_inv (sdb s)"
    and "task_cache (sdb (serve_all reqs s)) u = Some e"
  shows "\<exists>r \<in> set (upload_tasks (sdb (serve_all reqs s))). cache_matches u e r"
proof -
  have "commits\<^sup>*\<^sup>* (sdb s) (sdb (serve_all reqs s))"
    using serve_all_commits [OF assms(1,2)] by simp
  then have "cache_inv (sdb (serve_all reqs s))"
    using inv_and_steps [OF _ closed_cache_inv] assms(2,3) by (auto simp: inv_and_def)
  with assms(4) show ?thesis
    by (simp add: cache_inv_def entry_ok_def)
qed

lemma sample_start_facts: "db_inv (sdb (start sample_db))" "cache_inv (sdb (start sample_db))"
  by (simp_all add: start_def) (simp add: cache_inv_def sample_db_def empty_db_def)

theorem cache_agrees_with_table_witness:
  "\<exists>r \<in> set (upload_tasks (sdb (serve_all (take 2 sample_requests) (start sample_db)))).
     cache_matches ''u1'' (the (task_cache (sdb (serve_all (take 2 sample_requests) (start sample_db))) ''u1'')) r"
proof (rule cache_agrees_with_table)
  show "\<forall>(E, V, req) \<in> set (take 2 sample_requests). deployed E V"
    by (rule sample_requests_prefix)
  have "task_cache (sdb (serve_all (take 2 sample_requests) (start sample_db))) ''u1'' \<noteq> None"
    by code_simp
  then show "task_cache (sdb (serve_all (take 2 sample_requests) (start sample_db))) ''u1'' =
      Some (the (task_cache (sdb (serve_all (take 2 sample_requests) (start sample_db))) ''u1''))"
    by simp
qed (fact sample_start_facts)+

text \<open>
  C8: An acknowledged chunk is recorded: if the handler reports success, the upload is in
  progress and not expired, the data has the length the geometry of its row demands and the
  announced hash, and the chunk table holds a row with its index, length and hash.  The
  staging storage is assumed to report what it wrote.
\<close>

theorem acknowledged_chunk_is_recorded:
  assumes "cluster E" and "db_inv (sdb s)" and "cache_inv (sdb s)"
    and "m_upload_staging_storage (us_lifecycle U) = Some st" and "writes_faithfully st"
    and "UploadChunk E U u i h bytes uid s = (Inr (Inr resp), s')"
  shows "\<exists>r \<in> set (upload_tasks (sdb s')). \<exists>c \<in> set (upload_task_chunks (sdb s')).
    t_id r = u \<and> t_user_id r = uid \<and> t_status r = ToStorageValue InProgress \<and> now (sdb s') \<le> t_expires_at r \<and>
    ValidateChunkAcceptance i (length bytes) (t_file_size r) (to_uint32 (t_chunk_size r)) (to_uint32 (t_total_chunks r)) = Inr (length bytes) \<and>
    c_task_id c = u \<and> c_chunk_index c = to_int32 (int i) \<and> c_size_bytes c = Some (length bytes) \<and>
    c_hash_md5 c = Some h \<and> us_hash_md5 U bytes = h"
  by (rule UploadChunk_ok [OF assms(1) _ assms(4-6)]) (simp add: inv_and_def assms(2,3))

theorem acknowledged_chunk_is_recorded_witness:
  "\<exists>r \<in> set (upload_tasks (sdb (snd (UploadChunk quiet sample_service ''u1'' 0 sample_md5 ''abcd'' 1 sample_initialised)))).
   \<exists>c \<in> set (upload_task_chunks (sdb (snd (UploadChunk quiet sample_service ''u1'' 0 sample_md5 ''abcd'' 1 sample_initialised)))).
     t_id r = ''u1'' \<and> c_chunk_index c = 0 \<and> c_size_bytes c = Some 4"
proof -
  let ?run = "UploadChunk quiet sample_service ''u1'' 0 sample_md5 ''abcd'' 1 sample_initialised"
  have "case fst ?run of Inr (Inr r) \<Rightarrow> ur_uploaded r | _ \<Rightarrow> False" by code_simp
  then obtain resp where run: "?run = (Inr (Inr resp), snd ?run)"
    by (auto simp: prod_eq_iff split: sum.splits)
  have "sample_initialised = serve_all (take 1 sample_requests) (start sample_db)"
    by (simp add: sample_requests_def serve_all_def serve_def sample_initialised_def sample_services_def)
  moreover have "\<forall>(E, V, req) \<in> set (take 1 sample_requests). deployed E V"
    by (rule sample_requests_prefix)
  ultimately have "db_inv (sdb sample_initialised)" "cache_inv (sdb sample_initialised)"
    using serve_all_commits [of "take 1 sample_requests" "start sample_db"] sample_start_facts
      inv_and_steps [OF _ closed_cache_inv, of "sdb (start sample_db)" "sdb sample_initialised"]
    by (auto simp: inv_and_def)
  from acknowledged_chunk_is_recorded [OF cluster_quiet this _ _ run, of sample_staging] show ?thesis
    by (auto simp: sample_service_def sample_lifecycle_def writes_faithfully_def sample_staging_def to_int32_def)
qed

section \<open>Quota\<close>

text \<open>
  C11: Uploads respect the quota: creating an upload task (which reserves the file's size),
  cancelling, expiring and completing it keep every user's used and reserved bytes together
  within the quota.
\<close>

theorem uploads_respect_quota:
  assumes "db_inv (sdb s)" and "all_within_quota (sdb s)" and "in_tx T"
    and "create_task_tx command t session T s = (Inr (Inr x), s') \<or> cancel_tx u uid T s = (Inr (Inr y), s') \<or>
      expire_tx u T s = (Inr (Inr y), s') \<or> complete_tx cc v t session a path dec T s = (Inr (Inr f), s')"
  shows "\<forall>r \<in> set (users (sdb s')). u_storage_used r + u_storage_reserved r \<le> u_storage_quota r"
  using assms(4) create_within [OF _ assms(3,2)] cancel_within [OF _ assms(3,2)] expire_within [OF _ assms(3,2)]
    complete_within [OF _ assms(3,1,2)]
  by (auto simp: all_within_quota_def within_quota_def)

theorem uploads_respect_quota_witness:
  "list_all (\<lambda>r. u_storage_used r + u_storage_reserved r \<le> u_storage_quota r) (users (sdb (snd (sample_close 1))))"
proof -
  have "case fst (sample_close 1) of Inr (Inr f) \<Rightarrow> f_name f = ''a.txt'' | _ \<Rightarrow> False"
    by code_simp
  then obtain f where f: "sample_close 1 = (Inr (Inr f), snd (sample_close 1))"
    by (auto simp: prod_eq_iff split: sum.splits)
  have inv: "db_inv (sdb (start (sdb sample_claimed)))"
    using sample_claimed_inv by (simp add: start_def)
  have quota: "all_within_quota (sdb (start (sdb sample_claimed)))"
    by code_simp
  have tx: "complete_tx sample_command 1 sample_task sample_session sample_assembly ''sha'' PromoteAsNewContent
      (transaction_client quiet) (start (sdb sample_claimed)) = (Inr (Inr f), snd (sample_close 1))"
    using f unfolding sample_close_def .
  have "\<forall>r \<in> set (users (sdb (snd (sample_close 1)))). u_storage_used r + u_storage_reserved r \<le> u_storage_quota r"
    by (rule uploads_respect_quota [OF inv quota in_tx_transaction_client [of quiet]]) (intro disjI2, rule tx)
  then show ?thesis by (simp add: list_all_iff)
qed

text \<open>
  An instant upload compares the used bytes alone with the quota.  A user who has reserved
  bytes for a running upload can therefore fill the quota with instant uploads and exceed it
  when the running upload completes, here from a quota of ten bytes to twelve used ones.
\<close>

definition crowded_db :: "unit db" where
  "crowded_db = (empty_db [\<lparr>u_id = 1, u_storage_quota = 10, u_storage_used = 0, u_storage_reserved = 0\<rparr>,
                           \<lparr>u_id = 2, u_storage_quota = 10, u_storage_used = 6, u_storage_reserved = 0\<rparr>] ())
     \<lparr>file_contents := [\<lparr>fc_id = 1, fc_hash_md5 = replicate 32 (CHR ''b''), fc_hash_sha256 = ''sha-b'', fc_size = 6,
                          fc_storage_path = ''p'', fc_mime_type = '''', fc_ref_count = 1\<rparr>],
      seq_contents := 1,
      files := [\<lparr>f_id = 1, f_user_id = 2, f_content_id = 1, f_folder_id = 0, f_name = ''b.txt'', f_extension = ''txt'',
                 f_size = 6, f_mime_type = '''', f_path = ''/b.txt'', f_is_favorite = False, f_download_count = 0, f_created_at = 0\<rparr>],
      seq_files := 1\<rparr>"

definition crowding_requests :: "(unit client \<times> unit services \<times> request) list" where
  "crowding_requests = (hd sample_requests) #
     (quiet, sample_services, ReqInit ''u2'' (upload_body ''b.txt'' 6 (replicate 32 (CHR ''b''))) 1) #
     tl sample_requests"

theorem instant_upload_can_exceed_quota:
  "all_within_quota crowded_db \<and>
   map (\<lambda>r. (u_id r, u_storage_used r, u_storage_quota r)) (users (sdb (serve_all crowding_requests (start crowded_db)))) =
     [(1, 12, 10), (2, 6, 10)]"
  by code_simp

text \<open>
  The size an instant upload is charged with is the one the client announces: it is not
  compared with the size of the content it shares.
\<close>

theorem instant_upload_trusts_announced_size:
  "let d = sdb (serve quiet sample_services
             (ReqInit ''u2'' (upload_body ''c.txt'' 1 (replicate 32 (CHR ''b''))) 1)
             (start crowded_db))
   in map (\<lambda>f. (f_name f, f_size f, f_content_id f)) (files d) = [(''b.txt'', 6, 1), (''c.txt'', 1, 1)] \<and>
      map (\<lambda>c. (fc_id c, fc_size c)) (file_contents d) = [(1, 6)]"
  by code_simp

end
