(* ===== verification/Queue_Results.thy ===== *)
theory Queue_Results
  imports Job_Queue Upload_Commit
begin

text \<open>
  What the operations of the job queue do: which jobs a claim takes and in which order, that a
  live lease protects a job, how a failure is settled, deduplication, and the link between the
  queue and the contents whose collection it holds.
\<close>

section \<open>Claiming\<close>

definition claim_key :: "job_row \<Rightarrow> int \<times> nat" where
  "claim_key r = (case j_locked_until r of Some x \<Rightarrow> x | None \<Rightarrow> j_available_at r, j_id r)"

definition claimable :: "(nat \<Rightarrow> bool) \<Rightarrow> 'w db \<Rightarrow> job_row list" where
  "claimable locked d = filter (\<lambda>r. ready_guard (now d) r \<and> \<not> locked (j_id r)) (storage_jobs d)"

lemma claim_candidates_eq: "claim_candidates locked n d = take n (sort_key claim_key (claimable locked d))"
  unfolding claim_candidates_def claimable_def claim_key_def [abs_def] by simp

lemma claim_candidates_ready: "r \<in> set (claim_candidates locked n d) \<Longrightarrow> r \<in> set (claimable locked d)"
  by (auto simp: claim_candidates_eq dest: in_set_takeD)

lemma claim_candidates_distinct:
  assumes "db_inv d"
  shows "distinct (claim_candidates locked n d)"
  using db_inv_distinct_jobs [OF assms]
  by (simp add: claim_candidates_eq claimable_def distinct_map)

text \<open>The rows a claim returns are the candidates, in the order of the table.\<close>

lemma claimed_rows:
  assumes "db_inv d" and "job_claim_stmt locked inst n dur d = (Inr rows, d')"
  shows "set (map (j_id \<circ> fst) rows) = j_id ` set (claim_candidates locked n d)"
    and "length rows = min n (length (claimable locked d))"
proof -
  let ?cs = "claim_candidates locked n d"
  note dist = db_inv_distinct_jobs [OF assms(1)]
  from assms(2) have rows: "rows = map (\<lambda>r. (job_claim_set (now d) inst dur r, j_status r = JobStatusToStorage Running))
      (filter (\<lambda>r. r \<in> set ?cs) (storage_jobs d))"
    by (simp add: job_claim_stmt_eq [OF dist] Let_def)
  have sub: "set ?cs \<subseteq> set (storage_jobs d)"
    using claim_candidates_ready by (fastforce simp: claimable_def)
  then have set_eq: "set (filter (\<lambda>r. r \<in> set ?cs) (storage_jobs d)) = set ?cs"
    by auto
  show "set (map (j_id \<circ> fst) rows) = j_id ` set ?cs"
    using set_eq by (force simp: rows job_claim_set_def image_image)
  have "length (filter (\<lambda>r. r \<in> set ?cs) (storage_jobs d)) = card (set ?cs)"
    using dist set_eq by (metis distinct_card distinct_filter distinct_map)
  also have "\<dots> = length ?cs"
    using claim_candidates_distinct [OF assms(1)] by (rule distinct_card)
  finally show "length rows = min n (length (claimable locked d))"
    by (simp add: rows claim_candidates_eq min.commute)
qed

text \<open>A job left behind is younger than every job taken.\<close>

lemma take_sorted_smaller:
  assumes "x \<in> set (take n (sort_key f xs))" and "y \<in> set xs" and "y \<notin> set (take n (sort_key f xs))"
  shows "f x \<le> f y"
proof -
  have "y \<in> set (drop n (sort_key f xs))"
    using assms(2,3) by (metis Un_iff append_take_drop_id set_append set_sort)
  then obtain j where "j < length xs - n" "sort_key f xs ! (n + j) = y"
    by (auto simp: in_set_conv_nth)
  then have j: "n + j < length xs" "sort_key f xs ! (n + j) = y"
    by simp_all
  from assms(1) obtain i where i: "i < n" "i < length xs" "sort_key f xs ! i = x"
    by (auto simp: in_set_conv_nth)
  have "sorted (map f (sort_key f xs))" by simp
  then have "map f (sort_key f xs) ! i \<le> map f (sort_key f xs) ! (n + j)"
    using i j by (intro sorted_nth_mono) auto
  with i j show ?thesis by simp
qed

section \<open>Settling a job\<close>

lemma job_unique:
  "db_inv d \<Longrightarrow> r \<in> set (storage_jobs d) \<Longrightarrow> q \<in> set (storage_jobs d) \<Longrightarrow> j_id r = j_id q \<Longrightarrow> r = q"
  using db_inv_distinct_jobs [of d] by (simp add: distinct_map inj_on_def)

lemma job_claim_effect:
  assumes "db_inv d" and "job_claim_stmt locked inst n dur d = (Inr rows, d')" and "(row, takeover) \<in> set rows"
  shows "\<exists>r \<in> set (claimable locked d). row = job_claim_set (now d) inst dur r \<and> row \<in> set (storage_jobs d') \<and>
    (takeover \<longleftrightarrow> j_status r = JobStatusToStorage Running)"
proof -
  from assms(2,3) obtain r where r: "r \<in> set (storage_jobs d)" "r \<in> set (claim_candidates locked n d)"
    "row = job_claim_set (now d) inst dur r" "takeover \<longleftrightarrow> j_status r = JobStatusToStorage Running"
    and d': "storage_jobs d' = update_where (\<lambda>r. r \<in> set (claim_candidates locked n d)) (job_claim_set (now d) inst dur) (storage_jobs d)"
    by (auto simp: job_claim_stmt_eq [OF db_inv_distinct_jobs [OF assms(1)]] Let_def)
  have "row \<in> set (storage_jobs d')"
    using r d' by (auto simp: mem_update_where intro!: bexI [of _ r])
  with r show ?thesis
    by (intro bexI [of _ r]) (simp_all add: claim_candidates_ready)
qed

text \<open>A job under a live lease is not claimable, and only its owner can settle or renew it.\<close>

lemma live_not_ready: "job_ok r \<Longrightarrow> job_lease_live t r \<Longrightarrow> \<not> ready_guard t r"
  by (auto simp: ready_guard_def job_lease_live_def job_lease_expired_def job_ok_def split: option.splits)

lemma MarkFailed_ok:
  assumes "MarkFailed E i inst err retryable delay s = (Inr x, s')"
  shows "case x of
      None \<Rightarrow> (\<forall>r \<in> set (storage_jobs (seen E s)). \<not> job_owned i inst r) \<and> sdb s' = seen E s
    | Some st \<Rightarrow> \<exists>r \<in> set (storage_jobs (seen E s)). job_owned i inst r \<and>
        st = (if retryable \<and> j_attempts r < j_max_attempts r then Retry else DeadLetter) \<and>
        failed_set (now (seen E s)) (take 2048 err) retryable delay r \<in> set (storage_jobs (sdb s'))"
proof -
  let ?d = "seen E s" and ?p = "job_owned i inst" and ?f = "failed_set (now (seen E s)) (take 2048 err) retryable delay"
  from assms obtain s1 statuses where "s1 = s"
    and ex: "exec E (job_fail_stmt i inst (take 2048 err) retryable delay) s1 = (Inr statuses, s')"
    and x: "x = (case statuses of [] \<Rightarrow> None | st # _ \<Rightarrow> ParseStorageJobStatus st)"
    unfolding MarkFailed_def by (elim bindM_okE) (auto dest!: ValidateBoundedValue_ok split: list.splits)
  then have st: "statuses = map (j_status \<circ> ?f) (filter ?p (storage_jobs ?d))"
    and s': "sdb s' = ?d\<lparr>storage_jobs := update_where ?p ?f (storage_jobs ?d)\<rparr>"
    by (auto simp: job_fail_stmt_def Let_def elim!: exec_okE)
  show ?thesis
  proof (cases "filter ?p (storage_jobs ?d)")
    case Nil
    then have "\<forall>r \<in> set (storage_jobs ?d). \<not> ?p r"
      by (simp add: filter_empty_conv)
    moreover have "affected ?p (storage_jobs ?d) = 0"
      using Nil by (simp add: affected_def)
    ultimately show ?thesis
      using Nil st x s' by (simp add: update_where_none)
  next
    case (Cons r rs)
    then have r: "r \<in> set (storage_jobs ?d)" "?p r"
      by (auto dest: filter_eq_ConsD)
    moreover have "?f r \<in> set (storage_jobs (sdb s'))"
      using r s' by (auto simp: mem_update_where intro!: bexI [of _ r])
    moreover have "x = Some (if retryable \<and> j_attempts r < j_max_attempts r then Retry else DeadLetter)"
      using Cons st x by (simp add: failed_set_def Let_def)
    ultimately show ?thesis by auto
  qed
qed

section \<open>Contents waiting for their collection\<close>

definition gc_pending :: "nat \<Rightarrow> 'w db \<Rightarrow> bool" where
  "gc_pending c d \<longleftrightarrow>
     (\<exists>j \<in> set (storage_jobs d). has_dedupe_key (''blob-gc:'' @ decimal c) j \<and> j_status j \<noteq> JobStatusToStorage Succeeded)"

definition job_pending :: "NewStorageJob \<Rightarrow> 'w db \<Rightarrow> bool" where
  "job_pending job d \<longleftrightarrow>
     (\<exists>j \<in> set (storage_jobs d). has_dedupe_key (nj_dedupe_key job) j \<and> j_job_type j = nj_job_type job \<and>
        j_aggregate_id j = nj_aggregate_id job \<and> j_status j \<noteq> JobStatusToStorage Succeeded)"

lemma rearm_keeps_pending:
  assumes "rearm_stmt job d = (Inr b, d')" and "j \<in> set (storage_jobs d)" and "j_status j \<noteq> JobStatusToStorage Succeeded"
  shows "j \<in> set (storage_jobs d')"
  using assms by (auto simp: rearm_stmt_def insert_job_def mem_update_where rearm_guard_def split: if_splits intro!: bexI [of _ j])

lemma rearm_frame: "rearm_stmt job d = (Inr b, d') \<Longrightarrow> file_contents d' = file_contents d"
  by (auto simp: rearm_stmt_def insert_job_def split: if_splits)

lemma rearm_pending:
  assumes "rearm_stmt job d = (Inr True, d')"
  shows "job_pending job d'"
proof (cases "list_ex (has_dedupe_key (nj_dedupe_key job)) (storage_jobs d)")
  case True
  with assms obtain r where "r \<in> set (storage_jobs d)" "rearm_guard job r"
    and "storage_jobs d' = update_where (rearm_guard job) (rearm_set (now d) job) (storage_jobs d)"
    by (auto simp: rearm_stmt_def list_ex_iff split: if_splits)
  then have "rearm_set (now d) job r \<in> set (storage_jobs d')" "has_dedupe_key (nj_dedupe_key job) r"
    by (auto simp: mem_update_where rearm_guard_def intro!: bexI [of _ r])
  then show ?thesis
    unfolding job_pending_def by (intro bexI [of _ "rearm_set (now d) job r"]) (simp_all add: rearm_set_def has_dedupe_key_def)
next
  case False
  with assms show ?thesis
    by (auto simp: rearm_stmt_def job_pending_def insert_job_def fresh_job_def has_dedupe_key_def split: if_splits)
qed

text \<open>
  Enqueueing a job, for a session whose other sessions leave the jobs alone: inside a
  transaction, or in an audit that nobody disturbs.
\<close>

lemma EnqueueOrRearm_pending:
  assumes run: "EnqueueOrRearmSucceeded T job s = (Inr b, s')"
    and calm: "\<And>s. storage_jobs (seen T s) = storage_jobs (sdb s)"
  shows "job_pending job (sdb s') \<and> (\<forall>c. gc_pending c (sdb s) \<longrightarrow> gc_pending c (sdb s'))"
proof -
  from run obtain s1 returned s2 where "s1 = s" and ex: "exec T (rearm_stmt job) s1 = (Inr returned, s2)"
    and k: "(if returned then retM True
       else bindM (exec T (pureS (\<lambda>d. find_row (has_dedupe_key (nj_dedupe_key job)) (storage_jobs d)))) (\<lambda>existing.
         case existing of
           None \<Rightarrow> throwM (RuntimeError ''Storage job conflict disappeared during enqueue'')
         | Some r \<Rightarrow>
             if j_job_type r \<noteq> nj_job_type job \<or> j_aggregate_id r \<noteq> nj_aggregate_id job
             then throwM (RuntimeError ''Storage job dedupe key is owned by another aggregate'')
             else retM False)) s2 = (Inr b, s')"
    unfolding EnqueueOrRearmSucceeded_def by (elim bindM_okE) (auto dest!: ValidateNewJob_ok)
  then have st: "rearm_stmt job (seen T s) = (Inr returned, sdb s2)"
    by (auto elim!: exec_okE)
  have s': "storage_jobs (sdb s') = storage_jobs (sdb s2)"
    using k by (auto elim!: bindM_okE dest!: pure_ok simp: calm split: if_splits option.splits)
  have "job_pending job (sdb s2)"
  proof (cases returned)
    case True
    with st show ?thesis by (simp add: rearm_pending)
  next
    case False
    with k obtain r where r: "find_row (has_dedupe_key (nj_dedupe_key job)) (storage_jobs (sdb s2)) = Some r"
      "j_job_type r = nj_job_type job" "j_aggregate_id r = nj_aggregate_id job"
      by (auto elim!: bindM_okE dest!: pure_ok simp: calm split: if_splits option.splits)
    have "\<not> rearm_guard job q" if "q \<in> set (storage_jobs (sdb s))" for q
      using st False that by (auto simp: rearm_stmt_def list_ex_iff calm split: if_splits)
    moreover from this have "storage_jobs (sdb s2) = storage_jobs (sdb s)"
      using st False by (auto simp: rearm_stmt_def update_where_none affected_zero_iff calm split: if_splits dest!: sym [of _ "sdb s2"])
    ultimately show ?thesis
      using r find_row_Some [OF r(1)] unfolding job_pending_def rearm_guard_def by auto
  qed
  moreover have "gc_pending c (sdb s2)" if "gc_pending c (sdb s)" for c
    using that rearm_keeps_pending [OF st] calm [of s] unfolding gc_pending_def by metis
  ultimately show ?thesis
    using s' by (simp add: job_pending_def gc_pending_def)
qed

lemma EnqueueOrRearm_ok:
  assumes run: "EnqueueOrRearmSucceeded T job s = (Inr b, s')" and tx: "in_tx T"
  shows "job_pending job (sdb s') \<and> file_contents (sdb s') = file_contents (sdb s) \<and>
    (\<forall>c. gc_pending c (sdb s) \<longrightarrow> gc_pending c (sdb s'))"
proof -
  have "file_contents (sdb s') = file_contents (sdb s)"
    using run seen_tx [OF tx] unfolding EnqueueOrRearmSucceeded_def
    by (auto elim!: bindM_okE exec_okE dest!: ValidateNewJob_ok rearm_frame split: if_splits option.splits)
  with EnqueueOrRearm_pending [OF run] seen_tx [OF tx] show ?thesis by simp
qed

lemma BlobGcJob_pending: "job_pending (BlobGcJob c p) d \<Longrightarrow> gc_pending c d"
  unfolding job_pending_def gc_pending_def by (auto simp: BlobGcJob_def)

lemma enqueue_gc_ok:
  assumes "enqueue_gc T rs s = (Inr x, s')" and "in_tx T"
  shows "(\<forall>r \<in> set rs. gc_pending (fc_id r) (sdb s')) \<and> file_contents (sdb s') = file_contents (sdb s) \<and>
    (\<forall>c. gc_pending c (sdb s) \<longrightarrow> gc_pending c (sdb s'))"
  using assms
proof (induction rs arbitrary: s)
  case (Cons r rs)
  from Cons.prems obtain b s1 where first: "EnqueueOrRearmSucceeded T (BlobGcJob (fc_id r) (fc_storage_path r)) s = (Inr b, s1)"
    and rest: "enqueue_gc T rs s1 = (Inr x, s')"
    by (auto elim!: bindM_okE)
  from Cons.IH [OF rest Cons.prems(2)] EnqueueOrRearm_ok [OF first Cons.prems(2)] show ?case
    by (auto dest: BlobGcJob_pending)
qed simp

lemma DecrementRefCounts_ok:
  assumes run: "DecrementRefCountsAndEnqueueGc T decs s = (Inr (Inr n), s')" and tx: "in_tx T"
  shows "file_contents (sdb s') =
      update_where (\<lambda>r. fc_id r \<in> set (CollectContentIds decs)) (drop_ref decs) (file_contents (sdb s)) \<and>
    n = affected (\<lambda>r. fc_ref_count r = 0 \<and> fc_id r \<in> set (CollectContentIds decs)) (file_contents (sdb s')) \<and>
    (\<forall>r \<in> set (file_contents (sdb s')). fc_ref_count r = 0 \<and> fc_id r \<in> set (CollectContentIds decs) \<longrightarrow> gc_pending (fc_id r) (sdb s'))"
proof (cases "CollectContentIds decs = []")
  case True
  with run show ?thesis
    by (simp add: DecrementRefCountsAndEnqueueGc_def Let_def affected_def update_where_none)
next
  case False
  note [simp] = seen_tx [OF tx]
  let ?p = "\<lambda>r. fc_ref_count r = 0 \<and> fc_id r \<in> set (CollectContentIds decs)"
  let ?cs = "update_where (\<lambda>r. fc_id r \<in> set (CollectContentIds decs)) (drop_ref decs) (file_contents (sdb s))"
  let ?body = "bindM (exec T (count_refs (\<lambda>r. fc_id r \<in> set (CollectContentIds decs))
            (\<lambda>r. fc_ref_count r - to_int32 (int (delta_of decs (fc_id r)))) (drop_ref decs))) (\<lambda>_.
         bindM (exec T (pureS (\<lambda>d. filter ?p (file_contents d)))) (\<lambda>zero_ref_contents.
         bindM (enqueue_gc T zero_ref_contents) (\<lambda>_. okR (length zero_ref_contents))))"
  from run False have "?body s = (Inr (Inr n), s')"
    by (auto simp: DecrementRefCountsAndEnqueueGc_def Let_def catchM_def split: prod.splits sum.splits if_splits)
  then obtain k s1 s2 where up: "exec T (count_refs (\<lambda>r. fc_id r \<in> set (CollectContentIds decs))
            (\<lambda>r. fc_ref_count r - to_int32 (int (delta_of decs (fc_id r)))) (drop_ref decs)) s = (Inr k, s1)"
    and s12: "sdb s2 = sdb s1"
    and gc1: "enqueue_gc T (filter ?p (file_contents (sdb s1))) s2 = (Inr (), s')"
    and n1: "n = length (filter ?p (file_contents (sdb s1)))"
    by (auto elim!: bindM_okE dest!: pure_ok)
  from up have s1: "sdb s1 = (sdb s)\<lparr>file_contents := ?cs\<rparr>"
    by (auto simp: count_refs_def elim!: exec_okE split: if_splits)
  have s2: "sdb s2 = (sdb s)\<lparr>file_contents := ?cs\<rparr>" using s12 s1 by simp
  have gc: "enqueue_gc T (filter ?p ?cs) s2 = (Inr (), s')" and n: "n = length (filter ?p ?cs)"
    using gc1 n1 s1 by simp_all
  from enqueue_gc_ok [OF gc tx] have "file_contents (sdb s') = ?cs"
    and "\<forall>r \<in> set (filter ?p ?cs). gc_pending (fc_id r) (sdb s')"
    using s2 by simp_all
  with n show ?thesis
    by (simp add: affected_def)
qed

text \<open>The gate refuses exactly the contents whose collection is pending.\<close>

lemma CheckReferenceGate_pending:
  assumes "CheckReferenceGate E c s = (Inr (Inr x), s')" and "distinct (map j_dedupe_key (storage_jobs (seen E s)))"
  shows "\<not> gc_pending c (seen E s)"
proof
  assume "gc_pending c (seen E s)"
  then obtain j where j: "j \<in> set (storage_jobs (seen E s))" "j_dedupe_key j = ''blob-gc:'' @ decimal c" "j_status j \<noteq> 3"
    by (auto simp: gc_pending_def has_dedupe_key_def)
  let ?f = "find_row (has_dedupe_key (''blob-gc:'' @ decimal c)) (storage_jobs (seen E s))"
  have "?f = Some j"
  proof (cases ?f)
    case None
    with j show ?thesis by (auto simp: find_row_None has_dedupe_key_def)
  next
    case (Some q)
    moreover have "inj_on j_dedupe_key (set (storage_jobs (seen E s)))"
      using assms(2) by (simp add: distinct_map)
    ultimately show ?thesis
      using find_row_Some [OF Some] j(1,2) by (simp add: has_dedupe_key_def inj_on_def)
  qed
  with assms(1) j(3) show False
    unfolding CheckReferenceGate_def CheckBlobGcReferenceGate_def
    by (auto dest!: catchM_okD pure_ok elim!: bindM_okE split: option.splits if_splits simp: ParseStorageJobStatus_def)
qed

lemma db_inv_dedupe: "db_inv d \<Longrightarrow> distinct (map j_dedupe_key (storage_jobs d))"
  by (simp add: db_inv_def jobs_inv_def)

lemma IncrementRefCount_pending:
  assumes "IncrementRefCount T c n s = (Inr (Inr x), s')" and "in_tx T" and "db_inv (sdb s)" and "0 < n"
  shows "\<not> gc_pending c (sdb s)"
proof -
  note [simp] = seen_tx [OF assms(2)]
  from assms(1,4) obtain s1 s2 where "sdb s1 = sdb s" and "CheckReferenceGate T c s1 = (Inr (Inr ()), s2)"
    unfolding IncrementRefCount_def
    by (auto dest!: catchDb_okD elim!: bindM_okE bindR_okE dest!: pure_ok split: if_splits)
  with CheckReferenceGate_pending [of T c s1] db_inv_dedupe [OF assms(3)] show ?thesis by simp
qed

lemma check_gates_ok: "check_gates T cs s = (Inr (Inr x), s') \<Longrightarrow> in_tx T \<Longrightarrow> sdb s' = sdb s"
  by (induction cs arbitrary: s) (auto elim!: bindR_okE dest!: CheckReferenceGate_ok)

lemma check_gates_pending:
  assumes "check_gates T cs s = (Inr (Inr x), s')" and "in_tx T" and "db_inv (sdb s)" and "c \<in> set cs"
  shows "\<not> gc_pending c (sdb s)"
  using assms
proof (induction cs arbitrary: s)
  case (Cons k ks)
  note [simp] = seen_tx [OF Cons.prems(2)]
  from Cons.prems(1) obtain y s1 where gate: "CheckReferenceGate T k s = (Inr (Inr y), s1)"
    and rest: "check_gates T ks s1 = (Inr (Inr x), s')"
    by (auto elim!: bindR_okE)
  have "sdb s1 = sdb s" using CheckReferenceGate_ok [of T k s y s1] gate by simp
  with Cons.IH [OF rest] Cons.prems(2-4) CheckReferenceGate_pending [of T k s y s1] gate db_inv_dedupe show ?case
    by auto
qed simp

lemma IncrementRefCountsChecked_pending:
  assumes "IncrementRefCountsChecked T incs existing s = (Inr (Inr ids), s')" and "in_tx T" and "db_inv (sdb s)" and "c \<in> set ids"
  shows "\<not> gc_pending c (sdb s)"
proof -
  note [simp] = seen_tx [OF assms(2)]
  from assms(1,4) obtain s1 s2 where "sdb s1 = sdb s" and "check_gates T ids s1 = (Inr (Inr ()), s2)"
    unfolding IncrementRefCountsChecked_def Let_def
    by (auto dest!: catchDb_okD elim!: bindM_okE bindR_okE dest!: pure_ok split: if_splits)
  with check_gates_pending [of T ids s1 "()" s2 c] assms(2-4) show ?thesis by simp
qed

lemma AcquireReference_pending:
  assumes run: "AcquireReference T content expected s = (Inr (Inr md), s')" and tx: "in_tx T" and inv: "db_inv (sdb s)"
  shows "\<not> gc_pending (cm_id md) (sdb s)"
proof -
  note [simp] = seen_tx [OF tx]
  let ?ex = "find_row (same_hashes content) (file_contents (sdb s))"
  show ?thesis
  proof (cases ?ex)
    case None
    with run obtain s1 r s2 s3 where s1: "sdb s1 = sdb s" and up: "exec T (upsert_content content) s1 = (Inr (Some r), s2)"
      and gate: "CheckReferenceGate T (cm_id (ToMetadata r)) s2 = (Inr (Inr ()), s3)" and md: "md = ToMetadata r"
      unfolding AcquireReference_def Let_def
      by (auto dest!: catchDb_okD elim!: bindM_okE bindR_okE dest!: pure_ok split: if_splits option.splits)
    have "upsert_content content (sdb s) = (Inr (Some r), sdb s2)"
      using up s1 by (auto elim!: exec_okE)
    with None have "storage_jobs (sdb s2) = storage_jobs (sdb s)"
      by (auto simp: upsert_content_def Let_def dest: arg_cong [of _ _ storage_jobs])
    with CheckReferenceGate_pending [OF gate] db_inv_dedupe [OF inv] md show ?thesis
      by (simp add: gc_pending_def)
  next
    case (Some q)
    with run obtain s1 s2 s3 r where s1: "sdb s1 = sdb s" and gate: "CheckReferenceGate T (fc_id q) s1 = (Inr (Inr ()), s2)"
      and up: "exec T (upsert_content content) s2 = (Inr (Some r), s3)" and md: "md = ToMetadata r"
      unfolding AcquireReference_def Let_def
      by (auto dest!: catchDb_okD elim!: bindM_okE bindR_okE dest!: pure_ok split: if_splits option.splits)
    have "sdb s2 = sdb s"
      using CheckReferenceGate_ok [OF gate] s1 by simp
    with up Some md have "cm_id md = fc_id q"
      by (auto simp: upsert_content_def ToMetadata_def split: if_splits elim!: exec_okE)
    with CheckReferenceGate_pending [OF gate] s1 db_inv_dedupe [OF inv] show ?thesis by simp
  qed
qed

end
