(* ===== verification/Queue_Properties.thy ===== *)
theory Queue_Properties
  imports Queue_Results Sample_State
begin

text \<open>
  The properties of the storage job queue and of the contents it collects, each with a sample
  queue of two jobs on which it applies.
\<close>

section \<open>A sample queue\<close>

definition sample_page :: ExpireUploadsPageRequest where
  "sample_page = \<lparr>eu_scan_id = ''scan-1'', eu_page = 3, eu_limit = 100\<rparr>"

definition page_job :: NewStorageJob where
  "page_job = (case BuildExpireUploadsJob sample_page of Inr nj \<Rightarrow> nj | Inl _ \<Rightarrow> BlobGcJob 0 '''')"

definition gc_job :: NewStorageJob where
  "gc_job = BlobGcJob 7 ''blob-7''"

definition queue_db :: "unit db" where
  "queue_db = snd (enqueue_stmt gc_job (snd (enqueue_stmt page_job sample_db)))"

definition claimed_db :: "unit db" where
  "claimed_db = snd (job_claim_stmt (\<lambda>_. False) ''w1'' 1 60 queue_db)"

lemma queue_db_inv: "db_inv queue_db"
proof -
  have "fst (enqueue_stmt page_job sample_db) = Inr True"
    "fst (enqueue_stmt gc_job (snd (enqueue_stmt page_job sample_db))) = Inr True"
    "0 < nj_max_attempts page_job" "0 < nj_max_attempts gc_job"
    by code_simp+
  then show ?thesis
    unfolding queue_db_def
    by (metis enqueue_stmt_inv sample_db_inv prod.collapse)
qed

lemma claimed_db_inv: "db_inv claimed_db"
  using job_claim_stmt_inv [OF prod.collapse [symmetric] queue_db_inv] by (simp add: claimed_db_def)

section \<open>Claiming and leases\<close>

text \<open>
  C12: A claim takes as many jobs as it may: it returns the limit or all claimable jobs,
  whichever is less.  Every returned job was ready (pending or retrying and due, or running
  under an expired lease, with attempts left) and not locked by another transaction, is now
  running under the claimer's lease with one attempt more, and no claimable job that was left
  behind precedes it in the order of the queue.
\<close>

theorem claims_take_oldest_ready_jobs:
  assumes "db_inv d" and "job_claim_stmt locked inst n dur d = (Inr rows, d')"
  shows "length rows = min n (length (claimable locked d)) \<and>
    (\<forall>(row, takeover) \<in> set rows. \<exists>r \<in> set (storage_jobs d).
       ready_guard (now d) r \<and> \<not> locked (j_id r) \<and> (takeover \<longleftrightarrow> j_status r = JobStatusToStorage Running) \<and>
       row = job_claim_set (now d) inst dur r \<and> row \<in> set (storage_jobs d') \<and>
       (\<forall>q \<in> set (claimable locked d). j_id q \<notin> set (map (j_id \<circ> fst) rows) \<longrightarrow> claim_key r \<le> claim_key q))"
proof (intro conjI ballI)
  show "length rows = min n (length (claimable locked d))"
    by (rule claimed_rows [OF assms])
  fix z
  assume z: "z \<in> set rows"
  obtain row takeover where [simp]: "z = (row, takeover)" by (cases z)
  from job_claim_effect [OF assms, of row takeover] z obtain r where r: "r \<in> set (claimable locked d)"
    "row = job_claim_set (now d) inst dur r" "row \<in> set (storage_jobs d')" "takeover \<longleftrightarrow> j_status r = JobStatusToStorage Running"
    by auto
  have ids: "set (map (j_id \<circ> fst) rows) = j_id ` set (claim_candidates locked n d)"
    by (rule claimed_rows [OF assms])
  have "j_id r \<in> j_id ` set (claim_candidates locked n d)"
    using z r(2) ids by (force simp: job_claim_set_def)
  then have cand: "r \<in> set (claim_candidates locked n d)"
    using claim_by_candidates [OF db_inv_distinct_jobs [OF assms(1)]] r(1) by (auto simp: claimable_def)
  have "claim_key r \<le> claim_key q" if "q \<in> set (claimable locked d)" "j_id q \<notin> set (map (j_id \<circ> fst) rows)" for q
    using that cand ids by (intro take_sorted_smaller [of r n claim_key "claimable locked d" q])
      (auto simp: claim_candidates_eq)
  with r show "case z of (row, takeover) \<Rightarrow> \<exists>r \<in> set (storage_jobs d).
       ready_guard (now d) r \<and> \<not> locked (j_id r) \<and> (takeover \<longleftrightarrow> j_status r = JobStatusToStorage Running) \<and>
       row = job_claim_set (now d) inst dur r \<and> row \<in> set (storage_jobs d') \<and>
       (\<forall>q \<in> set (claimable locked d). j_id q \<notin> set (map (j_id \<circ> fst) rows) \<longrightarrow> claim_key r \<le> claim_key q)"
    by (auto simp: claimable_def)
qed

theorem claims_take_oldest_ready_jobs_witness:
  "\<exists>rows d'. job_claim_stmt (\<lambda>_. False) ''w1'' 1 60 queue_db = (Inr rows, d') \<and> length rows = 1"
proof -
  let ?run = "job_claim_stmt (\<lambda>_. False) ''w1'' 1 60 queue_db"
  have "case fst ?run of Inr rows \<Rightarrow> rows \<noteq> [] | Inl _ \<Rightarrow> False" by code_simp
  then obtain rows where run: "?run = (Inr rows, snd ?run)"
    by (auto simp: prod_eq_iff split: sum.splits)
  have "length (claimable (\<lambda>_. False) queue_db) = 2" by code_simp
  with claims_take_oldest_ready_jobs [OF queue_db_inv run] run show ?thesis by auto
qed

text \<open>
  C13: A live lease protects a job: while it lasts no claim by anyone returns the job, and an
  instance that does not own it can neither renew the lease nor settle the job.
\<close>

theorem live_lease_protects_job:
  assumes "db_inv d" and "r \<in> set (storage_jobs d)" and "job_lease_live (now d) r"
    and "job_claim_stmt locked inst n dur d = (Inr rows, d')" and "j_locked_by r \<noteq> Some thief"
  shows "j_id r \<notin> set (map (j_id \<circ> fst) rows) \<and>
    job_renew_stmt (j_id r) thief dur' d = (Inr False, d) \<and> job_succeed_stmt (j_id r) thief d = (Inr False, d) \<and>
    job_fail_stmt (j_id r) thief err retryable delay d = (Inr [], d)"
proof -
  have "job_ok r"
    using assms(1,2) by (simp add: db_inv_def jobs_inv_def)
  then have "\<not> ready_guard (now d) r"
    using live_not_ready assms(3) by blast
  then have "r \<notin> set (claim_candidates locked n d)"
    using claim_candidates_ready by (fastforce simp: claimable_def)
  then have "j_id r \<notin> set (map (j_id \<circ> fst) rows)"
    using claimed_rows(1) [OF assms(1,4)] claim_by_candidates [OF db_inv_distinct_jobs [OF assms(1)] assms(2)] by blast
  moreover have none: "\<forall>q \<in> set (storage_jobs d). \<not> job_owned (j_id r) thief q"
    using assms(5) job_unique [OF assms(1,2)] by (fastforce simp: job_owned_def)
  then have "affected (job_owned (j_id r) thief) (storage_jobs d) = 0"
    "affected (\<lambda>q. job_owned (j_id r) thief q \<and> job_lease_live (now d) q) (storage_jobs d) = 0"
    "filter (job_owned (j_id r) thief) (storage_jobs d) = []"
    by (auto simp: affected_zero_iff filter_empty_conv)
  ultimately show ?thesis
    by (simp add: job_renew_stmt_def job_succeed_stmt_def job_fail_stmt_def Let_def update_where_none)
qed

theorem live_lease_protects_job_witness:
  "job_succeed_stmt 1 ''w2'' claimed_db = (Inr False, claimed_db)"
proof -
  let ?r = "hd (storage_jobs claimed_db)"
  have r: "?r \<in> set (storage_jobs claimed_db)" "job_lease_live (now claimed_db) ?r" "j_locked_by ?r \<noteq> Some ''w2''" "j_id ?r = 1"
    by code_simp+
  obtain rows d' where "job_claim_stmt (\<lambda>_. False) ''w2'' 1 60 claimed_db = (Inr rows, d')"
    by (simp add: job_claim_stmt_def Let_def)
  from live_lease_protects_job [OF claimed_db_inv r(1,2) this r(3)] r(4) show ?thesis by simp
qed

text \<open>
  C14: A failure is settled by the attempts left: reporting one either finds the job running
  under the reporter's name, and then the job is retried if the error is retryable and
  attempts are left and dead-lettered otherwise, with the lease given up and at most 2048
  bytes of the message kept; or it finds no such job and changes nothing.
\<close>

theorem failed_jobs_retry_until_exhausted:
  assumes "MarkFailed E i inst err retryable delay s = (Inr x, s')"
  shows "case x of
      None \<Rightarrow> (\<forall>r \<in> set (storage_jobs (seen E s)). \<not> job_owned i inst r) \<and> sdb s' = seen E s
    | Some st \<Rightarrow> \<exists>r \<in> set (storage_jobs (seen E s)). \<exists>r' \<in> set (storage_jobs (sdb s')). job_owned i inst r \<and>
        st = (if retryable \<and> j_attempts r < j_max_attempts r then Retry else DeadLetter) \<and>
        j_id r' = i \<and> j_status r' = JobStatusToStorage st \<and> j_locked_by r' = None \<and> j_locked_until r' = None \<and>
        j_attempts r' = j_attempts r \<and> j_last_error r' = Some (take 2048 err)"
proof (cases x)
  case None
  with MarkFailed_ok [OF assms] show ?thesis by simp
next
  case (Some st)
  with MarkFailed_ok [OF assms] obtain r where r: "r \<in> set (storage_jobs (seen E s))" "job_owned i inst r"
    "st = (if retryable \<and> j_attempts r < j_max_attempts r then Retry else DeadLetter)"
    "failed_set (now (seen E s)) (take 2048 err) retryable delay r \<in> set (storage_jobs (sdb s'))" by auto
  let ?r' = "failed_set (now (seen E s)) (take 2048 err) retryable delay r"
  have "j_id ?r' = i \<and> j_status ?r' = JobStatusToStorage st \<and> j_locked_by ?r' = None \<and> j_locked_until ?r' = None \<and>
      j_attempts ?r' = j_attempts r \<and> j_last_error ?r' = Some (take 2048 err)"
    using r(2,3) by (simp add: failed_set_def Let_def job_owned_def)
  with r show ?thesis
    unfolding Some option.case by (intro bexI [of _ r] bexI [of _ ?r']) simp_all
qed

theorem failed_jobs_retry_until_exhausted_witness:
  "\<exists>s'. MarkFailed quiet 1 ''w1'' ''boom'' True 5 (start claimed_db) = (Inr (Some Retry), s') \<and>
     (\<exists>r' \<in> set (storage_jobs (sdb s')). j_id r' = 1 \<and> j_status r' = JobStatusToStorage Retry)"
proof -
  let ?run = "MarkFailed quiet 1 ''w1'' ''boom'' True 5 (start claimed_db)"
  have "fst ?run = Inr (Some Retry)" by code_simp
  then have run: "?run = (Inr (Some Retry), snd ?run)" by (simp add: prod_eq_iff)
  from failed_jobs_retry_until_exhausted [OF run] run show ?thesis by auto
qed

section \<open>Deduplication and contracts\<close>

text \<open>
  C15: Enqueueing deduplicates: afterwards there is exactly one job with the dedupe key, all
  jobs that were there are still there, unchanged, and the answer says whether the job is new.
\<close>

theorem enqueue_deduplicates:
  assumes "Enqueue E job s = (Inr fresh, s')" and "db_inv (seen E s)"
  shows "affected (has_dedupe_key (nj_dedupe_key job)) (storage_jobs (sdb s')) = 1 \<and>
    set (storage_jobs (seen E s)) \<subseteq> set (storage_jobs (sdb s')) \<and>
    (fresh \<longleftrightarrow> affected (has_dedupe_key (nj_dedupe_key job)) (storage_jobs (seen E s)) = 0)"
proof -
  let ?d = "seen E s" and ?p = "has_dedupe_key (nj_dedupe_key job)"
  from assms(1) have st: "enqueue_stmt job ?d = (Inr fresh, sdb s')"
    unfolding Enqueue_def by (elim bindM_okE) (auto dest!: ValidateNewJob_ok elim!: exec_okE)
  have "affected ?p (storage_jobs ?d) \<le> 1"
    using db_inv_dedupe [OF assms(2)] affected_key_le [of j_dedupe_key] by (simp add: has_dedupe_key_def [abs_def])
  show ?thesis
  proof (cases "affected ?p (storage_jobs ?d) = 0")
    case True
    then have "\<not> list_ex ?p (storage_jobs ?d)"
      by (simp add: affected_zero_iff list_ex_iff)
    with st have "fresh" and jobs: "storage_jobs (sdb s') = storage_jobs ?d @ [fresh_job ?d job]"
      by (auto simp: enqueue_stmt_def insert_job_def split: if_splits dest: arg_cong [of _ _ storage_jobs])
    moreover have "?p (fresh_job ?d job)"
      by (simp add: fresh_job_def has_dedupe_key_def)
    ultimately show ?thesis
      using True by (auto simp: affected_def)
  next
    case False
    then have "list_ex ?p (storage_jobs ?d)"
      by (auto simp: affected_zero_iff list_ex_iff)
    with st have "\<not> fresh" "sdb s' = ?d"
      by (auto simp: enqueue_stmt_def split: if_splits)
    with False \<open>affected ?p (storage_jobs ?d) \<le> 1\<close> show ?thesis by simp
  qed
qed

theorem enqueue_deduplicates_witness:
  "\<exists>s'. Enqueue quiet gc_job (start queue_db) = (Inr False, s') \<and>
     affected (has_dedupe_key (nj_dedupe_key gc_job)) (storage_jobs (sdb s')) = 1"
proof -
  let ?run = "Enqueue quiet gc_job (start queue_db)"
  have "fst ?run = Inr False" by code_simp
  then have run: "?run = (Inr False, snd ?run)" by (simp add: prod_eq_iff)
  moreover have "seen quiet (start queue_db) = queue_db"
    by (simp add: seen_def quiet_def start_def)
  ultimately show ?thesis
    using enqueue_deduplicates [OF run] queue_db_inv by auto
qed

text \<open>
  A page of the upload expiry scan survives the queue: if its job was enqueued as a new
  one, a worker that claims the job and parses it gets the page request back.
\<close>

theorem queued_page_round_trip:
  assumes "db_inv d" and "BuildExpireUploadsJob page = Inr nj" and "eu_page page < 2 ^ 64"
    and "enqueue_stmt nj d = (Inr True, d1)" and "job_claim_stmt locked inst n dur d1 = (Inr rows, d2)"
    and "(row, takeover) \<in> set rows" and "j_dedupe_key row = nj_dedupe_key nj"
    and "ToStorageJob row takeover s = (Inr job, s')"
  shows "ParseExpireUploadsJob job = Inr page"
proof -
  have inv: "db_inv d1"
    using enqueue_stmt_inv [OF assms(4) _ assms(1)] assms(2) by (auto simp: BuildExpireUploadsJob_def split: sum.splits)
  have fresh: "fresh_job d nj \<in> set (storage_jobs d1)"
    using assms(4) by (auto simp: enqueue_stmt_def insert_job_def split: if_splits)
  from job_claim_effect [OF inv assms(5,6)] obtain r where r: "r \<in> set (storage_jobs d1)" "row = job_claim_set (now d1) inst dur r"
    by (auto simp: claimable_def)
  have "j_dedupe_key r = j_dedupe_key (fresh_job d nj)"
    using assms(7) r(2) by (simp add: job_claim_set_def fresh_job_def)
  then have "r = fresh_job d nj"
    using db_inv_dedupe [OF inv] r(1) fresh by (simp add: distinct_map inj_on_def)
  then have "carries job nj"
    using assms(8) r(2) by (auto simp: ToStorageJob_def job_claim_set_def fresh_job_def carries_def same_identity_def split: option.splits)
  then show ?thesis
    using expire_uploads.parse_build [OF _ assms(2)] assms(3) by (simp add: eu_wf_def)
qed

theorem queued_page_round_trip_witness:
  "\<exists>job. fst (bindM (exec quiet (job_claim_stmt (\<lambda>_. False) ''w1'' 1 60)) (\<lambda>rows. ToStorageJob (fst (hd rows)) False)
       (start (snd (enqueue_stmt page_job sample_db)))) = Inr job \<and> ParseExpireUploadsJob job = Inr sample_page"
proof -
  let ?d1 = "snd (enqueue_stmt page_job sample_db)"
  let ?claim = "job_claim_stmt (\<lambda>_. False) ''w1'' 1 60 ?d1"
  have build: "BuildExpireUploadsJob sample_page = Inr page_job" by code_simp
  have "fst (enqueue_stmt page_job sample_db) = Inr True" by code_simp
  then have enq: "enqueue_stmt page_job sample_db = (Inr True, ?d1)" by (simp add: prod_eq_iff)
  obtain rows d2 where rows: "?claim = (Inr rows, d2)"
    by (simp add: job_claim_stmt_def Let_def)
  have "case fst ?claim of
      Inr rows \<Rightarrow> rows \<noteq> [] \<and> j_dedupe_key (fst (hd rows)) = nj_dedupe_key page_job \<and> \<not> snd (hd rows) \<and> j_status (fst (hd rows)) = 1
    | Inl _ \<Rightarrow> False"
    by code_simp
  moreover define row where "row = fst (hd rows)"
  ultimately have row: "(row, False) \<in> set rows" "j_dedupe_key row = nj_dedupe_key page_job" "j_status row = 1"
    using rows hd_in_set [of rows] by (auto simp: prod_eq_iff simp del: hd_in_set) (metis prod.collapse)
  have conv: "\<exists>job. ToStorageJob row False s = (Inr job, s)" for s :: "unit session"
    using row(3) by (simp add: ToStorageJob_def)
  have parse: "ParseExpireUploadsJob job = Inr sample_page" if "ToStorageJob row False s = (Inr job, s')" for job and s s' :: "unit session"
    using queued_page_round_trip [OF sample_db_inv build _ enq rows row(1,2) that] by (simp add: sample_page_def)
  have "exec quiet (job_claim_stmt (\<lambda>_. False) ''w1'' 1 60) (start ?d1) = (Inr rows, \<lparr>sdb = d2, pc = 1, aborted = False\<rparr>)"
    using rows by (simp add: exec_def quiet_def start_def Let_def)
  then show ?thesis
    using conv [of "\<lparr>sdb = d2, pc = 1, aborted = False\<rparr>"] parse by (auto simp: bindM_def row_def)
qed

section \<open>Contents and their collection\<close>

text \<open>
  C17: Releasing references never forgets a blob: when the counts of some contents were
  decreased, every one of them that has no reference left has a garbage collection job that is
  not finished, and the answer is the number of these contents.
\<close>

theorem unreferenced_contents_are_queued:
  assumes "DecrementRefCountsAndEnqueueGc T decs s = (Inr (Inr n), s')" and "in_tx T"
  shows "n = length (filter (\<lambda>c. fc_ref_count c = 0 \<and> fc_id c \<in> set (CollectContentIds decs)) (file_contents (sdb s'))) \<and>
    (\<forall>c \<in> set (file_contents (sdb s')). fc_ref_count c = 0 \<and> fc_id c \<in> set (CollectContentIds decs) \<longrightarrow>
      (\<exists>j \<in> set (storage_jobs (sdb s')). j_dedupe_key j = ''blob-gc:'' @ decimal (fc_id c) \<and>
         j_status j \<noteq> JobStatusToStorage Succeeded))"
  using DecrementRefCounts_ok [OF assms] by (simp add: affected_def gc_pending_def has_dedupe_key_def)

definition one_content_db :: "unit db" where
  "one_content_db = sample_db\<lparr>file_contents := [\<lparr>fc_id = 1, fc_hash_md5 = sample_md5, fc_hash_sha256 = ''sha'', fc_size = 6,
      fc_storage_path = ''p'', fc_mime_type = '''', fc_ref_count = 1\<rparr>], seq_contents := 1\<rparr>"

theorem unreferenced_contents_are_queued_witness:
  "\<exists>s'. DecrementRefCountsAndEnqueueGc (transaction_client quiet) [(1, 1)] (start one_content_db) = (Inr (Inr 1), s') \<and>
     1 = length (filter (\<lambda>c. fc_ref_count c = 0 \<and> fc_id c \<in> set (CollectContentIds [(1, 1)])) (file_contents (sdb s')))"
proof -
  let ?run = "DecrementRefCountsAndEnqueueGc (transaction_client quiet) [(1, 1)] (start one_content_db)"
  have "fst ?run = Inr (Inr 1)" by code_simp
  then have run: "?run = (Inr (Inr 1), snd ?run)" by (simp add: prod_eq_iff)
  from unreferenced_contents_are_queued [OF run in_tx_transaction_client] run show ?thesis by blast
qed

text \<open>
  C18: A content that waits for its collection is never referenced again: neither counting up
  its references, singly or among the contents of a copy, nor acquiring it by its hashes
  succeeds while its collection job is unfinished.
\<close>

theorem pending_collection_blocks_references:
  assumes "db_inv (sdb s)" and "in_tx T" and "j \<in> set (storage_jobs (sdb s))"
    and "j_dedupe_key j = ''blob-gc:'' @ decimal c" and "j_status j \<noteq> JobStatusToStorage Succeeded" and "0 < n"
  shows "IncrementRefCount T c n s \<noteq> (Inr (Inr ()), s') \<and>
    (\<forall>ids. IncrementRefCountsChecked T increments existing s = (Inr (Inr ids), s') \<longrightarrow> c \<notin> set ids) \<and>
    (\<forall>md. AcquireReference T content expected s = (Inr (Inr md), s') \<longrightarrow> cm_id md \<noteq> c)"
proof -
  have pending: "gc_pending c (sdb s)"
    unfolding gc_pending_def has_dedupe_key_def using assms(3-5) by blast
  show ?thesis
    using IncrementRefCount_pending [OF _ assms(2,1,6)] IncrementRefCountsChecked_pending [OF _ assms(2,1)]
      AcquireReference_pending [OF _ assms(2,1)] pending by blast
qed

theorem pending_collection_blocks_references_witness:
  "\<forall>s'. IncrementRefCount (transaction_client quiet) 7 1 (start queue_db) \<noteq> (Inr (Inr ()), s') \<and>
     IncrementRefCountsChecked (transaction_client quiet) [(7, 2)] [7] (start queue_db) \<noteq> (Inr (Inr [7]), s')"
proof -
  let ?j = "hd (tl (storage_jobs queue_db))"
  have j: "?j \<in> set (storage_jobs queue_db)" "j_dedupe_key ?j = ''blob-gc:'' @ decimal 7" "j_status ?j \<noteq> JobStatusToStorage Succeeded"
    by code_simp+
  have "sdb (start queue_db) = queue_db" by (simp add: start_def)
  with pending_collection_blocks_references [of "start queue_db" "transaction_client quiet" ?j 7 1 _ "[(7, 2)]" "[7]"] j queue_db_inv
  show ?thesis by fastforce
qed

text \<open>
  C16: Reconciliation pages and their jobs correspond: a job that carries what was built from
  a page request is parsed back to it, and a parser accepts a job only if the builder gives
  the parsed request exactly the job's type, aggregate and dedupe key, for any hash function.
\<close>

theorem reconcile_job_round_trip:
  "(rp_after_id p < 2 ^ 64 \<and> BuildStorageReconcileJob sha256 p = Inr nj \<and> carries job nj \<longrightarrow>
      ParseStorageReconcileJob sha256 job = Inr p) \<and>
   (ParseStorageReconcileJob sha256 job = Inr q \<longrightarrow>
      (\<exists>nj. BuildStorageReconcileJob sha256 q = Inr nj \<and> same_identity job nj))"
  using reconcile.parse_build [of p sha256 nj job] reconcile.build_parse [of sha256 job q]
  unfolding rp_wf_def by blast

definition sample_reconcile_page :: ReconciliationPageRequest where
  "sample_reconcile_page = \<lparr>rp_scan_id = ''s-1'', rp_scope = ScopeFinal, rp_after_id = 0, rp_continuation_token = ''tok'', rp_limit = 1000\<rparr>"

theorem reconcile_job_round_trip_witness:
  "\<exists>nj. BuildStorageReconcileJob rev sample_reconcile_page = Inr nj \<and>
     ParseStorageReconcileJob rev (job_of nj) = Inr sample_reconcile_page"
proof -
  have "case BuildStorageReconcileJob rev sample_reconcile_page of Inr nj \<Rightarrow> True | Inl _ \<Rightarrow> False" by code_simp
  then obtain nj where nj: "BuildStorageReconcileJob rev sample_reconcile_page = Inr nj"
    by (auto split: sum.splits)
  have "rp_after_id sample_reconcile_page < 2 ^ 64" by (simp add: sample_reconcile_page_def)
  with nj reconcile_job_round_trip [of sample_reconcile_page rev nj "job_of nj"] show ?thesis by simp
qed

end
