(* ===== verification/Trash_Properties.thy ===== *)
theory Trash_Properties
  imports Service_Handlers Queue_Results Sample_State
begin

text \<open>
  The properties of the trash: what moving there takes and what it remembers, that files and
  folder snapshots come back as they were, what the permanent deletion releases, and that its
  loops end.
\<close>

section \<open>Snapshots\<close>

definition folder_view :: "folder_row \<Rightarrow> SnapshotFolder" where
  "folder_view r =
     \<lparr>sf_id = d_id r, sf_parent_id = d_parent_id r, sf_name = d_name r, sf_item_count = nat (d_item_count r), sf_depth = d_depth r\<rparr>"

definition file_view :: "file_row \<Rightarrow> SnapshotFile" where
  "file_view f =
     \<lparr>sx_id = f_id f, sx_folder_id = f_folder_id f, sx_content_id = f_content_id f, sx_name = f_name f,
      sx_extension = f_extension f, sx_size = f_size f, sx_mime_type = f_mime_type f,
      sx_is_favorite = f_is_favorite f, sx_download_count = f_download_count f\<rparr>"

text \<open>Rows within the widths of their columns.\<close>

definition folder_fits :: "folder_row \<Rightarrow> bool" where
  "folder_fits r \<longleftrightarrow> 0 < d_id r \<and> d_id r < 2 ^ 64 \<and> d_parent_id r < 2 ^ 64 \<and> d_name r \<noteq> [] \<and>
     0 \<le> d_item_count r \<and> d_item_count r < 2 ^ 32 \<and> d_depth r < 2 ^ 32"

definition file_fits :: "file_row \<Rightarrow> bool" where
  "file_fits f \<longleftrightarrow> storable_file f \<and> f_id f < 2 ^ 64 \<and> f_folder_id f < 2 ^ 64 \<and> f_content_id f < 2 ^ 64 \<and>
     f_size f < 2 ^ 64 \<and> f_download_count f < 2 ^ 32"

lemma int_less_power: "n < 2 ^ w \<Longrightarrow> int n < 2 ^ w"
  by (metis of_nat_less_iff of_nat_numeral of_nat_power)

lemma read_folder_json: "folder_fits r \<Longrightarrow> read_folder (folder_json r) = Inr (folder_view r)"
proof -
  assume fits: "folder_fits r"
  have "int (d_depth r) < 2 ^ 32"
    using fits int_less_power by (simp only: folder_fits_def)
  with fits show ?thesis
    by (simp add: read_folder_def folder_json_def get_unsigned_def get_string_def folder_view_def folder_fits_def)
qed

lemma read_folders_json: "list_all folder_fits rs \<Longrightarrow> read_folders (map folder_json rs) = Inr (map folder_view rs)"
  by (induction rs) (auto simp: read_folder_json, auto simp: folder_fits_def folder_view_def)

lemma read_file_json: "file_fits f \<Longrightarrow> read_file (file_json f) = Inr (file_view f)"
proof -
  assume fits: "file_fits f"
  have "int (f_download_count f) < 2 ^ 32"
    using fits int_less_power by (simp only: file_fits_def)
  with fits show ?thesis
    by (simp add: read_file_def file_json_def get_unsigned_def get_string_def file_view_def file_fits_def)
qed

lemma read_files_json: "list_all file_fits fs \<Longrightarrow> read_files (map file_json fs) = Inr (map file_view fs)"
proof (induction fs)
  case (Cons f fs)
  moreover have "has_member (file_json f) ''content_id'' = Inr True" by (simp add: file_json_def)
  moreover have "kept_file (file_view f)"
    using Cons.prems by (simp add: file_fits_def storable_file_def kept_file_def file_view_def)
  ultimately show ?case by (simp add: read_file_json)
qed simp

text \<open>
  C27: A folder snapshot is read back as it was written: the root, the other folders of the
  plan sorted by identifier, and the files in their order, with every column the restore uses.
\<close>

theorem folder_snapshot_round_trip:
  assumes "folder_fits (pl_root plan)" and "list_all folder_fits (pl_folders plan)" and "list_all file_fits (pl_files plan)"
  shows "ParseFolderTreeSnapshot (Some (BuildFolderSnapshot plan)) =
    Inr (Some \<lparr>sn_root = folder_view (pl_root plan),
               sn_folders = sort_key sf_id (map folder_view (filter (\<lambda>r. d_id r \<noteq> d_id (pl_root plan)) (pl_folders plan))),
               sn_files = map file_view (pl_files plan)\<rparr>)"
proof -
  have "list_all folder_fits (filter (\<lambda>r. d_id r \<noteq> d_id (pl_root plan)) (pl_folders plan))"
    using assms(2) by (auto simp: list_all_iff)
  note folders = read_folders_json [OF this]
  have root: "has_member (folder_json (pl_root plan)) ''id'' = Inr True" "isObject (folder_json (pl_root plan))"
    by (simp_all add: folder_json_def)
  have named: "sf_id (folder_view (pl_root plan)) \<noteq> 0" "sf_name (folder_view (pl_root plan)) \<noteq> []"
    using assms(1) by (simp_all add: folder_fits_def folder_view_def)
  show ?thesis
    unfolding ParseFolderTreeSnapshot_def BuildFolderSnapshot_def
    by (simp add: get_string_def read_tree_def root named read_folder_json [OF assms(1)] folders read_files_json [OF assms(3)])
qed

definition sample_folder :: "nat \<Rightarrow> nat \<Rightarrow> string \<Rightarrow> string \<Rightarrow> nat \<Rightarrow> folder_row" where
  "sample_folder i p n path dep =
     \<lparr>d_id = i, d_user_id = 1, d_parent_id = p, d_name = n, d_path = path, d_depth = dep, d_item_count = 1\<rparr>"

definition sample_file :: "nat \<Rightarrow> nat \<Rightarrow> string \<Rightarrow> string \<Rightarrow> file_row" where
  "sample_file i folder n path =
     \<lparr>f_id = i, f_user_id = 1, f_content_id = 1, f_folder_id = folder, f_name = n, f_extension = ''txt'',
      f_size = 6, f_mime_type = ''text/plain'', f_path = path, f_is_favorite = True, f_download_count = 2, f_created_at = 0\<rparr>"

definition sample_plan :: FolderDeletePlan where
  "sample_plan =
     \<lparr>pl_root = sample_folder 1 0 ''docs'' ''/docs/'' 1,
      pl_folders = [sample_folder 1 0 ''docs'' ''/docs/'' 1, sample_folder 2 1 ''old'' ''/docs/old/'' 2],
      pl_files = [sample_file 1 1 ''a.txt'' ''/docs/a.txt'', sample_file 2 2 ''b.txt'' ''/docs/old/b.txt''], pl_item_size = 12\<rparr>"

theorem folder_snapshot_round_trip_witness:
  "ParseFolderTreeSnapshot (Some (BuildFolderSnapshot sample_plan)) =
    Inr (Some \<lparr>sn_root = folder_view (sample_folder 1 0 ''docs'' ''/docs/'' 1),
               sn_folders = [folder_view (sample_folder 2 1 ''old'' ''/docs/old/'' 2)],
               sn_files = map file_view (pl_files sample_plan)\<rparr>)"
  using folder_snapshot_round_trip [of sample_plan]
  by (simp add: sample_plan_def sample_folder_def sample_file_def folder_fits_def file_fits_def storable_file_def)

section \<open>Moving to the trash\<close>

text \<open>
  C24: Moving to the trash takes only files of the user and leaves nothing unaccounted: the
  new trash rows, as many as are reported, hold exactly the content references and the bytes of
  the files that go, while quotas and reference counts stay as they are.
\<close>

theorem moved_files_are_accounted:
  assumes "move_tx ord (normalize_ids fs) (normalize_ids ds) uid T s = (Inr (Inr res), s')" and "in_tx T" and inv: "db_inv (sdb s)"
  shows "\<exists>rows. trash (sdb s') = trash (sdb s) @ rows \<and> length rows = mr_deleted_count res \<and>
    (\<forall>r \<in> set rows. tr_user_id r = uid \<and> tr_expires_at r = now (sdb s) + trash_retention) \<and>
    mset (concat (map released rows)) =
      mset (map (\<lambda>f. (f_content_id f, f_size f)) (filter (\<lambda>f. f_id f \<in> set (mr_removed_file_ids res)) (files (sdb s)))) \<and>
    set (mr_removed_file_ids res) \<subseteq> f_id ` {f \<in> set (files (sdb s)). f_user_id f = uid} \<and>
    files (sdb s') = filter (\<lambda>f. f_id f \<notin> set (mr_removed_file_ids res)) (files (sdb s)) \<and>
    users (sdb s') = users (sdb s) \<and> file_contents (sdb s') = file_contents (sdb s)"
  using assms
proof (rule move_tx_facts)
  fix xs items rs ss ls
  assume xs: "distinct xs" "set xs \<subseteq> set (files (sdb s))"
    and acc: "accounts_for uid (new_trash_rows (sdb s) uid (seq_trash (sdb s)) items) xs"
    and cnt: "mr_deleted_count res = length items" and ids: "mr_removed_file_ids res = normalize_ids (map f_id xs)"
    and s': "sdb s' = moved_db uid items rs (mr_removed_file_ids res) (mr_removed_folder_ids res) ss ls (sdb s)"
  let ?rows = "new_trash_rows (sdb s) uid (seq_trash (sdb s)) items"
  let ?gone = "filter (\<lambda>f. f_id f \<in> set (mr_removed_file_ids res)) (files (sdb s))"
  have inj: "inj_on f_id (set (files (sdb s)))" and dist: "distinct (files (sdb s))"
    using inv by (auto simp: db_inv_def files_inv_def distinct_map)
  have "set ?gone = set xs"
    using inj xs(2) by (auto simp: ids dest: inj_onD)
  then have "mset ?gone = mset xs"
    using set_eq_iff_mset_eq_distinct [of ?gone xs] dist xs(1) by simp
  then have "mset (map (\<lambda>f. (f_content_id f, f_size f)) ?gone) = mset (moved_refs xs)"
    by (simp only: moved_refs_def mset_map)
  then have refs: "mset (concat (map released ?rows)) = mset (map (\<lambda>f. (f_content_id f, f_size f)) ?gone)"
    using acc unfolding accounts_for_def by (simp only:)
  have len: "length ?rows = length items"
    using arg_cong [OF new_trash_rows_ids [of "sdb s" uid "seq_trash (sdb s)" items], of length] by (simp del: upt_Suc)
  have row: "tr_user_id r = uid \<and> tr_expires_at r = now (sdb s) + trash_retention" if "r \<in> set ?rows" for r
    using new_trash_rows_mem [OF that] by (auto simp: new_trash_row_def)
  have own: "set (mr_removed_file_ids res) \<subseteq> f_id ` {f \<in> set (files (sdb s)). f_user_id f = uid}"
    using acc xs(2) by (auto simp: ids accounts_for_def)
  show ?thesis
    by (rule exI [of _ ?rows]) (use refs len row own cnt in \<open>simp add: s' moved_db_def\<close>)
qed simp_all

text \<open>A deployment with a folder, a subfolder and two files that share a content.\<close>

definition tree_db :: "unit db" where
  "tree_db = (empty_db [sample_user\<lparr>u_storage_used := 12\<rparr>] ())
     \<lparr>file_contents := [\<lparr>fc_id = 1, fc_hash_md5 = sample_md5, fc_hash_sha256 = ''sha'', fc_size = 6,
                          fc_storage_path = ''p'', fc_mime_type = ''text/plain'', fc_ref_count = 2\<rparr>],
      seq_contents := 1, files := pl_files sample_plan, seq_files := 2, folders := pl_folders sample_plan, seq_folders := 2\<rparr>"

definition tx_client :: "unit client" where
  "tx_client = transaction_client quiet"

lemma tree_db_inv: "db_inv tree_db"
  by (simp add: db_inv_def tree_db_def empty_db_def sample_user_def sample_plan_def sample_folder_def sample_file_def
      tasks_inv_def one_active_def accounts_inv_def account_ok_def contents_inv_def content_ok_def files_inv_def
      folders_inv_def trash_inv_def chunks_inv_def jobs_inv_def cleanup_inv_def file_key_def content_key_def
      refs_in_file_def file_bytes_of_def integer_def)

text \<open>The folder goes to the trash with what is below it; the first file goes alone.\<close>

definition tree_moved :: "(exn + MoveToTrashResult Result) \<times> unit session" where
  "tree_moved = move_tx (\<lambda>ks. ks) (normalize_ids []) (normalize_ids [1]) 1 tx_client (start tree_db)"

definition file_moved :: "(exn + MoveToTrashResult Result) \<times> unit session" where
  "file_moved = move_tx (\<lambda>ks. ks) (normalize_ids [1]) (normalize_ids []) 1 tx_client (start tree_db)"

lemma tree_moved_runs:
  "fst tree_moved = Inr (Inr \<lparr>mr_deleted_count = 1, mr_deleted_file_count = 0, mr_deleted_folder_count = 1,
     mr_removed_file_ids = [1, 2], mr_removed_folder_ids = [1, 2]\<rparr>)"
  by code_simp

lemma file_moved_runs:
  "fst file_moved = Inr (Inr \<lparr>mr_deleted_count = 1, mr_deleted_file_count = 1, mr_deleted_folder_count = 0,
     mr_removed_file_ids = [1], mr_removed_folder_ids = []\<rparr>)"
  by code_simp

theorem moved_files_are_accounted_witness:
  "\<exists>rows. trash (sdb (snd tree_moved)) = rows \<and> length rows = 1 \<and>
     mset (concat (map released rows)) = {#(1, 6), (1, 6)#} \<and> users (sdb (snd tree_moved)) = users tree_db"
proof -
  have run: "move_tx (\<lambda>ks. ks) (normalize_ids []) (normalize_ids [1]) 1 tx_client (start tree_db) =
      (Inr (Inr \<lparr>mr_deleted_count = 1, mr_deleted_file_count = 0, mr_deleted_folder_count = 1,
         mr_removed_file_ids = [1, 2], mr_removed_folder_ids = [1, 2]\<rparr>), snd tree_moved)"
    using tree_moved_runs by (simp add: tree_moved_def prod_eq_iff)
  from moved_files_are_accounted [OF run] show ?thesis
    using tree_db_inv by (simp add: tx_client_def start_def)
      (simp add: tree_db_def empty_db_def sample_plan_def sample_file_def)
qed

section \<open>Restoring\<close>

text \<open>
  C25: A file that was moved to the trash comes back, whatever the cluster did in between: if
  restoring the row that the move wrote succeeds, there is a file of the same user with the
  content, the size and the MIME type of the original, under the original name or its numbered
  variant, in the original folder if the user still owns that, and in the root otherwise.
\<close>

theorem trashed_file_comes_back:
  assumes "move_tx ord (normalize_ids fs) (normalize_ids ds) uid T s = (Inr (Inr m), s1)" and "in_tx T" and inv: "db_inv (sdb s)"
    and r: "r \<in> set (trash (sdb s1))" "r \<notin> set (trash (sdb s))" "tr_item_type r = ''file''"
    and f: "f \<in> set (files (sdb s))" "f_id f = tr_item_id r"
    and between: "commits\<^sup>*\<^sup>* (sdb s1) (sdb s2)"
    and undo: "restore_file_tx (tr_id r) uid k T' s2 = (Inr (Inr (file_id, path)), s3)" and "in_tx T'"
  shows "\<exists>g \<in> set (files (sdb s3)). f_id g = file_id \<and> f_path g = path \<and> f_user_id g = f_user_id f \<and>
    f_content_id g = f_content_id f \<and> f_size g = f_size f \<and> f_mime_type g = f_mime_type f \<and>
    f_name g = candidate_filename (f_name f) k \<and>
    (f_folder_id g = 0 \<or> f_folder_id g = f_folder_id f) \<and>
    ((\<exists>p \<in> set (folders (sdb s2)). owned_folder (f_folder_id f) uid p) \<longrightarrow> f_folder_id g = f_folder_id f)"
proof -
  have inv1: "db_inv (sdb s1)"
    using assms(1-3) by (rule move_tx_inv) simp_all
  have inv2: "db_inv (sdb s2)"
    using between inv1 by (rule commits_inv_steps)
  have row: "\<exists>i. r = new_trash_row (sdb s) uid i (file_item f) \<and> f_user_id f = uid"
    using assms(1-3)
  proof (rule move_tx_facts)
    fix xs items rs ss ls
    assume xs: "set xs \<subseteq> set (files (sdb s))" and acc: "accounts_for uid (new_trash_rows (sdb s) uid (seq_trash (sdb s)) items) xs"
      and files: "\<forall>item \<in> set items. ti_item_type item = ''file'' \<longrightarrow> (\<exists>f \<in> set xs. item = file_item f)"
      and s1: "sdb s1 = moved_db uid items rs (mr_removed_file_ids m) (mr_removed_folder_ids m) ss ls (sdb s)"
    from r s1 have "r \<in> set (new_trash_rows (sdb s) uid (seq_trash (sdb s)) items)" by (auto simp: moved_db_def)
    then obtain i item where item: "item \<in> set items" "r = new_trash_row (sdb s) uid i item"
      using new_trash_rows_mem by blast
    with r(3) files obtain f' where f': "f' \<in> set xs" "item = file_item f'"
      by (auto simp: new_trash_row_def)
    moreover have "f' = f"
      using f f' item xs inv
      by (auto simp: new_trash_row_def file_item_def db_inv_def files_inv_def distinct_map dest: inj_onD)
    ultimately show ?thesis
      using item acc by (auto simp: accounts_for_def)
  qed simp_all
  then obtain i where r_def: "r = new_trash_row (sdb s) uid i (file_item f)" and own: "f_user_id f = uid" by blast
  have "inv_and (holds_trash [r]) (sdb s1)"
    using holds_trash_read [OF inv1, of "[r]"] r(1) inv1 by (simp add: inv_and_def)
  then have held: "holds_trash [r] (sdb s2)"
    using inv_and_steps [OF between closed_holds_trash] by (simp add: inv_and_def)
  have keys: "distinct (map tr_id (trash (sdb s2)))" using inv2 by (simp add: db_inv_def trash_inv_def)
  have content: "0 < f_content_id f" using inv f(1) by (fastforce simp: db_inv_def contents_inv_def)
  show ?thesis
  proof (rule restore_file_tx_ok [OF undo \<open>in_tx T'\<close> keys])
    fix item c src mime target ds g and loc :: FolderLocation
    assume item: "item \<in> set (trash (sdb s2))" "owned_trash (tr_id r) uid item"
      and c: "ResolveRequiredContentId (tr_content_id item) (tr_item_data item) = Inr (c, src)"
      and mime: "restored_mime (tr_item_data item) = Inr mime"
      and stays: "(\<exists>p \<in> set (folders (sdb s2)). owned_folder (tr_original_folder_id item) uid p) \<longrightarrow> target = tr_original_folder_id item"
      and tgt: "target = 0 \<and> loc_path loc = ''/'' \<or> target = tr_original_folder_id item \<and>
         (\<exists>r \<in> set (folders (sdb s2)). owned_folder target uid r \<and> loc_path loc = d_path r)"
      and g: "g = restored_file item c target (candidate_filename (tr_item_name item) k)
          (loc_path loc @ candidate_filename (tr_item_name item) k) mime (sdb s2)"
      and out: "file_id = f_id g" "path = f_path g"
      and s3: "sdb s3 = (sdb s2)\<lparr>files := files (sdb s2) @ [g], seq_files := Suc (seq_files (sdb s2)), folders := ds,
                      trash := filter (\<lambda>r. tr_id r \<noteq> tr_id item) (trash (sdb s2))\<rparr>"
    have "item = r"
      using held item by (auto simp: holds_trash_def owned_trash_def)
    then have "c = f_content_id f" "mime = f_mime_type f"
      using c mime content
      by (auto simp: r_def new_trash_row_def file_item_def ResolveRequiredContentId_def restored_mime_def get_string_def)
    with \<open>item = r\<close> g out s3 tgt stays own show ?thesis
      by (intro bexI [of _ g]) (auto simp: restored_file_def r_def new_trash_row_def file_item_def)
  qed
qed

definition file_restored :: "(exn + (nat \<times> string) Result) \<times> unit session" where
  "file_restored = restore_file_tx 1 1 0 tx_client (snd file_moved)"

theorem trashed_file_comes_back_witness:
  "\<exists>g \<in> set (files (sdb (snd file_restored))). f_id g = 3 \<and> f_path g = ''/docs/a.txt'' \<and> f_content_id g = 1 \<and> f_size g = 6 \<and>
     f_mime_type g = ''text/plain'' \<and> f_name g = candidate_filename ''a.txt'' 0 \<and> (f_folder_id g = 0 \<or> f_folder_id g = 1)"
proof -
  let ?f = "sample_file 1 1 ''a.txt'' ''/docs/a.txt''" and ?r = "hd (trash (sdb (snd file_moved)))"
  have move: "move_tx (\<lambda>ks. ks) (normalize_ids [1]) (normalize_ids []) 1 tx_client (start tree_db) =
      (Inr (Inr \<lparr>mr_deleted_count = 1, mr_deleted_file_count = 1, mr_deleted_folder_count = 0,
         mr_removed_file_ids = [1], mr_removed_folder_ids = []\<rparr>), snd file_moved)"
    using file_moved_runs by (simp add: file_moved_def prod_eq_iff)
  have r: "map (\<lambda>r. (tr_id r, tr_item_type r, tr_item_id r)) (trash (sdb (snd file_moved))) = [(1, ''file'', 1)]" by code_simp
  then have "?r \<in> set (trash (sdb (snd file_moved)))" "tr_id ?r = 1" "tr_item_type ?r = ''file''" "tr_item_id ?r = 1"
    by auto
  moreover have "fst file_restored = Inr (Inr (3, ''/docs/a.txt''))" by code_simp
  then have "restore_file_tx (tr_id ?r) 1 0 tx_client (snd file_moved) = (Inr (Inr (3, ''/docs/a.txt'')), snd file_restored)"
    using \<open>tr_id ?r = 1\<close> by (simp add: file_restored_def prod_eq_iff)
  ultimately show ?thesis
    using trashed_file_comes_back [OF move, of ?r ?f "snd file_moved" 0 tx_client 3 "''/docs/a.txt''" "snd file_restored"] tree_db_inv
    by (auto simp: tx_client_def start_def tree_db_def empty_db_def sample_plan_def sample_file_def)
qed

section \<open>Permanent deletion\<close>

lemma purgeable_code [code]:
  "purgeable r \<longleftrightarrow> tr_item_type r \<noteq> ''file'' \<or> \<not> isl (ResolveRequiredContentId (tr_content_id r) (tr_item_data r))"
  by (cases "ResolveRequiredContentId (tr_content_id r) (tr_item_data r)") (simp_all add: purgeable_def)

lemma freed_planned: "pp_freed (fold (\<lambda>r. plan_item r (map fst (released r))) kept p) = pp_freed p + sum_list (map tr_item_size kept)"
  by (induction kept arbitrary: p) (simp_all add: plan_item_def)

text \<open>The jobs a purge leaves behind are those of its reference counting.\<close>

lemma purge_tx_collects:
  assumes run: "purge_tx ord items rv T s = (Inr (True, v), s')" and tx: "in_tx T" and ord: "hash_order_ok ord"
    and c: "c \<in> set (file_contents (sdb s'))" "fc_ref_count c = 0" "0 < total (refs_in_trash (fc_id c)) (filter purgeable items)"
  shows "gc_pending (fc_id c) (sdb s')"
proof -
  note [simp] = seen_tx [OF tx]
  let ?p = "plan_of (filter purgeable items)"
  let ?ks = "ord (map fst (pp_user_delta ?p))"
  have plan: "plan_purge rv items empty_plan = Inr q \<Longrightarrow> q = ?p" for q
    using plan_purge_kept [of rv items empty_plan q] by (simp add: plan_of_def)
  have delta: "delta_of (pp_decrements ?p) (fc_id c) \<noteq> 0"
    using c(3) plan_of_facts(2) [of "filter purgeable items" "fc_id c"] by simp
  then have ne: "pp_decrements ?p \<noteq> []" by (auto simp: delta_of_def)
  from run ne obtain y s1 n s2 where
    dec: "or_throw (DecrementRefCountsAndEnqueueGc T (pp_decrements ?p)) s = (Inr y, s1)"
    and del: "exec T (purge_trash_stmt (pp_trash_ids ?p)) s1 = (Inr n, s2)"
    and rel: "release_space T (pp_user_delta ?p) ?ks s2 = (Inr (), s')"
    unfolding purge_tx_def by (auto simp: retM_def dest!: plan elim!: bindM_okE split: if_splits)
  from del have "sdb s2 = (sdb s1)\<lparr>trash := filter (\<lambda>r. tr_id r \<notin> set (pp_trash_ids ?p)) (trash (sdb s1))\<rparr>"
    by (auto simp: purge_trash_stmt_def elim!: exec_okE)
  then have s2: "storage_jobs (sdb s2) = storage_jobs (sdb s1)" "file_contents (sdb s2) = file_contents (sdb s1)"
    by auto
  have s': "storage_jobs (sdb s') = storage_jobs (sdb s2)" "file_contents (sdb s') = file_contents (sdb s2)"
    using release_space_ok [OF rel tx] hash_order_facts [OF ord plan_of_facts(5)] by (simp_all add: plan_of_facts total_nonneg)
  note d = DecrementRefCounts_ok [OF or_throw_okD [OF dec] tx]
  have "fc_id c \<in> set (CollectContentIds (pp_decrements ?p))"
    using delta CollectContentIds_mem [OF plan_of_facts(4)] by simp
  with d c s' s2 have "gc_pending (fc_id c) (sdb s1)" by simp
  with s' s2 show ?thesis by (simp add: gc_pending_def)
qed

text \<open>
  C26: A permanent deletion that commits removes exactly the rows it could read, lowers each
  owner's used bytes and each content's reference count by what these rows held, reports the
  bytes that were freed, and leaves a pending collection job for every content whose last
  reference it released.
\<close>

theorem purge_releases_what_rows_held:
  assumes run: "purge_tx ord items rv T s = (Inr (True, v), s')" and tx: "in_tx T" and inv: "db_inv (sdb s)"
    and held: "holds_trash items (sdb s)" and ord: "hash_order_ok ord"
  shows "let kept = filter purgeable items in
    set kept \<subseteq> set (trash (sdb s)) \<and> pd_deleted_count v = length kept \<and> pd_freed_space v = sum_list (map tr_item_size kept) \<and>
    trash (sdb s') = filter (\<lambda>r. tr_id r \<notin> tr_id ` set kept) (trash (sdb s)) \<and>
    map (\<lambda>u. (u_id u, u_storage_used u)) (users (sdb s')) =
      map (\<lambda>u. (u_id u, u_storage_used u - total (trash_bytes_of (u_id u)) kept)) (users (sdb s)) \<and>
    map (\<lambda>c. (fc_id c, fc_ref_count c)) (file_contents (sdb s')) =
      map (\<lambda>c. (fc_id c, fc_ref_count c - total (refs_in_trash (fc_id c)) kept)) (file_contents (sdb s)) \<and>
    (\<forall>c \<in> set (file_contents (sdb s')). fc_ref_count c = 0 \<and> 0 < total (refs_in_trash (fc_id c)) kept \<longrightarrow> gc_pending (fc_id c) (sdb s'))"
proof -
  let ?kept = "filter purgeable items" and ?d = "sdb s"
  let ?p = "plan_of ?kept" and ?ks = "ord (map fst (pp_user_delta (plan_of ?kept)))"
  let ?trs = "filter (\<lambda>r. tr_id r \<notin> tr_id ` set ?kept) (trash ?d)"
  have keys: "distinct (map tr_id (trash ?d))" using inv by (simp add: db_inv_def trash_inv_def)
  note ok = purge_tx_ok [OF run tx keys held ord]
  have sub: "set ?kept \<subseteq> set (trash ?d)" and dist: "distinct (map tr_id ?kept)" using ok by auto
  have v: "pd_deleted_count v = length ?kept" "pd_freed_space v = sum_list (map tr_item_size ?kept)"
    using ok freed_planned [of ?kept empty_plan] by (simp_all add: plan_of_def empty_plan_def)
  have s': "trash (sdb s') = ?trs" "users (sdb s') = map (freed_user (pp_user_delta ?p) ?ks) (users ?d)"
    "file_contents (sdb s') = dropped (pp_decrements ?p) (file_contents ?d)" "files (sdb s') = files ?d"
    using ok unfolding jobs_grown_def purged_def by (elim conjE exE, simp)+
  have inv': "db_inv (sdb s')" by (rule purge_tx_inv [OF run tx inv held ord])
  note taken = total_taken [OF keys sub distinct_of_keys [OF dist]]
  have "u_storage_used (freed_user (pp_user_delta ?p) ?ks u) = u_storage_used u - total (trash_bytes_of (u_id u)) ?kept"
    if "u \<in> set (users ?d)" for u
    using that inv inv' taken [of "trash_bytes_of (u_id u)"] s'
    by (auto simp: db_inv_def accounts_inv_def account_ok_def)
  then have users: "map (\<lambda>u. (u_id u, u_storage_used u)) (users (sdb s')) =
      map (\<lambda>u. (u_id u, u_storage_used u - total (trash_bytes_of (u_id u)) ?kept)) (users ?d)"
    by (simp add: s')
  let ?g = "\<lambda>c. if fc_id c \<in> set (CollectContentIds (pp_decrements ?p)) then drop_ref (pp_decrements ?p) c else c"
  have "fc_ref_count (?g c) = fc_ref_count c - total (refs_in_trash (fc_id c)) ?kept" if "c \<in> set (file_contents ?d)" for c
  proof -
    have "?g c \<in> set (file_contents (sdb s'))"
      using that by (auto simp: s' dropped_def mem_update_where)
    then have "content_ok (files ?d) ?trs (?g c)"
      using inv' s' by (simp add: db_inv_def contents_inv_def)
    moreover have "content_ok (files ?d) (trash ?d) c" "fc_id (?g c) = fc_id c"
      using inv that by (simp_all add: db_inv_def contents_inv_def drop_ref_def)
    ultimately show ?thesis
      using taken [of "refs_in_trash (fc_id c)"] by (simp add: content_ok_def)
  qed
  then have "map (\<lambda>c. (fc_id c, fc_ref_count c)) (file_contents (sdb s')) =
      map (\<lambda>c. (fc_id c, fc_ref_count c - total (refs_in_trash (fc_id c)) ?kept)) (file_contents ?d)"
    by (auto simp: s' dropped_def update_where_def drop_ref_def)
  then show ?thesis
    using sub v s'(1) users purge_tx_collects [OF run tx ord] by (simp add: Let_def)
qed

definition tree_purged :: "(exn + (bool \<times> PermanentDeleteResult)) \<times> unit session" where
  "tree_purged = purge_tx (\<lambda>ks. ks) (trash (sdb (snd tree_moved))) False tx_client (snd tree_moved)"

theorem purge_releases_what_rows_held_witness:
  "let d = sdb (snd tree_purged) in
   map (\<lambda>u. (u_id u, u_storage_used u)) (users d) = [(1, 0)] \<and>
   map (\<lambda>c. (fc_id c, fc_ref_count c)) (file_contents d) = [(1, 0)] \<and> gc_pending 1 d"
proof -
  have "fst tree_purged = Inr (True, \<lparr>pd_deleted_count = 1, pd_freed_space = 12\<rparr>)" by code_simp
  then have run: "purge_tx (\<lambda>ks. ks) (trash (sdb (snd tree_moved))) False tx_client (snd tree_moved) =
      (Inr (True, \<lparr>pd_deleted_count = 1, pd_freed_space = 12\<rparr>), snd tree_purged)"
    by (simp add: tree_purged_def prod_eq_iff)
  have move: "move_tx (\<lambda>ks. ks) (normalize_ids []) (normalize_ids [1]) 1 tx_client (start tree_db) =
      (Inr (Inr \<lparr>mr_deleted_count = 1, mr_deleted_file_count = 0, mr_deleted_folder_count = 1,
         mr_removed_file_ids = [1, 2], mr_removed_folder_ids = [1, 2]\<rparr>), snd tree_moved)"
    using tree_moved_runs by (simp add: tree_moved_def prod_eq_iff)
  have tx: "in_tx tx_client" by (simp add: tx_client_def)
  have inv: "db_inv (sdb (snd tree_moved))"
    by (rule move_tx_inv [OF move tx]) (simp_all add: start_def tree_db_inv)
  have ord: "hash_order_ok (\<lambda>ks. ks)" by (simp add: hash_order_ok_def)
  note ok = purge_releases_what_rows_held [OF run tx inv holds_trash_read [OF inv order_refl] ord, unfolded Let_def]
  have "map (\<lambda>u. (u_id u, u_storage_used u - total (trash_bytes_of (u_id u)) (filter purgeable (trash (sdb (snd tree_moved))))))
          (users (sdb (snd tree_moved))) = [(1, 0)]"
    "map (\<lambda>c. (fc_id c, fc_ref_count c - total (refs_in_trash (fc_id c)) (filter purgeable (trash (sdb (snd tree_moved))))))
          (file_contents (sdb (snd tree_moved))) = [(1, 0)]"
    "0 < total (refs_in_trash 1) (filter purgeable (trash (sdb (snd tree_moved))))"
    by code_simp+
  with ok show ?thesis by (auto simp: Let_def map_eq_Cons_conv)
qed

section \<open>Expiry\<close>

lemma cleanup_chunks_ok:
  "cleanup_chunks E S cs n s = (Inr (Inr k), s') \<Longrightarrow> k = n + length (concat cs)"
proof (induction cs arbitrary: n s)
  case (Cons c cs)
  then show ?case by (force elim!: bindM_okE split: if_splits)
qed simp

lemma page_ok:
  assumes "CleanupExpiredTrashPage E S a n s = (Inr (Inr page), s')"
  shows "ep_deleted page = ep_candidates page \<and> ep_candidates page \<le> n \<and>
    (ep_has_more page \<longleftrightarrow> ep_candidates page = n) \<and> (ep_has_more page \<longrightarrow> a < ep_next_after_id page)"
proof -
  from assms obtain items s1 where n: "n \<noteq> 0"
    and items: "FetchExpiredLifecycleBatchAfterId E a n s = (Inr items, s1)"
    and rest: "(if items = []
          then okR \<lparr>ep_candidates = 0, ep_deleted = 0, ep_next_after_id = a, ep_has_more = (length items = n)\<rparr>
          else bindR (cleanup_chunks E S (batches DEFAULT_BATCH_CHUNK_SIZE items) 0) (\<lambda>deleted.
            okR \<lparr>ep_candidates = length items, ep_deleted = deleted, ep_next_after_id = tr_id (last items),
                 ep_has_more = (length items = n)\<rparr>)) s1 = (Inr (Inr page), s')"
    unfolding CleanupExpiredTrashPage_def
    by (auto dest!: catchM_okD elim!: bindM_okE split: if_splits)
  have len: "length items \<le> n" and after: "\<forall>r \<in> set items. a < tr_id r"
    using items unfolding FetchExpiredLifecycleBatchAfterId_def by (auto dest!: pure_ok in_set_takeD)
  show ?thesis
  proof (cases "items = []")
    case True
    with rest n show ?thesis by auto
  next
    case False
    with rest obtain k where "cleanup_chunks E S (batches DEFAULT_BATCH_CHUNK_SIZE items) 0 s1 = (Inr (Inr k), s')"
      and page: "page = \<lparr>ep_candidates = length items, ep_deleted = k, ep_next_after_id = tr_id (last items),
                 ep_has_more = (length items = n)\<rparr>"
      by (auto elim!: bindR_okE)
    then have "k = length items"
      using cleanup_chunks_ok by (metis add_0 batches_cover)
    with page len after False show ?thesis by simp
  qed
qed

definition stalled :: ErrorInfo where
  "stalled = ErrorInfo2 ValidationFailed ''Expired trash cleanup cursor did not advance''"

lemma cleanup_chunks_errors: "cleanup_chunks E S cs n s = (Inr (Inl e), s') \<Longrightarrow> e \<noteq> stalled"
proof (induction cs arbitrary: n s)
  case (Cons c cs)
  then show ?case by (auto simp: stalled_def ErrorInfo2_def elim!: bindM_okE split: if_splits)
qed simp

lemma chunks_not_stalled: "cleanup_chunks E S cs n s \<noteq> (Inr (Inl stalled), s')"
  using cleanup_chunks_errors by blast

lemma page_errors: "CleanupExpiredTrashPage E S a n s = (Inr (Inl e), s') \<Longrightarrow> e \<noteq> stalled"
  unfolding CleanupExpiredTrashPage_def
  by (auto elim!: bindM_okE simp: catchM_def bindR_def stalled_def ErrorInfo2_def
      chunks_not_stalled [unfolded stalled_def ErrorInfo2_def] split: if_splits prod.splits sum.splits)

lemma cleanup_batches_bounded:
  "cleanup_batches b E S m a k s = (Inr (Inr k'), s') \<Longrightarrow> k' \<le> k + m * b"
proof (induction b arbitrary: a k s)
  case (Suc b)
  from Suc.prems obtain page s1 where page: "CleanupExpiredTrashPage E S a m s = (Inr (Inr page), s1)"
    and rest: "(if \<not> ep_has_more page then okR (k + ep_deleted page)
       else if ep_next_after_id page \<le> a
       then failR (ErrorInfo2 ValidationFailed ''Expired trash cleanup cursor did not advance'')
       else cleanup_batches b E S m (ep_next_after_id page) (k + ep_deleted page)) s1 = (Inr (Inr k'), s')"
    by (auto elim!: bindR_okE)
  have "ep_deleted page \<le> m" using page_ok [OF page] by auto
  with rest Suc.IH [of "ep_next_after_id page" "k + ep_deleted page" s1] show ?case
    by (fastforce split: if_splits)
qed simp

lemma cleanup_batches_advance: "cleanup_batches b E S m a k s = (Inr (Inl e), s') \<Longrightarrow> e \<noteq> stalled"
proof (induction b arbitrary: a k s)
  case (Suc b)
  show ?case
  proof (cases "CleanupExpiredTrashPage E S a m s")
    case (Pair r s1)
    with Suc page_ok [of E S a m s _ s1] page_errors [of E S a m s e s1] show ?thesis
      by (auto simp: bindR_def bindM_def split: sum.splits if_splits)
  qed
qed simp

text \<open>
  A run over the expired trash always advances: the check for a cursor that stands still
  never fires, whatever faults strike and whatever other sessions insert, and at most the
  product of page size and page limit rows are deleted.
\<close>

theorem expiry_run_advances:
  "fst (CleanupExpiredTrashItems E S m b s) \<noteq>
     Inr (Inl (ErrorInfo2 ValidationFailed ''Expired trash cleanup cursor did not advance'')) \<and>
   (\<forall>k s'. CleanupExpiredTrashItems E S m b s = (Inr (Inr k), s') \<longrightarrow> int k \<le> m * b)"
proof (cases "m \<le> 0 \<or> b \<le> 0")
  case True
  then show ?thesis by (auto simp: CleanupExpiredTrashItems_def ErrorInfo2_def failR_def retM_def)
next
  case False
  then have run: "CleanupExpiredTrashItems E S m b s = cleanup_batches (nat b) E S (nat m) 0 0 s"
    by (simp add: CleanupExpiredTrashItems_def)
  obtain r s1 where r: "cleanup_batches (nat b) E S (nat m) 0 0 s = (r, s1)" by fastforce
  have "r \<noteq> Inr (Inl stalled)" using cleanup_batches_advance r by blast
  moreover have "int k \<le> m * b" if "r = Inr (Inr k)" for k
  proof -
    have "k \<le> nat m * nat b" using cleanup_batches_bounded [of "nat b" E S "nat m" 0 0 s k s1] r that by simp
    then have "int k \<le> int (nat m * nat b)" by (simp only: of_nat_le_iff)
    with False show ?thesis by simp
  qed
  ultimately show ?thesis using run r by (simp add: stalled_def)
qed

text \<open>The trashed folder expires after the retention time.\<close>

definition tree_expired :: "unit session" where
  "tree_expired = start ((sdb (snd tree_moved))\<lparr>now := 10000000\<rparr>)"

theorem expiry_run_advances_witness:
  "\<exists>k s'. CleanupExpiredTrashItems quiet sample_trash 100 20 tree_expired = (Inr (Inr k), s') \<and> int k \<le> 100 * 20 \<and> trash (sdb s') = []"
proof -
  let ?run = "CleanupExpiredTrashItems quiet sample_trash 100 20 tree_expired"
  have "fst ?run = Inr (Inr 1)" "trash (sdb (snd ?run)) = []" by code_simp+
  with expiry_run_advances [of quiet sample_trash 100 20 tree_expired] show ?thesis
    by (intro exI [of _ 1] exI [of _ "snd ?run"]) (simp add: prod_eq_iff)
qed

section \<open>Rounds\<close>

text \<open>Programs that fail with database errors only.\<close>

definition db_only :: "('w, 'a) M \<Rightarrow> bool" where
  "db_only m \<longleftrightarrow> (\<forall>s e s'. m s = (Inl e, s') \<longrightarrow> e = DbException)"

lemma db_only_simps [simp]: "db_only (retM v)" "db_only (okR w)" "db_only (failR err)"
  by (simp_all add: db_only_def retM_def okR_def failR_def)

lemma db_only_bindM: "db_only m \<Longrightarrow> (\<And>x. db_only (k x)) \<Longrightarrow> db_only (bindM m k)"
  unfolding db_only_def by (auto simp: bindM_def split: prod.splits sum.splits)

lemma db_only_exec: "(\<And>d e d'. q d = (Inl e, d') \<Longrightarrow> e = DbException) \<Longrightarrow> db_only (exec E q)"
  unfolding db_only_def by (auto simp: exec_def Let_def split: prod.splits sum.splits if_splits)

lemma db_only_each_chunk: "(\<And>c. db_only (f c)) \<Longrightarrow> db_only (each_chunk f cs)"
  by (induction cs) (auto intro!: db_only_bindM)

lemma db_only_plans: "db_only (FetchBatchFolderDeletePlans ord T ids uid)"
  unfolding FetchBatchFolderDeletePlans_def FetchFilesInFolders_def Let_def
  by (auto intro!: db_only_bindM db_only_exec simp: fetch_tree_stmt_def split: option.splits)

lemma db_only_locked: "db_only (FetchOwnedFoldersByIdsForUpdate T ids uid)"
  unfolding FetchOwnedFoldersByIdsForUpdate_def by (auto intro!: db_only_each_chunk db_only_exec)

lemma db_only_restore_pass: "db_only (restore_pass T uid rd fd xs m)"
proof (induction xs arbitrary: m)
  case (Cons x xs)
  have "db_only (exec T (insert_folder_stmt r))" for r
    by (rule db_only_exec) (auto simp: insert_folder_stmt_def Let_def split: if_splits)
  with Cons show ?case
    by (auto intro!: db_only_bindM simp: Let_def split: option.splits)
qed simp

lemma db_only_restore_rounds: "length xs \<le> n \<Longrightarrow> db_only (restore_rounds n T uid rd fd xs m)"
proof (induction n arbitrary: xs m)
  case (Suc n)
  show ?case
    unfolding db_only_def
  proof (intro allI impI)
    fix s e s'
    assume run: "restore_rounds (Suc n) T uid rd fd xs m s = (Inl e, s')"
    show "e = DbException"
    proof (cases "xs = []")
      case False
      obtain r s1 where r: "restore_pass T uid rd fd xs m s = (r, s1)" by fastforce
      with run False consider "r = Inl e" | m' rest where "r = Inr (m', rest)" "length rest \<noteq> length xs"
          "restore_rounds n T uid rd fd rest m' s1 = (Inl e, s')"
        by (cases r) (auto simp: bindM_def failR_def retM_def simp del: restore_rounds.simps
            simp: restore_rounds.simps [of "Suc n"] split: if_splits)
      then show ?thesis
      proof cases
        case 1
        with r db_only_restore_pass show ?thesis unfolding db_only_def by blast
      next
        case 2
        have "length rest < length xs" using restore_pass_shrinks r 2(1,2) by fastforce
        with Suc have "db_only (restore_rounds n T uid rd fd rest m')" by simp
        with 2(3) show ?thesis unfolding db_only_def by blast
      qed
    qed (use run in \<open>simp add: okR_def retM_def\<close>)
  qed
qed (simp add: db_only_def okR_def retM_def)

lemma lock_folders_ends:
  assumes tx: "in_tx T"
  shows "db_only (lock_folders 2 ord T ids uid [])"
  unfolding db_only_def
proof (intro allI impI)
  fix s e s'
  assume run: "lock_folders 2 ord T ids uid [] s = (Inl e, s')"
  let ?F = "FetchBatchFolderDeletePlans ord T ids uid"
  have F: "e' = DbException" if "?F t = (Inl e', t')" for t e' t'
    using db_only_plans that unfolding db_only_def by blast
  obtain r s1 where r: "?F s = (r, s1)" by fastforce
  show "e = DbException"
  proof (cases r)
    case (Inl x)
    with r run F [of s] show ?thesis by (auto simp: numeral_2_eq_2 bindM_def)
  next
    case (Inr ps)
    let ?l = "discovered_folder_ids (FilterCoveredFolderIds ids ps) ps"
    note ok = fetch_plans_ok [OF r [unfolded Inr] tx]
    obtain x s2 where x: "FetchOwnedFoldersByIdsForUpdate T ?l uid s1 = (x, s2)" by fastforce
    show ?thesis
    proof (cases x)
      case (Inl y)
      with x have "y = DbException" using db_only_locked unfolding db_only_def by blast
      with run r Inr x Inl show ?thesis
        by (auto simp: numeral_2_eq_2 bindM_def Let_def retM_def split: if_splits)
    next
      case (Inr rows)
      from x [unfolded Inr] tx have s2: "sdb s2 = sdb s1"
        unfolding FetchOwnedFoldersByIdsForUpdate_def by (auto dest!: each_chunk_reads)
      have "lock_folders (Suc 0) ord T ids uid ?l s2 = (Inl e', t) \<Longrightarrow> e' = DbException" for e' t
      proof -
        assume last: "lock_folders (Suc 0) ord T ids uid ?l s2 = (Inl e', t)"
        have "qs = ps" if "?F s2 = (Inr qs, t')" for qs t'
          using fetch_plans_ok [OF that tx] ok s2 by simp
        with last F [of s2] show ?thesis
          by (cases "?F s2") (auto simp: bindM_def Let_def retM_def split: sum.splits if_splits)
      qed
      with run r \<open>r = Inr ps\<close> x Inr show ?thesis
        by (auto simp: numeral_2_eq_2 bindM_def Let_def retM_def simp del: lock_folders.simps(2)
            simp: lock_folders.simps(2) [of "Suc 0"] split: if_splits)
    qed
  qed
qed

text \<open>
  The loops of the trash end.  Two rounds lock all folders of a deletion and as many
  rounds as there are folders restore a tree: more rounds change nothing, and the only
  exceptions are those of the database, so the bound on the rounds is never reached.
\<close>

theorem trash_loops_end:
  assumes "in_tx T"
  shows "(\<forall>e. fst (lock_folders 2 ord T ids uid [] s) = Inl e \<longrightarrow> e = DbException) \<and>
    lock_folders (n + 2) ord T ids uid [] s = lock_folders 2 ord T ids uid [] s \<and>
    (\<forall>e. fst (restore_rounds (length xs) T uid rd fd xs m s) = Inl e \<longrightarrow> e = DbException) \<and>
    restore_rounds (length xs + n) T uid rd fd xs m s = restore_rounds (length xs) T uid rd fd xs m s"
  using lock_folders_ends [OF assms, of ord ids uid] lock_folders_enough [OF assms, of n ord ids uid s]
    db_only_restore_rounds [of xs "length xs" T uid rd fd m] restore_rounds_enough [of xs "length xs" n T uid rd fd m]
  unfolding db_only_def by (metis order_refl prod.collapse)

theorem trash_loops_end_witness:
  "lock_folders 7 (\<lambda>ks. ks) tx_client [1] 1 [] (start tree_db) = lock_folders 2 (\<lambda>ks. ks) tx_client [1] 1 [] (start tree_db)"
  using trash_loops_end [of tx_client "\<lambda>ks. ks" "[1]" 1 "start tree_db" 5] by (simp add: tx_client_def)

section \<open>Observations\<close>

text \<open>
  Deleting a folder together with one of its subfolders can leave files behind.  A file is
  assigned to the plan of the first requested folder, in the iteration order of a hash map, that
  covers it; if that is the subfolder, which is itself covered, the file is neither locked nor
  trashed, but its folder is deleted.  Here the second file stays, in a folder that is gone.
\<close>

definition descending :: "'w trash_service \<Rightarrow> 'w trash_service" where
  "descending S = S\<lparr>ts_hash_order := (\<lambda>ks. rev (sort ks))\<rparr>"

theorem covered_subfolder_orphans_file:
  "hash_order_ok (ts_hash_order (descending sample_trash)) \<and>
   (let d = sdb (snd (MoveToTrash quiet (descending sample_trash) [] [1, 2] 1 (start tree_db))) in
    map (\<lambda>f. (f_id f, f_folder_id f)) (files d) = [(2, 2)] \<and> folders d = [])"
proof
  show "hash_order_ok (ts_hash_order (descending sample_trash))"
    by (simp add: hash_order_ok_def descending_def)
  show "let d = sdb (snd (MoveToTrash quiet (descending sample_trash) [] [1, 2] 1 (start tree_db))) in
    map (\<lambda>f. (f_id f, f_folder_id f)) (files d) = [(2, 2)] \<and> folders d = []"
    by code_simp
qed

text \<open>
  The extension a restore stores is empty when a parenthesis after a space precedes the last
  dot, while an upload of the same name stores the text after the dot; and the numbered variant
  of such a name is built behind the extension.
\<close>

theorem restored_extension_can_be_lost:
  "ExtractExtension ''photo (1).jpg'' = [] \<and> ExtractFileExtension ''photo (1).jpg'' = ''jpg'' \<and>
   candidate_filename ''photo (1).jpg'' 1 = ''photo (1).jpg (1)''"
  by code_simp

end
