(* ===== verification/Worker_Results.thy ===== *)
theory Worker_Results
  imports Worker_Handlers Queue_Results
begin

text \<open>
  What the results of the worker and of the audits mean: the retry delay as bounded exponential
  backoff, the outcome of a job and its row, and the audits in terms of the invariant.
\<close>

section \<open>The retry delay\<close>

lemma unat_min: "unat (min a b :: 'l::len word) = min (unat a) (unat b)"
  by (simp add: min_def word_le_nat_alt)

lemma unat_doubled:
  assumes "unat delay < 2 ^ 32" and "unat cap < 2 ^ 32" and "unat delay \<le> unat cap"
  shows "unat (doubled n cap delay) = min (unat delay * 2 ^ n) (unat cap)"
  using assms(1,3)
proof (induction n arbitrary: delay)
  case (Suc n)
  have two: "unat (delay * 2) = unat delay * 2"
    using Suc.prems(1) by (subst unat_mult_lem [THEN iffD1]) simp_all
  show ?case
  proof (cases "delay < cap")
    case True
    have "unat (doubled n cap (min (delay * 2) cap)) = min (unat (min (delay * 2) cap) * 2 ^ n) (unat cap)"
      using assms(2) by (intro Suc.IH) (simp_all add: unat_min)
    also have "\<dots> = min (unat delay * 2 ^ Suc n) (unat cap)"
    proof (cases "unat delay * 2 \<le> unat cap")
      case False
      have "unat cap \<le> unat cap * 2 ^ n" by simp
      moreover have "unat cap * 2 ^ n \<le> unat delay * 2 * 2 ^ n"
        using False by (intro mult_right_mono) simp_all
      moreover have "unat (min (delay * 2) cap) = unat cap"
        using False by (simp add: unat_min two)
      ultimately show ?thesis by (simp only: power_Suc mult.assoc min_absorb2 order_trans)
    qed (simp add: unat_min two mult.assoc)
    finally show ?thesis using True by simp
  next
    case False
    then have "unat delay = unat cap"
      using Suc.prems(2) by (simp add: word_less_nat_alt)
    moreover have "unat cap \<le> unat cap * 2 ^ Suc n" by simp
    ultimately show ?thesis using False by (simp add: min_absorb2)
  qed
qed simp

lemma unat_ucast_up [simp]: "unat (ucast (w :: 32 word) :: 64 word) = unat w"
  by transfer (simp add: take_bit_nat_eq_self_iff)

definition backoff :: "nat \<Rightarrow> nat \<Rightarrow> nat \<Rightarrow> nat" where
  "backoff attempts base cap = min (base * 2 ^ min (attempts - 1) 31) cap"

lemma ComputeRetryDelay_bounds:
  assumes "ComputeRetryDelaySeconds job_id attempts base cap = Inr delay"
  shows "let b = backoff (unat attempts) (unat base) (unat cap) in b \<le> unat delay \<and> unat delay \<le> min (b + b div 4) (unat cap)"
proof -
  let ?ex = "min (if attempts > 0 then attempts - 1 else 0) 31 :: 32 word"
  define d where "d = doubled (unat ?ex) (ucast cap) (ucast base)"
  define j where "j = min (d div 4) (ucast cap - d)"
  define x where "x = (if j > 0 then MixRetrySeed (job_id XOR push_bit 32 (ucast attempts)) mod (j + 1) else 0)"
  have base: "base \<noteq> 0" "unat base \<le> unat cap"
    using assms by (auto simp: ComputeRetryDelaySeconds_def word_le_nat_alt not_less split: if_splits)
  have "ComputeRetryDelaySeconds job_id attempts base cap = Inr (ucast (d + x))"
    using base unfolding ComputeRetryDelaySeconds_def Let_def d_def [symmetric] j_def [symmetric] x_def
    by (simp add: word_less_nat_alt not_less)
  with assms have delay: "delay = ucast (d + x)" by simp
  have "unat (attempts - 1) = unat attempts - 1" if "attempts > 0"
    using that by (simp add: unat_minus_one word_gt_0)
  then have "unat ?ex = min (unat attempts - 1) 31"
    by (auto simp: unat_min word_gt_0)
  moreover have small: "unat base < 2 ^ 32" "unat cap < 2 ^ 32"
    using unsigned_less [where ?'a = nat, of base] unsigned_less [where ?'a = nat, of cap] by simp_all
  ultimately have d: "unat d = backoff (unat attempts) (unat base) (unat cap)"
    using base(2) unat_doubled [of "ucast base" "ucast cap" "unat ?ex"] by (simp add: d_def backoff_def)
  then have cap: "unat d \<le> unat cap" by (simp add: backoff_def)
  then have "unat (ucast cap - d) = unat cap - unat d"
    by (subst unat_sub) (simp_all add: word_le_nat_alt)
  then have j: "unat j = min (unat d div 4) (unat cap - unat d)"
    by (simp add: j_def unat_min unat_div)
  have "unat x \<le> unat j"
  proof (cases "j > 0")
    case True
    have "unat (j + 1) = unat j + 1"
      using j small cap by (subst unat_add_lem [THEN iffD1]) simp_all
    with True show ?thesis
      using mod_less_divisor [of "unat j + 1"] by (simp add: x_def unat_mod less_Suc_eq_le)
  qed (simp add: x_def)
  with j cap have le: "unat d + unat x \<le> unat cap" "unat x \<le> unat d div 4" by linarith+
  then have "unat (d + x) = unat d + unat x"
    using small by (subst unat_add_lem [THEN iffD1]) simp_all
  moreover from this have "unat delay = unat (d + x)"
    using le small by (simp add: delay unsigned_ucast_eq take_bit_nat_eq_self)
  ultimately show ?thesis
    using le by (simp add: d [symmetric] Let_def)
qed

lemma ComputeRetryDelay_defined:
  "base \<noteq> 0 \<Longrightarrow> base \<le> cap \<Longrightarrow> \<exists>delay. ComputeRetryDelaySeconds job_id attempts base cap = Inr delay"
  by (auto simp: ComputeRetryDelaySeconds_def Let_def)

section \<open>The audit of the quota columns\<close>

text \<open>The sums of the audit are the sums of the invariant.\<close>

lemma total_filter: "int (sum_list (map g (filter p xs))) = total (\<lambda>x. if p x then int (g x) else 0) xs"
  by (induction xs) simp_all

lemma audited_sums:
  "int (ua_active_file_bytes (audited_user d u)) = total (file_bytes_of (u_id u)) (files d)"
  "int (ua_trash_item_bytes (audited_user d u)) = total (trash_bytes_of (u_id u)) (trash d)"
  "int (ua_active_upload_reserved_bytes (audited_user d u)) = total (reserved_by (u_id u)) (upload_tasks d)"
  by (simp_all add: audited_user_def total_filter file_bytes_of_def [abs_def] trash_bytes_of_def [abs_def]
      reserved_by_def [abs_def] active_status_def)

lemma audited_user_in_order:
  assumes "db_inv d" and "u \<in> set (users d)"
  shows "u_storage_used u = int (ua_active_file_bytes (audited_user d u)) + int (ua_trash_item_bytes (audited_user d u))"
    and "u_storage_reserved u = int (ua_active_upload_reserved_bytes (audited_user d u))"
  using assms by (simp_all add: db_inv_def accounts_inv_def account_ok_def audited_sums)

lemma as_uint64_nat [simp]: "int n < 2 ^ 64 \<Longrightarrow> as_uint64 (int n) = Inr n"
  by (simp add: as_uint64_def)

text \<open>A connection without faults.\<close>

lemma ResolveFinding_runs:
  assumes "\<And>n. \<not> fault E n" and "\<not> in_tx E"
  shows "\<exists>s'. ResolveFinding E ty res s = (Inr (), s')"
  using assms by (simp add: ResolveFinding_def exec_def updateS_def Let_def)

lemma audit_user_clean:
  assumes E: "\<And>n. \<not> fault E n" "\<not> in_tx E"
    and row: "u_storage_used (ua_user row) = int (ua_active_file_bytes row) + int (ua_trash_item_bytes row)"
      "u_storage_reserved (ua_user row) = int (ua_active_upload_reserved_bytes row)"
    and small: "u_storage_used (ua_user row) < 2 ^ 64" "u_storage_reserved (ua_user row) < 2 ^ 64"
  shows "\<exists>s'. audit_user E scan row page s = (Inr (page\<lparr>pr_next_after_id := u_id (ua_user row)\<rparr>), s')"
proof -
  let ?f = "ua_active_file_bytes row" and ?t = "ua_trash_item_bytes row" and ?r = "ua_active_upload_reserved_bytes row"
  let ?id = "decimal (u_id (ua_user row))"
  have b: "int ?f < 2 ^ 64" "int ?t < 2 ^ 64" "int (?f + ?t) < 2 ^ 64" "int ?r < 2 ^ 64"
    using row small by linarith+
  have used: "u_storage_used (ua_user row) = int (?f + ?t)"
    using row by simp
  have add: "AddWithoutOverflow ?f ?t = Inr (?f + ?t)"
    using b(3) unfolding AddWithoutOverflow_def by simp
  obtain s1 where s1: "ResolveFinding E kQuotaUsedMismatch ?id s = (Inr (), s1)"
    using ResolveFinding_runs [OF E] by blast
  obtain s2 where s2: "ResolveFinding E kQuotaReservedMismatch ?id s1 = (Inr (), s2)"
    using ResolveFinding_runs [OF E] by blast
  show ?thesis
    unfolding audit_user_def Let_def used row(2) as_uint64_nat [OF b(1)] as_uint64_nat [OF b(2)]
      as_uint64_nat [OF b(3)] as_uint64_nat [OF b(4)]
    by (simp add: lift_exn_def bindM_def retM_def add s1 s2)
qed

lemma audit_users_clean:
  assumes E: "\<And>n. \<not> fault E n" "\<not> in_tx E"
    and inv: "db_inv d" and small: "\<forall>u \<in> set (users d). u_storage_used u < 2 ^ 64 \<and> u_storage_reserved u < 2 ^ 64"
  shows "set us \<subseteq> set (users d) \<Longrightarrow>
    \<exists>s'. audit_users E scan (map (audited_user d) us) page s =
      (Inr (page\<lparr>pr_next_after_id := (if us = [] then pr_next_after_id page else u_id (last us))\<rparr>), s')"
proof (induction us arbitrary: page s)
  case (Cons u us)
  have u: "ua_user (audited_user d u) = u" by (simp add: audited_user_def)
  have mem: "u \<in> set (users d)" using Cons.prems by simp
  with small have "u_storage_used u < 2 ^ 64" "u_storage_reserved u < 2 ^ 64" by blast+
  then obtain s1 where s1: "audit_user E scan (audited_user d u) page s = (Inr (page\<lparr>pr_next_after_id := u_id u\<rparr>), s1)"
    using audit_user_clean [OF E, of "audited_user d u" scan page s] audited_user_in_order [OF inv mem] unfolding u by blast
  from Cons.IH [of "page\<lparr>pr_next_after_id := u_id u\<rparr>" s1] Cons.prems s1 show ?case
    by (auto simp: bindM_def)
qed (simp add: retM_def)

definition users_after :: "nat \<Rightarrow> nat \<Rightarrow> 'w db \<Rightarrow> user_row list" where
  "users_after after_id limit d =
     take limit (sort_key u_id (filter (\<lambda>u. int (u_id u) > to_int64 (int after_id)) (users d)))"

lemma users_after_mem: "u \<in> set (users_after a n d) \<Longrightarrow> u \<in> set (users d) \<and> to_int64 (int a) < int (u_id u)"
  unfolding users_after_def by (drule in_set_takeD) auto

lemma RunUserPage_clean:
  assumes E: "\<And>n. \<not> fault E n" "\<not> in_tx E" and inv: "db_inv (seen E s)"
    and small: "\<forall>u \<in> set (users (seen E s)). u_storage_used u < 2 ^ 64 \<and> u_storage_reserved u < 2 ^ 64"
  shows "\<exists>page s'. RunUserPage E request s = (Inr (Inr page), s') \<and> pr_findings_recorded page = 0 \<and>
    pr_inspected page = length (users_after (rp_after_id request) (rp_limit request) (seen E s)) \<and>
    (pr_has_more page \<longleftrightarrow> pr_inspected page = rp_limit request) \<and>
    (pr_inspected page > 0 \<longrightarrow>
       pr_next_after_id page = u_id (last (users_after (rp_after_id request) (rp_limit request) (seen E s))))"
proof -
  let ?d = "seen E s" and ?us = "users_after (rp_after_id request) (rp_limit request) (seen E s)"
  obtain s1 where s1: "exec E (pureS (user_page (rp_after_id request) (rp_limit request))) s = (Inr (map (audited_user ?d) ?us), s1)"
    using E by (simp add: exec_def pureS_def seen_def user_page_def users_after_def Let_def)
  have "set ?us \<subseteq> set (users ?d)" using users_after_mem by blast
  from audit_users_clean [OF E inv small this, of "rp_scan_id request" "fresh_page (length ?us)" s1]
  obtain s2 where "audit_users E (rp_scan_id request) (map (audited_user ?d) ?us) (fresh_page (length ?us)) s1 =
      (Inr ((fresh_page (length ?us))\<lparr>pr_next_after_id := (if ?us = [] then 0 else u_id (last ?us))\<rparr>), s2)"
    by (auto simp: fresh_page_def)
  with s1 show ?thesis
    by (simp add: RunUserPage_def bindM_def okR_def retM_def) (auto simp: fresh_page_def)
qed

section \<open>The audit of contents\<close>

lemma total_add: "total (\<lambda>x. f x + g x) xs = total f xs + total g xs"
  by (induction xs) simp_all

lemma total_cong: "(\<And>x. x \<in> set xs \<Longrightarrow> f x = g x) \<Longrightarrow> total f xs = total g xs"
  by (induction xs) simp_all

lemma count_filter: "int (length (filter p xs)) = total (\<lambda>x. if p x then 1 else 0) xs"
  by (induction xs) simp_all

lemma total_zero_iff:
  assumes "\<And>x. x \<in> set xs \<Longrightarrow> 0 \<le> f x"
  shows "total f xs = 0 \<longleftrightarrow> (\<forall>x \<in> set xs. f x = 0)"
proof
  assume "total f xs = 0"
  with assms total_ge_member [of _ xs f] show "\<forall>x \<in> set xs. f x = 0" by fastforce
qed (simp add: total_zero)

text \<open>The references from snapshots of trashed folders are what the audit leaves out.\<close>

definition folder_refs :: "nat \<Rightarrow> trash_row \<Rightarrow> int" where
  "folder_refs c r = (if tr_item_type r = ''folder'' then refs_in_trash c r else 0)"

lemma trash_refs_split:
  assumes "trash_ok r" and "tr_item_type r = ''file'' \<Longrightarrow> \<exists>k > 0. tr_content_id r = Some k"
  shows "refs_in_trash c r = (if tr_content_id r = Some c \<and> tr_item_type r = ''file'' then 1 else 0) + folder_refs c r"
proof (cases "tr_item_type r = ''file''")
  case True
  with assms(2) obtain k where "k > 0" "tr_content_id r = Some k" by blast
  with True show ?thesis
    by (simp add: refs_in_trash_def folder_refs_def released_def ResolveRequiredContentId_def Let_def)
next
  case False
  with assms(1) show ?thesis by (simp add: trash_ok_def folder_refs_def)
qed

lemma ref_count_split:
  assumes inv: "db_inv d" and c: "c \<in> set (file_contents d)"
    and cols: "\<forall>r \<in> set (trash d). tr_item_type r = ''file'' \<longrightarrow> (\<exists>k > 0. tr_content_id r = Some k)"
  shows "fc_ref_count c = int (actual_ref_count d (fc_id c)) + total (folder_refs (fc_id c)) (trash d)"
proof -
  have "content_ok (files d) (trash d) c"
    using inv c by (simp add: db_inv_def contents_inv_def)
  moreover have "total (refs_in_trash (fc_id c)) (trash d) =
      total (\<lambda>r. (if tr_content_id r = Some (fc_id c) \<and> tr_item_type r = ''file'' then 1 else 0) + folder_refs (fc_id c) r) (trash d)"
    using inv cols by (intro total_cong trash_refs_split) (auto simp: db_inv_def trash_inv_def)
  ultimately show ?thesis
    by (simp add: content_ok_def actual_ref_count_def count_filter total_add refs_in_file_def [abs_def])
qed

lemma folder_refs_zero: "total (folder_refs c) trs = 0 \<longleftrightarrow>
    (\<forall>r \<in> set trs. tr_item_type r = ''folder'' \<longrightarrow> c \<notin> fst ` set (released r))"
proof -
  have "0 \<le> folder_refs c r" for r by (simp add: folder_refs_def refs_in_trash_def)
  then have "total (folder_refs c) trs = 0 \<longleftrightarrow> (\<forall>r \<in> set trs. folder_refs c r = 0)"
    by (rule total_zero_iff)
  then show ?thesis by (auto simp: folder_refs_def refs_in_trash_def count_list_0_iff)
qed

lemma ref_count_zero:
  assumes inv: "db_inv d" and c: "c \<in> set (file_contents d)"
  shows "fc_ref_count c = 0 \<longleftrightarrow>
    (\<forall>f \<in> set (files d). f_content_id f \<noteq> fc_id c) \<and> (\<forall>t \<in> set (trash d). fc_id c \<notin> fst ` set (released t))"
proof -
  have ok: "content_ok (files d) (trash d) c"
    using inv c by (simp add: db_inv_def contents_inv_def)
  have "total (refs_in_file (fc_id c)) (files d) = 0" if "\<forall>f \<in> set (files d). f_content_id f \<noteq> fc_id c"
    using that by (intro total_zero) (simp add: refs_in_file_def)
  moreover have "total (refs_in_trash (fc_id c)) (trash d) = 0" if "\<forall>t \<in> set (trash d). fc_id c \<notin> fst ` set (released t)"
    using that by (intro total_zero) (simp add: refs_in_trash_def count_list_0_iff)
  ultimately have "fc_ref_count c = 0" if "\<forall>f \<in> set (files d). f_content_id f \<noteq> fc_id c"
      "\<forall>t \<in> set (trash d). fc_id c \<notin> fst ` set (released t)"
    using that ok by (simp add: content_ok_def)
  moreover have "f_content_id f \<noteq> fc_id c" if "fc_ref_count c = 0" "f \<in> set (files d)" for f
    using referenced_count(1) [OF ok that(2)] that(1) by auto
  moreover have "fc_id c \<notin> fst ` set (released t)" if "fc_ref_count c = 0" "t \<in> set (trash d)" for t
    using referenced_count(2) [OF ok that(2)] that(1) by (metis imageE less_irrefl)
  ultimately show ?thesis by blast
qed

lemma content_page_mem:
  "(c, n) \<in> set (content_page a l d) \<Longrightarrow> c \<in> set (file_contents d) \<and> n = actual_ref_count d (fc_id c)"
  unfolding content_page_def by (auto dest!: in_set_takeD)

section \<open>Outcomes\<close>

text \<open>Only the collection of a blob records its outcome itself.\<close>

definition unpersisted :: "('w, JobExecutionResult) M \<Rightarrow> bool" where
  "unpersisted m \<longleftrightarrow> (\<forall>s r s'. m s = (Inr r, s') \<longrightarrow> \<not> jr_outcome_persisted r)"

lemma unpersisted_results [simp]:
  "\<not> jr_outcome_persisted ExecutionSucceeded" "\<not> jr_outcome_persisted (ExecutionFailed b e)"
  "\<not> jr_outcome_persisted (PermanentFailure e)" "\<not> jr_outcome_persisted (RetryableFailure e)"
  by (simp_all add: ExecutionSucceeded_def ExecutionFailed_def PermanentFailure_def RetryableFailure_def)

lemma unpersisted_intros:
  "\<not> jr_outcome_persisted r \<Longrightarrow> unpersisted (retM r)"
  "(\<And>x. unpersisted (k x)) \<Longrightarrow> unpersisted (bindM m k)"
  "(b \<Longrightarrow> unpersisted m1) \<Longrightarrow> (\<not> b \<Longrightarrow> unpersisted m2) \<Longrightarrow> unpersisted (if b then m1 else m2)"
  "(\<And>e. unpersisted (h e)) \<Longrightarrow> (\<And>y. unpersisted (k' y)) \<Longrightarrow> unpersisted (case z of Inl e \<Rightarrow> h e | Inr y \<Rightarrow> k' y)"
  "unpersisted n \<Longrightarrow> (\<And>y. unpersisted (g y)) \<Longrightarrow> unpersisted (case w of None \<Rightarrow> n | Some y \<Rightarrow> g y)"
  "(\<And>a c. unpersisted (f a c)) \<Longrightarrow> unpersisted (case q of (a, c) \<Rightarrow> f a c)"
  by (auto simp: unpersisted_def elim!: bindM_okE split: sum.splits option.splits prod.splits if_splits)

text \<open>A collection job ends before its transaction, or its transaction commits or leaves the tables alone.\<close>

lemma gc_run:
  assumes "ExecuteBlobGc E W job s = (Inr r, s')"
  obtains (early) "s' = s" "\<not> jr_outcome_persisted r"
    | (refused) "sdb s' = other E (pc s) (sdb s)" "\<not> jr_outcome_persisted r"
    | (ran) candidate B s0 x s1 where "ParseBlobGcCandidate job = Inr candidate" "sdb s0 = other E (pc s) (sdb s)"
        "gc_tx W B job candidate (transaction_client E) s0 = (x, s1)" "store (sdb s') = store (sdb s1)"
        "if jr_outcome_persisted r then x = Inr (True, r) \<and> sdb s' = sdb s1
         else sdb s' = (other E (pc s) (sdb s))\<lparr>store := store (sdb s1)\<rparr>"
proof (cases "\<exists>candidate B. ParseBlobGcCandidate job = Inr candidate \<and> mt_db_configured (wk_maintenance W) \<and> mt_blob (wk_maintenance W) = Some B")
  case False
  with assms have "s' = s" "\<not> jr_outcome_persisted r"
    by (auto simp: ExecuteBlobGc_def split: sum.splits if_splits option.splits)
  then show thesis by (rule early)
next
  case True
  then obtain candidate B where c: "ParseBlobGcCandidate job = Inr candidate" "mt_db_configured (wk_maintenance W)"
    "mt_blob (wk_maintenance W) = Some B" by blast
  let ?s0 = "\<lparr>sdb = other E (pc s) (sdb s), pc = Suc (pc s), aborted = False\<rparr>"
  obtain x s1 where x: "gc_tx W B job candidate (transaction_client E) ?s0 = (x, s1)"
    by (cases "gc_tx W B job candidate (transaction_client E) ?s0")
  have persisted: "jr_outcome_persisted v \<longleftrightarrow> commit" if "x = Inr (commit, v)" for v commit
  proof (cases commit)
    case True
    with that x show ?thesis by (auto elim: gc_tx_ok)
  next
    case False
    with that x show ?thesis
      by (auto simp: gc_tx_def complete_transaction_def bindM_def retM_def split: prod.splits sum.splits option.splits if_splits)
  qed
  show thesis
  proof (cases "fault E (pc s)")
    case True
    with assms c have "sdb s' = other E (pc s) (sdb s)" "\<not> jr_outcome_persisted r"
      by (auto simp: ExecuteBlobGc_def catchM_def gc_transaction_def Let_def retM_def)
    then show thesis by (rule refused)
  next
    case False
    show thesis
    proof (rule ran [OF c(1) _ x])
      show "store (sdb s') = store (sdb s1)"
        using assms c False x
        by (auto simp: ExecuteBlobGc_def catchM_def gc_transaction_def Let_def retM_def split: sum.splits prod.splits if_splits)
      show "if jr_outcome_persisted r then x = Inr (True, r) \<and> sdb s' = sdb s1
         else sdb s' = (other E (pc s) (sdb s))\<lparr>store := store (sdb s1)\<rparr>"
        using assms c False x persisted
        by (auto simp: ExecuteBlobGc_def catchM_def gc_transaction_def Let_def retM_def split: sum.splits prod.splits if_splits)
    qed simp
  qed
qed

text \<open>A content the collection may take is unreferenced.\<close>

lemma collectable_unreferenced:
  assumes "db_inv d" and "c \<in> set (file_contents d)" and "collectable k d c"
  shows "(\<forall>f \<in> set (files d). f_content_id f \<noteq> fc_id c) \<and> (\<forall>t \<in> set (trash d). fc_id c \<notin> fst ` set (released t))"
  using ref_count_zero [OF assms(1,2)] assms(3) by (simp add: collectable_def)

lemma other_jobs_unpersisted:
  "unpersisted (ExecuteStagingCleanup E W job)" "unpersisted (ExecuteMultipartAbort E W job)"
  "unpersisted (ExecuteExpireUploads E W job)" "unpersisted (ExecuteExpireTrash E W job)"
  "unpersisted (ExecuteStorageReconcile E W job)"
  unfolding ExecuteStagingCleanup_def ExecuteMultipartAbort_def ExecuteExpireUploads_def ExecuteExpireTrash_def
    ExecuteStorageReconcile_def continue_with_def Let_def
  by (intro unpersisted_intros unpersisted_results)+

lemma unpersistedD: "unpersisted m \<Longrightarrow> m s = (Inr r, s') \<Longrightarrow> \<not> jr_outcome_persisted r"
  unfolding unpersisted_def by blast

lemma ExecuteJob_persisted:
  "ExecuteJob E W job s = (Inr r, s') \<Longrightarrow> jr_outcome_persisted r \<Longrightarrow> ExecuteBlobGc E W job s = (Inr r, s')"
  unfolding ExecuteJob_def
  by (auto split: if_splits dest: unpersistedD [OF other_jobs_unpersisted(1)] unpersistedD [OF other_jobs_unpersisted(2)]
      unpersistedD [OF other_jobs_unpersisted(3)] unpersistedD [OF other_jobs_unpersisted(4)]
      unpersistedD [OF other_jobs_unpersisted(5)])

definition has_job :: "nat \<Rightarrow> StorageJobStatus \<Rightarrow> 'w db \<Rightarrow> bool" where
  "has_job i st d \<longleftrightarrow>
     (\<exists>r \<in> set (storage_jobs d). j_id r = i \<and> j_status r = JobStatusToStorage st \<and> j_locked_by r = None \<and> j_locked_until r = None)"

lemma succeeded_row:
  assumes "affected (job_owned i inst) js = 1"
  shows "\<exists>r \<in> set (update_where (job_owned i inst) (succeeded_set t) js).
    j_id r = i \<and> j_status r = JobStatusToStorage Succeeded \<and> j_locked_by r = None \<and> j_locked_until r = None"
proof -
  from assms obtain r where r: "r \<in> set js" "job_owned i inst r"
    using affected_pos_iff [of "job_owned i inst" js] by auto
  then have "succeeded_set t r \<in> set (update_where (job_owned i inst) (succeeded_set t) js)"
    by (auto simp: mem_update_where)
  then show ?thesis
    using r(2) by (intro bexI [of _ "succeeded_set t r"]) (simp_all add: succeeded_set_def job_owned_def)
qed

lemma MarkSucceeded_row: "MarkSucceeded E i inst s = (Inr True, s') \<Longrightarrow> has_job i Succeeded (sdb s')"
  unfolding has_job_def MarkSucceeded_def
  by (elim bindM_okE exec_okE) (auto simp: job_succeed_stmt_def intro!: succeeded_row [simplified] dest: sym)

lemma settled_row:
  "affected (job_owned (sj_id job) (wk_instance_id W)) (storage_jobs d) = 1 \<Longrightarrow> has_job (sj_id job) Succeeded (settled W job fs d)"
  unfolding has_job_def settled_def using succeeded_row by simp

lemma gc_tx_row:
  assumes "gc_tx W B job candidate T s = (Inr (True, r), s')" and "in_tx T"
  shows "has_job (sj_id job) Succeeded (sdb s')"
  using assms by (cases rule: gc_tx_ok) (simp_all add: settled_row)

lemma MarkFailed_row:
  assumes "MarkFailed E i inst err retryable delay s = (Inr (Some st), s')"
  shows "\<exists>r q. q \<in> set (storage_jobs (sdb s')) \<and> q = failed_set (now (sdb s')) (take 2048 err) retryable delay r \<and>
    job_owned i inst r \<and> st = (if retryable \<and> j_attempts r < j_max_attempts r then Retry else DeadLetter)"
proof -
  have "now (sdb s') = now (seen E s)"
    using assms unfolding MarkFailed_def
    by (elim bindM_okE exec_okE) (auto simp: job_fail_stmt_def Let_def dest!: ValidateBoundedValue_ok split: list.splits dest: arg_cong [of _ _ now])
  with MarkFailed_ok [OF assms] show ?thesis by auto
qed

definition outcome_holds :: "'w worker \<Rightarrow> StorageJob \<Rightarrow> PersistDisposition \<Rightarrow> 'w db \<Rightarrow> bool" where
  "outcome_holds W job outcome d \<longleftrightarrow>
   (case outcome of
      PersistSucceeded \<Rightarrow> has_job (sj_id job) Succeeded d
    | PersistDeadLettered \<Rightarrow> has_job (sj_id job) DeadLetter d
    | PersistRetried \<Rightarrow> \<exists>row \<in> set (storage_jobs d). j_id row = sj_id job \<and>
        j_status row = JobStatusToStorage Retry \<and> j_locked_by row = None \<and> j_locked_until row = None \<and>
        j_attempts row < j_max_attempts row \<and>
        now d + int (unat (wk_retry_base_seconds W)) \<le> j_available_at row \<and>
        j_available_at row \<le> now d + int (unat (wk_retry_cap_seconds W))
    | PersistOwnershipLost \<Rightarrow> True)"

lemma persist_outcome_row:
  assumes run: "persist_outcome E W job execution s = (Inr outcome, s')" and small: "unat (wk_retry_cap_seconds W) < 2 ^ 31"
  shows "outcome_holds W job outcome (sdb s')"
proof (cases "outcome = PersistOwnershipLost")
  case False
  let ?compute = "ComputeRetryDelaySeconds (word_of_nat (sj_id job)) (word_of_nat (sj_attempts job)) (wk_retry_base_seconds W) (wk_retry_cap_seconds W)"
  from run False consider
      (ok) "outcome = PersistSucceeded" "MarkSucceeded E (sj_id job) (wk_instance_id W) s = (Inr True, s')"
    | (failed) delay st where "?compute = Inr delay"
        "MarkFailed E (sj_id job) (wk_instance_id W) (jr_error execution) (jr_retryable execution) (unat delay) s = (Inr (Some st), s')"
        "outcome = (if st = Retry then PersistRetried else PersistDeadLettered)"
    unfolding persist_outcome_def
    by (auto simp: catchM_def elim!: bindM_okE split: if_splits prod.splits sum.splits option.splits)
  then show ?thesis
  proof cases
    case ok
    then show ?thesis by (simp add: outcome_holds_def MarkSucceeded_row)
  next
    case (failed delay st)
    let ?b = "backoff (unat (word_of_nat (sj_attempts job) :: 32 word)) (unat (wk_retry_base_seconds W)) (unat (wk_retry_cap_seconds W))"
    from failed(1) have "wk_retry_base_seconds W \<le> wk_retry_cap_seconds W"
      by (auto simp: ComputeRetryDelaySeconds_def split: if_splits)
    then have "unat (wk_retry_base_seconds W) \<le> ?b"
      by (simp add: backoff_def word_le_nat_alt)
    with ComputeRetryDelay_bounds [OF failed(1)] have delay: "unat (wk_retry_base_seconds W) \<le> unat delay"
      "unat delay \<le> unat (wk_retry_cap_seconds W)" by (simp_all add: Let_def)
    have "to_int32 (int n) = int n" if "n < 2 ^ 31" for n
      using that by (intro to_int32_id) simp_all
    then have cast: "to_int32 (int (unat delay)) = int (unat delay)"
      using delay(2) small by (metis order_le_less_trans)
    from MarkFailed_row [OF failed(2)] obtain r q where q: "q \<in> set (storage_jobs (sdb s'))"
      "q = failed_set (now (sdb s')) (take 2048 (jr_error execution)) (jr_retryable execution) (unat delay) r"
      "job_owned (sj_id job) (wk_instance_id W) r"
      "st = (if jr_retryable execution \<and> j_attempts r < j_max_attempts r then Retry else DeadLetter)" by blast
    have q_id: "j_id q = sj_id job" "j_status q = JobStatusToStorage st" "j_locked_by q = None" "j_locked_until q = None"
      using q(2,3,4) by (auto simp: failed_set_def job_owned_def Let_def)
    show ?thesis
    proof (cases "st = Retry")
      case True
      with q(2,4) have "j_attempts q < j_max_attempts q" and at: "j_available_at q = now (sdb s') + to_int32 (int (unat delay))"
        by (auto simp: failed_set_def Let_def split: if_splits)
      moreover have "int (unat (wk_retry_base_seconds W)) \<le> int (unat delay)" "int (unat delay) \<le> int (unat (wk_retry_cap_seconds W))"
        using delay by (simp_all only: of_nat_le_iff)
      ultimately have "j_attempts q < j_max_attempts q"
        "now (sdb s') + int (unat (wk_retry_base_seconds W)) \<le> j_available_at q"
        "j_available_at q \<le> now (sdb s') + int (unat (wk_retry_cap_seconds W))"
        unfolding at cast by simp_all
      with q(1) q_id True failed(3) show ?thesis by (auto simp: outcome_holds_def)
    next
      case False
      with q(4) have "st = DeadLetter" by (auto split: if_splits)
      with q(1) q_id failed(3) show ?thesis by (auto simp: outcome_holds_def has_job_def)
    qed
  qed
qed (simp add: outcome_holds_def)

lemma ProcessClaimedJob_row:
  assumes run: "ProcessClaimedJob E W job s = (Inr outcome, s')" and small: "unat (wk_retry_cap_seconds W) < 2 ^ 31"
  shows "outcome_holds W job outcome (sdb s')"
proof (cases "outcome = PersistOwnershipLost")
  case False
  with run consider
      (recorded) execution s1 where "outcome = PersistSucceeded" "ExecuteJob E W job s1 = (Inr execution, s')" "jr_outcome_persisted execution"
    | (persist) execution s1 where "persist_outcome E W job execution s1 = (Inr outcome, s')"
    unfolding ProcessClaimedJob_def
    by (auto simp: catchM_def heartbeat_lost_def elim!: bindM_okE split: if_splits prod.splits sum.splits)
  then show ?thesis
  proof cases
    case (recorded execution s1)
    from ExecuteJob_persisted [OF recorded(2,3)] show ?thesis
    proof (cases rule: gc_run)
      case (ran candidate B s0 x s2)
      with recorded show ?thesis by (auto simp: outcome_holds_def gc_tx_row)
    qed (use recorded(3) in simp_all)
  next
    case (persist execution s1)
    from persist_outcome_row [OF this small] show ?thesis .
  qed
qed (simp add: outcome_holds_def)

end
