(* ===== verification/Audit_Results.thy ===== *)
theory Audit_Results
  imports Worker_Results
begin

text \<open>
  What an audit of the contents leaves behind: which findings are open and which collections
  are queued after a page of \<^verbatim>\<open>StorageReconciliationService::RunContentPage\<close>, while no other session
  touches findings and jobs.
\<close>

section \<open>Open findings\<close>

definition open_row :: "string \<Rightarrow> nat \<Rightarrow> finding_row \<Rightarrow> bool" where
  "open_row ty k r \<longleftrightarrow> same_finding ty (decimal k) r \<and> fd_resolved_at r = None"

definition open_finding :: "string \<Rightarrow> nat \<Rightarrow> 'w db \<Rightarrow> bool" where
  "open_finding ty k d \<longleftrightarrow> list_ex (open_row ty k) (findings d)"

lemma open_row_simps [simp]:
  "open_row ty i (r\<lparr>fd_occurrences := n\<rparr>) \<longleftrightarrow> open_row ty i r"
  "\<not> open_row ty i (r\<lparr>fd_resolved_at := Some a, fd_last_seen_at := b\<rparr>)"
  "rf_resource_id f = decimal k \<Longrightarrow> open_row ty i (finding_of t f) \<longleftrightarrow> ty = rf_finding_type f \<and> i = k"
  by (auto simp: open_row_def same_finding_def finding_of_def)

lemma open_row_same: "same_finding t (decimal k) r \<Longrightarrow> open_row ty i r \<longleftrightarrow> ty = t \<and> i = k \<and> fd_resolved_at r = None"
  by (auto simp: open_row_def same_finding_def)

lemma open_row_resolved:
  "open_row ty i (if same_finding t (decimal k) r \<and> fd_resolved_at r = None
      then r\<lparr>fd_resolved_at := Some a, fd_last_seen_at := b\<rparr> else r) \<longleftrightarrow> \<not> (ty = t \<and> i = k) \<and> open_row ty i r"
  using open_row_same [of t k r ty i] by (cases "same_finding t (decimal k) r") (auto simp: open_row_def)

lemma rows_recorded:
  assumes "rf_resource_id f = decimal k"
  shows "list_ex (open_row ty i) (update_where (same_finding (rf_finding_type f) (decimal k))
      (\<lambda>r. (finding_of t f)\<lparr>fd_occurrences := Suc (fd_occurrences r)\<rparr>) fs) \<longleftrightarrow>
    ty = rf_finding_type f \<and> i = k \<and> list_ex (same_finding (rf_finding_type f) (decimal k)) fs \<or> list_ex (open_row ty i) fs"
  using assms by (induction fs) (auto dest: open_row_same)

lemma rows_resolved:
  "list_ex (open_row ty i) (update_where (\<lambda>r. same_finding t (decimal k) r \<and> fd_resolved_at r = None)
      (\<lambda>r. r\<lparr>fd_resolved_at := Some a, fd_last_seen_at := b\<rparr>) fs) \<longleftrightarrow>
    \<not> (ty = t \<and> i = k) \<and> list_ex (open_row ty i) fs"
  by (induction fs) (auto simp: open_row_resolved)

definition undisturbed :: "'w client \<Rightarrow> bool" where
  "undisturbed E \<longleftrightarrow> (\<forall>n d. findings (other E n d) = findings d \<and> storage_jobs (other E n d) = storage_jobs d)"

lemma seen_undisturbed:
  "undisturbed E \<Longrightarrow> findings (seen E s) = findings (sdb s) \<and> storage_jobs (seen E s) = storage_jobs (sdb s)"
  by (simp add: undisturbed_def seen_def)

text \<open>Recording opens a finding, resolving closes it, and both leave every other one alone.\<close>

lemma RecordFinding_opens:
  assumes "RecordFinding E f s = (Inr x, s')" and "undisturbed E" and "rf_resource_id f = decimal k"
  shows "(open_finding ty i (sdb s') \<longleftrightarrow> ty = rf_finding_type f \<and> i = k \<or> open_finding ty i (sdb s)) \<and>
    storage_jobs (sdb s') = storage_jobs (sdb s)"
proof -
  let ?p = "same_finding (rf_finding_type f) (decimal k)" and ?d = "seen E s"
  let ?fs = "if list_ex ?p (findings ?d)
    then update_where ?p (\<lambda>r. (finding_of (now ?d) f)\<lparr>fd_occurrences := fd_occurrences r + 1\<rparr>) (findings ?d)
    else findings ?d @ [finding_of (now ?d) f]"
  have "sdb s' = ?d\<lparr>findings := ?fs\<rparr>"
    using assms(1,3) by (auto simp: RecordFinding_def Let_def elim!: exec_okE split: if_splits)
  then show ?thesis
    using seen_undisturbed [OF assms(2), of s] assms(3) by (auto simp: open_finding_def rows_recorded)
qed

lemma ResolveFinding_closes:
  assumes "ResolveFinding E t (decimal k) s = (Inr x, s')" and "undisturbed E"
  shows "(open_finding ty i (sdb s') \<longleftrightarrow> \<not> (ty = t \<and> i = k) \<and> open_finding ty i (sdb s)) \<and>
    storage_jobs (sdb s') = storage_jobs (sdb s)"
proof -
  let ?d = "seen E s"
  have "sdb s' = ?d\<lparr>findings := update_where (\<lambda>r. same_finding t (decimal k) r \<and> fd_resolved_at r = None)
      (\<lambda>r. r\<lparr>fd_resolved_at := Some (now ?d), fd_last_seen_at := now ?d\<rparr>) (findings ?d)\<rparr>"
    using assms(1) by (auto simp: ResolveFinding_def elim!: exec_okE)
  then show ?thesis
    using seen_undisturbed [OF assms(2), of s] by (simp add: open_finding_def rows_resolved)
qed

section \<open>The state of an audit\<close>

text \<open>
  \<open>M\<close>: the contents with an open mismatch of their reference count, \<open>Z\<close>: those with an open
  finding that nobody references them, \<open>C\<close>: contents whose collection is queued.
\<close>

definition audit_state :: "(nat \<Rightarrow> bool) \<Rightarrow> (nat \<Rightarrow> bool) \<Rightarrow> nat set \<Rightarrow> 'w db \<Rightarrow> bool" where
  "audit_state M Z C d \<longleftrightarrow>
     (\<forall>i. open_finding kContentRefCountMismatch i d \<longleftrightarrow> M i) \<and>
     (\<forall>i. open_finding kZeroReferenceContent i d \<longleftrightarrow> Z i) \<and> (\<forall>i \<in> C. gc_pending i d)"

lemma audit_state_cong:
  "findings d' = findings d \<Longrightarrow> storage_jobs d' = storage_jobs d \<Longrightarrow> audit_state M Z C d' \<longleftrightarrow> audit_state M Z C d"
  by (simp add: audit_state_def open_finding_def gc_pending_def)

lemma stable_audit_state: "undisturbed E \<Longrightarrow> stable (audit_state M Z C) E"
  by (simp add: stable_def undisturbed_def cong: audit_state_cong)

lemma audit_types [simp]:
  "kContentRefCountMismatch \<noteq> kZeroReferenceContent" "kZeroReferenceContent \<noteq> kContentRefCountMismatch"
  "kMissingFinalBlobFindingType \<noteq> kContentRefCountMismatch" "kMissingFinalBlobFindingType \<noteq> kZeroReferenceContent"
  "kFinalBlobSizeMismatchFindingType \<noteq> kContentRefCountMismatch" "kFinalBlobSizeMismatchFindingType \<noteq> kZeroReferenceContent"
  "kFinalBlobReadInterruptedFindingType \<noteq> kContentRefCountMismatch" "kFinalBlobReadInterruptedFindingType \<noteq> kZeroReferenceContent"
  by (simp_all add: kContentRefCountMismatch_def kZeroReferenceContent_def kMissingFinalBlobFindingType_def
      kFinalBlobSizeMismatchFindingType_def kFinalBlobReadInterruptedFindingType_def)

text \<open>Operations on other findings and on the blob store leave the state of the audit alone.\<close>

lemma keeps_resolve_other:
  assumes "undisturbed E" and "t \<noteq> kContentRefCountMismatch" and "t \<noteq> kZeroReferenceContent"
  shows "keeps (audit_state M Z C) (ResolveFinding E t (decimal k))"
  unfolding ResolveFinding_def
proof (rule keeps_exec [OF stable_audit_state [OF assms(1)]])
  fix d v and d' :: "'a db"
  assume P: "audit_state M Z C d"
    and "updateS (\<lambda>_. ()) (\<lambda>d. d\<lparr>findings := update_where (\<lambda>r. same_finding t (decimal k) r \<and> fd_resolved_at r = None)
      (\<lambda>r. r\<lparr>fd_resolved_at := Some (now d), fd_last_seen_at := now d\<rparr>) (findings d)\<rparr>) d = (Inr v, d')"
  then have "d' = d\<lparr>findings := update_where (\<lambda>r. same_finding t (decimal k) r \<and> fd_resolved_at r = None)
      (\<lambda>r. r\<lparr>fd_resolved_at := Some (now d), fd_last_seen_at := now d\<rparr>) (findings d)\<rparr>" by simp
  with P assms(2,3) show "audit_state M Z C d'"
    by (simp add: audit_state_def open_finding_def rows_resolved gc_pending_def)
qed

lemma keeps_note_other:
  assumes "undisturbed E" and "t \<noteq> kContentRefCountMismatch" and "t \<noteq> kZeroReferenceContent"
  shows "keeps (audit_state M Z C) (note_finding E (content_finding t c loc sev strat det) page)"
proof -
  let ?f = "content_finding t c loc sev strat det"
  have id: "rf_resource_id ?f = decimal (fc_id c)" "rf_finding_type ?f = t" by (simp_all add: content_finding_def)
  have "audit_state M Z C d'"
    if "audit_state M Z C d" and "updateS (\<lambda>_. ()) (\<lambda>d. let ex = finding_of (now d) ?f; p = same_finding (rf_finding_type ?f) (rf_resource_id ?f)
        in if list_ex p (findings d)
           then d\<lparr>findings := update_where p (\<lambda>r. ex\<lparr>fd_occurrences := fd_occurrences r + 1\<rparr>) (findings d)\<rparr>
           else d\<lparr>findings := findings d @ [ex]\<rparr>) d = (Inr v, d')" for v and d d' :: "'a db"
    using that assms(2,3) id rows_recorded [OF id(1)]
    by (auto simp: Let_def audit_state_def open_finding_def gc_pending_def split: if_splits)
  then have "keeps (audit_state M Z C) (RecordFinding E ?f)"
    unfolding RecordFinding_def by (intro keeps_intros keeps_exec [OF stable_audit_state [OF assms(1)]])
  then show ?thesis
    unfolding note_finding_def by (intro keeps_intros)
qed

lemma keeps_audit_blob:
  assumes "undisturbed E"
  shows "keeps (audit_state M Z C) (audit_blob E B scan c page)"
proof -
  have st: "audit_state M Z C (d\<lparr>store := w\<rparr>) \<longleftrightarrow> audit_state M Z C d" for d :: "'a db" and w
    by (simp cong: audit_state_cong)
  show ?thesis
    unfolding audit_blob_def missing_blob_def Let_def
    by (intro keeps_intros keeps_resolve_other keeps_note_other stable_audit_state assms) (simp_all add: st)
qed

section \<open>A page of contents\<close>

lemma audit_references_state:
  assumes "audit_references E scan c n page s = (Inr page', s')" and "undisturbed E" and "audit_state M Z C (sdb s)"
  shows "audit_state (M(fc_id c := (fc_ref_count c \<noteq> int n))) Z C (sdb s')"
proof (cases "fc_ref_count c = int n")
  case True
  with assms(1) obtain s1 where "ResolveFinding E kContentRefCountMismatch (decimal (fc_id c)) s = (Inr (), s1)" "s' = s1"
    unfolding audit_references_def by (auto elim!: bindM_okE)
  with ResolveFinding_closes [of E kContentRefCountMismatch "fc_id c" s "()" s1, OF _ assms(2)] assms(3) True show ?thesis
    by (auto simp: audit_state_def gc_pending_def)
next
  case False
  let ?f = "content_finding kContentRefCountMismatch c (''file_contents/'' @ decimal (fc_id c)) SeverityCritical StrategyAlert
    (MakeDetails scan [(''stored_ref_count'', JInt (fc_ref_count c)), (''actual_ref_count'', JUInt n)])"
  from False assms(1) obtain s1 where "RecordFinding E ?f s = (Inr (), s1)" "s' = s1"
    unfolding audit_references_def note_finding_def by (auto elim!: bindM_okE)
  with RecordFinding_opens [of E ?f s "()" s1, OF _ assms(2), of "fc_id c"] assms(3) False show ?thesis
    by (auto simp: audit_state_def gc_pending_def content_finding_def)
qed

lemma EnqueueOrRearm_findings:
  assumes "EnqueueOrRearmSucceeded E job s = (Inr b, s')" and "undisturbed E"
  shows "findings (sdb s') = findings (sdb s)"
proof -
  have "findings d' = findings d" if "rearm_stmt job d = (Inr r, d')" for r and d d' :: "'a db"
    using that by (auto simp: rearm_stmt_def insert_job_def split: if_splits)
  with assms(1) seen_undisturbed [OF assms(2)] show ?thesis
    unfolding EnqueueOrRearmSucceeded_def
    by (fastforce elim!: bindM_okE exec_okE dest!: ValidateNewJob_ok split: if_splits option.splits)
qed

lemma audit_content_state:
  assumes run: "audit_content E R scan c n page s = (Inr (Inr page'), s')" and E: "undisturbed E"
    and P: "audit_state M Z C (sdb s)"
  defines "gc \<equiv> ShouldEnqueueBlobGc (fc_ref_count c) n"
  shows "audit_state (M(fc_id c := (fc_ref_count c \<noteq> int n))) (Z(fc_id c := gc)) (if gc then insert (fc_id c) C else C) (sdb s')"
proof -
  let ?M = "M(fc_id c := (fc_ref_count c \<noteq> int n))"
  from run obtain page1 s1 where refs: "audit_references E scan c n page s = (Inr page1, s1)" and rest:
    "(if gc
       then bindM (note_finding E (content_finding kZeroReferenceContent c (''file_contents/'' @ decimal (fc_id c))
                SeverityWarning StrategyAutoGc (MakeDetails scan [(''storage_path'', JString (fc_storage_path c))])) page1) (\<lambda>page.
            bindM (EnqueueOrRearmSucceeded E (BlobGcJob (fc_id c) (fc_storage_path c))) (\<lambda>enqueued.
              okR (if enqueued then page\<lparr>pr_repairs_enqueued := pr_repairs_enqueued page + 1\<rparr> else page)))
       else bindM (ResolveFinding E kZeroReferenceContent (decimal (fc_id c))) (\<lambda>_.
         if n = 0 then okR page1
         else (case mt_blob R of
                 None \<Rightarrow> failR (ErrorInfo2 InternalError ''Reconciliation Blob store is not configured'')
               | Some B \<Rightarrow> audit_blob E B scan c page1))) s1 = (Inr (Inr page'), s')"
    unfolding audit_content_def gc_def by (rule bindM_okE)
  have s1: "audit_state ?M Z C (sdb s1)"
    by (rule audit_references_state [OF refs E P])
  show ?thesis
  proof (cases gc)
    case True
    let ?f = "content_finding kZeroReferenceContent c (''file_contents/'' @ decimal (fc_id c)) SeverityWarning StrategyAutoGc
      (MakeDetails scan [(''storage_path'', JString (fc_storage_path c))])"
    from rest True obtain s2 b s3 where rec: "RecordFinding E ?f s1 = (Inr (), s2)"
      and enq: "EnqueueOrRearmSucceeded E (BlobGcJob (fc_id c) (fc_storage_path c)) s2 = (Inr b, s3)" and "s' = s3"
      unfolding note_finding_def by (auto elim!: bindM_okE)
    have "audit_state ?M (Z(fc_id c := True)) C (sdb s2)"
      using RecordFinding_opens [OF rec E, of "fc_id c"] s1 by (auto simp: audit_state_def gc_pending_def content_finding_def)
    moreover have "findings (sdb s3) = findings (sdb s2)"
      by (rule EnqueueOrRearm_findings [OF enq E])
    moreover have "gc_pending (fc_id c) (sdb s3) \<and> (\<forall>i. gc_pending i (sdb s2) \<longrightarrow> gc_pending i (sdb s3))"
      using EnqueueOrRearm_pending [OF enq] seen_undisturbed [OF E] BlobGcJob_pending by blast
    ultimately show ?thesis
      using True \<open>s' = s3\<close> by (auto simp: audit_state_def open_finding_def)
  next
    case False
    with rest obtain s2 where res: "ResolveFinding E kZeroReferenceContent (decimal (fc_id c)) s1 = (Inr (), s2)"
      and blob: "(if n = 0 then okR page1
         else (case mt_blob R of
                 None \<Rightarrow> failR (ErrorInfo2 InternalError ''Reconciliation Blob store is not configured'')
               | Some B \<Rightarrow> audit_blob E B scan c page1)) s2 = (Inr (Inr page'), s')"
      by (auto elim!: bindM_okE)
    have "audit_state ?M (Z(fc_id c := gc)) C (sdb s2)"
      using ResolveFinding_closes [OF res E] s1 False by (auto simp: audit_state_def gc_pending_def)
    moreover have "sdb s' = sdb s2 \<or> (\<exists>B. audit_blob E B scan c page1 s2 = (Inr (Inr page'), s'))"
      using blob by (auto split: if_splits option.splits)
    ultimately show ?thesis
      using keepsD' [OF keeps_audit_blob [OF E]] False by fastforce
  qed
qed

definition audited :: "(nat \<Rightarrow> bool) \<Rightarrow> (nat \<Rightarrow> bool) \<Rightarrow> nat set \<Rightarrow> content_row \<times> nat \<Rightarrow> bool" where
  "audited M Z C = (\<lambda>(c, n).
     M (fc_id c) = (fc_ref_count c \<noteq> int n) \<and> Z (fc_id c) = ShouldEnqueueBlobGc (fc_ref_count c) n \<and>
     (ShouldEnqueueBlobGc (fc_ref_count c) n \<longrightarrow> fc_id c \<in> C))"

lemma audit_contents_state:
  assumes "audit_contents E R scan rows page s = (Inr (Inr page'), s')" and "undisturbed E"
    and "audit_state M Z C (sdb s)" and "distinct (map (fc_id \<circ> fst) rows)"
  shows "\<exists>M' Z' C'. audit_state M' Z' C' (sdb s') \<and> (\<forall>i. i \<notin> (fc_id \<circ> fst) ` set rows \<longrightarrow> M' i = M i \<and> Z' i = Z i) \<and>
    C \<subseteq> C' \<and> (\<forall>row \<in> set rows. audited M' Z' C' row)"
  using assms
proof (induction rows arbitrary: page s M Z C)
  case Nil
  then show ?case by auto
next
  case (Cons row rows)
  obtain c n where row: "row = (c, n)" by fastforce
  let ?gc = "ShouldEnqueueBlobGc (fc_ref_count c) n" and ?k = "fc_id c"
  from Cons.prems(1) row obtain page1 s1 where
    first: "audit_content E R scan c n (page\<lparr>pr_next_after_id := ?k\<rparr>) s = (Inr (Inr page1), s1)"
    and rest: "audit_contents E R scan rows page1 s1 = (Inr (Inr page'), s')"
    by (auto elim!: bindR_okE)
  have new: "?k \<notin> (fc_id \<circ> fst) ` set rows" and ds: "distinct (map (fc_id \<circ> fst) rows)"
    using Cons.prems(4) row by (simp_all add: comp_def)
  from Cons.IH [OF rest Cons.prems(2) audit_content_state [OF first Cons.prems(2,3)] ds]
  obtain M' Z' C' where ih: "audit_state M' Z' C' (sdb s')"
    "\<And>i. i \<notin> (fc_id \<circ> fst) ` set rows \<Longrightarrow> M' i = (M(?k := (fc_ref_count c \<noteq> int n))) i \<and> Z' i = (Z(?k := ?gc)) i"
    "(if ?gc then insert ?k C else C) \<subseteq> C'" "\<forall>row \<in> set rows. audited M' Z' C' row"
    by (elim exE conjE) simp
  have "audited M' Z' C' row"
    using ih(2) [OF new] ih(3) by (auto simp: audited_def row)
  moreover have "M' i = M i \<and> Z' i = Z i" if "i \<notin> (fc_id \<circ> fst) ` set (row # rows)" for i
    using ih(2) [of i] that row by simp
  moreover have "C \<subseteq> C'" using ih(3) by (simp split: if_splits)
  ultimately show ?case
    using ih(1,4) by (intro exI [of _ M'] exI [of _ Z'] exI [of _ C']) simp
qed

text \<open>A page of the audit, from the entry point.\<close>

lemma RunPage_contents:
  assumes run: "RunPage E R request s = (Inr (Inr page), s')" and scope: "rp_scope request = ScopeContents"
    and E: "undisturbed E" and inv: "db_inv (seen E s)"
    and c: "(c, n) \<in> set (content_page (rp_after_id request) (rp_limit request) (seen E s))"
  shows "(open_finding kContentRefCountMismatch (fc_id c) (sdb s') \<longleftrightarrow> fc_ref_count c \<noteq> int n) \<and>
    (open_finding kZeroReferenceContent (fc_id c) (sdb s') \<longleftrightarrow> ShouldEnqueueBlobGc (fc_ref_count c) n) \<and>
    (ShouldEnqueueBlobGc (fc_ref_count c) n \<longrightarrow> gc_pending (fc_id c) (sdb s'))"
proof -
  let ?rows = "content_page (rp_after_id request) (rp_limit request) (seen E s)"
  from run scope have "RunContentPage E R request s = (Inr (Inr page), s')"
    by (auto simp: RunPage_def catchM_def failR_def retM_def split: sum.splits if_splits prod.splits)
  then obtain s1 page1 s2 where s1: "sdb s1 = seen E s"
    and rows: "audit_contents E R (rp_scan_id request) ?rows (fresh_page (length ?rows)) s1 = (Inr (Inr page1), s2)" and "s' = s2"
    unfolding RunContentPage_def by (auto elim!: bindM_okE bindR_okE dest!: pure_ok)
  have "distinct (map fc_id (file_contents (seen E s)))"
    using inv by (simp add: db_inv_def contents_inv_def)
  then have "distinct (file_contents (seen E s))" and "inj_on fc_id (set (file_contents (seen E s)))"
    by (simp_all add: distinct_map)
  then have distinct: "distinct (map (fc_id \<circ> fst) ?rows)"
    by (auto simp: content_page_def comp_def distinct_map dest!: in_set_takeD intro: inj_on_subset)
  have "audit_state (\<lambda>i. open_finding kContentRefCountMismatch i (sdb s1)) (\<lambda>i. open_finding kZeroReferenceContent i (sdb s1)) {} (sdb s1)"
    by (simp add: audit_state_def)
  from audit_contents_state [OF rows E this] distinct obtain M Z C where
    st: "audit_state M Z C (sdb s2)" and "\<forall>row \<in> set ?rows. audited M Z C row"
    by blast
  with c have "audited M Z C (c, n)" by blast
  with st show ?thesis
    using \<open>s' = s2\<close> by (simp add: audit_state_def audited_def)
qed

end
