(* ===== verification/Worker_Properties.thy ===== *)
theory Worker_Properties
  imports Audit_Results Trash_Properties
begin

text \<open>
  The properties of the job worker and of the audits, with their witnesses.
\<close>

section \<open>Collecting blobs\<close>

text \<open>
  C36: Collecting a blob is safe, whatever fails: the blob store is called only for the path of
  a content that no file and no trash row references, not even from the snapshot of a trashed
  folder.  If the job records its outcome, the job is done, at most contents nobody references
  have left the table, and no file, trash row or account changed; otherwise the tables are as
  they were.
\<close>

theorem blob_collection_is_safe:
  assumes "db_inv (other E (pc s) (sdb s))" and "ExecuteBlobGc E W job s = (Inr r, s')"
  shows "s' = s \<or>
    (let d = other E (pc s) (sdb s); d' = sdb s';
         unreferenced = (\<lambda>c. (\<forall>f \<in> set (files d). f_content_id f \<noteq> fc_id c) \<and>
                              (\<forall>t \<in> set (trash d). fc_id c \<notin> fst ` set (released t)))
     in (store d' \<noteq> store d \<longrightarrow>
          (\<exists>c \<in> set (file_contents d). unreferenced c \<and>
             (\<exists>k. ParseBlobGcCandidate job = Inr \<lparr>gc_content_id = k, gc_storage_path = fc_storage_path c\<rparr>))) \<and>
        (if jr_outcome_persisted r
         then has_job (sj_id job) Succeeded d' \<and> set (file_contents d') \<subseteq> set (file_contents d) \<and>
              (\<forall>c \<in> set (file_contents d) - set (file_contents d'). unreferenced c) \<and>
              files d' = files d \<and> trash d' = trash d \<and> users d' = users d
         else d' = d\<lparr>store := store d'\<rparr>))"
  using assms(2)
proof (cases rule: gc_run)
  case refused
  then show ?thesis by (simp add: Let_def)
next
  case (ran candidate B s0 x s1)
  let ?d = "other E (pc s) (sdb s)" and ?d' = "sdb s'"
  let ?u = "\<lambda>c. (\<forall>f \<in> set (files ?d). f_content_id f \<noteq> fc_id c) \<and> (\<forall>t \<in> set (trash ?d). fc_id c \<notin> fst ` set (released t))"
  have u: "?u c" if "c \<in> set (file_contents ?d)" "collectable k ?d c" for c k
    using collectable_unreferenced [OF assms(1) that] .
  have "\<exists>c \<in> set (file_contents ?d). ?u c \<and>
      (\<exists>k. ParseBlobGcCandidate job = Inr \<lparr>gc_content_id = k, gc_storage_path = fc_storage_path c\<rparr>)" if "store ?d' \<noteq> store ?d"
  proof -
    have "store (sdb s1) \<noteq> store (sdb s0)" using that ran(2,4) by simp
    then obtain c where c: "collects candidate ?d c"
      using gc_tx_store [OF ran(3) in_tx_transaction_client] ran(2) by metis
    moreover have "candidate = \<lparr>gc_content_id = gc_content_id candidate, gc_storage_path = fc_storage_path c\<rparr>"
      using c by (simp add: collects_def)
    ultimately have "ParseBlobGcCandidate job = Inr \<lparr>gc_content_id = gc_content_id candidate, gc_storage_path = fc_storage_path c\<rparr>"
      using ran(1) by simp
    moreover have "c \<in> set (file_contents ?d)" "collectable (gc_content_id candidate) ?d c"
      using c by (simp_all add: collects_def)
    ultimately show ?thesis using u by blast
  qed
  moreover have "has_job (sj_id job) Succeeded ?d' \<and> set (file_contents ?d') \<subseteq> set (file_contents ?d) \<and>
      (\<forall>c \<in> set (file_contents ?d) - set (file_contents ?d'). ?u c) \<and>
      files ?d' = files ?d \<and> trash ?d' = trash ?d \<and> users ?d' = users ?d" if "jr_outcome_persisted r"
  proof -
    have tx: "gc_tx W B job candidate (transaction_client E) s0 = (Inr (True, r), s1)" and s': "sdb s' = sdb s1"
      using ran(3,5) that by simp_all
    note frame = gc_tx_frame [OF tx in_tx_transaction_client]
    from tx in_tx_transaction_client have "set (file_contents (sdb s1)) \<subseteq> set (file_contents (sdb s0)) \<and>
        (\<forall>c \<in> set (file_contents (sdb s0)) - set (file_contents (sdb s1)). ?u c)"
    proof (cases rule: gc_tx_ok)
      case (collected q fs w)
      have "set (file_contents (sdb s1)) = {c \<in> set (file_contents (sdb s0)). \<not> collectable (gc_content_id candidate) (sdb s0) c}"
        by (simp add: collected settled_def)
      with u ran(2) show ?thesis by (metis (no_types, lifting) DiffE mem_Collect_eq subsetI)
    qed (simp add: settled_def)
    with gc_tx_row [OF tx] frame ran(2) s' show ?thesis by simp
  qed
  ultimately show ?thesis
    using ran(4,5) by (auto simp: Let_def)
qed simp

text \<open>A store that holds one blob, a content nobody references, and its job, claimed by the worker.\<close>

definition remove_blob :: "string \<Rightarrow> string list \<Rightarrow> unit Result \<times> string list" where
  "remove_blob p w = (Inr (), removeAll p w)"

definition waste_db :: "string list db" where
  "waste_db = (empty_db [sample_user] [''p''])
     \<lparr>file_contents := [\<lparr>fc_id = 1, fc_hash_md5 = sample_md5, fc_hash_sha256 = ''sha'', fc_size = 6,
                          fc_storage_path = ''p'', fc_mime_type = ''text/plain'', fc_ref_count = 0\<rparr>], seq_contents := 1\<rparr>"

definition waste_queued :: "string list db" where
  "waste_queued = snd (job_claim_stmt (\<lambda>_. False) ''w1'' 1 60 (snd (enqueue_stmt (BlobGcJob 1 ''p'') waste_db)))"

definition waste_job :: StorageJob where
  "waste_job = (job_of (BlobGcJob 1 ''p''))\<lparr>sj_id := 1, sj_locked_by := ''w1''\<rparr>"

lemma waste_queued_inv: "db_inv waste_queued"
proof -
  have inv: "db_inv waste_db"
    by (simp add: db_inv_def waste_db_def empty_db_def sample_user_def tasks_inv_def one_active_def accounts_inv_def
        account_ok_def contents_inv_def content_ok_def content_key_def files_inv_def folders_inv_def trash_inv_def
        chunks_inv_def jobs_inv_def cleanup_inv_def integer_def)
  have enq: "enqueue_stmt (BlobGcJob 1 ''p'') waste_db = (Inr True, snd (enqueue_stmt (BlobGcJob 1 ''p'') waste_db))"
    by (simp add: enqueue_stmt_def waste_db_def empty_db_def BlobGcJob_def to_int32_id)
  from job_claim_stmt_inv [OF _ enqueue_stmt_inv [OF enq _ inv]] show ?thesis
    unfolding waste_queued_def by (simp add: BlobGcJob_def prod_eq_iff)
qed

theorem blob_collection_is_safe_witness:
  "\<exists>r s'. ExecuteBlobGc quiet (sample_worker remove_blob) waste_job (start waste_queued) = (Inr r, s') \<and>
     store (sdb s') = [] \<and> file_contents (sdb s') = [] \<and> has_job 1 Succeeded (sdb s') \<and>
     (\<exists>c \<in> set (file_contents waste_queued). \<forall>f \<in> set (files waste_queued). f_content_id f \<noteq> fc_id c)"
proof -
  let ?run = "ExecuteBlobGc quiet (sample_worker remove_blob) waste_job (start waste_queued)"
  have "case fst ?run of Inr r \<Rightarrow> jr_outcome_persisted r | Inl _ \<Rightarrow> False" by code_simp
  then obtain r where r: "fst ?run = Inr r" "jr_outcome_persisted r" by (auto split: sum.splits)
  then have run: "?run = (Inr r, snd ?run)" by (simp add: prod_eq_iff)
  have st: "store (sdb (snd ?run)) = []" "file_contents (sdb (snd ?run)) = []" "store waste_queued = [''p'']" "sj_id waste_job = 1"
    by code_simp+
  have d: "other quiet (pc (start waste_queued)) (sdb (start waste_queued)) = waste_queued"
    by (simp add: quiet_def start_def)
  have "snd ?run \<noteq> start waste_queued"
    using st(1,3) by (auto simp: start_def)
  with blob_collection_is_safe [of quiet "start waste_queued", OF _ run] waste_queued_inv r(2) st
  have "has_job 1 Succeeded (sdb (snd ?run)) \<and>
      (\<exists>c \<in> set (file_contents waste_queued). \<forall>f \<in> set (files waste_queued). f_content_id f \<noteq> fc_id c)"
    unfolding d by (auto simp: Let_def)
  with run st show ?thesis by blast
qed

section \<open>Outcomes of jobs\<close>

text \<open>
  C37: The outcome the worker reports for a claimed job is the outcome in the table: a succeeded
  job's row is done, a dead-lettered job's row is dead, and a retried job's row waits for at
  least the base delay and at most the cap; each without a lease.
\<close>

theorem reported_outcomes_hold:
  assumes "ProcessClaimedJob E W job s = (Inr outcome, s')" and "unat (wk_retry_cap_seconds W) < 2 ^ 31"
  shows "case outcome of
      PersistSucceeded \<Rightarrow> has_job (sj_id job) Succeeded (sdb s')
    | PersistDeadLettered \<Rightarrow> has_job (sj_id job) DeadLetter (sdb s')
    | PersistRetried \<Rightarrow> \<exists>row \<in> set (storage_jobs (sdb s')). j_id row = sj_id job \<and>
        j_status row = JobStatusToStorage Retry \<and> j_locked_by row = None \<and> j_locked_until row = None \<and>
        j_attempts row < j_max_attempts row \<and>
        now (sdb s') + int (unat (wk_retry_base_seconds W)) \<le> j_available_at row \<and>
        j_available_at row \<le> now (sdb s') + int (unat (wk_retry_cap_seconds W))
    | PersistOwnershipLost \<Rightarrow> True"
  using ProcessClaimedJob_row [OF assms] unfolding outcome_holds_def .

theorem reported_outcomes_hold_witness:
  "\<exists>s'. ProcessClaimedJob quiet (sample_worker remove_blob) waste_job (start waste_queued) = (Inr PersistSucceeded, s') \<and>
     has_job 1 Succeeded (sdb s')"
proof -
  let ?run = "ProcessClaimedJob quiet (sample_worker remove_blob) waste_job (start waste_queued)"
  have "fst ?run = Inr PersistSucceeded" "sj_id waste_job = 1" by code_simp+
  then have run: "?run = (Inr PersistSucceeded, snd ?run)" and i: "sj_id waste_job = 1" by (simp_all add: prod_eq_iff)
  have "unat (wk_retry_cap_seconds (sample_worker remove_blob)) < 2 ^ 31" by (simp add: sample_worker_def)
  from reported_outcomes_hold [OF run this] run i show ?thesis by auto
qed

text \<open>
  C38: The retry delay is exponential backoff with bounded jitter, in 64-bit arithmetic that
  never wraps: with \<open>b\<close> the base doubled once per earlier attempt, at most 31 times, and cut at
  the cap, the delay lies between \<open>b\<close> and \<open>b + b / 4\<close>, and never exceeds the cap.
\<close>

theorem retry_delay_is_bounded_backoff:
  assumes "base \<noteq> 0" and "base \<le> cap"
  shows "\<exists>delay. ComputeRetryDelaySeconds job_id attempts base cap = Inr delay \<and>
    (let b = min (unat base * 2 ^ min (unat attempts - 1) 31) (unat cap) in
     b \<le> unat delay \<and> unat delay \<le> min (b + b div 4) (unat cap))"
  using ComputeRetryDelay_defined [OF assms] ComputeRetryDelay_bounds unfolding backoff_def by meson

theorem retry_delay_is_bounded_backoff_witness:
  "\<exists>delay. ComputeRetryDelaySeconds 7 3 5 3600 = Inr delay \<and> 20 \<le> unat delay \<and> unat delay \<le> 25"
  using retry_delay_is_bounded_backoff [of 5 3600 7 3] by (auto simp: Let_def)

section \<open>Audits\<close>

text \<open>
  C39: The audit of the quota columns finds nothing wrong: over a connection without faults a
  page of users comes back without a finding in every state of the invariant, whatever the
  other sessions do meanwhile; it covers the users behind the cursor up to the limit, and if
  there may be more, its cursor has advanced.
\<close>

theorem quota_audit_is_quiet:
  assumes "ValidateReconciliationPageRequest request = Inr ()" and "rp_scope request = ScopeUsers"
    and "mt_db_configured R" and "\<forall>n. \<not> fault E n" and "\<not> in_tx E" and "rp_after_id request < 2 ^ 63"
    and "db_inv (seen E s)" and "\<forall>u \<in> set (users (seen E s)). u_storage_used u < 2 ^ 63 \<and> u_storage_reserved u < 2 ^ 63"
  shows "\<exists>page s'. RunPage E R request s = (Inr (Inr page), s') \<and> pr_findings_recorded page = 0 \<and>
    pr_inspected page = min (rp_limit request) (length (filter (\<lambda>u. u_id u > rp_after_id request) (users (seen E s)))) \<and>
    (pr_has_more page \<longrightarrow> pr_next_after_id page > rp_after_id request)"
proof -
  let ?us = "users_after (rp_after_id request) (rp_limit request) (seen E s)"
  have cast: "to_int64 (int (rp_after_id request)) = int (rp_after_id request)"
    using assms(6) by (intro to_int64_id) simp_all
  have small: "\<forall>u \<in> set (users (seen E s)). u_storage_used u < 2 ^ 64 \<and> u_storage_reserved u < 2 ^ 64"
    using assms(8) by fastforce
  from RunUserPage_clean [OF _ assms(5,7) small, of request] assms(4) obtain page s' where
    run: "RunUserPage E request s = (Inr (Inr page), s')" and page: "pr_findings_recorded page = 0" "pr_inspected page = length ?us"
      "pr_has_more page \<longleftrightarrow> pr_inspected page = rp_limit request"
      "pr_inspected page > 0 \<longrightarrow> pr_next_after_id page = u_id (last ?us)"
    by auto
  have "rp_limit request > 0"
    using assms(1) by (auto simp: ValidateReconciliationPageRequest_def Let_def split: if_splits)
  then have "pr_next_after_id page > rp_after_id request" if "pr_has_more page"
  proof -
    have "?us \<noteq> []" using that page \<open>rp_limit request > 0\<close> by auto
    then have "last ?us \<in> set ?us" by simp
    with that page \<open>rp_limit request > 0\<close> show ?thesis
      using users_after_mem [of "last ?us" "rp_after_id request" "rp_limit request" "seen E s"] cast by simp
  qed
  moreover have "length ?us = min (rp_limit request) (length (filter (\<lambda>u. u_id u > rp_after_id request) (users (seen E s))))"
    unfolding users_after_def cast by simp
  moreover have "RunPage E R request s = (Inr (Inr page), s')"
    using assms(1-3) run by (simp add: RunPage_def catchM_def)
  ultimately show ?thesis using page by auto
qed

definition users_page :: ReconciliationPageRequest where
  "users_page = \<lparr>rp_scan_id = ''s-1'', rp_scope = ScopeUsers, rp_after_id = 0, rp_continuation_token = '''', rp_limit = 500\<rparr>"

lemma tree_moved_inv: "db_inv (sdb (snd tree_moved))"
proof -
  have "move_tx (\<lambda>ks. ks) (normalize_ids []) (normalize_ids [1]) 1 tx_client (start tree_db) = (fst tree_moved, snd tree_moved)"
    by (simp add: tree_moved_def)
  then have "commits (sdb (start tree_db)) (sdb (snd tree_moved))"
    unfolding tree_moved_runs by (rule move_to_trash) (simp add: tx_client_def)
  from commits_inv [OF this] tree_db_inv show ?thesis by (simp add: start_def)
qed

theorem quota_audit_is_quiet_witness:
  "\<exists>page s'. RunPage quiet (sample_maintenance (\<lambda>_ w. (Inr (), w))) users_page (start (sdb (snd tree_moved))) = (Inr (Inr page), s') \<and>
     pr_findings_recorded page = 0 \<and> pr_inspected page = 1"
proof -
  let ?d = "sdb (snd tree_moved)"
  have seen: "seen quiet (start ?d) = ?d" by (simp add: seen_def quiet_def start_def)
  have v: "ValidateReconciliationPageRequest users_page = Inr ()" by code_simp
  have "list_all (\<lambda>u. u_storage_used u < 2 ^ 63 \<and> u_storage_reserved u < 2 ^ 63) (users ?d)"
    "length (filter (\<lambda>u. u_id u > rp_after_id users_page) (users ?d)) = 1"
    by code_simp+
  moreover have "rp_scope users_page = ScopeUsers" "rp_after_id users_page < 2 ^ 63" "rp_limit users_page = 500"
    by (simp_all add: users_page_def)
  moreover have "mt_db_configured (sample_maintenance (\<lambda>_ w. (Inr (), w)) :: unit maintenance)" "\<forall>n. \<not> fault quiet n" "\<not> in_tx quiet"
    by (simp_all add: sample_maintenance_def quiet_def)
  ultimately show ?thesis
    using quota_audit_is_quiet [OF v, of "sample_maintenance (\<lambda>_ w. (Inr (), w))" quiet "start ?d"] tree_moved_inv
    unfolding seen by (auto simp: list_all_iff)
qed




end
