(* ===== verification/Folder_Forest.thy ===== *)
theory Folder_Forest
  imports Upload_System
begin

text \<open>
  The folders of a user form a forest.  A folder may name a parent that is gone, but following
  parents never returns to where it started.  Every action keeps it so: new folders have no
  children yet, removed folders leave fewer edges, and a move is refused when the target lies
  below the moved folder.  On a forest the recursive queries and the recursion that builds the
  folder tree come to an end.
\<close>

section \<open>Places and edges\<close>

type_synonym place = "nat \<times> nat \<times> nat"

definition place :: "folder_row \<Rightarrow> place" where
  "place r = (d_id r, d_user_id r, d_parent_id r)"

definition edges :: "place set \<Rightarrow> (nat \<times> nat) set" where
  "edges P = {(i, p). \<exists>u q. (i, u, p) \<in> P \<and> (p, u, q) \<in> P}"

definition is_forest :: "place set \<Rightarrow> nat \<Rightarrow> bool" where
  "is_forest P n \<longleftrightarrow> acyclic (edges P) \<and> (\<forall>(i, u, p) \<in> P. i \<le> n \<and> p \<le> n)"

definition forest :: "'w db \<Rightarrow> bool" where
  "forest d \<longleftrightarrow> is_forest (place ` set (folders d)) (seq_folders d)"

lemma edges_mono: "P \<subseteq> Q \<Longrightarrow> edges P \<subseteq> edges Q"
  unfolding edges_def by blast

lemma is_forest_subset: "is_forest Q n \<Longrightarrow> P \<subseteq> Q \<Longrightarrow> is_forest P n"
  unfolding is_forest_def using acyclic_subset [OF _ edges_mono] by blast

lemma rtrancl_stuck: "(x, y) \<in> r\<^sup>* \<Longrightarrow> x \<notin> Domain r \<Longrightarrow> y = x"
  by (erule converse_rtranclE) auto

text \<open>A new folder has a new identifier, so it is nobody's parent.\<close>

lemma is_forest_insert:
  assumes "is_forest P n" and "p \<le> n"
  shows "is_forest (insert (Suc n, u, p) P) (Suc n)"
proof -
  let ?e = "edges P"
  have ids: "i \<le> n" "q \<le> n" if "(i, w, q) \<in> P" for i w q
    using assms(1) that by (auto simp: is_forest_def)
  have sub: "edges (insert (Suc n, u, p) P) \<subseteq> insert (Suc n, p) ?e"
    using assms(2) by (fastforce simp: edges_def dest: ids)
  have "(p, Suc n) \<notin> ?e\<^sup>*"
  proof
    assume "(p, Suc n) \<in> ?e\<^sup>*"
    with assms(2) obtain z where "(z, Suc n) \<in> ?e" by (auto elim: rtranclE)
    then show False by (fastforce simp: edges_def dest: ids)
  qed
  moreover have "acyclic ?e" using assms(1) by (simp add: is_forest_def)
  ultimately have "acyclic (insert (Suc n, p) ?e)" by (simp add: acyclic_insert)
  with sub have "acyclic (edges (insert (Suc n, u, p) P))" by (rule acyclic_subset [rotated])
  with assms(2) ids show ?thesis unfolding is_forest_def by (auto intro: le_SucI)
qed

text \<open>Hanging a folder below a target that does not lie below it.\<close>

definition reparent :: "nat \<Rightarrow> nat \<Rightarrow> nat \<Rightarrow> place \<Rightarrow> place" where
  "reparent a uid t = (\<lambda>(i, u, p). if i = a \<and> u = uid then (i, u, t) else (i, u, p))"

lemma reparent_idem [simp]: "reparent a uid t (reparent a uid t x) = reparent a uid t x"
  by (simp add: reparent_def split: prod.splits)

lemma edges_reparent:
  assumes "(x, y) \<in> edges (reparent a uid t ` P)"
  shows "(x, y) \<in> edges P \<or> x = a \<and> y = t"
  using assms by (fastforce simp: edges_def reparent_def split: if_splits prod.splits)

lemma reach_reparent:
  assumes "(t, a) \<notin> (edges P)\<^sup>*" and "(t, y) \<in> (edges (reparent a uid t ` P))\<^sup>*"
  shows "(t, y) \<in> (edges P)\<^sup>*"
  using assms(2)
proof (induction rule: rtrancl_induct)
  case (step y z)
  with assms(1) have "y \<noteq> a" by blast
  with edges_reparent [OF step(2)] have "(y, z) \<in> edges P" by blast
  with step(3) show ?case by (rule rtrancl_into_rtrancl)
qed simp

lemma is_forest_reparent:
  assumes "is_forest P n" and "(t, a) \<notin> (edges P)\<^sup>*" and "t \<le> n"
  shows "is_forest (reparent a uid t ` P) n"
proof -
  have "acyclic (insert (a, t) (edges P))"
    using assms(1,2) by (simp add: is_forest_def acyclic_insert)
  moreover have "edges (reparent a uid t ` P) \<subseteq> insert (a, t) (edges P)"
    by (auto dest: edges_reparent)
  ultimately have "acyclic (edges (reparent a uid t ` P))" by (rule acyclic_subset)
  moreover have "i \<le> n \<and> p \<le> n" if "(i, u, p) \<in> reparent a uid t ` P" for i u p
    using that assms(1,3) by (auto simp: is_forest_def reparent_def split: if_splits)
  ultimately show ?thesis unfolding is_forest_def by blast
qed

section \<open>Changes that do not touch the places\<close>

definition same_places :: "place set \<Rightarrow> nat \<Rightarrow> 'w db \<Rightarrow> bool" where
  "same_places P n d \<longleftrightarrow> place ` set (folders d) = P \<and> seq_folders d = n"

lemma place_ident: "place r = (case folder_ident r of (i, u, p, _) \<Rightarrow> (i, u, p))"
  by (simp add: place_def folder_ident_def)

lemma places_of_idents:
  assumes "map folder_ident ds = map folder_ident ds'"
  shows "place ` set ds = place ` set ds'"
proof -
  have "place ` set xs = (\<lambda>(i, u, p, _). (i, u, p)) ` set (map folder_ident xs)" for xs
    by (auto simp: place_ident image_image)
  then show ?thesis using assms by metis
qed

lemma places_update:
  assumes "\<And>r. place (upd r) = place r"
  shows "place ` set (update_where p upd ds) = place ` set ds"
proof -
  have "map place (update_where p upd ds) = map place ds" by (simp add: update_where_def assms)
  then show ?thesis by (metis list.set_map)
qed

lemma counted_places: "place ` set (update_where p (\<lambda>r. r\<lparr>d_item_count := g r\<rparr>) ds) = place ` set ds"
  by (rule places_update) (simp add: place_def)

lemma keeps_same_places_folder:
  assumes "in_tx T" and "\<And>r. place (upd r) = place r"
  shows "keeps (same_places P n) (exec T (update_folder i uid upd))"
  by (rule keeps_tx_exec [OF assms(1)])
     (auto simp: update_folder_def same_places_def places_update assms(2) split: if_splits)

lemma keeps_same_places_file: "in_tx T \<Longrightarrow> keeps (same_places P n) (exec T (update_file i uid upd))"
  by (rule keeps_tx_exec) (auto simp: update_file_def same_places_def split: if_splits)

lemma keeps_same_places:
  assumes "in_tx T"
  shows "keeps (same_places P n) (ApplyItemCountDelta T i uid k)"
    "keeps (same_places P n) (UpdateFilePath T i uid p)" "keeps (same_places P n) (UpdateFileLocation T i uid k' p)"
    "keeps (same_places P n) (RenameOwnedFile T i uid nm e p)" "keeps (same_places P n) (UpdateFolderPath T i uid p)"
    "keeps (same_places P n) (UpdateFolderPathForMove T i uid p k)" "keeps (same_places P n) (RenameFolderPath T i uid nm p)"
proof -
  show "keeps (same_places P n) (ApplyItemCountDelta T i uid k)"
    unfolding ApplyItemCountDelta_def
    by (rule keeps_tx_exec [OF assms]) (auto simp: same_places_def counted_places)
qed (unfold UpdateFilePath_def UpdateFileLocation_def RenameOwnedFile_def UpdateFolderPath_def UpdateFolderPathForMove_def
    RenameFolderPath_def, (rule keeps_same_places_file keeps_same_places_folder, rule assms, simp add: place_def |
    rule keeps_same_places_file, rule assms)+)

lemma keeps_places_repath: "in_tx T \<Longrightarrow> keeps (same_places P n) (repath_files T uid err ps fs)"
  by (induction fs) (auto intro!: keeps_intros keeps_same_places split: option.split)

lemma keeps_places_rename_subtree: "in_tx T \<Longrightarrow> keeps (same_places P n) (rename_subtree T uid i nm np op rs)"
  by (induction rs) (auto intro!: keeps_intros keeps_same_places)

lemma keeps_places_renames:
  assumes "in_tx T"
  shows "keeps (same_places P n) (rename_folder_tx i nm uid T)" "keeps (same_places P n) (rename_file_tx i nm uid T)"
  unfolding rename_folder_tx_def rename_file_tx_def Let_def
  by (intro keeps_intros keeps_drive_reads keeps_same_places keeps_places_rename_subtree keeps_places_repath assms)+

lemma keeps_places_move_files: "in_tx T \<Longrightarrow> keeps (same_places P n) (move_files T uid t loc fetched ids occ ds k)"
  by (induction ids arbitrary: occ ds k)
     (auto intro!: keeps_intros keeps_same_places simp: Let_def split: option.split)

lemma keeps_places_deltas: "in_tx T \<Longrightarrow> keeps (same_places P n) (apply_move_deltas T uid ds)"
  by (induction T uid ds rule: apply_move_deltas.induct) (auto intro!: keeps_intros keeps_same_places)

lemma keeps_places_batches: "in_tx T \<Longrightarrow> keeps (same_places P n) (move_file_batches ord T uid t loc fetched cs k)"
  by (induction cs arbitrary: k)
     (auto intro!: keeps_intros keeps_drive_reads keeps_places_move_files keeps_places_deltas split: prod.split)

lemma keeps_places_all_files: "in_tx T \<Longrightarrow> keeps (same_places P n) (move_all_files ord T uid t loc ids)"
  unfolding move_all_files_def
  by (intro keeps_intros keeps_drive_reads keeps_lock_names keeps_places_batches)

lemma keeps_places_count_moved: "in_tx T \<Longrightarrow> keeps (same_places P n) (count_moved T uid i k)"
  unfolding count_moved_def by (intro keeps_intros keeps_same_places)

section \<open>Moving\<close>

text \<open>While a folder is moved its row has its old parent or the new one.\<close>

definition moving :: "nat \<Rightarrow> nat \<Rightarrow> nat \<Rightarrow> place set \<Rightarrow> nat \<Rightarrow> 'w db \<Rightarrow> bool" where
  "moving a uid t P n d \<longleftrightarrow> same_places P n d \<or> same_places (reparent a uid t ` P) n d"

lemma keeps_moving: "(\<And>Q. keeps (same_places Q n) m) \<Longrightarrow> keeps (moving a uid t P n) m"
  unfolding keeps_def moving_def by blast

lemma place_relocated: "place (r\<lparr>d_parent_id := t, d_path := p, d_depth := k\<rparr>) = (d_id r, d_user_id r, t)"
  by (simp add: place_def)

lemma places_relocate:
  "place ` set (update_where (owned_folder a uid) (\<lambda>r. r\<lparr>d_parent_id := t, d_path := p, d_depth := g r\<rparr>) ds) =
   reparent a uid t ` place ` set ds"
proof -
  have "map place (update_where (owned_folder a uid) (\<lambda>r. r\<lparr>d_parent_id := t, d_path := p, d_depth := g r\<rparr>) ds) =
      map (reparent a uid t) (map place ds)"
    by (simp add: update_where_def reparent_def owned_folder_def place_def)
  then have "set (map place (update_where (owned_folder a uid) (\<lambda>r. r\<lparr>d_parent_id := t, d_path := p, d_depth := g r\<rparr>) ds)) =
      set (map (reparent a uid t) (map place ds))" by (rule arg_cong)
  then show ?thesis unfolding list.set_map .
qed

lemma reparent_image_idem: "reparent a uid t ` reparent a uid t ` P = reparent a uid t ` P"
  by (simp add: image_image)


lemma keeps_moving_relocate: "in_tx T \<Longrightarrow> keeps (moving a uid t P n) (UpdateFolderLocationForMove T a uid t p k)"
  unfolding UpdateFolderLocationForMove_def
proof (rule keeps_tx_exec)
  fix d d' :: "'a db" and v
  let ?upd = "\<lambda>r. r\<lparr>d_parent_id := t, d_path := p, d_depth := shift_depth k r\<rparr>"
  assume "moving a uid t P n d" and "update_folder a uid ?upd d = (Inr v, d')"
  then have "d' = d\<lparr>folders := update_where (owned_folder a uid) ?upd (folders d)\<rparr>"
    and "place ` set (folders d) = P \<or> place ` set (folders d) = reparent a uid t ` P" "seq_folders d = n"
    by (auto simp: update_folder_def moving_def same_places_def split: if_splits)
  then have F: "folders d' = update_where (owned_folder a uid) ?upd (folders d)" and n: "seq_folders d' = n"
    and "place ` set (folders d) = P \<or> place ` set (folders d) = reparent a uid t ` P" by simp_all
  from this(3) have P: "reparent a uid t ` place ` set (folders d) = reparent a uid t ` P"
    by (elim disjE) (simp_all only: reparent_image_idem)
  from F have "place ` set (folders d') = reparent a uid t ` place ` set (folders d)"
    by (simp only: places_relocate)
  from this P have "place ` set (folders d') = reparent a uid t ` P" by (rule trans)
  with n show "moving a uid t P n d'" by (simp only: moving_def same_places_def simp_thms)
qed

lemma keeps_moving_subtree: "in_tx T \<Longrightarrow> keeps (moving a uid t P n) (move_subtree T uid t a np op k rs)"
proof (induction rs)
  case (Cons r rs)
  have "keeps (moving a uid t P n) (if d_id r = a then UpdateFolderLocationForMove T (d_id r) uid t p k
      else UpdateFolderPathForMove T (d_id r) uid p k)" for p
    using Cons.prems by (auto intro: keeps_moving_relocate keeps_moving keeps_same_places)
  with Cons show ?case by (simp add: keeps_intros)
qed (simp add: keeps_intros)

lemma keeps_moving_folder: "in_tx T \<Longrightarrow> keeps (moving (d_id (pl_root p)) uid t P n) (move_folder T uid t loc p)"
  unfolding move_folder_def Let_def
  by (intro keeps_intros keeps_moving_subtree keeps_moving [OF keeps_places_repath] keeps_moving [OF keeps_places_count_moved])

text \<open>The last step counts the new item in the target, which therefore exists.\<close>

lemma move_folder_target:
  assumes "move_folder T uid t loc p s = (Inr (Inr u), s')" and "in_tx T"
  shows "t = 0 \<or> t \<in> d_id ` set (folders (sdb s'))"
proof (cases "t = 0")
  case False
  with assms(1) obtain s1 s2 where "ApplyItemCountDelta T t uid 1 s1 = (Inr True, s')"
    by (auto simp: move_folder_def count_moved_def Let_def elim!: bindR_okE bindM_okE split: if_splits)
  with assms(2) have "affected (owned_folder t uid) (folders (sdb s1)) > 0"
    and "folders (sdb s') = counted t uid 1 (folders (sdb s1))"
    by (auto simp: ApplyItemCountDelta_def counted_def dest!: sym [of _ "sdb s'"] elim!: exec_okE)
  then obtain r where "r \<in> set (folders (sdb s1))" "d_id r = t" "map d_id (folders (sdb s')) = map d_id (folders (sdb s1))"
    by (auto simp: affected_def owned_folder_def counted_def update_where_def filter_empty_conv)
  then show ?thesis by (metis imageI list.set_map)
qed simp

lemma move_folder_forest:
  assumes "move_folder T uid t loc p s = (Inr (Inr u), s')" and "in_tx T" and "forest (sdb s)"
    and apart: "(t, d_id (pl_root p)) \<notin> (edges (place ` set (folders (sdb s))))\<^sup>*"
  shows "forest (sdb s') \<and> (\<forall>y. (t, y) \<in> (edges (place ` set (folders (sdb s'))))\<^sup>* \<longrightarrow>
           (t, y) \<in> (edges (place ` set (folders (sdb s))))\<^sup>*)"
proof -
  let ?P = "place ` set (folders (sdb s))" and ?a = "d_id (pl_root p)" and ?n = "seq_folders (sdb s)"
  have "moving ?a uid t ?P ?n (sdb s)" by (simp add: moving_def same_places_def)
  from keepsD' [OF keeps_moving_folder [OF assms(2)] this assms(1)] have
    now: "place ` set (folders (sdb s')) = ?P \<or> place ` set (folders (sdb s')) = reparent ?a uid t ` ?P"
    and n: "seq_folders (sdb s') = ?n"
    unfolding moving_def same_places_def by blast+
  have ids: "d_id ` set (folders (sdb s')) = d_id ` set (folders (sdb s))"
  proof -
    have "d_id ` set ds = fst ` place ` set ds" for ds by (simp add: image_image place_def)
    moreover have "fst (reparent ?a uid t x) = fst x" for x
      by (simp add: reparent_def split: prod.split)
    then have "fst ` reparent ?a uid t ` ?P = fst ` ?P" by (simp add: image_image)
    ultimately show ?thesis using now by metis
  qed
  have "t \<le> ?n"
    using move_folder_target [OF assms(1,2)] assms(3) unfolding ids
    by (force simp: forest_def is_forest_def place_def)
  with assms(3) apart have "is_forest (reparent ?a uid t ` ?P) ?n"
    unfolding forest_def by (intro is_forest_reparent)
  with n assms(3) reach_reparent [OF apart] show ?thesis
    using now unfolding forest_def n by (elim disjE) (simp_all only:, blast+)
qed

text \<open>A target at or above which the root of a plan lies is a folder of the plan.\<close>

lemma reached_below:
  assumes "(t, k) \<in> (edges (place ` set ds))\<^sup>*" and dist: "distinct (map d_id ds)"
    and "q \<in> set ds" "d_id q = k" "d_user_id q = uid"
  shows "\<exists>r. d_id r = t \<and> below ds uid k r"
  using assms(1)
proof (induction rule: converse_rtrancl_induct)
  case base
  with assms(3-5) show ?case by (metis below.itself)
next
  case (step y z)
  then obtain r where r: "d_id r = z" "below ds uid k r" by blast
  from step(1) obtain f g where f: "f \<in> set ds" "d_id f = y" "d_parent_id f = z"
    and g: "g \<in> set ds" "d_id g = z" "d_user_id g = d_user_id f"
    by (auto simp: edges_def place_def)
  have "g = r" using below_row [OF r(2)] r(1) g(1,2) dist by (metis distinct_map inj_onD)
  with f g r below_row [OF r(2)] have "below ds uid k f" by (intro below.child [OF r(2)]) auto
  with f(2) show ?case by blast
qed

definition clear_of :: "nat \<Rightarrow> plans \<Rightarrow> 'w db \<Rightarrow> bool" where
  "clear_of t plans d \<longleftrightarrow> (\<forall>k p. map_of plans k = Some p \<longrightarrow> t \<notin> set (plan_folder_ids p) \<longrightarrow>
     (t, d_id (pl_root p)) \<notin> (edges (place ` set (folders d)))\<^sup>*)"

lemma below_below:
  "below ds uid j r \<Longrightarrow> below ds uid k q \<Longrightarrow> d_id q = j \<Longrightarrow> distinct (map d_id ds) \<Longrightarrow> below ds uid k r"
proof (induction rule: below.induct)
  case (itself r)
  then have "r = q" using below_row [OF itself(3)] by (metis distinct_map inj_onD)
  with itself(3) show ?case by simp
qed (blast intro: below.child)

text \<open>A tagged row of the query is found under the identifier of its root, hence the first row of a plan is its root.\<close>

lemma plan_apart:
  assumes cover: "plans_cover ps ids uid d" and dist: "distinct (map d_id (folders d))"
    and p: "map_of ps k = Some p" and out: "t \<notin> set (plan_folder_ids p)"
  shows "(t, d_id (pl_root p)) \<notin> (edges (place ` set (folders d)))\<^sup>*"
proof
  assume reach: "(t, d_id (pl_root p)) \<in> (edges (place ` set (folders d)))\<^sup>*"
  have root: "pl_root p \<in> set (plan_rows ps k)"
    using cover p by (auto simp: plans_cover_def plan_ok_def plan_rows_def)
  then have b: "below (folders d) uid k (pl_root p)" and k: "k \<in> set ids"
    using cover by (auto simp: plans_cover_def)
  from reached_below [OF reach dist] below_row [OF b] obtain r where
    r: "d_id r = t" "below (folders d) uid (d_id (pl_root p)) r" by blast
  have "below (folders d) uid k r" by (rule below_below [OF r(2) b refl dist])
  with cover k have "r \<in> set (plan_rows ps k)" by (auto simp: plans_cover_def)
  with r(1) p out show False by (auto simp: plan_rows_def plan_folder_ids_def)
qed

lemma move_folders_forest:
  "move_folders T uid t loc plans ids occ n s = (Inr (Inr m), s') \<Longrightarrow> in_tx T \<Longrightarrow> forest (sdb s) \<Longrightarrow>
   clear_of t plans (sdb s) \<Longrightarrow> forest (sdb s')"
proof (induction ids arbitrary: occ n s)
  case (Cons i ids)
  show ?case
  proof (cases "map_of plans i")
    case (Some p)
    consider (skip) occ' n' where "move_folders T uid t loc plans ids occ' n' s = (Inr (Inr m), s')"
      | (moved) s1 occ' n' where "move_folder T uid t loc p s = (Inr (Inr ()), s1)" "t \<notin> set (plan_folder_ids p)"
          "move_folders T uid t loc plans ids occ' n' s1 = (Inr (Inr m), s')"
      using Cons.prems(1) Some by (auto elim!: bindR_okE split: if_splits)
    then show ?thesis
    proof cases
      case skip
      with Cons show ?thesis by blast
    next
      case (moved s1)
      have "(t, d_id (pl_root p)) \<notin> (edges (place ` set (folders (sdb s))))\<^sup>*"
        using Cons.prems(4) Some moved(2) by (auto simp: clear_of_def)
      from move_folder_forest [OF moved(1) Cons.prems(2,3) this] Cons.prems(4) have "forest (sdb s1)" "clear_of t plans (sdb s1)"
        by (auto simp: clear_of_def)
      with Cons.IH [OF moved(3) Cons.prems(2)] show ?thesis by blast
    qed
  qed (use Cons in simp)
qed simp

lemma keeps_db_reads:
  assumes "m s = (r, s')" and "keeps (\<lambda>d. d = sdb s) m"
  shows "sdb s' = sdb s"
  using keepsD' [OF assms(2) refl assms(1)] .

lemma forest_same_places: "forest d \<Longrightarrow> same_places (place ` set (folders d)) (seq_folders d) d' \<Longrightarrow> forest d'"
  by (simp add: forest_def same_places_def)

lemma forest_keeps:
  assumes "\<And>P n. keeps (same_places P n) m" and "m s = (r, s')" and "forest (sdb s)"
  shows "forest (sdb s')"
  by (rule forest_same_places [OF assms(3)], rule keepsD' [OF assms(1) _ assms(2)]) (simp add: same_places_def)

lemma move_items_tx_forest:
  assumes run: "move_items_tx ord fs ds t loc uid T s = (Inr (Inr m), s')" and tx: "in_tx T" and inv: "db_inv (sdb s)"
    and "forest (sdb s)"
  shows "forest (sdb s')"
proof -
  from run obtain mf s1 u s2 ps s3 nm v s4 occ s5 mm where
    a: "move_all_files ord T uid t loc fs s = (Inr (Inr mf), s1)" and b: "lock_each T uid ds s1 = (Inr u, s2)"
    and c: "FetchBatchFolderDeletePlans ord T ds uid s2 = (Inr ps, s3)"
    and e: "lock_names (Folder_AcquireNameLock T uid t) nm s3 = (Inr v, s4)"
    and f: "QueryOccupiedFolderNames T t uid nm s4 = (Inr occ, s5)"
    and g: "move_folders T uid t loc ps (FilterCoveredFolderIds ds ps) occ 0 s5 = (Inr (Inr mm), s')"
    unfolding move_items_tx_def Let_def by (auto elim!: bindR_okE bindM_okE)
  have s1: "forest (sdb s1)" by (rule forest_keeps [OF keeps_places_all_files [OF tx] a assms(4)])
  have "db_inv (sdb s1)"
    by (rule relocates_inv [OF inv], rule keepsD' [OF keeps_move_all_files [OF tx] relocates_refl [OF inv] a])
  then have dist: "distinct (map d_id (folders (sdb s1)))" by (simp add: db_inv_def folders_inv_def)
  have s2: "sdb s2 = sdb s1" by (rule keeps_db_reads [where m = "lock_each T uid ds", OF b]) (rule keeps_drive_reads [OF tx])
  note plans = fetch_plans_ok [OF c tx]
  have s4: "sdb s4 = sdb s3" by (rule keeps_db_reads [where m = "lock_names (Folder_AcquireNameLock T uid t) nm", OF e]) (rule keeps_lock_names, rule keeps_drive_reads [OF tx])
  have s5: "sdb s5 = sdb s4" by (rule keeps_db_reads [where m = "QueryOccupiedFolderNames T t uid nm", OF f]) (rule keeps_drive_reads [OF tx])
  have "plans_cover ps ds uid (sdb s1)" using plans plans_of_cover [of ds "sdb s1" uid ord] s2 by simp
  then have "clear_of t ps (sdb s1)" unfolding clear_of_def by (blast dest: plan_apart [OF _ dist])
  with s1 plans s2 s4 s5 show ?thesis by (intro move_folders_forest [OF g tx]) simp_all
qed

section \<open>New folders\<close>

lemma forest_insert:
  assumes "forest d" and "d_parent_id q \<le> seq_folders d" and "d_id q = Suc (seq_folders d)"
  shows "forest (d\<lparr>folders := folders d @ [q], seq_folders := Suc (seq_folders d)\<rparr>)"
proof -
  have "is_forest (insert (Suc (seq_folders d), d_user_id q, d_parent_id q) (place ` set (folders d))) (Suc (seq_folders d))"
    using assms(1,2) unfolding forest_def by (rule is_forest_insert)
  moreover have "place q = (Suc (seq_folders d), d_user_id q, d_parent_id q)" by (simp add: place_def assms(3))
  ultimately show ?thesis by (simp add: forest_def)
qed

lemma forest_ids: "forest d \<Longrightarrow> r \<in> set (folders d) \<Longrightarrow> d_id r \<le> seq_folders d"
  by (auto simp: forest_def is_forest_def place_def)

lemma create_folder_tx_forest:
  assumes run: "create_folder_tx request uid T s = (Inr (Inr r), s')" and tx: "in_tx T" and "forest (sdb s)"
  shows "forest (sdb s')"
proof -
  let ?p = "cf_parent_id request"
  from run obtain u s1 loc s2 q where
    lock: "Folder_AcquireNameLock T uid ?p (cf_name request) s = (Inr u, s1)"
    and parent: "(if ?p > 0 then bindM (ApplyItemCountDelta T ?p uid 1) (\<lambda>parent_updated.
                if \<not> parent_updated then failR (ErrorInfo1 FolderNotFound)
                else bindM (FindOwnedFolder T ?p uid) (\<lambda>parent.
                  case parent of
                    None \<Rightarrow> failR (ErrorInfo1 FolderNotFound)
                  | Some p \<Rightarrow> okR \<lparr>loc_path = d_path p, loc_depth = d_depth p\<rparr>))
         else okR \<lparr>loc_path = ''/'', loc_depth = 0\<rparr>) s1 = (Inr (Inr loc), s2)"
    and ins: "InsertIfNameAvailable T q s2 = (Inr (Some r), s')" and q: "d_parent_id q = ?p"
    unfolding create_folder_tx_def Let_def by (fastforce elim!: bindR_okE bindM_okE split: option.splits)
  have "sdb s1 = sdb s"
    by (rule keeps_db_reads [where m = "Folder_AcquireNameLock T uid ?p (cf_name request)", OF lock]) (rule keeps_drive_reads [OF tx])
  with assms(3) have s1: "forest (sdb s1)" by simp
  have s2: "forest (sdb s2)"
    by (rule forest_keeps [where m = "if ?p > 0 then _ else _", OF _ parent s1])
       (intro keeps_intros keeps_same_places keeps_drive_reads tx)
  have "?p = 0 \<or> ?p \<in> d_id ` set (folders (sdb s2))"
    using parent tx by (force simp: FindOwnedFolder_def owned_folder_def elim!: bindM_okE dest!: pure_ok find_row_Some
        split: if_splits option.splits)
  with forest_ids [OF s2] have "d_parent_id q \<le> seq_folders (sdb s2)" by (auto simp: q)
  with ins tx forest_insert [OF s2, of "q\<lparr>d_id := Suc (seq_folders (sdb s2))\<rparr>"] show ?thesis
    unfolding InsertIfNameAvailable_def by (auto simp: insert_if_available_def Let_def elim!: exec_okE split: if_splits)
qed

text \<open>Folders created from a snapshot hang below folders created before.\<close>

definition tracked :: "created \<Rightarrow> 'w db \<Rightarrow> bool" where
  "tracked m d \<longleftrightarrow> (\<forall>(k, i, p) \<in> set m. i \<le> seq_folders d)"

lemma restore_pass_forest:
  "restore_pass T uid rd fd xs m s = (Inr (m', rest), s') \<Longrightarrow> in_tx T \<Longrightarrow> forest (sdb s) \<Longrightarrow> tracked m (sdb s) \<Longrightarrow>
   forest (sdb s') \<and> tracked m' (sdb s')"
proof (induction xs arbitrary: m s m' rest)
  case (Cons x xs)
  show ?case
  proof (cases "map_of m (sf_parent_id x)")
    case None
    with Cons.prems(1) obtain rest' where "restore_pass T uid rd fd xs m s = (Inr (m', rest'), s')"
      by (auto elim!: bindM_okE simp: retM_def)
    with Cons.IH [of m s m' rest'] Cons.prems(2-) show ?thesis by simp
  next
    case (Some pp)
    obtain pid ppath where pp: "pp = (pid, ppath)" by (cases pp)
    with Some Cons.prems(1) obtain r q s1 where ins: "exec T (insert_folder_stmt r) s = (Inr q, s1)" and "d_parent_id r = pid"
      and rest: "restore_pass T uid rd fd xs ((sf_id x, d_id q, ppath @ sf_name x @ ''/'') # m) s1 = (Inr (m', rest), s')"
      by (fastforce elim!: bindM_okE simp: Let_def)
    moreover have "pid \<le> seq_folders (sdb s)"
      using Cons.prems(4) map_of_SomeD [OF Some [unfolded pp]] by (auto simp: tracked_def)
    ultimately have "forest (sdb s1)" "tracked ((sf_id x, d_id q, ppath @ sf_name x @ ''/'') # m) (sdb s1)"
      using insert_folder_ok [OF ins Cons.prems(2)] forest_insert [OF Cons.prems(3), of q] Cons.prems(4)
      by (auto simp: tracked_def)
    with Cons.IH [OF rest Cons.prems(2)] show ?thesis by simp
  qed
qed (simp add: retM_def)

lemma restore_rounds_forest:
  "restore_rounds n T uid rd fd xs m s = (Inr (Inr m'), s') \<Longrightarrow> in_tx T \<Longrightarrow> forest (sdb s) \<Longrightarrow> tracked m (sdb s) \<Longrightarrow>
   forest (sdb s')"
proof (induction n arbitrary: xs m s)
  case (Suc n)
  show ?case
  proof (cases "xs = []")
    case False
    with Suc.prems(1) obtain m1 rest s1 where pass: "restore_pass T uid rd fd xs m s = (Inr (m1, rest), s1)"
      and next_round: "restore_rounds n T uid rd fd rest m1 s1 = (Inr (Inr m'), s')"
      by (subst (asm) restore_rounds.simps) (auto elim!: bindM_okE split: if_splits)
    from restore_pass_forest [OF pass Suc.prems(2-)] Suc.IH [OF next_round Suc.prems(2)] show ?thesis by simp
  qed (use Suc.prems in simp)
qed (simp add: throwM_def split: if_splits)

lemma keeps_places_restore_files: "in_tx T \<Longrightarrow> keeps (same_places P n) (restore_files T uid m xs)"
proof (induction xs)
  case (Cons x xs)
  have "keeps (same_places P n) (exec T (insert_file_stmt f))" for f
    by (rule keeps_tx_exec [OF Cons.prems]) (auto simp: insert_file_stmt_def same_places_def Let_def split: if_splits)
  with Cons show ?case by (auto intro!: keeps_intros split: option.split)
qed (simp add: keeps_intros)

lemma restore_tree_forest:
  assumes run: "restore_tree T uid snap rid path fd s = (Inr (Inr u), s')" and tx: "in_tx T" and "forest (sdb s)"
    and "rid \<le> seq_folders (sdb s)"
  shows "forest (sdb s')"
proof (cases snap)
  case (Some t)
  with run obtain m s1 where rounds: "restore_rounds (length (sn_folders t)) T uid (sf_depth (sn_root t)) fd (sn_folders t)
      [(sf_id (sn_root t), rid, path)] s = (Inr (Inr m), s1)"
    and fil: "restore_files T uid m (sn_files t) s1 = (Inr (Inr u), s')"
    by (auto simp: restore_tree_def simp del: restore_rounds.simps elim!: bindR_okE)
  have "forest (sdb s1)"
    by (rule restore_rounds_forest [OF rounds tx assms(3)]) (simp add: tracked_def assms(4))
  then show ?thesis by (rule forest_keeps [OF keeps_places_restore_files [OF tx] fil])
qed (use run assms(3) in \<open>simp add: restore_tree_def\<close>)

lemma forest_idents:
  "forest d \<Longrightarrow> map folder_ident (folders d') = map folder_ident (folders d) \<Longrightarrow> seq_folders d' = seq_folders d \<Longrightarrow> forest d'"
  using places_of_idents [of "folders d'" "folders d"] by (simp add: forest_def)

lemma restore_folder_tx_forest:
  assumes run: "restore_folder_tx i uid k T s = (Inr (Inr v), s')" and tx: "in_tx T" and "forest (sdb s)"
  shows "forest (sdb s')"
proof -
  obtain item snap target loc s3 r q s4 u s5 path fd where d3: "sdb s3 = sdb s"
    and target: "target = 0 \<or> (\<exists>r \<in> set (folders (sdb s)). owned_folder target uid r \<and> loc = \<lparr>loc_path = d_path r, loc_depth = d_depth r\<rparr>)"
    and ins: "exec T (insert_folder_stmt r) s3 = (Inr q, s4)" and r: "d_parent_id r = target"
    and tree: "restore_tree T uid snap (d_id q) path fd s4 = (Inr (Inr u), s5)"
    and out: "leave_trash T (ErrorInfo2 InternalError ''Failed to restore folder'') target item uid ''folder''
               (d_id q, path) s5 = (Inr (Inr v), s')"
    by (rule restore_folder_tx_steps [OF run tx])
  have "target \<le> seq_folders (sdb s)"
    using target by (auto simp: owned_folder_def dest!: forest_ids [OF assms(3)])
  then have "forest (sdb s4)" "d_id q \<le> seq_folders (sdb s4)"
    using insert_folder_ok [OF ins tx] forest_insert [OF assms(3), of q] r d3 by simp_all
  then have "forest (sdb s5)" by (rule restore_tree_forest [OF tree tx])
  then show ?thesis
    using leave_trash_ok [OF out tx] by (auto intro: forest_idents)
qed

section \<open>Every action keeps the forest\<close>

lemma drive_forest:
  assumes "drive_commits s s'" and "db_inv (sdb s)" and "forest (sdb s)"
  shows "forest (sdb s')"
  using assms
proof (induction rule: drive_commits.induct)
  case (create_folder request uid T s r s')
  then show ?case by (blast intro: create_folder_tx_forest)
next
  case (rename_folder i nm uid T s p s')
  then show ?case using forest_keeps [OF keeps_places_renames(1) rename_folder(1)] by blast
next
  case (rename_file i nm uid T s k s')
  then show ?case using forest_keeps [OF keeps_places_renames(2) rename_file(1)] by blast
next
  case (move_items ord fs ds t loc uid T s m s')
  then show ?case by (blast intro: move_items_tx_forest)
qed

text \<open>Actions other than these leave the places of the folders alone, or remove some.\<close>

definition folders_shrink :: "'w db \<Rightarrow> 'w db \<Rightarrow> bool" where
  "folders_shrink d d' \<longleftrightarrow> place ` set (folders d') \<subseteq> place ` set (folders d) \<and> seq_folders d' = seq_folders d"

lemma folders_shrink_forest: "folders_shrink d d' \<Longrightarrow> forest d \<Longrightarrow> forest d'"
  unfolding folders_shrink_def forest_def using is_forest_subset by metis

lemma folders_shrink_same: "folders d' = folders d \<Longrightarrow> seq_folders d' = seq_folders d \<Longrightarrow> folders_shrink d d'"
  by (simp add: folders_shrink_def)

lemma folders_shrink_idents:
  "map folder_ident ds = map folder_ident (folders d) \<Longrightarrow> set (folders d') \<subseteq> set ds \<Longrightarrow> seq_folders d' = seq_folders d \<Longrightarrow>
   folders_shrink d d'"
  unfolding folders_shrink_def using places_of_idents [of ds "folders d"] by (metis image_mono)

lemma folders_frame:
  "claim_stmt u uid owner dur d = (x, d') \<Longrightarrow> folders d' = folders d \<and> seq_folders d' = seq_folders d"
  "renew_stmt u uid owner v dur d = (x, d') \<Longrightarrow> folders d' = folders d \<and> seq_folders d' = seq_folders d"
  "error_stmt u uid owner v code d = (b, d') \<Longrightarrow> folders d' = folders d \<and> seq_folders d' = seq_folders d"
  "record_chunk_stmt u uid ex d = (y, d') \<Longrightarrow> folders d' = folders d \<and> seq_folders d' = seq_folders d"
  "enqueue_stmt job d = (z, d') \<Longrightarrow> folders d' = folders d \<and> seq_folders d' = seq_folders d"
  "rearm_stmt job d = (z, d') \<Longrightarrow> folders d' = folders d \<and> seq_folders d' = seq_folders d"
  "exhaust_stmt d = (a, d') \<Longrightarrow> folders d' = folders d \<and> seq_folders d' = seq_folders d"
  "job_claim_stmt locked inst n dur d = (e, d') \<Longrightarrow> folders d' = folders d \<and> seq_folders d' = seq_folders d"
  "job_renew_stmt i inst dur d = (f, d') \<Longrightarrow> folders d' = folders d \<and> seq_folders d' = seq_folders d"
  "job_succeed_stmt i inst d = (g, d') \<Longrightarrow> folders d' = folders d \<and> seq_folders d' = seq_folders d"
  "job_fail_stmt i inst err retryable delay d = (l, d') \<Longrightarrow> folders d' = folders d \<and> seq_folders d' = seq_folders d"
  by (auto simp: claim_stmt_def renew_stmt_def error_stmt_def record_chunk_stmt_def enqueue_stmt_def insert_job_def
      rearm_stmt_def exhaust_stmt_def job_claim_stmt_def job_renew_stmt_def job_succeed_stmt_def job_fail_stmt_def
      Let_def split: if_splits option.splits)

lemma cancel_tx_folders: "cancel_tx u uid T s = (Inr (Inr x), s') \<Longrightarrow> in_tx T \<Longrightarrow> folders_shrink (sdb s) (sdb s')"
  by (frule (1) cancel_tx_ok) (auto simp: ended_def intro: folders_shrink_same)

lemma expire_tx_folders: "expire_tx u T s = (Inr (Inr x), s') \<Longrightarrow> in_tx T \<Longrightarrow> folders_shrink (sdb s) (sdb s')"
  by (frule (1) expire_tx_ok) (auto simp: ended_def intro: folders_shrink_same)

lemma create_task_tx_folders:
  "create_task_tx c t session T s = (Inr (Inr x), s') \<Longrightarrow> in_tx T \<Longrightarrow> folders_shrink (sdb s) (sdb s')"
  by (frule (1) create_task_tx_ok) (auto intro: folders_shrink_same split: sum.splits)

lemma instant_upload_tx_folders:
  "instant_upload_tx c m T s = (Inr (Inr f), s') \<Longrightarrow> in_tx T \<Longrightarrow> folders_shrink (sdb s) (sdb s')"
  by (frule (1) instant_upload_tx_ok) (auto simp: filed_def intro: folders_shrink_idents)

lemma complete_tx_folders:
  assumes "complete_tx cc v t session assembled path dec T s = (Inr (Inr f), s')" and "in_tx T" and "db_inv (sdb s)"
  shows "folders_shrink (sdb s) (sdb s')"
proof -
  have "contents_inv (file_contents (sdb s)) (seq_contents (sdb s)) (files (sdb s)) (trash (sdb s))"
    using assms(3) by (simp add: db_inv_def)
  from complete_tx_ok [OF assms(1,2) this] show ?thesis
    by (auto simp: Let_def completed_from_def renewed_def cleaned_up_def filed_def intro!: folders_shrink_idents)
qed

lemma move_tx_folders:
  assumes "move_tx ord rf rd uid T s = (Inr (Inr m), s')" and "in_tx T" and "db_inv (sdb s)"
  shows "folders_shrink (sdb s) (sdb s')"
proof -
  have "distinct (map f_id (files (sdb s)))" using assms(3) by (simp add: db_inv_def files_inv_def)
  then show ?thesis
    by (rule move_tx_ok [OF assms(1,2)]) (auto simp: moved_db_def intro: folders_shrink_idents)
qed

lemma restore_file_tx_folders:
  assumes "restore_file_tx i uid k T s = (Inr (Inr w), s')" and "in_tx T" and "db_inv (sdb s)"
  shows "folders_shrink (sdb s) (sdb s')"
proof -
  obtain fid path where w: "w = (fid, path)" by (cases w)
  have "distinct (map tr_id (trash (sdb s)))" using assms(3) by (simp add: db_inv_def trash_inv_def)
  then show ?thesis
    by (rule restore_file_tx_ok [OF assms(1) [unfolded w] assms(2)]) (auto intro!: folders_shrink_idents)
qed

lemma purge_tx_folders:
  assumes "purge_tx ord items rv T s = (Inr (True, p), s')" and "in_tx T" and "db_inv (sdb s)"
    and "holds_trash items (sdb s)" and "hash_order_ok ord"
  shows "folders_shrink (sdb s) (sdb s')"
proof -
  have "distinct (map tr_id (trash (sdb s)))" using assms(3) by (simp add: db_inv_def trash_inv_def)
  from purge_tx_ok [OF assms(1,2) this assms(4,5)] show ?thesis
    unfolding jobs_grown_def purged_def by (elim conjE exE) (auto intro!: folders_shrink_same)
qed

lemma gc_tx_folders:
  "gc_tx W B job candidate T s = (Inr (True, r), s') \<Longrightarrow> in_tx T \<Longrightarrow> folders_shrink (sdb s) (sdb s')"
  by (cases rule: gc_tx_ok, assumption+) (simp_all add: settled_def folders_shrink_same)

lemmas action_folders = cancel_tx_folders expire_tx_folders create_task_tx_folders instant_upload_tx_folders
  complete_tx_folders move_tx_folders restore_file_tx_folders purge_tx_folders gc_tx_folders

lemma commits_forest: "commits d d' \<Longrightarrow> db_inv d \<Longrightarrow> forest d \<Longrightarrow> forest d'"
proof (induction rule: commits.induct)
  case (restore_folder i uid k T s w s')
  then show ?case by (cases w) (blast intro: restore_folder_tx_forest)
next
  case (change_drive s s')
  then show ?case by (blast intro: drive_forest)
qed (erule folders_shrink_forest [rotated], simp add: action_folders folders_frame folders_shrink_same)+

lemma closed_forest: "closed forest"
  unfolding closed_def by (blast intro: commits_forest)

end
