(* ===== verification/Folder_Traversal.thy ===== *)
theory Folder_Traversal
  imports Folder_Forest
begin

text \<open>
  On a forest the recursive queries end.  A row of the \<open>k\<close>-th level has \<open>k\<close> proper ancestors,
  so there are fewer levels than folders; a walk to the root visits fewer folders with every
  step; and the recursion that hangs the children below their parents has fewer descendants
  left on every level.
\<close>

section \<open>Ranks\<close>

definition rank :: "folder_row list \<Rightarrow> nat \<Rightarrow> nat" where
  "rank ds i = card {y. (i, y) \<in> (edges (place ` set ds))\<^sup>+}"

lemma edges_ids: "(i, p) \<in> edges (place ` set ds) \<Longrightarrow> i \<in> d_id ` set ds \<and> p \<in> d_id ` set ds"
  by (auto simp: edges_def place_def)

lemma ancestors_ids: "{y. (i, y) \<in> (edges (place ` set ds))\<^sup>+} \<subseteq> d_id ` set ds"
  by (auto elim: tranclE dest: edges_ids)

lemma rank_parent:
  assumes "acyclic (edges (place ` set ds))" and "(i, p) \<in> edges (place ` set ds)"
  shows "rank ds p < rank ds i"
  unfolding rank_def
proof (rule psubset_card_mono)
  show "finite {y. (i, y) \<in> (edges (place ` set ds))\<^sup>+}"
    by (rule finite_subset [OF ancestors_ids]) simp
  have "p \<notin> {y. (p, y) \<in> (edges (place ` set ds))\<^sup>+}" using assms(1) by (simp add: acyclic_def)
  then show "{y. (p, y) \<in> (edges (place ` set ds))\<^sup>+} \<subset> {y. (i, y) \<in> (edges (place ` set ds))\<^sup>+}"
    using assms(2) by (blast intro: trancl_into_trancl2)
qed

lemma rank_bound:
  assumes "acyclic (edges (place ` set ds))" and "r \<in> set ds"
  shows "rank ds (d_id r) < length ds"
proof -
  have "rank ds (d_id r) < card (d_id ` set ds)"
    unfolding rank_def using assms ancestors_ids [of "d_id r" ds]
    by (intro psubset_card_mono) (auto simp: acyclic_def)
  also have "\<dots> \<le> length ds" by (metis card_image_le card_length finite_set le_trans)
  finally show ?thesis .
qed

lemma edgeI:
  "f \<in> set ds \<Longrightarrow> q \<in> set ds \<Longrightarrow> d_parent_id f = d_id q \<Longrightarrow> d_user_id f = d_user_id q \<Longrightarrow>
   (d_id f, d_id q) \<in> edges (place ` set ds)"
  unfolding edges_def place_def by force

section \<open>The recursive queries\<close>

lemma folder_levels_ends:
  assumes "acyclic (edges (place ` set ds))"
    and "\<forall>(r, k) \<in> set lvl. r \<in> set ds \<and> d_user_id r = uid \<and> length ds \<le> rank ds (d_id r) + n"
  shows "folder_levels n ds uid lvl \<noteq> None"
  using assms(2)
proof (induction n arbitrary: lvl)
  case 0
  then show ?case using rank_bound [OF assms(1)] by (cases lvl) fastforce+
next
  case (Suc n)
  have "\<forall>(r, k) \<in> set (next_level ds uid lvl). r \<in> set ds \<and> d_user_id r = uid \<and> length ds \<le> rank ds (d_id r) + n"
  proof (clarify)
    fix f k
    assume "(f, k) \<in> set (next_level ds uid lvl)"
    then obtain q where q: "(q, k) \<in> set lvl" and f: "f \<in> set ds" "d_parent_id f = d_id q" "d_user_id f = uid"
      by (auto simp: next_level_def)
    with Suc.prems have "q \<in> set ds" "d_user_id q = uid" "length ds \<le> rank ds (d_id q) + Suc n" by auto
    moreover have "rank ds (d_id q) < rank ds (d_id f)"
      using f calculation by (intro rank_parent [OF assms(1)] edgeI) simp_all
    ultimately show "f \<in> set ds \<and> d_user_id f = uid \<and> length ds \<le> rank ds (d_id f) + n"
      using f by simp
  qed
  with Suc.IH [of "next_level ds uid lvl"] show ?case by simp
qed

lemma folder_tree_ends: "forest d \<Longrightarrow> folder_tree (folders d) uid ids \<noteq> None"
  using folder_levels_ends [of "folders d"] by (auto simp: folder_tree_def forest_def is_forest_def)

lemma ancestors_end:
  assumes "acyclic (edges (place ` set ds))"
    and "\<And>r. find_row (owned_folder i uid) ds = Some r \<Longrightarrow> rank ds i < n"
  shows "ancestors n ds uid i \<noteq> None"
  using assms(2)
proof (induction n arbitrary: i)
  case 0
  then show ?case by (cases "find_row (owned_folder i uid) ds") auto
next
  case (Suc n)
  show ?case
  proof (cases "find_row (owned_folder i uid) ds")
    case (Some r)
    then have r: "r \<in> set ds" "d_id r = i" "d_user_id r = uid" by (auto simp: owned_folder_def dest!: find_row_Some)
    have "ancestors n ds uid (d_parent_id r) \<noteq> None"
    proof (rule Suc.IH)
      fix q
      assume "find_row (owned_folder (d_parent_id r) uid) ds = Some q"
      then have "q \<in> set ds" "d_id q = d_parent_id r" "d_user_id q = uid" by (auto simp: owned_folder_def dest!: find_row_Some)
      with r have "(i, d_parent_id r) \<in> edges (place ` set ds)" using edgeI [of r ds q] by simp
      from rank_parent [OF assms(1) this] Suc.prems [OF Some] show "rank ds (d_parent_id r) < n" by simp
    qed
    with Some show ?thesis by simp
  qed simp
qed

lemma ancestors_ends: "forest d \<Longrightarrow> ancestors (length (folders d)) (folders d) uid i \<noteq> None"
proof (rule ancestors_end)
  fix r
  assume "forest d" and "find_row (owned_folder i uid) (folders d) = Some r"
  then show "rank (folders d) i < length (folders d)"
    using rank_bound [of "folders d" r] by (auto simp: forest_def is_forest_def owned_folder_def dest!: find_row_Some)
qed (simp add: forest_def is_forest_def)

section \<open>The folder tree\<close>

definition node_edges :: "FolderNodeData list \<Rightarrow> (nat \<times> nat) set" where
  "node_edges nodes = (\<lambda>n. (nd_id n, nd_parent_id n)) ` set nodes"

definition descendants :: "FolderNodeData list \<Rightarrow> nat \<Rightarrow> nat set" where
  "descendants nodes i = {x. (x, i) \<in> (node_edges nodes)\<^sup>+}"

lemma descendants_ids: "descendants nodes i \<subseteq> nd_id ` set nodes"
  by (auto simp: descendants_def node_edges_def elim: converse_tranclE)

lemma finite_descendants: "finite (descendants nodes i)"
  by (rule finite_subset [OF descendants_ids]) simp

lemma those_Some: "(\<And>x. x \<in> set xs \<Longrightarrow> x \<noteq> None) \<Longrightarrow> those xs \<noteq> None"
  by (induction xs) (auto split: option.split)

lemma build_children_ends:
  assumes "acyclic (node_edges nodes)" and "card (descendants nodes i) \<le> k"
  shows "build_children k nodes i \<noteq> None"
  using assms(2)
proof (induction k arbitrary: i)
  case 0
  then have "descendants nodes i = {}" using finite_descendants by simp
  then have "\<not> list_ex (\<lambda>n. nd_parent_id n = i) nodes"
    by (auto simp: descendants_def node_edges_def list_ex_iff)
  then show ?case by simp
next
  case (Suc k)
  have "build_children k nodes (nd_id n) \<noteq> None" if n: "n \<in> set nodes" "nd_parent_id n = i" for n
  proof (rule Suc.IH)
    have edge: "(nd_id n, i) \<in> node_edges nodes" using n by (auto simp: node_edges_def)
    have "nd_id n \<notin> descendants nodes (nd_id n)" using assms(1) by (simp add: descendants_def acyclic_def)
    with edge have "descendants nodes (nd_id n) \<subset> descendants nodes i"
      unfolding descendants_def by (blast intro: trancl_into_trancl)
    then have "card (descendants nodes (nd_id n)) < card (descendants nodes i)"
      by (rule psubset_card_mono [OF finite_descendants])
    with Suc.prems show "card (descendants nodes (nd_id n)) \<le> k" by simp
  qed
  then have "those (map (\<lambda>n. map_option (FolderTreeNode (nd_id n) (nd_name n)) (build_children k nodes (nd_id n)))
      (filter (\<lambda>n. nd_parent_id n = i) nodes)) \<noteq> None"
    by (intro those_Some) auto
  then show ?case by simp
qed

lemma BuildTree_ends: "acyclic (node_edges nodes) \<Longrightarrow> BuildTreeFromFlatList nodes i \<noteq> None"
proof -
  assume "acyclic (node_edges nodes)"
  moreover have "card (descendants nodes i) \<le> length nodes"
    by (metis card_image_le card_length card_mono descendants_ids finite_imageI finite_set le_trans)
  ultimately show ?thesis
    using build_children_ends [of nodes i "length nodes"] by (auto simp: BuildTreeFromFlatList_def)
qed

text \<open>The rows fetched for the tree belong to the user; the parent of a row may be gone or not among them.\<close>

lemma tree_levels_rows:
  "\<forall>r \<in> set lvl. r \<in> set ds \<and> d_user_id r = uid \<Longrightarrow> r \<in> set (tree_levels n ds uid lvl) \<Longrightarrow> r \<in> set ds \<and> d_user_id r = uid"
proof (induction n arbitrary: lvl)
  case (Suc n)
  let ?next = "concat (map (\<lambda>ft. filter (\<lambda>f. d_parent_id f = d_id ft \<and> d_user_id f = uid) ds) lvl)"
  have "\<forall>r \<in> set ?next. r \<in> set ds \<and> d_user_id r = uid" by auto
  from Suc.IH [OF this] Suc.prems show ?case by auto
qed simp

lemma acyclic_parents:
  assumes "acyclic (edges (place ` set ds))" and "R \<subseteq> {r \<in> set ds. d_user_id r = uid}"
  shows "acyclic ((\<lambda>r. (d_id r, d_parent_id r)) ` R)"
proof (rule acyclicI, intro allI notI)
  let ?E = "(\<lambda>r. (d_id r, d_parent_id r)) ` R"
  fix x
  assume cycle: "(x, x) \<in> ?E\<^sup>+"
  have lift: "(a, b) \<in> (edges (place ` set ds))\<^sup>+" if "(a, b) \<in> ?E\<^sup>+" "b \<in> d_id ` R" for a b
    using that
  proof (induction rule: trancl_induct)
    case (base y)
    then obtain r q where "r \<in> R" "q \<in> R" "a = d_id r" "y = d_parent_id r" "y = d_id q" by auto
    then show ?case using assms(2) edgeI [of r ds q] by auto
  next
    case (step y z)
    then obtain r q where r: "r \<in> R" "q \<in> R" "y = d_id r" "z = d_parent_id r" "z = d_id q" by auto
    then have "(y, z) \<in> edges (place ` set ds)" using assms(2) edgeI [of r ds q] by auto
    with step.IH r(1,3) show ?case by (auto intro: trancl_into_trancl)
  qed
  from cycle have "x \<in> d_id ` R" by (auto elim: converse_tranclE)
  with lift [OF cycle] assms(1) show False by (simp add: acyclic_def)
qed

text \<open>The collation may order the rows in any way.\<close>

definition permutes :: "('a list \<Rightarrow> 'a list) \<Rightarrow> bool" where
  "permutes ord \<longleftrightarrow> (\<forall>xs. mset (ord xs) = mset xs)"

lemma permutes_set: "permutes ord \<Longrightarrow> set (ord xs) = set xs"
  by (rule mset_eq_setD) (simp add: permutes_def)

lemma FetchFolderTreeRows_acyclic:
  assumes "FetchFolderTreeRows E ord uid pid n s = (Inr nodes, s')" and "permutes ord" and "forest (seen E s)"
  shows "acyclic (node_edges nodes)"
proof -
  let ?ds = "folders (seen E s)"
  let ?rows = "tree_levels n ?ds uid (filter (\<lambda>r. d_user_id r = uid \<and> d_parent_id r = pid) ?ds)"
  from assms(1) have "nodes = map (\<lambda>r. \<lparr>nd_id = d_id r, nd_name = d_name r, nd_parent_id = d_parent_id r\<rparr>) (ord ?rows)"
    unfolding FetchFolderTreeRows_def by (auto elim!: exec_okE)
  then have "node_edges nodes = (\<lambda>r. (d_id r, d_parent_id r)) ` set ?rows"
    by (simp add: node_edges_def image_image permutes_set [OF assms(2)])
  moreover have "\<And>r. r \<in> set ?rows \<Longrightarrow> r \<in> set ?ds \<and> d_user_id r = uid"
    by (rule tree_levels_rows) auto
  then have "set ?rows \<subseteq> {r \<in> set ?ds. d_user_id r = uid}" by blast
  moreover have "acyclic (edges (place ` set ?ds))"
    using assms(3) unfolding forest_def is_forest_def by blast
  ultimately show ?thesis by (simp only: acyclic_parents)
qed

section \<open>What the folder tree shows\<close>

text \<open>The rows of a built tree: identifier, name and the parent below which it hangs.\<close>

primrec tree_rows :: "nat \<Rightarrow> FolderTreeNode \<Rightarrow> (nat \<times> string \<times> nat) list" where
  "tree_rows p (FolderTreeNode i nm cs) = (i, nm, p) # concat (map (tree_rows i) cs)"

definition shown :: "nat \<Rightarrow> FolderTreeNode list \<Rightarrow> (nat \<times> string \<times> nat) set" where
  "shown p ts = (\<Union>t \<in> set ts. set (tree_rows p t))"

lemma those_Some_iff: "those xs = Some ys \<longleftrightarrow> xs = map Some ys"
proof (induction xs arbitrary: ys)
  case (Cons x xs)
  then show ?case by (cases ys) (auto split: option.splits)
qed auto

definition node_row :: "FolderNodeData \<Rightarrow> nat \<times> string \<times> nat" where
  "node_row n = (nd_id n, nd_name n, nd_parent_id n)"

lemma descendants_step:
  "descendants nodes i = (\<Union>n \<in> {n \<in> set nodes. nd_parent_id n = i}. insert (nd_id n) (descendants nodes (nd_id n)))"
proof -
  have "(x, i) \<in> (node_edges nodes)\<^sup>+ \<longleftrightarrow>
      (\<exists>n \<in> set nodes. nd_parent_id n = i \<and> (x = nd_id n \<or> (x, nd_id n) \<in> (node_edges nodes)\<^sup>+))" for x
    by (auto simp: node_edges_def elim: tranclE intro: trancl_into_trancl)
  then show ?thesis by (auto simp: descendants_def)
qed

lemma map_Some_eq:
  "map (\<lambda>n. map_option (g n) (f n)) cs = map Some ts \<Longrightarrow> (\<forall>n \<in> set cs. f n \<noteq> None) \<and> ts = map (\<lambda>n. g n (the (f n))) cs"
proof (induction cs arbitrary: ts)
  case (Cons n cs)
  then show ?case by (cases ts) auto
qed simp

lemma build_children_shows:
  "build_children k nodes i = Some ts \<Longrightarrow>
   shown i ts = node_row ` {n \<in> set nodes. nd_parent_id n = i \<or> nd_parent_id n \<in> descendants nodes i}"
proof (induction k arbitrary: i ts)
  case 0
  then have none: "{n \<in> set nodes. nd_parent_id n = i} = {}" and ts: "ts = []" by (auto simp: list_ex_iff split: if_splits)
  have "descendants nodes i = {}" by (subst descendants_step) (simp only: none UN_empty)
  with none have "{n \<in> set nodes. nd_parent_id n = i \<or> nd_parent_id n \<in> descendants nodes i} = {}" by simp
  then show ?case by (simp only: image_empty) (simp add: shown_def ts)
next
  case (Suc k)
  let ?cs = "filter (\<lambda>n. nd_parent_id n = i) nodes" and ?sub = "\<lambda>n. build_children k nodes (nd_id n)"
  have "map (\<lambda>n. map_option (FolderTreeNode (nd_id n) (nd_name n)) (?sub n)) ?cs = map Some ts"
    using Suc.prems by (simp add: those_Some_iff)
  from map_Some_eq [OF this] have some: "\<And>n. n \<in> set ?cs \<Longrightarrow> ?sub n = Some (the (?sub n))"
    and ts: "ts = map (\<lambda>n. FolderTreeNode (nd_id n) (nd_name n) (the (?sub n))) ?cs" by auto
  have "shown i ts = (\<Union>n \<in> set ?cs. insert (node_row n) (shown (nd_id n) (the (?sub n))))"
    by (auto simp: shown_def ts node_row_def)
  also have "\<dots> = (\<Union>n \<in> set ?cs. insert (node_row n)
      (node_row ` {m \<in> set nodes. nd_parent_id m = nd_id n \<or> nd_parent_id m \<in> descendants nodes (nd_id n)}))"
    by (intro SUP_cong arg_cong2 [where f = insert] refl) (rule Suc.IH [OF some])
  also have "\<dots> = node_row ` {n \<in> set nodes. nd_parent_id n = i \<or>
      nd_parent_id n \<in> (\<Union>c \<in> {n \<in> set nodes. nd_parent_id n = i}. insert (nd_id c) (descendants nodes (nd_id c)))}"
    by auto
  also have "\<dots> = node_row ` {n \<in> set nodes. nd_parent_id n = i \<or> nd_parent_id n \<in> descendants nodes i}"
    by (simp only: descendants_step [of nodes i, symmetric])
  finally show ?case .
qed

text \<open>A folder at level \<open>k\<close> below a place; the query fetches the folders up to the wanted level.\<close>

inductive at_level :: "folder_row list \<Rightarrow> nat \<Rightarrow> nat \<Rightarrow> nat \<Rightarrow> folder_row \<Rightarrow> bool" for ds uid pid where
  top: "r \<in> set ds \<Longrightarrow> d_user_id r = uid \<Longrightarrow> d_parent_id r = pid \<Longrightarrow> at_level ds uid pid 0 r"
| sub: "at_level ds uid pid k p \<Longrightarrow> r \<in> set ds \<Longrightarrow> d_user_id r = uid \<Longrightarrow> d_parent_id r = d_id p \<Longrightarrow>
    at_level ds uid pid (Suc k) r"

inductive_simps at_level_0: "at_level ds uid pid 0 r"
inductive_simps at_level_Suc: "at_level ds uid pid (Suc k) r"

lemma tree_levels_iff:
  "set lvl = {r. at_level ds uid pid k r} \<Longrightarrow>
   r \<in> set (tree_levels n ds uid lvl) \<longleftrightarrow> (\<exists>j. k \<le> j \<and> j \<le> k + n \<and> at_level ds uid pid j r)"
proof (induction n arbitrary: lvl k)
  case 0
  then show ?case by (auto dest: le_antisym)
next
  case (Suc n)
  let ?next = "concat (map (\<lambda>ft. filter (\<lambda>f. d_parent_id f = d_id ft \<and> d_user_id f = uid) ds) lvl)"
  have nxt: "set ?next = {r. at_level ds uid pid (Suc k) r}"
    using Suc.prems by (auto simp: at_level_Suc)
  have "r \<in> set (tree_levels (Suc n) ds uid lvl) \<longleftrightarrow> at_level ds uid pid k r \<or> (\<exists>j. Suc k \<le> j \<and> j \<le> Suc k + n \<and> at_level ds uid pid j r)"
    using Suc.IH [OF nxt] Suc.prems by simp
  also have "\<dots> \<longleftrightarrow> (\<exists>j. k \<le> j \<and> j \<le> k + Suc n \<and> at_level ds uid pid j r)"
  proof
    assume "\<exists>j. k \<le> j \<and> j \<le> k + Suc n \<and> at_level ds uid pid j r"
    then obtain j where "k \<le> j" "j \<le> k + Suc n" "at_level ds uid pid j r" by blast
    then show "at_level ds uid pid k r \<or> (\<exists>j. Suc k \<le> j \<and> j \<le> Suc k + n \<and> at_level ds uid pid j r)"
      by (cases "j = k") auto
  next
    assume "at_level ds uid pid k r \<or> (\<exists>j. Suc k \<le> j \<and> j \<le> Suc k + n \<and> at_level ds uid pid j r)"
    then show "\<exists>j. k \<le> j \<and> j \<le> k + Suc n \<and> at_level ds uid pid j r"
      by (metis Suc_leD add_Suc_right add_Suc_shift le_add1 order_refl)
  qed
  finally show ?case .
qed

lemma at_level_parent: "at_level ds uid pid k r \<Longrightarrow> d_parent_id r = pid \<or> (\<exists>j p. k = Suc j \<and> at_level ds uid pid j p \<and> d_parent_id r = d_id p)"
  by (cases rule: at_level.cases) auto

text \<open>All fetched rows hang below the requested place.\<close>

lemma fetched_descend:
  assumes "set nodes = {\<lparr>nd_id = d_id r, nd_name = d_name r, nd_parent_id = d_parent_id r\<rparr> | r k. k \<le> n \<and> at_level ds uid pid k r}"
    and "m \<in> set nodes"
  shows "nd_parent_id m = pid \<or> nd_parent_id m \<in> descendants nodes pid"
proof -
  have edge: "(d_id r, d_parent_id r) \<in> node_edges nodes" if "at_level ds uid pid k r" "k \<le> n" for r k
  proof -
    have "\<lparr>nd_id = d_id r, nd_name = d_name r, nd_parent_id = d_parent_id r\<rparr> \<in> set nodes" using that assms(1) by auto
    then show ?thesis by (force simp: node_edges_def)
  qed
  have reach: "(d_id r, pid) \<in> (node_edges nodes)\<^sup>+" if "at_level ds uid pid k r" "k \<le> n" for r k
    using that
  proof (induction rule: at_level.induct)
    case (top r)
    with edge [of 0 r] show ?case by (auto intro: at_level.top)
  next
    case (sub k p r)
    with edge [of "Suc k" r] show ?case by (auto intro: at_level.sub trancl_into_trancl2)
  qed
  obtain r k where r: "at_level ds uid pid k r" "k \<le> n" "nd_parent_id m = d_parent_id r" using assms by auto
  from at_level_parent [OF r(1)] show ?thesis
  proof (elim disjE exE conjE)
    fix j p
    assume "k = Suc j" "at_level ds uid pid j p" "d_parent_id r = d_id p"
    with reach [of j p] r(2,3) show ?thesis by (simp add: descendants_def)
  qed (simp add: r(3))
qed

lemma FetchFolderTreeRows_ok:
  assumes "FetchFolderTreeRows E ord uid pid n s = (Inr nodes, s')" and "permutes ord"
  shows "set nodes = {\<lparr>nd_id = d_id r, nd_name = d_name r, nd_parent_id = d_parent_id r\<rparr> | r k.
    k \<le> n \<and> at_level (folders (seen E s)) uid pid k r}"
proof -
  let ?ds = "folders (seen E s)"
  let ?top = "filter (\<lambda>r. d_user_id r = uid \<and> d_parent_id r = pid) ?ds"
  have "set ?top = {r. at_level ?ds uid pid 0 r}" by (auto simp: at_level_0)
  note rows = tree_levels_iff [OF this, of _ n]
  from assms(1) have "nodes = map (\<lambda>r. \<lparr>nd_id = d_id r, nd_name = d_name r, nd_parent_id = d_parent_id r\<rparr>) (ord (tree_levels n ?ds uid ?top))"
    unfolding FetchFolderTreeRows_def by (auto elim!: exec_okE)
  then have "set nodes = (\<lambda>r. \<lparr>nd_id = d_id r, nd_name = d_name r, nd_parent_id = d_parent_id r\<rparr>) ` {r. \<exists>j. j \<le> n \<and> at_level ?ds uid pid j r}"
    using rows by (simp add: permutes_set [OF assms(2)]) blast
  then show ?thesis by blast
qed

section \<open>Every folder is found once\<close>

lemma edges_functional:
  assumes "distinct (map d_id ds)" and "(i, p) \<in> edges (place ` set ds)" and "(i, q) \<in> edges (place ` set ds)"
  shows "q = p"
proof -
  from assms(2,3) obtain r r' where "r \<in> set ds" "r' \<in> set ds" "d_id r = i" "d_id r' = i" "d_parent_id r = p" "d_parent_id r' = q"
    by (auto simp: edges_def place_def)
  moreover from this have "r = r'" using assms(1) by (metis distinct_map inj_onD)
  ultimately show ?thesis by simp
qed

lemma rank_child:
  assumes "distinct (map d_id ds)" and "acyclic (edges (place ` set ds))" and "(i, p) \<in> edges (place ` set ds)"
  shows "rank ds i = Suc (rank ds p)"
proof -
  have "(i, y) \<in> (edges (place ` set ds))\<^sup>+ \<longleftrightarrow> y = p \<or> (p, y) \<in> (edges (place ` set ds))\<^sup>+" for y
  proof
    assume "(i, y) \<in> (edges (place ` set ds))\<^sup>+"
    then show "y = p \<or> (p, y) \<in> (edges (place ` set ds))\<^sup>+"
      by (rule converse_tranclE) (metis edges_functional [OF assms(1,3)])+
  qed (use assms(3) in \<open>blast intro: trancl_into_trancl2\<close>)
  then have "{y. (i, y) \<in> (edges (place ` set ds))\<^sup>+} = insert p {y. (p, y) \<in> (edges (place ` set ds))\<^sup>+}" by blast
  moreover have "p \<notin> {y. (p, y) \<in> (edges (place ` set ds))\<^sup>+}" using assms(2) by (simp add: acyclic_def)
  moreover have "finite {y. (p, y) \<in> (edges (place ` set ds))\<^sup>+}" by (rule finite_subset [OF ancestors_ids]) simp
  ultimately show ?thesis by (simp add: rank_def)
qed

definition level_at :: "folder_row list \<Rightarrow> nat \<Rightarrow> nat \<Rightarrow> (folder_row \<times> nat) list \<Rightarrow> bool" where
  "level_at ds uid j lvl \<longleftrightarrow> distinct lvl \<and>
     (\<forall>(r, k) \<in> set lvl. r \<in> set ds \<and> d_user_id r = uid \<and> rank ds (d_id r) = rank ds k + j)"

lemma distinct_children:
  assumes "distinct lvl" and "distinct ds" and "\<And>x y f. x \<in> set lvl \<Longrightarrow> y \<in> set lvl \<Longrightarrow> f \<in> set (g x) \<Longrightarrow> f \<in> set (g y) \<Longrightarrow> x = y"
    and "\<And>x. distinct (g x)"
  shows "distinct (concat (map g lvl))"
  using assms(1,3)
proof (induction lvl)
  case (Cons x lvl)
  have "set (g x) \<inter> set (concat (map g lvl)) = {}"
  proof (rule ccontr)
    assume "set (g x) \<inter> set (concat (map g lvl)) \<noteq> {}"
    then obtain y f where "y \<in> set lvl" "f \<in> set (g x)" "f \<in> set (g y)" by auto
    with Cons.prems(2) [of x y f] Cons.prems(1) show False by simp
  qed
  moreover have "distinct (concat (map g lvl))" using Cons by simp
  ultimately show ?case using assms(4) by simp
qed simp

lemma level_at_next:
  assumes dist: "distinct (map d_id ds)" and "acyclic (edges (place ` set ds))" and lvl: "level_at ds uid j lvl"
  shows "level_at ds uid (Suc j) (next_level ds uid lvl)"
proof -
  have ds: "distinct ds" using dist by (simp add: distinct_map)
  have "distinct (next_level ds uid lvl)"
    unfolding next_level_def
  proof (rule distinct_children [OF _ ds])
    show "distinct lvl" using lvl by (simp add: level_at_def)
  next
    fix x y :: "folder_row \<times> nat" and f
    assume "x \<in> set lvl" "y \<in> set lvl"
      and "f \<in> set ((\<lambda>(ft, k). map (\<lambda>f. (f, k)) (filter (\<lambda>f. d_parent_id f = d_id ft \<and> d_user_id f = uid) ds)) x)"
        "f \<in> set ((\<lambda>(ft, k). map (\<lambda>f. (f, k)) (filter (\<lambda>f. d_parent_id f = d_id ft \<and> d_user_id f = uid) ds)) y)"
    then have "snd x = snd y" "d_id (fst x) = d_id (fst y)" "fst x \<in> set ds" "fst y \<in> set ds"
      using lvl by (auto simp: level_at_def split: prod.splits)
    then show "x = y" using dist by (metis distinct_map inj_onD prod_eqI)
  qed (auto simp: distinct_map inj_on_def ds split: prod.splits)
  moreover have "rank ds (d_id f) = rank ds k + Suc j \<and> f \<in> set ds \<and> d_user_id f = uid" if "(f, k) \<in> set (next_level ds uid lvl)" for f k
  proof -
    from that obtain q where "(q, k) \<in> set lvl" and f: "f \<in> set ds" "d_parent_id f = d_id q" "d_user_id f = uid"
      by (auto simp: next_level_def)
    with lvl have q: "q \<in> set ds" "d_user_id q = uid" "rank ds (d_id q) = rank ds k + j" by (auto simp: level_at_def)
    have "rank ds (d_id f) = Suc (rank ds (d_id q))"
      by (rule rank_child [OF dist assms(2)], rule edgeI) (use f q in simp_all)
    with q f show ?thesis by simp
  qed
  ultimately show ?thesis by (auto simp: level_at_def)
qed

lemma folder_levels_distinct:
  assumes "distinct (map d_id ds)" and "acyclic (edges (place ` set ds))"
  shows "folder_levels n ds uid lvl = Some rows \<Longrightarrow> level_at ds uid j lvl \<Longrightarrow>
    distinct rows \<and> (\<forall>(r, k) \<in> set rows. rank ds k + j \<le> rank ds (d_id r))"
proof (induction n arbitrary: lvl rows j)
  case (Suc n)
  show ?case
  proof (cases "lvl = []")
    case False
    with Suc.prems obtain rest where rest: "folder_levels n ds uid (next_level ds uid lvl) = Some rest" "rows = lvl @ rest"
      by auto
    have "level_at ds uid (Suc j) (next_level ds uid lvl)" by (rule level_at_next [OF assms Suc.prems(2)])
    from Suc.IH [OF rest(1) this] have tail: "distinct rest" "\<forall>(r, k) \<in> set rest. rank ds k + Suc j \<le> rank ds (d_id r)" by auto
    have "set lvl \<inter> set rest = {}" using tail(2) Suc.prems(2) by (fastforce simp: level_at_def)
    with tail Suc.prems(2) rest(2) show ?thesis by (fastforce simp: level_at_def)
  qed (use Suc.prems in \<open>auto simp: level_at_def\<close>)
qed (auto simp: level_at_def split: if_splits)

lemma folder_tree_distinct:
  assumes "distinct (map d_id (folders d))" and "forest d" and "folder_tree (folders d) uid ids = Some rows"
  shows "distinct rows"
proof -
  let ?ds = "folders d"
  let ?lvl = "map (\<lambda>r. (r, d_id r)) (filter (\<lambda>r. d_id r \<in> set ids \<and> d_user_id r = uid) ?ds)"
  from assms(3) obtain rows' where lv: "folder_levels (length ?ds) ?ds uid ?lvl = Some rows'"
    and rows: "rows = sort_key (\<lambda>(r, k). (k, d_depth r, d_id r)) rows'"
    by (auto simp: folder_tree_def)
  have "distinct ?ds" using assms(1) by (simp add: distinct_map)
  then have "level_at ?ds uid 0 ?lvl" by (auto simp: level_at_def distinct_map inj_on_def)
  from folder_levels_distinct [OF assms(1) _ lv this] assms(2) have "distinct rows'"
    by (simp add: forest_def is_forest_def)
  with rows show ?thesis by simp
qed

end
