(* ===== verification/Folder_Paths.thy ===== *)
theory Folder_Paths
  imports Folder_Traversal
begin

text \<open>
  Folders and files carry their full path.  \<open>paths_ok\<close> says that every path is the path of the
  parent followed by the name, and every depth one more than the parent's.  Creating, renaming
  and moving maintain it: the paths of a whole subtree are rewritten by exchanging a prefix.
\<close>

section \<open>Consistent paths\<close>

lemma BuildFolderPath_append: "BuildFolderPath p n = p @ n @ ''/''"
  by (simp add: BuildFolderPath_def)

lemma BuildFilePath_append: "BuildFilePath p n = p @ n"
  by (simp add: BuildFilePath_def)

text \<open>The path and depth below which the items of a place hang; a place may be gone.\<close>

definition base :: "folder_row list \<Rightarrow> nat \<Rightarrow> nat \<Rightarrow> (string \<times> nat) option" where
  "base ds uid p =
     (if p = 0 then Some (''/'', 0) else map_option (\<lambda>r. (d_path r, d_depth r)) (find_row (owned_folder p uid) ds))"

definition folder_path_ok :: "folder_row list \<Rightarrow> folder_row \<Rightarrow> bool" where
  "folder_path_ok ds r \<longleftrightarrow> (\<forall>p k. base ds (d_user_id r) (d_parent_id r) = Some (p, k) \<longrightarrow>
     d_path r = BuildFolderPath p (d_name r) \<and> d_depth r = k + 1)"

definition file_path_ok :: "folder_row list \<Rightarrow> file_row \<Rightarrow> bool" where
  "file_path_ok ds f \<longleftrightarrow> (\<forall>p k. base ds (f_user_id f) (f_folder_id f) = Some (p, k) \<longrightarrow>
     f_path f = BuildFilePath p (f_name f))"

definition paths_ok :: "'w db \<Rightarrow> bool" where
  "paths_ok d \<longleftrightarrow> (\<forall>r \<in> set (folders d). folder_path_ok (folders d) r) \<and>
     (\<forall>f \<in> set (files d). file_path_ok (folders d) f \<and> f_folder_id f \<le> seq_folders d)"

section \<open>Rewriting a subtree\<close>

definition patch :: "'r set \<Rightarrow> ('r \<Rightarrow> 'r) \<Rightarrow> 'r list \<Rightarrow> 'r list" where
  "patch S u rs = map (\<lambda>r. if r \<in> S then u r else r) rs"

lemma set_patch: "c \<in> set (patch S u rs) \<longleftrightarrow> (\<exists>r \<in> set rs. c = (if r \<in> S then u r else r))"
  by (auto simp: patch_def)

lemma patch_empty [simp]: "patch {} u rs = rs"
  by (simp add: patch_def)

lemma find_row_map: "(\<And>x. p (g x) = p x) \<Longrightarrow> find_row p (map g xs) = map_option g (find_row p xs)"
  by (induction xs) (auto simp: find_row_def)

definition keeps_owner :: "(folder_row \<Rightarrow> folder_row) \<Rightarrow> bool" where
  "keeps_owner u \<longleftrightarrow> (\<forall>r. d_id (u r) = d_id r \<and> d_user_id (u r) = d_user_id r)"

lemma find_row_patch:
  "keeps_owner u \<Longrightarrow> find_row (owned_folder i uid) (patch S u ds) =
     map_option (\<lambda>r. if r \<in> S then u r else r) (find_row (owned_folder i uid) ds)"
  unfolding patch_def by (rule find_row_map) (simp add: owned_folder_def keeps_owner_def)

lemma base_same:
  assumes "keeps_owner u" and "\<And>r. find_row (owned_folder p uid) ds = Some r \<Longrightarrow> r \<notin> S"
  shows "base (patch S u ds) uid p = base ds uid p"
  using assms(2) by (cases "find_row (owned_folder p uid) ds") (auto simp: base_def find_row_patch [OF assms(1)])

lemma find_owned:
  assumes "distinct (map d_id ds)" and "r \<in> set ds" and "d_user_id r = uid"
  shows "find_row (owned_folder (d_id r) uid) ds = Some r"
proof -
  obtain q where q: "find_row (owned_folder (d_id r) uid) ds = Some q"
    using assms(2,3) by (cases "find_row (owned_folder (d_id r) uid) ds") (auto simp: find_row_None owned_folder_def)
  then have "q = r" using assms(1,2) by (auto simp: owned_folder_def distinct_map dest!: find_row_Some dest: inj_onD)
  with q show ?thesis by simp
qed

lemma base_row:
  assumes "distinct (map d_id ds)" and "r \<in> set ds" and "0 < d_id r"
  shows "base ds (d_user_id r) (d_id r) = Some (d_path r, d_depth r)"
  using assms(3) find_owned [OF assms(1,2) refl] by (simp add: base_def)

text \<open>A subtree: the rows below a root, an update that exchanges the prefix, and the place it hangs from afterwards.\<close>

definition subtree :: "folder_row list \<Rightarrow> nat \<Rightarrow> folder_row \<Rightarrow> folder_row set" where
  "subtree ds uid root = {r. below ds uid (d_id root) r}"

definition exchanges :: "folder_row set \<Rightarrow> folder_row \<Rightarrow> string \<Rightarrow> int \<Rightarrow> (folder_row \<Rightarrow> folder_row) \<Rightarrow> bool" where
  "exchanges S root np delta u \<longleftrightarrow> keeps_owner u \<and>
     (\<forall>r \<in> S. d_path (u r) = np @ drop (length (d_path root)) (d_path r) \<and> d_depth (u r) = nat (int (d_depth r) + delta) \<and>
        (r \<noteq> root \<longrightarrow> d_parent_id (u r) = d_parent_id r \<and> d_name (u r) = d_name r))"

lemma subtree_prefix:
  assumes "below ds uid (d_id root) r" and "distinct (map d_id ds)" and "root \<in> set ds" and "\<forall>r \<in> set ds. 0 < d_id r"
    and "\<forall>r \<in> set ds. folder_path_ok ds r"
  shows "(\<exists>sfx. d_path r = d_path root @ sfx) \<and> d_depth root \<le> d_depth r"
  using assms(1)
proof (induction "d_id root" r rule: below.induct)
  case (itself r)
  then have "r = root" using assms(2,3) by (metis distinct_map inj_onD)
  then show ?case by simp
next
  case (child p f)
  note p = below_row [OF child(1)]
  have "base ds uid (d_id p) = Some (d_path p, d_depth p)" using base_row [OF assms(2), of p] p assms(4) by simp
  then have "d_path f = d_path p @ d_name f @ ''/''" "d_depth f = d_depth p + 1"
    using assms(5) child(3-5) by (simp_all add: folder_path_ok_def BuildFolderPath_append)
  with child(2) show ?case by auto
qed

lemma patched_folder_paths:
  assumes dist: "distinct (map d_id ds)" and pos: "\<forall>r \<in> set ds. 0 < d_id r" and ok: "\<forall>r \<in> set ds. folder_path_ok ds r"
    and root: "root \<in> set ds" "d_user_id root = uid"
    and u: "exchanges (subtree ds uid root) root np delta u"
    and t: "d_parent_id (u root) \<notin> d_id ` subtree ds uid root" "base ds uid (d_parent_id (u root)) = Some (bp, bd)"
    and np: "np = BuildFolderPath bp (d_name (u root))" and delta: "int (d_depth root) + delta = int bd + 1"
    and c: "c \<in> set (patch (subtree ds uid root) u ds)"
  shows "folder_path_ok (patch (subtree ds uid root) u ds) c"
proof -
  let ?S = "subtree ds uid root"
  have keep: "keeps_owner u" and own: "\<And>r. d_id (u r) = d_id r" "\<And>r. d_user_id (u r) = d_user_id r"
    using u by (auto simp: exchanges_def keeps_owner_def)
  from c obtain r where r: "r \<in> set ds" "c = (if r \<in> ?S then u r else r)" by (auto simp: set_patch)
  have S: "x \<in> set ds \<and> d_user_id x = uid" if "x \<in> ?S" for x using that below_row by (auto simp: subtree_def)
  have prefix: "\<exists>sfx. d_path x = d_path root @ sfx" "d_depth root \<le> d_depth x" if "x \<in> ?S" for x
    using subtree_prefix [OF _ dist root(1) pos ok, of uid x] that by (auto simp: subtree_def)
  have rootS: "root \<in> ?S" using below.itself [OF root] by (simp add: subtree_def)
  show ?thesis
  proof (cases "r \<in> ?S")
    case False
    have "base (patch ?S u ds) (d_user_id r) (d_parent_id r) = base ds (d_user_id r) (d_parent_id r)"
    proof (rule base_same [OF keep])
      fix q
      assume "find_row (owned_folder (d_parent_id r) (d_user_id r)) ds = Some q"
      then have "d_id q = d_parent_id r" "d_user_id q = d_user_id r" by (auto simp: owned_folder_def dest!: find_row_Some)
      with False r(1) S show "q \<notin> ?S" by (auto simp: subtree_def intro: below.child)
    qed
    with False r ok show ?thesis by (simp add: folder_path_ok_def)
  next
    case inS: True
    note ru = S [OF inS]
    have new: "d_path (u x) = np @ drop (length (d_path root)) (d_path x)" "d_depth (u x) = nat (int (d_depth x) + delta)"
      if "x \<in> ?S" for x using u that by (auto simp: exchanges_def)
    show ?thesis
    proof (cases "r = root")
      case True
      have "base (patch ?S u ds) uid (d_parent_id (u root)) = base ds uid (d_parent_id (u root))"
        using t(1) by (intro base_same [OF keep]) (force simp: owned_folder_def dest!: find_row_Some)
      with True inS r(2) root(2) t(2) np delta new [OF rootS] own show ?thesis
        by (simp add: folder_path_ok_def)
    next
      case False
      from inS False obtain p where p: "below ds uid (d_id root) p" "d_parent_id r = d_id p"
        unfolding subtree_def mem_Collect_eq
        using dist root(1) by (cases rule: below.cases) (auto simp: distinct_map dest: inj_onD)
      then have pS: "p \<in> ?S" and pu: "p \<in> set ds" "d_user_id p = uid" using below_row by (auto simp: subtree_def)
      have nb: "base (patch ?S u ds) uid (d_id p) = Some (d_path (u p), d_depth (u p))"
        using pos [rule_format, OF pu(1)] pS find_owned [OF dist pu] by (simp add: base_def find_row_patch [OF keep])
      have "base ds uid (d_id p) = Some (d_path p, d_depth p)" using base_row [OF dist pu(1)] pos pu by simp
      then have old: "d_path r = d_path p @ d_name r @ ''/''" "d_depth r = d_depth p + 1"
        using ok r(1) ru p(2) by (simp_all add: folder_path_ok_def BuildFolderPath_append)
      obtain sfx where sfx: "d_path p = d_path root @ sfx" using prefix(1) [OF pS] by blast
      have "d_path (u r) = d_path (u p) @ d_name r @ ''/''"
        using new(1) [OF inS] new(1) [OF pS] old(1) sfx by simp
      moreover have "d_depth (u r) = d_depth (u p) + 1"
        using new(2) [OF inS] new(2) [OF pS] old(2) prefix(2) [OF pS] delta by simp
      moreover have "d_parent_id (u r) = d_id p" "d_name (u r) = d_name r"
        using u inS False p(2) by (auto simp: exchanges_def)
      ultimately show ?thesis
        using nb inS r(2) ru own by (simp add: folder_path_ok_def BuildFolderPath_append)
    qed
  qed
qed

text \<open>The files follow.\<close>

definition follow :: "nat \<Rightarrow> (nat \<times> string) list \<Rightarrow> file_row \<Rightarrow> file_row" where
  "follow uid paths f =
     (case map_of paths (f_folder_id f) of
        Some p \<Rightarrow> if f_user_id f = uid then f\<lparr>f_path := BuildFilePath p (f_name f)\<rparr> else f
      | None \<Rightarrow> f)"

lemma patched_file_path:
  assumes dist: "distinct (map d_id ds)" and pos: "\<forall>r \<in> set ds. 0 < d_id r"
    and u: "keeps_owner u" and S: "\<forall>r \<in> S. r \<in> set ds \<and> d_user_id r = uid"
    and paths: "set paths = (\<lambda>r. (d_id r, d_path (u r))) ` S"
    and ok: "file_path_ok ds f"
  shows "file_path_ok (patch S u ds) (follow uid paths f)"
proof (cases "f_user_id f = uid \<and> f_folder_id f \<in> d_id ` S")
  case True
  then obtain r where r: "r \<in> S" "d_id r = f_folder_id f" by auto
  have unique: "x = r" if "x \<in> S" "d_id x = d_id r" for x using that r S dist by (metis distinct_map inj_onD)
  have "fst ` set paths = d_id ` S" by (simp add: paths image_image)
  with r have "map_of paths (f_folder_id f) \<noteq> None" unfolding map_of_eq_None_iff by (metis imageI)
  then obtain p where p: "map_of paths (f_folder_id f) = Some p" by blast
  have "(f_folder_id f, p) \<in> (\<lambda>r. (d_id r, d_path (u r))) ` S" using map_of_SomeD [OF p] unfolding paths .
  then obtain x where x: "x \<in> S" "f_folder_id f = d_id x" "p = d_path (u x)" by (elim imageE Pair_inject)
  have "x = r" by (rule unique [OF x(1)]) (simp only: x(2) [symmetric] r(2))
  with x(3) have "p = d_path (u r)" by simp
  moreover have "base (patch S u ds) uid (d_id r) = Some (d_path (u r), d_depth (u r))"
  proof -
    have "r \<in> set ds" "d_user_id r = uid" "0 < d_id r" using r(1) S pos by blast+
    with r(1) find_owned [OF dist, of r uid] show ?thesis by (simp add: base_def find_row_patch [OF u])
  qed
  ultimately show ?thesis using True p r by (simp add: follow_def file_path_ok_def)
next
  case False
  have "fst ` set paths = d_id ` S" by (simp add: paths image_image)
  then have "map_of paths (f_folder_id f) = None" if "f_folder_id f \<notin> d_id ` S"
    using that unfolding map_of_eq_None_iff by simp
  with False have same: "follow uid paths f = f"
    by (auto simp: follow_def split: option.split)
  have "base (patch S u ds) (f_user_id f) (f_folder_id f) = base ds (f_user_id f) (f_folder_id f)"
    using False S by (intro base_same [OF u]) (force simp: owned_folder_def dest!: find_row_Some)
  with ok show ?thesis by (simp add: same file_path_ok_def)
qed

section \<open>The loops over a subtree\<close>

lemma patch_step:
  assumes "distinct (map d_id ds)" and "x \<in> set ds" and "d_user_id x = uid" and "x \<notin> D" and "keeps_owner u"
    and "D \<subseteq> set ds" and "g x = u x"
  shows "update_where (owned_folder (d_id x) uid) g (patch D u ds) = patch (insert x D) u ds"
proof -
  have "(if owned_folder (d_id x) uid (if r \<in> D then u r else r) then g (if r \<in> D then u r else r) else if r \<in> D then u r else r) =
      (if r \<in> insert x D then u r else r)" if "r \<in> set ds" for r
  proof (cases "r = x")
    case True
    with assms(3,4,7) show ?thesis by (simp add: owned_folder_def)
  next
    case False
    with that assms(1,2) have "d_id r \<noteq> d_id x" by (auto simp: distinct_map dest: inj_onD)
    with False assms(5) show ?thesis by (simp add: owned_folder_def keeps_owner_def)
  qed
  then show ?thesis by (simp add: update_where_def patch_def)
qed

lemma update_folder_ok:
  "exec T (update_folder i uid g) s = (Inr b, s') \<Longrightarrow> in_tx T \<Longrightarrow>
   sdb s' = (sdb s)\<lparr>folders := update_where (owned_folder i uid) g (folders (sdb s))\<rparr>"
  by (auto simp: update_folder_def elim!: exec_okE split: if_splits)

definition renamed_row :: "nat \<Rightarrow> string \<Rightarrow> string \<Rightarrow> string \<Rightarrow> folder_row \<Rightarrow> folder_row" where
  "renamed_row i nm np op r =
     r\<lparr>d_name := (if d_id r = i then nm else d_name r), d_path := np @ drop (length op) (d_path r)\<rparr>"

definition moved_row :: "nat \<Rightarrow> nat \<Rightarrow> string \<Rightarrow> string \<Rightarrow> int \<Rightarrow> folder_row \<Rightarrow> folder_row" where
  "moved_row i t np op delta r =
     r\<lparr>d_parent_id := (if d_id r = i then t else d_parent_id r), d_path := np @ drop (length op) (d_path r),
       d_depth := shift_depth delta r\<rparr>"

lemma keeps_owner_rows: "keeps_owner (renamed_row i nm np op)" "keeps_owner (moved_row i t np op delta)"
  by (simp_all add: keeps_owner_def renamed_row_def moved_row_def)

lemma rename_subtree_ok:
  "rename_subtree T uid i nm np op rs s = (Inr (Inr v), s') \<Longrightarrow> in_tx T \<Longrightarrow>
   folders (sdb s) = patch D (renamed_row i nm np op) ds \<Longrightarrow> distinct (map d_id ds) \<Longrightarrow> distinct rs \<Longrightarrow>
   set rs \<subseteq> set ds \<Longrightarrow> D \<subseteq> set ds \<Longrightarrow> set rs \<inter> D = {} \<Longrightarrow> \<forall>r \<in> set rs. d_user_id r = uid \<Longrightarrow>
   sdb s' = (sdb s)\<lparr>folders := patch (D \<union> set rs) (renamed_row i nm np op) ds\<rparr>"
proof (induction rs arbitrary: s D)
  case (Cons x rs)
  let ?u = "renamed_row i nm np op"
  from Cons.prems(1) obtain s1 where rest: "rename_subtree T uid i nm np op rs s1 = (Inr (Inr v), s')"
    and upd: "(if d_id x = i then RenameFolderPath T (d_id x) uid nm (np @ drop (length op) (d_path x))
       else UpdateFolderPath T (d_id x) uid (np @ drop (length op) (d_path x))) s = (Inr True, s1)"
    by (auto simp: relocated_def elim!: bindM_okE split: if_splits)
  have step: "update_where (owned_folder (d_id x) uid) g (patch D ?u ds) = patch (insert x D) ?u ds" if "g x = ?u x" for g
    by (rule patch_step) (use Cons.prems that in \<open>simp_all add: keeps_owner_rows\<close>)
  have "sdb s1 = (sdb s)\<lparr>folders := patch (insert x D) ?u ds\<rparr>"
  proof (cases "d_id x = i")
    case True
    with upd have "sdb s1 = (sdb s)\<lparr>folders := update_where (owned_folder (d_id x) uid)
        (\<lambda>r. r\<lparr>d_name := nm, d_path := np @ drop (length op) (d_path x)\<rparr>) (folders (sdb s))\<rparr>"
      using Cons.prems(2) by (simp add: RenameFolderPath_def update_folder_ok)
    also have "\<dots> = (sdb s)\<lparr>folders := patch (insert x D) ?u ds\<rparr>"
      unfolding Cons.prems(3) by (subst step) (simp_all add: True renamed_row_def)
    finally show ?thesis .
  next
    case False
    with upd have "sdb s1 = (sdb s)\<lparr>folders := update_where (owned_folder (d_id x) uid)
        (\<lambda>r. r\<lparr>d_path := np @ drop (length op) (d_path x)\<rparr>) (folders (sdb s))\<rparr>"
      using Cons.prems(2) by (simp add: UpdateFolderPath_def update_folder_ok)
    also have "\<dots> = (sdb s)\<lparr>folders := patch (insert x D) ?u ds\<rparr>"
      unfolding Cons.prems(3) by (subst step) (simp_all add: False renamed_row_def)
    finally show ?thesis .
  qed
  with Cons.IH [OF rest Cons.prems(2), of "insert x D"] Cons.prems show ?case by simp
qed simp

lemma move_subtree_ok:
  "move_subtree T uid t i np op delta rs s = (Inr (Inr v), s') \<Longrightarrow> in_tx T \<Longrightarrow>
   folders (sdb s) = patch D (moved_row i t np op delta) ds \<Longrightarrow> distinct (map d_id ds) \<Longrightarrow> distinct rs \<Longrightarrow>
   set rs \<subseteq> set ds \<Longrightarrow> D \<subseteq> set ds \<Longrightarrow> set rs \<inter> D = {} \<Longrightarrow> \<forall>r \<in> set rs. d_user_id r = uid \<Longrightarrow>
   sdb s' = (sdb s)\<lparr>folders := patch (D \<union> set rs) (moved_row i t np op delta) ds\<rparr>"
proof (induction rs arbitrary: s D)
  case (Cons x rs)
  let ?u = "moved_row i t np op delta"
  from Cons.prems(1) obtain s1 where rest: "move_subtree T uid t i np op delta rs s1 = (Inr (Inr v), s')"
    and upd: "(if d_id x = i then UpdateFolderLocationForMove T (d_id x) uid t (np @ drop (length op) (d_path x)) delta
       else UpdateFolderPathForMove T (d_id x) uid (np @ drop (length op) (d_path x)) delta) s = (Inr True, s1)"
    by (auto simp: relocated_def elim!: bindM_okE split: if_splits)
  have step: "update_where (owned_folder (d_id x) uid) g (patch D ?u ds) = patch (insert x D) ?u ds" if "g x = ?u x" for g
    by (rule patch_step) (use Cons.prems that in \<open>simp_all add: keeps_owner_rows\<close>)
  have "sdb s1 = (sdb s)\<lparr>folders := patch (insert x D) ?u ds\<rparr>"
  proof (cases "d_id x = i")
    case True
    with upd have "sdb s1 = (sdb s)\<lparr>folders := update_where (owned_folder (d_id x) uid)
        (\<lambda>r. r\<lparr>d_parent_id := t, d_path := np @ drop (length op) (d_path x), d_depth := shift_depth delta r\<rparr>) (folders (sdb s))\<rparr>"
      using Cons.prems(2) by (simp add: UpdateFolderLocationForMove_def update_folder_ok)
    also have "\<dots> = (sdb s)\<lparr>folders := patch (insert x D) ?u ds\<rparr>"
      unfolding Cons.prems(3) by (subst step) (simp_all add: True moved_row_def)
    finally show ?thesis .
  next
    case False
    with upd have "sdb s1 = (sdb s)\<lparr>folders := update_where (owned_folder (d_id x) uid)
        (\<lambda>r. r\<lparr>d_path := np @ drop (length op) (d_path x), d_depth := shift_depth delta r\<rparr>) (folders (sdb s))\<rparr>"
      using Cons.prems(2) by (simp add: UpdateFolderPathForMove_def update_folder_ok)
    also have "\<dots> = (sdb s)\<lparr>folders := patch (insert x D) ?u ds\<rparr>"
      unfolding Cons.prems(3) by (subst step) (simp_all add: False moved_row_def)
    finally show ?thesis .
  qed
  with Cons.IH [OF rest Cons.prems(2), of "insert x D"] Cons.prems show ?case by simp
qed simp

lemma update_file_ok:
  "exec T (update_file i uid g) s = (Inr b, s') \<Longrightarrow> in_tx T \<Longrightarrow>
   sdb s' = (sdb s)\<lparr>files := update_where (owned_file i uid) g (files (sdb s))\<rparr>"
  by (auto simp: update_file_def elim!: exec_okE split: if_splits)

lemma repath_files_ok:
  "repath_files T uid err ps rs s = (Inr (Inr v), s') \<Longrightarrow> in_tx T \<Longrightarrow> files (sdb s) = patch D (follow uid ps) fs \<Longrightarrow>
   distinct (map f_id fs) \<Longrightarrow> set rs \<subseteq> set fs \<Longrightarrow> D \<subseteq> set fs \<Longrightarrow> \<forall>f \<in> set rs. f_user_id f = uid \<Longrightarrow>
   sdb s' = (sdb s)\<lparr>files := patch (D \<union> set rs) (follow uid ps) fs\<rparr>"
proof (induction rs arbitrary: s D)
  case (Cons x rs)
  show ?case
  proof (cases "map_of ps (f_folder_id x)")
    case None
    then have "follow uid ps x = x" by (simp add: follow_def)
    then have "patch (insert x D) (follow uid ps) fs = patch D (follow uid ps) fs" by (auto simp: patch_def)
    with None Cons.IH [of s "insert x D"] Cons.prems show ?thesis by simp
  next
    case (Some p)
    let ?g = "\<lambda>f. f\<lparr>f_path := BuildFilePath p (f_name x)\<rparr>"
    from Some Cons.prems(1) obtain s1 where rest: "repath_files T uid err ps rs s1 = (Inr (Inr v), s')"
      and upd: "UpdateFilePath T (f_id x) uid (BuildFilePath p (f_name x)) s = (Inr True, s1)"
      by (auto elim!: bindM_okE split: if_splits)
    have "update_where (owned_file (f_id x) uid) ?g (patch D (follow uid ps) fs) = patch (insert x D) (follow uid ps) fs"
    proof -
      have fol: "f_id (follow uid ps f) = f_id f" "f_user_id (follow uid ps f) = f_user_id f" for f
        by (auto simp: follow_def split: option.split)
      have x: "follow uid ps x = ?g x" using Some Cons.prems(7) by (simp add: follow_def)
      have "(if owned_file (f_id x) uid (if f \<in> D then follow uid ps f else f) then ?g (if f \<in> D then follow uid ps f else f)
            else if f \<in> D then follow uid ps f else f) = (if f \<in> insert x D then follow uid ps f else f)" if "f \<in> set fs" for f
      proof (cases "f = x")
        case True
        with Cons.prems(7) x show ?thesis by (simp add: owned_file_def)
      next
        case False
        with that Cons.prems(4,5) have "f_id f \<noteq> f_id x" by (auto simp: distinct_map dest: inj_onD)
        with False show ?thesis by (simp add: owned_file_def fol)
      qed
      then show ?thesis by (simp add: update_where_def patch_def)
    qed
    with upd Cons.prems(2,3) have "sdb s1 = (sdb s)\<lparr>files := patch (insert x D) (follow uid ps) fs\<rparr>"
      by (simp add: UpdateFilePath_def update_file_ok)
    with Cons.IH [OF rest Cons.prems(2), of "insert x D"] Cons.prems show ?thesis by simp
  qed
qed simp

text \<open>Rows of the subtree query, as rows of the table.\<close>

lemma FetchFolderSubtree_ok:
  assumes "FetchFolderSubtree T i uid s = (Inr rs, s')" and "in_tx T" and "distinct (map d_id (folders (sdb s)))"
    and "forest (sdb s)"
  shows "sdb s' = sdb s \<and> distinct rs \<and> set rs = {r. below (folders (sdb s)) uid i r}"
proof -
  from assms(1,2) obtain rows where rows: "folder_tree (folders (sdb s)) uid [i] = Some rows" and rs: "rs = map fst rows" "sdb s' = sdb s"
    unfolding FetchFolderSubtree_def by (auto simp: fetch_tree_stmt_def elim!: bindM_okE exec_okE split: option.splits)
  note ok = folder_tree_ok [OF rows]
  have "distinct rows" by (rule folder_tree_distinct [OF assms(3,4) rows])
  then have "distinct rs" using ok unfolding rs distinct_map by (auto simp: inj_on_def)
  with rs ok show ?thesis by force
qed

section \<open>Renaming a folder\<close>

text \<open>Guards that end in an error, passed by a successful run.\<close>

lemma guard_iffs:
  "(if b then failR e else m) s = (Inr (Inr y), s') \<longleftrightarrow> \<not> b \<and> m s = (Inr (Inr y), s')"
  "(case x of None \<Rightarrow> failR e | Some v \<Rightarrow> k v) s = (Inr (Inr y), s') \<longleftrightarrow> (\<exists>v. x = Some v \<and> k v s = (Inr (Inr y), s'))"
  by (auto split: option.split)

lemma below_reach: "below ds uid k r \<Longrightarrow> (d_id r, k) \<in> (edges (place ` set ds))\<^sup>*"
proof (induction rule: below.induct)
  case (child k p f)
  then have "(d_id f, d_id p) \<in> edges (place ` set ds)" using below_row [OF child(1)] by (intro edgeI) auto
  then show ?case using child.IH by (rule converse_rtrancl_into_rtrancl)
qed simp

text \<open>The parent of a folder does not lie below it.\<close>

lemma parent_apart:
  assumes "forest d" and "root \<in> set (folders d)" and "d_user_id root = uid"
  shows "d_parent_id root \<notin> d_id ` subtree (folders d) uid root"
proof
  assume "d_parent_id root \<in> d_id ` subtree (folders d) uid root"
  then obtain q where q: "below (folders d) uid (d_id root) q" "d_id q = d_parent_id root" by (auto simp: subtree_def)
  then have "(d_id root, d_id q) \<in> edges (place ` set (folders d))"
    using assms(2,3) below_row [OF q(1)] by (intro edgeI) auto
  with below_reach [OF q(1)] have "(d_id q, d_id q) \<in> (edges (place ` set (folders d)))\<^sup>+" by (rule rtrancl_into_trancl1)
  with assms(1) show False by (simp add: forest_def is_forest_def acyclic_def)
qed

definition filed_in :: "nat \<Rightarrow> nat set \<Rightarrow> file_row list \<Rightarrow> file_row set" where
  "filed_in uid ids fs = {f \<in> set fs. f_user_id f = uid \<and> f_folder_id f \<in> ids}"

lemma FetchFilesInFolders_ok:
  "FetchFilesInFolders T ids uid s = (Inr fs, s') \<Longrightarrow> in_tx T \<Longrightarrow>
   sdb s' = sdb s \<and> set fs = filed_in uid (set ids) (files (sdb s))"
  by (cases "ids = []") (auto simp: FetchFilesInFolders_def filed_in_def elim!: exec_okE)

lemma patch_follow:
  assumes "fst ` set ps = ids"
  shows "patch (filed_in uid ids fs) (follow uid ps) fs = map (follow uid ps) fs"
proof -
  have "map_of ps k = None \<longleftrightarrow> k \<notin> ids" for k using assms by (simp add: map_of_eq_None_iff)
  then have "follow uid ps f = f" if "f \<in> set fs" "f \<notin> filed_in uid ids fs" for f
    using that by (auto simp: filed_in_def follow_def split: option.split) (metis option.distinct(1))
  then show ?thesis by (auto simp: patch_def)
qed

text \<open>The rows of the subtree get the new prefix, their files follow, nothing else changes.\<close>

lemma rename_folder_tx_ok:
  assumes run: "rename_folder_tx i nm uid T s = (Inr (Inr np), s')" and tx: "in_tx T" and inv: "db_inv (sdb s)"
    and forest: "forest (sdb s)"
  obtains root pp bd ps where "root \<in> set (folders (sdb s))" "d_id root = i" "d_user_id root = uid"
    "base (folders (sdb s)) uid (d_parent_id root) = Some (pp, bd)" "np = BuildFolderPath pp nm"
    "set ps = (\<lambda>r. (d_id r, np @ drop (length (d_path root)) (d_path r))) ` subtree (folders (sdb s)) uid root"
    "sdb s' = (sdb s)\<lparr>folders := patch (subtree (folders (sdb s)) uid root) (renamed_row i nm np (d_path root)) (folders (sdb s)),
                     files := map (follow uid ps) (files (sdb s))\<rparr>"
proof -
  note [simp] = seen_tx [OF tx]
  let ?d = "sdb s"
  from inv have dist: "distinct (map d_id (folders ?d))" "distinct (map f_id (files ?d))"
    by (simp_all add: db_inv_def folders_inv_def files_inv_def)
  from run obtain root s1 u s2 occ s3 pp s4 rs s5 v s6 fs s7 w where
    a: "FindOwnedFolderForUpdate T i uid s = (Inr (Some root), s1)"
    and b: "Folder_AcquireNameLock T uid (d_parent_id root) nm s1 = (Inr u, s2)"
    and c: "(if d_name root \<noteq> nm then Folder_NameExistsExcluding T nm (d_parent_id root) uid i else retM False) s2 = (Inr occ, s3)"
    and e: "(if d_parent_id root > 0 then bindM (FindOwnedFolderForUpdate T (d_parent_id root) uid) (\<lambda>parent.
                case parent of None \<Rightarrow> failR (ErrorInfo1 FolderNotFound) | Some p \<Rightarrow> okR (d_path p)) else okR ''/'') s3 = (Inr (Inr pp), s4)"
    and f: "FetchFolderSubtree T i uid s4 = (Inr rs, s5)"
    and np: "np = BuildFolderPath pp nm"
    and g: "rename_subtree T uid i nm np (d_path root) rs s5 = (Inr (Inr v), s6)"
    and h: "FetchFilesInFolders T (map fst (folder_paths np (d_path root) rs)) uid s6 = (Inr fs, s7)"
    and k: "repath_files T uid (ErrorInfo2 InternalError ''Failed to rename folder'') (folder_paths np (d_path root) rs) fs s7 = (Inr (Inr w), s')"
    unfolding rename_folder_tx_def Let_def by (auto simp: guard_iffs elim!: bindM_okE bindR_okE)
  from a have root: "root \<in> set (folders ?d)" "d_id root = i" "d_user_id root = uid" and s1: "sdb s1 = ?d"
    by (auto simp: FindOwnedFolderForUpdate_def owned_folder_def dest!: pure_ok find_row_Some [OF sym])
  from b c s1 have s3: "sdb s3 = ?d"
    by (auto simp: Folder_AcquireNameLock_def Folder_NameExistsExcluding_def dest!: pure_ok split: if_splits)
  from e s3 obtain bd where base: "base (folders ?d) uid (d_parent_id root) = Some (pp, bd)" and s4: "sdb s4 = ?d"
    by (auto simp: base_def FindOwnedFolderForUpdate_def elim!: bindM_okE dest!: pure_ok split: if_splits option.splits)
  let ?S = "subtree (folders ?d) uid root" and ?u = "renamed_row i nm np (d_path root)" and ?ps = "folder_paths np (d_path root) rs"
  from FetchFolderSubtree_ok [OF f tx] dist forest s4 root(2) have rs: "sdb s5 = ?d" "distinct rs" "set rs = ?S"
    by (simp_all add: subtree_def)
  have S: "?S \<subseteq> set (folders ?d)" "\<forall>r \<in> ?S. d_user_id r = uid" using below_row by (auto simp: subtree_def)
  have s6: "sdb s6 = ?d\<lparr>folders := patch ?S ?u (folders ?d)\<rparr>"
    using rename_subtree_ok [OF g tx, of "{}" "folders ?d"] rs S dist by (simp del: Un_iff)
  have ids: "fst ` set ?ps = d_id ` ?S" by (simp add: folder_paths_def rs(3) image_image)
  from FetchFilesInFolders_ok [OF h tx] s6 have s7: "sdb s7 = sdb s6" and fs: "set fs = filed_in uid (d_id ` ?S) (files ?d)"
    by (simp_all add: ids)
  have sub: "set fs \<subseteq> set (files ?d)" "\<forall>f \<in> set fs. f_user_id f = uid" unfolding fs by (auto simp: filed_in_def)
  have "files (sdb s7) = patch {} (follow uid ?ps) (files ?d)" by (simp add: s7 s6)
  from repath_files_ok [OF k tx this dist(2) sub(1) empty_subsetI sub(2)]
  have "sdb s' = (sdb s6)\<lparr>files := patch (filed_in uid (d_id ` ?S) (files ?d)) (follow uid ?ps) (files ?d)\<rparr>"
    by (simp only: s7 fs Un_empty_left)
  then have res: "sdb s' = ?d\<lparr>folders := patch ?S ?u (folders ?d), files := map (follow uid ?ps) (files ?d)\<rparr>"
    by (simp add: s6 patch_follow [OF ids])
  have "set ?ps = (\<lambda>r. (d_id r, np @ drop (length (d_path root)) (d_path r))) ` ?S" by (simp add: folder_paths_def rs(3))
  from that [OF root base np this res] show thesis .
qed

lemma db_rows_pos: "db_inv d \<Longrightarrow> r \<in> set (folders d) \<Longrightarrow> 0 < d_id r"
  by (auto simp: db_inv_def folders_inv_def)

lemma rename_folder_tx_paths:
  assumes run: "rename_folder_tx i nm uid T s = (Inr (Inr np), s')" and tx: "in_tx T" and inv: "db_inv (sdb s)"
    and forest: "forest (sdb s)" and ok: "paths_ok (sdb s)"
  shows "paths_ok (sdb s')"
proof -
  let ?d = "sdb s" let ?ds = "folders ?d"
  from rename_folder_tx_ok [OF run tx inv forest] obtain root pp bd ps where
    root: "root \<in> set ?ds" "d_id root = i" "d_user_id root = uid"
    and base: "base ?ds uid (d_parent_id root) = Some (pp, bd)" and np: "np = BuildFolderPath pp nm"
    and ps: "set ps = (\<lambda>r. (d_id r, np @ drop (length (d_path root)) (d_path r))) ` subtree ?ds uid root"
    and s': "sdb s' = ?d\<lparr>folders := patch (subtree ?ds uid root) (renamed_row i nm np (d_path root)) ?ds,
                     files := map (follow uid ps) (files ?d)\<rparr>" .
  let ?S = "subtree ?ds uid root" and ?u = "renamed_row i nm np (d_path root)"
  have dist: "distinct (map d_id ?ds)" using inv by (simp add: db_inv_def folders_inv_def)
  have pos: "\<forall>r \<in> set ?ds. 0 < d_id r" using db_rows_pos [OF inv] by blast
  have fok: "\<forall>r \<in> set ?ds. folder_path_ok ?ds r" using ok by (simp add: paths_ok_def)
  have S: "\<forall>r \<in> ?S. r \<in> set ?ds \<and> d_user_id r = uid" using below_row by (auto simp: subtree_def)
  have "exchanges ?S root np 0 ?u"
    using S root dist by (auto simp: exchanges_def keeps_owner_rows renamed_row_def distinct_map dest: inj_onD)
  moreover have "d_parent_id (?u root) \<notin> d_id ` ?S" using parent_apart [OF forest root(1,3)] by (simp add: renamed_row_def)
  moreover have "int (d_depth root) + 0 = int bd + 1" using fok root(1,3) base by (auto simp: folder_path_ok_def)
  ultimately have "folder_path_ok (patch ?S ?u ?ds) c" if "c \<in> set (patch ?S ?u ?ds)" for c
    using patched_folder_paths [OF dist pos fok root(1,3), of np 0 ?u pp bd c] base np root(2) that
    by (simp add: renamed_row_def)
  moreover have "set ps = (\<lambda>r. (d_id r, d_path (?u r))) ` ?S" by (simp add: ps renamed_row_def)
  then have "file_path_ok (patch ?S ?u ?ds) (follow uid ps f)" if "f \<in> set (files ?d)" for f
    using patched_file_path [OF dist pos keeps_owner_rows(1) S] ok that by (auto simp: paths_ok_def)
  moreover have "f_folder_id (follow uid ps f) = f_folder_id f" for f by (simp add: follow_def split: option.split)
  ultimately show ?thesis using ok by (simp add: paths_ok_def s')
qed

section \<open>Creating a folder and renaming a file\<close>

text \<open>Item counts play no role for paths.\<close>

lemma base_idents:
  assumes "map folder_ident ds = map folder_ident ds'"
  shows "base ds = base ds'"
proof -
  have "map_option (\<lambda>r. (d_path r, d_depth r)) (find_row (owned_folder p uid) xs) =
      map_option (\<lambda>(i, u, q, nm, path, depth). (path, depth)) (find_row (\<lambda>(i, u, _). i = p \<and> u = uid) (map folder_ident xs))"
    for p uid xs by (induction xs) (simp_all add: find_row_def owned_folder_def folder_ident_def)
  with assms show ?thesis by (simp add: base_def fun_eq_iff)
qed

lemma paths_ok_idents:
  assumes "paths_ok d" and "map folder_ident (folders d') = map folder_ident (folders d)" and "files d' = files d"
    and "seq_folders d \<le> seq_folders d'"
  shows "paths_ok d'"
proof -
  note b = base_idents [OF assms(2)]
  have "folder_path_ok (folders d') r'" if r': "r' \<in> set (folders d')" for r'
  proof -
    have "folder_ident r' \<in> set (map folder_ident (folders d'))" using r' by simp
    then obtain r where r: "r \<in> set (folders d)" "folder_ident r' = folder_ident r" unfolding assms(2) by auto
    with assms(1) have "folder_path_ok (folders d) r" by (simp add: paths_ok_def)
    with r(2) show ?thesis by (simp add: folder_path_ok_def b folder_ident_def)
  qed
  then show ?thesis using assms(1,3,4) by (auto simp: paths_ok_def file_path_ok_def b)
qed

lemma find_append: "List.find P (xs @ ys) = (case List.find P xs of None \<Rightarrow> List.find P ys | Some x \<Rightarrow> Some x)"
  by (induction xs) simp_all

lemma base_insert: "p \<noteq> d_id q \<Longrightarrow> base (ds @ [q]) uid p = base ds uid p"
  by (auto simp: base_def find_row_def owned_folder_def find_append split: option.split)

lemma create_folder_tx_paths:
  assumes run: "create_folder_tx request uid T s = (Inr (Inr r), s')" and tx: "in_tx T" and inv: "db_inv (sdb s)"
    and forest: "forest (sdb s)" and ok: "paths_ok (sdb s)"
  shows "paths_ok (sdb s') \<and> r \<in> set (folders (sdb s')) \<and> d_name r = cf_name request \<and> d_parent_id r = cf_parent_id request"
proof -
  let ?p = "cf_parent_id request" and ?d = "sdb s"
  from run obtain u s1 loc s2 where
    lock: "Folder_AcquireNameLock T uid ?p (cf_name request) s = (Inr u, s1)"
    and parent: "(if ?p > 0 then bindM (ApplyItemCountDelta T ?p uid 1) (\<lambda>parent_updated.
                if \<not> parent_updated then failR (ErrorInfo1 FolderNotFound)
                else bindM (FindOwnedFolder T ?p uid) (\<lambda>parent.
                  case parent of
                    None \<Rightarrow> failR (ErrorInfo1 FolderNotFound)
                  | Some p \<Rightarrow> okR \<lparr>loc_path = d_path p, loc_depth = d_depth p\<rparr>))
         else okR \<lparr>loc_path = ''/'', loc_depth = 0\<rparr>) s1 = (Inr (Inr loc), s2)"
    and ins: "InsertIfNameAvailable T \<lparr>d_id = 0, d_user_id = uid, d_parent_id = ?p, d_name = cf_name request,
           d_path = BuildFolderPath (loc_path loc) (cf_name request), d_depth = loc_depth loc + 1,
           d_item_count = 0\<rparr> s2 = (Inr (Some r), s')"
    unfolding create_folder_tx_def Let_def by (auto simp: guard_iffs elim!: bindR_okE bindM_okE)
  have s1: "sdb s1 = ?d"
    by (rule keeps_db_reads [where m = "Folder_AcquireNameLock T uid ?p (cf_name request)", OF lock]) (rule keeps_drive_reads [OF tx])
  have "\<exists>ds. sdb s2 = ?d\<lparr>folders := ds\<rparr> \<and> map folder_ident ds = map folder_ident (folders ?d) \<and>
      base ds uid ?p = Some (loc_path loc, loc_depth loc) \<and> (?p = 0 \<or> ?p \<in> d_id ` set ds)"
  proof (cases "?p > 0")
    case True
    with parent obtain s3 q where a: "ApplyItemCountDelta T ?p uid 1 s1 = (Inr True, s3)"
      and f: "FindOwnedFolder T ?p uid s3 = (Inr (Some q), s2)" and loc: "loc = \<lparr>loc_path = d_path q, loc_depth = d_depth q\<rparr>"
      by (auto simp: guard_iffs elim!: bindM_okE)
    from a tx s1 have s3: "sdb s3 = ?d\<lparr>folders := counted ?p uid 1 (folders ?d)\<rparr>"
      by (auto simp: ApplyItemCountDelta_def counted_def elim!: exec_okE)
    from f tx have "sdb s2 = sdb s3" and q: "find_row (owned_folder ?p uid) (folders (sdb s3)) = Some q"
      by (auto simp: FindOwnedFolder_def dest!: pure_ok)
    moreover have "base (folders (sdb s3)) uid ?p = Some (loc_path loc, loc_depth loc)"
      using q True by (simp add: base_def loc)
    moreover have "?p \<in> d_id ` set (folders (sdb s3))" using find_row_Some [OF q] by (force simp: owned_folder_def)
    ultimately show ?thesis using s3 by (intro exI [of _ "counted ?p uid 1 (folders ?d)"]) simp
  next
    case False
    with parent s1 show ?thesis by (intro exI [of _ "folders ?d"]) (auto simp: base_def)
  qed
  then obtain ds where s2: "sdb s2 = ?d\<lparr>folders := ds\<rparr>" and ds: "map folder_ident ds = map folder_ident (folders ?d)"
    and loc: "base ds uid ?p = Some (loc_path loc, loc_depth loc)" and p: "?p = 0 \<or> ?p \<in> d_id ` set ds" by blast
  have ok2: "paths_ok (sdb s2)" by (rule paths_ok_idents [OF ok]) (simp_all add: s2 ds)
  have f2: "forest (sdb s2)" by (rule forest_idents [OF forest]) (simp_all add: s2 ds)
  let ?n = "seq_folders ?d"
  from ins tx have r: "d_id r = Suc ?n" "d_user_id r = uid" "d_parent_id r = ?p" "d_name r = cf_name request"
      "d_path r = BuildFolderPath (loc_path loc) (cf_name request)" "d_depth r = loc_depth loc + 1"
    and s': "sdb s' = (sdb s2)\<lparr>folders := ds @ [r], seq_folders := Suc ?n\<rparr>"
    unfolding InsertIfNameAvailable_def
    by (auto simp: insert_if_available_def Let_def s2 elim!: exec_okE split: if_splits)
  have le: "d_id x \<le> ?n" "d_parent_id x \<le> ?n" if "x \<in> set ds" for x
    using f2 that by (auto simp: s2 forest_def is_forest_def place_def)
  have old: "base (ds @ [r]) w k = base ds w k" if "k \<le> ?n" for w k
    by (rule base_insert) (use that r(1) in simp)
  have "folder_path_ok (ds @ [r]) x" if "x \<in> set ds" for x
    using ok2 that le [OF that] by (simp add: paths_ok_def folder_path_ok_def old s2)
  moreover have "?p \<le> ?n" using p le by auto
  then have "folder_path_ok (ds @ [r]) r" using loc by (simp add: folder_path_ok_def r old)
  moreover have "\<forall>f \<in> set (files ?d). file_path_ok (ds @ [r]) f \<and> f_folder_id f \<le> Suc ?n"
    using ok2 by (fastforce simp: paths_ok_def file_path_ok_def old s2)
  ultimately show ?thesis by (simp add: s' s2 paths_ok_def r)
qed

lemma rename_file_tx_paths:
  assumes run: "rename_file_tx i nm uid T s = (Inr (Inr k), s')" and tx: "in_tx T" and inv: "db_inv (sdb s)"
    and ok: "paths_ok (sdb s)"
  shows "paths_ok (sdb s') \<and> (\<exists>f \<in> set (files (sdb s')). f_id f = i \<and> f_user_id f = uid \<and> f_name f = nm)"
proof -
  note [simp] = seen_tx [OF tx]
  let ?d = "sdb s"
  from run obtain f s1 u s2 occ s3 loc s4 s5 where
    a: "FindOwnedFileForUpdate T i uid s = (Inr (Some f), s1)"
    and b: "File_AcquireNameLock T uid (f_folder_id f) nm s1 = (Inr u, s2)"
    and c: "(if f_name f \<noteq> nm then File_NameExistsExcluding T nm (f_folder_id f) uid i else retM False) s2 = (Inr occ, s3)"
    and e: "ResolveOwnedFolderLocation T (f_folder_id f) uid s3 = (Inr (Inr loc), s4)"
    and g: "RenameOwnedFile T i uid nm (ExtractFileExtension nm) (BuildFilePath (loc_path loc) nm) s4 = (Inr True, s5)" and "s' = s5"
    unfolding rename_file_tx_def Let_def by (auto simp: guard_iffs elim!: bindM_okE bindR_okE)
  from a have f: "f \<in> set (files ?d)" "f_id f = i" "f_user_id f = uid" and s1: "sdb s1 = ?d"
    by (auto simp: FindOwnedFileForUpdate_def owned_file_def dest!: pure_ok find_row_Some [OF sym])
  from b c s1 have s3: "sdb s3 = ?d"
    by (auto simp: File_AcquireNameLock_def File_NameExistsExcluding_def dest!: pure_ok split: if_splits)
  from e s3 obtain bd where base: "base (folders ?d) uid (f_folder_id f) = Some (loc_path loc, bd)" and s4: "sdb s4 = ?d"
    by (auto simp: base_def ResolveOwnedFolderLocation_def elim!: bindM_okE dest!: catchDb_okD pure_ok split: if_splits option.splits)
  let ?g = "\<lambda>f. f\<lparr>f_name := nm, f_extension := ExtractFileExtension nm, f_path := BuildFilePath (loc_path loc) nm\<rparr>"
  from g s4 tx have s': "sdb s' = ?d\<lparr>files := update_where (owned_file i uid) ?g (files ?d)\<rparr>"
    by (simp add: RenameOwnedFile_def update_file_ok \<open>s' = s5\<close>)
  have dist: "distinct (map f_id (files ?d))" using inv by (simp add: db_inv_def files_inv_def)
  have "file_path_ok (folders ?d) x \<and> f_folder_id x \<le> seq_folders ?d" if x: "x \<in> set (update_where (owned_file i uid) ?g (files ?d))" for x
  proof -
    from x obtain y where y: "y \<in> set (files ?d)" "x = (if owned_file i uid y then ?g y else y)" by (auto simp: mem_update_where)
    show ?thesis
    proof (cases "owned_file i uid y")
      case True
      then have "y = f" using f y(1) dist by (auto simp: owned_file_def distinct_map dest: inj_onD)
      with True y base f ok show ?thesis by (auto simp: file_path_ok_def paths_ok_def)
    next
      case False
      with y ok show ?thesis by (auto simp: paths_ok_def)
    qed
  qed
  then have "paths_ok (sdb s')" using ok by (simp add: paths_ok_def s')
  moreover have "?g f \<in> set (files (sdb s'))" using f by (force simp: s' mem_update_where owned_file_def)
  ultimately show ?thesis using f by (intro conjI bexI [of _ "?g f"]) simp_all
qed

end
