(* ===== verification/Move_Paths.thy ===== *)
theory Move_Paths
  imports Folder_Paths
begin

text \<open>
  Moving files and folders keeps the paths consistent, provided that the location the request
  resolved for its target is still the one the transaction finds, and that no requested folder
  lies below another.  Both provisos are needed.
\<close>

section \<open>Moving files\<close>

text \<open>What moving files leaves alone, with the bases of all places.\<close>

definition file_names :: "file_row list \<Rightarrow> (nat \<times> nat \<times> string) list" where
  "file_names fs = map (\<lambda>f. (f_id f, f_user_id f, f_name f)) fs"

definition filed_ok :: "'w db \<Rightarrow> 'w db \<Rightarrow> bool" where
  "filed_ok d0 d \<longleftrightarrow> map folder_ident (folders d) = map folder_ident (folders d0) \<and> seq_folders d = seq_folders d0 \<and>
     file_names (files d) = file_names (files d0) \<and>
     (\<forall>f \<in> set (files d). file_path_ok (folders d0) f \<and> f_folder_id f \<le> seq_folders d0)"

lemma filed_ok_refl: "paths_ok d \<Longrightarrow> filed_ok d d"
  by (simp add: filed_ok_def paths_ok_def)

lemma filed_ok_paths: "filed_ok d0 d \<Longrightarrow> paths_ok d0 \<Longrightarrow> paths_ok d"
proof -
  assume filed: "filed_ok d0 d" and ok: "paths_ok d0"
  have b: "base (folders d) = base (folders d0)" by (rule base_idents) (use filed in \<open>simp add: filed_ok_def\<close>)
  have "paths_ok (d0\<lparr>folders := folders d\<rparr>)"
    by (rule paths_ok_idents [OF ok]) (use filed in \<open>simp_all add: filed_ok_def\<close>)
  then have "\<forall>r \<in> set (folders d). folder_path_ok (folders d) r" by (simp add: paths_ok_def)
  moreover have "\<forall>f \<in> set (files d). file_path_ok (folders d) f \<and> f_folder_id f \<le> seq_folders d"
    using filed by (simp add: filed_ok_def file_path_ok_def b)
  ultimately show "paths_ok d" by (simp add: paths_ok_def)
qed

lemma keeps_filed_ok_count: "in_tx T \<Longrightarrow> keeps (filed_ok d0) (ApplyItemCountDelta T i uid k)"
  unfolding ApplyItemCountDelta_def
  by (rule keeps_tx_exec) (auto simp: filed_ok_def folder_ident_counted [unfolded counted_def])

lemma keeps_filed_ok_location:
  assumes "in_tx T" and "distinct (map f_id (files d0))" and "(i, uid, nm) \<in> set (file_names (files d0))"
    and "base (folders d0) uid t = Some (loc_path loc, bd)" and "t \<le> seq_folders d0"
  shows "keeps (filed_ok d0) (UpdateFileLocation T i uid t (BuildFilePath (loc_path loc) nm))"
  unfolding UpdateFileLocation_def
proof (rule keeps_tx_exec [OF assms(1)])
  fix d d' :: "'a db" and v
  let ?g = "\<lambda>f. f\<lparr>f_folder_id := t, f_path := BuildFilePath (loc_path loc) nm\<rparr>"
  assume ok: "filed_ok d0 d" and "update_file i uid ?g d = (Inr v, d')"
  then have d': "d' = d\<lparr>files := update_where (owned_file i uid) ?g (files d)\<rparr>"
    by (auto simp: update_file_def split: if_splits)
  have names: "file_names (update_where (owned_file i uid) ?g fs) = file_names fs" for fs
    by (simp add: file_names_def update_where_def)
  have dist: "distinct (map fst (file_names (files d0)))" using assms(2) by (simp add: file_names_def comp_def)
  have "f_name f = nm" if "f \<in> set (files d)" "owned_file i uid f" for f
  proof -
    have "(f_id f, f_user_id f, f_name f) \<in> set (file_names (files d0))"
      using ok that(1) unfolding filed_ok_def by (metis (no_types, lifting) file_names_def image_eqI list.set_map)
    moreover have "inj_on fst (set (file_names (files d0)))" using dist by (simp add: distinct_map)
    ultimately have "(f_id f, f_user_id f, f_name f) = (i, uid, nm)"
      using inj_onD [of fst _ "(f_id f, f_user_id f, f_name f)" "(i, uid, nm)"] that(2) assms(3) by (simp add: owned_file_def)
    then show ?thesis by simp
  qed
  then have "file_path_ok (folders d0) (?g f)" if "f \<in> set (files d)" "owned_file i uid f" for f
    using that assms(4) by (simp add: file_path_ok_def owned_file_def)
  with ok assms(5) show "filed_ok d0 d'"
    by (auto simp: filed_ok_def d' names mem_update_where)
qed

lemma keeps_filed_ok_files:
  assumes "in_tx T" and "distinct (map f_id (files d0))"
    and "\<And>f. f \<in> set fetched \<Longrightarrow> (f_id f, uid, f_name f) \<in> set (file_names (files d0))"
    and "base (folders d0) uid t = Some (loc_path loc, bd)" and "t \<le> seq_folders d0"
  shows "keeps (filed_ok d0) (move_files T uid t loc fetched ids occ ds n)"
proof (induction ids arbitrary: occ ds n)
  case (Cons i ids)
  have "keeps (filed_ok d0) (UpdateFileLocation T i uid t (BuildFilePath (loc_path loc) (f_name f)))"
    if "find_row (\<lambda>f. f_id f = i) fetched = Some f" for f
    by (rule keeps_filed_ok_location [OF assms(1,2) _ assms(4,5)])
       (use find_row_Some [OF that] assms(3) [of f] in simp)
  with Cons show ?case by (auto intro!: keeps_intros simp: Let_def split: option.split)
qed (simp add: keeps_intros)

lemma keeps_filed_ok_deltas: "in_tx T \<Longrightarrow> keeps (filed_ok d0) (apply_move_deltas T uid ds)"
  by (induction T uid ds rule: apply_move_deltas.induct) (auto intro!: keeps_intros keeps_filed_ok_count)

lemma move_all_files_paths:
  assumes run: "move_all_files ord T uid t loc ids s = (Inr r, s')" and tx: "in_tx T"
    and dist: "distinct (map f_id (files (sdb s)))" and ok: "paths_ok (sdb s)"
    and t: "base (folders (sdb s)) uid t = Some (loc_path loc, bd)" "t \<le> seq_folders (sdb s)"
  shows "filed_ok (sdb s) (sdb s')"
proof (cases "ids = []")
  case True
  with run ok show ?thesis by (simp add: move_all_files_def okR_def filed_ok_refl)
next
  case False
  let ?lock = "\<lambda>ns. lock_names (File_AcquireNameLock T uid t) ns"
  from False run obtain fetched s1 where f: "FetchOwnedFilesByIdsForUpdate T ids uid s = (Inr fetched, s1)"
    and rest: "bindM (?lock (normalize_names (map f_name (filter (\<lambda>f. f_folder_id f \<noteq> t) fetched)))) (\<lambda>_.
       move_file_batches ord T uid t loc fetched (batches DEFAULT_BATCH_CHUNK_SIZE ids) 0) s1 = (Inr r, s')"
    unfolding move_all_files_def by (auto elim: bindM_okE)
  note fetched = FetchOwnedFiles_ok [OF f tx dist]
  have names: "(f_id f, uid, f_name f) \<in> set (file_names (files (sdb s)))" if "f \<in> set fetched" for f
    using fetched that by (auto simp: file_names_def)
  have "keeps (filed_ok (sdb s)) (move_file_batches ord T uid t loc fetched cs n)" for cs n
    by (induction cs arbitrary: n)
       (auto intro!: keeps_intros keeps_drive_reads keeps_filed_ok_files [OF tx dist names t] keeps_filed_ok_deltas tx split: prod.split)
  then have "keeps (filed_ok (sdb s)) (bindM (?lock ns) (\<lambda>_. move_file_batches ord T uid t loc fetched cs n))" for ns cs n
    by (intro keeps_intros keeps_lock_names keeps_drive_reads tx)
  from keepsD' [OF this _ rest] show ?thesis using fetched filed_ok_refl [OF ok] by simp
qed

section \<open>Moving a folder\<close>

definition plan_current :: "nat \<Rightarrow> 'w db \<Rightarrow> FolderDeletePlan \<Rightarrow> bool" where
  "plan_current uid d p \<longleftrightarrow> pl_root p \<in> set (folders d) \<and> d_user_id (pl_root p) = uid \<and> distinct (pl_folders p) \<and>
     set (pl_folders p) = subtree (folders d) uid (pl_root p) \<and>
     set (pl_files p) = filed_in uid (d_id ` subtree (folders d) uid (pl_root p)) (files d)"

definition move_target :: "nat \<Rightarrow> FolderLocation \<Rightarrow> FolderDeletePlan \<Rightarrow> folder_row \<Rightarrow> folder_row" where
  "move_target t loc p = moved_row (d_id (pl_root p)) t (BuildFolderPath (loc_path loc) (d_name (pl_root p))) (d_path (pl_root p))
     (int (loc_depth loc) + 1 - int (d_depth (pl_root p)))"

lemma count_moved_ok:
  assumes "count_moved T uid i k s = (Inr (Inr u), s')" and "in_tx T"
  obtains g where "sdb s' = (sdb s)\<lparr>folders := map g (folders (sdb s))\<rparr>" "\<forall>r. folder_ident (g r) = folder_ident r"
    "\<forall>r. \<not> owned_folder i uid r \<longrightarrow> g r = r"
proof (cases "i > 0")
  case True
  let ?g = "\<lambda>r. if owned_folder i uid r then r\<lparr>d_item_count := max (d_item_count r + k) 0\<rparr> else r"
  show thesis
    by (rule that [of ?g])
       (use True assms in \<open>auto simp: count_moved_def ApplyItemCountDelta_def update_where_def folder_ident_def
          elim!: bindM_okE exec_okE split: if_splits\<close>)
next
  case False
  with assms(1) show thesis by (intro that [of "\<lambda>r. r"]) (simp_all add: count_moved_def)
qed

lemma move_folder_ok:
  assumes run: "move_folder T uid t loc p s = (Inr (Inr v), s')" and tx: "in_tx T" and cur: "plan_current uid (sdb s) p"
    and dist: "distinct (map d_id (folders (sdb s)))" "distinct (map f_id (files (sdb s)))"
  defines "S \<equiv> subtree (folders (sdb s)) uid (pl_root p)"
  obtains g ps where "\<forall>r. folder_ident (g r) = folder_ident r"
    "\<forall>r. \<not> owned_folder (d_parent_id (pl_root p)) uid r \<longrightarrow> \<not> owned_folder t uid r \<longrightarrow> g r = r"
    "set ps = (\<lambda>r. (d_id r, d_path (move_target t loc p r))) ` S"
    "sdb s' = (sdb s)\<lparr>folders := map g (patch S (move_target t loc p) (folders (sdb s))), files := map (follow uid ps) (files (sdb s))\<rparr>"
proof -
  let ?d = "sdb s" and ?root = "pl_root p" and ?u = "move_target t loc p"
  let ?np = "BuildFolderPath (loc_path loc) (d_name ?root)"
  let ?ps = "folder_paths ?np (d_path ?root) (pl_folders p)"
  from run obtain x s1 y s2 z s3 where
    a: "move_subtree T uid t (d_id ?root) ?np (d_path ?root) (int (loc_depth loc) + 1 - int (d_depth ?root)) (pl_folders p) s = (Inr (Inr x), s1)"
    and b: "repath_files T uid move_failed ?ps (pl_files p) s1 = (Inr (Inr y), s2)"
    and c: "count_moved T uid (d_parent_id ?root) (- 1) s2 = (Inr (Inr z), s3)"
    and e: "count_moved T uid t 1 s3 = (Inr (Inr v), s')"
    unfolding move_folder_def Let_def by (auto elim!: bindR_okE)
  have S: "S \<subseteq> set (folders ?d)" "\<forall>r \<in> S. d_user_id r = uid" using below_row by (auto simp: S_def subtree_def)
  have fs: "distinct (pl_folders p)" "set (pl_folders p) = S" "set (pl_files p) = filed_in uid (d_id ` S) (files ?d)"
    using cur by (simp_all add: plan_current_def S_def)
  have "folders ?d = patch {} ?u (folders ?d)" by simp
  then have s1: "sdb s1 = ?d\<lparr>folders := patch S ?u (folders ?d)\<rparr>"
    using move_subtree_ok [OF a tx _ dist(1) fs(1), of "{}"] S fs(2) unfolding move_target_def by simp
  have ids: "fst ` set ?ps = d_id ` S" by (simp add: folder_paths_def fs(2) image_image)
  have sub: "set (pl_files p) \<subseteq> set (files ?d)" "\<forall>f \<in> set (pl_files p). f_user_id f = uid" unfolding fs(3) by (auto simp: filed_in_def)
  have "files (sdb s1) = patch {} (follow uid ?ps) (files ?d)" by (simp add: s1)
  from repath_files_ok [OF b tx this dist(2) sub(1) empty_subsetI sub(2)]
  have "sdb s2 = (sdb s1)\<lparr>files := patch (filed_in uid (d_id ` S) (files ?d)) (follow uid ?ps) (files ?d)\<rparr>"
    by (simp only: fs(3) Un_empty_left)
  then have s2: "sdb s2 = ?d\<lparr>folders := patch S ?u (folders ?d), files := map (follow uid ?ps) (files ?d)\<rparr>"
    by (simp add: s1 patch_follow [OF ids])
  obtain g where g: "sdb s3 = (sdb s2)\<lparr>folders := map g (folders (sdb s2))\<rparr>" "\<forall>r. folder_ident (g r) = folder_ident r"
    "\<forall>r. \<not> owned_folder (d_parent_id ?root) uid r \<longrightarrow> g r = r"
    by (rule count_moved_ok [OF c tx])
  obtain h where h: "sdb s' = (sdb s3)\<lparr>folders := map h (folders (sdb s3))\<rparr>" "\<forall>r. folder_ident (h r) = folder_ident r"
    "\<forall>r. \<not> owned_folder t uid r \<longrightarrow> h r = r"
    by (rule count_moved_ok [OF e tx])
  show thesis
  proof (rule that [of "h \<circ> g" ?ps])
    show "set ?ps = (\<lambda>r. (d_id r, d_path (?u r))) ` S" by (simp add: folder_paths_def fs(2) move_target_def moved_row_def)
    show "sdb s' = ?d\<lparr>folders := map (h \<circ> g) (patch S ?u (folders ?d)), files := map (follow uid ?ps) (files ?d)\<rparr>"
      by (simp add: h(1) g(1) s2)
  qed (simp_all add: g h)
qed

lemma move_folder_paths:
  assumes run: "move_folder T uid t loc p s = (Inr (Inr v), s')" and tx: "in_tx T" and cur: "plan_current uid (sdb s) p"
    and inv: "db_inv (sdb s)" and ok: "paths_ok (sdb s)"
    and t: "base (folders (sdb s)) uid t = Some (loc_path loc, loc_depth loc)" "t \<notin> set (plan_folder_ids p)"
  shows "paths_ok (sdb s')"
proof -
  let ?d = "sdb s" let ?ds = "folders ?d" and ?root = "pl_root p" and ?u = "move_target t loc p"
  let ?S = "subtree ?ds uid ?root"
  have dist: "distinct (map d_id ?ds)" "distinct (map f_id (files ?d))" using inv by (simp_all add: db_inv_def folders_inv_def files_inv_def)
  obtain g ps where g: "\<forall>r. folder_ident (g r) = folder_ident r"
    "\<forall>r. \<not> owned_folder (d_parent_id ?root) uid r \<longrightarrow> \<not> owned_folder t uid r \<longrightarrow> g r = r"
    and ps: "set ps = (\<lambda>r. (d_id r, d_path (?u r))) ` ?S"
    and s': "sdb s' = ?d\<lparr>folders := map g (patch ?S ?u ?ds), files := map (follow uid ps) (files ?d)\<rparr>"
    by (rule move_folder_ok [OF run tx cur dist])
  have pos: "\<forall>r \<in> set ?ds. 0 < d_id r" using db_rows_pos [OF inv] by blast
  have fok: "\<forall>r \<in> set ?ds. folder_path_ok ?ds r" using ok by (simp add: paths_ok_def)
  have root: "?root \<in> set ?ds" "d_user_id ?root = uid" using cur by (simp_all add: plan_current_def)
  have S: "\<forall>r \<in> ?S. r \<in> set ?ds \<and> d_user_id r = uid" using below_row by (auto simp: subtree_def)
  have keep: "keeps_owner ?u" by (simp add: move_target_def keeps_owner_rows)
  have ex: "exchanges ?S ?root (BuildFolderPath (loc_path loc) (d_name ?root)) (int (loc_depth loc) + 1 - int (d_depth ?root)) ?u"
    using S root dist(1) keep
    by (auto simp: exchanges_def move_target_def moved_row_def shift_depth_def distinct_map dest: inj_onD)
  have apart: "t \<notin> d_id ` ?S" using t(2) cur by (simp add: plan_folder_ids_def plan_current_def)
  have new: "d_parent_id (?u ?root) = t" "d_name (?u ?root) = d_name ?root" by (simp_all add: move_target_def moved_row_def)
  have fold: "folder_path_ok (patch ?S ?u ?ds) c" if "c \<in> set (patch ?S ?u ?ds)" for c
    by (rule patched_folder_paths [OF dist(1) pos fok root ex, of "loc_path loc" "loc_depth loc" c, unfolded new])
       (use apart t(1) that in simp_all)
  have "file_path_ok (patch ?S ?u ?ds) (follow uid ps f)" if "f \<in> set (files ?d)" for f
    using patched_file_path [OF dist(1) pos keep S ps] ok that by (auto simp: paths_ok_def)
  moreover have "f_folder_id (follow uid ps f) = f_folder_id f" for f by (simp add: follow_def split: option.split)
  ultimately have "paths_ok (?d\<lparr>folders := patch ?S ?u ?ds, files := map (follow uid ps) (files ?d)\<rparr>)"
    using fold ok by (simp add: paths_ok_def)
  then show ?thesis by (rule paths_ok_idents) (simp_all add: s' g comp_def)
qed

section \<open>Moving several folders\<close>

text \<open>A subtree that a change of the table leaves alone, and to which it adds nothing.\<close>

lemma subtree_stable:
  assumes dist: "distinct (map d_id ds)" and root: "root \<in> set ds" "d_user_id root = uid"
    and h: "\<And>r. d_id (h r) = d_id r" "\<And>r. d_user_id (h r) = d_user_id r"
    and same: "\<And>r. r \<in> subtree ds uid root \<Longrightarrow> h r = r"
    and out: "\<And>r. r \<in> set ds \<Longrightarrow> r \<notin> subtree ds uid root \<Longrightarrow> d_user_id r = uid \<Longrightarrow> d_parent_id (h r) \<notin> d_id ` subtree ds uid root"
  shows "subtree (map h ds) uid root = subtree ds uid root"
proof (intro set_eqI iffI)
  fix x
  assume "x \<in> subtree (map h ds) uid root"
  then have "below (map h ds) uid (d_id root) x" by (simp add: subtree_def)
  then show "x \<in> subtree ds uid root"
  proof (induction "d_id root" x rule: below.induct)
    case (itself r)
    then obtain q where q: "q \<in> set ds" "r = h q" by auto
    with itself(3) h dist root(1) have "q = root" by (metis distinct_map inj_onD)
    moreover have "root \<in> subtree ds uid root" using below.itself [OF root] by (simp add: subtree_def)
    ultimately show ?case using q(2) same by simp
  next
    case (child p f)
    then obtain q where q: "q \<in> set ds" "f = h q" by auto
    have "d_parent_id (h q) \<in> d_id ` subtree ds uid root" using child(2,4) q(2) by auto
    with out [OF q(1)] child(5) q(2) h(2) have "q \<in> subtree ds uid root" by auto
    with same q(2) show ?case by simp
  qed
next
  fix x
  assume "x \<in> subtree ds uid root"
  then have "below ds uid (d_id root) x" by (simp add: subtree_def)
  then have "below (map h ds) uid (d_id root) x \<and> below ds uid (d_id root) x"
  proof (induction "d_id root" x rule: below.induct)
    case (itself r)
    have "below ds uid (d_id root) r" using below.itself [OF itself(1,2)] itself(3) by simp
    then have "h r = r" by (intro same) (simp add: subtree_def)
    with itself(1) have "r \<in> set (map h ds)" by (metis image_eqI list.set_map)
    with \<open>below ds uid (d_id root) r\<close> itself(2,3) below.itself [of r "map h ds" uid] show ?case by simp
  next
    case (child p f)
    then have b: "below ds uid (d_id root) f" by (blast intro: below.child)
    then have "h f = f" by (intro same) (simp add: subtree_def)
    with child(3) have "f \<in> set (map h ds)" by (metis image_eqI list.set_map)
    with child b show ?case by (blast intro: below.child)
  qed
  then show "x \<in> subtree (map h ds) uid root" by (simp add: subtree_def)
qed

lemma ident_fields: "folder_ident (g r) = folder_ident r \<Longrightarrow>
   d_id (g r) = d_id r \<and> d_user_id (g r) = d_user_id r \<and> d_parent_id (g r) = d_parent_id r \<and> d_path (g r) = d_path r \<and> d_depth (g r) = d_depth r"
  by (simp add: folder_ident_def)

lemma subtree_child:
  "f \<in> set ds \<Longrightarrow> d_user_id f = uid \<Longrightarrow> d_parent_id f \<in> d_id ` subtree ds uid root \<Longrightarrow> f \<in> subtree ds uid root"
  by (auto simp: subtree_def intro: below.child)

text \<open>Moving one folder leaves the plans of the others as they are, and the location of the target.\<close>

lemma move_folder_others:
  assumes run: "move_folder T uid t loc p s = (Inr (Inr v), s')" and tx: "in_tx T" and cur: "plan_current uid (sdb s) p"
    and dist: "distinct (map d_id (folders (sdb s)))" "distinct (map f_id (files (sdb s)))"
    and q: "plan_current uid (sdb s) q" and t: "t \<notin> set (plan_folder_ids p)" "t \<notin> set (plan_folder_ids q)"
    and apart: "set (plan_folder_ids p) \<inter> set (plan_folder_ids q) = {}"
  shows "plan_current uid (sdb s') q"
proof -
  let ?d = "sdb s" let ?ds = "folders ?d" and ?u = "move_target t loc p"
  let ?S = "subtree ?ds uid (pl_root p)" and ?Q = "subtree ?ds uid (pl_root q)"
  obtain g ps where g: "\<forall>r. folder_ident (g r) = folder_ident r"
    "\<forall>r. \<not> owned_folder (d_parent_id (pl_root p)) uid r \<longrightarrow> \<not> owned_folder t uid r \<longrightarrow> g r = r"
    and ps: "set ps = (\<lambda>r. (d_id r, d_path (?u r))) ` ?S"
    and s': "sdb s' = ?d\<lparr>folders := map g (patch ?S ?u ?ds), files := map (follow uid ps) (files ?d)\<rparr>"
    by (rule move_folder_ok [OF run tx cur dist])
  have gi: "d_id (g r) = d_id r" "d_user_id (g r) = d_user_id r" "d_parent_id (g r) = d_parent_id r" for r
    using ident_fields [of g r] g(1) by simp_all
  let ?h = "\<lambda>r. g (if r \<in> ?S then ?u r else r)"
  have ids: "set (plan_folder_ids p) = d_id ` ?S" "set (plan_folder_ids q) = d_id ` ?Q"
    using cur q by (simp_all add: plan_folder_ids_def plan_current_def)
  have keep: "d_id (?u r) = d_id r" "d_user_id (?u r) = d_user_id r" for r by (simp_all add: move_target_def moved_row_def)
  have rootp: "pl_root p \<in> set ?ds" "d_user_id (pl_root p) = uid" "pl_root p \<in> ?S"
    using cur below.itself [of "pl_root p" ?ds uid] by (simp_all add: plan_current_def subtree_def)
  have rootq: "pl_root q \<in> set ?ds" "d_user_id (pl_root q) = uid" using q by (simp_all add: plan_current_def)
  have dq: "d_id r \<notin> d_id ` ?Q" if "r \<in> ?S" for r using apart that by (auto simp: ids)
  have parent: "d_parent_id (pl_root p) \<notin> d_id ` ?Q"
    using subtree_child [OF rootp(1,2), of "pl_root q"] dq [OF rootp(3)] by auto
  have same: "?h r = r" if "r \<in> ?Q" for r
  proof -
    have "r \<notin> ?S" using that dq by auto
    moreover have "\<not> owned_folder (d_parent_id (pl_root p)) uid r" "\<not> owned_folder t uid r"
      using parent t(2) imageI [OF that, of d_id] by (auto simp: owned_folder_def ids)
    ultimately show ?thesis using g(2) by simp
  qed
  have "subtree (map ?h ?ds) uid (pl_root q) = ?Q"
  proof (rule subtree_stable [OF dist(1) rootq])
    fix r assume r: "r \<in> set ?ds" "r \<notin> ?Q" "d_user_id r = uid"
    have "d_parent_id r \<notin> d_id ` ?Q" using subtree_child [OF r(1,3), of "pl_root q"] r(2) by blast
    moreover have "d_parent_id (?h r) = d_parent_id r \<or> d_parent_id (?h r) = t"
      by (simp add: gi move_target_def moved_row_def)
    ultimately show "d_parent_id (?h r) \<notin> d_id ` ?Q" using t(2) ids by metis
  qed (simp_all add: gi keep same)
  moreover have "map ?h ?ds = folders (sdb s')" by (simp add: s' patch_def comp_def)
  ultimately have sub: "subtree (folders (sdb s')) uid (pl_root q) = ?Q" by simp
  have "pl_root q \<in> ?Q" using below.itself [OF rootq] by (simp add: subtree_def)
  then have "pl_root q \<in> set (folders (sdb s'))"
    using below_row [of "folders (sdb s')" uid "d_id (pl_root q)"] sub by (auto simp: subtree_def)
  moreover have "filed_in uid (d_id ` ?Q) (map (follow uid ps) (files ?d)) = filed_in uid (d_id ` ?Q) (files ?d)"
  proof -
    have "fst ` set ps = d_id ` ?S" by (simp add: ps image_image)
    then have none: "map_of ps k = None" if "k \<in> d_id ` ?Q" for k
      using that apart unfolding map_of_eq_None_iff \<open>fst ` set ps = _\<close> ids by blast
    have f: "f_user_id (follow uid ps f) = f_user_id f" "f_folder_id (follow uid ps f) = f_folder_id f" for f
      by (auto simp: follow_def split: option.split)
    have "follow uid ps f = f" if "f_folder_id f \<in> d_id ` ?Q" for f using none [OF that] by (simp add: follow_def)
    then show ?thesis by (force simp: filed_in_def f)
  qed
  ultimately show ?thesis using q sub by (simp add: plan_current_def s')
qed

lemma move_folder_base:
  assumes run: "move_folder T uid t loc p s = (Inr (Inr v), s')" and tx: "in_tx T" and cur: "plan_current uid (sdb s) p"
    and dist: "distinct (map d_id (folders (sdb s)))" "distinct (map f_id (files (sdb s)))" and t: "t \<notin> set (plan_folder_ids p)"
  shows "base (folders (sdb s')) uid t = base (folders (sdb s)) uid t"
proof -
  let ?ds = "folders (sdb s)" and ?u = "move_target t loc p"
  let ?S = "subtree ?ds uid (pl_root p)"
  obtain g ps where g: "\<forall>r. folder_ident (g r) = folder_ident r"
    "\<forall>r. \<not> owned_folder (d_parent_id (pl_root p)) uid r \<longrightarrow> \<not> owned_folder t uid r \<longrightarrow> g r = r"
    and "set ps = (\<lambda>r. (d_id r, d_path (?u r))) ` ?S"
    and s': "sdb s' = (sdb s)\<lparr>folders := map g (patch ?S ?u ?ds), files := map (follow uid ps) (files (sdb s))\<rparr>"
    by (rule move_folder_ok [OF run tx cur dist])
  have "base (folders (sdb s')) uid t = base (patch ?S ?u ?ds) uid t"
    by (rule base_idents [THEN fun_cong, THEN fun_cong]) (simp add: s' g(1))
  also have "\<dots> = base ?ds uid t"
  proof (rule base_same)
    show "keeps_owner ?u" by (simp add: move_target_def keeps_owner_rows)
    fix r assume "find_row (owned_folder t uid) ?ds = Some r"
    then have "d_id r = t" by (auto simp: owned_folder_def dest!: find_row_Some)
    with t cur show "r \<notin> ?S" by (auto simp: plan_folder_ids_def plan_current_def)
  qed
  finally show ?thesis .
qed

text \<open>A successful run has checked that the target is in none of the plans.\<close>

lemma move_folders_checked:
  "move_folders T uid t loc plans ids occ n s = (Inr (Inr m), s') \<Longrightarrow>
   \<forall>j \<in> set ids. \<forall>q. map_of plans j = Some q \<longrightarrow> t \<notin> set (plan_folder_ids q)"
proof (induction ids arbitrary: occ n s)
  case (Cons i ids)
  then show ?case by (cases "map_of plans i") (auto elim!: bindR_okE split: if_splits)
qed simp

definition ready :: "nat \<Rightarrow> nat \<Rightarrow> FolderLocation \<Rightarrow> plans \<Rightarrow> nat list \<Rightarrow> 'w db \<Rightarrow> bool" where
  "ready uid t loc plans ids d \<longleftrightarrow> db_inv d \<and> paths_ok d \<and> base (folders d) uid t = Some (loc_path loc, loc_depth loc) \<and>
     (\<forall>i \<in> set ids. \<forall>p. map_of plans i = Some p \<longrightarrow> plan_current uid d p)"

lemma move_folders_paths:
  "move_folders T uid t loc plans ids occ n s = (Inr (Inr m), s') \<Longrightarrow> in_tx T \<Longrightarrow> distinct ids \<Longrightarrow>
   ready uid t loc plans ids (sdb s) \<Longrightarrow>
   \<forall>i \<in> set ids. \<forall>j \<in> set ids. \<forall>p q. map_of plans i = Some p \<longrightarrow> map_of plans j = Some q \<longrightarrow> i \<noteq> j \<longrightarrow>
     set (plan_folder_ids p) \<inter> set (plan_folder_ids q) = {} \<Longrightarrow>
   paths_ok (sdb s')"
proof (induction ids arbitrary: occ n s)
  case (Cons i ids)
  note tx = Cons.prems(2)
  have ready: "ready uid t loc plans ids (sdb s)" using Cons.prems(4) by (simp add: ready_def)
  have goal: "paths_ok (sdb s')" if "move_folders T uid t loc plans ids occ' n' s1 = (Inr (Inr m), s')" "ready uid t loc plans ids (sdb s1)" for occ' n' s1
    by (rule Cons.IH [OF that(1) tx _ that(2)]) (use Cons.prems in auto)
  show ?case
  proof (cases "map_of plans i")
    case (Some p)
    consider (skip) occ' n' where "move_folders T uid t loc plans ids occ' n' s = (Inr (Inr m), s')"
      | (moved) s1 occ' n' where "move_folder T uid t loc p s = (Inr (Inr ()), s1)" "t \<notin> set (plan_folder_ids p)"
          "move_folders T uid t loc plans ids occ' n' s1 = (Inr (Inr m), s')"
      using Cons.prems(1) Some by (auto elim!: bindR_okE split: if_splits)
    then show ?thesis
    proof cases
      case skip
      from goal [OF skip ready] show ?thesis .
    next
      case (moved s1)
      have inv: "db_inv (sdb s)" and ok: "paths_ok (sdb s)" and base: "base (folders (sdb s)) uid t = Some (loc_path loc, loc_depth loc)"
        and cur: "plan_current uid (sdb s) p" using Cons.prems(4) Some by (auto simp: ready_def)
      have dist: "distinct (map d_id (folders (sdb s)))" "distinct (map f_id (files (sdb s)))"
        using inv by (simp_all add: db_inv_def folders_inv_def files_inv_def)
      have "db_inv (sdb s1)"
        by (rule relocates_inv [OF inv], rule keepsD' [OF keeps_move_folder [OF tx] relocates_refl [OF inv] moved(1)])
      moreover have "paths_ok (sdb s1)" by (rule move_folder_paths [OF moved(1) tx cur inv ok base moved(2)])
      moreover have "base (folders (sdb s1)) uid t = Some (loc_path loc, loc_depth loc)"
        using move_folder_base [OF moved(1) tx cur dist moved(2)] base by simp
      moreover have "plan_current uid (sdb s1) q" if q: "j \<in> set ids" "map_of plans j = Some q" for j q
      proof (rule move_folder_others [OF moved(1) tx cur dist _ moved(2)])
        show "plan_current uid (sdb s) q" using ready q by (auto simp: ready_def)
        show "set (plan_folder_ids p) \<inter> set (plan_folder_ids q) = {}"
          using Cons.prems(3,5) Some q by (metis distinct.simps(2) list.set_intros(1,2))
        show "t \<notin> set (plan_folder_ids q)" using move_folders_checked [OF moved(3)] q by blast
      qed
      ultimately have "ready uid t loc plans ids (sdb s1)" by (auto simp: ready_def)
      from goal [OF moved(3) this] show ?thesis .
    qed
  qed (use Cons.prems(1) goal ready in simp)
qed (simp add: ready_def)

section \<open>The plans of a request\<close>

lemma add_folders_plan:
  "map_of (add_folders rows ps) k =
     (case map_of ps k of
        None \<Rightarrow> (case filter (\<lambda>(r, j). j = k) rows of
                  [] \<Rightarrow> None
                | (r, j) # _ \<Rightarrow> Some \<lparr>pl_root = r, pl_folders = map fst (filter (\<lambda>(r, j). j = k) rows), pl_files = [], pl_item_size = 0\<rparr>)
      | Some p \<Rightarrow> Some (p\<lparr>pl_folders := pl_folders p @ map fst (filter (\<lambda>(r, j). j = k) rows)\<rparr>))"
proof (induction rows ps rule: add_folders.induct)
  case (2 r root rows ps)
  then show ?case by (auto simp: add_folder_lookup split: option.splits list.splits)
qed (simp split: option.split)

text \<open>With disjoint folders every file goes to the plan that holds its folder, whatever the order.\<close>

lemma assign_file_plan:
  assumes k: "k \<in> set roots" "0 < k" and p: "map_of ps k = Some p"
    and only: "\<And>j q. j \<in> set roots \<Longrightarrow> map_of ps j = Some q \<Longrightarrow> f_folder_id f \<in> set (plan_folder_ids q) \<Longrightarrow>
        f_folder_id f \<in> set (plan_folder_ids p) \<Longrightarrow> j = k"
  shows "map_of (assign_file roots f ps) k = Some (if f_folder_id f \<in> set (plan_folder_ids p) then add_file f p else p)"
proof -
  let ?P = "\<lambda>k. case map_of ps k of None \<Rightarrow> False | Some p \<Rightarrow> f_folder_id f \<in> set (plan_folder_ids p)"
  show ?thesis
  proof (cases "List.find ?P roots")
    case None
    then have "\<not> ?P k" using k(1) by (simp add: find_None_iff)
    with p None show ?thesis by (simp add: assign_file_def)
  next
    case (Some j)
    then have j: "j \<in> set roots" "?P j" by (auto simp: find_Some_iff)
    then obtain q where q: "map_of ps j = Some q" "f_folder_id f \<in> set (plan_folder_ids q)" by (auto split: option.splits)
    show ?thesis
    proof (cases "f_folder_id f \<in> set (plan_folder_ids p)")
      case True
      with only [OF j(1) q] have "j = k" by simp
      with Some k(2) p True show ?thesis by (simp add: assign_file_def map_of_map_plans)
    next
      case False
      with p q have "j \<noteq> k" by auto
      with Some p False show ?thesis by (auto simp: assign_file_def map_of_map_plans)
    qed
  qed
qed

lemma add_file_fields [simp]:
  "plan_folder_ids (add_file f p) = plan_folder_ids p" "pl_root (add_file f p) = pl_root p" "pl_folders (add_file f p) = pl_folders p"
  "pl_files (add_file f p) = pl_files p @ [f]"
  by (simp_all add: add_file_def plan_folder_ids_def)

lemma assign_files_plan:
  assumes "k \<in> set roots" "0 < k" and "map_of ps k = Some p"
    and "\<And>j q. j \<noteq> k \<Longrightarrow> map_of ps j = Some q \<Longrightarrow> set (plan_folder_ids q) \<inter> set (plan_folder_ids p) = {}"
  shows "\<exists>p'. map_of (fold (assign_file roots) fs ps) k = Some p' \<and> pl_root p' = pl_root p \<and> pl_folders p' = pl_folders p \<and>
     pl_files p' = pl_files p @ filter (\<lambda>f. f_folder_id f \<in> set (plan_folder_ids p)) fs"
  using assms(3,4)
proof (induction fs arbitrary: ps p)
  case (Cons f fs)
  let ?ps = "assign_file roots f ps"
  have ne: "j = k" if "map_of ps j = Some q" "f_folder_id f \<in> set (plan_folder_ids q)" "f_folder_id f \<in> set (plan_folder_ids p)" for j q
    using Cons.prems(2) [of j q] that by auto
  have k: "map_of ?ps k = Some (if f_folder_id f \<in> set (plan_folder_ids p) then add_file f p else p)"
    by (rule assign_file_plan [OF assms(1,2) Cons.prems(1)]) (rule ne)
  have same: "\<exists>q'. map_of ps j = Some q' \<and> plan_folder_ids q' = plan_folder_ids q" if "map_of ?ps j = Some q" for j q
    using same_folders_assign [of roots f ps] that unfolding same_folders_def
    by (cases "map_of ps j") (auto simp: plan_folder_ids_def dest!: spec [of _ j])
  have "set (plan_folder_ids q) \<inter> set (plan_folder_ids (if f_folder_id f \<in> set (plan_folder_ids p) then add_file f p else p)) = {}"
    if "j \<noteq> k" "map_of ?ps j = Some q" for j q
    using same [OF that(2)] Cons.prems(2) [OF that(1)] by auto
  from Cons.IH [OF k this] show ?case by auto
qed simp

definition independent :: "nat list \<Rightarrow> 'w db \<Rightarrow> bool" where
  "independent ids d \<longleftrightarrow> (\<forall>i \<in> set ids. \<forall>j \<in> set ids. i \<noteq> j \<longrightarrow> (i, j) \<notin> (edges (place ` set (folders d)))\<^sup>*)"

lemma independent_places: "independent ids d \<Longrightarrow> place ` set (folders d') = place ` set (folders d) \<Longrightarrow> independent ids d'"
  by (simp add: independent_def)

lemma independent_disjoint:
  assumes "independent ids d" and dist: "distinct (map d_id (folders d))" and "i \<in> set ids" "j \<in> set ids" "i \<noteq> j"
    and x: "below (folders d) uid i x" and y: "below (folders d) uid j y"
  shows "d_id x \<noteq> d_id y"
proof
  assume "d_id x = d_id y"
  then have "x = y" using below_row [OF x] below_row [OF y] dist by (metis distinct_map inj_onD)
  with below_meets [OF dist x] y have "(i, j) \<in> (edges (place ` set (folders d)))\<^sup>* \<or> (j, i) \<in> (edges (place ` set (folders d)))\<^sup>*"
    using below_reach by blast
  with assms(1,3-5) show False by (auto simp: independent_def)
qed

text \<open>The rows of a plan are sorted by depth, so the first is its root.\<close>

lemma subtree_deeper:
  assumes "below ds uid (d_id root) r" and "distinct (map d_id ds)" and "root \<in> set ds" and "\<forall>r \<in> set ds. 0 < d_id r"
    and "\<forall>r \<in> set ds. folder_path_ok ds r"
  shows "r = root \<or> d_depth root < d_depth r"
  using assms(1)
proof (cases rule: below.cases)
  case itself
  then show ?thesis using assms(2,3) by (metis distinct_map inj_onD)
next
  case (child p)
  note p = below_row [OF child(1)]
  have "base ds uid (d_id p) = Some (d_path p, d_depth p)" using base_row [OF assms(2), of p] p assms(4) by simp
  then have "d_depth r = d_depth p + 1" using assms(5) child by (simp add: folder_path_ok_def)
  with subtree_prefix [OF child(1) assms(2-5)] show ?thesis by simp
qed

lemma sorted_key_hd: "sorted (map key xs) \<Longrightarrow> filter P xs = x # l \<Longrightarrow> y \<in> set xs \<Longrightarrow> P y \<Longrightarrow> key x \<le> key y"
proof (induction xs)
  case (Cons a xs)
  show ?case
  proof (cases "P a")
    case True
    with Cons show ?thesis by auto
  next
    case False
    with Cons show ?thesis by auto
  qed
qed simp

lemma plan_root:
  assumes dist: "distinct (map d_id ds)" and pos: "\<forall>r \<in> set ds. 0 < d_id r" and ok: "\<forall>r \<in> set ds. folder_path_ok ds r"
    and rows: "folder_tree ds uid ids = Some rows" and first: "filter (\<lambda>(r, j). j = k) rows = (r, i) # l"
  shows "d_id r = k"
proof -
  let ?key = "\<lambda>(r, k). (k, d_depth r, d_id r)"
  note mem = folder_tree_ok [OF rows]
  have "(r, i) \<in> set (filter (\<lambda>(r, j). j = k) rows)" by (simp add: first)
  then have rk: "k \<in> set ids" "below ds uid k r" and i: "i = k" using mem by auto
  from below_root [OF rk(2)] obtain root where root: "root \<in> set ds" "d_id root = k" "d_user_id root = uid" by blast
  then have "(root, k) \<in> set rows" using mem rk(1) below.itself [of root ds uid] by simp
  moreover have "sorted (map ?key rows)" using rows by (auto simp: folder_tree_def)
  ultimately have "?key (r, i) \<le> ?key (root, k)" by (intro sorted_key_hd [OF _ first]) simp_all
  then have "d_depth r \<le> d_depth root" by (auto simp: i)
  with subtree_deeper [of ds uid root r] rk(2) root dist pos ok show ?thesis by auto
qed

text \<open>Every root has one plan.\<close>

lemma distinct_add_folders: "distinct (map fst ps) \<Longrightarrow> distinct (map fst (add_folders rows ps))"
proof -
  have keys: "fst ` set (add_folder r j ps) = insert j (fst ` set ps)" for r j ps by (induction r j ps rule: add_folder.induct) auto
  have "distinct (map fst ps) \<Longrightarrow> distinct (map fst (add_folder r j ps))" for r j ps
    by (induction r j ps rule: add_folder.induct) (auto simp: keys)
  then show "distinct (map fst ps) \<Longrightarrow> distinct (map fst (add_folders rows ps))"
    by (induction rows ps rule: add_folders.induct) auto
qed

lemma distinct_plans: "distinct (map fst (plans_of ord ids uid d))"
proof -
  have one: "map fst (assign_file roots f ps) = map fst ps" for roots f ps
    by (auto simp: assign_file_def comp_def case_prod_beta split: option.split)
  then have "map fst (fold (assign_file roots) fs ps) = map fst ps" for roots fs ps by (induction fs arbitrary: ps) simp_all
  then show ?thesis by (auto simp: plans_of_def Let_def distinct_add_folders split: option.split)
qed

lemma plans_of_current:
  assumes dist: "distinct (map d_id (folders d))" and pos: "\<forall>r \<in> set (folders d). 0 < d_id r" and forest: "forest d"
    and ok: "paths_ok d" and ind: "independent ids d" and ord: "hash_order_ok ord" and p: "map_of (plans_of ord ids uid d) k = Some p"
  shows "plan_current uid d p \<and> k \<in> set ids \<and> d_id (pl_root p) = k"
proof (cases "ids = []")
  case True
  with p show ?thesis by (simp add: plans_of_def)
next
  case False
  from folder_tree_ends [OF forest] obtain rows where rows: "folder_tree (folders d) uid ids = Some rows" by blast
  note mem = folder_tree_ok [OF rows] and dr = folder_tree_distinct [OF dist forest rows]
  let ?base = "add_folders rows []" and ?all = "normalize_ids (map (\<lambda>(r, _). d_id r) rows)"
  let ?found = "sort_key (\<lambda>f. (f_folder_id f, f_id f)) (filter (\<lambda>f. f_user_id f = uid \<and> f_folder_id f \<in> set ?all) (files d))"
  let ?roots = "ord (ord (map fst ?base))"
  have base: "map_of ?base j = (case filter (\<lambda>(r, i). i = j) rows of [] \<Rightarrow> None
       | (r, i) # _ \<Rightarrow> Some \<lparr>pl_root = r, pl_folders = map fst (filter (\<lambda>(r, i). i = j) rows), pl_files = [], pl_item_size = 0\<rparr>)" for j
    by (simp add: add_folders_plan)
  have fold: "set (pl_folders q) = {r. below (folders d) uid j r}" "distinct (pl_folders q)" "j \<in> set ids" "pl_files q = []"
    "pl_root q \<in> set (pl_folders q)" "d_id (pl_root q) = j"
    if "map_of ?base j = Some q" for j q
  proof -
    from that obtain r i l where l: "filter (\<lambda>(r, i). i = j) rows = (r, i) # l"
      and q: "q = \<lparr>pl_root = r, pl_folders = map fst (filter (\<lambda>(r, i). i = j) rows), pl_files = [], pl_item_size = 0\<rparr>"
      by (auto simp: base split: list.splits)
    have "(r, i) \<in> set (filter (\<lambda>(r, i). i = j) rows)" by (simp add: l)
    then have "(r, j) \<in> set rows" by auto
    with mem show j: "j \<in> set ids" by auto
    show "set (pl_folders q) = {r. below (folders d) uid j r}" using mem j by (force simp: q)
    show "distinct (pl_folders q)" using dr by (auto simp: q distinct_map inj_on_def)
    show "pl_files q = []" by (simp add: q)
    show "pl_root q \<in> set (pl_folders q)" by (simp add: q l)
    show "d_id (pl_root q) = j" using plan_root [OF dist pos _ rows l] ok by (simp add: q paths_ok_def)
  qed
  have "same_folders (plans_of ord ids uid d) ?base"
    using False rows same_folders_fold [of ?roots ?found ?base] by (auto simp: plans_of_def Let_def same_folders_def)
  then have "map_of ?base k \<noteq> None" using p by (cases "map_of ?base k") (auto simp: same_folders_def dest!: spec [of _ k])
  then obtain q where q: "map_of ?base k = Some q" by blast
  note fq = fold [OF q]
  have all: "?all \<noteq> []" using q by (auto simp: base split: list.splits)
  have plans: "plans_of ord ids uid d = fold (assign_file ?roots) ?found ?base"
    using False rows all by (simp add: plans_of_def Let_def)
  obtain x where x: "below (folders d) uid k x" using fq(1,5) by auto
  from below_root [OF x] pos have k0: "0 < k" by auto
  have keys: "distinct (map fst ?base)" by (rule distinct_add_folders) simp
  have "set ?roots = set (map fst ?base)"
  proof -
    have "mset (ord (map fst ?base)) = mset (map fst ?base)" using ord keys by (simp add: hash_order_ok_def)
    moreover from this have "distinct (ord (map fst ?base))" using keys by (metis mset_eq_imp_distinct_iff)
    ultimately have "mset ?roots = mset (map fst ?base)" using ord by (simp add: hash_order_ok_def)
    then show ?thesis by (rule mset_eq_setD)
  qed
  moreover have "k \<in> set (map fst ?base)" using q by (force dest: map_of_SomeD)
  ultimately have kroots: "k \<in> set ?roots" by simp
  have "set (plan_folder_ids r) \<inter> set (plan_folder_ids q) = {}" if "j \<noteq> k" "map_of ?base j = Some r" for j r
    using independent_disjoint [OF ind dist fold(3) [OF that(2)] fq(3) that(1)] fold(1) [OF that(2)] fq(1)
    by (auto simp: plan_folder_ids_def)
  from this have "\<exists>p'. map_of (fold (assign_file ?roots) ?found ?base) k = Some p' \<and> pl_root p' = pl_root q \<and>
     pl_folders p' = pl_folders q \<and> pl_files p' = pl_files q @ filter (\<lambda>f. f_folder_id f \<in> set (plan_folder_ids q)) ?found"
    by (rule assign_files_plan [OF kroots k0 q])
  then have pq: "pl_root p = pl_root q" "pl_folders p = pl_folders q"
    and pf: "pl_files p = filter (\<lambda>f. f_folder_id f \<in> set (plan_folder_ids q)) ?found"
    using p fq(4) unfolding plans by auto
  have sub: "subtree (folders d) uid (pl_root p) = {r. below (folders d) uid k r}" by (simp add: subtree_def pq(1) fq(6))
  have "below (folders d) uid k (pl_root p)" using fq(1,5) pq(1) by auto
  moreover have "set (pl_files p) = filed_in uid (d_id ` subtree (folders d) uid (pl_root p)) (files d)"
  proof -
    have ids: "set (plan_folder_ids q) = d_id ` {r. below (folders d) uid k r}" by (simp add: plan_folder_ids_def fq(1))
    have "d_id ` {r. below (folders d) uid k r} \<subseteq> set ?all" using folder_tree_ok [OF rows] fq(3) by force
    then show ?thesis unfolding pf sub ids [symmetric] by (auto simp: filed_in_def)
  qed
  ultimately show ?thesis
    using below_row [of "folders d" uid k "pl_root p"] fq pq sub by (simp add: plan_current_def)
qed

lemma forest_paths_facts:
  "db_inv d \<Longrightarrow> distinct (map d_id (folders d)) \<and> (\<forall>r \<in> set (folders d). 0 < d_id r) \<and> distinct (map f_id (files d))"
  by (auto simp: db_inv_def folders_inv_def files_inv_def)

theorem move_items_tx_paths:
  assumes run: "move_items_tx ord fs ds t loc uid T s = (Inr (Inr m), s')" and tx: "in_tx T" and inv: "db_inv (sdb s)"
    and forest: "forest (sdb s)" and ok: "paths_ok (sdb s)" and ord: "hash_order_ok ord" and "distinct ds"
    and ind: "independent ds (sdb s)" and t: "base (folders (sdb s)) uid t = Some (loc_path loc, loc_depth loc)"
  shows "paths_ok (sdb s')"
proof -
  from run obtain mf s1 u s2 ps s3 nm v s4 occ s5 mm where
    a: "move_all_files ord T uid t loc fs s = (Inr (Inr mf), s1)" and b: "lock_each T uid ds s1 = (Inr u, s2)"
    and c: "FetchBatchFolderDeletePlans ord T ds uid s2 = (Inr ps, s3)"
    and e: "lock_names (Folder_AcquireNameLock T uid t) nm s3 = (Inr v, s4)"
    and f: "QueryOccupiedFolderNames T t uid nm s4 = (Inr occ, s5)"
    and g: "move_folders T uid t loc ps (FilterCoveredFolderIds ds ps) occ 0 s5 = (Inr (Inr mm), s')"
    unfolding move_items_tx_def Let_def by (auto elim!: bindR_okE bindM_okE)
  have tn: "t \<le> seq_folders (sdb s)"
    using t by (auto simp: base_def owned_folder_def split: if_splits dest!: find_row_Some forest_ids [OF forest])
  have filed: "filed_ok (sdb s) (sdb s1)"
    by (rule move_all_files_paths [OF a tx _ ok t tn]) (use forest_paths_facts [OF inv] in simp)
  have ok1: "paths_ok (sdb s1)" by (rule filed_ok_paths [OF filed ok])
  have idents: "map folder_ident (folders (sdb s1)) = map folder_ident (folders (sdb s))" using filed by (simp add: filed_ok_def)
  have forest1: "forest (sdb s1)" by (rule forest_keeps [OF keeps_places_all_files [OF tx] a forest])
  have inv1: "db_inv (sdb s1)"
    by (rule relocates_inv [OF inv], rule keepsD' [OF keeps_move_all_files [OF tx] relocates_refl [OF inv] a])
  have ind1: "independent ds (sdb s1)" by (rule independent_places [OF ind places_of_idents [OF idents]])
  have t1: "base (folders (sdb s1)) uid t = Some (loc_path loc, loc_depth loc)" using t by (simp add: base_idents [OF idents])
  have s2: "sdb s2 = sdb s1" by (rule keeps_db_reads [where m = "lock_each T uid ds", OF b]) (rule keeps_drive_reads [OF tx])
  note plans = fetch_plans_ok [OF c tx]
  have s4: "sdb s4 = sdb s3"
    by (rule keeps_db_reads [where m = "lock_names (Folder_AcquireNameLock T uid t) nm", OF e]) (rule keeps_lock_names, rule keeps_drive_reads [OF tx])
  have s5: "sdb s5 = sdb s4" by (rule keeps_db_reads [where m = "QueryOccupiedFolderNames T t uid nm", OF f]) (rule keeps_drive_reads [OF tx])
  have d5: "sdb s5 = sdb s1" using s2 plans s4 s5 by simp
  note facts = forest_paths_facts [OF inv1]
  have cur: "plan_current uid (sdb s1) p \<and> k \<in> set ds \<and> d_id (pl_root p) = k" if "map_of ps k = Some p" for k p
    by (rule plans_of_current [where ord = ord]) (use facts forest1 ok1 ind1 ord that plans s2 in simp_all)
  show ?thesis
  proof (rule move_folders_paths [OF g tx])
    show "distinct (FilterCoveredFolderIds ds ps)" using assms(7) by (simp add: FilterCoveredFolderIds_def)
    show "ready uid t loc ps (FilterCoveredFolderIds ds ps) (sdb s5)"
      using inv1 ok1 t1 cur by (simp add: ready_def d5)
    have "set (plan_folder_ids p) \<inter> set (plan_folder_ids q) = {}"
      if "map_of ps i = Some p" "map_of ps j = Some q" "i \<noteq> j" for i j p q
      using cur [OF that(1)] cur [OF that(2)] independent_disjoint [OF ind1 _ _ _ that(3)] facts
      by (auto simp: plan_folder_ids_def plan_current_def subtree_def)
    then show "\<forall>i \<in> set (FilterCoveredFolderIds ds ps). \<forall>j \<in> set (FilterCoveredFolderIds ds ps). \<forall>p q.
        map_of ps i = Some p \<longrightarrow> map_of ps j = Some q \<longrightarrow> i \<noteq> j \<longrightarrow> set (plan_folder_ids p) \<inter> set (plan_folder_ids q) = {}" by blast
  qed
qed

text \<open>A folder of a successful move that no other requested folder covers is a top-level folder, and the target is outside of it.\<close>

lemma uncovered_above:
  assumes dist: "distinct (map d_id ds)" and acyc: "acyclic (edges (place ` set ds))"
    and i: "i \<in> set ids" "below ds uid i x"
  shows "\<exists>k \<in> set ids. below ds uid k x \<and> (\<forall>j \<in> set ids. \<forall>r. below ds uid j r \<longrightarrow> d_id r = k \<longrightarrow> j = k)"
proof -
  let ?K = "{k \<in> set ids. below ds uid k x}"
  have "?K \<noteq> {}" using i by blast
  then obtain k where k: "k \<in> ?K" and least: "\<And>j. j \<in> ?K \<Longrightarrow> rank ds k \<le> rank ds j"
    using ex_has_least_nat [of "\<lambda>k. k \<in> ?K" _ "rank ds"] by blast
  have "j = k" if j: "j \<in> set ids" "below ds uid j r" "d_id r = k" for j r
  proof (rule ccontr)
    assume "j \<noteq> k"
    have "below ds uid j x" using below_below [OF _ j(2,3) dist] k by simp
    with j(1) least [of j] have le: "rank ds k \<le> rank ds j" by simp
    have "(k, j) \<in> (edges (place ` set ds))\<^sup>+"
      using below_reach [OF j(2)] j(3) \<open>j \<noteq> k\<close> by (simp add: rtrancl_eq_or_trancl)
    then have "rank ds j < rank ds k"
      by (induction rule: trancl_induct) (auto dest: rank_parent [OF acyc])
    with le show False by simp
  qed
  with k show ?thesis by blast
qed

lemma move_items_tx_outside:
  assumes run: "move_items_tx ord fs ds t loc uid T s = (Inr (Inr m), s')" and tx: "in_tx T" and inv: "db_inv (sdb s)"
    and forest: "forest (sdb s)" and i: "i \<in> set ds" "below (folders (sdb s)) uid i r"
  shows "d_id r \<noteq> t"
proof
  assume r: "d_id r = t"
  from run obtain mf s1 u s2 ps s3 occ s5 mm where
    a: "move_all_files ord T uid t loc fs s = (Inr (Inr mf), s1)" and b: "lock_each T uid ds s1 = (Inr u, s2)"
    and c: "FetchBatchFolderDeletePlans ord T ds uid s2 = (Inr ps, s3)"
    and g: "move_folders T uid t loc ps (FilterCoveredFolderIds ds ps) occ 0 s5 = (Inr (Inr mm), s')"
    unfolding move_items_tx_def Let_def by (auto elim!: bindR_okE bindM_okE)
  have forest1: "forest (sdb s1)" by (rule forest_keeps [OF keeps_places_all_files [OF tx] a forest])
  have "db_inv (sdb s1)"
    by (rule relocates_inv [OF inv], rule keepsD' [OF keeps_move_all_files [OF tx] relocates_refl [OF inv] a])
  then have dist: "distinct (map d_id (folders (sdb s1)))" by (simp add: db_inv_def folders_inv_def)
  have same: "same_places (place ` set (folders (sdb s))) (seq_folders (sdb s)) (sdb s1)"
    by (rule keepsD' [OF keeps_places_all_files [OF tx] _ a]) (simp add: same_places_def)
  have s2: "sdb s2 = sdb s1" by (rule keeps_db_reads [where m = "lock_each T uid ds", OF b]) (rule keeps_drive_reads [OF tx])
  note plans = fetch_plans_ok [OF c tx]
  have cover: "plans_cover ps ds uid (sdb s1)" using plans plans_of_cover [of ds "sdb s1" uid ord] s2 by simp
  obtain q where q: "q \<in> set (folders (sdb s))" "d_id q = i" "d_user_id q = uid" using below_root [OF i(2)] by blast
  then have "place q \<in> place ` set (folders (sdb s1))" using same by (auto simp: same_places_def)
  then obtain q' where q': "q' \<in> set (folders (sdb s1))" "d_id q' = i" "d_user_id q' = uid" using q by (auto simp: place_def)
  have "(t, i) \<in> (edges (place ` set (folders (sdb s1))))\<^sup>*"
    using below_reach [OF i(2)] r same by (simp add: same_places_def)
  from reached_below [OF this dist q'] obtain x where x: "d_id x = t" "below (folders (sdb s1)) uid i x" by blast
  from uncovered_above [OF dist _ i(1) x(2)] forest1 obtain k where k: "k \<in> set ds" "below (folders (sdb s1)) uid k x"
    and top: "\<And>j r. j \<in> set ds \<Longrightarrow> below (folders (sdb s1)) uid j r \<Longrightarrow> d_id r = k \<Longrightarrow> j = k"
    by (auto simp: forest_def is_forest_def)
  have xk: "x \<in> set (plan_rows ps k)" using cover k by (auto simp: plans_cover_def)
  then obtain p where p: "map_of ps k = Some p" "x \<in> set (pl_folders p)" by (cases "map_of ps k") (auto simp: plan_rows_def)
  have "\<not> list_ex (\<lambda>(j, p). j \<noteq> k \<and> k \<in> set (plan_folder_ids p)) ps"
  proof
    assume "list_ex (\<lambda>(j, p). j \<noteq> k \<and> k \<in> set (plan_folder_ids p)) ps"
    then obtain j p' where j: "(j, p') \<in> set ps" "j \<noteq> k" "k \<in> set (plan_folder_ids p')" by (auto simp: list_ex_iff)
    have "distinct (map fst ps)" using plans s2 distinct_plans [of ord ds uid "sdb s1"] by simp
    with j(1) have "map_of ps j = Some p'" by simp
    with j(3) obtain r' where "r' \<in> set (plan_rows ps j)" "d_id r' = k" by (auto simp: plan_rows_def plan_folder_ids_def)
    with cover top [of j r'] j(2) show False by (auto simp: plans_cover_def)
  qed
  with p k(1) have "k \<in> set (FilterCoveredFolderIds ds ps)" by (simp add: FilterCoveredFolderIds_def)
  with move_folders_checked [OF g] p x(1) show False by (auto simp: plan_folder_ids_def)
qed

end
