(* ===== verification/File_Copy.thy ===== *)
theory File_Copy
  imports File_Mutation
begin

text \<open>
  Copying files and folder trees (\<^verbatim>\<open>FileMutationService::Copy\<close>).  The bytes of everything to
  copy are reserved in a transaction of their own.  Every batch of files and every folder tree
  is then copied in a transaction that turns its share of the reservation into usage; what is
  skipped or fails is given back.  A release that fails ends the copy and leaves the
  reservation behind.
\<close>

section \<open>What a copy has done so far\<close>

record copy_state =
  cs_copied_files :: nat
  cs_copied_folders :: nat
  cs_actual :: nat
  cs_released :: nat
  cs_new_files :: "(nat \<times> nat) list"
  cs_new_folders :: "(nat \<times> nat) list"

definition no_copies :: copy_state where
  "no_copies = \<lparr>cs_copied_files = 0, cs_copied_folders = 0, cs_actual = 0, cs_released = 0,
                cs_new_files = [], cs_new_folders = []\<rparr>"

definition release_copy_reservation :: "'w client \<Rightarrow> nat \<Rightarrow> nat \<Rightarrow> ('w, unit Result) M" where
  "release_copy_reservation E user_id bytes =
     (if bytes = 0 then okR ()
      else Run E (ErrorInfo1 InternalError) (\<lambda>T. ReleaseReservedStorageChecked T user_id bytes))"

definition return_release_error ::
  "'w client \<Rightarrow> 'w trash_service \<Rightarrow> nat \<Rightarrow> copy_state \<Rightarrow> ErrorInfo \<Rightarrow> ('w, copy_state Result) M" where
  "return_release_error E S user_id cs err =
     bindM (if cs_copied_files cs > 0 \<or> cs_copied_folders cs > 0 \<or> cs_new_files cs \<noteq> [] \<or> cs_new_folders cs \<noteq> []
            then invalidate_list E S user_id else retM ()) (\<lambda>_. failR err)"

definition give_back ::
  "'w client \<Rightarrow> 'w trash_service \<Rightarrow> nat \<Rightarrow> nat \<Rightarrow> copy_state \<Rightarrow> ('w, copy_state Result) M" where
  "give_back E S user_id bytes cs =
     bindM (release_copy_reservation E user_id bytes) (\<lambda>result.
       case result of
         Inl err \<Rightarrow> return_release_error E S user_id cs err
       | Inr _ \<Rightarrow> okR (cs\<lparr>cs_released := cs_released cs + bytes\<rparr>))"

section \<open>Files\<close>

text \<open>The files whose names are free, in order, each taking its name; and the bytes of the others.\<close>

fun unoccupied :: "string list \<Rightarrow> file_row list \<Rightarrow> file_row list \<times> nat" where
  "unoccupied occupied [] = ([], 0)"
| "unoccupied occupied (f # fs) =
     (if f_name f \<in> set occupied then (let (kept, skipped) = unoccupied occupied fs in (kept, f_size f + skipped))
      else (let (kept, skipped) = unoccupied (f_name f # occupied) fs in (f # kept, skipped)))"

definition ref_increments :: "file_row list \<Rightarrow> (nat \<times> nat) list" where
  "ref_increments fs = fold (\<lambda>f. add_to (f_content_id f) 1) fs []"

definition copied_file :: "nat \<Rightarrow> nat \<Rightarrow> string \<Rightarrow> file_row \<Rightarrow> file_row" where
  "copied_file user_id folder_id folder_path f =
     f\<lparr>f_id := 0, f_user_id := user_id, f_folder_id := folder_id, f_path := BuildFilePath folder_path (f_name f),
       f_is_favorite := False, f_download_count := 0\<rparr>"

text \<open>An insert of several rows: all of them or none.\<close>

fun insert_files_stmt :: "file_row list \<Rightarrow> ('w, nat list) stmt" where
  "insert_files_stmt [] d = (Inr [], d)"
| "insert_files_stmt (f # fs) d =
     (case insert_file_stmt f d of
        (Inl e, _) \<Rightarrow> (Inl e, d)
      | (Inr f', d1) \<Rightarrow>
          (case insert_files_stmt fs d1 of
             (Inl e, _) \<Rightarrow> (Inl e, d)
           | (Inr ids, d2) \<Rightarrow> (Inr (f_id f' # ids), d2)))"

definition InsertCopiedFiles ::
  "'w client \<Rightarrow> nat \<Rightarrow> nat \<Rightarrow> file_row list \<Rightarrow> ('w, (nat \<times> nat) list Result) M" where
  "InsertCopiedFiles E user_id target items =
     (if items = [] then okR []
      else
        bindR (ResolveOwnedFolderLocation E target user_id) (\<lambda>location.
          catchDb
            (bindM (exec E (insert_files_stmt (map (copied_file user_id target (loc_path location)) items))) (\<lambda>ids.
               if length ids \<noteq> length items then failR (ErrorInfo2 InternalError ''Failed to insert copied files'')
               else okR (zip (map f_id items) ids)))
            (failR (ErrorInfo2 InternalError ''Failed to insert copied files''))))"

definition refs_failed :: ErrorInfo where
  "refs_failed = ErrorInfo2 InternalError ''Failed to update file content reference counts''"

definition count_target :: "'w client \<Rightarrow> nat \<Rightarrow> nat \<Rightarrow> nat \<Rightarrow> ('w, unit Result) M" where
  "count_target T user_id target n =
     (if target > 0 \<and> n > 0
      then bindM (ApplyItemCountDelta T target user_id (int n)) (\<lambda>updated.
             if \<not> updated then failR (ErrorInfo2 InternalError ''Failed to update target folder item count'') else okR ())
      else okR ())"

definition lock_target :: "'w client \<Rightarrow> nat \<Rightarrow> nat \<Rightarrow> FolderLocation \<Rightarrow> ('w, FolderLocation Result) M" where
  "lock_target T user_id target location =
     (if target > 0
      then bindM (FindOwnedFolderForUpdate T target user_id) (\<lambda>locked.
             case locked of
               None \<Rightarrow> failR (ErrorInfo1 FolderNotFound)
             | Some r \<Rightarrow> okR \<lparr>loc_path = d_path r, loc_depth = d_depth r\<rparr>)
      else okR location)"

definition copy_batch_tx ::
  "nat \<Rightarrow> nat \<Rightarrow> FolderLocation \<Rightarrow> file_row list \<Rightarrow> nat list \<Rightarrow> 'w client \<Rightarrow> ('w, ((nat \<times> nat) list \<times> nat \<times> nat) Result) M" where
  "copy_batch_tx user_id target location valid_items existing_content_ids T =
     (let names = normalize_names (map f_name valid_items) in
      bindM (lock_names (File_AcquireNameLock T user_id target) names) (\<lambda>_.
      bindR (lock_target T user_id target location) (\<lambda>_.
      bindM (QueryOccupiedNames T target user_id names) (\<lambda>occupied.
        let (items, skipped) = unoccupied occupied valid_items in
        bindR (IncrementRefCountsChecked T (ref_increments items) existing_content_ids) (\<lambda>incremented.
        if list_ex (\<lambda>f. f_content_id f \<notin> set incremented) items then failR refs_failed
        else
          bindR (InsertCopiedFiles T user_id target items) (\<lambda>mappings.
          bindR (count_target T user_id target (length mappings)) (\<lambda>_.
          bindR (CommitReservedToUsed T user_id (sum_list (map f_size items))) (\<lambda>_.
          bindR (ReleaseReservedStorageChecked T user_id skipped) (\<lambda>_.
            okR (mappings, sum_list (map f_size items), skipped))))))))))"

definition copy_batch ::
  "'w client \<Rightarrow> 'w trash_service \<Rightarrow> nat \<Rightarrow> nat \<Rightarrow> FolderLocation \<Rightarrow> file_row list \<Rightarrow> copy_state \<Rightarrow> ('w, copy_state Result) M" where
  "copy_batch E S user_id target location chunk cs =
     (let reserved = sum_list (map f_size chunk) in
      bindM (catchDb (bindM (QueryOccupiedNames E target user_id (map f_name chunk)) (\<lambda>names. retM (Some names)))
               (retM None)) (\<lambda>query.
        case query of
          None \<Rightarrow> give_back E S user_id reserved cs
        | Some occupied \<Rightarrow>
            let (pending, name_skipped) = unoccupied occupied chunk in
            bindM (if pending = [] then retM (Some [])
                   else catchDb (bindM (FindExistingIds E (map fst (ref_increments pending))) (\<lambda>ids. retM (Some ids)))
                     (retM None)) (\<lambda>contents.
              case contents of
                None \<Rightarrow> give_back E S user_id reserved cs
              | Some existing \<Rightarrow>
                  let valid_items = filter (\<lambda>f. f_content_id f \<in> set existing) pending;
                      skipped = name_skipped + sum_list (map f_size (filter (\<lambda>f. f_content_id f \<notin> set existing) pending))
                  in if valid_items = [] then give_back E S user_id reserved cs
                     else
                       bindM (Run E (ErrorInfo1 InternalError) (copy_batch_tx user_id target location valid_items existing)) (\<lambda>tx_result.
                         case tx_result of
                           Inl _ \<Rightarrow> give_back E S user_id reserved cs
                         | Inr (mappings, actual, freed) \<Rightarrow>
                             let cs = cs\<lparr>cs_copied_files := cs_copied_files cs + length mappings,
                                         cs_actual := cs_actual cs + actual, cs_released := cs_released cs + freed,
                                         cs_new_files := cs_new_files cs @ mappings\<rparr>
                             in if skipped > 0 then give_back E S user_id skipped cs else okR cs))))"

fun copy_batches ::
  "'w client \<Rightarrow> 'w trash_service \<Rightarrow> nat \<Rightarrow> nat \<Rightarrow> FolderLocation \<Rightarrow> file_row list list \<Rightarrow> copy_state \<Rightarrow> ('w, copy_state Result) M" where
  "copy_batches E S user_id target location [] cs = okR cs"
| "copy_batches E S user_id target location (chunk # chunks) cs =
     bindR (copy_batch E S user_id target location chunk cs) (copy_batches E S user_id target location chunks)"

section \<open>Folder trees\<close>

text \<open>The identifier and the path of the copy of each folder.\<close>

type_synonym copied_folders = "(nat \<times> nat \<times> string) list"

fun copy_subfolders ::
  "'w client \<Rightarrow> nat \<Rightarrow> folder_row \<Rightarrow> nat \<Rightarrow> folder_row list \<Rightarrow> copied_folders \<Rightarrow> (nat \<times> nat) list \<Rightarrow>
   ('w, copied_folders \<times> (nat \<times> nat) list) M" where
  "copy_subfolders T user_id root root_depth [] copied mappings = retM (copied, mappings)"
| "copy_subfolders T user_id root root_depth (r # rs) copied mappings =
     (if d_id r = d_id root then copy_subfolders T user_id root root_depth rs copied mappings
      else
        (case map_of copied (d_parent_id r) of
           None \<Rightarrow> throwM (RuntimeError ''Folder copy plan contains orphaned folder node'')
         | Some (parent_id, parent_path) \<Rightarrow>
             let path = BuildFolderPath parent_path (d_name r);
                 depth_delta = (if d_depth r > d_depth root then d_depth r - d_depth root else 1) in
             bindM (exec T (insert_folder_stmt
                 \<lparr>d_id = 0, d_user_id = user_id, d_parent_id = parent_id, d_name = d_name r, d_path = path,
                  d_depth = root_depth + depth_delta, d_item_count = d_item_count r\<rparr>)) (\<lambda>inserted.
               copy_subfolders T user_id root root_depth rs ((d_id r, d_id inserted, path) # copied)
                 (mappings @ [(d_id r, d_id inserted)]))))"

fun copy_tree_files ::
  "'w client \<Rightarrow> nat \<Rightarrow> copied_folders \<Rightarrow> file_row list \<Rightarrow> (nat \<times> nat) list \<Rightarrow> ('w, (nat \<times> nat) list) M" where
  "copy_tree_files T user_id copied [] mappings = retM mappings"
| "copy_tree_files T user_id copied (f # fs) mappings =
     (case map_of copied (f_folder_id f) of
        None \<Rightarrow> throwM (RuntimeError ''Folder copy plan contains orphaned file node'')
      | Some (folder_id, path) \<Rightarrow>
          bindM (exec T (insert_file_stmt (copied_file user_id folder_id path f))) (\<lambda>inserted.
            copy_tree_files T user_id copied fs (mappings @ [(f_id f, f_id inserted)])))"

text \<open>The result: folder and file mappings, bytes copied and bytes released.\<close>

type_synonym copied_tree = "(nat \<times> nat) list \<times> (nat \<times> nat) list \<times> nat \<times> nat"

definition copy_tree :: "'w client \<Rightarrow> nat \<Rightarrow> nat \<Rightarrow> FolderLocation \<Rightarrow> FolderDeletePlan \<Rightarrow> ('w, copied_tree Result) M" where
  "copy_tree T user_id target location plan =
     (let root = pl_root plan; path = BuildFolderPath (loc_path location) (d_name root) in
      bindM (exec T (insert_folder_stmt
          \<lparr>d_id = 0, d_user_id = user_id, d_parent_id = target, d_name = d_name root, d_path = path,
           d_depth = loc_depth location + 1, d_item_count = d_item_count root\<rparr>)) (\<lambda>inserted_root.
      bindM (copy_subfolders T user_id root (loc_depth location + 1) (pl_folders plan)
               [(d_id root, d_id inserted_root, path)] [(d_id root, d_id inserted_root)]) (\<lambda>(copied, folder_mappings).
      bindM (copy_tree_files T user_id copied (pl_files plan) []) (\<lambda>file_mappings.
      bindR (count_target T user_id target 1) (\<lambda>_.
      bindR (CommitReservedToUsed T user_id (pl_item_size plan)) (\<lambda>_.
        okR (folder_mappings, file_mappings, sum_list (map f_size (pl_files plan)), 0)))))))"

definition copy_folder_tx ::
  "nat \<Rightarrow> nat \<Rightarrow> FolderLocation \<Rightarrow> FolderDeletePlan \<Rightarrow> nat list \<Rightarrow> 'w client \<Rightarrow> ('w, copied_tree Result) M" where
  "copy_folder_tx user_id target location plan existing_content_ids T =
     (let root_name = d_name (pl_root plan) in
      bindM (Folder_AcquireNameLock T user_id target root_name) (\<lambda>_.
      bindR (lock_target T user_id target location) (\<lambda>location.
      bindM (QueryOccupiedFolderNames T target user_id [root_name]) (\<lambda>occupied.
        if root_name \<in> set occupied
        then bindR (ReleaseReservedStorageChecked T user_id (pl_item_size plan)) (\<lambda>_. okR ([], [], 0, pl_item_size plan))
        else
          bindR (IncrementRefCountsChecked T (ref_increments (pl_files plan)) existing_content_ids) (\<lambda>incremented.
          if list_ex (\<lambda>f. f_content_id f \<notin> set incremented) (pl_files plan) then failR refs_failed
          else copy_tree T user_id target location plan)))))"

definition copy_folder ::
  "'w client \<Rightarrow> 'w trash_service \<Rightarrow> nat \<Rightarrow> nat \<Rightarrow> FolderLocation \<Rightarrow> FolderDeletePlan \<Rightarrow> copy_state \<Rightarrow> ('w, copy_state Result) M" where
  "copy_folder E S user_id target location plan cs =
     bindM (if pl_files plan = [] then retM (Some [])
            else catchDb (bindM (FindExistingIds E (map fst (ref_increments (pl_files plan)))) (\<lambda>ids. retM (Some ids)))
              (retM None)) (\<lambda>contents.
       case contents of
         None \<Rightarrow> give_back E S user_id (pl_item_size plan) cs
       | Some existing \<Rightarrow>
           if list_ex (\<lambda>f. f_content_id f \<notin> set existing) (pl_files plan)
           then give_back E S user_id (pl_item_size plan) cs
           else
             bindM (Run E (ErrorInfo1 InternalError) (copy_folder_tx user_id target location plan existing)) (\<lambda>tx_result.
               case tx_result of
                 Inl _ \<Rightarrow> give_back E S user_id (pl_item_size plan) cs
               | Inr (folder_mappings, file_mappings, actual, freed) \<Rightarrow>
                   okR (cs\<lparr>cs_copied_folders := cs_copied_folders cs + length folder_mappings,
                           cs_copied_files := cs_copied_files cs + length file_mappings,
                           cs_actual := cs_actual cs + actual, cs_released := cs_released cs + freed,
                           cs_new_folders := cs_new_folders cs @ folder_mappings,
                           cs_new_files := cs_new_files cs @ file_mappings\<rparr>)))"

fun copy_folders ::
  "'w client \<Rightarrow> 'w trash_service \<Rightarrow> nat \<Rightarrow> nat \<Rightarrow> FolderLocation \<Rightarrow> FolderDeletePlan list \<Rightarrow> string list \<Rightarrow> copy_state \<Rightarrow>
   ('w, copy_state Result) M" where
  "copy_folders E S user_id target location [] occupied cs = okR cs"
| "copy_folders E S user_id target location (plan # plans) occupied cs =
     (if target \<in> set (plan_folder_ids plan) \<or> d_name (pl_root plan) \<in> set occupied
      then bindR (give_back E S user_id (pl_item_size plan) cs)
             (copy_folders E S user_id target location plans occupied)
      else bindR (copy_folder E S user_id target location plan cs)
             (copy_folders E S user_id target location plans (d_name (pl_root plan) # occupied)))"

fun give_back_all ::
  "'w client \<Rightarrow> 'w trash_service \<Rightarrow> nat \<Rightarrow> FolderDeletePlan list \<Rightarrow> copy_state \<Rightarrow> ('w, copy_state Result) M" where
  "give_back_all E S user_id [] cs = okR cs"
| "give_back_all E S user_id (plan # plans) cs =
     bindR (give_back E S user_id (pl_item_size plan) cs) (give_back_all E S user_id plans)"

section \<open>The copy\<close>

text \<open>The files asked for, in the order of their identifiers; a batch whose query fails is skipped.\<close>

fun fetch_copies :: "'w client \<Rightarrow> nat \<Rightarrow> nat list list \<Rightarrow> ('w, file_row list) M" where
  "fetch_copies E user_id [] = retM []"
| "fetch_copies E user_id (chunk # chunks) =
     bindM (catchDb (exec E (pureS (\<lambda>d. filter (\<lambda>f. f_id f \<in> set chunk \<and> f_user_id f = user_id) (files d)))) (retM [])) (\<lambda>rows.
     bindM (fetch_copies E user_id chunks) (\<lambda>rest.
       retM (List.map_filter (\<lambda>i. find_row (\<lambda>f. f_id f = i) rows) chunk @ rest)))"

definition Copy :: "'w client \<Rightarrow> 'w trash_service \<Rightarrow> MoveRequest \<Rightarrow> nat \<Rightarrow> ('w, copy_state Result) M" where
  "Copy E S request user_id =
     (let target = mv_target_folder_id request;
          requested_folder_ids = normalize_ids (mv_folder_ids request) in
      bindR (ResolveOwnedFolderLocation E target user_id) (\<lambda>location.
      bindM (FetchBatchFolderDeletePlans (ts_hash_order S) E requested_folder_ids user_id) (\<lambda>plans.
        let top_level = FilterCoveredFolderIds requested_folder_ids plans;
            covered = CollectCoveredFileIds top_level plans;
            explicit_file_ids = filter (\<lambda>i. i \<notin> set covered) (normalize_ids (mv_file_ids request));
            top_plans = List.map_filter (map_of plans) top_level in
        bindM (fetch_copies E user_id (batches DEFAULT_BATCH_CHUNK_SIZE explicit_file_ids)) (\<lambda>files_to_copy.
        let total_copy_size = sum_list (map f_size files_to_copy) + sum_list (map pl_item_size top_plans) in
        bindR (if total_copy_size > 0
               then Run E (ErrorInfo1 InternalError) (\<lambda>T. ReserveStorage T user_id total_copy_size)
               else okR ()) (\<lambda>_.
        bindR (copy_batches E S user_id target location (batches DEFAULT_BATCH_CHUNK_SIZE files_to_copy) no_copies) (\<lambda>cs.
        bindM (catchDb (bindM (QueryOccupiedFolderNames E target user_id (map (\<lambda>p. d_name (pl_root p)) top_plans))
                          (\<lambda>names. retM (Some names))) (retM None)) (\<lambda>query.
        bindR (case query of
                 None \<Rightarrow> give_back_all E S user_id top_plans cs
               | Some occupied \<Rightarrow> copy_folders E S user_id target location top_plans occupied cs) (\<lambda>cs.
        bindM (if cs_copied_files cs + cs_copied_folders cs > 0 then invalidate_list E S user_id else retM ()) (\<lambda>_.
          okR cs)))))))))"

end
