(* ===== verification/Copy_Accounts.thy ===== *)
theory Copy_Accounts
  imports Queue_Results File_Copy Trash_Restore Drive_Changes
begin

text \<open>
  What a copy does to the books.  While it runs, \<open>storage_reserved\<close> of its user exceeds the sum
  over the user's uploads by what the copy still holds.  Each of its transactions lowers that
  hold by exactly the bytes it copied or gave back, so a copy that succeeds has spent it.
\<close>

section \<open>A hold on the reserved bytes\<close>

text \<open>The tables without the hold, and the invariant beside it.\<close>

definition without_hold :: "nat \<Rightarrow> int \<Rightarrow> user_row list \<Rightarrow> user_row list" where
  "without_hold uid k us =
     map (\<lambda>u. if u_id u = uid then u\<lparr>u_storage_reserved := u_storage_reserved u - k\<rparr> else u) us"

definition holds :: "nat \<Rightarrow> int \<Rightarrow> 'w db \<Rightarrow> bool" where
  "holds uid k d \<longleftrightarrow> db_inv (d\<lparr>users := without_hold uid k (users d)\<rparr>)"

lemma without_hold_zero [simp]: "without_hold uid 0 us = us"
  by (simp add: without_hold_def cong: if_cong)

lemma holds_zero [simp]: "holds uid 0 = db_inv"
  by (simp add: holds_def fun_eq_iff)

lemma without_hold_ids [simp]: "map u_id (without_hold uid k us) = map u_id us"
  by (simp add: without_hold_def)

lemma holds_ids: "holds uid k d \<Longrightarrow> distinct (map u_id (users d))"
  by (simp add: holds_def db_inv_def accounts_inv_def)

text \<open>An update of the one row of the user, seen without the hold.\<close>

lemma without_hold_update:
  assumes "distinct (map u_id us)" and "\<exists>r \<in> set us. u_id r = uid \<and> guard r"
    and "\<And>r. u_id (upd r) = u_id r"
    and "\<And>r. guard r \<Longrightarrow> (upd r)\<lparr>u_storage_reserved := u_storage_reserved (upd r) - k'\<rparr> =
      f (r\<lparr>u_storage_reserved := u_storage_reserved r - k\<rparr>)"
  shows "without_hold uid k' (update_where (\<lambda>r. u_id r = uid \<and> guard r) upd us) =
    map (\<lambda>u. if u_id u = uid then f u else u) (without_hold uid k us)"
proof -
  have "guard r" if "r \<in> set us" "u_id r = uid" for r
    using assms(1,2) that same_user by metis
  then show ?thesis
    by (auto simp: without_hold_def update_where_def assms(3,4) intro!: map_cong)
qed

lemma hold_reserved:
  assumes "holds uid k d" and "user_updated uid g (\<lambda>r. r\<lparr>u_storage_reserved := u_storage_reserved r + int b\<rparr>) d d'"
  shows "holds uid (k + int b) d'"
proof -
  from assms(2) have ex: "\<exists>r \<in> set (users d). u_id r = uid \<and> g r"
    and d': "d' = d\<lparr>users := update_where (\<lambda>r. u_id r = uid \<and> g r) (\<lambda>r. r\<lparr>u_storage_reserved := u_storage_reserved r + int b\<rparr>) (users d)\<rparr>"
    by (auto simp: user_updated_def)
  have "without_hold uid (k + int b) (update_where (\<lambda>r. u_id r = uid \<and> g r)
      (\<lambda>r. r\<lparr>u_storage_reserved := u_storage_reserved r + int b\<rparr>) (users d)) =
      map (\<lambda>u. if u_id u = uid then u else u) (without_hold uid k (users d))"
    by (intro without_hold_update holds_ids [OF assms(1)] ex) simp_all
  with assms(1) show ?thesis by (simp add: holds_def d')
qed

lemma hold_released:
  assumes "holds uid k d" and "user_updated uid g (\<lambda>r. r\<lparr>u_storage_reserved := u_storage_reserved r - int b\<rparr>) d d'"
  shows "holds uid (k - int b) d'"
proof -
  from assms(2) have ex: "\<exists>r \<in> set (users d). u_id r = uid \<and> g r"
    and d': "d' = d\<lparr>users := update_where (\<lambda>r. u_id r = uid \<and> g r) (\<lambda>r. r\<lparr>u_storage_reserved := u_storage_reserved r - int b\<rparr>) (users d)\<rparr>"
    by (auto simp: user_updated_def)
  have "without_hold uid (k - int b) (update_where (\<lambda>r. u_id r = uid \<and> g r)
      (\<lambda>r. r\<lparr>u_storage_reserved := u_storage_reserved r - int b\<rparr>) (users d)) =
      map (\<lambda>u. if u_id u = uid then u else u) (without_hold uid k (users d))"
    by (intro without_hold_update holds_ids [OF assms(1)] ex) simp_all
  with assms(1) show ?thesis by (simp add: holds_def d')
qed


lemma hold_committed:
  assumes "distinct (map u_id (users d))" and "CommitReservedToUsed T uid b s = (Inr (Inr x), s')" and "in_tx T" and "d = sdb s"
  shows "\<exists>us. sdb s' = d\<lparr>users := us\<rparr> \<and> map u_id us = map u_id (users d) \<and>
    without_hold uid (k - int b) us = map (\<lambda>u. if u_id u = uid then u\<lparr>u_storage_used := u_storage_used u + int b\<rparr> else u)
      (without_hold uid k (users d))"
proof (cases "b = 0")
  case True
  with CommitReservedToUsed_ok [OF assms(2)] assms(4) show ?thesis
    by (intro exI [of _ "users d"]) (simp cong: if_cong)
next
  case False
  let ?upd = "\<lambda>r. r\<lparr>u_storage_reserved := u_storage_reserved r - int b, u_storage_used := u_storage_used r + int b\<rparr>"
  let ?us = "update_where (\<lambda>r. u_id r = uid \<and> u_storage_reserved r \<ge> int b) ?upd (users d)"
  from CommitReservedToUsed_ok [OF assms(2)] False assms(3,4)
  have ex: "\<exists>r \<in> set (users d). u_id r = uid \<and> u_storage_reserved r \<ge> int b" and s': "sdb s' = d\<lparr>users := ?us\<rparr>"
    by (auto simp: user_updated_def)
  have "map u_id ?us = map u_id (users d)" by (simp add: update_where_def)
  moreover have "without_hold uid (k - int b) ?us = map (\<lambda>u. if u_id u = uid then u\<lparr>u_storage_used := u_storage_used u + int b\<rparr> else u)
      (without_hold uid k (users d))"
    by (rule without_hold_update [OF assms(1) ex]) simp_all
  ultimately show ?thesis using s' by blast
qed

section \<open>Copies in the tables\<close>

lemma bump_ref_zero [simp]: "bump_ref 0 c = c"
  by (simp add: bump_ref_def)

lemma db_inv_copied:
  assumes inv: "db_inv d" and files: "files_inv (files d @ gs) n" and folders: "folders_inv ds m"
    and own: "\<forall>f \<in> set gs. f_user_id f = uid \<and> f_content_id f \<in> fc_id ` set (file_contents d)"
    and cs: "cs = map (\<lambda>c. bump_ref (int (count_list (map f_content_id gs) (fc_id c))) c) (file_contents d)"
    and bounds: "\<forall>c \<in> set cs. integer (fc_ref_count c)"
  shows "db_inv (d\<lparr>file_contents := cs, files := files d @ gs, seq_files := n, folders := ds, seq_folders := m,
      users := map (\<lambda>u. if u_id u = uid then u\<lparr>u_storage_used := u_storage_used u + int (sum_list (map f_size gs))\<rparr> else u) (users d)\<rparr>)"
proof -
  let ?us = "map (\<lambda>u. if u_id u = uid then u\<lparr>u_storage_used := u_storage_used u + int (sum_list (map f_size gs))\<rparr> else u) (users d)"
  have ids: "map u_id ?us = map u_id (users d)" by simp
  have keys: "map fc_id cs = map fc_id (file_contents d)" "map content_key cs = map content_key (file_contents d)"
    by (simp_all add: cs content_key_def bump_ref_def)
  then have set: "fc_id ` set cs = fc_id ` set (file_contents d)" by (metis list.set_map)
  have "contents_inv cs (seq_contents d) (files d @ gs) (trash d)"
  proof -
    have "content_ok (files d @ gs) (trash d) c" if "c \<in> set cs" for c
      using that inv by (auto simp: cs content_ok_def refs_of_files db_inv_def contents_inv_def)
    moreover have "0 < fc_id c \<and> fc_id c \<le> seq_contents d" if "c \<in> set cs" for c
      using that inv by (auto simp: cs db_inv_def contents_inv_def)
    ultimately show ?thesis
      using inv own bounds unfolding contents_inv_def keys set by (auto simp: db_inv_def contents_inv_def)
  qed
  moreover have "accounts_inv ?us (upload_tasks d) (files d @ gs) (trash d)"
    using inv own ids bytes_of_files [of gs uid]
    by (auto simp: db_inv_def accounts_inv_def account_ok_def simp del: map_map)
  moreover have "tasks_inv ?us (upload_tasks d)"
    using inv tasks_inv_users [OF ids] by (simp add: db_inv_def)
  ultimately show ?thesis
    using inv files folders by (simp add: db_inv_def)
qed

text \<open>The database after the copies \<open>gs\<close> were made and paid from the hold.\<close>

lemma copied_holds:
  assumes inv: "holds uid k d" and files: "files_inv (files d @ gs) n" and folders: "folders_inv ds m"
    and own: "\<forall>f \<in> set gs. f_user_id f = uid \<and> f_content_id f \<in> fc_id ` set (file_contents d)"
    and cs: "cs = map (\<lambda>c. bump_ref (int (count_list (map f_content_id gs) (fc_id c))) c) (file_contents d)"
    and bounds: "\<forall>c \<in> set cs. integer (fc_ref_count c)" and b: "b = sum_list (map f_size gs)"
    and us: "without_hold uid (k - int b) us = map (\<lambda>u. if u_id u = uid then u\<lparr>u_storage_used := u_storage_used u + int b\<rparr> else u)
      (without_hold uid k (users d))"
  shows "holds uid (k - int b) (d\<lparr>users := us, file_contents := cs, files := files d @ gs, seq_files := n, folders := ds, seq_folders := m\<rparr>)"
proof -
  let ?d = "d\<lparr>users := without_hold uid k (users d)\<rparr>"
  have "db_inv (?d\<lparr>file_contents := cs, files := files ?d @ gs, seq_files := n, folders := ds, seq_folders := m,
      users := map (\<lambda>u. if u_id u = uid then u\<lparr>u_storage_used := u_storage_used u + int (sum_list (map f_size gs))\<rparr> else u) (users ?d)\<rparr>)"
    by (rule db_inv_copied) (use assms in \<open>simp_all add: holds_def\<close>)
  then show ?thesis unfolding b [symmetric] by (simp add: holds_def us)
qed

section \<open>The statements\<close>

lemma delta_of_ref_increments: "delta_of (ref_increments fs) c = count_list (map f_content_id fs) c"
proof -
  have "ref_increments fs = fold (\<lambda>c. add_to c 1) (map f_content_id fs) []"
    by (simp add: ref_increments_def fold_map comp_def)
  then show ?thesis unfolding delta_of_value by (simp only: value_of_counts) (simp add: value_of_def)
qed


lemma IncrementRefCountsChecked_ok:
  assumes "IncrementRefCountsChecked T incs existing s = (Inr (Inr ids), s')" and "in_tx T"
  shows "sdb s' = (sdb s)\<lparr>file_contents := map (\<lambda>c. if fc_id c \<in> set ids then bump_ref (int (delta_of incs (fc_id c))) c else c) (file_contents (sdb s))\<rparr> \<and>
    (\<forall>c \<in> set (file_contents (sdb s)). fc_id c \<in> set ids \<longrightarrow> integer (fc_ref_count c + int (delta_of incs (fc_id c))))"
  using assms
  by (auto simp: IncrementRefCountsChecked_def Let_def count_refs_def list_ex_iff update_where_def elim!: bindM_okE bindR_okE exec_okE
      dest!: catchDb_okD check_gates_ok split: if_splits)

text \<open>References of all the copies to be made, each of whose contents was counted.\<close>

lemma references_counted:
  assumes "IncrementRefCountsChecked T (ref_increments fs) existing s = (Inr (Inr ids), s')" and "in_tx T"
    and "\<not> list_ex (\<lambda>f. f_content_id f \<notin> set ids) fs" and "\<forall>c \<in> set (file_contents (sdb s)). integer (fc_ref_count c)"
  shows "\<exists>cs. sdb s' = (sdb s)\<lparr>file_contents := cs\<rparr> \<and>
    cs = map (\<lambda>c. bump_ref (int (count_list (map f_content_id fs) (fc_id c))) c) (file_contents (sdb s)) \<and>
    (\<forall>c \<in> set cs. integer (fc_ref_count c))"
proof -
  note inc = IncrementRefCountsChecked_ok [OF assms(1,2)]
  have none: "count_list (map f_content_id fs) i = 0" if "i \<notin> set ids" for i
    using assms(3) that by (auto simp: list_ex_iff count_list_0_iff)
  have "(if fc_id c \<in> set ids then bump_ref (int (delta_of (ref_increments fs) (fc_id c))) c else c) =
      bump_ref (int (count_list (map f_content_id fs) (fc_id c))) c" for c
    by (simp add: delta_of_ref_increments none)
  with inc assms(4) show ?thesis
    by (auto simp: delta_of_ref_increments none)
qed

end
