(* ===== verification/Copy_Settlement.thy ===== *)
theory Copy_Settlement
  imports Copy_Accounts
begin

text \<open>
  A copy spends its reservation: each transaction of a copy lowers the hold by the bytes it
  turned into usage or gave back, and the handler gives back what its transactions left.
\<close>

section \<open>Rows of the copies\<close>

definition copies_of :: "nat \<Rightarrow> file_row list \<Rightarrow> 'w db \<Rightarrow> 'w db \<Rightarrow> bool" where
  "copies_of uid fs d d' \<longleftrightarrow>
     (\<exists>gs n. d' = d\<lparr>files := files d @ gs, seq_files := n\<rparr> \<and> files_inv (files d @ gs) n \<and>
        map f_content_id gs = map f_content_id fs \<and> map f_size gs = map f_size fs \<and>
        (\<forall>g \<in> set gs. f_user_id g = uid \<and> f_content_id g \<in> fc_id ` set (file_contents d)))"

lemma copies_of_Nil: "files_inv (files d) (seq_files d) \<Longrightarrow> copies_of uid [] d d"
  by (auto simp: copies_of_def intro!: exI [of _ "[]"] exI [of _ "seq_files d"])

lemma copied_file_simps [simp]:
  "f_user_id (copied_file uid t p f) = uid" "f_content_id (copied_file uid t p f) = f_content_id f"
  "f_size (copied_file uid t p f) = f_size f" "f_name (copied_file uid t p f) = f_name f"
  by (simp_all add: copied_file_def)

lemma copies_of_Cons:
  assumes ins: "insert_file_stmt (copied_file uid t p f) d = (Inr g, d1)" and named: "f_name f \<noteq> []"
    and inv: "files_inv (files d) (seq_files d)"
  shows "files_inv (files d1) (seq_files d1)" and "copies_of uid fs d1 d' \<Longrightarrow> copies_of uid (f # fs) d d'"
proof -
  from ins have g: "g = (copied_file uid t p f)\<lparr>f_id := Suc (seq_files d), f_created_at := now d\<rparr>"
    and d1: "d1 = d\<lparr>files := files d @ [g], seq_files := Suc (seq_files d)\<rparr>"
    and fresh: "\<forall>x \<in> set (files d). file_key x \<noteq> file_key g" and content: "f_content_id f \<in> fc_id ` set (file_contents d)"
    by (auto simp: insert_file_stmt_def Let_def list_ex_iff named_file_def file_key_def split: if_splits)
  show "files_inv (files d1) (seq_files d1)"
    unfolding d1 using files_inv_insert [OF inv, of g] fresh named by (simp add: g)
  assume "copies_of uid fs d1 d'"
  then obtain gs n where "d' = d1\<lparr>files := files d1 @ gs, seq_files := n\<rparr>" "files_inv (files d1 @ gs) n"
    "map f_content_id gs = map f_content_id fs" "map f_size gs = map f_size fs"
    "\<forall>g \<in> set gs. f_user_id g = uid \<and> f_content_id g \<in> fc_id ` set (file_contents d1)"
    unfolding copies_of_def by blast
  with content show "copies_of uid (f # fs) d d'"
    unfolding copies_of_def by (intro exI [of _ "g # gs"] exI [of _ n]) (auto simp: d1 g)
qed

lemma insert_files_stmt_ok:
  "insert_files_stmt (map (copied_file uid t p) fs) d = (Inr ids, d') \<Longrightarrow> files_inv (files d) (seq_files d) \<Longrightarrow>
   \<forall>f \<in> set fs. f_name f \<noteq> [] \<Longrightarrow> copies_of uid fs d d'"
proof (induction fs arbitrary: d ids)
  case Nil
  then show ?case by (auto intro: copies_of_Nil)
next
  case (Cons f fs)
  then obtain g d1 js where ins: "insert_file_stmt (copied_file uid t p f) d = (Inr g, d1)"
    and rest: "insert_files_stmt (map (copied_file uid t p) fs) d1 = (Inr js, d')"
    by (auto split: prod.splits sum.splits)
  have named: "f_name f \<noteq> []" using Cons.prems(3) by simp
  note step = copies_of_Cons [OF ins named Cons.prems(2)]
  show ?case by (rule step(2), rule Cons.IH [OF rest step(1)]) (use Cons.prems(3) in simp)
qed

lemma exec_tx_okD: "exec T q s = (Inr v, s') \<Longrightarrow> in_tx T \<Longrightarrow> q (sdb s) = (Inr v, sdb s')"
  by (auto elim!: exec_okE)

lemma copy_tree_files_ok:
  "copy_tree_files T uid copied fs maps s = (Inr v, s') \<Longrightarrow> in_tx T \<Longrightarrow> files_inv (files (sdb s)) (seq_files (sdb s)) \<Longrightarrow>
   \<forall>f \<in> set fs. f_name f \<noteq> [] \<Longrightarrow> copies_of uid fs (sdb s) (sdb s')"
proof (induction fs arbitrary: maps s)
  case Nil
  then show ?case by (auto intro: copies_of_Nil)
next
  case (Cons f fs)
  then obtain t p g s1 maps' where ins: "exec T (insert_file_stmt (copied_file uid t p f)) s = (Inr g, s1)"
    and rest: "copy_tree_files T uid copied fs maps' s1 = (Inr v, s')"
    by (auto elim!: bindM_okE split: option.splits)
  have named: "f_name f \<noteq> []" using Cons.prems(4) by simp
  note step = copies_of_Cons [OF exec_tx_okD [OF ins Cons.prems(2)] named Cons.prems(3)]
  show ?case by (rule step(2), rule Cons.IH [OF rest Cons.prems(2) step(1)]) (use Cons.prems(4) in simp)
qed

lemma copy_subfolders_ok:
  "copy_subfolders T uid root k rs copied maps s = (Inr v, s') \<Longrightarrow> in_tx T \<Longrightarrow>
   folders_inv (folders (sdb s)) (seq_folders (sdb s)) \<Longrightarrow> \<forall>r \<in> set rs. d_name r \<noteq> [] \<Longrightarrow>
   \<exists>ds n. sdb s' = (sdb s)\<lparr>folders := ds, seq_folders := n\<rparr> \<and> folders_inv ds n"
proof (induction rs arbitrary: copied maps s)
  case Nil
  then show ?case by (auto intro!: exI [of _ "folders (sdb s)"] exI [of _ "seq_folders (sdb s)"])
next
  case (Cons r rs)
  show ?case
  proof (cases "d_id r = d_id root")
    case True
    with Cons show ?thesis by simp
  next
    case False
    with Cons.prems(1) obtain x q s1 copied' maps' where ins: "exec T (insert_folder_stmt x) s = (Inr q, s1)"
      and x: "d_name x = d_name r" and rest: "copy_subfolders T uid root k rs copied' maps' s1 = (Inr v, s')"
      by (fastforce simp: Let_def elim!: bindM_okE split: option.splits)
    note q = insert_folder_ok [OF ins Cons.prems(2)]
    have "folders_inv (folders (sdb s) @ [q]) (Suc (seq_folders (sdb s)))"
      by (rule folders_inv_insert) (use q x Cons.prems(3,4) in auto)
    with Cons.IH [OF rest Cons.prems(2)] Cons.prems(4) q show ?thesis by auto
  qed
qed

section \<open>The transactions\<close>

lemma reads_same: "(\<And>P. keeps P m) \<Longrightarrow> m s = (r, s') \<Longrightarrow> sdb s' = sdb s"
  using keepsD' [of "\<lambda>d. d = sdb s" m s r s'] by simp

lemma keeps_lock_target: "in_tx T \<Longrightarrow> keeps P (lock_target T uid t loc)"
  unfolding lock_target_def by (intro keeps_intros keeps_drive_reads)

lemma count_target_ok:
  assumes "count_target T uid t n s = (Inr (Inr x), s')" and "in_tx T"
  shows "\<exists>ds. sdb s' = (sdb s)\<lparr>folders := ds\<rparr> \<and> map folder_ident ds = map folder_ident (folders (sdb s))"
  using assms unfolding count_target_def
  by (auto elim!: bindM_okE dest!: ApplyItemCountDelta_ok split: if_splits intro: exI [of _ "folders (sdb s)"])

lemma release_settles:
  assumes "ReleaseReservedStorageChecked T uid b s = (Inr (Inr x), s')" and "in_tx T" and "holds uid k (sdb s)"
  shows "holds uid (k - int b) (sdb s')"
  using ReleaseReservedStorageChecked_ok [OF assms(1)] assms(2,3) by (auto intro: hold_released)

text \<open>Counted references, copied rows and the commit of their bytes, together.\<close>

lemma copies_settle:
  assumes "holds uid k d"
    and "cs = map (\<lambda>c. bump_ref (int (count_list (map f_content_id fs) (fc_id c))) c) (file_contents d)"
    and "\<forall>c \<in> set cs. integer (fc_ref_count c)"
    and "copies_of uid fs (d\<lparr>file_contents := cs, folders := ds, seq_folders := m\<rparr>) d2"
    and "sdb s = d2\<lparr>folders := ds'\<rparr>" and "folders_inv ds' m"
    and "CommitReservedToUsed T uid b s = (Inr (Inr x), s')" and "in_tx T" and "b = sum_list (map f_size fs)"
  shows "holds uid (k - int b) (sdb s')"
proof -
  from assms(4) obtain gs n where d2: "d2 = d\<lparr>file_contents := cs, folders := ds, seq_folders := m, files := files d @ gs, seq_files := n\<rparr>"
    and gs: "files_inv (files d @ gs) n" "map f_content_id gs = map f_content_id fs" "map f_size gs = map f_size fs"
      "\<forall>g \<in> set gs. f_user_id g = uid \<and> f_content_id g \<in> fc_id ` set cs"
    by (auto simp: copies_of_def)
  have "map fc_id cs = map fc_id (file_contents d)" by (simp add: assms(2))
  then have ids: "fc_id ` set cs = fc_id ` set (file_contents d)" by (metis list.set_map)
  have users: "users (sdb s) = users d" by (simp add: assms(5) d2)
  with holds_ids [OF assms(1)] have dist: "distinct (map u_id (users (sdb s)))" by simp
  from hold_committed [OF dist assms(7,8) refl, of k] obtain us where us: "sdb s' = (sdb s)\<lparr>users := us\<rparr>"
    "without_hold uid (k - int b) us = map (\<lambda>u. if u_id u = uid then u\<lparr>u_storage_used := u_storage_used u + int b\<rparr> else u)
      (without_hold uid k (users d))"
    unfolding users by blast
  have "holds uid (k - int b) (d\<lparr>users := us, file_contents := cs, files := files d @ gs, seq_files := n, folders := ds', seq_folders := m\<rparr>)"
    by (rule copied_holds [OF assms(1) gs(1) assms(6) _ _ assms(3) _ us(2)]) (use gs ids assms(2,9) in simp_all)
  moreover have "sdb s' = d\<lparr>users := us, file_contents := cs, files := files d @ gs, seq_files := n, folders := ds', seq_folders := m\<rparr>"
    unfolding us(1) assms(5) d2 by (rule db.equality) simp_all
  ultimately show ?thesis by simp
qed

lemma holds_parts:
  assumes "holds uid k d"
  shows "files_inv (files d) (seq_files d)" and "folders_inv (folders d) (seq_folders d)"
    and "\<forall>c \<in> set (file_contents d). integer (fc_ref_count c)"
  using assms by (simp_all add: holds_def db_inv_def contents_inv_def)

lemma unoccupied_ok:
  "unoccupied occ xs = (kept, n) \<Longrightarrow> sum_list (map f_size kept) + n = sum_list (map f_size xs) \<and> set kept \<subseteq> set xs"
  by (induction occ xs arbitrary: kept n rule: unoccupied.induct) (auto split: if_splits prod.splits)

lemma InsertCopiedFiles_ok:
  assumes "InsertCopiedFiles T uid t fs s = (Inr (Inr maps), s')" and "in_tx T" and "holds uid k d"
    and "sdb s = d\<lparr>file_contents := cs\<rparr>" and "\<forall>f \<in> set fs. f_name f \<noteq> []"
  shows "copies_of uid fs (sdb s) (sdb s')"
proof -
  have inv: "files_inv (files (sdb s)) (seq_files (sdb s))" using holds_parts [OF assms(3)] assms(4) by simp
  show ?thesis
  proof (cases "fs = []")
    case True
    with assms(1) inv show ?thesis by (auto simp: InsertCopiedFiles_def intro: copies_of_Nil)
  next
    case False
    with assms(1) obtain loc s1 ids where loc: "ResolveOwnedFolderLocation T t uid s = (Inr (Inr loc), s1)"
      and ins: "exec T (insert_files_stmt (map (copied_file uid t (loc_path loc)) fs)) s1 = (Inr ids, s')"
      by (auto simp: InsertCopiedFiles_def elim!: bindR_okE bindM_okE dest!: catchDb_okD split: if_splits)
    from ResolveOwnedFolderLocation_ok [OF loc assms(2)] insert_files_stmt_ok [OF exec_tx_okD [OF ins assms(2)]] inv assms(5)
    show ?thesis by simp
  qed
qed

text \<open>The transaction of a batch of files.\<close>

lemma copy_batch_tx_settles:
  assumes run: "copy_batch_tx uid t loc xs ex T s = (Inr (Inr (maps, a, b)), s')" and tx: "in_tx T"
    and hold: "holds uid k (sdb s)" and named: "\<forall>f \<in> set xs. f_name f \<noteq> []"
  shows "a + b = sum_list (map f_size xs) \<and> holds uid (k - int (a + b)) (sdb s')"
proof -
  from run obtain v0 s0 loc1 s1 occ s2 items ids s3 s4 u5 s5 u6 s6 where
    s0: "lock_names (File_AcquireNameLock T uid t) (normalize_names (map f_name xs)) s = (Inr v0, s0)"
    and s1: "lock_target T uid t loc s0 = (Inr (Inr loc1), s1)"
    and s2: "QueryOccupiedNames T t uid (normalize_names (map f_name xs)) s1 = (Inr occ, s2)"
    and items: "unoccupied occ xs = (items, b)"
    and inc: "IncrementRefCountsChecked T (ref_increments items) ex s2 = (Inr (Inr ids), s3)"
    and all: "\<not> list_ex (\<lambda>f. f_content_id f \<notin> set ids) items"
    and ins: "InsertCopiedFiles T uid t items s3 = (Inr (Inr maps), s4)"
    and cnt: "count_target T uid t (length maps) s4 = (Inr (Inr u5), s5)"
    and com: "CommitReservedToUsed T uid (sum_list (map f_size items)) s5 = (Inr (Inr u6), s6)"
    and rel: "\<exists>v. ReleaseReservedStorageChecked T uid b s6 = (Inr (Inr v), s')"
    and a: "a = sum_list (map f_size items)"
    unfolding copy_batch_tx_def Let_def
    by (auto elim!: bindM_okE bindR_okE split: prod.splits if_splits)
  have "sdb s0 = sdb s"
    by (rule reads_same [where m = "lock_names (File_AcquireNameLock T uid t) (normalize_names (map f_name xs))", OF _ s0])
       (intro keeps_lock_names keeps_drive_reads tx)
  then have same: "sdb s2 = sdb s"
    using reads_same [OF keeps_lock_target [OF tx] s1] reads_same [OF keeps_drive_reads(11) [OF tx] s2] by simp
  note kept = unoccupied_ok [OF items]
  from references_counted [OF inc tx all] holds_parts(3) [OF hold] same obtain cs where
    cs: "sdb s3 = (sdb s)\<lparr>file_contents := cs\<rparr>"
      "cs = map (\<lambda>c. bump_ref (int (count_list (map f_content_id items) (fc_id c))) c) (file_contents (sdb s))"
      "\<forall>c \<in> set cs. integer (fc_ref_count c)" by auto
  have "copies_of uid items (sdb s3) (sdb s4)"
    by (rule InsertCopiedFiles_ok [OF ins tx hold cs(1)]) (use named kept in blast)
  then have copies: "copies_of uid items ((sdb s)\<lparr>file_contents := cs, folders := folders (sdb s), seq_folders := seq_folders (sdb s)\<rparr>) (sdb s4)"
    by (simp add: cs(1))
  then have folders: "folders (sdb s4) = folders (sdb s)" by (auto simp: copies_of_def)
  from count_target_ok [OF cnt tx] obtain ds where ds: "sdb s5 = (sdb s4)\<lparr>folders := ds\<rparr>"
    "map folder_ident ds = map folder_ident (folders (sdb s))" unfolding folders by blast
  have "holds uid (k - int a) (sdb s6)"
    by (rule copies_settle [OF hold cs(2,3) copies ds(1) _ com tx, folded a])
       (use ds(2) holds_parts(2) [OF hold] folders_inv_cong in blast, simp)
  with rel tx have "holds uid (k - int a - int b) (sdb s')" by (auto intro: release_settles)
  moreover have eq: "k - int a - int b = k - int (a + b)" by simp
  ultimately have "holds uid (k - int (a + b)) (sdb s')" by (simp only: eq)
  moreover have "a + b = sum_list (map f_size xs)" using kept a by simp
  ultimately show ?thesis by blast
qed

text \<open>The transaction of a folder tree.\<close>

definition sound_plan :: "FolderDeletePlan \<Rightarrow> bool" where
  "sound_plan p \<longleftrightarrow> pl_item_size p = sum_list (map f_size (pl_files p)) \<and> d_name (pl_root p) \<noteq> [] \<and>
     (\<forall>r \<in> set (pl_folders p). d_name r \<noteq> []) \<and> (\<forall>f \<in> set (pl_files p). f_name f \<noteq> [])"

lemma copy_folder_tx_settles:
  assumes run: "copy_folder_tx uid t loc p ex T s = (Inr (Inr (fm, xm, a, b)), s')" and tx: "in_tx T"
    and hold: "holds uid k (sdb s)" and sound: "sound_plan p"
  shows "a + b = pl_item_size p \<and> holds uid (k - int (a + b)) (sdb s')"
proof -
  from run obtain v0 s0 loc1 s1 occ s2 where
    s0: "Folder_AcquireNameLock T uid t (d_name (pl_root p)) s = (Inr v0, s0)"
    and s1: "lock_target T uid t loc s0 = (Inr (Inr loc1), s1)"
    and s2: "QueryOccupiedFolderNames T t uid [d_name (pl_root p)] s1 = (Inr occ, s2)"
    and rest: "(if d_name (pl_root p) \<in> set occ
        then bindR (ReleaseReservedStorageChecked T uid (pl_item_size p)) (\<lambda>_. okR ([], [], 0, pl_item_size p))
        else
          bindR (IncrementRefCountsChecked T (ref_increments (pl_files p)) ex) (\<lambda>incremented.
          if list_ex (\<lambda>f. f_content_id f \<notin> set incremented) (pl_files p) then failR refs_failed
          else copy_tree T uid t loc1 p)) s2 = (Inr (Inr (fm, xm, a, b)), s')"
    unfolding copy_folder_tx_def Let_def by (elim bindM_okE bindR_okE) blast
  have same: "sdb s2 = sdb s"
    using reads_same [OF keeps_drive_reads(3) [OF tx] s0] reads_same [OF keeps_lock_target [OF tx] s1]
      reads_same [OF keeps_drive_reads(12) [OF tx] s2] by simp
  show ?thesis
  proof (cases "d_name (pl_root p) \<in> set occ")
    case True
    with rest release_settles [OF _ tx] hold same show ?thesis by (auto elim!: bindR_okE)
  next
    case False
    with rest obtain ids s3 where inc: "IncrementRefCountsChecked T (ref_increments (pl_files p)) ex s2 = (Inr (Inr ids), s3)"
      and all: "\<not> list_ex (\<lambda>f. f_content_id f \<notin> set ids) (pl_files p)"
      and tree: "copy_tree T uid t loc1 p s3 = (Inr (Inr (fm, xm, a, b)), s')"
      by (auto elim!: bindR_okE split: if_splits)
    from references_counted [OF inc tx all] holds_parts(3) [OF hold] same obtain cs where
      cs: "sdb s3 = (sdb s)\<lparr>file_contents := cs\<rparr>"
        "cs = map (\<lambda>c. bump_ref (int (count_list (map f_content_id (pl_files p)) (fc_id c))) c) (file_contents (sdb s))"
        "\<forall>c \<in> set cs. integer (fc_ref_count c)" by auto
    let ?path = "BuildFolderPath (loc_path loc1) (d_name (pl_root p))"
    let ?x = "\<lparr>d_id = 0, d_user_id = uid, d_parent_id = t, d_name = d_name (pl_root p), d_path = ?path,
           d_depth = loc_depth loc1 + 1, d_item_count = d_item_count (pl_root p)\<rparr>"
    let ?finish = "\<lambda>folder_mappings file_mappings.
      bindR (count_target T uid t 1) (\<lambda>_. bindR (CommitReservedToUsed T uid (pl_item_size p)) (\<lambda>_.
        okR (folder_mappings, file_mappings, sum_list (map f_size (pl_files p)), 0)))"
    from tree obtain q s4 where root: "exec T (insert_folder_stmt ?x) s3 = (Inr q, s4)"
      and t1: "bindM (copy_subfolders T uid (pl_root p) (loc_depth loc1 + 1) (pl_folders p)
          [(d_id (pl_root p), d_id q, ?path)] [(d_id (pl_root p), d_id q)]) (\<lambda>(copied, folder_mappings).
          bindM (copy_tree_files T uid copied (pl_files p) []) (?finish folder_mappings)) s4 = (Inr (Inr (fm, xm, a, b)), s')"
      unfolding copy_tree_def Let_def by (rule bindM_okE)
    from t1 obtain cf s5 where sub: "copy_subfolders T uid (pl_root p) (loc_depth loc1 + 1) (pl_folders p)
          [(d_id (pl_root p), d_id q, ?path)] [(d_id (pl_root p), d_id q)] s4 = (Inr cf, s5)"
      and t2: "(case cf of (copied, folder_mappings) \<Rightarrow>
          bindM (copy_tree_files T uid copied (pl_files p) []) (?finish folder_mappings)) s5 = (Inr (Inr (fm, xm, a, b)), s')"
      by (rule bindM_okE)
    from t2 obtain cm fm' xm' s6 where fil: "copy_tree_files T uid cm (pl_files p) [] s5 = (Inr xm', s6)"
      and t3: "?finish fm' xm' s6 = (Inr (Inr (fm, xm, a, b)), s')"
      by (cases cf, simp only: prod.case) (rule bindM_okE)
    from t3 obtain u7 s7 u8 where cnt: "count_target T uid t 1 s6 = (Inr (Inr u7), s7)"
      and com: "CommitReservedToUsed T uid (pl_item_size p) s7 = (Inr (Inr u8), s')"
      and ab: "a = sum_list (map f_size (pl_files p))" "b = 0"
      by (auto elim!: bindR_okE)
    note q = insert_folder_ok [OF root tx]
    have "folders_inv (folders (sdb s4)) (seq_folders (sdb s4))"
      using folders_inv_insert [OF holds_parts(2) [OF hold], of q] q cs(1) sound by (simp add: sound_plan_def)
    from copy_subfolders_ok [OF sub tx this] sound obtain ds m where
      s5: "sdb s5 = (sdb s4)\<lparr>folders := ds, seq_folders := m\<rparr>" "folders_inv ds m" by (auto simp: sound_plan_def)
    then have s5': "sdb s5 = (sdb s)\<lparr>file_contents := cs, folders := ds, seq_folders := m\<rparr>" using q cs(1) by simp
    have copies: "copies_of uid (pl_files p) (sdb s5) (sdb s6)"
      by (rule copy_tree_files_ok [OF fil tx]) (use s5' holds_parts(1) [OF hold] sound in \<open>simp_all add: sound_plan_def\<close>)
    then have folders: "folders (sdb s6) = ds" using s5 by (auto simp: copies_of_def)
    from count_target_ok [OF cnt tx] obtain ds' where ds': "sdb s7 = (sdb s6)\<lparr>folders := ds'\<rparr>"
      "map folder_ident ds' = map folder_ident ds" unfolding folders by blast
    have size: "pl_item_size p = sum_list (map f_size (pl_files p))" using sound by (simp add: sound_plan_def)
    have "folders_inv ds' m" using folders_inv_cong [OF ds'(2), of m] s5(2) by simp
    from copies_settle [OF hold cs(2,3) copies [unfolded s5'] ds'(1) this com tx size]
    have "holds uid (k - int (pl_item_size p)) (sdb s')" .
    with ab sound show ?thesis by (simp add: sound_plan_def)
  qed
qed


section \<open>Paying from the hold\<close>

text \<open>
  An operation \<^emph>\<open>pays\<close> \<open>b\<close> bytes if its success lowers any hold that has them by exactly \<open>b\<close>; its
  failure leaves at least what was held besides them.
\<close>

definition pays :: "nat \<Rightarrow> nat \<Rightarrow> ('w, 'a Result) M \<Rightarrow> bool" where
  "pays uid b m \<longleftrightarrow>
     (\<forall>k s r s'. holds uid (int (k + b)) (sdb s) \<longrightarrow> m s = (r, s') \<longrightarrow>
        (\<exists>j. holds uid (int (k + j)) (sdb s')) \<and> ((\<exists>v. r = Inr (Inr v)) \<longrightarrow> holds uid (int k) (sdb s')))"

lemma paysI:
  assumes "\<And>k s r s'. holds uid (int (k + b)) (sdb s) \<Longrightarrow> m s = (r, s') \<Longrightarrow>
    (\<exists>j. holds uid (int (k + j)) (sdb s')) \<and> ((\<exists>v. r = Inr (Inr v)) \<longrightarrow> holds uid (int k) (sdb s'))"
  shows "pays uid b m"
  using assms unfolding pays_def by blast

lemma paysD:
  assumes "pays uid b m" and "holds uid (int (k + b)) (sdb s)" and "m s = (r, s')"
  shows "\<exists>j. holds uid (int (k + j)) (sdb s')" and "r = Inr (Inr v) \<Longrightarrow> holds uid (int k) (sdb s')"
  using assms unfolding pays_def by blast+

lemma pays_okR: "pays uid 0 (okR x)"
  by (rule paysI) (auto simp: okR_def retM_def intro!: exI [of _ 0])

lemma pays_failR: "pays uid b (failR e)"
  by (rule paysI) (auto simp: failR_def retM_def simp del: of_nat_add)

lemma pays_keeps:
  assumes "\<And>k. keeps (holds uid (int k)) m"
  shows "pays uid 0 m"
  by (rule paysI) (auto dest: keepsD' [OF assms] intro!: exI [of _ 0])

lemma pays_bindM:
  assumes "\<And>k. keeps (holds uid (int k)) m" and "\<And>k s v s'. holds uid (int k) (sdb s) \<Longrightarrow> m s = (Inr v, s') \<Longrightarrow> Q v"
    and "\<And>v. Q v \<Longrightarrow> pays uid b (f v)"
  shows "pays uid b (bindM m f)"
proof (rule paysI)
  fix k s r s'
  assume h: "holds uid (int (k + b)) (sdb s)" and run: "bindM m f s = (r, s')"
  obtain r1 s1 where m: "m s = (r1, s1)" by fastforce
  then have h1: "holds uid (int (k + b)) (sdb s1)" by (rule keepsD' [OF assms(1) h])
  show "(\<exists>j. holds uid (int (k + j)) (sdb s')) \<and> ((\<exists>v. r = Inr (Inr v)) \<longrightarrow> holds uid (int k) (sdb s'))"
  proof (cases r1)
    case (Inl e)
    with run m h1 show ?thesis by (auto simp: bindM_def simp del: of_nat_add)
  next
    case (Inr v)
    with run m have k: "f v s1 = (r, s')" by (simp add: bindM_def)
    from assms(3) [OF assms(2) [OF h m [unfolded Inr]]] have "pays uid b (f v)" .
    from paysD [OF this h1 k] show ?thesis by blast
  qed
qed

lemmas pays_read = pays_bindM [where Q = "\<lambda>_. True"]

lemma pays_bindR:
  assumes "pays uid a m" and "\<And>v. pays uid b (f v)"
  shows "pays uid (a + b) (bindR m f)"
proof (rule paysI)
  fix k s r s'
  assume h: "holds uid (int (k + (a + b))) (sdb s)" and run: "bindR m f s = (r, s')"
  obtain r1 s1 where m: "m s = (r1, s1)" by fastforce
  from h have "holds uid (int ((k + b) + a)) (sdb s)" by (simp add: ac_simps)
  note p = paysD [OF assms(1) this m]
  show "(\<exists>j. holds uid (int (k + j)) (sdb s')) \<and> ((\<exists>v. r = Inr (Inr v)) \<longrightarrow> holds uid (int k) (sdb s'))"
  proof (cases "\<exists>v. r1 = Inr (Inr v)")
    case True
    then obtain v where v: "r1 = Inr (Inr v)" by blast
    with run m have "f v s1 = (r, s')" by (simp add: bindR_def bindM_def)
    from paysD [OF assms(2) p(2) [OF v] this] show ?thesis by blast
  next
    case False
    then have "s' = s1 \<and> (\<forall>v. r \<noteq> Inr (Inr v))"
      using run m by (cases r1; cases "projr r1") (auto simp: bindR_def bindM_def failR_def retM_def)
    moreover from p(1) obtain j where "holds uid (int (k + (b + j))) (sdb s1)"
      by (auto simp only: add.assoc)
    ultimately show ?thesis by blast
  qed
qed

text \<open>A transaction that pays \<open>paid v\<close> when its result is \<open>v\<close>, with a handler that pays the rest.\<close>

lemma pays_Run:
  assumes st: "\<And>k. stable (holds uid (int k)) E"
    and body: "\<And>k s v s'. body (transaction_client E) s = (Inr (Inr v), s') \<Longrightarrow> holds uid k (sdb s) \<Longrightarrow>
      paid v \<le> b \<and> holds uid (k - int (paid v)) (sdb s')"
    and fail: "\<And>e. pays uid b (f (Inl e))" and ok: "\<And>v. paid v \<le> b \<Longrightarrow> pays uid (b - paid v) (f (Inr v))"
  shows "pays uid b (bindM (Run E err body) f)"
proof (rule paysI)
  fix k s r s'
  assume h: "holds uid (int (k + b)) (sdb s)" and run: "bindM (Run E err body) f s = (r, s')"
  obtain res s1 where m: "Run E err body s = (Inr res, s1)" using Run_never_throws by blast
  with run have k: "f res s1 = (r, s')" by (simp add: bindM_def)
  from st h have h0: "holds uid (int (k + b)) (other E (pc s) (sdb s))" by (rule stableD)
  show "(\<exists>j. holds uid (int (k + j)) (sdb s')) \<and> ((\<exists>v. r = Inr (Inr v)) \<longrightarrow> holds uid (int k) (sdb s'))"
  proof (cases res)
    case (Inl e)
    with Run_error_rolls_back m have "sdb s1 = other E (pc s) (sdb s)" by blast
    with h0 have "holds uid (int (k + b)) (sdb s1)" by simp
    from paysD [OF fail this k [unfolded Inl]] show ?thesis by blast
  next
    case (Inr v)
    from m [unfolded Inr] obtain s2 s3 where "sdb s2 = other E (pc s) (sdb s)"
      and run2: "body (transaction_client E) s2 = (Inr (Inr v), s3)" and s1: "sdb s1 = sdb s3" by (rule Run_okE)
    with h0 have "holds uid (int (k + b)) (sdb s2)" by simp
    from body [OF run2 this] s1 have le: "paid v \<le> b" and "holds uid (int (k + b) - int (paid v)) (sdb s1)" by simp_all
    moreover from le have "int (k + b) - int (paid v) = int (k + (b - paid v))" by simp
    ultimately have "holds uid (int (k + (b - paid v))) (sdb s1)" by (simp only:)
    from paysD [OF ok [OF le] this k [unfolded Inr]] show ?thesis by blast
  qed
qed

lemma pays_reserve:
  assumes st: "\<And>k. stable (holds uid (int k)) E" and f: "\<And>v. pays uid b (f v)"
  shows "pays uid 0 (bindR (if b > 0 then Run E err (\<lambda>T. ReserveStorage T uid b) else okR ()) f)"
proof (cases "b = 0")
  case True
  with pays_bindR [OF pays_okR, of uid b f "()"] f show ?thesis by simp
next
  case False
  show ?thesis
  proof (rule paysI)
    fix k s r s'
    assume h: "holds uid (int (k + 0)) (sdb s)"
      and run: "bindR (if b > 0 then Run E err (\<lambda>T. ReserveStorage T uid b) else okR ()) f s = (r, s')"
    obtain res s1 where m: "Run E err (\<lambda>T. ReserveStorage T uid b) s = (Inr res, s1)" using Run_never_throws by blast
    from st h have h0: "holds uid (int k) (other E (pc s) (sdb s))" by (simp add: stableD)
    show "(\<exists>j. holds uid (int (k + j)) (sdb s')) \<and> ((\<exists>v. r = Inr (Inr v)) \<longrightarrow> holds uid (int k) (sdb s'))"
    proof (cases res)
      case (Inl e)
      with Run_error_rolls_back m have "sdb s1 = other E (pc s) (sdb s)" by blast
      with run m False h0 Inl show ?thesis
        by (auto simp: bindR_def bindM_def failR_def retM_def intro!: exI [of _ 0])
    next
      case (Inr v)
      from m [unfolded Inr] obtain s2 s3 where s2: "sdb s2 = other E (pc s) (sdb s)"
        and run2: "ReserveStorage (transaction_client E) uid b s2 = (Inr (Inr v), s3)" and s1: "sdb s1 = sdb s3" by (rule Run_okE)
      from ReserveStorage_ok [OF run2] False have
        "user_updated uid (\<lambda>r. u_storage_used r + u_storage_reserved r + int b \<le> u_storage_quota r)
          (\<lambda>r. r\<lparr>u_storage_reserved := u_storage_reserved r + int b\<rparr>) (sdb s2) (sdb s3)" by simp
      from hold_reserved [OF _ this, of "int k"] h0 s1 s2 have "holds uid (int (k + b)) (sdb s1)" by simp
      moreover from run m False Inr have "f v s1 = (r, s')" by (simp add: bindR_def bindM_def)
      ultimately show ?thesis using paysD [OF f] by blast
    qed
  qed
qed


section \<open>The handler\<close>

definition steady :: "nat \<Rightarrow> 'w client \<Rightarrow> bool" where
  "steady uid E \<longleftrightarrow> (\<forall>k. stable (holds uid (int k)) E)"

lemma steadyD: "steady uid E \<Longrightarrow> stable (holds uid (int k)) E"
  by (simp add: steady_def)

lemma holds_store: "holds uid k (d\<lparr>store := w\<rparr>) = holds uid k d"
  by (simp add: holds_def db_inv_def)

lemma keeps_invalidate: "steady uid E \<Longrightarrow> keeps (holds uid (int k)) (invalidate_list E S u)"
  unfolding invalidate_list_def by (rule keeps_callStore [OF steadyD]) (simp_all add: holds_store)

lemma keeps_copy_reads:
  assumes "steady uid E"
  shows "keeps (holds uid (int k)) (QueryOccupiedNames E i u ns)" "keeps (holds uid (int k)) (QueryOccupiedFolderNames E i u ns)"
    "keeps (holds uid (int k)) (FindExistingIds E cs)" "keeps (holds uid (int k)) (ResolveOwnedFolderLocation E i u)"
    "keeps (holds uid (int k)) (FetchFilesInFolders E cs u)"
  unfolding QueryOccupiedNames_def QueryOccupiedFolderNames_def FindExistingIds_def ResolveOwnedFolderLocation_def
    FetchFilesInFolders_def
  by (intro keeps_intros steadyD assms)+

lemma pays_case_option:
  "pays uid b m \<Longrightarrow> (\<And>x. y = Some x \<Longrightarrow> pays uid b (f x)) \<Longrightarrow> pays uid b (case y of None \<Rightarrow> m | Some x \<Rightarrow> f x)"
  by (cases y) simp_all

lemma pays_if: "(c \<Longrightarrow> pays uid b m) \<Longrightarrow> (\<not> c \<Longrightarrow> pays uid b m') \<Longrightarrow> pays uid b (if c then m else m')"
  by simp

lemma pays_case_prod: "(\<And>x z. y = (x, z) \<Longrightarrow> pays uid b (f x z)) \<Longrightarrow> pays uid b (case y of (x, z) \<Rightarrow> f x z)"
  by (cases y) simp

lemma pays_fail_after: "steady uid E \<Longrightarrow> pays uid b (return_release_error E S u cs err)"
  unfolding return_release_error_def by (rule pays_read) (intro keeps_intros keeps_invalidate pays_failR TrueI | assumption)+

lemma pays_give_back:
  assumes "steady uid E"
  shows "pays uid b (give_back E S uid b cs)"
proof (cases "b = 0")
  case True
  have "give_back E S uid 0 cs = okR cs"
    by (rule ext) (simp add: give_back_def release_copy_reservation_def okR_def bindM_def retM_def)
  with True show ?thesis by (simp add: pays_okR)
next
  case False
  then show ?thesis
    unfolding give_back_def release_copy_reservation_def if_not_P [OF False]
    by (intro pays_Run [where paid = "\<lambda>_. b"] steadyD assms)
       (simp_all add: release_settles pays_fail_after [OF assms] pays_okR)
qed

lemma pays_rest: "steady uid E \<Longrightarrow> b = n \<Longrightarrow> pays uid b (if n > 0 then give_back E S uid n cs else okR cs)"
  by (simp add: pays_give_back pays_okR)

lemma pays_then: "pays uid a m \<Longrightarrow> (\<And>v. pays uid c (f v)) \<Longrightarrow> b = a + c \<Longrightarrow> pays uid b (bindR m f)"
  using pays_bindR by blast

lemma sum_filter_split: "sum_list (map f (filter P xs)) + sum_list (map f (filter (\<lambda>x. \<not> P x) xs)) = sum_list (map f xs)" for f :: "'a \<Rightarrow> nat"
  by (induction xs) auto

lemma pays_copy_batch:
  assumes st: "steady uid E" and named: "\<forall>f \<in> set chunk. f_name f \<noteq> []"
  shows "pays uid (sum_list (map f_size chunk)) (copy_batch E S uid t loc chunk cs)"
  unfolding copy_batch_def Let_def
proof (rule pays_read; (intro pays_case_option pays_case_prod pays_give_back st)?)
  fix query occupied pending skipped
  assume p: "unoccupied occupied chunk = (pending, skipped)"
  note kept = unoccupied_ok [OF p]
  let ?valid = "\<lambda>ex. filter (\<lambda>f. f_content_id f \<in> set ex) pending"
  let ?lost = "\<lambda>ex. sum_list (map f_size (filter (\<lambda>f. f_content_id f \<notin> set ex) pending))"
  have sum: "sum_list (map f_size (?valid ex)) + (skipped + ?lost ex) = sum_list (map f_size chunk)" for ex
    using kept sum_filter_split [of f_size "\<lambda>f. f_content_id f \<in> set ex" pending] by linarith
  have rest: "sum_list (map f_size chunk) - sum_list (map f_size (?valid ex)) = skipped + ?lost ex" for ex
    using sum [of ex] by linarith
  have body: "sum_list (map f_size (?valid ex)) \<le> sum_list (map f_size chunk) \<and>
      holds uid (k - int (sum_list (map f_size (?valid ex)))) (sdb s')"
    if run: "copy_batch_tx uid t loc (?valid ex) ex (transaction_client E) s = (Inr (Inr v), s')" and h: "holds uid k (sdb s)"
    for ex k s v s'
  proof -
    obtain maps a b where v: "v = (maps, a, b)" by (cases v)
    have "\<forall>f \<in> set (?valid ex). f_name f \<noteq> []" using kept named by auto
    from copy_batch_tx_settles [OF run [unfolded v] in_tx_transaction_client h this] sum [of ex] show ?thesis
      by (metis le_add1)
  qed
  show "pays uid (sum_list (map f_size chunk))
     (bindM (if pending = [] then retM (Some [])
        else catchDb (bindM (FindExistingIds E (map fst (ref_increments pending))) (\<lambda>ids. retM (Some ids))) (retM None))
      (\<lambda>contents. case contents of None \<Rightarrow> give_back E S uid (sum_list (map f_size chunk)) cs
       | Some existing \<Rightarrow>
           if ?valid existing = [] then give_back E S uid (sum_list (map f_size chunk)) cs
           else bindM (Run E (ErrorInfo1 InternalError) (copy_batch_tx uid t loc (?valid existing) existing))
             (\<lambda>tx_result. case tx_result of Inl _ \<Rightarrow> give_back E S uid (sum_list (map f_size chunk)) cs
              | Inr (mappings, actual, freed) \<Rightarrow>
                  if 0 < skipped + ?lost existing
                  then give_back E S uid (skipped + ?lost existing)
                    (cs\<lparr>cs_copied_files := cs_copied_files cs + length mappings, cs_actual := cs_actual cs + actual,
                       cs_released := cs_released cs + freed, cs_new_files := cs_new_files cs @ mappings\<rparr>)
                  else okR (cs\<lparr>cs_copied_files := cs_copied_files cs + length mappings, cs_actual := cs_actual cs + actual,
                       cs_released := cs_released cs + freed, cs_new_files := cs_new_files cs @ mappings\<rparr>))))"
    by (rule pays_read; (intro pays_case_option pays_if pays_give_back st)?)
       (auto intro!: keeps_intros keeps_copy_reads pays_Run [OF steadyD [OF st] body] pays_give_back pays_case_prod pays_rest st
         simp: rest simp del: add_gr_0 split del: if_split)
qed (auto intro!: keeps_intros keeps_copy_reads st)


lemma pays_copy_batches:
  "steady uid E \<Longrightarrow> \<forall>f \<in> set (concat chunks). f_name f \<noteq> [] \<Longrightarrow>
   pays uid (sum_list (map f_size (concat chunks))) (copy_batches E S uid t loc chunks cs)"
proof (induction chunks arbitrary: cs)
  case (Cons chunk chunks)
  have named: "\<forall>f \<in> set chunk. f_name f \<noteq> []" using Cons.prems(2) by simp
  show ?case
    unfolding copy_batches.simps
    by (rule pays_then [OF pays_copy_batch [OF Cons.prems(1) named] Cons.IH]) (use Cons.prems in simp_all)
qed (simp add: pays_okR)

lemma pays_copy_folder:
  assumes st: "steady uid E" and sound: "sound_plan p"
  shows "pays uid (pl_item_size p) (copy_folder E S uid t loc p cs)"
proof -
  have body: "pl_item_size p \<le> pl_item_size p \<and> holds uid (k - int (pl_item_size p)) (sdb s')"
    if run: "copy_folder_tx uid t loc p ex (transaction_client E) s = (Inr (Inr v), s')" and h: "holds uid k (sdb s)"
    for ex k s v s'
  proof -
    obtain fm xm a b where v: "v = (fm, xm, a, b)" by (cases v)
    note settled = copy_folder_tx_settles [OF run [unfolded v] in_tx_transaction_client h sound]
    then have "holds uid (k - int (a + b)) (sdb s')" and ab: "a + b = pl_item_size p" by blast+
    then show ?thesis by (simp only: ab order_refl simp_thms)
  qed
  show ?thesis
    unfolding copy_folder_def
    by (rule pays_read; (intro pays_case_option pays_if pays_give_back st)?)
       (auto intro!: keeps_intros keeps_copy_reads pays_Run [OF steadyD [OF st] body] pays_give_back pays_okR st)
qed

lemma pays_copy_folders:
  "steady uid E \<Longrightarrow> \<forall>p \<in> set plans. sound_plan p \<Longrightarrow>
   pays uid (sum_list (map pl_item_size plans)) (copy_folders E S uid t loc plans occ cs)"
proof (induction plans arbitrary: occ cs)
  case (Cons p plans)
  have sound: "sound_plan p" using Cons.prems(2) by simp
  note rec = Cons.IH [OF Cons.prems(1)]
  show ?case
    unfolding copy_folders.simps
    by (intro pays_if pays_then [OF pays_give_back [OF Cons.prems(1)] rec]
        pays_then [OF pays_copy_folder [OF Cons.prems(1) sound] rec]) (use Cons.prems in simp_all)
qed (simp add: pays_okR)

lemma pays_give_back_all:
  "steady uid E \<Longrightarrow> pays uid (sum_list (map pl_item_size plans)) (give_back_all E S uid plans cs)"
proof (induction plans arbitrary: cs)
  case (Cons p plans)
  show ?case
    unfolding give_back_all.simps by (rule pays_then [OF pays_give_back [OF Cons.prems] Cons.IH [OF Cons.prems]]) simp
qed (simp add: pays_okR)

text \<open>What is to be copied: files and plans that were in the tables.\<close>

lemma seen_holds: "steady uid E \<Longrightarrow> holds uid (int k) (sdb s) \<Longrightarrow> holds uid (int k) (seen E s)"
  using stableD [OF steadyD] by (auto simp: seen_def)

lemma holds_named:
  assumes "holds uid k d"
  shows "f \<in> set (files d) \<Longrightarrow> f_name f \<noteq> []" and "r \<in> set (folders d) \<Longrightarrow> d_name r \<noteq> []"
  using holds_parts(1,2) [OF assms] by (auto simp: files_inv_def folders_inv_def)

lemma keeps_fetch_copies: "steady uid E \<Longrightarrow> keeps (holds uid (int k)) (fetch_copies E u chunks)"
  by (induction chunks) (auto intro!: keeps_intros steadyD)

lemma fetch_copies_named:
  "fetch_copies E u chunks s = (Inr fs, s') \<Longrightarrow> steady uid E \<Longrightarrow> holds uid (int k) (sdb s) \<Longrightarrow> f \<in> set fs \<Longrightarrow> f_name f \<noteq> []"
proof (induction chunks arbitrary: s fs)
  case (Cons chunk chunks)
  let ?read = "catchDb (exec E (pureS (\<lambda>d. filter (\<lambda>f. f_id f \<in> set chunk \<and> f_user_id f = u) (files d)))) (retM [])"
  from Cons.prems(1) obtain rows s1 rest where read: "?read s = (Inr rows, s1)"
    and rest: "fetch_copies E u chunks s1 = (Inr rest, s')"
    and fs: "fs = List.map_filter (\<lambda>i. find_row (\<lambda>f. f_id f = i) rows) chunk @ rest"
    by (auto elim!: bindM_okE)
  have kr: "keeps (holds uid (int k)) ?read" by (intro keeps_intros steadyD Cons.prems)
  have h1: "holds uid (int k) (sdb s1)" by (rule keepsD' [where m = ?read, OF kr Cons.prems(3) read])
  have named: "\<forall>f \<in> set rows. f_name f \<noteq> []"
  proof (cases "rows = []")
    case False
    from catchDb_retM_okD [OF read this] have "rows = filter (\<lambda>f. f_id f \<in> set chunk \<and> f_user_id f = u) (files (seen E s))"
      by (auto dest: pure_ok)
    with holds_named(1) [OF seen_holds [OF Cons.prems(2,3)]] show ?thesis by simp
  qed simp
  show ?case
  proof (cases "f \<in> set rest")
    case True
    with Cons.IH [OF rest Cons.prems(2) h1] show ?thesis by blast
  next
    case False
    with Cons.prems(4) fs obtain i where "find_row (\<lambda>f. f_id f = i) rows = Some f" by (auto simp: map_filter_mem)
    with named show ?thesis by (auto dest: find_row_Some)
  qed
qed simp

definition sound_plans :: "plans \<Rightarrow> bool" where
  "sound_plans ps \<longleftrightarrow> (\<forall>(k, p) \<in> set ps. sound_plan p)"

lemma add_folder_sound: "d_name r \<noteq> [] \<Longrightarrow> sound_plans ps \<Longrightarrow> sound_plans (add_folder r root ps)"
  by (induction r root ps rule: add_folder.induct) (auto simp: sound_plans_def sound_plan_def)

lemma add_folders_sound: "\<forall>(r, k) \<in> set rows. d_name r \<noteq> [] \<Longrightarrow> sound_plans ps \<Longrightarrow> sound_plans (add_folders rows ps)"
  by (induction rows ps rule: add_folders.induct) (auto simp: add_folder_sound)

lemma add_file_sound: "f_name f \<noteq> [] \<Longrightarrow> sound_plan p \<Longrightarrow> sound_plan (add_file f p)"
  by (auto simp: sound_plan_def add_file_def)

lemma assign_file_sound:
  assumes "f_name f \<noteq> []" and "sound_plans ps"
  shows "sound_plans (assign_file roots f ps)"
proof -
  have "sound_plans (map (\<lambda>(k', p). (k', if k' = k then add_file f p else p)) ps)" for k
    using assms by (fastforce simp: sound_plans_def intro: add_file_sound)
  with assms(2) show ?thesis by (auto simp: assign_file_def split: option.split)
qed

lemma assign_files_sound:
  "\<forall>f \<in> set fs. f_name f \<noteq> [] \<Longrightarrow> sound_plans ps \<Longrightarrow> sound_plans (fold (assign_file roots) fs ps)"
  by (induction fs arbitrary: ps) (simp_all add: assign_file_sound)

lemma keeps_fetch_tree_held: "steady uid E \<Longrightarrow> keeps (holds uid (int k)) (exec E (fetch_tree_stmt ids u))"
  by (rule keeps_exec [OF steadyD]) (auto simp: fetch_tree_stmt_def split: option.splits)

lemma keeps_fetch_plans: "steady uid E \<Longrightarrow> keeps (holds uid (int k)) (FetchBatchFolderDeletePlans ord E ids u)"
  unfolding FetchBatchFolderDeletePlans_def Let_def by (intro keeps_intros keeps_fetch_tree_held keeps_copy_reads)

lemma fetched_plans_sound:
  assumes run: "FetchBatchFolderDeletePlans ord E ids u s = (Inr ps, s')" and st: "steady uid E" and h: "holds uid (int k) (sdb s)"
  shows "sound_plans ps"
proof (cases "ids = []")
  case True
  with run show ?thesis by (auto simp: FetchBatchFolderDeletePlans_def retM_def sound_plans_def)
next
  case False
  with run obtain rows s1 where rows: "exec E (fetch_tree_stmt ids u) s = (Inr rows, s1)"
    and rest: "(let plans = add_folders rows []; all_folder_ids = normalize_ids (map (\<lambda>(r, _). d_id r) rows) in
          if all_folder_ids = [] then retM plans
          else
            bindM (FetchFilesInFolders E all_folder_ids u) (\<lambda>found.
              retM (fold (assign_file (ord (ord (map fst plans)))) found plans))) s1 = (Inr ps, s')"
    by (auto simp: FetchBatchFolderDeletePlans_def elim!: bindM_okE)
  have h1: "holds uid (int k) (sdb s1)" by (rule keepsD' [OF keeps_fetch_tree_held [OF st] h rows])
  from rows have "folder_tree (folders (seen E s)) u ids = Some rows"
    by (auto simp: fetch_tree_stmt_def elim!: exec_okE split: option.splits)
  then have "\<forall>(r, k) \<in> set rows. d_name r \<noteq> []"
    using holds_named(2) [OF seen_holds [OF st h]] folder_tree_ok below_row by fast
  then have base: "sound_plans (add_folders rows [])" by (rule add_folders_sound) (simp add: sound_plans_def)
  show ?thesis
  proof (cases "normalize_ids (map (\<lambda>(r, _). d_id r) rows) = []")
    case True
    with rest base show ?thesis by (simp add: Let_def retM_def)
  next
    case False
    with rest obtain found s2 where found: "FetchFilesInFolders E (normalize_ids (map (\<lambda>(r, _). d_id r) rows)) u s1 = (Inr found, s2)"
      and ps: "ps = fold (assign_file (ord (ord (map fst (add_folders rows []))))) found (add_folders rows [])"
      by (auto simp: Let_def elim!: bindM_okE)
    from found have "\<forall>f \<in> set found. f_name f \<noteq> []"
      using holds_named(1) [OF seen_holds [OF st h1]]
      by (auto simp: FetchFilesInFolders_def retM_def dest!: pure_ok split: if_splits)
    from assign_files_sound [OF this base] ps show ?thesis by simp
  qed
qed

lemma concat_file_batches: "concat (batches DEFAULT_BATCH_CHUNK_SIZE xs) = xs"
  by (rule concat_batches) (simp add: DEFAULT_BATCH_CHUNK_SIZE_def)

text \<open>All of a copy pays nothing: what it reserves it spends.\<close>

lemma pays_Copy:
  assumes st: "steady uid E"
  shows "pays uid 0 (Copy E S request uid)"
proof -
  have finish: "pays uid (sum_list (map f_size fs) + sum_list (map pl_item_size tops))
      (bindR (copy_batches E S uid t loc (batches DEFAULT_BATCH_CHUNK_SIZE fs) no_copies) (\<lambda>cs.
        bindM (catchDb (bindM (QueryOccupiedFolderNames E t uid (map (\<lambda>p. d_name (pl_root p)) tops))
                          (\<lambda>names. retM (Some names))) (retM None)) (\<lambda>query.
        bindR (case query of None \<Rightarrow> give_back_all E S uid tops cs
               | Some occupied \<Rightarrow> copy_folders E S uid t loc tops occupied cs) (\<lambda>cs.
        bindM (if cs_copied_files cs + cs_copied_folders cs > 0 then invalidate_list E S uid else retM ()) (\<lambda>_. okR cs)))))"
    if fs: "\<forall>f \<in> set fs. f_name f \<noteq> []" and tops: "\<forall>p \<in> set tops. sound_plan p" for fs tops t loc
  proof (rule pays_then)
    show "pays uid (sum_list (map f_size fs)) (copy_batches E S uid t loc (batches DEFAULT_BATCH_CHUNK_SIZE fs) no_copies)"
      using pays_copy_batches [OF st, of "batches DEFAULT_BATCH_CHUNK_SIZE fs"] fs by (simp add: concat_file_batches)
    show "pays uid (sum_list (map pl_item_size tops))
      (bindM (catchDb (bindM (QueryOccupiedFolderNames E t uid (map (\<lambda>p. d_name (pl_root p)) tops))
                          (\<lambda>names. retM (Some names))) (retM None)) (\<lambda>query.
        bindR (case query of None \<Rightarrow> give_back_all E S uid tops cs
               | Some occupied \<Rightarrow> copy_folders E S uid t loc tops occupied cs) (\<lambda>cs.
        bindM (if cs_copied_files cs + cs_copied_folders cs > 0 then invalidate_list E S uid else retM ()) (\<lambda>_. okR cs))))" for cs
      by (rule pays_read, (intro keeps_intros keeps_copy_reads st | rule TrueI)+, rule pays_then [where c = 0])
         (auto intro!: pays_case_option pays_give_back_all pays_copy_folders st tops pays_read keeps_intros keeps_invalidate pays_okR)
  qed simp
  show ?thesis
    unfolding Copy_def Let_def
  proof (rule pays_bindR [of uid 0 _ 0, simplified], rule pays_keeps, rule keeps_copy_reads [OF st],
      rule pays_bindM [where Q = sound_plans])
    fix loc ps
    assume ps: "sound_plans ps"
    let ?tops = "List.map_filter (map_of ps) (FilterCoveredFolderIds (normalize_ids (mv_folder_ids request)) ps)"
    have tops: "\<forall>p \<in> set ?tops. sound_plan p"
      using ps by (fastforce simp: map_filter_mem sound_plans_def dest: map_of_SomeD)
    show "pays uid 0 (bindM (fetch_copies E uid (batches DEFAULT_BATCH_CHUNK_SIZE (filter (\<lambda>i. i \<notin> set (CollectCoveredFileIds
          (FilterCoveredFolderIds (normalize_ids (mv_folder_ids request)) ps) ps)) (normalize_ids (mv_file_ids request))))) (\<lambda>files_to_copy.
        bindR (if sum_list (map f_size files_to_copy) + sum_list (map pl_item_size ?tops) > 0
               then Run E (ErrorInfo1 InternalError) (\<lambda>T. ReserveStorage T uid (sum_list (map f_size files_to_copy) + sum_list (map pl_item_size ?tops)))
               else okR ()) (\<lambda>_.
        bindR (copy_batches E S uid (mv_target_folder_id request) loc (batches DEFAULT_BATCH_CHUNK_SIZE files_to_copy) no_copies) (\<lambda>cs.
        bindM (catchDb (bindM (QueryOccupiedFolderNames E (mv_target_folder_id request) uid (map (\<lambda>p. d_name (pl_root p)) ?tops))
                          (\<lambda>names. retM (Some names))) (retM None)) (\<lambda>query.
        bindR (case query of
                 None \<Rightarrow> give_back_all E S uid ?tops cs
               | Some occupied \<Rightarrow> copy_folders E S uid (mv_target_folder_id request) loc ?tops occupied cs) (\<lambda>cs.
        bindM (if cs_copied_files cs + cs_copied_folders cs > 0 then invalidate_list E S uid else retM ()) (\<lambda>_.
          okR cs)))))))"
    proof (rule pays_bindM [where Q = "\<lambda>fs. \<forall>f \<in> set fs. f_name f \<noteq> []"])
      show "keeps (holds uid (int k)) (fetch_copies E uid cs)" for k cs by (rule keeps_fetch_copies [OF st])
    qed (use fetch_copies_named [OF _ st] in blast, rule pays_reserve [OF steadyD [OF st]], rule finish [OF _ tops])
  qed (use keeps_fetch_plans [OF st] fetched_plans_sound [OF _ st] in blast)+
qed

end
