(* ===== verification/Copy_Sessions.thy ===== *)
theory Copy_Sessions
  imports Copy_Settlement Upload_System
begin

text \<open>
  Sessions beside which a copy settles: those that leave the table of users alone, whatever
  they do to jobs, findings, leases and chunks, and the changes of the drive.  They keep every
  hold, because they do not look at it.
\<close>

section \<open>Statements that do not look at the users\<close>

definition user_blind :: "('w, 'a) stmt \<Rightarrow> bool" where
  "user_blind q \<longleftrightarrow> (\<forall>d us. q (d\<lparr>users := us\<rparr>) = (fst (q d), (snd (q d))\<lparr>users := us\<rparr>) \<and> users (snd (q d)) = users d)"

lemma user_blindD: "user_blind q \<Longrightarrow> q d = (x, d') \<Longrightarrow> q (d\<lparr>users := us\<rparr>) = (x, d'\<lparr>users := us\<rparr>) \<and> users d' = users d"
  unfolding user_blind_def by (metis fst_conv snd_conv)

lemma blind_reads [simp]:
  "claim_guard (d\<lparr>users := us\<rparr>) = claim_guard d" "claim_candidates locked n (d\<lparr>users := us\<rparr>) = claim_candidates locked n d"
  by (simp_all add: claim_guard_def chunks_complete_def chunk_rows_def claim_candidates_def fun_eq_iff)

lemma user_blind_stmts:
  "user_blind (claim_stmt u i owner dur)" "user_blind (renew_stmt u i owner v dur)" "user_blind (error_stmt u i owner v code)"
  "user_blind (record_chunk_stmt u i ex)" "user_blind (enqueue_stmt job)" "user_blind (rearm_stmt job)"
  "user_blind exhaust_stmt" "user_blind (job_claim_stmt locked inst n dur)" "user_blind (job_renew_stmt i inst dur)"
  "user_blind (job_succeed_stmt i inst)" "user_blind (job_fail_stmt i inst err retryable delay)"
  by (auto simp: user_blind_def claim_stmt_def renew_stmt_def error_stmt_def record_chunk_stmt_def enqueue_stmt_def rearm_stmt_def
      exhaust_stmt_def job_claim_stmt_def job_renew_stmt_def job_succeed_stmt_def job_fail_stmt_def insert_job_def Let_def
      claim_guard_def chunks_complete_def chunk_rows_def fresh_job_def split: option.split prod.split)

section \<open>Bystanders\<close>

text \<open>
  A bystander's step leaves the users alone and keeps the invariant whatever their numbers:
  statements on leases, chunks and jobs, and the changes of the drive.
\<close>

definition aside :: "'w db \<Rightarrow> 'w db \<Rightarrow> bool" where
  "aside d d' \<longleftrightarrow>
     (\<forall>us. map u_id us = map u_id (users d) \<longrightarrow> db_inv (d\<lparr>users := us\<rparr>) \<longrightarrow>
        users d' = users d \<and> db_inv (d'\<lparr>users := us\<rparr>))"

lemma aside_refl [simp, intro]: "aside d d"
  by (simp add: aside_def)

lemma aside_trans: "aside d d' \<Longrightarrow> aside d' d'' \<Longrightarrow> aside d d''"
  unfolding aside_def by metis

lemma aside_statement:
  assumes "user_blind q" and "\<And>e e'. q e = (x, e') \<Longrightarrow> db_inv e \<Longrightarrow> db_inv e'" and "q d = (x, d')"
  shows "aside d d'"
  using user_blindD [OF assms(1,3)] assms(2) by (auto simp: aside_def)

lemma aside_statements:
  "claim_stmt u i owner dur d = (vs, d') \<Longrightarrow> aside d d'"
  "renew_stmt u i owner v dur d = (vs, d') \<Longrightarrow> aside d d'"
  "error_stmt u i owner v code d = (be, d') \<Longrightarrow> aside d d'"
  "record_chunk_stmt u i ex d = (Inr bc, d') \<Longrightarrow> c_task_id ex = u \<Longrightarrow> aside d d'"
  "enqueue_stmt job d = (Inr bq, d') \<Longrightarrow> 0 < nj_max_attempts job \<Longrightarrow> aside d d'"
  "rearm_stmt job d = (Inr br, d') \<Longrightarrow> 0 < nj_max_attempts job \<Longrightarrow> aside d d'"
  "job_claim_stmt locked inst n dur d = (js, d') \<Longrightarrow> aside d d'"
  "job_renew_stmt j inst dur d = (bn, d') \<Longrightarrow> aside d d'"
  "job_succeed_stmt j inst d = (bs, d') \<Longrightarrow> aside d d'"
  "job_fail_stmt j inst err retryable delay d = (is, d') \<Longrightarrow> aside d d'"
  by - (erule aside_statement [rotated 2], rule user_blind_stmts, (erule (2) action_invs | erule (1) action_invs))+

lemma aside_holds:
  assumes "aside d d'" and "holds uid k d"
  shows "holds uid k d'"
proof -
  have "map u_id (without_hold uid k (users d)) = map u_id (users d)" by simp
  with assms show ?thesis unfolding aside_def holds_def by metis
qed

text \<open>A change of the drive relocates files and folders, whoever the users are.\<close>

lemma parts_relocate: "db_inv (d\<lparr>users := us\<rparr>) \<Longrightarrow> relocates d d"
  by (auto simp: relocates_def db_inv_def intro!: exI [of _ "files d"] exI [of _ "folders d"] exI [of _ "seq_folders d"])

lemma drive_relocates_held: "drive_commits s s' \<Longrightarrow> relocates (sdb s) (sdb s) \<Longrightarrow> relocates (sdb s) (sdb s')"
  by (induction rule: drive_commits.induct)
     (blast intro: keepsD' [OF keeps_create_folder_tx] keepsD' [OF keeps_rename_folder_tx] keepsD' [OF keeps_rename_file_tx]
        keepsD' [OF keeps_move_items_tx])+

lemma aside_drive:
  assumes "drive_commits s s'"
  shows "aside (sdb s) (sdb s')"
  unfolding aside_def
proof (intro allI impI)
  fix us
  assume inv: "db_inv (sdb s\<lparr>users := us\<rparr>)"
  from drive_relocates_held [OF assms parts_relocate [OF this]]
  obtain fs ds n where d': "sdb s' = sdb s\<lparr>files := fs, folders := ds, seq_folders := n\<rparr>"
    and ok: "map file_ident fs = map file_ident (files (sdb s))" "files_inv fs (seq_files (sdb s))" "folders_inv ds n" "seq_folders (sdb s) \<le> n"
    by (rule relocatesE)
  have "relocates (sdb s\<lparr>users := us\<rparr>) (sdb s'\<lparr>users := us\<rparr>)"
    by (rule relocatesI [where fs = fs and ds = ds and n = n]) (use d' ok in simp_all)
  with relocates_inv [OF inv] d' show "users (sdb s') = users (sdb s) \<and> db_inv (sdb s'\<lparr>users := us\<rparr>)" by simp
qed

definition bystanders :: "'w client \<Rightarrow> bool" where
  "bystanders E \<longleftrightarrow> (\<forall>n d. aside d (other E n d))"

lemma steady_bystanders: "bystanders E \<Longrightarrow> steady uid E"
  by (auto simp: steady_def stable_def bystanders_def intro: aside_holds)

text \<open>Another session that renames a folder at some await point, in a transaction of its own.\<close>

lemma aside_Run_rename:
  assumes "nm \<noteq> []" and "\<And>n d. other E n d = d"
  shows "aside (sdb s) (sdb (snd (Run E err (rename_folder_tx i nm uid) s)))"
proof -
  obtain r s' where run: "Run E err (rename_folder_tx i nm uid) s = (Inr r, s')" using Run_never_throws by blast
  show ?thesis
  proof (cases r)
    case (Inl e)
    with Run_error_rolls_back [of E err "rename_folder_tx i nm uid" s e s'] run assms(2) show ?thesis by simp
  next
    case (Inr v)
    with run obtain s0 s1 where "sdb s0 = sdb s" and tx: "rename_folder_tx i nm uid (transaction_client E) s0 = (Inr (Inr v), s1)"
      and "sdb s' = sdb s1"
      using Run_okE [of E err "rename_folder_tx i nm uid" s v s'] assms(2) by metis
    with aside_drive [OF rename_folder [OF tx in_tx_transaction_client assms(1)]] run show ?thesis by simp
  qed
qed

end
