(* ===== verification/Copy_Forest.thy ===== *)
theory Copy_Forest
  imports Copy_Settlement Folder_Forest
begin

text \<open>
  Copying keeps the forest: the root of a copied tree hangs below a target that is there, and
  every other copied folder below a copy made before it.
\<close>

lemma forest_inserted:
  assumes "exec T (insert_folder_stmt r) s = (Inr q, s')" and "in_tx T" and "forest (sdb s)" and "d_parent_id r \<le> seq_folders (sdb s)"
  shows "forest (sdb s')" and "d_id q = seq_folders (sdb s')" and "seq_folders (sdb s) \<le> seq_folders (sdb s')"
  using insert_folder_ok [OF assms(1,2)] forest_insert [OF assms(3), of q] assms(4) by simp_all

lemma tracked_mono: "tracked m d \<Longrightarrow> seq_folders d \<le> seq_folders d' \<Longrightarrow> tracked m d'"
  by (fastforce simp: tracked_def)

lemma tracked_lookup: "tracked m d \<Longrightarrow> map_of m k = Some (i, p) \<Longrightarrow> i \<le> seq_folders d"
  by (auto simp: tracked_def dest!: map_of_SomeD)

lemma copy_subfolders_forest:
  "copy_subfolders T uid root k rs copied maps s = (Inr v, s') \<Longrightarrow> in_tx T \<Longrightarrow> forest (sdb s) \<Longrightarrow> tracked copied (sdb s) \<Longrightarrow>
   forest (sdb s')"
proof (induction rs arbitrary: copied maps s)
  case (Cons r rs)
  show ?case
  proof (cases "d_id r = d_id root")
    case True
    with Cons show ?thesis by simp
  next
    case False
    with Cons.prems(1) obtain pid ppath x q s1 maps' path where parent: "map_of copied (d_parent_id r) = Some (pid, ppath)"
      and ins: "exec T (insert_folder_stmt x) s = (Inr q, s1)" and x: "d_parent_id x = pid"
      and rest: "copy_subfolders T uid root k rs ((d_id r, d_id q, path) # copied) maps' s1 = (Inr v, s')"
      by (fastforce simp: Let_def elim!: bindM_okE split: option.splits)
    have "d_parent_id x \<le> seq_folders (sdb s)"
      using tracked_lookup [OF Cons.prems(4) parent] x by simp
    note step = forest_inserted [OF ins Cons.prems(2,3) this]
    have "tracked ((d_id r, d_id q, path) # copied) (sdb s1)"
      using tracked_mono [OF Cons.prems(4) step(3)] step(2) by (simp add: tracked_def)
    from Cons.IH [OF rest Cons.prems(2) step(1) this] show ?thesis .
  qed
qed simp

text \<open>Rows of files and the counts of their folders do not matter.\<close>

lemma keeps_places_insert_file: "in_tx T \<Longrightarrow> keeps (same_places P n) (exec T (insert_file_stmt f))"
  by (rule keeps_tx_exec) (auto simp: insert_file_stmt_def same_places_def Let_def split: if_splits)

lemma insert_files_places: "insert_files_stmt fs d = (Inr ids, d') \<Longrightarrow> folders d' = folders d \<and> seq_folders d' = seq_folders d"
  by (induction fs arbitrary: d ids) (fastforce simp: insert_file_stmt_def Let_def split: prod.splits sum.splits if_splits)+

lemma keeps_places_tree_files: "in_tx T \<Longrightarrow> keeps (same_places P n) (copy_tree_files T uid copied fs maps)"
  by (induction fs arbitrary: maps) (auto intro!: keeps_intros keeps_places_insert_file split: option.split)

lemma keeps_places_count_target: "in_tx T \<Longrightarrow> keeps (same_places P n) (count_target T uid t k)"
  unfolding count_target_def by (intro keeps_intros keeps_same_places)

lemma keeps_places_update_user: "in_tx T \<Longrightarrow> keeps (same_places P n) (exec T (update_user uid es g u))"
  by (rule keeps_tx_exec) (auto simp: update_user_def same_places_def split: if_splits)

lemma keeps_places_users:
  assumes "in_tx T"
  shows "keeps (same_places P n) (CommitReservedToUsed T uid b)" "keeps (same_places P n) (ReleaseReservedStorageChecked T uid b)"
    "keeps (same_places P n) (ReserveStorage T uid b)"
  unfolding CommitReservedToUsed_def ReleaseReservedStorageChecked_def ReserveStorage_def
  by (intro keeps_intros keeps_places_update_user assms)+

lemma keeps_check_gates: "in_tx T \<Longrightarrow> keeps P (check_gates T cs)"
proof -
  assume tx: "in_tx T"
  have "keeps P (CheckReferenceGate T c)" for c
    unfolding CheckReferenceGate_def CheckBlobGcReferenceGate_def
    by (intro keeps_tx_read [OF tx] keeps_bindM keeps_catchM keeps_if keeps_case_option keeps_retM keeps_throwM keeps_okR keeps_failR)
  then show ?thesis by (induction cs) (auto intro: keeps_okR keeps_bindR)
qed

lemma keeps_places_count_refs: "in_tx T \<Longrightarrow> keeps (same_places P n) (exec T (count_refs p x u))"
  by (rule keeps_tx_exec) (auto simp: count_refs_def same_places_def split: if_splits)

lemma keeps_places_increments: "in_tx T \<Longrightarrow> keeps (same_places P n) (IncrementRefCountsChecked T incs existing)"
  unfolding IncrementRefCountsChecked_def Let_def
  by (intro keeps_intros keeps_tx_exec keeps_check_gates keeps_places_count_refs) (auto simp: pureS_def)

lemma keeps_places_copied_files: "in_tx T \<Longrightarrow> keeps (same_places P n) (InsertCopiedFiles T uid t items)"
  unfolding InsertCopiedFiles_def
  by (intro keeps_intros keeps_drive_reads keeps_tx_exec) (auto simp: same_places_def dest: insert_files_places)

lemma keeps_places_copy_batch: "in_tx T \<Longrightarrow> keeps (same_places P n) (copy_batch_tx uid t loc xs existing T)"
  unfolding copy_batch_tx_def Let_def
  by (intro keeps_intros keeps_lock_names keeps_drive_reads keeps_lock_target keeps_places_increments keeps_places_copied_files
      keeps_places_count_target keeps_places_users) (auto intro!: keeps_intros keeps_lock_names keeps_drive_reads keeps_lock_target
      keeps_places_increments keeps_places_copied_files keeps_places_count_target keeps_places_users split: prod.split)

section \<open>Folder trees\<close>

lemma lock_target_there:
  assumes "lock_target T uid t loc s = (Inr (Inr loc'), s')" and "in_tx T" and "forest (sdb s)"
  shows "sdb s' = sdb s \<and> t \<le> seq_folders (sdb s)"
proof -
  have "sdb s' = sdb s" using assms(1) keeps_lock_target [OF assms(2)] reads_same by blast
  moreover have "t = 0 \<or> (\<exists>r \<in> set (folders (sdb s)). d_id r = t)"
    using assms(1,2) by (force simp: lock_target_def FindOwnedFolderForUpdate_def owned_folder_def
        elim!: bindM_okE dest!: pure_ok find_row_Some split: if_splits option.splits)
  ultimately show ?thesis using forest_ids [OF assms(3)] by auto
qed

lemma copy_tree_forest:
  assumes run: "copy_tree T uid t loc p s = (Inr (Inr v), s')" and tx: "in_tx T" and "forest (sdb s)" and "t \<le> seq_folders (sdb s)"
  shows "forest (sdb s')"
proof -
  let ?path = "BuildFolderPath (loc_path loc) (d_name (pl_root p))"
  let ?x = "\<lparr>d_id = 0, d_user_id = uid, d_parent_id = t, d_name = d_name (pl_root p), d_path = ?path,
         d_depth = loc_depth loc + 1, d_item_count = d_item_count (pl_root p)\<rparr>"
  let ?rest = "\<lambda>(copied, folder_mappings). bindM (copy_tree_files T uid copied (pl_files p) []) (\<lambda>file_mappings.
      bindR (count_target T uid t 1) (\<lambda>_. bindR (CommitReservedToUsed T uid (pl_item_size p)) (\<lambda>_.
        okR (folder_mappings, file_mappings, sum_list (map f_size (pl_files p)), 0))))"
  from run obtain q s1 where root: "exec T (insert_folder_stmt ?x) s = (Inr q, s1)"
    and t1: "bindM (copy_subfolders T uid (pl_root p) (loc_depth loc + 1) (pl_folders p)
        [(d_id (pl_root p), d_id q, ?path)] [(d_id (pl_root p), d_id q)]) ?rest s1 = (Inr (Inr v), s')"
    unfolding copy_tree_def Let_def by (rule bindM_okE)
  from t1 obtain cf s2 where sub: "copy_subfolders T uid (pl_root p) (loc_depth loc + 1) (pl_folders p)
        [(d_id (pl_root p), d_id q, ?path)] [(d_id (pl_root p), d_id q)] s1 = (Inr cf, s2)"
    and t2: "?rest cf s2 = (Inr (Inr v), s')" by (rule bindM_okE)
  have "d_parent_id ?x \<le> seq_folders (sdb s)" using assms(4) by simp
  note step = forest_inserted [OF root tx assms(3) this]
  have "forest (sdb s2)"
    by (rule copy_subfolders_forest [OF sub tx step(1)]) (simp add: tracked_def step(2))
  moreover have "keeps (same_places P n) (?rest cf)" for P n
    by (cases cf) (auto intro!: keeps_intros keeps_places_tree_files keeps_places_count_target keeps_places_users tx)
  ultimately show ?thesis using forest_keeps [where m = "?rest cf", OF _ t2] by blast
qed

lemma copy_folder_tx_forest:
  assumes run: "copy_folder_tx uid t loc p existing T s = (Inr (Inr v), s')" and tx: "in_tx T" and "forest (sdb s)"
  shows "forest (sdb s')"
proof -
  from run obtain v0 s0 loc1 s1 occ s2 where
    s0: "Folder_AcquireNameLock T uid t (d_name (pl_root p)) s = (Inr v0, s0)"
    and s1: "lock_target T uid t loc s0 = (Inr (Inr loc1), s1)"
    and s2: "QueryOccupiedFolderNames T t uid [d_name (pl_root p)] s1 = (Inr occ, s2)"
    and rest: "(if d_name (pl_root p) \<in> set occ
        then bindR (ReleaseReservedStorageChecked T uid (pl_item_size p)) (\<lambda>_. okR ([], [], 0, pl_item_size p))
        else
          bindR (IncrementRefCountsChecked T (ref_increments (pl_files p)) existing) (\<lambda>incremented.
          if list_ex (\<lambda>f. f_content_id f \<notin> set incremented) (pl_files p) then failR refs_failed
          else copy_tree T uid t loc1 p)) s2 = (Inr (Inr v), s')"
    unfolding copy_folder_tx_def Let_def by (elim bindM_okE bindR_okE) blast
  have d0: "sdb s0 = sdb s" by (rule reads_same [OF keeps_drive_reads(3) [OF tx] s0])
  have d1: "sdb s1 = sdb s0" and t: "t \<le> seq_folders (sdb s0)"
    using lock_target_there [OF s1 tx] assms(3) d0 by simp_all
  have d2: "sdb s2 = sdb s1" by (rule reads_same [OF keeps_drive_reads(12) [OF tx] s2])
  show ?thesis
  proof (cases "d_name (pl_root p) \<in> set occ")
    case True
    with rest obtain u where rel: "ReleaseReservedStorageChecked T uid (pl_item_size p) s2 = (Inr (Inr u), s')"
      by (auto elim!: bindR_okE)
    show ?thesis
      by (rule forest_keeps [OF keeps_places_users(2) [OF tx] rel]) (use d0 d1 d2 assms(3) in simp)
  next
    case False
    with rest obtain ids s3 where inc: "IncrementRefCountsChecked T (ref_increments (pl_files p)) existing s2 = (Inr (Inr ids), s3)"
      and tree: "copy_tree T uid t loc1 p s3 = (Inr (Inr v), s')"
      by (auto elim!: bindR_okE split: if_splits)
    have "same_places (place ` set (folders (sdb s))) (seq_folders (sdb s)) (sdb s3)"
      by (rule keepsD' [OF keeps_places_increments [OF tx] _ inc]) (simp add: same_places_def d0 d1 d2)
    then have "forest (sdb s3)" "t \<le> seq_folders (sdb s3)"
      using assms(3) t d0 by (simp_all add: forest_def same_places_def)
    with copy_tree_forest [OF tree tx] show ?thesis by blast
  qed
qed

section \<open>The handler\<close>

lemma keeps_forest_give_back:
  assumes "stable forest E"
  shows "keeps forest (give_back E S uid b cs)"
proof -
  have "keeps forest (Run E err (\<lambda>T. ReleaseReservedStorageChecked T uid b))" for err
    by (rule keeps_Run [OF assms]) (blast intro: forest_keeps [OF keeps_places_users(2) [OF in_tx_transaction_client]])
  then show ?thesis
    unfolding give_back_def release_copy_reservation_def return_release_error_def invalidate_list_def
    by (auto intro!: keeps_intros assms simp: forest_def)
qed

lemma keeps_forest_copies:
  assumes st: "stable forest E"
  shows "keeps forest (copy_batch E S uid t loc chunk cs)" "keeps forest (copy_folder E S uid t loc p cs)"
proof -
  have "keeps forest (Run E err (copy_batch_tx uid t loc xs existing))" for err xs existing
    by (rule keeps_Run [OF st]) (blast intro: forest_keeps [OF keeps_places_copy_batch [OF in_tx_transaction_client]])
  then show "keeps forest (copy_batch E S uid t loc chunk cs)"
    unfolding copy_batch_def Let_def QueryOccupiedNames_def FindExistingIds_def
    by (auto intro!: keeps_intros keeps_forest_give_back st split: prod.split)
  have "keeps forest (Run E err (copy_folder_tx uid t loc p existing))" for err existing
    by (rule keeps_Run [OF st]) (rule copy_folder_tx_forest [OF _ in_tx_transaction_client])
  then show "keeps forest (copy_folder E S uid t loc p cs)"
    unfolding copy_folder_def FindExistingIds_def
    by (auto intro!: keeps_intros keeps_forest_give_back st split: prod.split)
qed

lemma keeps_forest_loops:
  assumes st: "stable forest E"
  shows "keeps forest (copy_batches E S uid t loc chunks cs)" "keeps forest (copy_folders E S uid t loc ps occ cs)"
    "keeps forest (give_back_all E S uid ps cs)" "keeps forest (fetch_copies E uid cks)"
proof -
  show "keeps forest (copy_batches E S uid t loc chunks cs)"
    by (induction chunks arbitrary: cs) (auto intro!: keeps_intros keeps_forest_copies st)
  show "keeps forest (copy_folders E S uid t loc ps occ cs)"
    by (induction ps arbitrary: occ cs) (auto intro!: keeps_intros keeps_forest_copies keeps_forest_give_back st)
  show "keeps forest (give_back_all E S uid ps cs)"
    by (induction ps arbitrary: cs) (auto intro!: keeps_intros keeps_forest_give_back st)
  show "keeps forest (fetch_copies E uid cks)"
    by (induction cks) (auto intro!: keeps_intros st)
qed

lemma keeps_forest_Copy:
  assumes st: "stable forest E"
  shows "keeps forest (Copy E S request uid)"
proof -
  have "keeps forest (Run E err (\<lambda>T. ReserveStorage T uid b))" for err b
    by (rule keeps_Run [OF st]) (blast intro: forest_keeps [OF keeps_places_users(3) [OF in_tx_transaction_client]])
  moreover have "keeps forest (FetchBatchFolderDeletePlans ord E ids uid)" for ord ids
    unfolding FetchBatchFolderDeletePlans_def FetchFilesInFolders_def Let_def
    by (auto intro!: keeps_intros st keeps_exec [OF st] simp: fetch_tree_stmt_def split: option.splits)
  ultimately show ?thesis
    unfolding Copy_def Let_def ResolveOwnedFolderLocation_def QueryOccupiedFolderNames_def invalidate_list_def
    by (auto intro!: keeps_intros keeps_forest_loops st simp: forest_def split: option.split)
qed

end
