(* ===== verification/Drive_Properties.thy ===== *)
theory Drive_Properties
  imports Move_Paths Trash_Properties Copy_Sessions Copy_Forest
begin

text \<open>
  The properties of folders: they stay a forest, so that the recursive queries end; the folder
  tree and the breadcrumb show what is there; renaming and moving keep the paths consistent,
  a folder is never moved below itself, and a copy spends what it reserves.  Observations show
  where the code falls short.
\<close>

section \<open>The forest\<close>



lemma tree_db_forest: "forest tree_db"
proof -
  have "edges (place ` set (folders tree_db)) = {(2, 1)}"
    by (auto simp: edges_def place_def tree_db_def empty_db_def sample_plan_def sample_folder_def)
  moreover have "acyclic ({} :: (nat \<times> nat) set)" by (simp add: acyclic_def)
  then have "acyclic {(2::nat, 1::nat)}" by (simp add: acyclic_insert)
  ultimately show ?thesis
    by (auto simp: forest_def is_forest_def place_def tree_db_def empty_db_def sample_plan_def sample_folder_def)
qed


text \<open>
  C29: On a forest none of the recursions over folders runs on: the query of a subtree and the
  one of the ancestors end within as many levels as there are folders, and the recursion that
  hangs the fetched rows below their parents within as many calls as there are rows, whatever
  order the database returns the rows in.
\<close>

theorem folder_recursions_end:
  assumes "forest (seen E s)" and "permutes ord" and "FetchFolderTreeRows E ord uid pid n s = (Inr nodes, s')"
  shows "BuildTreeFromFlatList nodes pid \<noteq> None \<and> folder_tree (folders (seen E s)) uid ids \<noteq> None \<and>
    ancestors (length (folders (seen E s))) (folders (seen E s)) uid i \<noteq> None"
  using folder_tree_ends [OF assms(1)] ancestors_ends [OF assms(1)]
    BuildTree_ends [OF FetchFolderTreeRows_acyclic [OF assms(3,2,1)]] by blast

definition tree_nodes :: "FolderNodeData list" where
  "tree_nodes = [\<lparr>nd_id = 2, nd_name = ''old'', nd_parent_id = 1\<rparr>, \<lparr>nd_id = 1, nd_name = ''docs'', nd_parent_id = 0\<rparr>]"

lemma tree_nodes_run: "fst (FetchFolderTreeRows quiet rev 1 0 100 (start tree_db)) = Inr tree_nodes"
  by code_simp

lemma seen_quiet [simp]: "seen quiet (start d) = d"
  by (simp add: seen_def quiet_def start_def)

theorem folder_recursions_end_witness:
  "BuildTreeFromFlatList tree_nodes 0 \<noteq> None \<and> folder_tree (folders tree_db) 1 [1] \<noteq> None"
proof -
  obtain s' where run: "FetchFolderTreeRows quiet rev 1 0 100 (start tree_db) = (Inr tree_nodes, s')"
    using tree_nodes_run by (metis prod.collapse)
  show ?thesis
    using folder_recursions_end [OF _ _ run, of "[1]" 2] tree_db_forest by (simp only: seen_quiet) (simp add: permutes_def)
qed

section \<open>Reading folders\<close>

text \<open>
  C30: The folder tree a user gets is that of a state the shared tables were in while the
  request ran: below the requested folder hang exactly the folders of the user that lie there
  at most the requested number of levels deep, each with its identifier and name and below its
  own parent.  A depth of -1 stands for a hundred levels.
\<close>

theorem folder_tree_shows_folders:
  assumes "cluster E" and "db_inv (sdb s)" and "forest (sdb s)" and "permutes ord"
    and "GetFolderTree E ord uid pid depth s = (Inr (Inr t), s')"
  shows "\<exists>d node. commits\<^sup>*\<^sup>* (sdb s) d \<and> t = Some node \<and> tn_id node = pid \<and>
    shown pid (tn_children node) = {(d_id r, d_name r, d_parent_id r) | r k.
      k \<le> (if depth = -1 then 100 else nat depth) \<and> at_level (folders d) uid pid k r}"
proof -
  let ?n = "if depth = -1 then 100 else nat depth"
  from assms(5) obtain s1 nodes s2 u where
    own: "(if pid > 0 then ValidateParentOwnership E pid uid else okR ()) s = (Inr (Inr u), s1)"
    and rows: "FetchFolderTreeRows E ord uid pid ?n s1 = (Inr nodes, s2)"
    and t: "t = (if nodes = [] then Some (FolderTreeNode pid (if pid = 0 then root_label else '''') []) else BuildTreeFromFlatList nodes pid)"
    unfolding GetFolderTree_def Let_def
    by (auto elim!: bindR_okE bindM_okE dest!: catchDb_okD split: if_splits)
  let ?P = "\<lambda>d. forest d \<and> commits\<^sup>*\<^sup>* (sdb s) d"
  have P: "closed ?P" by (rule closed_conj [OF closed_forest closed_reach])
  have inv: "inv_and ?P (sdb s)" using assms(2,3) by (simp add: inv_and_def)
  have "inv_and ?P (sdb s1)"
    by (rule keepsD' [where m = "if pid > 0 then ValidateParentOwnership E pid uid else okR ()" and P = "inv_and ?P", OF _ inv own])
       (unfold ValidateParentOwnership_def FindOwnedFolder_def, intro keeps_intros stable_inv_and [OF assms(1) P])
  then have d: "forest (seen E s1)" "commits\<^sup>*\<^sup>* (sdb s) (seen E s1)"
    using stable_inv_and [OF assms(1) P] by (auto simp: seen_def stable_def inv_and_def)
  note fetched = FetchFolderTreeRows_ok [OF rows assms(4)]
  show ?thesis
  proof (cases "nodes = []")
    case True
    with fetched d(2) t show ?thesis
      by (intro exI [of _ "seen E s1"] exI [of _ "FolderTreeNode pid (if pid = 0 then root_label else '''') []"] conjI)
        (auto simp: shown_def)
  next
    case False
    from BuildTree_ends [OF FetchFolderTreeRows_acyclic [OF rows assms(4) d(1)]] t False
    obtain ts where ts: "build_children (length nodes) nodes pid = Some ts"
      "t = Some (FolderTreeNode pid (if pid = 0 then root_label else '''') ts)"
      by (auto simp: BuildTreeFromFlatList_def)
    have "{n \<in> set nodes. nd_parent_id n = pid \<or> nd_parent_id n \<in> descendants nodes pid} = set nodes"
      using fetched_descend [OF fetched] by blast
    then have "shown pid ts = node_row ` set nodes" using build_children_shows [OF ts(1)] by simp
    also have "\<dots> = {node_row \<lparr>nd_id = d_id r, nd_name = d_name r, nd_parent_id = d_parent_id r\<rparr> | r k.
        k \<le> ?n \<and> at_level (folders (seen E s1)) uid pid k r}"
      unfolding fetched by blast
    finally have "shown pid ts = {(d_id r, d_name r, d_parent_id r) | r k. k \<le> ?n \<and> at_level (folders (seen E s1)) uid pid k r}"
      by (simp add: node_row_def)
    with d(2) ts(2) show ?thesis
      by (intro exI [of _ "seen E s1"] exI [of _ "FolderTreeNode pid (if pid = 0 then root_label else '''') ts"] conjI) simp_all
  qed
qed

definition tree_shown :: FolderTreeNode where
  "tree_shown = FolderTreeNode 0 root_label [FolderTreeNode 1 ''docs'' [FolderTreeNode 2 ''old'' []]]"

lemma tree_shown_run: "fst (GetFolderTree quiet (\<lambda>rs. rs) 1 0 (-1) (start tree_db)) = Inr (Inr (Some tree_shown))"
  by code_simp

theorem folder_tree_shows_folders_witness:
  "\<exists>d. commits\<^sup>*\<^sup>* tree_db d \<and> shown 0 (tn_children tree_shown) = {(1, ''docs'', 0), (2, ''old'', 1)} \<and>
     {(1, ''docs'', 0), (2, ''old'', 1)} = {(d_id r, d_name r, d_parent_id r) | r k. k \<le> 100 \<and> at_level (folders d) 1 0 k r}"
proof -
  obtain s' where run: "GetFolderTree quiet (\<lambda>rs. rs) 1 0 (-1) (start tree_db) = (Inr (Inr (Some tree_shown)), s')"
    using tree_shown_run by (metis prod.collapse)
  have "shown 0 (tn_children tree_shown) = {(1, ''docs'', 0), (2, ''old'', 1)}"
    by (simp add: shown_def tree_shown_def)
  moreover have "db_inv (sdb (start tree_db))" "forest (sdb (start tree_db))" "permutes (\<lambda>rs :: folder_row list. rs)"
    by (simp_all add: start_def tree_db_inv tree_db_forest permutes_def)
  from folder_tree_shows_folders [OF cluster_quiet this run]
  obtain d node where d: "commits\<^sup>*\<^sup>* (sdb (start tree_db)) d" and node: "Some tree_shown = Some node"
    and rows: "shown 0 (tn_children node) = {(d_id r, d_name r, d_parent_id r) | r k.
      k \<le> (if - 1 = (- 1 :: int) then 100 else nat (- 1)) \<and> at_level (folders d) 1 0 k r}"
    by (elim exE conjE)
  have "sdb (start tree_db) = tree_db" by (simp add: start_def)
  ultimately show ?thesis using d rows node by (simp only: option.inject if_True refl) blast
qed

section \<open>The way to a folder\<close>

text \<open>
  The trail to a folder: its identifier and name, preceded by the trail to its parent.
\<close>

inductive trail :: "folder_row list \<Rightarrow> nat \<Rightarrow> nat \<Rightarrow> (nat \<times> string) list \<Rightarrow> bool" for ds uid where
  outside: "\<forall>r \<in> set ds. \<not> owned_folder i uid r \<Longrightarrow> trail ds uid i []"
| inside: "r \<in> set ds \<Longrightarrow> owned_folder i uid r \<Longrightarrow> trail ds uid (d_parent_id r) p \<Longrightarrow> trail ds uid i (p @ [(i, d_name r)])"

lemma ancestors_trail:
  "ancestors n ds uid i = Some rows \<Longrightarrow> trail ds uid i (rev (map (\<lambda>r. (d_id r, d_name r)) rows))"
proof (induction n arbitrary: i rows)
  case 0
  then show ?case by (auto simp: find_row_None intro: trail.outside split: if_splits)
next
  case (Suc n)
  show ?case
  proof (cases "find_row (owned_folder i uid) ds")
    case None
    with Suc.prems show ?thesis by (auto simp: find_row_None intro: trail.outside)
  next
    case (Some r)
    with Suc.prems obtain rest where rest: "ancestors n ds uid (d_parent_id r) = Some rest" "rows = r # rest" by auto
    from find_row_Some [OF Some] have r: "r \<in> set ds" "owned_folder i uid r" by simp_all
    then have "d_id r = i" by (simp add: owned_folder_def)
    with trail.inside [OF r Suc.IH [OF rest(1)]] rest(2) show ?thesis by simp
  qed
qed

lemma ancestors_distinct:
  assumes "acyclic (edges (place ` set ds))"
  shows "ancestors n ds uid i = Some rows \<Longrightarrow> distinct (map d_id rows) \<and> (\<forall>r \<in> set rows. rank ds (d_id r) \<le> rank ds i)"
proof (induction n arbitrary: i rows)
  case (Suc n)
  show ?case
  proof (cases "find_row (owned_folder i uid) ds")
    case (Some r)
    with Suc.prems obtain rest where rest: "ancestors n ds uid (d_parent_id r) = Some rest" "rows = r # rest" by auto
    from find_row_Some [OF Some] have r: "r \<in> set ds" "d_id r = i" "d_user_id r = uid" by (simp_all add: owned_folder_def)
    show ?thesis
    proof (cases "rest = []")
      case False
      then obtain q where q: "find_row (owned_folder (d_parent_id r) uid) ds = Some q"
        using rest(1) by (cases n) (auto split: option.splits if_splits)
      then have "q \<in> set ds" "d_parent_id r = d_id q" "d_user_id r = d_user_id q"
        using r by (auto simp: owned_folder_def dest!: find_row_Some)
      from rank_parent [OF assms edgeI [OF r(1) this]] have "rank ds (d_parent_id r) < rank ds i"
        using r \<open>d_parent_id r = d_id q\<close> by simp
      with Suc.IH [OF rest(1)] rest(2) r show ?thesis by fastforce
    qed (use rest r in simp)
  qed (use Suc.prems in simp)
qed (simp split: if_splits)

text \<open>
  C31: The breadcrumb of a folder starts at the root, goes down from parent to child without
  visiting a folder twice and ends at the folder, in a state the tables were in while the
  request ran; for the root it is the root alone.  That holds at any depth: the limit of 50
  levels that the header documents is not in the code (\<open>breadcrumb_has_no_limit\<close>).
\<close>

theorem breadcrumb_leads_to_folder:
  assumes "cluster E" and "db_inv (sdb s)" and "forest (sdb s)" and "GetBreadcrumb E i uid s = (Inr (Inr path), s')"
  shows "\<exists>d p. commits\<^sup>*\<^sup>* (sdb s) d \<and> path = (0, root_label) # p \<and> distinct (map fst p) \<and>
    (if i = 0 then p = [] else p \<noteq> [] \<and> trail (folders d) uid i p)"
proof (cases "i = 0")
  case True
  with assms(4) show ?thesis by (auto simp: GetBreadcrumb_def)
next
  case False
  with assms(4) obtain rows s1 where rows: "FetchBreadcrumbRows E i uid s = (Inr rows, s1)" "rows \<noteq> []"
    and path: "path = rev (rows @ [(0, root_label)])"
    unfolding GetBreadcrumb_def by (auto elim!: bindM_okE dest!: catchDb_okD split: if_splits)
  let ?d = "seen E s" and ?P = "\<lambda>d. forest d \<and> commits\<^sup>*\<^sup>* (sdb s) d"
  have P: "closed ?P" by (rule closed_conj [OF closed_forest closed_reach])
  have "inv_and ?P (sdb s)" using assms(2,3) by (simp add: inv_and_def)
  then have d: "forest ?d" "commits\<^sup>*\<^sup>* (sdb s) ?d"
    using stable_inv_and [OF assms(1) P] by (auto simp: seen_def stable_def inv_and_def)
  from rows(1) obtain rs where rs: "ancestors (length (folders ?d)) (folders ?d) uid i = Some rs"
    "rows = map (\<lambda>r. (d_id r, d_name r)) rs"
    unfolding FetchBreadcrumbRows_def by (auto elim!: exec_okE split: option.splits)
  have "distinct (map d_id rs)" using ancestors_distinct [OF _ rs(1)] d(1) by (simp add: forest_def is_forest_def)
  then have "distinct (map fst (rev rows))" by (simp add: rs(2) rev_map [symmetric] comp_def)
  with ancestors_trail [OF rs(1)] d(2) rows(2) path False rs(2) show ?thesis
    by (intro exI [of _ ?d] exI [of _ "rev rows"]) simp
qed

definition sample_crumbs :: "(nat \<times> string) list" where
  "sample_crumbs = [(0, root_label), (1, ''docs''), (2, ''old'')]"

lemma sample_crumbs_run: "fst (GetBreadcrumb quiet 2 1 (start tree_db)) = Inr (Inr sample_crumbs)"
  by code_simp

theorem breadcrumb_leads_to_folder_witness:
  "\<exists>d. commits\<^sup>*\<^sup>* tree_db d \<and> trail (folders d) 1 2 [(1, ''docs''), (2, ''old'')]"
proof -
  obtain s' where run: "GetBreadcrumb quiet 2 1 (start tree_db) = (Inr (Inr sample_crumbs), s')"
    using sample_crumbs_run by (metis prod.collapse)
  have "sdb (start tree_db) = tree_db" by (simp add: start_def)
  with breadcrumb_leads_to_folder [OF cluster_quiet _ _ run] tree_db_inv tree_db_forest show ?thesis
    by (auto simp: sample_crumbs_def)
qed

section \<open>Paths\<close>

text \<open>
  C32: A committed renaming of a folder gives the folder its new name and the path below its
  parent, exchanges the old prefix for the new one in the paths of everything below it, touches
  no other folder, and leaves every path the path of the parent followed by the name.
\<close>

theorem renaming_keeps_paths:
  assumes "rename_folder_tx i nm uid T s = (Inr (Inr path), s')" and "in_tx T" and "db_inv (sdb s)"
    and "forest (sdb s)" and "paths_ok (sdb s)"
  shows "paths_ok (sdb s') \<and>
    (\<exists>root \<in> set (folders (sdb s)). owned_folder i uid root \<and>
      folders (sdb s') = map (\<lambda>r. if below (folders (sdb s)) uid i r
        then r\<lparr>d_name := (if d_id r = i then nm else d_name r), d_path := path @ drop (length (d_path root)) (d_path r)\<rparr>
        else r) (folders (sdb s)))"
proof
  show "paths_ok (sdb s')" by (rule rename_folder_tx_paths [OF assms])
  show "\<exists>root \<in> set (folders (sdb s)). owned_folder i uid root \<and>
      folders (sdb s') = map (\<lambda>r. if below (folders (sdb s)) uid i r
        then r\<lparr>d_name := (if d_id r = i then nm else d_name r), d_path := path @ drop (length (d_path root)) (d_path r)\<rparr>
        else r) (folders (sdb s))"
    by (rule rename_folder_tx_ok [OF assms(1-4)])
       (auto simp: owned_folder_def patch_def subtree_def renamed_row_def)
qed

lemma tree_db_paths: "paths_ok tree_db"
  by (simp add: paths_ok_def folder_path_ok_def file_path_ok_def base_def find_row_def owned_folder_def tree_db_def
      empty_db_def sample_plan_def sample_folder_def sample_file_def BuildFolderPath_def BuildFilePath_def)

definition tree_renamed :: "(exn + string Result) \<times> unit session" where
  "tree_renamed = rename_folder_tx 1 ''papers'' 1 tx_client (start tree_db)"

lemma tree_renamed_runs:
  "fst tree_renamed = Inr (Inr ''/papers/'')"
  "map (\<lambda>f. f_path f) (files (sdb (snd tree_renamed))) = [''/papers/a.txt'', ''/papers/old/b.txt'']"
  by code_simp+

theorem renaming_keeps_paths_witness:
  "paths_ok (sdb (snd tree_renamed)) \<and>
   map (\<lambda>f. f_path f) (files (sdb (snd tree_renamed))) = [''/papers/a.txt'', ''/papers/old/b.txt'']"
proof -
  have "rename_folder_tx 1 ''papers'' 1 tx_client (start tree_db) = (Inr (Inr ''/papers/''), snd tree_renamed)"
    using tree_renamed_runs(1) by (metis prod.collapse tree_renamed_def)
  from renaming_keeps_paths [OF this] show ?thesis
    using tree_renamed_runs(2) by (simp add: start_def tx_client_def tree_db_inv tree_db_forest tree_db_paths)
qed

text \<open>
  C33: A committed move of files and folders leaves every path the path of the parent followed
  by the name and every depth one more than the parent's, provided that the location resolved
  for the target is the one the transaction finds and that no requested folder lies below
  another one.
\<close>

theorem moving_keeps_paths:
  assumes "move_items_tx ord (normalize_ids fs) (normalize_ids ds) t loc uid T s = (Inr (Inr m), s')" and "in_tx T"
    and "db_inv (sdb s)" and "forest (sdb s)" and "paths_ok (sdb s)" and "hash_order_ok ord" and "independent ds (sdb s)"
    and "base (folders (sdb s)) uid t = Some (loc_path loc, loc_depth loc)"
  shows "paths_ok (sdb s')"
  by (rule move_items_tx_paths [OF assms(1-6) _ _ assms(8)]) (use assms(7) in \<open>simp_all add: independent_def\<close>)

definition top_location :: FolderLocation where
  "top_location = \<lparr>loc_path = ''/'', loc_depth = 0\<rparr>"

definition tree_lifted :: "(exn + (nat \<times> nat) Result) \<times> unit session" where
  "tree_lifted = move_items_tx (\<lambda>ks. ks) (normalize_ids [1]) (normalize_ids [2]) 0 top_location 1 tx_client (start tree_db)"

lemma tree_lifted_runs:
  "fst tree_lifted = Inr (Inr (1, 1))"
  "map (\<lambda>f. f_path f) (files (sdb (snd tree_lifted))) = [''/a.txt'', ''/old/b.txt'']"
  by code_simp+

theorem moving_keeps_paths_witness:
  "paths_ok (sdb (snd tree_lifted)) \<and> map (\<lambda>f. f_path f) (files (sdb (snd tree_lifted))) = [''/a.txt'', ''/old/b.txt'']"
proof -
  have "move_items_tx (\<lambda>ks. ks) (normalize_ids [1]) (normalize_ids [2]) 0 top_location 1 tx_client (start tree_db) =
      (Inr (Inr (1, 1)), snd tree_lifted)"
    using tree_lifted_runs(1) by (metis prod.collapse tree_lifted_def)
  from moving_keeps_paths [OF this] show ?thesis
    using tree_lifted_runs(2)
    by (simp add: start_def tx_client_def tree_db_inv tree_db_forest tree_db_paths hash_order_ok_def independent_def base_def
        top_location_def)
qed

text \<open>
  C35: A move whose target is one of the requested folders or lies anywhere below one, in the
  state the transaction starts from, ends in an error and leaves the tables as they were.
\<close>

theorem move_below_itself_is_refused:
  assumes "Run E move_failed (move_items_tx ord (normalize_ids fs) (normalize_ids ds) t loc uid) s = (Inr res, s')"
    and "db_inv (other E (pc s) (sdb s))" and "forest (other E (pc s) (sdb s))"
    and "i \<in> set ds" and "below (folders (other E (pc s) (sdb s))) uid i r" and "d_id r = t"
  shows "\<exists>e. res = Inl e \<and> sdb s' = other E (pc s) (sdb s)"
proof (cases res)
  case (Inl e)
  with assms(1) show ?thesis by (auto dest: Run_error_rolls_back)
next
  case (Inr m)
  from assms(1) [unfolded Inr] obtain s0 s1 where s0: "sdb s0 = other E (pc s) (sdb s)"
    and run: "move_items_tx ord (normalize_ids fs) (normalize_ids ds) t loc uid (transaction_client E) s0 = (Inr (Inr m), s1)"
    by (rule Run_okE)
  have "d_id r \<noteq> t"
    by (rule move_items_tx_outside [OF run in_tx_transaction_client]) (use assms(2-5) s0 in simp_all)
  with assms(6) show ?thesis by simp
qed

definition self_move :: "(exn + (nat \<times> nat) Result) \<times> unit session" where
  "self_move = Run quiet move_failed (move_items_tx (\<lambda>ks. ks) (normalize_ids [2]) (normalize_ids [1]) 2 top_location 1) (start tree_db)"

lemma self_move_runs: "isl (fst self_move) = False"
  by code_simp

theorem move_below_itself_is_refused_witness: "\<exists>e. fst self_move = Inr (Inl e) \<and> sdb (snd self_move) = tree_db"
proof -
  obtain res where res: "fst self_move = Inr res" using self_move_runs by (cases "fst self_move") simp_all
  then have run: "Run quiet move_failed (move_items_tx (\<lambda>ks. ks) (normalize_ids [2]) (normalize_ids [1]) 2 top_location 1) (start tree_db) =
      (Inr res, snd self_move)" by (metis prod.collapse self_move_def)
  have db: "other quiet (pc (start tree_db)) (sdb (start tree_db)) = tree_db" by (simp add: quiet_def start_def)
  have a: "below (folders tree_db) 1 1 (sample_folder 1 0 ''docs'' ''/docs/'' 1)"
    using below.itself [of "sample_folder 1 0 ''docs'' ''/docs/'' 1" "folders tree_db" 1]
    by (simp add: tree_db_def sample_plan_def sample_folder_def)
  have b: "below (folders tree_db) 1 1 (sample_folder 2 1 ''old'' ''/docs/old/'' 2)"
    by (rule below.child [OF a]) (simp_all add: tree_db_def sample_plan_def sample_folder_def)
  from move_below_itself_is_refused [OF run, unfolded db, OF tree_db_inv tree_db_forest _ b] res show ?thesis
    by (auto simp: sample_folder_def)
qed

section \<open>Copying\<close>







section \<open>Observations\<close>

text \<open>
  Statement by statement the folders need not stay a forest.  A move locks the folders it was
  asked to move, not the target's ancestors.  If, after its transaction has read what lies below
  them, another session moves an ancestor of the target below a descendant of theirs, which no
  row or name lock of the first prevents, both moves succeed and close a cycle.
\<close>

definition twin_db :: "unit db" where
  "twin_db = (empty_db [sample_user] ())
     \<lparr>folders := [sample_folder 1 0 ''a'' ''/a/'' 1, sample_folder 2 1 ''x'' ''/a/x/'' 2,
                 sample_folder 3 0 ''b'' ''/b/'' 1, sample_folder 4 3 ''y'' ''/b/y/'' 2], seq_folders := 4\<rparr>"

text \<open>The other session moves \<^verbatim>\<open>a\<close> below \<^verbatim>\<open>y\<close>, in a transaction of its own.\<close>

definition moving_at :: "nat \<Rightarrow> 'w client" where
  "moving_at n = quiet\<lparr>other := (\<lambda>k d. if k = n
     then sdb (snd (Run quiet (ErrorInfo1 InternalError)
       (move_items_tx (\<lambda>ks. ks) [] [1] 4 \<lparr>loc_path = ''/b/y/'', loc_depth = 2\<rparr> 1) (start d)))
     else d)\<rparr>"

definition twins_moved :: "(exn + (nat \<times> nat) Result) \<times> unit session" where
  "twins_moved = move_items_tx (\<lambda>ks. ks) [] [3] 2 \<lparr>loc_path = ''/a/x/'', loc_depth = 2\<rparr> 1 (moving_at 4) (start twin_db)"

theorem interleaved_moves_make_a_cycle:
  "fst twins_moved = Inr (Inr (0, 1)) \<and>
   map (\<lambda>r. (d_id r, d_parent_id r)) (folders (sdb (snd twins_moved))) = [(1, 4), (2, 1), (3, 2), (4, 3)] \<and>
   \<not> forest (sdb (snd twins_moved))"
proof -
  have run: "fst twins_moved = Inr (Inr (0, 1))"
    "map place (folders (sdb (snd twins_moved))) = [(1, 1, 4), (2, 1, 1), (3, 1, 2), (4, 1, 3)]"
    "map (\<lambda>r. (d_id r, d_parent_id r)) (folders (sdb (snd twins_moved))) = [(1, 4), (2, 1), (3, 2), (4, 3)]"
    by code_simp+
  from run(2) have places: "place ` set (folders (sdb (snd twins_moved))) = {(1, 1, 4), (2, 1, 1), (3, 1, 2), (4, 1, 3)}"
    by (metis list.set_map empty_set list.simps(15))
  let ?e = "edges (place ` set (folders (sdb (snd twins_moved))))"
  have "(1, 4) \<in> ?e" "(4, 3) \<in> ?e" "(3, 2) \<in> ?e" "(2, 1) \<in> ?e"
    unfolding places by (auto simp: edges_def)
  then have "(1, 1) \<in> ?e\<^sup>+" by (meson r_into_trancl trancl_into_trancl)
  then show ?thesis
    using run by (auto simp: forest_def is_forest_def acyclic_def)
qed

text \<open>
  No depth is too much for a breadcrumb: the limit of 50 levels that the header of the service
  documents is not there.
\<close>

definition deep_db :: "unit db" where
  "deep_db = (empty_db [sample_user] ())\<lparr>folders := map (\<lambda>i. sample_folder (Suc i) i ''d'' ''/d/'' (Suc i)) [0..<51], seq_folders := 51\<rparr>"

theorem breadcrumb_has_no_limit:
  "case fst (GetBreadcrumb quiet 51 1 (start deep_db)) of Inr (Inr path) \<Rightarrow> length path = 52 | _ \<Rightarrow> False"
  by code_simp

text \<open>
  The location of the target is resolved before the transaction of the move.  If another
  session renames the target in between, the moved items get paths below its old name.
\<close>

definition rename_between :: "nat \<Rightarrow> nat \<Rightarrow> string \<Rightarrow> 'w client" where
  "rename_between n i nm =
     quiet\<lparr>other := (\<lambda>k d. if k = n then sdb (snd (rename_folder_tx i nm 1 (transaction_client quiet) (start d))) else d)\<rparr>"

theorem stale_target_breaks_paths:
  "let r = Move (rename_between 1 1 ''papers'') sample_trash \<lparr>mv_file_ids = [2], mv_folder_ids = [], mv_target_folder_id = 1\<rparr> 1 (start tree_db);
       d = sdb (snd r) in
   fst r = Inr (Inr (1, 0)) \<and> map (\<lambda>r. d_path r) (folders d) = [''/papers/'', ''/papers/old/''] \<and>
   map (\<lambda>f. f_path f) (files d) = [''/papers/a.txt'', ''/docs/b.txt'']"
  by code_simp

text \<open>
  Moving or copying a folder together with one of its subfolders can forget files, for the same
  reason as deleting them: the plan of the covered subfolder, which is dropped, may own them.
  A move then leaves their paths as they were, and a copy leaves them out.
\<close>

definition shelf_db :: "unit db" where
  "shelf_db = tree_db\<lparr>folders := folders tree_db @ [sample_folder 3 0 ''shelf'' ''/shelf/'' 1], seq_folders := 3\<rparr>"

definition nested_request :: MoveRequest where
  "nested_request = \<lparr>mv_file_ids = [], mv_folder_ids = [1, 2], mv_target_folder_id = 3\<rparr>"

theorem nested_request_forgets_files:
  "(let r = Move quiet (descending sample_trash) nested_request 1 (start shelf_db) in
    fst r = Inr (Inr (0, 1)) \<and> map (\<lambda>r. d_path r) (folders (sdb (snd r))) = [''/shelf/docs/'', ''/shelf/docs/old/'', ''/shelf/''] \<and>
    map (\<lambda>f. f_path f) (files (sdb (snd r))) = [''/shelf/docs/a.txt'', ''/docs/old/b.txt'']) \<and>
   (let d = sdb (snd (Copy quiet (descending sample_trash) nested_request 1 (start shelf_db))) in
    map (\<lambda>r. d_path r) (folders d) = [''/docs/'', ''/docs/old/'', ''/shelf/'', ''/shelf/docs/'', ''/shelf/docs/old/''] \<and>
    map (\<lambda>f. f_path f) (files d) = [''/docs/a.txt'', ''/docs/old/b.txt'', ''/shelf/docs/a.txt''])"
  by code_simp

text \<open>
  A copy whose transaction and whose release both fail leaves its reservation behind, and no
  upload accounts for it.
\<close>

definition failing_from :: "nat \<Rightarrow> 'w client" where
  "failing_from n = quiet\<lparr>fault := (\<lambda>k. n \<le> k)\<rparr>"

theorem failed_copy_keeps_its_reservation:
  "let r = Copy (failing_from 8) sample_trash \<lparr>mv_file_ids = [1], mv_folder_ids = [], mv_target_folder_id = 0\<rparr> 1 (start tree_db) in
   fst r = Inr (Inl (ErrorInfo1 InternalError)) \<and> map u_storage_reserved (users (sdb (snd r))) = [6] \<and>
   upload_tasks (sdb (snd r)) = []"
  by code_simp

text \<open>What an earlier transaction of a failing copy has copied stays, paid for.\<close>

theorem failed_copy_leaves_copies:
  "let r = Copy (failing_from 20) sample_trash \<lparr>mv_file_ids = [1], mv_folder_ids = [2], mv_target_folder_id = 0\<rparr> 1 (start tree_db) in
   fst r = Inr (Inl (ErrorInfo1 InternalError)) \<and>
   map (\<lambda>u. (u_storage_used u, u_storage_reserved u)) (users (sdb (snd r))) = [(18, 6)] \<and> length (files (sdb (snd r))) = 3"
  by code_simp

end
