(* ===== verification/Number_Parsing.thy ===== *)
theory Number_Parsing
  imports Disk_Prelude
begin

text \<open>
  Reading decimal numbers with \<^verbatim>\<open>std::stoull\<close>, as the request parsers do: white space and
  a sign are skipped, a minus sign negates modulo 2^64, digits are read as far as they go; no
  digit, or a magnitude of more than 64 bits, raises.
\<close>

definition isspace :: "char \<Rightarrow> bool" where
  "isspace c \<longleftrightarrow> (of_char c :: nat) = 32 \<or> 9 \<le> (of_char c :: nat) \<and> (of_char c :: nat) \<le> 13"

definition isdigit :: "char \<Rightarrow> bool" where
  "isdigit c \<longleftrightarrow> 48 \<le> (of_char c :: nat) \<and> (of_char c :: nat) \<le> 57"

text \<open>The value and the number of characters consumed, or \<open>None\<close> when the call throws.\<close>

definition stoull :: "string \<Rightarrow> (nat \<times> nat) option" where
  "stoull str =
     (let spaces = takeWhile isspace str;
          body = dropWhile isspace str;
          signed = (case body of c # _ \<Rightarrow> c = CHR ''-'' \<or> c = CHR ''+'' | [] \<Rightarrow> False);
          negative = (case body of c # _ \<Rightarrow> c = CHR ''-'' | [] \<Rightarrow> False);
          digits = takeWhile isdigit (if signed then tl body else body);
          magnitude = undecimal digits
      in if digits = [] then None
         else if magnitude \<ge> 2 ^ 64 then None
         else Some (if negative then (2 ^ 64 - magnitude) mod 2 ^ 64 else magnitude,
                    length spaces + (if signed then 1 else 0) + length digits))"

lemma stoull_bound: "stoull s = Some (v, p) \<Longrightarrow> v < 2 ^ 64"
  by (auto simp: stoull_def Let_def split: if_splits)

lemma isdigit_digit: "d < 10 \<Longrightarrow> isdigit (digit d)"
  by (simp add: isdigit_def of_char_digit)

lemma digit_not_special:
  assumes "isdigit c"
  shows "\<not> isspace c \<and> c \<noteq> CHR ''-'' \<and> c \<noteq> CHR ''+''"
  using assms by (auto simp: isdigit_def isspace_def)

lemma decimal_isdigit: "c \<in> set (decimal n) \<Longrightarrow> isdigit c"
  by (auto dest: decimal_digits simp: isdigit_digit)

lemma decimal_not_Nil [simp]: "decimal n \<noteq> []"
  by (subst decimal.simps) simp

text \<open>What \<^verbatim>\<open>std::to_string\<close> prints is read back, up to the first character that is no digit.\<close>

lemma stoull_decimal:
  assumes "n < 2 ^ 64" and "case rest of c # _ \<Rightarrow> \<not> isdigit c | [] \<Rightarrow> True"
  shows "stoull (decimal n @ rest) = Some (n, length (decimal n))"
proof -
  obtain c cs where d: "decimal n = c # cs" by (cases "decimal n") simp_all
  then have c: "isdigit c" using decimal_isdigit [of c n] by simp
  have "takeWhile isdigit (decimal n @ rest) = decimal n"
    using assms(2) takeWhile_append2 [of "decimal n" isdigit rest] decimal_isdigit
    by (cases rest) (auto simp: takeWhile_eq_all_conv)
  with d c assms(1) undecimal_decimal [of n] show ?thesis
    by (simp add: stoull_def Let_def digit_not_special)
qed

end
