(* ===== verification/Range_Request.thy ===== *)
theory Range_Request
  imports Number_Parsing
begin

text \<open>
  The \<^verbatim>\<open>Range\<close> header of a download (\<^verbatim>\<open>RangeRequest::Parse\<close> of
  src/src/dtos/FileDto.hpp).  Positions are 64-bit words, so the subtractions wrap as they do
  in the source.
\<close>

record RangeRequest =
  has_range :: bool
  rr_start :: "64 word"
  rr_end :: "64 word"
  satisfiable :: bool
  rr_file_size :: "64 word"

definition split_dash :: "string \<Rightarrow> (string \<times> string) option" where
  "split_dash rng =
     (if CHR ''-'' \<in> set rng
      then Some (takeWhile (\<lambda>c. c \<noteq> CHR ''-'') rng, tl (dropWhile (\<lambda>c. c \<noteq> CHR ''-'') rng))
      else None)"

definition parse_suffix :: "string \<Rightarrow> RangeRequest \<Rightarrow> RangeRequest option" where
  "parse_suffix end_str r =
     (case stoull end_str of
        None \<Rightarrow> None
      | Some (n, _) \<Rightarrow>
          let suffix_length = of_nat n in
          Some (if suffix_length = 0 \<or> suffix_length > rr_file_size r
                then r\<lparr>rr_start := 0, rr_end := rr_file_size r - 1\<rparr>
                else r\<lparr>rr_start := rr_file_size r - suffix_length, rr_end := rr_file_size r - 1\<rparr>))"

text \<open>The branch with a first position: a position behind the end of the file returns at once.\<close>

definition parse_from :: "string \<Rightarrow> string \<Rightarrow> RangeRequest \<Rightarrow> RangeRequest option" where
  "parse_from start_str end_str r =
     (case stoull start_str of
        None \<Rightarrow> None
      | Some (a, _) \<Rightarrow>
          let r = r\<lparr>rr_start := of_nat a\<rparr> in
          if rr_start r \<ge> rr_file_size r then Some (r\<lparr>satisfiable := False\<rparr>)
          else if end_str = [] then Some (r\<lparr>rr_end := rr_file_size r - 1\<rparr>)
          else
            (case stoull end_str of
               None \<Rightarrow> None
             | Some (b, _) \<Rightarrow>
                 Some (r\<lparr>rr_end := (if of_nat b \<ge> rr_file_size r then rr_file_size r - 1 else of_nat b)\<rparr>)))"

definition parse_bounds :: "string \<Rightarrow> string \<Rightarrow> RangeRequest \<Rightarrow> RangeRequest option" where
  "parse_bounds start_str end_str r =
     (if start_str = [] then parse_suffix end_str r else parse_from start_str end_str r)"

definition Parse :: "string \<Rightarrow> 64 word \<Rightarrow> RangeRequest" where
  "Parse range_header file_size =
     (let r = \<lparr>has_range = True, rr_start = 0, rr_end = 0, satisfiable = True, rr_file_size = file_size\<rparr>;
          bad = r\<lparr>satisfiable := False\<rparr>
      in if range_header = [] then r\<lparr>has_range := False\<rparr>
         else if take 6 range_header \<noteq> ''bytes='' then bad
         else
           (case split_dash (drop 6 range_header) of
              None \<Rightarrow> bad
            | Some (start_str, end_str) \<Rightarrow>
                if start_str = [] \<and> end_str = [] then bad
                else
                  (case parse_bounds start_str end_str r of
                     None \<Rightarrow> bad
                   | Some q \<Rightarrow>
                       if rr_start q > rr_end q then q\<lparr>satisfiable := False\<rparr> else q)))"

section \<open>Answerable ranges lie in the file\<close>

lemma unat_minus_one: "0 < (n :: 64 word) \<Longrightarrow> unat (n - 1) = unat n - 1"
  by (simp add: unat_minus_one)

lemma minus_one_less: "0 < (n :: 64 word) \<Longrightarrow> n - 1 < n"
  using unat_minus_one [of n] by (simp add: word_less_nat_alt unat_gt_0)

lemma parse_suffix_end: "parse_suffix e r = Some q \<Longrightarrow> rr_end q = rr_file_size r - 1"
  by (auto simp: parse_suffix_def Let_def split: option.splits if_splits)

lemma parse_from_end:
  assumes "parse_from a e r = Some q" and "satisfiable q" and "0 < rr_file_size r"
  shows "rr_end q < rr_file_size r"
  using assms by (auto simp: parse_from_def Let_def not_le minus_one_less split: option.splits if_splits)

lemma parse_bounds_end:
  assumes "parse_bounds a e r = Some q" and "satisfiable q" and "0 < rr_file_size r"
  shows "rr_end q < rr_file_size r"
  using assms parse_suffix_end [of e r q] parse_from_end [of a e r q]
  by (auto simp: parse_bounds_def minus_one_less split: if_splits)

lemma Parse_in_file:
  assumes "has_range (Parse h n)" and "satisfiable (Parse h n)" and "0 < n"
  shows "rr_start (Parse h n) \<le> rr_end (Parse h n) \<and> rr_end (Parse h n) < n"
proof -
  let ?r = "\<lparr>has_range = True, rr_start = 0, rr_end = 0, satisfiable = True, rr_file_size = n\<rparr>"
  from assms obtain a e q where "parse_bounds a e ?r = Some q" "Parse h n = q" "rr_start q \<le> rr_end q" "satisfiable q"
    by (auto simp: Parse_def Let_def not_less split: if_splits option.splits)
  with parse_bounds_end [of a e ?r q] assms(3) show ?thesis by simp
qed

lemma unat_less_64: "unat (n :: 64 word) < 2 ^ 64"
  using unsigned_less [of n] by simp

lemma content_length_fits:
  assumes "a \<le> b" and "b < (n :: 64 word)"
  shows "unat (b - a + 1) = unat b - unat a + 1"
proof -
  have "unat b + 1 < 2 ^ 64" using assms(2) unat_less_64 [of n] by (simp add: word_less_nat_alt)
  moreover have "unat (b - a) = unat b - unat a" using assms(1) by (simp add: unat_sub)
  ultimately have "unat (b - a) + unat (1 :: 64 word) < 2 ^ 64" by simp
  then show ?thesis using \<open>unat (b - a) = unat b - unat a\<close> by (subst unat_plus_if') simp
qed

section \<open>Printed headers are read back\<close>

lemma split_dash_decimal: "split_dash (decimal a @ ''-'' @ s) = Some (decimal a, s)"
proof -
  have "c \<noteq> CHR ''-''" if "c \<in> set (decimal a)" for c
    using digit_not_special [OF decimal_isdigit [OF that]] by simp
  then show ?thesis by (simp add: split_dash_def takeWhile_append2 dropWhile_append2)
qed

lemma split_dash_Nil: "split_dash (''-'' @ s) = Some ([], s)"
  by (simp add: split_dash_def)

lemma of_nat_order:
  assumes "a < 2 ^ 64" and "b < 2 ^ 64"
  shows "(of_nat a :: 64 word) \<le> of_nat b \<longleftrightarrow> a \<le> b" "(of_nat a :: 64 word) < of_nat b \<longleftrightarrow> a < b"
    "unat (of_nat a :: 64 word) = a"
  using assms by (simp_all add: word_le_nat_alt word_less_nat_alt unat_of_nat take_bit_nat_eq_self)

lemma of_nat_pred: "0 < n \<Longrightarrow> (of_nat n - 1 :: 64 word) = of_nat (n - 1)"
  by (simp add: of_nat_diff)

lemma Parse_SomeI:
  assumes "split_dash s = Some (a, e)" and "a \<noteq> [] \<or> e \<noteq> []" and "rr_start q \<le> rr_end q"
    and "parse_bounds a e \<lparr>has_range = True, rr_start = 0, rr_end = 0, satisfiable = True, rr_file_size = n\<rparr> = Some q"
  shows "Parse (''bytes='' @ s) n = q"
  using assms by (auto simp: Parse_def Let_def)

definition answer_range :: "nat \<Rightarrow> nat \<Rightarrow> nat \<Rightarrow> RangeRequest" where
  "answer_range n a b =
     \<lparr>has_range = True, rr_start = of_nat a, rr_end = of_nat b, satisfiable = True, rr_file_size = of_nat n\<rparr>"

lemma parse_from_both:
  assumes "stoull s = Some (a, p)" and "stoull e = Some (b, q)" and "\<not> N \<le> of_nat a" and "e \<noteq> []"
  shows "parse_from s e \<lparr>has_range = True, rr_start = 0, rr_end = 0, satisfiable = True, rr_file_size = N\<rparr> =
    Some \<lparr>has_range = True, rr_start = of_nat a, rr_end = (if N \<le> of_nat b then N - 1 else of_nat b),
          satisfiable = True, rr_file_size = N\<rparr>"
  using assms by (simp add: parse_from_def Let_def)

lemma Parse_range:
  assumes "a \<le> b" and "b < 2 ^ 64" and "a < n" and "n < 2 ^ 64"
  shows "Parse (''bytes='' @ decimal a @ ''-'' @ decimal b) (of_nat n) = answer_range n a (min b (n - 1))"
proof (rule Parse_SomeI [OF split_dash_decimal])
  have st: "stoull (decimal a) = Some (a, length (decimal a))" "stoull (decimal b) = Some (b, length (decimal b))"
    using stoull_decimal [of a "[]"] stoull_decimal [of b "[]"] assms by simp_all
  have o: "\<not> (of_nat n :: 64 word) \<le> of_nat a" "(of_nat n :: 64 word) \<le> of_nat b \<longleftrightarrow> n \<le> b"
    using of_nat_order(1) [of n a] of_nat_order(1) [of n b] assms by simp_all
  have p: "(of_nat n - 1 :: 64 word) = of_nat (n - 1)" using assms by (intro of_nat_pred) simp
  show "parse_bounds (decimal a) (decimal b)
      \<lparr>has_range = True, rr_start = 0, rr_end = 0, satisfiable = True, rr_file_size = of_nat n\<rparr> =
    Some (answer_range n a (min b (n - 1)))"
  proof -
    have "min b (n - 1) = (if n \<le> b then n - 1 else b)" using assms(3) by (auto simp: min_def)
    then have e: "(if of_nat n \<le> (of_nat b :: 64 word) then of_nat n - 1 else of_nat b :: 64 word) = of_nat (min b (n - 1))"
      unfolding o(2) p by (rule ssubst) (rule if_distrib [of of_nat, symmetric])
    show ?thesis unfolding parse_bounds_def answer_range_def
      using parse_from_both [OF st o(1) decimal_not_Nil] by (simp only: e decimal_not_Nil if_False)
  qed
  show "rr_start (answer_range n a (min b (n - 1))) \<le> rr_end (answer_range n a (min b (n - 1)))"
  proof -
    have "a \<le> min b (n - 1)" using assms(1,3) by simp
    moreover have "a < 2 ^ 64" using assms(3,4) by (rule less_trans)
    moreover have "min b (n - 1) < 2 ^ 64" using assms(2) by (rule min.strict_coboundedI1)
    ultimately have "(of_nat a :: 64 word) \<le> of_nat (min b (n - 1))" by (simp only: of_nat_order)
    then show ?thesis by (simp only: answer_range_def RangeRequest.simps)
  qed
qed simp

lemma Parse_suffix:
  assumes "0 < k" and "k \<le> n" and "n < 2 ^ 64"
  shows "Parse (''bytes='' @ ''-'' @ decimal k) (of_nat n) = answer_range n (n - k) (n - 1)"
proof (rule Parse_SomeI [OF split_dash_Nil])
  have st: "stoull (decimal k) = Some (k, length (decimal k))" using stoull_decimal [of k "[]"] assms by simp
  have o: "of_nat k \<noteq> (0 :: 64 word)" "\<not> (of_nat n :: 64 word) < of_nat k"
    using of_nat_order(2) [of 0 k] of_nat_order(2) [of n k] assms by auto
  have p: "(of_nat n - of_nat k :: 64 word) = of_nat (n - k)" "(of_nat n - 1 :: 64 word) = of_nat (n - 1)"
    using assms of_nat_pred [of n] by (simp_all add: of_nat_diff)
  show "parse_bounds [] (decimal k)
      \<lparr>has_range = True, rr_start = 0, rr_end = 0, satisfiable = True, rr_file_size = of_nat n\<rparr> =
    Some (answer_range n (n - k) (n - 1))"
    by (simp add: parse_bounds_def parse_suffix_def answer_range_def st o p Let_def del: One_nat_def)
  show "rr_start (answer_range n (n - k) (n - 1)) \<le> rr_end (answer_range n (n - k) (n - 1))"
    using of_nat_order(1) [of "n - k" "n - 1"] assms by (simp add: answer_range_def)
qed simp

end
