(* ===== verification/Download_Stream.thy ===== *)
theory Download_Stream
  imports Disk_Prelude
begin

text \<open>
  Streaming a blob to a client.  The interface \<^verbatim>\<open>StorageReadStream\<close>
  (src/src/storage/IBlobStore.hpp) is the locale \<open>read_stream\<close>; its implementations are
  \<^verbatim>\<open>LocalFileReadStream\<close> (src/src/storage/LocalBlobStore.cpp) and
  \<^verbatim>\<open>S3ObjectReadStream\<close> (src/src/storage/S3Client.cpp).  The callback that feeds the HTTP
  response (\<^verbatim>\<open>BuildDownloadResponse\<close> of src/src/controllers/DownloadResponder.cpp) is
  written against the interface, and what it delivers is proved there once.
\<close>

section \<open>Input streams of the standard library\<close>

text \<open>
  An input stream is the bytes it will still yield and its fail bit.  \<^verbatim>\<open>read\<close> extracts up to
  \<open>n\<close> bytes; getting fewer sets the fail bit, and a failed stream yields nothing.
\<close>

record istream =
  is_rest :: string
  is_failed :: bool

definition istream_read :: "nat \<Rightarrow> istream \<Rightarrow> string \<times> istream" where
  "istream_read n i =
     (if is_failed i then ([], i)
      else (take n (is_rest i),
            \<lparr>is_rest = drop n (is_rest i), is_failed = (length (is_rest i) < n)\<rparr>))"

definition SIZE_MAX :: nat where
  "SIZE_MAX = 2 ^ 64 - 1"

section \<open>The two streams\<close>

text \<open>A read returns the bytes placed in the buffer, \<open>None\<close> standing for a thrown exception.\<close>

record LocalFileReadStream =
  ls_stream :: istream
  ls_open :: bool
  ls_remaining :: nat

definition Local_Close :: "LocalFileReadStream \<Rightarrow> LocalFileReadStream" where
  "Local_Close s = (if ls_open s then s\<lparr>ls_open := False\<rparr> else s)"

definition Local_Read :: "nat \<Rightarrow> LocalFileReadStream \<Rightarrow> string option \<times> LocalFileReadStream" where
  "Local_Read n s =
     (if \<not> ls_open s \<or> ls_remaining s = 0 then (Some [], s)
      else
        let read_size = min n (min (ls_remaining s) SIZE_MAX);
            (bytes, i) = istream_read read_size (ls_stream s);
            s = s\<lparr>ls_stream := i\<rparr>
        in if bytes = [] then (Some [], Local_Close (s\<lparr>ls_remaining := 0\<rparr>))
           else
             let s = s\<lparr>ls_remaining := ls_remaining s - length bytes\<rparr>
             in (Some bytes, if ls_remaining s = 0 then Local_Close s else s))"

record S3ObjectReadStream =
  s3_body :: istream
  s3_remaining :: nat

definition S3_Close :: "S3ObjectReadStream \<Rightarrow> S3ObjectReadStream" where
  "S3_Close s = s\<lparr>s3_remaining := 0\<rparr>"

definition S3_Read :: "nat \<Rightarrow> S3ObjectReadStream \<Rightarrow> string option \<times> S3ObjectReadStream" where
  "S3_Read n s =
     (if s3_remaining s = 0 then (Some [], s)
      else
        let read_size = min n (min (s3_remaining s) SIZE_MAX);
            (bytes, i) = istream_read read_size (s3_body s);
            s = s\<lparr>s3_body := i\<rparr>
        in if bytes = [] then (Some [], s\<lparr>s3_remaining := 0\<rparr>)
           else (Some bytes, s\<lparr>s3_remaining := s3_remaining s - length bytes\<rparr>))"

section \<open>The response callback\<close>

definition DOWNLOAD_STREAM_CHUNK_BYTES :: nat where
  "DOWNLOAD_STREAM_CHUNK_BYTES = 64 * 1024"

text \<open>
  The state the callback captures.  \<open>ds_reports\<close> lists the byte counts of the calls of
  \<^verbatim>\<open>RecordStreamInterruption\<close>.
\<close>

record 's DownloadStreamState =
  ds_stream :: 's
  ds_remaining :: nat
  ds_delivered :: nat
  ds_interruption_recorded :: bool
  ds_reports :: "nat list"

definition stream_callback ::
  "(nat \<Rightarrow> 's \<Rightarrow> string option \<times> 's) \<Rightarrow> ('s \<Rightarrow> 's) \<Rightarrow> bool \<Rightarrow> nat \<Rightarrow> 's DownloadStreamState \<Rightarrow>
   string \<times> 's DownloadStreamState" where
  "stream_callback Read Close has_buffer suggested_length st =
     (if \<not> has_buffer \<or> ds_remaining st = 0 then ([], st\<lparr>ds_stream := Close (ds_stream st)\<rparr>)
      else
        let bounded_remaining = min (ds_remaining st) SIZE_MAX;
            read_size = min suggested_length (min DOWNLOAD_STREAM_CHUNK_BYTES bounded_remaining);
            (result, s) = Read read_size (ds_stream st);
            bytes = (case result of None \<Rightarrow> [] | Some b \<Rightarrow> b);
            st = st\<lparr>ds_stream := s\<rparr>
        in if bytes = []
           then ([], st\<lparr>ds_reports := (if ds_interruption_recorded st then ds_reports st
                                       else ds_reports st @ [ds_delivered st]),
                        ds_interruption_recorded := True, ds_remaining := 0, ds_stream := Close s\<rparr>)
           else
             let n = min (length bytes) (ds_remaining st);
                 st = st\<lparr>ds_remaining := ds_remaining st - n, ds_delivered := ds_delivered st + n\<rparr>
             in (take n bytes, if ds_remaining st = 0 then st\<lparr>ds_stream := Close s\<rparr> else st))"

text \<open>The server pulls until the callback returns nothing.\<close>

fun pull_all ::
  "(nat \<Rightarrow> 's \<Rightarrow> string option \<times> 's) \<Rightarrow> ('s \<Rightarrow> 's) \<Rightarrow> nat list \<Rightarrow> 's DownloadStreamState \<Rightarrow>
   string \<times> 's DownloadStreamState" where
  "pull_all Read Close [] st = ([], st)"
| "pull_all Read Close (n # ns) st =
     (let (bytes, st) = stream_callback Read Close True n st in
      if bytes = [] then ([], st)
      else let (more, st) = pull_all Read Close ns st in (bytes @ more, st))"

definition start_stream :: "'s \<Rightarrow> nat \<Rightarrow> 's DownloadStreamState" where
  "start_stream s content_length =
     \<lparr>ds_stream = s, ds_remaining = content_length, ds_delivered = 0, ds_interruption_recorded = False, ds_reports = []\<rparr>"

section \<open>The contract of a stream\<close>

locale read_stream =
  fixes Read :: "nat \<Rightarrow> 's \<Rightarrow> string option \<times> 's" and Close :: "'s \<Rightarrow> 's" and content :: "'s \<Rightarrow> string"
  assumes Read_splits: "Read n s = (r, s') \<Longrightarrow> 0 < n \<Longrightarrow> \<exists>b. r = Some b \<and> length b \<le> n \<and> content s = b @ content s'"
    and Read_progress: "Read n s = (Some b, s') \<Longrightarrow> 0 < n \<Longrightarrow> content s \<noteq> [] \<Longrightarrow> b \<noteq> []"
begin

text \<open>One call, for a positive buffer and bytes still owed: it delivers a prefix, or reports the end.\<close>

lemma callback_step:
  assumes "0 < n" and "0 < ds_remaining st" and "content (ds_stream st) \<noteq> []"
    and "stream_callback Read Close True n st = (b, st')"
  shows "b \<noteq> [] \<and> length b \<le> ds_remaining st \<and> ds_remaining st' = ds_remaining st - length b \<and>
    ds_delivered st' = ds_delivered st + length b \<and> ds_reports st' = ds_reports st \<and>
    ds_interruption_recorded st' = ds_interruption_recorded st \<and>
    (\<exists>s'. content (ds_stream st) = b @ content s' \<and> (0 < ds_remaining st' \<longrightarrow> ds_stream st' = s'))"
proof -
  let ?n = "min n (min DOWNLOAD_STREAM_CHUNK_BYTES (min (ds_remaining st) SIZE_MAX))"
  obtain r s' where rd: "Read ?n (ds_stream st) = (r, s')" by (cases "Read ?n (ds_stream st)") simp
  have pos: "0 < ?n" using assms(1,2) by (simp add: DOWNLOAD_STREAM_CHUNK_BYTES_def SIZE_MAX_def)
  from Read_splits [OF rd this] obtain c where c: "r = Some c" "length c \<le> ?n" "content (ds_stream st) = c @ content s'"
    by blast
  from pos Read_progress [of ?n "ds_stream st" c s'] rd c(1) assms(3) have "c \<noteq> []" by simp
  with assms(2,4) rd c show ?thesis
    by (auto simp: stream_callback_def Let_def min_def split: if_splits)
qed

lemma callback_end:
  assumes "0 < n" and "0 < ds_remaining st" and "content (ds_stream st) = []"
    and "stream_callback Read Close True n st = (b, st')"
  shows "b = [] \<and> ds_delivered st' = ds_delivered st \<and>
    ds_reports st' = (if ds_interruption_recorded st then ds_reports st else ds_reports st @ [ds_delivered st])"
proof -
  let ?n = "min n (min DOWNLOAD_STREAM_CHUNK_BYTES (min (ds_remaining st) SIZE_MAX))"
  obtain r s' where rd: "Read ?n (ds_stream st) = (r, s')" by (cases "Read ?n (ds_stream st)") simp
  have "0 < ?n" using assms(1,2) by (simp add: DOWNLOAD_STREAM_CHUNK_BYTES_def SIZE_MAX_def)
  from Read_splits [OF rd this] assms(3) have "r = Some []" by auto
  with rd assms(2,4) show ?thesis by (auto simp: stream_callback_def Let_def)
qed

text \<open>
  Enough pulls deliver the whole content up to the owed length.  A shorter content is
  reported once, with the number of bytes delivered.
\<close>

lemma pull_all_delivers:
  assumes "list_all (\<lambda>n. 0 < n) ns" and "min (ds_remaining st) (length (content (ds_stream st))) < length ns"
    and "pull_all Read Close ns st = (out, st')" and "\<not> ds_interruption_recorded st"
  shows "out = take (ds_remaining st) (content (ds_stream st)) \<and> ds_delivered st' = ds_delivered st + length out \<and>
    ds_reports st' = (if length out < ds_remaining st then ds_reports st @ [ds_delivered st + length out] else ds_reports st)"
  using assms
proof (induction ns arbitrary: st out st')
  case Nil
  then show ?case by simp
next
  case (Cons n ns)
  obtain b st1 where cb: "stream_callback Read Close True n st = (b, st1)"
    by (cases "stream_callback Read Close True n st") simp
  from Cons.prems(1) have n: "0 < n" "list_all (\<lambda>n. 0 < n) ns" by simp_all
  consider "ds_remaining st = 0" | "0 < ds_remaining st" "content (ds_stream st) = []"
    | "0 < ds_remaining st" "content (ds_stream st) \<noteq> []" by auto
  then show ?case
  proof cases
    case 1
    then have "b = []" "st1 = st\<lparr>ds_stream := Close (ds_stream st)\<rparr>"
      using cb by (simp_all add: stream_callback_def)
    with 1 cb Cons.prems(3) show ?thesis by auto
  next
    case 2
    from callback_end [OF n(1) this cb] 2 cb Cons.prems(3,4) show ?thesis by simp
  next
    case 3
    note step = callback_step [OF n(1) 3 cb]
    then obtain s' where s': "content (ds_stream st) = b @ content s'" "0 < ds_remaining st1 \<longrightarrow> ds_stream st1 = s'"
      by (elim conjE exE) (rule that; assumption)
    with step have st: "b \<noteq> []" "length b \<le> ds_remaining st"
      "ds_remaining st1 = ds_remaining st - length b" "ds_delivered st1 = ds_delivered st + length b"
      "ds_reports st1 = ds_reports st" "ds_interruption_recorded st1 = ds_interruption_recorded st"
      "content (ds_stream st) = b @ content s'" "0 < ds_remaining st1 \<Longrightarrow> ds_stream st1 = s'" by simp_all
    obtain more st2 where rec: "pull_all Read Close ns st1 = (more, st2)"
      by (cases "pull_all Read Close ns st1") simp
    have out: "out = b @ more" "st' = st2" using Cons.prems(3) cb rec st(1) by simp_all
    have len: "min (ds_remaining st1) (length (content (ds_stream st1))) < length ns"
    proof (cases "ds_remaining st1 = 0")
      case True
      have "0 < length ns" using Cons.prems(2) st(1,2,3,7) True 3 by (cases ns) auto
      with True show ?thesis by simp
    next
      case False
      then have "length (content (ds_stream st)) = length b + length (content (ds_stream st1))" using st(7,8) by simp
      moreover have "0 < length b" using st(1) by simp
      moreover have "min (ds_remaining st) (length (content (ds_stream st))) < Suc (length ns)" using Cons.prems(2) by simp
      ultimately show ?thesis unfolding st(3) using st(2) by linarith
    qed
    from Cons.IH [OF n(2) len rec] Cons.prems(4) st(6)
    have IH: "more = take (ds_remaining st1) (content (ds_stream st1))" "ds_delivered st2 = ds_delivered st1 + length more"
      "ds_reports st2 = (if length more < ds_remaining st1 then ds_reports st1 @ [ds_delivered st1 + length more] else ds_reports st1)"
      by simp_all
    then have "more = take (ds_remaining st1) (content s')" using st(8) by (cases "ds_remaining st1 = 0") simp_all
    then have "take (ds_remaining st) (content (ds_stream st)) = out" using st(2,3,7) out(1) by simp
    moreover have "length more < ds_remaining st1 \<longleftrightarrow> length out < ds_remaining st"
      using st(2,3) out(1) by auto
    ultimately show ?thesis using IH(2,3) out st(4,5) by simp
  qed
qed

end

section \<open>The two streams keep the contract\<close>

definition local_content :: "LocalFileReadStream \<Rightarrow> string" where
  "local_content s = (if ls_open s \<and> \<not> is_failed (ls_stream s) then take (ls_remaining s) (is_rest (ls_stream s)) else [])"

definition s3_content :: "S3ObjectReadStream \<Rightarrow> string" where
  "s3_content s = (if is_failed (s3_body s) then [] else take (s3_remaining s) (is_rest (s3_body s)))"

text \<open>
  A read whose length is bounded by the owed bytes splits them; coming up short means that the
  stream is exhausted.
\<close>

lemma istream_read_splits:
  assumes "istream_read k i = (b, i')" and "k \<le> m" and "\<not> is_failed i"
  shows "take m (is_rest i) = b @ (if is_failed i' then [] else take (m - length b) (is_rest i')) \<and> length b \<le> k \<and>
    (0 < k \<longrightarrow> b = [] \<longrightarrow> is_rest i = [])"
proof (cases "length (is_rest i) < k")
  case True
  with assms show ?thesis by (auto simp: istream_read_def)
next
  case False
  with assms have "b = take k (is_rest i)" "is_rest i' = drop k (is_rest i)" "\<not> is_failed i'" "length b = k"
    by (auto simp: istream_read_def)
  then show ?thesis using assms(2) take_add [of k "m - k" "is_rest i"] by auto
qed

interpretation local: read_stream Local_Read Local_Close local_content
proof
  fix n :: nat and s r s'
  assume rd: "Local_Read n s = (r, s')" and n: "0 < n"
  show "\<exists>b. r = Some b \<and> length b \<le> n \<and> local_content s = b @ local_content s'"
  proof (cases "ls_open s \<and> ls_remaining s \<noteq> 0")
    case False
    with rd show ?thesis by (auto simp: Local_Read_def local_content_def)
  next
    case True
    let ?k = "min n (min (ls_remaining s) SIZE_MAX)"
    obtain b i where b: "istream_read ?k (ls_stream s) = (b, i)" by (cases "istream_read ?k (ls_stream s)") simp
    show ?thesis
    proof (cases "is_failed (ls_stream s)")
      case failed: True
      with b rd True show ?thesis
        by (auto simp: Local_Read_def local_content_def istream_read_def Local_Close_def Let_def)
    next
      case False
      have k: "?k \<le> ls_remaining s" "0 < ?k" "?k \<le> n" using n True by (simp_all add: SIZE_MAX_def)
      from istream_read_splits [OF b k(1) False] k b rd True False show ?thesis
        by (auto simp: Local_Read_def local_content_def Local_Close_def Let_def split: if_splits)
    qed
  qed
next
  fix n s b s'
  assume "Local_Read n s = (Some b, s')" and "0 < n" and "local_content s \<noteq> []"
  then show "b \<noteq> []"
    by (auto simp: Local_Read_def local_content_def istream_read_def SIZE_MAX_def Let_def split: if_splits)
qed

interpretation s3: read_stream S3_Read S3_Close s3_content
proof
  fix n :: nat and s r s'
  assume rd: "S3_Read n s = (r, s')" and n: "0 < n"
  show "\<exists>b. r = Some b \<and> length b \<le> n \<and> s3_content s = b @ s3_content s'"
  proof (cases "s3_remaining s \<noteq> 0")
    case False
    with rd show ?thesis by (auto simp: S3_Read_def s3_content_def)
  next
    case True
    let ?k = "min n (min (s3_remaining s) SIZE_MAX)"
    obtain b i where b: "istream_read ?k (s3_body s) = (b, i)" by (cases "istream_read ?k (s3_body s)") simp
    show ?thesis
    proof (cases "is_failed (s3_body s)")
      case failed: True
      with b rd True show ?thesis
        by (auto simp: S3_Read_def s3_content_def istream_read_def Let_def)
    next
      case False
      have k: "?k \<le> s3_remaining s" "0 < ?k" "?k \<le> n" using n True by (simp_all add: SIZE_MAX_def)
      from istream_read_splits [OF b k(1) False] k b rd True False show ?thesis
        by (auto simp: S3_Read_def s3_content_def Let_def split: if_splits)
    qed
  qed
next
  fix n s b s'
  assume "S3_Read n s = (Some b, s')" and "0 < n" and "s3_content s \<noteq> []"
  then show "b \<noteq> []"
    by (auto simp: S3_Read_def s3_content_def istream_read_def SIZE_MAX_def Let_def split: if_splits)
qed

end
