(* ===== verification/Download_Service.thy ===== *)
theory Download_Service
  imports Reconciliation Range_Request Download_Stream
begin

text \<open>
  Downloads: the integrity checks of src/src/services/DownloadIntegrityService.cpp, opening a
  blob in the local store (src/src/storage/LocalBlobStore.cpp) and the response builder of
  src/src/controllers/DownloadResponder.cpp.  The blob store is a record of functions over the
  object storage; the fields that correlate a finding with its request are a parameter.
\<close>

record ('w, 's) download_store =
  GetBlobSize :: "BlobDescriptor \<Rightarrow> 'w \<Rightarrow> nat Result \<times> 'w"
  GetLocalBlobPathForDownload :: "BlobDescriptor \<Rightarrow> string option"
  OpenBlobRangeForRead :: "BlobDescriptor \<Rightarrow> nat \<Rightarrow> nat \<Rightarrow> 'w \<Rightarrow> 's Result \<times> 'w"

section \<open>Findings of a download\<close>

definition MakeFinding :: "string \<Rightarrow> BlobDescriptor \<Rightarrow> json \<Rightarrow> ReconciliationFinding" where
  "MakeFinding finding_type blob details =
     \<lparr>rf_finding_type = finding_type, rf_resource_id = decimal (bd_content_id blob),
      rf_resource_locator = Some (bd_storage_path blob), rf_severity = SeverityCritical,
      rf_resolution_strategy = StrategyManual, rf_details = details\<rparr>"

definition RecordFindingBestEffort :: "'w client \<Rightarrow> ReconciliationFinding \<Rightarrow> ('w, unit) M" where
  "RecordFindingBestEffort E finding = catchM (RecordFinding E finding) (\<lambda>_. retM ())"

definition FileReadFailure :: "('w, unit Result) M" where
  "FileReadFailure = failR (ErrorInfo1 FileReadError)"

definition Preflight ::
  "'w client \<Rightarrow> ('w, 's) download_store \<Rightarrow> (string \<times> json) list \<Rightarrow> BlobDescriptor \<Rightarrow> nat \<Rightarrow> ('w, unit Result) M" where
  "Preflight E D correlation blob expected_size =
     bindM (callStore E (GetBlobSize D blob)) (\<lambda>observed_size.
       case observed_size of
         Inl err \<Rightarrow>
           bindM (if err_code err = FileNotFound
                  then RecordFindingBestEffort E (MakeFinding kMissingFinalBlobFindingType blob
                         (JObject ([(''source'', JString ''download_preflight''),
                                    (''expected_size'', JUInt expected_size)] @ correlation)))
                  else retM ()) (\<lambda>_. FileReadFailure)
       | Inr n \<Rightarrow>
           if n \<noteq> expected_size
           then bindM (RecordFindingBestEffort E (MakeFinding kFinalBlobSizeMismatchFindingType blob
                         (JObject ([(''source'', JString ''download_preflight''),
                                    (''expected_size'', JUInt expected_size),
                                    (''observed_size'', JUInt n)] @ correlation))))
                  (\<lambda>_. FileReadFailure)
           else okR ())"

definition RecordOpenFailure ::
  "'w client \<Rightarrow> (string \<times> json) list \<Rightarrow> BlobDescriptor \<Rightarrow> Code \<Rightarrow> nat \<Rightarrow> nat \<Rightarrow> ('w, unit) M" where
  "RecordOpenFailure E correlation blob error_code range_start expected_bytes =
     RecordFindingBestEffort E (MakeFinding
       (if error_code = FileNotFound then kMissingFinalBlobFindingType else kFinalBlobReadInterruptedFindingType) blob
       (JObject ([(''source'', JString ''download_open''), (''range_start'', JUInt range_start),
                  (''expected_bytes'', JUInt expected_bytes)] @ correlation)))"

text \<open>The task the stream callback schedules when a read comes back empty.\<close>

definition RecordStreamInterruption ::
  "'w client \<Rightarrow> (string \<times> json) list \<Rightarrow> BlobDescriptor \<Rightarrow> nat \<Rightarrow> nat \<Rightarrow> nat \<Rightarrow> ('w, unit) M" where
  "RecordStreamInterruption E correlation blob range_start expected_bytes delivered_bytes =
     RecordFindingBestEffort E (MakeFinding kFinalBlobReadInterruptedFindingType blob
       (JObject ([(''source'', JString ''download_stream''), (''range_start'', JUInt range_start),
                  (''expected_bytes'', JUInt expected_bytes), (''delivered_bytes'', JUInt delivered_bytes)] @ correlation)))"

section \<open>Opening a local blob\<close>

text \<open>\<open>fs\<close> is the content of the readable files.  Seeking past the end does not fail.\<close>

definition Local_OpenBlobRangeForRead ::
  "(string \<Rightarrow> string option) \<Rightarrow> BlobDescriptor \<Rightarrow> nat \<Rightarrow> nat \<Rightarrow> LocalFileReadStream Result" where
  "Local_OpenBlobRangeForRead fs blob start len =
     (if bd_storage_path blob = [] then Inl (ErrorInfo2 FileReadError ''Blob storage path is empty'')
      else if start > 2 ^ 63 - 1 then Inl (ErrorInfo2 ValidationFailed ''Invalid request range'')
      else
        (case fs (bd_storage_path blob) of
           None \<Rightarrow> Inl (ErrorInfo2 FileReadError ''Failed to open file for reading'')
         | Some bytes \<Rightarrow>
             Inr \<lparr>ls_stream = \<lparr>is_rest = drop start bytes, is_failed = False\<rparr>, ls_open = True, ls_remaining = len\<rparr>))"

section \<open>The response\<close>

record DownloadParams =
  dp_blob :: BlobDescriptor
  dp_filename :: string
  dp_file_size :: "64 word"
  dp_mime_type :: string
  dp_file_hash :: string
  dp_range_header :: string

text \<open>
  The kinds of response: the JSON answer to a range that cannot be satisfied (with its
  Content-Range header), an error, a local file handed to the server (with the offset and
  length of a partial answer), and a stream.
\<close>

datatype 's download_response =
    RangeNotSatisfiable string json
  | ErrorResponse ErrorInfo
  | FileResponse string "(nat \<times> nat) option" string "(string \<times> string) list"
  | StreamResponse "'s DownloadStreamState" nat string "(string \<times> string) list"

definition SENDFILE_THRESHOLD_BYTES :: nat where
  "SENDFILE_THRESHOLD_BYTES = 256 * 1024"

definition quoted :: "string \<Rightarrow> string" where
  "quoted s = [CHR 0x22] @ s @ [CHR 0x22]"

definition content_headers :: "DownloadParams \<Rightarrow> (string \<times> string) list" where
  "content_headers params =
     [(''Accept-Ranges'', ''bytes''), (''Content-Disposition'', ''attachment; filename='' @ quoted (dp_filename params))] @
     (if dp_file_hash params = [] then [] else [(''ETag'', quoted (dp_file_hash params))])"

definition not_satisfiable :: "DownloadParams \<Rightarrow> 's download_response" where
  "not_satisfiable params =
     RangeNotSatisfiable (''bytes */'' @ decimal (unat (dp_file_size params)))
       (JObject [(''code'', JInt 10002), (''message'', JString ''Invalid request range''),
          (''data'', JObject [(''file_size'', JUInt (unat (dp_file_size params))),
             (''requested_range'', JString (dp_range_header params)),
             (''reason'', JString ''Requested start position exceeds file size'')])])"

definition stream_response ::
  "DownloadParams \<Rightarrow> RangeRequest \<Rightarrow> 64 word \<Rightarrow> 64 word \<Rightarrow> nat \<Rightarrow> 's \<Rightarrow> 's download_response" where
  "stream_response params range_request start end_pos content_length stream =
     StreamResponse (start_stream stream content_length)
       (if has_range range_request then 206 else 200) (dp_mime_type params)
       ((if has_range range_request
         then [(''Content-Range'', ''bytes '' @ decimal (unat start) @ ''-'' @ decimal (unat end_pos) @ ''/'' @
                 decimal (unat (dp_file_size params)))]
         else []) @
        [(''Content-Length'', decimal content_length)] @ content_headers params)"

definition open_stream ::
  "'w client \<Rightarrow> ('w, 's) download_store \<Rightarrow> (string \<times> json) list \<Rightarrow> DownloadParams \<Rightarrow> RangeRequest \<Rightarrow>
   64 word \<Rightarrow> 64 word \<Rightarrow> nat \<Rightarrow> ('w, 's download_response) M" where
  "open_stream E D correlation params range_request start end_pos content_length =
     bindM (callStore E (OpenBlobRangeForRead D (dp_blob params) (unat start) content_length)) (\<lambda>open_result.
       case open_result of
         Inl err \<Rightarrow>
           bindM (RecordOpenFailure E correlation (dp_blob params) (err_code err) (unat start) content_length)
             (\<lambda>_. retM (ErrorResponse (ErrorInfo1 FileReadError)))
       | Inr stream \<Rightarrow> retM (stream_response params range_request start end_pos content_length stream))"

definition BuildDownloadResponse ::
  "'w client \<Rightarrow> ('w, 's) download_store option \<Rightarrow> (string \<times> json) list \<Rightarrow> DownloadParams \<Rightarrow>
   ('w, 's download_response) M" where
  "BuildDownloadResponse E blob_store correlation params =
     (let range_request = Parse (dp_range_header params) (dp_file_size params) in
      if has_range range_request \<and> \<not> satisfiable range_request then retM (not_satisfiable params)
      else
        let start = (if has_range range_request then rr_start range_request else 0);
            end_pos = (if has_range range_request then rr_end range_request else dp_file_size params - 1);
            content_length = unat (end_pos - start + 1)
        in (case blob_store of
              None \<Rightarrow> retM (ErrorResponse (ErrorInfo1 FileReadError))
            | Some D \<Rightarrow>
                bindM (Preflight E D correlation (dp_blob params) (unat (dp_file_size params))) (\<lambda>preflight_result.
                  case preflight_result of
                    Inl err \<Rightarrow> retM (ErrorResponse err)
                  | Inr _ \<Rightarrow>
                      (case (if content_length \<ge> SENDFILE_THRESHOLD_BYTES
                             then GetLocalBlobPathForDownload D (dp_blob params) else None) of
                         Some path \<Rightarrow>
                           retM (FileResponse path
                                   (if has_range range_request then Some (unat start, content_length) else None)
                                   (dp_mime_type params) (content_headers params))
                       | None \<Rightarrow> open_stream E D correlation params range_request start end_pos content_length))))"

end
