(* ===== verification/Download_Properties.thy ===== *)
theory Download_Properties
  imports Download_Service Sample_State
begin

text \<open>
  What downloads promise: the range header is understood, answered ranges lie in the file,
  the bytes asked for are the bytes delivered, and a blob that ends early is reported.
\<close>

lemma callStore_result: "callStore E f s = (r, s') \<Longrightarrow> \<exists>w. r = Inr (fst (f w))"
  by (auto simp: callStore_def Let_def split: prod.splits intro!: exI [of _ "store (other E (pc s) (sdb s))"])

text \<open>How a stream response comes about: a satisfiable request, and the store opened that range.\<close>

lemma BuildDownloadResponse_stream:
  assumes "BuildDownloadResponse E (Some D) c params s = (Inr (StreamResponse st status mime hs), s')"
    and "r = Parse (dp_range_header params) (dp_file_size params)"
    and "frm = (if has_range r then rr_start r else 0)"
    and "end_pos = (if has_range r then rr_end r else dp_file_size params - 1)"
  shows "(has_range r \<longrightarrow> satisfiable r) \<and> status = (if has_range r then 206 else 200) \<and>
    (\<exists>stream w. fst (OpenBlobRangeForRead D (dp_blob params) (unat frm) (unat (end_pos - frm + 1)) w) = Inr stream \<and>
      st = start_stream stream (unat (end_pos - frm + 1)))"
proof -
  let ?n = "unat (end_pos - frm + 1)"
  from assms obtain s1 where sat: "has_range r \<longrightarrow> satisfiable r"
    and run: "open_stream E D c params r frm end_pos ?n s1 = (Inr (StreamResponse st status mime hs), s')"
    by (auto simp: BuildDownloadResponse_def Let_def not_satisfiable_def retM_def bindM_def
        split: if_splits option.splits sum.splits prod.splits)
  obtain res s2 where op: "callStore E (OpenBlobRangeForRead D (dp_blob params) (unat frm) ?n) s1 = (res, s2)"
    by (cases "callStore E (OpenBlobRangeForRead D (dp_blob params) (unat frm) ?n) s1") simp
  from callStore_result [OF this] obtain w where
    w: "res = Inr (fst (OpenBlobRangeForRead D (dp_blob params) (unat frm) ?n w))" by blast
  show ?thesis
  proof (cases "fst (OpenBlobRangeForRead D (dp_blob params) (unat frm) ?n w)")
    case (Inl e)
    with run op w show ?thesis
      by (auto simp: open_stream_def bindM_def retM_def split: prod.splits sum.splits)
  next
    case (Inr stream)
    with run op w have "st = start_stream stream ?n \<and> status = (if has_range r then 206 else 200)"
      by (auto simp: open_stream_def bindM_def retM_def stream_response_def)
    with sat Inr show ?thesis by blast
  qed
qed

lemma requested_range_in_file:
  assumes "has_range (Parse h n) \<longrightarrow> satisfiable (Parse h n)" and "0 < n" and "r = Parse h n"
    and "frm = (if has_range r then rr_start r else 0)" and "end_pos = (if has_range r then rr_end r else n - 1)"
  shows "frm \<le> end_pos \<and> end_pos < n"
  using assms Parse_in_file [of h n] minus_one_less [OF assms(2)] by (auto split: if_splits)

lemma local_open_content:
  assumes "Local_OpenBlobRangeForRead fs blob frm len = Inr stream" and "fs (bd_storage_path blob) = Some bytes"
  shows "local_content stream = take len (drop frm bytes)"
  using assms by (auto simp: Local_OpenBlobRangeForRead_def local_content_def split: if_splits)

text \<open>The first byte and the number of bytes a request asks for.\<close>

definition requested_first :: "DownloadParams \<Rightarrow> 64 word" where
  "requested_first params =
     (let r = Parse (dp_range_header params) (dp_file_size params) in if has_range r then rr_start r else 0)"

definition requested_last :: "DownloadParams \<Rightarrow> 64 word" where
  "requested_last params =
     (let r = Parse (dp_range_header params) (dp_file_size params) in
      if has_range r then rr_end r else dp_file_size params - 1)"

definition requested_count :: "DownloadParams \<Rightarrow> nat" where
  "requested_count params = unat (requested_last params) - unat (requested_first params) + 1"

definition serves_files :: "(string \<Rightarrow> string option) \<Rightarrow> ('w, LocalFileReadStream) download_store \<Rightarrow> bool" where
  "serves_files fs D \<longleftrightarrow>
     (\<forall>blob start len w. fst (OpenBlobRangeForRead D blob start len w) = Local_OpenBlobRangeForRead fs blob start len)"

lemma stream_of_local_file:
  assumes "BuildDownloadResponse E (Some D) c params s = (Inr (StreamResponse st status mime hs), s')"
    and "serves_files fs D" and "fs (bd_storage_path (dp_blob params)) = Some bytes" and "0 < dp_file_size params"
  obtains stream where "st = start_stream stream (requested_count params)"
    and "local_content stream = take (requested_count params) (drop (unat (requested_first params)) bytes)"
proof -
  let ?r = "Parse (dp_range_header params) (dp_file_size params)"
  let ?a = "requested_first params" and ?e = "requested_last params"
  have a: "?a = (if has_range ?r then rr_start ?r else 0)" by (simp add: requested_first_def Let_def)
  have e: "?e = (if has_range ?r then rr_end ?r else dp_file_size params - 1)" by (simp add: requested_last_def Let_def)
  from BuildDownloadResponse_stream [OF assms(1) refl a e] assms(2) obtain stream where
    sat: "has_range ?r \<longrightarrow> satisfiable ?r"
    and op: "Local_OpenBlobRangeForRead fs (dp_blob params) (unat ?a) (unat (?e - ?a + 1)) = Inr stream"
    and st: "st = start_stream stream (unat (?e - ?a + 1))"
    by (auto simp: serves_files_def)
  have "unat (?e - ?a + 1) = requested_count params"
    unfolding requested_count_def
    using requested_range_in_file [OF sat assms(4) refl a e] content_length_fits by blast
  with st local_open_content [OF op assms(3)] show thesis by (intro that) auto
qed

lemma start_stream_simps [simp]:
  "ds_stream (start_stream s n) = s" "ds_remaining (start_stream s n) = n" "ds_delivered (start_stream s n) = 0"
  "\<not> ds_interruption_recorded (start_stream s n)" "ds_reports (start_stream s n) = []"
  by (simp_all add: start_stream_def)

section \<open>Ranges\<close>

text \<open>
  C20: A printed range header is understood: \<^verbatim>\<open>bytes=a-b\<close> is answered from \<open>a\<close> to \<open>b\<close> or the
  end of the file, and \<^verbatim>\<open>bytes=-k\<close> by the last \<open>k\<close> bytes.
\<close>

theorem range_header_round_trip:
  assumes "a \<le> b" and "b < 2 ^ 64" and "a < n" and "n < 2 ^ 64" and "0 < k" and "k \<le> n"
  shows "Parse (''bytes='' @ decimal a @ ''-'' @ decimal b) (of_nat n) = answer_range n a (min b (n - 1)) \<and>
    Parse (''bytes='' @ ''-'' @ decimal k) (of_nat n) = answer_range n (n - k) (n - 1)"
  using Parse_range [OF assms(1-4)] Parse_suffix [OF assms(5,6,4)] by blast

theorem range_header_round_trip_witness:
  "Parse ''bytes=2-9'' 5 = answer_range 5 2 4 \<and> Parse ''bytes=-3'' 5 = answer_range 5 2 4"
proof -
  have "decimal 2 = ''2''" "decimal 9 = ''9''" "decimal 3 = ''3''" by code_simp+
  then show ?thesis using range_header_round_trip [of 2 9 5 3] by simp
qed

text \<open>
  A range that is answered lies in the file: for a file that is not empty the first
  position is at most the last, the last is a position of the file, and the content length
  computed from them in 64-bit arithmetic is their distance, without wrap-around.
\<close>

theorem answered_range_lies_in_file:
  assumes "has_range (Parse h n)" and "satisfiable (Parse h n)" and "0 < n"
  shows "rr_start (Parse h n) \<le> rr_end (Parse h n) \<and> rr_end (Parse h n) < n \<and>
    unat (rr_end (Parse h n) - rr_start (Parse h n) + 1) = unat (rr_end (Parse h n)) - unat (rr_start (Parse h n)) + 1"
  using Parse_in_file [OF assms] content_length_fits by blast

theorem answered_range_lies_in_file_witness: "rr_end (Parse ''bytes=2-9'' 5) < 5"
proof -
  have "decimal 2 = ''2''" "decimal 9 = ''9''" by code_simp+
  then have "Parse ''bytes=2-9'' 5 = answer_range 5 2 4" using Parse_range [of 2 9 5] by simp
  then have "has_range (Parse ''bytes=2-9'' 5)" "satisfiable (Parse ''bytes=2-9'' 5)" by (simp_all add: answer_range_def)
  from answered_range_lies_in_file [OF this] show ?thesis by simp
qed

text \<open>
  On an empty file a suffix range counts as satisfiable, with a last position of 2^64 - 1.
\<close>

theorem empty_file_suffix_wraps:
  "satisfiable (Parse ''bytes=-1'' 0) \<and> rr_end (Parse ''bytes=-1'' 0) = - 1"
proof -
  have "decimal 1 = ''1''" by code_simp
  then have "stoull ''1'' = Some (1, 1)" using stoull_decimal [of 1 "[]"] by simp
  then have "parse_bounds [] ''1'' \<lparr>has_range = True, rr_start = 0, rr_end = 0, satisfiable = True, rr_file_size = 0\<rparr> =
      Some \<lparr>has_range = True, rr_start = 0, rr_end = - 1, satisfiable = True, rr_file_size = 0\<rparr>"
    by (simp add: parse_bounds_def parse_suffix_def Let_def)
  from Parse_SomeI [OF split_dash_Nil _ _ this] show ?thesis by simp
qed

section \<open>Deliveries\<close>

text \<open>
  C19: A streamed download of a local file delivers the bytes asked for: however the server
  sizes its buffers, enough pulls yield exactly the requested part of the file, as far as the
  file has it; when the file is too short, this is reported once, with the number of bytes
  delivered, and otherwise nothing is reported.
\<close>

theorem download_delivers_requested_bytes:
  assumes "BuildDownloadResponse E (Some D) c params s = (Inr (StreamResponse st status mime hs), s')"
    and "serves_files fs D" and "fs (bd_storage_path (dp_blob params)) = Some bytes" and "0 < dp_file_size params"
    and "list_all (\<lambda>n. 0 < n) ns" and "requested_count params < length ns"
  shows "fst (pull_all Local_Read Local_Close ns st) =
      take (requested_count params) (drop (unat (requested_first params)) bytes) \<and>
    ds_reports (snd (pull_all Local_Read Local_Close ns st)) =
      (if length bytes < unat (requested_first params) + requested_count params
       then [length bytes - unat (requested_first params)] else [])"
proof -
  from assms(1-4) obtain stream where st: "st = start_stream stream (requested_count params)"
    and content: "local_content stream = take (requested_count params) (drop (unat (requested_first params)) bytes)"
    by (rule stream_of_local_file)
  obtain out st' where pull: "pull_all Local_Read Local_Close ns st = (out, st')"
    by (cases "pull_all Local_Read Local_Close ns st") simp
  have "min (ds_remaining st) (length (local_content (ds_stream st))) < length ns" using st assms(6) by simp
  from local.pull_all_delivers [OF assms(5) this pull] st content
  have "out = take (requested_count params) (drop (unat (requested_first params)) bytes)"
    "ds_reports st' = (if length out < requested_count params then [length out] else [])" by simp_all
  moreover have "0 < requested_count params" by (simp add: requested_count_def)
  ultimately show ?thesis using pull by (auto simp: min_def)
qed

definition sample_download_store :: "(unit, LocalFileReadStream) download_store" where
  "sample_download_store =
     \<lparr>GetBlobSize = (\<lambda>_ w. (Inr 5, w)), GetLocalBlobPathForDownload = (\<lambda>_. None),
      OpenBlobRangeForRead = (\<lambda>blob start len w. (Local_OpenBlobRangeForRead (\<lambda>_. Some ''hello'') blob start len, w))\<rparr>"

definition sample_download :: DownloadParams where
  "sample_download =
     \<lparr>dp_blob = \<lparr>bd_content_id = 1, bd_hash_md5 = '''', bd_storage_path = ''p'', bd_size = 5\<rparr>, dp_filename = ''a'',
      dp_file_size = 5, dp_mime_type = ''text/plain'', dp_file_hash = '''', dp_range_header = ''bytes=2-9''\<rparr>"

theorem download_delivers_requested_bytes_witness:
  "\<exists>st status mime hs s'.
     BuildDownloadResponse quiet (Some sample_download_store) [] sample_download (start sample_db) =
       (Inr (StreamResponse st status mime hs), s') \<and>
     fst (pull_all Local_Read Local_Close [1, 2, 3, 4] st) = ''llo''"
proof -
  have "decimal 2 = ''2''" "decimal 9 = ''9''" by code_simp+
  then have P: "Parse ''bytes=2-9'' 5 = answer_range 5 2 4" using Parse_range [of 2 9 5] by simp
  obtain st status mime hs s' where run:
    "BuildDownloadResponse quiet (Some sample_download_store) [] sample_download (start sample_db) =
       (Inr (StreamResponse st status mime hs), s')"
    by (simp add: BuildDownloadResponse_def sample_download_def P Let_def Preflight_def sample_download_store_def
        monad_defs callStore_def quiet_def answer_range_def SENDFILE_THRESHOLD_BYTES_def open_stream_def stream_response_def
        Local_OpenBlobRangeForRead_def)
  have "serves_files (\<lambda>_. Some ''hello'') sample_download_store" by (simp add: serves_files_def sample_download_store_def)
  moreover have "requested_count sample_download = 3" "requested_first sample_download = 2"
    by (simp_all add: requested_count_def requested_first_def requested_last_def sample_download_def P answer_range_def)
  ultimately have "fst (pull_all Local_Read Local_Close [1, 2, 3, 4] st) = ''llo''"
    using download_delivers_requested_bytes [OF run, of "\<lambda>_. Some ''hello''" "''hello''" "[1, 2, 3, 4]"]
    by (simp add: sample_download_def)
  with run show ?thesis by blast
qed

end
