(* ===== verification/Assembly_Limiter.thy ===== *)
theory Assembly_Limiter
  imports Disk_Prelude
begin

text \<open>
  The in-process limit on concurrent assemblies
  (src/src/storage/AssemblyConcurrencyLimiter.hpp).  A guard object holds a slot or is empty;
  the objects are numbered in the order of their construction, a destroyed one is \<open>None\<close>.
\<close>

definition DEFAULT_MAX_CONCURRENT :: nat where
  "DEFAULT_MAX_CONCURRENT = 4"

record limiter =
  m_max_concurrent :: nat
  m_running :: nat
  guards :: "bool option list"

definition new_limiter :: "nat \<Rightarrow> limiter" where
  "new_limiter configured_max =
     \<lparr>m_max_concurrent = (if configured_max = 0 then DEFAULT_MAX_CONCURRENT else configured_max),
      m_running = 0, guards = []\<rparr>"

definition Release :: "limiter \<Rightarrow> limiter" where
  "Release l = (if m_running l > 0 then l\<lparr>m_running := m_running l - 1\<rparr> else l)"

text \<open>\<^verbatim>\<open>TryAcquire\<close>: the number of the new guard, or \<open>None\<close> when no slot is free.\<close>

definition TryAcquire :: "limiter \<Rightarrow> nat option \<times> limiter" where
  "TryAcquire l =
     (if m_running l \<ge> m_max_concurrent l then (None, l)
      else (Some (length (guards l)), l\<lparr>m_running := m_running l + 1, guards := guards l @ [Some True]\<rparr>))"

definition holds_slot :: "limiter \<Rightarrow> nat \<Rightarrow> bool" where
  "holds_slot l g \<longleftrightarrow> g < length (guards l) \<and> guards l ! g = Some True"

definition alive :: "limiter \<Rightarrow> nat \<Rightarrow> bool" where
  "alive l g \<longleftrightarrow> g < length (guards l) \<and> guards l ! g \<noteq> None"

definition Reset :: "nat \<Rightarrow> limiter \<Rightarrow> limiter" where
  "Reset g l =
     (if holds_slot l g then let l = Release l in l\<lparr>guards := (guards l)[g := Some False]\<rparr> else l)"

text \<open>
  What can happen to guards: construction by \<^verbatim>\<open>TryAcquire\<close>, a default constructed guard, move
  construction, move assignment and destruction.  Only living objects are used.
\<close>

datatype guard_event = Acquire | Fresh | MoveConstruct nat | MoveAssign nat nat | Destroy nat

fun guard_step :: "guard_event \<Rightarrow> limiter \<Rightarrow> limiter" where
  "guard_step Acquire l = snd (TryAcquire l)"
| "guard_step Fresh l = l\<lparr>guards := guards l @ [Some False]\<rparr>"
| "guard_step (MoveConstruct g) l =
     (if alive l g then l\<lparr>guards := (guards l)[g := Some False] @ [guards l ! g]\<rparr> else l)"
| "guard_step (MoveAssign g h) l =
     (if \<not> alive l g \<or> \<not> alive l h \<or> g = h then l
      else let l = Reset g l in l\<lparr>guards := (guards l)[g := guards l ! h, h := Some False]\<rparr>)"
| "guard_step (Destroy g) l =
     (if alive l g then let l = Reset g l in l\<lparr>guards := (guards l)[g := None]\<rparr> else l)"

definition run_guards :: "guard_event list \<Rightarrow> limiter \<Rightarrow> limiter" where
  "run_guards es l = fold guard_step es l"

section \<open>Slots and guards\<close>

definition live_guards :: "limiter \<Rightarrow> nat" where
  "live_guards l = count_list (guards l) (Some True)"

definition limiter_inv :: "limiter \<Rightarrow> bool" where
  "limiter_inv l \<longleftrightarrow> m_running l = live_guards l \<and> m_running l \<le> m_max_concurrent l \<and> 0 < m_max_concurrent l"

lemma count_list_update:
  "i < length xs \<Longrightarrow>
   count_list (xs[i := y]) x + (if xs ! i = x then 1 else 0) = count_list xs x + (if y = x then 1 else 0)"
proof (induction xs arbitrary: i)
  case (Cons z xs)
  show ?case
  proof (cases i)
    case (Suc j)
    with Cons.IH [of j] Cons.prems show ?thesis by (auto split: if_splits)
  qed simp
qed simp

lemma limiter_inv_new: "limiter_inv (new_limiter n)"
  by (simp add: limiter_inv_def new_limiter_def live_guards_def DEFAULT_MAX_CONCURRENT_def)

lemma Reset_inv:
  assumes "limiter_inv l"
  shows "limiter_inv (Reset g l)" and "\<not> holds_slot (Reset g l) g" and "alive (Reset g l) h = alive l h"
    and "h \<noteq> g \<Longrightarrow> guards (Reset g l) ! h = guards l ! h"
  using assms count_list_update [of g "guards l" "Some False" "Some True"]
  by (auto simp: Reset_def limiter_inv_def live_guards_def holds_slot_def alive_def Release_def Let_def nth_list_update)

lemma guards_update_inv:
  assumes "limiter_inv l" and "\<not> holds_slot l g" and "x \<noteq> Some True"
  shows "limiter_inv (l\<lparr>guards := (guards l)[g := x]\<rparr>)"
  using assms count_list_update [of g "guards l" x "Some True"]
  by (cases "g < length (guards l)") (auto simp: limiter_inv_def live_guards_def holds_slot_def list_update_beyond)

lemma guard_step_max [simp]: "m_max_concurrent (guard_step e l) = m_max_concurrent l"
  by (cases e) (simp_all add: TryAcquire_def Reset_def Release_def Let_def)

lemma move_assign_inv:
  assumes "limiter_inv l" and "alive l g" and "alive l h" and "g \<noteq> h" and "\<not> holds_slot l g"
  shows "limiter_inv (l\<lparr>guards := (guards l)[g := guards l ! h, h := Some False]\<rparr>)"
  using assms count_list_update [of g "guards l" "guards l ! h" "Some True"]
    count_list_update [of h "(guards l)[g := guards l ! h]" "Some False" "Some True"]
  by (auto simp: limiter_inv_def live_guards_def alive_def holds_slot_def split: if_splits)

lemma guard_step_inv:
  assumes "limiter_inv l"
  shows "limiter_inv (guard_step e l)"
proof (cases e)
  case Acquire
  with assms show ?thesis by (auto simp: TryAcquire_def limiter_inv_def live_guards_def)
next
  case Fresh
  with assms show ?thesis by (simp add: limiter_inv_def live_guards_def)
next
  case (MoveConstruct g)
  with assms count_list_update [of g "guards l" "Some False" "Some True"] show ?thesis
    by (auto simp: limiter_inv_def live_guards_def alive_def)
next
  case (MoveAssign g h)
  with assms Reset_inv [OF assms, of g] show ?thesis
    by (auto simp: Let_def intro!: move_assign_inv)
next
  case (Destroy g)
  with assms Reset_inv [OF assms, of g] show ?thesis
    by (auto simp: Let_def intro!: guards_update_inv)
qed

lemma run_guards_inv: "limiter_inv l \<Longrightarrow> limiter_inv (run_guards es l)"
  unfolding run_guards_def by (induction es arbitrary: l) (simp_all add: guard_step_inv)

lemma run_guards_max [simp]: "m_max_concurrent (run_guards es l) = m_max_concurrent l"
  unfolding run_guards_def by (induction es arbitrary: l) simp_all

lemma TryAcquire_iff: "limiter_inv l \<Longrightarrow> fst (TryAcquire l) \<noteq> None \<longleftrightarrow> live_guards l < m_max_concurrent l"
  by (auto simp: TryAcquire_def limiter_inv_def)

end
