(* ===== verification/Boundary_Properties.thy ===== *)
theory Boundary_Properties
  imports Request_Validation Batch_Utils Assembly_Limiter
begin

text \<open>
  What the edges of the service promise: names are text, requests are validated, batches
  cover their input, and the number of concurrent assemblies is bounded.
\<close>

section \<open>Requests\<close>

text \<open>
  C21: A name passes the character check exactly when it is UTF-8 text of characters that are
  no control characters: the decoder of the source accepts the concatenations of encodings of
  such scalar values and nothing else (no overlong forms, surrogates, stray continuation
  bytes or truncated sequences).
\<close>

theorem name_check_accepts_utf8_text: "IsValidUtf8WithoutControlChars s \<longleftrightarrow> is_utf8_text s"
  by (simp add: IsValidUtf8WithoutControlChars_def utf8_from_iff)

text \<open>
  A JSON number that denotes an unsigned 64-bit number: an unsigned or signed integer, or a
  double with that very value.
\<close>

definition json_number :: "json \<Rightarrow> nat \<Rightarrow> bool" where
  "json_number k n \<longleftrightarrow>
     k = JUInt n \<and> n < 2 ^ 64 \<or> k = JInt (int n) \<and> n < 2 ^ 63 \<or>
     (\<exists>m e t. k = JReal m e t \<and> m * 2 ^ nat e = int n * 2 ^ nat (- e) \<and> n < 2 ^ 64)"

lemma isMember_ok_iff: "isMember j key = Inr (Inr True) \<longleftrightarrow> (\<exists>fs v. j = JObject fs \<and> map_of fs key = Some v)"
  by (cases j) (auto simp: okP_def)

lemma isMember_no_iff: "isMember j key = Inr (Inr False) \<longleftrightarrow> j = JNull \<or> (\<exists>fs. j = JObject fs \<and> map_of fs key = None)"
  by (cases j) (auto simp: okP_def)

lemma RequireString_ok_iff:
  "RequireString j key = Inr (Inr s) \<longleftrightarrow> (\<exists>fs. j = JObject fs \<and> map_of fs key = Some (JString s))"
proof
  assume "RequireString j key = Inr (Inr s)"
  then have "isMember j key = Inr (Inr True)" "isString (member j key)" "asString (member j key) = s"
    by (auto simp: RequireString_def bindP_ok_iff failP_def okP_def split: if_splits)
  then show "\<exists>fs. j = JObject fs \<and> map_of fs key = Some (JString s)"
    by (auto simp: isMember_ok_iff elim: isString.elims)
qed (auto simp: RequireString_def okP_def)

lemma real_unsigned_iff:
  "isIntegral (JReal m e t) \<and> \<not> isNegative (JReal m e t) \<and> readUInt64 (JReal m e t) = Inr (Inr n) \<longleftrightarrow>
   m * 2 ^ nat e = int n * 2 ^ nat (- e) \<and> n < 2 ^ 64"
proof -
  have range: "real_numer m e \<le> (2 ^ 64 - 1) * real_denom e \<longleftrightarrow> real_floor m e < 2 ^ 64" if "real_whole m e"
  proof -
    from that have "real_numer m e = real_floor m e * real_denom e"
      by (simp add: real_whole_def real_floor_def)
    then have "real_numer m e \<le> (2 ^ 64 - 1) * real_denom e \<longleftrightarrow> real_floor m e \<le> 2 ^ 64 - 1"
      by (simp only: mult_le_cancel_right_pos [OF real_denom_pos])
    then show ?thesis by linarith
  qed
  have "m * 2 ^ nat e = int n * 2 ^ nat (- e) \<longleftrightarrow> real_whole m e \<and> real_floor m e = int n"
    using real_value_iff [of m e "int n"] by simp
  then show ?thesis
    using real_floor_sign [of m e] by (cases "real_whole m e") (auto simp: isNegative_def okP_def dest: range)
qed

lemma unsigned_ok_iff:
  "isIntegral v \<and> \<not> isNegative v \<and> readUInt64 v = Inr (Inr n) \<longleftrightarrow> json_number v n"
proof (cases v)
  case (JReal m e t)
  then show ?thesis by (simp only: real_unsigned_iff) (auto simp: json_number_def)
qed (auto simp: json_number_def isNegative_def okP_def)

lemma RequireUInt64_ok_iff:
  "RequireUInt64 j key = Inr (Inr n) \<longleftrightarrow> (\<exists>fs v. j = JObject fs \<and> map_of fs key = Some v \<and> json_number v n)"
proof
  assume "RequireUInt64 j key = Inr (Inr n)"
  then have "isMember j key = Inr (Inr True)" "json_number (member j key) n"
    by (auto simp: RequireUInt64_def bindP_ok_iff failP_def okP_def simp flip: unsigned_ok_iff split: if_splits)
  then show "\<exists>fs v. j = JObject fs \<and> map_of fs key = Some v \<and> json_number v n"
    by (auto simp: isMember_ok_iff)
qed (auto simp: RequireUInt64_def okP_def simp flip: unsigned_ok_iff)

definition optional_number :: "(string \<times> json) list \<Rightarrow> string \<Rightarrow> nat option \<Rightarrow> bool" where
  "optional_number fs key p \<longleftrightarrow>
     (case p of None \<Rightarrow> map_of fs key = None | Some n \<Rightarrow> \<exists>v. map_of fs key = Some v \<and> json_number v n)"

lemma OptionalUInt64_ok_iff:
  "OptionalUInt64 (JObject fs) key = Inr (Inr p) \<longleftrightarrow> optional_number fs key p"
proof (cases "map_of fs key")
  case None
  then show ?thesis by (auto simp: OptionalUInt64_def okP_def optional_number_def split: option.splits)
next
  case (Some v)
  then show ?thesis
    by (auto simp: OptionalUInt64_def okP_def failP_def bindP_ok_iff optional_number_def simp flip: unsigned_ok_iff
        split: option.splits)
qed

text \<open>
  C22: Exactly the well-formed upload requests are accepted: the body is an object with the
  announced name, size, hash and possibly parent folder, the name is text of at most 255
  bytes without forbidden characters that does not start with a dot, the size is positive and
  the hash has 32 lower case hexadecimal digits.  Numbers are unsigned 64-bit numbers, given
  as integers or as doubles of that very value (6.0, 1e3).
\<close>

theorem accepted_upload_requests:
  "InitUploadRequest_FromRequest body = Inr (Inr r) \<longleftrightarrow>
   (\<exists>fs v p. body = Some (JObject fs) \<and>
      map_of fs ''filename'' = Some (JString (ir_filename r)) \<and>
      map_of fs ''file_size'' = Some v \<and> json_number v (ir_file_size r) \<and>
      map_of fs ''file_hash'' = Some (JString (ir_file_hash r)) \<and>
      optional_number fs ''parent_id'' p \<and> ir_parent_id r = (case p of None \<Rightarrow> 0 | Some n \<Rightarrow> n) \<and>
      acceptable_name (ir_filename r) \<and> 0 < ir_file_size r \<and> ValidateFileHash (ir_file_hash r))"
proof (cases "\<exists>fs. body = Some (JObject fs)")
  case True
  then obtain fs where body: "body = Some (JObject fs)" by blast
  show ?thesis
    unfolding InitUploadRequest_FromRequest_def body RequireJsonBody_def
    by (cases r) (auto simp: okP_def bindP_ok_iff RequireString_ok_iff RequireUInt64_ok_iff OptionalUInt64_ok_iff
        ValidateFilename_ok_iff failP_def split: if_splits)
next
  case False
  then show ?thesis
    by (cases body) (auto simp: InitUploadRequest_FromRequest_def RequireJsonBody_def bindP_ok_iff RequireString_ok_iff
        okP_def failP_def)
qed

text \<open>What the double 6.0, the double 6.5 and numbers beyond 64 bits are taken for.\<close>

theorem doubles_as_numbers:
  "map (\<lambda>v. RequireUInt64 (JObject [(''n'', v)]) ''n'') [JReal 3 1 ''6.0'', JReal 13 (- 1) ''6.5'', JReal 1 64 ''1.8446744073709552e+19'', JUInt (2 ^ 64 - 1)]
   = [okP 6, failP ValidationFailed (param ''n'' '' type error: expected unsigned integer''),
      failP ValidationFailed (param ''n'' '' type error: expected unsigned integer''), okP (2 ^ 64 - 1)]"
  by (simp add: RequireUInt64_def okP_def isNegative_def real_whole_def real_floor_def real_numer_def real_denom_def)

text \<open>A negative identifier in a list escapes as an exception of the JSON library.\<close>

theorem negative_id_raises:
  "RequirePositiveIdArray (JObject [(''file_ids'', JArray [JInt (- 1)])]) ''file_ids'' 1 100 = Inl logic_error"
  by code_simp

section \<open>Batches\<close>

text \<open>
  Cutting into batches ends for every positive batch size (with positions that fit into
  64 bits) and loses nothing: the batches are the reference cut, concatenated they are the
  input, each has between one and the given number of items, and their number is the rounded
  up quotient.
\<close>

theorem batches_cover_input:
  assumes "0 < k" and "length items + k \<le> 2 ^ 64"
  shows "\<exists>bs. Chunk items k = Some bs \<and> bs = batches k items \<and> concat bs = items \<and>
    list_all (\<lambda>b. b \<noteq> [] \<and> length b \<le> k) bs \<and> length bs = (length items + k - 1) div k"
  using chunk_from_batches [OF assms, of 0] assms(1) concat_batches [of k items] length_batches [of k items]
    batches_sizes [of _ k items]
  by (auto simp: Chunk_def list_all_iff)

theorem batches_cover_input_witness:
  "Chunk [1, 2, 3, 4, 5, 6, 7, 8, 9, 10 :: nat] 3 = Some [[1, 2, 3], [4, 5, 6], [7, 8, 9], [10]]"
proof -
  have "batches 3 [1, 2, 3, 4, 5, 6, 7, 8, 9, 10 :: nat] = [[1, 2, 3], [4, 5, 6], [7, 8, 9], [10]]"
    by (simp add: batches.simps)
  with batches_cover_input [of 3 "[1, 2, 3, 4, 5, 6, 7, 8, 9, 10 :: nat]"] show ?thesis by simp
qed

text \<open>
  The list of identifiers that is spliced into an SQL statement reads back as the
  identifiers.
\<close>

theorem numeric_in_clause_round_trip:
  assumes "ids \<noteq> []"
  shows "map undecimal (split_commas (BuildSafeNumericInClause ids)) = ids"
  using assms by (rule numeric_in_clause_reads_back)

theorem numeric_in_clause_round_trip_witness:
  "map undecimal (split_commas (BuildSafeNumericInClause [7, 500])) = [7, 500]"
  using numeric_in_clause_round_trip [of "[7, 500]"] by simp

section \<open>Assemblies\<close>

text \<open>
  C23: Whatever happens to the guards (moves, assignments, destruction), the limiter counts
  the guards that hold a slot, never exceeds the configured maximum, and a request is refused
  only while that many guards are held: no slot is lost.
\<close>

theorem assembly_slots_are_accounted:
  "let l = run_guards es (new_limiter n) in
   m_running l = live_guards l \<and> live_guards l \<le> m_max_concurrent (new_limiter n) \<and>
   (fst (TryAcquire l) = None \<longleftrightarrow> live_guards l = m_max_concurrent (new_limiter n))"
  using run_guards_inv [OF limiter_inv_new, of es n] TryAcquire_iff [of "run_guards es (new_limiter n)"]
  by (auto simp: Let_def limiter_inv_def)

end
