(* ===== verification/Spec2Isabelle.thy ===== *)
theory Spec2Isabelle
  imports Upload_Properties Progress_Properties Queue_Properties Trash_Properties Worker_Properties
    Drive_Properties Download_Properties Boundary_Properties
begin

text \<open>
  A verification of the core of the disk server (src/src, C++ on drogon and PostgreSQL): chunked
  uploads with deduplicated contents, quotas, leases and a persistent job queue with its worker,
  folders and the moves, renames and copies of what they hold, the trash, the audits of the stored data, downloads, and the validation at the edge of the
  service.

  \<^bold>\<open>The program.\<close>  A request handler of \<^verbatim>\<open>UploadService\<close> runs operations of
  \<^verbatim>\<open>UploadLifecycleService\<close>; these execute SQL statements through the repositories
  (\<^verbatim>\<open>UploadTaskRepository\<close>, \<^verbatim>\<open>FolderRepository\<close>, \<^verbatim>\<open>StorageJobRepository\<close>) and the services
  \<^verbatim>\<open>QuotaService\<close> and \<^verbatim>\<open>ContentService\<close>, alone or inside a transaction of
  \<^verbatim>\<open>TransactionRunner\<close>, and call the staging and blob stores.  Several processes serve requests
  at the same time and share the database; each keeps a cache of upload tasks.
  \<^verbatim>\<open>FolderService\<close> and \<^verbatim>\<open>FileMutationService\<close> create, rename, move and copy files and folder
  trees, whose rows repeat the path from the root.
  \<^verbatim>\<open>TrashService\<close> moves files and folder trees to the trash with a JSON snapshot, restores them
  from it and deletes them for good, which releases quota and content references; contents
  nobody references are queued for collection.  \<^verbatim>\<open>StorageJobWorker\<close> claims jobs from the queue
  under leases and collects blobs, cleans staging areas, expires uploads and trash page by page
  and runs the audits of \<^verbatim>\<open>StorageReconciliationService\<close>, which record findings.  Downloads read
  a blob through a stream that the HTTP server pulls.

  \<^bold>\<open>State and effects.\<close>  Theory \<open>Database\<close> has the tables (src/sql/init.sql) as lists of
  records, the clocks, the task cache of a process and the object storage of which nothing is
  fixed (type variable \<open>'w\<close>).  An operation is a function of type \<open>('w, 'a) M\<close> on a session; a
  statement is a function on the tables.  A client \<open>E\<close> decides for every statement whether it
  fails (\<open>fault\<close>) and what other sessions do before it (\<open>other\<close>), so a theorem for all clients
  covers all failures and interleavings.  \<open>Run\<close> is the transaction runner: the body sees no
  other session, an error result or an exception restores the tables, a failed statement aborts
  the transaction, and a commit may fail.  Exceptions are the left side of a sum, error results
  (\<^verbatim>\<open>Result<T>\<close>) a sum below it.  Byte counts are natural numbers; the quota columns raise on
  BIGINT overflow; casts to 32 bits, the 64-bit chunk and range arithmetic and the UTF-8 decoder
  are written with machine words or explicit reductions.

  \<^bold>\<open>Theories.\<close>
  \<^item> \<open>Disk_Prelude\<close>: tables and guarded updates, sums over tables, decimal numbers.
  \<^item> \<open>Error_Code\<close>: src/src/utils/ErrorCode.hpp.  \<open>Database\<close>, \<open>Session_Logic\<close>: the state, the
    session monad, \<open>Run\<close> (TransactionRunner.hpp), and rules for what operations keep.
  \<^item> \<open>Upload_State_Machine\<close>, \<open>Quota_Service\<close>, \<open>Upload_Task_Repository\<close>, \<open>Folder_Repository\<close>,
    \<open>Content_Service\<close>, \<open>Storage_Job_Repository\<close>, \<open>Storage_Job_Contract\<close>, \<open>Reconciliation\<close>,
    \<open>Upload_Lifecycle\<close>, \<open>Upload_Service\<close>: the C++ files of the same names, one definition per
    method, statements and transaction bodies as definitions of their own.
  \<^item> \<open>Task_Evolution\<close>, \<open>Upload_Invariant\<close>, \<open>Upload_Transactions\<close>, \<open>Upload_Commit\<close>, \<open>Job_Queue\<close>:
    how rows may change, the invariant \<open>db_inv\<close> (quota sums, reference counts, one active upload
    per hash, chunks, jobs, cleanup) and its preservation by each transaction.
  \<^item> \<open>Upload_System\<close>, \<open>Upload_Handlers\<close>: the transition system \<open>commits\<close> of atomic actions and
    the refinement of every handler into it; \<open>cluster E\<close> says that the other sessions perform
    such actions.
  \<^item> \<open>Trash_Data\<close> (folder snapshots), \<open>Trash_Repository\<close> (TrashQuery.hpp, FileRepository.hpp, the
    delete plans of FolderRepository.hpp and FolderUtils.hpp), \<open>Trash_Service\<close>
    (TrashService.cpp): moving, restoring, purging and expiring; \<open>Trash_Move\<close>, \<open>Trash_Restore\<close>,
    \<open>Trash_Purge\<close>, \<open>Trash_Accounts\<close>: each of its transactions keeps the invariant;
    \<open>Trash_Handlers\<close>: its handlers are sequences of those transactions.
  \<^item> \<open>Folder_Service\<close> (FolderService.cpp, the other statements of FolderRepository.cpp and
    FileRepository.cpp, FolderDto.hpp), \<open>File_Mutation\<close> and \<open>File_Copy\<close> (FileMutationService.cpp,
    FileServiceUtils.cpp): folders and the mutations of the drive; \<open>Drive_Changes\<close>,
    \<open>Drive_Handlers\<close>: their transactions keep the invariant and their handlers are sequences of
    transactions; \<open>Folder_Forest\<close>: every atomic action of the system keeps the folders a forest;
    \<open>Folder_Traversal\<close>: the recursive queries on a forest; \<open>Folder_Paths\<close>, \<open>Move_Paths\<close>: paths and
    depths agree with the parents after renaming, creating and moving; \<open>Copy_Accounts\<close>,
    \<open>Copy_Settlement\<close>: the reserved bytes a copy holds and how its transactions spend them.
  \<^item> \<open>Reconciliation_Pages\<close> (StorageReconciliationService.cpp): the scans over contents, users,
    staging and final objects; \<open>Storage_Job_Worker\<close> (StorageJobWorker.cpp): the six handlers,
    the retry delay and the recording of outcomes; \<open>Blob_Collection\<close>: the collection transaction;
    \<open>Worker_Handlers\<close>, \<open>Worker_Results\<close>: what handlers keep and what their outcomes mean.
  \<^item> \<open>Service_Requests\<close>, \<open>Service_Handlers\<close>: the requests a deployment serves (uploads, folders,
    renames, moves, trash, CleanupService.hpp, runs of the worker) as a datatype with one function \<open>serve\<close>, and that
    each of them performs atomic actions only.
  \<^item> \<open>Upload_Results\<close>, \<open>Chunk_Geometry\<close>, \<open>Upload_Progress\<close>, \<open>Accounting\<close>, \<open>Queue_Results\<close>:
    what results mean, chunk arithmetic, the cache, quota bounds, the queue.
  \<^item> \<open>Number_Parsing\<close>, \<open>Range_Request\<close>, \<open>Download_Stream\<close>, \<open>Download_Service\<close>: the range header
    (FileDto.hpp), the read streams (LocalBlobStore.cpp, S3Client.cpp) behind the locale
    \<open>read_stream\<close>, the integrity findings (DownloadIntegrityService.cpp) and the response
    (DownloadResponder.cpp).
  \<^item> \<open>Name_Validation\<close>, \<open>Request_Validation\<close>, \<open>Batch_Utils\<close>, \<open>Assembly_Limiter\<close>: the UTF-8 check,
    the parsing of the upload request (DtoBase.hpp, FileDto.hpp), batching for SQL, and the
    limit on concurrent assemblies.
  \<^item> \<open>Sample_State\<close> and the \<open>_Properties\<close> theories: concrete states, the properties and their
    witnesses.

  \<^bold>\<open>What is shown.\<close>  \<open>Upload_Properties\<close>: handlers keep the invariant under all faults and
  interleavings and refine atomic actions; rows only evolve along the state machine; a
  superseded lease can neither write nor commit; completion happens at most once and is sound;
  cancellation is sound, idempotent and without effect when it fails.  \<open>Progress_Properties\<close>:
  a finalizing upload has all its chunks, acknowledged chunks are recorded, the cache agrees
  with the table, chunk lengths partition the file, quotas hold.  \<open>Queue_Properties\<close>: claims
  are oldest first and leases exclusive, failures retry until exhausted, enqueueing
  deduplicates, payloads survive the queue, unreferenced contents are queued and cannot be
  referenced again.  \<open>Trash_Properties\<close>: a move accounts for what it takes, a trashed file comes
  back, a purge releases exactly what its rows held, snapshots are parsed back, the loops of
  the trash end and the expiry run advances.  \<open>Drive_Properties\<close>: the folders stay a forest under
  all requests and interleavings, so the recursions over them end; the folder tree and the
  breadcrumb show what is there; renaming and moving keep the paths consistent and a move below
  itself is refused; a copy that succeeds has spent its reservation and one that fails leaves
  nothing but reserved bytes; observations show a stale target path, forgotten files and an
  orphaned reservation.  \<open>Worker_Properties\<close>: collecting blobs is safe,
  reported outcomes are in the table, the retry delay is bounded backoff, the quota audit is
  quiet on states of the invariant, and what the reference audit reports.  \<open>Download_Properties\<close>: ranges are understood and lie in the file, and
  the stream delivers the bytes asked for.  \<open>Boundary_Properties\<close>: the name check is UTF-8, the
  accepted upload requests are the well-formed ones, batches cover their input, assembly slots
  are accounted.

  \<^bold>\<open>Bounds and fuel.\<close>  The loops of the program are structural recursions or have a measure,
  except these.  The batching loop, which does not end for a batch size of zero, is a partial
  function whose termination for positive sizes is part of its property.  Locking the folders
  of a deletion repeats until the folder tree is stable: inside a transaction the second round
  finds nothing new, so two rounds are run.  Restoring a folder tree passes over the folders
  until none is left: one pass per folder suffices.  \<open>Trash_Properties\<close> shows that these bounds
  are enough.  The recursions over parents (\<open>folder_tree\<close>, \<open>ancestors\<close>, \<open>build_children\<close>) run on
  fuel, the number of folders or of fetched rows, and are \<open>None\<close> when it is used up: the query
  or the recursion of the code would not end; \<open>Drive_Properties\<close> shows that on a forest it does
  end.  \<open>tree_levels\<close> counts the levels the request asks for.  The 1001 candidate names of a restore, the 20 pages of a cleanup and the 31
  doublings of a retry delay are bounds of the code.

  \<^bold>\<open>Parameters.\<close>  The staging and blob stores are records of functions over \<open>'w\<close>; a rolled back
  transaction leaves what they did in place.  SHA-256 and MD5 are functions; \<open>ts_hash_order\<close> is
  the iteration order of an unordered map, of which only \<open>hash_order_ok\<close> (a permutation) is
  assumed; \<open>order_by_path\<close> is the collation of the folder tree query, of which only a
  permutation is assumed; \<open>wk_locked\<close> says which rows SKIP LOCKED skips and \<open>wk_ownership_lost\<close> whether the
  heartbeat timer saw the lease lost.

  \<^bold>\<open>Not modelled.\<close>  The storage backends beyond the read streams (file system, HTTP and AWS
  signing).  Redis and jsoncpp: values in parsed form.  Logging, metrics and fault injection: no
  effect on the state.  VARCHAR limits that no code checks.  The listing of the trash and the
  field and value strings of failed batch items.  The timers of the worker runtime, the seeding
  of periodic jobs and the multipart journal, recovery and job administration, the listings of
  files with their query builders, shares, users and authentication.  Transactions are atomic:
  what READ COMMITTED lets another session change between two statements of a transaction is
  outside the model (a finding names the consequence for moves).  A copy is modelled but not
  among the requests of \<open>serve\<close>: it holds a reservation between its transactions that no upload
  accounts for (\<open>holds\<close>), and its property assumes that the other sessions keep the invariant
  beside that hold (\<open>steady\<close>).  ORM models are generated from the schema; the desktop and web clients are user
  interfaces.
\<close>

end
